(* ===== verification/JsPrelude.thy ===== *)
theory JsPrelude
  imports Main "HOL-Library.AList" "HOL-Library.Multiset"
begin

text \<open>
  What every component model shares: JavaScript values, strings and plain objects, and the
  lemma collections the component proofs use.

  \<^item> A plain object used as a dictionary is an association list in insertion order
    (\<open>('k, 'v) obj\<close>): \<open>o[k] = v\<close> is \<open>obj_set\<close> (in place, or appended when the key is new),
    \<open>delete o[k]\<close> is \<open>obj_del\<close>, \<open>Object.keys\<close> is \<open>obj_keys\<close>. This is the order of the
    language for keys that are not array indices; host, group and request ids are UUIDs or
    fixed words, never array indices.
  \<^item> A string is a list of code units 0 to 255 (\<open>string\<close>). White space, \<open>toLowerCase\<close> and
    \<open>toUpperCase\<close> are those of the language on that range.
  \<^item> A dynamically typed value, where the code tests types at run time, is a \<open>js\<close>.
  \<^item> A thrown error is the left side of a sum.
\<close>

named_theorems obj_simps "lookup and key laws of plain objects"
named_theorems wf_intros "operations that keep objects free of duplicate keys"

section \<open>Plain objects\<close>

type_synonym ('k, 'v) obj = "('k \<times> 'v) list"

abbreviation obj_get :: "('k, 'v) obj \<Rightarrow> 'k \<Rightarrow> 'v option" where
  "obj_get \<equiv> map_of"

abbreviation obj_set :: "'k \<Rightarrow> 'v \<Rightarrow> ('k, 'v) obj \<Rightarrow> ('k, 'v) obj" where
  "obj_set \<equiv> AList.update"

abbreviation obj_del :: "'k \<Rightarrow> ('k, 'v) obj \<Rightarrow> ('k, 'v) obj" where
  "obj_del \<equiv> AList.delete"

abbreviation obj_keys :: "('k, 'v) obj \<Rightarrow> 'k list" where
  "obj_keys ob \<equiv> map fst ob"

abbreviation obj_vals :: "('k, 'v) obj \<Rightarrow> 'v list" where
  "obj_vals ob \<equiv> map snd ob"

definition obj_wf :: "('k, 'v) obj \<Rightarrow> bool" where
  "obj_wf ob \<longleftrightarrow> distinct (obj_keys ob)"

text \<open>The loop \<open>for (const k of Object.keys(o)) if (!valid.has(k)) delete o[k]\<close>.\<close>

definition obj_prune :: "('k \<Rightarrow> bool) \<Rightarrow> ('k, 'v) obj \<Rightarrow> ('k, 'v) obj" where
  "obj_prune valid ob = fold (\<lambda>k m. if valid k then m else obj_del k m) (obj_keys ob) ob"

subsection \<open>The contract of a keyed store\<close>

text \<open>
  What the slices rely on when they keep per-host data under the host's uid: a lookup sees
  the last write of its own key, and a deletion removes that key only.
\<close>

locale keyed_store =
  fixes get :: "'m \<Rightarrow> 'k \<Rightarrow> 'v option"
    and put :: "'k \<Rightarrow> 'v \<Rightarrow> 'm \<Rightarrow> 'm"
    and del :: "'k \<Rightarrow> 'm \<Rightarrow> 'm"
    and dom_keys :: "'m \<Rightarrow> 'k set"
  assumes get_put: "get (put k v m) k' = (if k' = k then Some v else get m k')"
    and get_del: "get (del k m) k' = (if k' = k then None else get m k')"
    and dom_get: "k \<in> dom_keys m \<longleftrightarrow> get m k \<noteq> None"
begin

lemma dom_put: "dom_keys (put k v m) = insert k (dom_keys m)"
  by (auto simp: dom_get get_put split: if_splits)

lemma dom_del: "dom_keys (del k m) = dom_keys m - {k}"
  by (auto simp: dom_get get_del split: if_splits)

lemma get_del_many: "get (fold del ks m) k = (if k \<in> set ks then None else get m k)"
  by (induction ks arbitrary: m) (auto simp: get_del)

lemma get_del_unless:
  "get (fold (\<lambda>k m. if P k then m else del k m) ks m) k =
     (if k \<in> set ks \<and> \<not> P k then None else get m k)"
  by (induction ks arbitrary: m) (auto simp: get_del)

lemma dom_del_unless:
  "dom_keys (fold (\<lambda>k m. if P k then m else del k m) ks m) =
     dom_keys m - {k \<in> set ks. \<not> P k}"
  by (auto simp: dom_get get_del_unless split: if_splits)

end

lemma map_of_obj_del: "map_of (obj_del k m) k' = (if k' = k then None else map_of m k')"
  by (simp add: delete_conv' fun_upd_def)

lemma map_of_obj_set: "map_of (obj_set k v m) k' = (if k' = k then Some v else map_of m k')"
  by (simp add: update_conv' fun_upd_def)

interpretation js_object: keyed_store map_of AList.update AList.delete "\<lambda>m. fst ` set m"
  by unfold_locales (auto simp: map_of_obj_set map_of_obj_del map_of_eq_None_iff)

lemmas [obj_simps] = map_of_obj_set map_of_obj_del js_object.dom_put js_object.dom_del

lemma obj_wf_Nil [wf_intros, simp]: "obj_wf []"
  by (simp add: obj_wf_def)

lemma obj_wf_set [wf_intros]: "obj_wf ob \<Longrightarrow> obj_wf (obj_set k v ob)"
  by (simp add: obj_wf_def distinct_update)

lemma obj_wf_del [wf_intros]: "obj_wf ob \<Longrightarrow> obj_wf (obj_del k ob)"
  by (simp add: obj_wf_def distinct_delete)

lemma obj_wf_prune [wf_intros]: "obj_wf ob \<Longrightarrow> obj_wf (obj_prune valid ob)"
proof -
  have "obj_wf m \<Longrightarrow> obj_wf (fold (\<lambda>k m. if valid k then m else obj_del k m) ks m)" for ks m
    by (induction ks arbitrary: m) (auto intro: obj_wf_del)
  then show "obj_wf ob \<Longrightarrow> obj_wf (obj_prune valid ob)"
    by (simp add: obj_prune_def)
qed

lemma obj_get_prune [obj_simps]:
  "map_of (obj_prune valid ob) k = (if valid k then map_of ob k else None)"
  by (auto simp: obj_prune_def js_object.get_del_unless map_of_eq_None_iff)

lemma obj_keys_prune [obj_simps]:
  "fst ` set (obj_prune valid ob) = {k \<in> fst ` set ob. valid k}"
  by (auto simp: obj_prune_def js_object.dom_del_unless)

lemma obj_keys_set_mem [obj_simps]: "set (obj_keys (obj_set k v ob)) = insert k (set (obj_keys ob))"
  by (simp add: dom_update)

lemma map_of_obj_wf: "obj_wf ob \<Longrightarrow> (k, v) \<in> set ob \<longleftrightarrow> map_of ob k = Some v"
  by (simp add: obj_wf_def)

text \<open>An array that is used as a set: pushed to only when the element is not included.\<close>

definition push_new :: "'a \<Rightarrow> 'a list \<Rightarrow> 'a list" where
  "push_new x xs = (if x \<in> set xs then xs else xs @ [x])"

lemma set_push_new [simp]: "set (push_new x xs) = insert x (set xs)"
  by (auto simp: push_new_def)

lemma distinct_push_new [wf_intros]: "distinct xs \<Longrightarrow> distinct (push_new x xs)"
  by (simp add: push_new_def)

lemma distinct_fold_push_new [wf_intros]:
  "distinct xs \<Longrightarrow> distinct (fold (\<lambda>y acc. if P y then push_new (f y) acc else acc) ys xs)"
  by (induction ys arbitrary: xs) (auto intro: distinct_push_new)

lemma set_fold_push_new:
  "set (fold (\<lambda>y acc. if P y then push_new (f y) acc else acc) ys xs) =
     set xs \<union> f ` {y \<in> set ys. P y}"
  by (induction ys arbitrary: xs) auto

lemma find_SomeD: "find P xs = Some x \<Longrightarrow> x \<in> set xs \<and> P x"
  by (auto simp: find_Some_iff)

section \<open>Strings\<close>

definition js_ws :: "char \<Rightarrow> bool" where
  "js_ws c \<longleftrightarrow> (let n = of_char c :: nat in (9 \<le> n \<and> n \<le> 13) \<or> n = 32 \<or> n = 160)"

definition trim :: "string \<Rightarrow> string" where
  "trim s = rev (dropWhile js_ws (rev (dropWhile js_ws s)))"

definition lower_char :: "char \<Rightarrow> char" where
  "lower_char c = (let n = of_char c :: nat in
     if (65 \<le> n \<and> n \<le> 90) \<or> (192 \<le> n \<and> n \<le> 222 \<and> n \<noteq> 215) then char_of (n + 32) else c)"

definition lower :: "string \<Rightarrow> string" where
  "lower s = map lower_char s"

text \<open>The two letters whose capital is outside the range (181, 255) are left as they are.\<close>

definition upper_char :: "char \<Rightarrow> string" where
  "upper_char c = (let n = of_char c :: nat in
     if (97 \<le> n \<and> n \<le> 122) \<or> (224 \<le> n \<and> n \<le> 254 \<and> n \<noteq> 247) then [char_of (n - 32)]
     else if n = 223 then ''SS'' else [c])"

definition upper :: "string \<Rightarrow> string" where
  "upper s = concat (map upper_char s)"

text \<open>\<open>s.split(d)\<close> for a single character.\<close>

fun split_on :: "char \<Rightarrow> string \<Rightarrow> string list" where
  "split_on d [] = [[]]"
| "split_on d (c # cs) =
     (if c = d then [] # split_on d cs
      else (case split_on d cs of [] \<Rightarrow> [[c]] | s # ss \<Rightarrow> (c # s) # ss))"

text \<open>\<open>a || b\<close> where \<open>a\<close> is a string or undefined.\<close>

definition str_or :: "string option \<Rightarrow> string \<Rightarrow> string" where
  "str_or a b = (case a of None \<Rightarrow> b | Some s \<Rightarrow> if s = [] then b else s)"

fun starts_with :: "string \<Rightarrow> string \<Rightarrow> bool" where
  "starts_with [] s = True"
| "starts_with (p # ps) [] = False"
| "starts_with (p # ps) (c # cs) = (p = c \<and> starts_with ps cs)"

fun nat_str :: "nat \<Rightarrow> string" where
  "nat_str n = (if n < 10 then [char_of (48 + n)] else nat_str (n div 10) @ [char_of (48 + n mod 10)])"

declare nat_str.simps [simp del]

definition int_str :: "int \<Rightarrow> string" where
  "int_str i = (if i < 0 then CHR ''-'' # nat_str (nat (- i)) else nat_str (nat i))"

text \<open>\<open>/\d/\<close> and the number that a run of digits stands for.\<close>

definition is_digit :: "char \<Rightarrow> bool" where
  "is_digit c \<longleftrightarrow> (let n = of_char c :: nat in 48 \<le> n \<and> n \<le> 57)"

definition digits_value :: "string \<Rightarrow> int" where
  "digits_value ds = foldl (\<lambda>acc c. acc * 10 + (of_char c - 48)) 0 ds"

lemma starts_with_append: "starts_with p s \<longleftrightarrow> (\<exists>r. s = p @ r)"
  by (induction p s rule: starts_with.induct) auto

lemma starts_with_self [simp]: "starts_with p (p @ r)"
  by (simp add: starts_with_append)

lemma lower_char_idem [simp]: "lower_char (lower_char c) = lower_char c"
  by (auto simp: lower_char_def Let_def)

lemma lower_idem [simp]: "lower (lower s) = lower s"
  by (simp add: lower_def)

lemma length_lower [simp]: "length (lower s) = length s"
  by (simp add: lower_def)

lemma lower_Nil [simp]: "lower s = [] \<longleftrightarrow> s = []"
  by (simp add: lower_def)

lemma trim_Nil [simp]: "trim [] = []"
  by (simp add: trim_def)

lemma trim_empty_iff: "trim s = [] \<longleftrightarrow> (\<forall>c \<in> set s. js_ws c)"
proof (cases "dropWhile js_ws s")
  case Nil
  then have "trim s = []" by (simp only: trim_def rev.simps dropWhile.simps)
  with Nil show ?thesis by (simp add: dropWhile_eq_Nil_conv)
next
  case (Cons a as)
  then have "\<not> js_ws a" by (simp add: dropWhile_eq_Cons_conv)
  with Cons have "trim s \<noteq> []" by (simp add: trim_def dropWhile_eq_Nil_conv)
  moreover have "a \<in> set s" using Cons by (metis list.set_intros(1) set_dropWhileD)
  ultimately show ?thesis using \<open>\<not> js_ws a\<close> by blast
qed

lemma dropWhile_dropWhile_rev:
  "dropWhile P (rev (dropWhile P (rev (dropWhile P s)))) = rev (dropWhile P (rev (dropWhile P s)))"
proof (cases "dropWhile P s")
  case Nil
  then show ?thesis by (simp only: rev.simps dropWhile.simps)
next
  case (Cons a as)
  then have "\<not> P a" by (simp add: dropWhile_eq_Cons_conv)
  then have "dropWhile P (rev (a # as)) = dropWhile P (rev as) @ [a]"
    by (cases "\<exists>x\<in>set as. \<not> P x") (auto simp: dropWhile_append)
  with Cons \<open>\<not> P a\<close> show ?thesis by simp
qed

lemma trim_idem [simp]: "trim (trim s) = trim s"
  by (simp only: trim_def dropWhile_dropWhile_rev rev_rev_ident dropWhile_idem)

subsection \<open>Decimal numerals\<close>

lemma digit_char: "(n :: nat) < 10 \<Longrightarrow> of_char (char_of (48 + n) :: char) = 48 + n"
  by (simp add: of_char_of)

lemma digit_char_int: "(n :: nat) < 10 \<Longrightarrow> (of_char (char_of (48 + n) :: char) :: int) = 48 + int n"
proof -
  assume "n < 10"
  then have "(of_char (char_of (48 + n) :: char) :: nat) = 48 + n" by (simp add: of_char_of)
  then have "int (of_char (char_of (48 + n) :: char)) = 48 + int n" by simp
  then show ?thesis by (simp only: of_nat_of_char)
qed

lemma is_digit_char: "(n :: nat) < 10 \<Longrightarrow> is_digit (char_of (48 + n))"
  by (simp add: is_digit_def Let_def of_char_of)

lemma nat_str_small: "n < 10 \<Longrightarrow> nat_str n = [char_of (48 + n)]"
  by (subst nat_str.simps) simp

lemma nat_str_large: "\<not> n < 10 \<Longrightarrow> nat_str n = nat_str (n div 10) @ [char_of (48 + n mod 10)]"
  by (subst nat_str.simps) simp

lemma nat_str_digits: "list_all is_digit (nat_str n)"
proof (induction n rule: nat_str.induct)
  case (1 n)
  show ?case
  proof (cases "n < 10")
    case True
    then show ?thesis by (simp add: nat_str_small is_digit_char)
  next
    case False
    with 1 show ?thesis by (simp add: nat_str_large [OF False] is_digit_char)
  qed
qed

lemma digits_value_snoc: "digits_value (ds @ [c]) = digits_value ds * 10 + (of_char c - 48)"
  by (simp add: digits_value_def)

lemma digits_value_nat_str: "digits_value (nat_str n) = int n"
proof (induction n rule: nat_str.induct)
  case (1 n)
  show ?case
  proof (cases "n < 10")
    case True
    show ?thesis
      using digit_char_int [OF True] by (simp only: nat_str_small [OF True] digits_value_def) simp
  next
    case False
    have d: "(of_char (char_of (48 + n mod 10) :: char) :: int) = 48 + int (n mod 10)"
      by (rule digit_char_int) simp
    have "digits_value (nat_str n) = int (n div 10) * 10 + int (n mod 10)"
      using 1 [OF False] d by (simp only: nat_str_large [OF False] digits_value_snoc add_diff_cancel_left')
    also have "\<dots> = int (n div 10 * 10 + n mod 10)" by (simp only: of_nat_add of_nat_mult of_nat_numeral)
    also have "\<dots> = int n" by (simp only: div_mult_mod_eq)
    finally show ?thesis .
  qed
qed

lemma nat_str_inj: "nat_str m = nat_str n \<Longrightarrow> m = n"
  by (metis digits_value_nat_str of_nat_eq_iff)

lemma nat_str_nonempty: "nat_str n \<noteq> []"
  by (subst nat_str.simps) simp

lemma dropWhile_none: "\<forall>c \<in> set s. \<not> P c \<Longrightarrow> dropWhile P s = s"
  by (cases s) simp_all

lemma trim_no_ws: "\<forall>c \<in> set s. \<not> js_ws c \<Longrightarrow> trim s = s"
  by (simp add: trim_def dropWhile_none)

lemma digit_not_ws: "is_digit c \<Longrightarrow> \<not> js_ws c"
  by (auto simp: is_digit_def js_ws_def Let_def)

lemma trim_nat_str: "trim (nat_str n) = nat_str n"
  using nat_str_digits [of n] by (intro trim_no_ws) (auto simp: list_all_iff digit_not_ws)

section \<open>Dynamically typed values\<close>

datatype js =
    Undefined
  | Null
  | Bool bool
  | Num int
  | Str string
  | Arr "js list"
  | Obj "(string \<times> js) list"

datatype js_error = TypeError | Thrown string

fun truthy :: "js \<Rightarrow> bool" where
  "truthy Undefined = False"
| "truthy Null = False"
| "truthy (Bool b) = b"
| "truthy (Num n) = (n \<noteq> 0)"
| "truthy (Str s) = (s \<noteq> [])"
| "truthy (Arr _) = True"
| "truthy (Obj _) = True"

text \<open>
  \<open>v?.k\<close>: undefined on a missing value. Reading an ordinary property name of a primitive or
  of an array gives undefined too (the names read here are never built-in ones).
\<close>

fun js_get :: "js \<Rightarrow> string \<Rightarrow> js" where
  "js_get (Obj o') k = (case map_of o' k of None \<Rightarrow> Undefined | Some v \<Rightarrow> v)"
| "js_get _ k = Undefined"

text \<open>\<open>v.k\<close>: the same, but a missing value raises.\<close>

fun js_dot :: "js \<Rightarrow> string \<Rightarrow> js_error + js" where
  "js_dot Undefined k = Inl TypeError"
| "js_dot Null k = Inl TypeError"
| "js_dot v k = Inr (js_get v k)"

text \<open>\<open>xs.join(sep)\<close> and \<open>String(v)\<close>.\<close>

fun join :: "string \<Rightarrow> string list \<Rightarrow> string" where
  "join sep [] = []"
| "join sep [x] = x"
| "join sep (x # xs) = x @ sep @ join sep xs"

fun js_string :: "js \<Rightarrow> string" where
  "js_string Undefined = ''undefined''"
| "js_string Null = ''null''"
| "js_string (Bool b) = (if b then ''true'' else ''false'')"
| "js_string (Num n) = int_str n"
| "js_string (Str s) = s"
| "js_string (Arr vs) =
     join '','' (map (\<lambda>v. if v = Undefined \<or> v = Null then [] else js_string v) vs)"
| "js_string (Obj _) = ''[object Object]''"

definition js_or :: "js \<Rightarrow> js \<Rightarrow> js" where
  "js_or a b = (if truthy a then a else b)"

text \<open>\<open>Array.isArray(v) ? v : (v ? [v] : [])\<close>, written out in several places of the code.\<close>

fun ensureArray :: "js \<Rightarrow> js list" where
  "ensureArray (Arr vs) = vs"
| "ensureArray v = (if truthy v then [v] else [])"

definition res_bind :: "'e + 'a \<Rightarrow> ('a \<Rightarrow> 'e + 'b) \<Rightarrow> 'e + 'b" where
  "res_bind r f = (case r of Inl e \<Rightarrow> Inl e | Inr x \<Rightarrow> f x)"

lemma res_bind_Inl [simp]: "res_bind (Inl e) f = Inl e"
  by (simp add: res_bind_def)

lemma res_bind_Inr [simp]: "res_bind (Inr x) f = f x"
  by (simp add: res_bind_def)

text \<open>\<open>xs.map(f)\<close> where \<open>f\<close> may raise.\<close>

fun res_map :: "('a \<Rightarrow> 'e + 'b) \<Rightarrow> 'a list \<Rightarrow> 'e + 'b list" where
  "res_map f [] = Inr []"
| "res_map f (x # xs) = res_bind (f x) (\<lambda>y. res_bind (res_map f xs) (\<lambda>ys. Inr (y # ys)))"

lemma res_bind_eq_Inr: "res_bind r f = Inr y \<longleftrightarrow> (\<exists>x. r = Inr x \<and> f x = Inr y)"
  by (cases r) auto

section \<open>Reducers\<close>

text \<open>The actions a thunk settles in.\<close>

datatype ('p, 'e) phase = Pending | Fulfilled 'p | Rejected 'e

lemma fold_stable:
  "(\<And>a s. a \<in> set as \<Longrightarrow> P s \<Longrightarrow> P (f a s)) \<Longrightarrow> P s \<Longrightarrow> P (fold f as s)"
  by (induction as arbitrary: s) auto

text \<open>
  The contract between a store and a slice: every action the store can dispatch keeps the
  slice's invariant. What holds of one dispatch then holds of any sequence of them.
\<close>

locale slice =
  fixes step :: "'a \<Rightarrow> 's \<Rightarrow> 's"
    and inv :: "'s \<Rightarrow> bool"
  assumes step_inv: "inv s \<Longrightarrow> inv (step a s)"
begin

lemma run_inv: "inv s \<Longrightarrow> inv (fold step as s)"
  by (induction as arbitrary: s) (auto intro: step_inv)

lemma run_prefix_inv: "inv s \<Longrightarrow> inv (fold step (take n as) s)"
  by (rule run_inv)

text \<open>A fact that every action of a class keeps is kept by a run of that class.\<close>

lemma run_stable:
  assumes "\<And>a s. a \<in> set as \<Longrightarrow> inv s \<Longrightarrow> P s \<Longrightarrow> P (step a s)"
    and "inv s" "P s"
  shows "P (fold step as s)"
proof -
  have "inv (fold step as s) \<and> P (fold step as s)"
    by (rule fold_stable) (use assms step_inv in auto)
  then show ?thesis ..
qed

end

text \<open>A slice with a counter that no action ever lowers.\<close>

locale monotone_slice = slice +
  fixes mark :: "'s \<Rightarrow> nat"
  assumes step_mono: "inv s \<Longrightarrow> mark s \<le> mark (step a s)"
begin

lemma run_mono: "inv s \<Longrightarrow> mark s \<le> mark (fold step as s)"
proof (induction as arbitrary: s)
  case Nil
  then show ?case by simp
next
  case (Cons a as)
  have "mark s \<le> mark (step a s)" by (rule step_mono [OF Cons.prems])
  also have "\<dots> \<le> mark (fold step as (step a s))"
    by (rule Cons.IH [OF step_inv [OF Cons.prems]])
  finally show ?case by simp
qed

end

end
