(* ===== verification/HostGroups.thy ===== *)
theory HostGroups
  imports JsPrelude
begin

text \<open>
  Model of \<open>apps/web-manager/src/features/host/hostGroupUtils.js\<close>: the host tree the server
  sends (groups in order, each with its hosts) and the lookups every host feature shares.
  A missing optional string (alias, address) is the empty string, which the code treats the
  same way everywhere; a missing \<open>hosts\<close> map is the empty object, likewise.
  \<open>localeCompare\<close> depends on the browser's locale and is a parameter (\<open>lc\<close>).
\<close>

section \<open>Hosts and groups\<close>

record host_info =
  hi_uid :: string
  hi_id :: string
  hi_address :: string
  hi_port :: int
  hi_alias :: string
  hi_initialLogin :: bool
  hi_cmsSessionExpiresAt :: "int option"

record host_group =
  hg_name :: string
  hg_hosts :: "(string, host_info) obj"
  hg_defaultHostUid :: "string option"

type_synonym host_groups = "(string, host_group) obj"

definition UNGROUPED_GROUP_ID :: string where
  "UNGROUPED_GROUP_ID = ''__ungrouped__''"

definition flattenHostsFromGroups :: "host_groups \<Rightarrow> host_info list" where
  "flattenHostsFromGroups gs = concat (map (\<lambda>g. obj_vals (hg_hosts g)) (obj_vals gs))"

definition findHostUidByConnection :: "host_groups \<Rightarrow> string \<Rightarrow> string \<Rightarrow> string \<Rightarrow> string option" where
  "findHostUidByConnection gs address port hid =
     map_option hi_uid
       (find (\<lambda>h. hi_address h = address \<and> int_str (hi_port h) = port \<and> hi_id h = hid)
         (flattenHostsFromGroups gs))"

definition findGroupIdForHost :: "host_groups \<Rightarrow> string option \<Rightarrow> string option" where
  "findGroupIdForHost gs hostUid =
     (case hostUid of
        None \<Rightarrow> None
      | Some u \<Rightarrow> if u = [] then None
          else map_option fst (find (\<lambda>(gid, g). map_of (hg_hosts g) u \<noteq> None) gs))"

definition findNewGroupId :: "host_groups \<Rightarrow> host_groups \<Rightarrow> string option" where
  "findNewGroupId previousGroups nextGroups =
     find (\<lambda>gid. gid \<notin> set (obj_keys previousGroups)) (obj_keys nextGroups)"

definition getGroupHostUids :: "host_group option \<Rightarrow> string list" where
  "getGroupHostUids g = (case g of None \<Rightarrow> [] | Some g \<Rightarrow> obj_keys (hg_hosts g))"

definition getUnauthorizedHostUids ::
  "host_groups \<Rightarrow> string list \<Rightarrow> string option \<Rightarrow> string list" where
  "getUnauthorizedHostUids gs authorizedHosts groupId =
     (let groups = (case groupId of
            None \<Rightarrow> gs
          | Some gid \<Rightarrow> if gid = [] then gs
              else (case map_of gs gid of None \<Rightarrow> [] | Some g \<Rightarrow> [(gid, g)]))
      in concat (map (\<lambda>(_, g). filter (\<lambda>u. u \<notin> set authorizedHosts) (obj_keys (hg_hosts g))) groups))"

definition resolveDefaultHostUid :: "host_group option \<Rightarrow> string option" where
  "resolveDefaultHostUid grp =
     (case grp of None \<Rightarrow> None
      | Some g \<Rightarrow>
        (case hg_defaultHostUid g of
           Some d \<Rightarrow> if d \<noteq> [] \<and> map_of (hg_hosts g) d \<noteq> None then Some d
             else (case getGroupHostUids (Some g) of [] \<Rightarrow> None | u # _ \<Rightarrow> Some u)
         | None \<Rightarrow> (case getGroupHostUids (Some g) of [] \<Rightarrow> None | u # _ \<Rightarrow> Some u)))"

section \<open>Sorting with a comparator\<close>

text \<open>
  \<open>Array.prototype.sort\<close> is stable; for a consistent comparator its result is the one stable
  sorted arrangement, which insertion from the right computes.
\<close>

fun js_insort :: "('a \<Rightarrow> 'a \<Rightarrow> int) \<Rightarrow> 'a \<Rightarrow> 'a list \<Rightarrow> 'a list" where
  "js_insort cmp x [] = [x]"
| "js_insort cmp x (y # ys) = (if cmp x y \<le> 0 then x # y # ys else y # js_insort cmp x ys)"

definition js_sort :: "('a \<Rightarrow> 'a \<Rightarrow> int) \<Rightarrow> 'a list \<Rightarrow> 'a list" where
  "js_sort cmp xs = foldr (js_insort cmp) xs []"

text \<open>What the language asks of a comparator: a total preorder.\<close>

definition consistent_cmp :: "('a \<Rightarrow> 'a \<Rightarrow> int) \<Rightarrow> bool" where
  "consistent_cmp cmp \<longleftrightarrow>
     (\<forall>a b. cmp a b \<le> 0 \<or> cmp b a \<le> 0) \<and>
     (\<forall>a b c. cmp a b \<le> 0 \<and> cmp b c \<le> 0 \<longrightarrow> cmp a c \<le> 0)"

lemma consistent_cmp_total: "consistent_cmp cmp \<Longrightarrow> cmp a b \<le> 0 \<or> cmp b a \<le> 0"
  unfolding consistent_cmp_def by (drule conjunct1) blast

lemma consistent_cmp_trans:
  assumes "consistent_cmp cmp" "cmp a b \<le> 0" "cmp b c \<le> 0"
  shows "cmp a c \<le> 0"
proof -
  from assms(1) have "\<forall>a b c. cmp a b \<le> 0 \<and> cmp b c \<le> 0 \<longrightarrow> cmp a c \<le> 0"
    unfolding consistent_cmp_def by (rule conjunct2)
  from this [rule_format, OF conjI [OF assms(2,3)]] show ?thesis .
qed

lemma set_js_insort [simp]: "set (js_insort cmp x ys) = insert x (set ys)"
  by (induction ys) auto

lemma mset_js_insort [simp]: "mset (js_insort cmp x ys) = add_mset x (mset ys)"
  by (induction ys) auto

lemma mset_js_sort [simp]: "mset (js_sort cmp xs) = mset xs"
  unfolding js_sort_def by (induction xs) auto

lemma set_js_sort [simp]: "set (js_sort cmp xs) = set xs"
  by (rule mset_eq_setD) simp

lemma sorted_js_insort:
  assumes "consistent_cmp cmp" "sorted_wrt (\<lambda>a b. cmp a b \<le> 0) ys"
  shows "sorted_wrt (\<lambda>a b. cmp a b \<le> 0) (js_insort cmp x ys)"
  using assms(2)
proof (induction ys)
  case Nil
  then show ?case by simp
next
  case (Cons y ys)
  show ?case
  proof (cases "cmp x y \<le> 0")
    case True
    have "cmp x z \<le> 0" if "z \<in> set ys" for z
      using True Cons.prems that consistent_cmp_trans[OF assms(1)] by auto
    with True Cons.prems show ?thesis by simp
  next
    case False
    then have "cmp y x \<le> 0" using consistent_cmp_total[OF assms(1), of x y] by blast
    with Cons.prems have "\<forall>z \<in> insert x (set ys). cmp y z \<le> 0" by simp
    with Cons False show ?thesis by simp
  qed
qed

lemma sorted_js_sort:
  "consistent_cmp cmp \<Longrightarrow> sorted_wrt (\<lambda>a b. cmp a b \<le> 0) (js_sort cmp xs)"
  unfolding js_sort_def by (induction xs) (auto intro: sorted_js_insort)

definition orderedGroupEntries ::
  "(string \<Rightarrow> string \<Rightarrow> int) \<Rightarrow> host_groups \<Rightarrow> (string \<times> host_group) list" where
  "orderedGroupEntries lc gs =
     js_sort (\<lambda>(idA, a) (idB, b).
       let aUngrouped = (idA = UNGROUPED_GROUP_ID); bUngrouped = (idB = UNGROUPED_GROUP_ID)
       in if aUngrouped \<noteq> bUngrouped then (if aUngrouped then 1 else -1)
          else lc (hg_name a) (hg_name b)) gs"

section \<open>High-availability roles\<close>

record ha_node =
  hn_ip :: string
  hn_hostname :: string
  hn_state :: string

record ha_info =
  hai_isHA :: js
  hai_currentNodeType :: "string option"
  hai_haNodes :: "ha_node list"

definition HA_ROLE_SORT_ORDER :: "(string, int) obj" where
  "HA_ROLE_SORT_ORDER = [(''master'', 0), (''slave'', 1), (''replica'', 2)]"

definition inferHaNodeType :: "ha_info option \<Rightarrow> string option" where
  "inferHaNodeType haInfoEntry =
     (case haInfoEntry of
        None \<Rightarrow> None
      | Some e \<Rightarrow>
        if truthy (hai_isHA e) then
          (case hai_currentNodeType e of
             None \<Rightarrow> None
           | Some t \<Rightarrow> if t \<noteq> [] \<and> map_of HA_ROLE_SORT_ORDER t \<noteq> None then Some t else None)
        else None)"

definition roleRank :: "(string, ha_info) obj \<Rightarrow> string \<Rightarrow> int" where
  "roleRank haInfoByUid u =
     (case inferHaNodeType (map_of haInfoByUid u) of
        None \<Rightarrow> 99
      | Some role \<Rightarrow> (case map_of HA_ROLE_SORT_ORDER role of None \<Rightarrow> 99 | Some r \<Rightarrow> r))"

definition hostLabel :: "(string, host_info) obj \<Rightarrow> string \<Rightarrow> string" where
  "hostLabel hostsByUid u =
     (case map_of hostsByUid u of
        None \<Rightarrow> lower u
      | Some h \<Rightarrow> lower (if hi_alias h \<noteq> [] then hi_alias h else if hi_id h \<noteq> [] then hi_id h else u))"

definition sortHostUidsByHaRole ::
  "(string \<Rightarrow> string \<Rightarrow> int) \<Rightarrow> string list \<Rightarrow> (string, host_info) obj \<Rightarrow> (string, ha_info) obj
    \<Rightarrow> string list" where
  "sortHostUidsByHaRole lc hostUids hostsByUid haInfoByUid =
     js_sort (\<lambda>a b.
       let byRole = roleRank haInfoByUid a - roleRank haInfoByUid b
       in if byRole \<noteq> 0 then byRole else lc (hostLabel hostsByUid a) (hostLabel hostsByUid b))
       hostUids"

section \<open>Well-formed trees\<close>

text \<open>
  The server stores a host under its own uid and under one group only (\<open>host-group.util.ts\<close>);
  group ids and uids are not empty.
\<close>

definition groups_wf :: "host_groups \<Rightarrow> bool" where
  "groups_wf gs \<longleftrightarrow> obj_wf gs \<and> [] \<notin> set (obj_keys gs) \<and>
     (\<forall>(gid, g) \<in> set gs. obj_wf (hg_hosts g) \<and>
        (\<forall>(u, h) \<in> set (hg_hosts g). hi_uid h = u \<and> u \<noteq> [])) \<and>
     (\<forall>(gid, g) \<in> set gs. \<forall>(gid', g') \<in> set gs. gid \<noteq> gid' \<longrightarrow>
        set (obj_keys (hg_hosts g)) \<inter> set (obj_keys (hg_hosts g')) = {})"

definition in_group :: "host_groups \<Rightarrow> string \<Rightarrow> string \<Rightarrow> bool" where
  "in_group gs gid u \<longleftrightarrow> (\<exists>g. (gid, g) \<in> set gs \<and> u \<in> set (obj_keys (hg_hosts g)))"

lemma flatten_mem:
  "h \<in> set (flattenHostsFromGroups gs) \<longleftrightarrow> (\<exists>gid g u. (gid, g) \<in> set gs \<and> (u, h) \<in> set (hg_hosts g))"
  by (force simp: flattenHostsFromGroups_def)

lemma groups_wf_uid:
  assumes "groups_wf gs" "(gid, g) \<in> set gs" "(u, h) \<in> set (hg_hosts g)"
  shows "hi_uid h = u" "u \<noteq> []"
  using assms unfolding groups_wf_def by fastforce+

lemma in_group_unique:
  assumes "groups_wf gs" "in_group gs a u" "in_group gs b u"
  shows "a = b"
proof (rule ccontr)
  assume "a \<noteq> b"
  from assms obtain g g' where "(a, g) \<in> set gs" "u \<in> set (obj_keys (hg_hosts g))"
    "(b, g') \<in> set gs" "u \<in> set (obj_keys (hg_hosts g'))"
    unfolding in_group_def by blast
  with assms(1) \<open>a \<noteq> b\<close> show False unfolding groups_wf_def by blast
qed

lemma findGroupIdForHost_SomeD:
  assumes "findGroupIdForHost gs (Some u) = Some gid"
  shows "u \<noteq> [] \<and> in_group gs gid u"
proof -
  from assms obtain g where "u \<noteq> []"
    and "find (\<lambda>(gid, g). map_of (hg_hosts g) u \<noteq> None) gs = Some (gid, g)"
    by (auto simp: findGroupIdForHost_def split: if_splits)
  then have "(gid, g) \<in> set gs" "map_of (hg_hosts g) u \<noteq> None"
    using find_SomeD by fastforce+
  with \<open>u \<noteq> []\<close> show ?thesis
    by (auto simp: in_group_def map_of_eq_None_iff)
qed

lemma findGroupIdForHost_None:
  "findGroupIdForHost gs (Some u) = None \<longleftrightarrow> u = [] \<or> (\<forall>gid. \<not> in_group gs gid u)"
  by (auto simp: findGroupIdForHost_def in_group_def find_None_iff map_of_eq_None_iff)

lemma findGroupIdForHost_NoneArg [simp]: "findGroupIdForHost gs None = None"
  by (simp add: findGroupIdForHost_def)

lemma findGroupIdForHost_iff:
  assumes "groups_wf gs"
  shows "findGroupIdForHost gs (Some u) = Some gid \<longleftrightarrow> u \<noteq> [] \<and> in_group gs gid u"
proof
  assume r: "u \<noteq> [] \<and> in_group gs gid u"
  then obtain gid' where "findGroupIdForHost gs (Some u) = Some gid'"
    using findGroupIdForHost_None by (cases "findGroupIdForHost gs (Some u)") auto
  with r assms show "findGroupIdForHost gs (Some u) = Some gid"
    using in_group_unique findGroupIdForHost_SomeD by metis
qed (rule findGroupIdForHost_SomeD)

lemma in_group_host:
  assumes "groups_wf gs" "in_group gs gid u"
  shows "u \<in> hi_uid ` set (flattenHostsFromGroups gs)"
  using assms groups_wf_uid unfolding in_group_def
  by (fastforce simp: flatten_mem image_iff)

lemma flatten_in_group:
  assumes "groups_wf gs" "h \<in> set (flattenHostsFromGroups gs)"
  shows "\<exists>gid. in_group gs gid (hi_uid h)" "hi_uid h \<noteq> []"
proof -
  from assms(2) obtain gid g u where g: "(gid, g) \<in> set gs" "(u, h) \<in> set (hg_hosts g)"
    by (auto simp: flatten_mem)
  with assms(1) have "hi_uid h = u" "u \<noteq> []" using groups_wf_uid by blast+
  with g show "\<exists>gid. in_group gs gid (hi_uid h)" "hi_uid h \<noteq> []"
    by (force simp: in_group_def)+
qed

end
