(* ===== verification/HaPeers.thy ===== *)
theory HaPeers
  imports HostGroups
begin

text \<open>
  Model of \<open>apps/web-manager/src/features/host/haPeerUtils.js\<close>: reading the HA heartbeat
  (a dynamically typed value), matching a registered host with a heartbeat node, and the
  discovery, same-group and merge plans computed from the matches. A missing string of a
  node (\<open>ip\<close>, \<open>hostname\<close>, \<open>state\<close>) is the empty string: the code reads each of them as
  \<open>value || ''\<close>.
\<close>

section \<open>The heartbeat\<close>

definition js_first :: "js list \<Rightarrow> js" where
  "js_first vs = (case vs of [] \<Rightarrow> Undefined | v # _ \<Rightarrow> v)"

definition extractHaHeartbeatNodes :: "js \<Rightarrow> js list" where
  "extractHaHeartbeatNodes haHeartbeat =
     (let nodeGroups = ensureArray (js_get haHeartbeat ''hanodelist'')
      in ensureArray (js_get (js_first nodeGroups) ''node''))"

text \<open>\<open>v.trim()\<close>: only a string has the method.\<close>

fun js_trim :: "js \<Rightarrow> js_error + string" where
  "js_trim (Str s) = Inr (trim s)"
| "js_trim _ = Inl TypeError"

text \<open>The rows the nested loops visit, in order (no step of the traversal can raise).\<close>

definition server_rows :: "js \<Rightarrow> string \<Rightarrow> js list" where
  "server_rows raw field =
     concat (map (\<lambda>entry. concat (map (\<lambda>server. ensureArray (js_get server field))
       (ensureArray (js_get entry ''server'')))) (ensureArray raw))"

fun collect_modes :: "js list \<Rightarrow> (js, string) obj \<Rightarrow> js_error + (js, string) obj" where
  "collect_modes [] modes = Inr modes"
| "collect_modes (row # rows) modes =
     (if truthy (js_get row ''dbname'') \<and> truthy (js_get row ''server_mode'') then
        res_bind (js_trim (js_get row ''server_mode''))
          (\<lambda>m. collect_modes rows (obj_set (js_get row ''dbname'') (lower m) modes))
      else collect_modes rows modes)"

definition getHaDbServerModes :: "js \<Rightarrow> js_error + (js, string) obj" where
  "getHaDbServerModes haHeartbeat =
     (let raw = js_get haHeartbeat ''hadbinfolist''
      in if \<not> truthy raw then Inr [] else collect_modes (server_rows raw ''dbmode'') [])"

definition block_elements :: "js list \<Rightarrow> js list" where
  "block_elements blocks = concat (map (\<lambda>block. ensureArray (js_get block ''element'')) blocks)"

definition isDatabaseInHa :: "js \<Rightarrow> string \<Rightarrow> bool" where
  "isDatabaseInHa haHeartbeat dbname =
     (let raw = js_get haHeartbeat ''hadbinfolist''
      in if \<not> truthy raw \<or> dbname = [] then False
         else list_ex (\<lambda>row. js_get row ''dbname'' = Str dbname)
           (server_rows raw ''dbmode'' @ server_rows raw ''dbprocinfo''
            @ block_elements (server_rows raw ''applylogdb'')
            @ block_elements (server_rows raw ''copylogdb'')))"

text \<open>The role a heartbeat node reports: \<open>(node.status || node.state || '').trim().toUpperCase()\<close>.\<close>

definition node_role :: "js \<Rightarrow> js_error + string" where
  "node_role node =
     res_bind (js_dot node ''status'') (\<lambda>status.
       res_bind (js_trim (js_or (js_or status (js_get node ''state'')) (Str [])))
         (\<lambda>s. Inr (upper s)))"

fun some_master :: "js list \<Rightarrow> js_error + bool" where
  "some_master [] = Inr False"
| "some_master (node # nodes) =
     res_bind (node_role node) (\<lambda>r. if r = ''MASTER'' then Inr True else some_master nodes)"

definition isHaClusterMissingMaster :: "js \<Rightarrow> js_error + bool" where
  "isHaClusterMissingMaster haHeartbeat =
     (let nodes = extractHaHeartbeatNodes haHeartbeat
      in if nodes = [] then Inr False else res_bind (some_master nodes) (\<lambda>b. Inr (\<not> b)))"

section \<open>Matching a host with a node\<close>

definition normalizeIdent :: "string \<Rightarrow> string" where
  "normalizeIdent v = lower (trim v)"

definition isLoopback :: "string \<Rightarrow> bool" where
  "isLoopback addr = (let v = lower (trim addr) in v = ''localhost'' \<or> v = ''127.0.0.1'')"

definition has_dot :: "string \<Rightarrow> bool" where
  "has_dot s \<longleftrightarrow> CHR ''.'' \<in> set s"

definition first_label :: "string \<Rightarrow> string" where
  "first_label s = takeWhile (\<lambda>c. c \<noteq> CHR ''.'') s"

definition hostnameMatches :: "string \<Rightarrow> string \<Rightarrow> bool" where
  "hostnameMatches a b =
     (let left = normalizeIdent a; right = normalizeIdent b
      in if left = [] \<or> right = [] then False
         else if left = right then True
         else if has_dot left \<and> has_dot right then False
         else length (first_label left) > 0 \<and> first_label left = first_label right)"

definition hostMatchesHaPeer :: "host_info \<Rightarrow> ha_node \<Rightarrow> bool" where
  "hostMatchesHaPeer host peer =
     (let hAddr = normalizeIdent (hi_address host);
          nIp = normalizeIdent (hn_ip peer);
          nHost = normalizeIdent (hn_hostname peer)
      in if hAddr = nIp \<or> hAddr = nHost then True
         else if nIp \<noteq> [] \<and> (hAddr = nIp \<or> hostnameMatches hAddr nIp) then True
         else if isLoopback hAddr \<and> (isLoopback nIp \<or> isLoopback nHost) then True
         else if has_dot hAddr \<and> length nHost > 0 \<and> \<not> has_dot nHost then False
         else hostnameMatches hAddr nHost)"

definition findHostMatchingHaPeer ::
  "host_info list \<Rightarrow> ha_node \<Rightarrow> string option \<Rightarrow> host_info option" where
  "findHostMatchingHaPeer hosts peer excludeHostUid =
     find (\<lambda>host. \<not> (case excludeHostUid of None \<Rightarrow> False | Some x \<Rightarrow> x \<noteq> [] \<and> hi_uid host = x)
                  \<and> hostMatchesHaPeer host peer) hosts"

section \<open>Plans\<close>

definition findUndiscoveredHaPeers :: "host_info list \<Rightarrow> ha_node list \<Rightarrow> ha_node list" where
  "findUndiscoveredHaPeers hosts haNodes =
     filter (\<lambda>node. findHostMatchingHaPeer hosts node None = None) haNodes"

record ha_peer =
  hp_hostUid :: string
  hp_alias :: string
  hp_address :: string
  hp_port :: int
  hp_haRole :: string

record merge_peer = ha_peer +
  mp_fromGroupId :: string
  mp_fromGroupName :: string

record merge_plan =
  mpl_anchorHostUid :: string
  mpl_targetGroupId :: string
  mpl_targetGroupName :: string
  mpl_peers :: "merge_peer list"

definition aliasOrId :: "host_info \<Rightarrow> string" where
  "aliasOrId h = (if hi_alias h \<noteq> [] then hi_alias h else hi_id h)"

definition groupNameOr :: "host_groups \<Rightarrow> string \<Rightarrow> string" where
  "groupNameOr gs gid = str_or (map_option hg_name (map_of gs gid)) ''Group''"

text \<open>The loop over the nodes; a host already seen is skipped, and a host is marked seen only
  when it is listed (\<open>seenUids.add\<close> comes after the group test here).\<close>

fun same_group_loop ::
  "host_groups \<Rightarrow> host_info list \<Rightarrow> string \<Rightarrow> string \<Rightarrow> ha_node list \<Rightarrow> string list
    \<Rightarrow> ha_peer list" where
  "same_group_loop gs hosts target anchor [] seen = []"
| "same_group_loop gs hosts target anchor (node # nodes) seen =
     (case findHostMatchingHaPeer hosts node (Some anchor) of
        None \<Rightarrow> same_group_loop gs hosts target anchor nodes seen
      | Some m \<Rightarrow>
        if hi_uid m \<in> set seen then same_group_loop gs hosts target anchor nodes seen
        else if findGroupIdForHost gs (Some (hi_uid m)) \<noteq> Some target
          then same_group_loop gs hosts target anchor nodes seen
        else \<lparr>hp_hostUid = hi_uid m, hp_alias = aliasOrId m, hp_address = hi_address m,
               hp_port = hi_port m, hp_haRole = lower (trim (hn_state node))\<rparr>
             # same_group_loop gs hosts target anchor nodes (hi_uid m # seen))"

definition findRegisteredHaPeersInSameGroup ::
  "host_groups \<Rightarrow> ha_node list \<Rightarrow> string \<Rightarrow> ha_peer list" where
  "findRegisteredHaPeersInSameGroup gs haNodes anchor =
     (case findGroupIdForHost gs (Some anchor) of
        None \<Rightarrow> []
      | Some target \<Rightarrow> if haNodes = [] then []
          else same_group_loop gs (flattenHostsFromGroups gs) target anchor haNodes [])"

text \<open>Here a host is marked seen as soon as it is matched.\<close>

fun merge_loop ::
  "host_groups \<Rightarrow> host_info list \<Rightarrow> string \<Rightarrow> string \<Rightarrow> ha_node list \<Rightarrow> string list
    \<Rightarrow> merge_peer list" where
  "merge_loop gs hosts target anchor [] seen = []"
| "merge_loop gs hosts target anchor (node # nodes) seen =
     (case findHostMatchingHaPeer hosts node (Some anchor) of
        None \<Rightarrow> merge_loop gs hosts target anchor nodes seen
      | Some m \<Rightarrow>
        if hi_uid m \<in> set seen then merge_loop gs hosts target anchor nodes seen
        else (case findGroupIdForHost gs (Some (hi_uid m)) of
            None \<Rightarrow> merge_loop gs hosts target anchor nodes (hi_uid m # seen)
          | Some fromGroup \<Rightarrow>
            if fromGroup \<noteq> [] \<and> fromGroup \<noteq> target then
              \<lparr>hp_hostUid = hi_uid m, hp_alias = aliasOrId m, hp_address = hi_address m,
                hp_port = hi_port m, hp_haRole = lower (trim (hn_state node)),
                mp_fromGroupId = fromGroup, mp_fromGroupName = groupNameOr gs fromGroup\<rparr>
              # merge_loop gs hosts target anchor nodes (hi_uid m # seen)
            else merge_loop gs hosts target anchor nodes (hi_uid m # seen)))"

definition findHaPeersNeedingMerge ::
  "host_groups \<Rightarrow> ha_node list \<Rightarrow> string \<Rightarrow> merge_plan option" where
  "findHaPeersNeedingMerge gs haNodes anchor =
     (case findGroupIdForHost gs (Some anchor) of
        None \<Rightarrow> None
      | Some target \<Rightarrow> if haNodes = [] then None
          else let peers = merge_loop gs (flattenHostsFromGroups gs) target anchor haNodes []
            in if peers = [] then None
               else Some \<lparr>mpl_anchorHostUid = anchor, mpl_targetGroupId = target,
                          mpl_targetGroupName = groupNameOr gs target, mpl_peers = peers\<rparr>)"

section \<open>Lemmas on matching\<close>

lemma normalizeIdent_idem_lower: "lower (normalizeIdent v) = normalizeIdent v"
  by (simp add: normalizeIdent_def)

lemma hostnameMatches_sym: "hostnameMatches a b = hostnameMatches b a"
  by (auto simp: hostnameMatches_def Let_def)

lemma hostnameMatches_fqdn:
  "has_dot (normalizeIdent a) \<Longrightarrow> has_dot (normalizeIdent b) \<Longrightarrow>
    hostnameMatches a b \<longleftrightarrow> normalizeIdent a = normalizeIdent b"
  by (auto simp: hostnameMatches_def Let_def has_dot_def)

lemma matching_SomeD:
  assumes "findHostMatchingHaPeer hosts node (Some anchor) = Some m" "anchor \<noteq> []"
  shows "m \<in> set hosts" "hi_uid m \<noteq> anchor" "hostMatchesHaPeer m node"
  using assms unfolding findHostMatchingHaPeer_def by (auto dest!: find_SomeD)

lemma matching_None_iff:
  "findHostMatchingHaPeer hosts node None = None \<longleftrightarrow> (\<forall>h \<in> set hosts. \<not> hostMatchesHaPeer h node)"
  by (auto simp: findHostMatchingHaPeer_def find_None_iff)

section \<open>Lemmas on the plans\<close>

lemma merge_loop_mem:
  assumes "p \<in> set (merge_loop gs hosts target anchor nodes seen)" "anchor \<noteq> []"
  shows "hp_hostUid p \<noteq> anchor \<and> hp_hostUid p \<notin> set seen
    \<and> (\<exists>h \<in> set hosts. hi_uid h = hp_hostUid p \<and> (\<exists>n \<in> set nodes. hostMatchesHaPeer h n))
    \<and> findGroupIdForHost gs (Some (hp_hostUid p)) = Some (mp_fromGroupId p)
    \<and> mp_fromGroupId p \<noteq> target"
  using assms
proof (induction nodes arbitrary: seen)
  case Nil
  then show ?case by simp
next
  case (Cons node nodes)
  show ?case
  proof (cases "findHostMatchingHaPeer hosts node (Some anchor)")
    case None
    with Cons.IH [of seen] Cons.prems show ?thesis by auto
  next
    case (Some m)
    note m = matching_SomeD [OF Some \<open>anchor \<noteq> []\<close>]
    from Cons.prems Some Cons.IH [of seen] Cons.IH [of "hi_uid m # seen"] m show ?thesis
      by (auto split: if_splits option.splits)
  qed
qed

lemma merge_loop_distinct:
  assumes "anchor \<noteq> []"
  shows "distinct (map hp_hostUid (merge_loop gs hosts target anchor nodes seen))"
proof (induction nodes arbitrary: seen)
  case Nil
  then show ?case by simp
next
  case (Cons node nodes)
  show ?case
  proof (cases "findHostMatchingHaPeer hosts node (Some anchor)")
    case None
    with Cons show ?thesis by simp
  next
    case (Some m)
    have "hi_uid m \<notin> hp_hostUid ` set (merge_loop gs hosts target anchor nodes (hi_uid m # seen))"
      using merge_loop_mem [OF _ assms] by fastforce
    with Cons Some show ?thesis by (simp split: option.splits)
  qed
qed

text \<open>Nothing that needs a move is left out: the first host matching a node is listed, unless
  it is already in the target group.\<close>

lemma merge_loop_complete:
  assumes "node \<in> set nodes" "findHostMatchingHaPeer hosts node (Some anchor) = Some m"
    and "hi_uid m \<notin> set seen" "findGroupIdForHost gs (Some (hi_uid m)) = Some g"
    and "g \<noteq> target" "g \<noteq> []"
  shows "hi_uid m \<in> hp_hostUid ` set (merge_loop gs hosts target anchor nodes seen)"
  using assms
proof (induction nodes arbitrary: seen)
  case Nil
  then show ?case by simp
next
  case (Cons n nodes)
  show ?case
  proof (cases "findHostMatchingHaPeer hosts n (Some anchor)")
    case None
    with Cons show ?thesis by auto
  next
    case (Some m')
    show ?thesis
    proof (cases "hi_uid m' = hi_uid m")
      case True
      with Cons.prems Some show ?thesis by simp
    next
      case False
      then have "node \<in> set nodes" using Cons.prems Some by auto
      with Cons.IH [of seen] Cons.IH [of "hi_uid m' # seen"] Cons.prems Some False show ?thesis
        by (auto split: option.splits)
    qed
  qed
qed

lemma same_group_loop_mem:
  assumes "p \<in> set (same_group_loop gs hosts target anchor nodes seen)" "anchor \<noteq> []"
  shows "hp_hostUid p \<noteq> anchor \<and> hp_hostUid p \<notin> set seen
    \<and> findGroupIdForHost gs (Some (hp_hostUid p)) = Some target"
  using assms
proof (induction nodes arbitrary: seen)
  case Nil
  then show ?case by simp
next
  case (Cons node nodes)
  show ?case
  proof (cases "findHostMatchingHaPeer hosts node (Some anchor)")
    case None
    with Cons.IH [of seen] Cons.prems show ?thesis by auto
  next
    case (Some m)
    note m = matching_SomeD [OF Some \<open>anchor \<noteq> []\<close>]
    from Cons.prems Some Cons.IH [of seen] Cons.IH [of "hi_uid m # seen"] m show ?thesis
      by (auto split: if_splits)
  qed
qed

end
