(* ===== verification/HostState.thy ===== *)
theory HostState
  imports HaPeers
begin

text \<open>
  State and synchronous actions of \<open>apps/web-manager/src/features/host/hostSlice.js\<close>.

  The record has the slice's fields with the prefix \<open>hs_\<close>; \<open>null\<close> is \<open>None\<close>. Immer gives
  the state tree semantics (an update along one path is never seen along another), so the
  copy of a host in \<open>hosts\<close> and the one in \<open>hostGroups\<close> are two values. One field is not of
  the slice: \<open>hs_ls_haInfo\<close> is the entry \<open>cubrid_ha_info\<close> of the browser's local storage, which
  some reducers write. Every action of \<open>reducers\<close> is a constructor, in the source's order.
\<close>

section \<open>The state\<close>

record cluster_link_notice =
  cl_anchorHostUid :: string
  cl_targetGroupId :: "string option"
  cl_targetGroupName :: string
  cl_peers :: "ha_peer list"

record host_state =
  hs_isAddHostModalOpen :: bool
  hs_isDeleteHostModalOpen :: bool
  hs_isEditHostModalOpen :: bool
  hs_isCreateGroupModalOpen :: bool
  hs_isRenameGroupModalOpen :: bool
  hs_isDeleteGroupModalOpen :: bool
  hs_isManageGroupMembersModalOpen :: bool
  hs_groupToEditId :: "string option"
  hs_groupToEditName :: "string option"
  hs_hostToDeleteUid :: "string option"
  hs_hostToDeleteAlias :: "string option"
  hs_hostToEditUid :: "string option"
  hs_isServerVersionModalOpen :: bool
  hs_serverVersionHostUid :: "string option"
  hs_hosts :: "host_info list"
  hs_hostGroups :: host_groups
  hs_authorizedHosts :: "string list"
  hs_authorizedHostsHydrated :: bool
  hs_hostEnvs :: "(string, js) obj"
  hs_haInfo :: "(string, ha_info) obj"
  hs_suggestedHaNodes :: "ha_node list"
  hs_suggestedHaGroupId :: "string option"
  hs_suggestedHaAnchorHostUid :: "string option"
  hs_isDiscoveryModalOpen :: bool
  hs_pendingHaMerge :: "merge_plan option"
  hs_isHaMergeModalOpen :: bool
  hs_haClusterLinkNotice :: "cluster_link_notice option"
  hs_isHaClusterLinkModalOpen :: bool
  hs_hostsAwaitingHaLogin :: "string list"
  hs_initialHostData :: js
  hs_selectedHostUid :: "string option"
  hs_selectedGroupUid :: "string option"
  hs_loading :: bool
  hs_isLoggingIntoHost :: bool
  hs_isServiceOperating :: bool
  hs_serviceOperationType :: "string option"
  hs_serviceProgressMessage :: string
  hs_hostAuthErrors :: "(string, string) obj"
  hs_isImportExportModalOpen :: bool
  hs_importExportMode :: string
  hs_skipAutoHostLogin :: bool
  hs_isBatchHostLogin :: bool
  hs_isChangePasswordModalOpen :: bool
  hs_changePasswordHostUid :: "string option"
  hs_cmsUsers :: "(string, js list) obj"
  hs_cmsUsersLoading :: "(string, bool) obj"
  hs_isCmsUserManagementModalOpen :: bool
  hs_isEditCmsUserModalOpen :: bool
  hs_cmsUserToEdit :: js
  hs_error :: "string option"
  hs_loginErrorHostUid :: "string option"
  hs_reconnectQueue :: "string list"
  hs_ls_haInfo :: "(string, ha_info) obj"

text \<open>The initial state reads the HA cache back from local storage.\<close>

definition init_host_state :: "(string, ha_info) obj \<Rightarrow> host_state" where
  "init_host_state stored =
    \<lparr>hs_isAddHostModalOpen = False, hs_isDeleteHostModalOpen = False,
     hs_isEditHostModalOpen = False, hs_isCreateGroupModalOpen = False,
     hs_isRenameGroupModalOpen = False, hs_isDeleteGroupModalOpen = False,
     hs_isManageGroupMembersModalOpen = False, hs_groupToEditId = None,
     hs_groupToEditName = None, hs_hostToDeleteUid = None, hs_hostToDeleteAlias = None,
     hs_hostToEditUid = None, hs_isServerVersionModalOpen = False,
     hs_serverVersionHostUid = None, hs_hosts = [], hs_hostGroups = [],
     hs_authorizedHosts = [], hs_authorizedHostsHydrated = False, hs_hostEnvs = [],
     hs_haInfo = stored, hs_suggestedHaNodes = [], hs_suggestedHaGroupId = None,
     hs_suggestedHaAnchorHostUid = None, hs_isDiscoveryModalOpen = False,
     hs_pendingHaMerge = None, hs_isHaMergeModalOpen = False, hs_haClusterLinkNotice = None,
     hs_isHaClusterLinkModalOpen = False, hs_hostsAwaitingHaLogin = [],
     hs_initialHostData = Null, hs_selectedHostUid = None, hs_selectedGroupUid = None,
     hs_loading = False, hs_isLoggingIntoHost = False, hs_isServiceOperating = False,
     hs_serviceOperationType = None, hs_serviceProgressMessage = [], hs_hostAuthErrors = [],
     hs_isImportExportModalOpen = False, hs_importExportMode = ''export'',
     hs_skipAutoHostLogin = False, hs_isBatchHostLogin = False,
     hs_isChangePasswordModalOpen = False, hs_changePasswordHostUid = None, hs_cmsUsers = [],
     hs_cmsUsersLoading = [], hs_isCmsUserManagementModalOpen = False,
     hs_isEditCmsUserModalOpen = False, hs_cmsUserToEdit = Null, hs_error = None,
     hs_loginErrorHostUid = None, hs_reconnectQueue = [], hs_ls_haInfo = stored\<rparr>"

section \<open>Shared steps\<close>

text \<open>\<open>if (v)\<close> on a value that is a string or null.\<close>

definition truthy_str :: "string option \<Rightarrow> bool" where
  "truthy_str v \<longleftrightarrow> v \<noteq> None \<and> v \<noteq> Some []"

definition purgeHostClientState :: "string \<Rightarrow> host_state \<Rightarrow> host_state" where
  "purgeHostClientState hostUid s =
     s\<lparr>hs_authorizedHosts := filter (\<lambda>u. u \<noteq> hostUid) (hs_authorizedHosts s),
       hs_haInfo := obj_del hostUid (hs_haInfo s),
       hs_hostEnvs := obj_del hostUid (hs_hostEnvs s),
       hs_hostAuthErrors := obj_del hostUid (hs_hostAuthErrors s)\<rparr>"

definition clearHostLoginError :: "string \<Rightarrow> host_state \<Rightarrow> host_state" where
  "clearHostLoginError hostUid s =
     (case map_of (hs_hostAuthErrors s) hostUid of
        None \<Rightarrow> s
      | Some message \<Rightarrow>
        (if hs_loginErrorHostUid s = Some hostUid \<and> hs_error s = Some message
         then s\<lparr>hs_error := None, hs_loginErrorHostUid := None,
                hs_hostAuthErrors := obj_del hostUid (hs_hostAuthErrors s)\<rparr>
         else s\<lparr>hs_hostAuthErrors := obj_del hostUid (hs_hostAuthErrors s)\<rparr>))"

text \<open>\<open>blocked\<close>: the browser refuses the write; the code catches that here.\<close>

definition syncHaInfoStorage :: "bool \<Rightarrow> host_state \<Rightarrow> host_state" where
  "syncHaInfoStorage blocked s = (if blocked then s else s\<lparr>hs_ls_haInfo := hs_haInfo s\<rparr>)"

definition applyHostGroupsResponse :: "bool \<Rightarrow> host_groups \<Rightarrow> host_state \<Rightarrow> host_state" where
  "applyHostGroupsResponse blocked hostGroups s =
     (let hosts = flattenHostsFromGroups hostGroups;
          valid = (\<lambda>u. u \<in> hi_uid ` set hosts)
      in syncHaInfoStorage blocked
        (s\<lparr>hs_hostGroups := hostGroups, hs_hosts := hosts,
           hs_authorizedHosts := filter valid (hs_authorizedHosts s),
           hs_haInfo := obj_prune valid (hs_haInfo s),
           hs_hostEnvs := obj_prune valid (hs_hostEnvs s),
           hs_hostAuthErrors := obj_prune valid (hs_hostAuthErrors s)\<rparr>))"

definition syncSelectedHost :: "host_state \<Rightarrow> host_state" where
  "syncSelectedHost s =
     (if truthy_str (hs_selectedHostUid s) then
        let groupId = findGroupIdForHost (hs_hostGroups s) (hs_selectedHostUid s)
        in if truthy_str groupId then s\<lparr>hs_selectedGroupUid := groupId\<rparr>
           else s\<lparr>hs_selectedHostUid := None\<rparr>
      else s)"

definition syncHostSelection :: "host_state \<Rightarrow> host_state" where
  "syncHostSelection s =
     (let s' = syncSelectedHost s
      in case hs_selectedGroupUid s' of
           None \<Rightarrow> s'
         | Some g \<Rightarrow> if g \<noteq> [] \<and> map_of (hs_hostGroups s') g = None
             then s'\<lparr>hs_selectedGroupUid := None\<rparr> else s')"

section \<open>Synchronous actions\<close>

datatype suggested_payload =
    SuggestedArray "ha_node list"
  | SuggestedObject "ha_node list" "string option" "string option"

text \<open>Selection, login revocation and the host and group dialogs (\<open>openAddHostModal\<close> to
  \<open>openServerVersionModal\<close>).\<close>

datatype host_ui_action =
    OpenAddHostModal js
  | CloseAddHostModal
  | SetSelectedHost "string option"
  | SetSelectedGroup "string option" "string option"
  | SetServiceProgressMessage string
  | RevokeHostLogin string
  | OpenDeleteHostModal string string
  | CloseDeleteHostModal
  | OpenEditHostModal string
  | CloseEditHostModal
  | OpenCreateGroupModal
  | CloseCreateGroupModal
  | OpenRenameGroupModal string string
  | CloseRenameGroupModal
  | OpenDeleteGroupModal string string
  | CloseDeleteGroupModal
  | OpenManageGroupMembersModal string string
  | CloseManageGroupMembersModal
  | OpenServerVersionModal string

primrec reduce_host_ui :: "host_ui_action \<Rightarrow> host_state \<Rightarrow> host_state" where
  "reduce_host_ui (OpenAddHostModal payload) s =
     s\<lparr>hs_isAddHostModalOpen := True, hs_initialHostData := js_or payload Null\<rparr>"
| "reduce_host_ui CloseAddHostModal s =
     s\<lparr>hs_isAddHostModalOpen := False, hs_initialHostData := Null\<rparr>"
| "reduce_host_ui (SetSelectedHost u) s =
     (let gid = findGroupIdForHost (hs_hostGroups s) u
      in if truthy_str gid then s\<lparr>hs_selectedHostUid := u, hs_selectedGroupUid := gid\<rparr>
         else s\<lparr>hs_selectedHostUid := u\<rparr>)"
| "reduce_host_ui (SetSelectedGroup groupId hostUid) s =
     s\<lparr>hs_selectedGroupUid := groupId,
       hs_selectedHostUid := (if truthy_str hostUid then hostUid else None)\<rparr>"
| "reduce_host_ui (SetServiceProgressMessage m) s = s\<lparr>hs_serviceProgressMessage := m\<rparr>"
| "reduce_host_ui (RevokeHostLogin hostUid) s =
     s\<lparr>hs_authorizedHosts := filter (\<lambda>u. u \<noteq> hostUid) (hs_authorizedHosts s),
       hs_hostEnvs := obj_del hostUid (hs_hostEnvs s),
       hs_hostAuthErrors := (if truthy_str (map_of (hs_hostAuthErrors s) hostUid)
         then obj_del hostUid (hs_hostAuthErrors s) else hs_hostAuthErrors s),
       hs_error := None\<rparr>"
| "reduce_host_ui (OpenDeleteHostModal hostUid alias) s =
     s\<lparr>hs_isDeleteHostModalOpen := True, hs_hostToDeleteUid := Some hostUid,
       hs_hostToDeleteAlias := Some alias\<rparr>"
| "reduce_host_ui CloseDeleteHostModal s =
     s\<lparr>hs_isDeleteHostModalOpen := False, hs_hostToDeleteUid := None, hs_hostToDeleteAlias := None\<rparr>"
| "reduce_host_ui (OpenEditHostModal hostUid) s =
     s\<lparr>hs_isEditHostModalOpen := True, hs_hostToEditUid := Some hostUid\<rparr>"
| "reduce_host_ui CloseEditHostModal s =
     s\<lparr>hs_isEditHostModalOpen := False, hs_hostToEditUid := None\<rparr>"
| "reduce_host_ui OpenCreateGroupModal s =
     s\<lparr>hs_isCreateGroupModalOpen := True, hs_groupToEditId := None, hs_groupToEditName := None\<rparr>"
| "reduce_host_ui CloseCreateGroupModal s = s\<lparr>hs_isCreateGroupModalOpen := False\<rparr>"
| "reduce_host_ui (OpenRenameGroupModal groupId name) s =
     s\<lparr>hs_isRenameGroupModalOpen := True, hs_groupToEditId := Some groupId,
       hs_groupToEditName := Some name\<rparr>"
| "reduce_host_ui CloseRenameGroupModal s =
     s\<lparr>hs_isRenameGroupModalOpen := False, hs_groupToEditId := None, hs_groupToEditName := None\<rparr>"
| "reduce_host_ui (OpenDeleteGroupModal groupId name) s =
     s\<lparr>hs_isDeleteGroupModalOpen := True, hs_groupToEditId := Some groupId,
       hs_groupToEditName := Some name\<rparr>"
| "reduce_host_ui CloseDeleteGroupModal s =
     s\<lparr>hs_isDeleteGroupModalOpen := False, hs_groupToEditId := None, hs_groupToEditName := None\<rparr>"
| "reduce_host_ui (OpenManageGroupMembersModal groupId name) s =
     s\<lparr>hs_isManageGroupMembersModalOpen := True, hs_groupToEditId := Some groupId,
       hs_groupToEditName := Some name\<rparr>"
| "reduce_host_ui CloseManageGroupMembersModal s =
     s\<lparr>hs_isManageGroupMembersModalOpen := False, hs_groupToEditId := None,
       hs_groupToEditName := None\<rparr>"
| "reduce_host_ui (OpenServerVersionModal hostUid) s =
     s\<lparr>hs_isServerVersionModalOpen := True, hs_serverVersionHostUid := Some hostUid\<rparr>"

text \<open>The HA dialogs and the hosts whose first login is pending (\<open>setSuggestedHaNodes\<close> to
  \<open>removeHostAwaitingHaLogin\<close>).\<close>

datatype host_ha_action =
    SetSuggestedHaNodes suggested_payload
  | SetSuggestedHaGroupId "string option"
  | ClearSuggestedHaNodes
  | OpenDiscoveryModal
  | CloseDiscoveryModal
  | SetPendingHaMerge "merge_plan option"
  | ClearPendingHaMerge
  | SetHaClusterLinkNotice "cluster_link_notice option"
  | ClearHaClusterLinkNotice
  | QueueHostAwaitingHaLogin string
  | RemoveHostAwaitingHaLogin string

fun suggested_fields :: "suggested_payload \<Rightarrow> ha_node list \<times> string option \<times> string option" where
  "suggested_fields (SuggestedArray nodes) = (nodes, None, None)"
| "suggested_fields (SuggestedObject nodes groupId anchor) = (nodes, groupId, anchor)"

primrec reduce_host_ha :: "host_ha_action \<Rightarrow> host_state \<Rightarrow> host_state" where
  "reduce_host_ha (SetSuggestedHaNodes payload) s =
     (case suggested_fields payload of (nodes, groupId, anchor) \<Rightarrow>
        s\<lparr>hs_suggestedHaNodes := nodes, hs_suggestedHaGroupId := groupId,
          hs_suggestedHaAnchorHostUid := anchor, hs_isDiscoveryModalOpen := length nodes > 0\<rparr>)"
| "reduce_host_ha (SetSuggestedHaGroupId groupId) s = s\<lparr>hs_suggestedHaGroupId := groupId\<rparr>"
| "reduce_host_ha ClearSuggestedHaNodes s =
     s\<lparr>hs_suggestedHaNodes := [], hs_suggestedHaGroupId := None,
       hs_suggestedHaAnchorHostUid := None, hs_isDiscoveryModalOpen := False\<rparr>"
| "reduce_host_ha OpenDiscoveryModal s = s\<lparr>hs_isDiscoveryModalOpen := True\<rparr>"
| "reduce_host_ha CloseDiscoveryModal s = s\<lparr>hs_isDiscoveryModalOpen := False\<rparr>"
| "reduce_host_ha (SetPendingHaMerge plan) s =
     s\<lparr>hs_pendingHaMerge := plan,
       hs_isHaMergeModalOpen := (case plan of None \<Rightarrow> False | Some p \<Rightarrow> length (mpl_peers p) > 0)\<rparr>"
| "reduce_host_ha ClearPendingHaMerge s =
     s\<lparr>hs_pendingHaMerge := None, hs_isHaMergeModalOpen := False\<rparr>"
| "reduce_host_ha (SetHaClusterLinkNotice notice) s =
     s\<lparr>hs_haClusterLinkNotice := notice,
       hs_isHaClusterLinkModalOpen := (case notice of None \<Rightarrow> False | Some n \<Rightarrow> length (cl_peers n) > 0)\<rparr>"
| "reduce_host_ha ClearHaClusterLinkNotice s =
     s\<lparr>hs_haClusterLinkNotice := None, hs_isHaClusterLinkModalOpen := False\<rparr>"
| "reduce_host_ha (QueueHostAwaitingHaLogin u) s =
     (if u \<noteq> [] then s\<lparr>hs_hostsAwaitingHaLogin := push_new u (hs_hostsAwaitingHaLogin s)\<rparr> else s)"
| "reduce_host_ha (RemoveHostAwaitingHaLogin u) s =
     s\<lparr>hs_hostsAwaitingHaLogin := filter (\<lambda>x. x \<noteq> u) (hs_hostsAwaitingHaLogin s)\<rparr>"

text \<open>The remaining dialogs and the reconnect queue (\<open>closeServerVersionModal\<close> to
  \<open>closeReconnectModal\<close>).\<close>

datatype host_dialog_action =
    CloseServerVersionModal
  | OpenImportExportModal string
  | CloseImportExportModal
  | SetSkipAutoHostLogin js
  | OpenChangePasswordModal string
  | CloseChangePasswordModal
  | ClearHostError
  | OpenCmsUserManagementModal
  | CloseCmsUserManagementModal
  | OpenEditCmsUserModal js
  | CloseEditCmsUserModal
  | OpenReconnectModal string
  | CloseReconnectModal

primrec reduce_host_dialog :: "host_dialog_action \<Rightarrow> host_state \<Rightarrow> host_state" where
  "reduce_host_dialog CloseServerVersionModal s =
     s\<lparr>hs_isServerVersionModalOpen := False, hs_serverVersionHostUid := None\<rparr>"
| "reduce_host_dialog (OpenImportExportModal mode) s =
     s\<lparr>hs_isImportExportModalOpen := True, hs_importExportMode := mode\<rparr>"
| "reduce_host_dialog CloseImportExportModal s =
     s\<lparr>hs_isImportExportModalOpen := False, hs_skipAutoHostLogin := False\<rparr>"
| "reduce_host_dialog (SetSkipAutoHostLogin payload) s =
     s\<lparr>hs_skipAutoHostLogin := truthy payload\<rparr>"
| "reduce_host_dialog (OpenChangePasswordModal hostUid) s =
     s\<lparr>hs_isChangePasswordModalOpen := True, hs_changePasswordHostUid := Some hostUid\<rparr>"
| "reduce_host_dialog CloseChangePasswordModal s =
     s\<lparr>hs_isChangePasswordModalOpen := False, hs_changePasswordHostUid := None\<rparr>"
| "reduce_host_dialog ClearHostError s = s\<lparr>hs_error := None\<rparr>"
| "reduce_host_dialog OpenCmsUserManagementModal s = s\<lparr>hs_isCmsUserManagementModalOpen := True\<rparr>"
| "reduce_host_dialog CloseCmsUserManagementModal s = s\<lparr>hs_isCmsUserManagementModalOpen := False\<rparr>"
| "reduce_host_dialog (OpenEditCmsUserModal payload) s =
     s\<lparr>hs_isEditCmsUserModalOpen := True, hs_cmsUserToEdit := payload\<rparr>"
| "reduce_host_dialog CloseEditCmsUserModal s =
     s\<lparr>hs_isEditCmsUserModalOpen := False, hs_cmsUserToEdit := Null\<rparr>"
| "reduce_host_dialog (OpenReconnectModal hostUid) s =
     (if hostUid \<noteq> [] then s\<lparr>hs_reconnectQueue := push_new hostUid (hs_reconnectQueue s)\<rparr> else s)"
| "reduce_host_dialog CloseReconnectModal s = s\<lparr>hs_reconnectQueue := tl (hs_reconnectQueue s)\<rparr>"

end
