(* ===== verification/HostReducers.thy ===== *)
theory HostReducers
  imports HostState
begin

text \<open>
  The asynchronous part of \<open>hostSlice.js\<close>: \<open>extraReducers\<close>. A thunk settles in three actions,
  \<open>pending\<close>, \<open>fulfilled\<close> and \<open>rejected\<close> (\<open>phase\<close>); the argument the thunk was called with
  (\<open>meta.arg\<close>) is an argument of its constructor where a reducer reads it. Two effects outside
  the state are arguments: the clock (\<open>now\<close>, in the action that reads it) and whether the
  browser refuses a write to local storage (\<open>blocked\<close>).
\<close>

section \<open>The common shape of a request\<close>

text \<open>Most requests raise the spinner and drop the old error, and settle by lowering it.\<close>

definition request_pending :: "host_state \<Rightarrow> host_state" where
  "request_pending s = s\<lparr>hs_loading := True, hs_error := None\<rparr>"

definition request_rejected :: "string \<Rightarrow> host_state \<Rightarrow> host_state" where
  "request_rejected e s = s\<lparr>hs_loading := False, hs_error := Some e\<rparr>"

section \<open>The host list\<close>

text \<open>\<open>null > now\<close> compares 0.\<close>

definition session_alive :: "int \<Rightarrow> host_info \<Rightarrow> bool" where
  "session_alive now h = ((case hi_cmsSessionExpiresAt h of None \<Rightarrow> 0 | Some t \<Rightarrow> t) > now)"

definition hydrateAuthorizedHosts :: "int \<Rightarrow> host_state \<Rightarrow> host_state" where
  "hydrateAuthorizedHosts now s =
     (if hs_authorizedHostsHydrated s then s
      else s\<lparr>hs_authorizedHosts :=
               fold (\<lambda>h acc. if session_alive now h then push_new (hi_uid h) acc else acc)
                 (hs_hosts s) (hs_authorizedHosts s),
             hs_authorizedHostsHydrated := True\<rparr>)"

fun reduce_fetchHosts :: "bool \<Rightarrow> (int \<times> host_groups, string) phase \<Rightarrow> host_state \<Rightarrow> host_state" where
  "reduce_fetchHosts blocked Pending s = request_pending s"
| "reduce_fetchHosts blocked (Fulfilled (now, gs)) s =
     hydrateAuthorizedHosts now (applyHostGroupsResponse blocked gs (s\<lparr>hs_loading := False\<rparr>))"
| "reduce_fetchHosts blocked (Rejected e) s = request_rejected e s"

fun reduce_addHost :: "bool \<Rightarrow> (host_groups, string) phase \<Rightarrow> host_state \<Rightarrow> host_state" where
  "reduce_addHost blocked Pending s = request_pending s"
| "reduce_addHost blocked (Fulfilled gs) s =
     (let prevUids = hi_uid ` set (hs_hosts s);
          s1 = applyHostGroupsResponse blocked gs (s\<lparr>hs_loading := False\<rparr>);
          s2 = (case find (\<lambda>h. hi_uid h \<notin> prevUids) (hs_hosts s1) of
                  None \<Rightarrow> s1
                | Some newHost \<Rightarrow>
                  (let s' = s1\<lparr>hs_hostsAwaitingHaLogin :=
                                 push_new (hi_uid newHost) (hs_hostsAwaitingHaLogin s1)\<rparr>
                   in if hs_skipAutoHostLogin s' then s'
                      else s'\<lparr>hs_selectedHostUid := Some (hi_uid newHost),
                              hs_selectedGroupUid :=
                                findGroupIdForHost (hs_hostGroups s') (Some (hi_uid newHost))\<rparr>))
      in s2\<lparr>hs_isAddHostModalOpen := False\<rparr>)"
| "reduce_addHost blocked (Rejected e) s = request_rejected e s"

section \<open>Host login\<close>

definition begin_login :: "host_state \<Rightarrow> host_state" where
  "begin_login s =
     (if hs_isBatchHostLogin s then s else s\<lparr>hs_isLoggingIntoHost := True, hs_loading := True\<rparr>)"

definition end_login :: "host_state \<Rightarrow> host_state" where
  "end_login s =
     (if hs_isBatchHostLogin s then s else s\<lparr>hs_isLoggingIntoHost := False, hs_loading := False\<rparr>)"

fun clear_initial_login :: "string \<Rightarrow> host_info list \<Rightarrow> host_info list" where
  "clear_initial_login u [] = []"
| "clear_initial_login u (h # hs) =
     (if hi_uid h = u then h\<lparr>hi_initialLogin := False\<rparr> # hs else h # clear_initial_login u hs)"

text \<open>The first login of a host queues its HA side effects.\<close>

definition noteFirstLogin :: "string \<Rightarrow> host_state \<Rightarrow> host_state" where
  "noteFirstLogin hostUid s =
     (case find (\<lambda>h. hi_uid h = hostUid) (hs_hosts s) of
        None \<Rightarrow> s
      | Some host \<Rightarrow>
        if hi_initialLogin host then
          s\<lparr>hs_hostsAwaitingHaLogin := push_new hostUid (hs_hostsAwaitingHaLogin s),
            hs_hosts := clear_initial_login hostUid (hs_hosts s)\<rparr>
        else s)"

text \<open>The reducer for \<open>loginToHost.fulfilled\<close> writes local storage without catching, so a
  refused write leaves it by an exception (see \<open>host_step\<close>); this is the case of a write that
  goes through.\<close>

definition loginFulfilled :: "string \<Rightarrow> ha_info \<Rightarrow> host_state \<Rightarrow> host_state" where
  "loginFulfilled hostUid info s =
     (let s1 = clearHostLoginError hostUid (end_login s);
          s2 = s1\<lparr>hs_authorizedHosts := push_new hostUid (hs_authorizedHosts s1),
                  hs_reconnectQueue := filter (\<lambda>u. u \<noteq> hostUid) (hs_reconnectQueue s1),
                  hs_haInfo := obj_set hostUid info (hs_haInfo s1),
                  hs_ls_haInfo := obj_set hostUid info (hs_haInfo s1)\<rparr>
      in noteFirstLogin hostUid s2)"

definition loginRejected :: "string \<Rightarrow> string \<Rightarrow> host_state \<Rightarrow> host_state" where
  "loginRejected hostUid e s =
     (let s1 = end_login s;
          s2 = s1\<lparr>hs_hostAuthErrors := obj_set hostUid e (hs_hostAuthErrors s1)\<rparr>
      in if hs_isBatchHostLogin s2 then s2
         else s2\<lparr>hs_error := Some e, hs_loginErrorHostUid := Some hostUid\<rparr>)"

fun reduce_loginToHost :: "string \<Rightarrow> (ha_info, string) phase \<Rightarrow> host_state \<Rightarrow> host_state" where
  "reduce_loginToHost hostUid Pending s = clearHostLoginError hostUid (begin_login s)"
| "reduce_loginToHost hostUid (Fulfilled info) s = loginFulfilled hostUid info s"
| "reduce_loginToHost hostUid (Rejected e) s = loginRejected hostUid e s"

definition refreshHaInfoFulfilled :: "bool \<Rightarrow> string \<Rightarrow> ha_info \<Rightarrow> host_state \<Rightarrow> host_state" where
  "refreshHaInfoFulfilled blocked hostUid info s =
     syncHaInfoStorage blocked (s\<lparr>hs_haInfo := obj_set hostUid info (hs_haInfo s)\<rparr>)"

section \<open>Editing the tree\<close>

fun reduce_deleteHost :: "bool \<Rightarrow> (string \<times> host_groups, string) phase \<Rightarrow> host_state \<Rightarrow> host_state" where
  "reduce_deleteHost blocked Pending s = request_pending s"
| "reduce_deleteHost blocked (Fulfilled (hostUid, gs)) s =
     syncHaInfoStorage blocked (syncHostSelection (purgeHostClientState hostUid
       (applyHostGroupsResponse blocked gs (s\<lparr>hs_loading := False\<rparr>))))"
| "reduce_deleteHost blocked (Rejected e) s = request_rejected e s"

fun reduce_editHost :: "bool \<Rightarrow> (host_groups, string) phase \<Rightarrow> host_state \<Rightarrow> host_state" where
  "reduce_editHost blocked Pending s = request_pending s"
| "reduce_editHost blocked (Fulfilled gs) s =
     applyHostGroupsResponse blocked gs (s\<lparr>hs_loading := False\<rparr>)"
| "reduce_editHost blocked (Rejected e) s = request_rejected e s"

fun reduce_moveHost :: "bool \<Rightarrow> (host_groups, string) phase \<Rightarrow> host_state \<Rightarrow> host_state" where
  "reduce_moveHost blocked Pending s = request_pending s"
| "reduce_moveHost blocked (Fulfilled gs) s =
     syncHostSelection (applyHostGroupsResponse blocked gs (s\<lparr>hs_loading := False\<rparr>))"
| "reduce_moveHost blocked (Rejected e) s = request_rejected e s"

fun reduce_plain :: "(unit, string) phase \<Rightarrow> host_state \<Rightarrow> host_state" where
  "reduce_plain Pending s = request_pending s"
| "reduce_plain (Fulfilled _) s = s\<lparr>hs_loading := False\<rparr>"
| "reduce_plain (Rejected e) s = request_rejected e s"

fun reduce_createHostGroup :: "bool \<Rightarrow> (host_groups, string) phase \<Rightarrow> host_state \<Rightarrow> host_state" where
  "reduce_createHostGroup blocked Pending s = request_pending s"
| "reduce_createHostGroup blocked (Fulfilled gs) s =
     (applyHostGroupsResponse blocked gs (s\<lparr>hs_loading := False\<rparr>))
       \<lparr>hs_isCreateGroupModalOpen := False\<rparr>"
| "reduce_createHostGroup blocked (Rejected e) s = request_rejected e s"

fun reduce_updateHostGroup :: "bool \<Rightarrow> (host_groups, string) phase \<Rightarrow> host_state \<Rightarrow> host_state" where
  "reduce_updateHostGroup blocked Pending s = request_pending s"
| "reduce_updateHostGroup blocked (Fulfilled gs) s =
     (applyHostGroupsResponse blocked gs (s\<lparr>hs_loading := False\<rparr>))
       \<lparr>hs_isRenameGroupModalOpen := False, hs_groupToEditId := None, hs_groupToEditName := None\<rparr>"
| "reduce_updateHostGroup blocked (Rejected e) s = request_rejected e s"

fun reduce_deleteHostGroup ::
  "bool \<Rightarrow> (host_groups \<times> string list, string) phase \<Rightarrow> host_state \<Rightarrow> host_state" where
  "reduce_deleteHostGroup blocked Pending s = request_pending s"
| "reduce_deleteHostGroup blocked (Fulfilled (gs, removedHostUids)) s =
     (let s1 = applyHostGroupsResponse blocked gs (s\<lparr>hs_loading := False\<rparr>);
          s2 = (case hs_selectedHostUid s1 of
                  None \<Rightarrow> s1
                | Some u \<Rightarrow> if u \<in> set removedHostUids then s1\<lparr>hs_selectedHostUid := None\<rparr> else s1);
          s3 = syncHostSelection s2
      in syncHaInfoStorage blocked (fold purgeHostClientState removedHostUids s3))"
| "reduce_deleteHostGroup blocked (Rejected e) s = request_rejected e s"

section \<open>The whole service of a host\<close>

fun reduce_service :: "string \<Rightarrow> (unit, string) phase \<Rightarrow> host_state \<Rightarrow> host_state" where
  "reduce_service kind Pending s =
     s\<lparr>hs_isServiceOperating := True, hs_serviceOperationType := Some kind, hs_error := None\<rparr>"
| "reduce_service kind (Fulfilled _) s =
     s\<lparr>hs_isServiceOperating := False, hs_serviceOperationType := None\<rparr>"
| "reduce_service kind (Rejected e) s =
     s\<lparr>hs_isServiceOperating := False, hs_serviceOperationType := None, hs_error := Some e\<rparr>"

section \<open>Environments and CMS users\<close>

text \<open>\<open>undefined\<close> marks "not fetched yet", \<open>null\<close> "fetch failed, nothing cached".\<close>

definition envUndefined :: "string \<Rightarrow> host_state \<Rightarrow> bool" where
  "envUndefined u s \<longleftrightarrow> map_of (hs_hostEnvs s) u \<in> {None, Some Undefined}"

fun reduce_fetchHostEnv :: "string \<Rightarrow> (js, string) phase \<Rightarrow> host_state \<Rightarrow> host_state" where
  "reduce_fetchHostEnv hostUid Pending s = s"
| "reduce_fetchHostEnv hostUid (Fulfilled env) s =
     s\<lparr>hs_hostEnvs := obj_set hostUid env (hs_hostEnvs s)\<rparr>"
| "reduce_fetchHostEnv hostUid (Rejected e) s =
     (if envUndefined hostUid s then s\<lparr>hs_hostEnvs := obj_set hostUid Null (hs_hostEnvs s)\<rparr> else s)"

fun reduce_fetchCmsUsers :: "string \<Rightarrow> (js list, string) phase \<Rightarrow> host_state \<Rightarrow> host_state" where
  "reduce_fetchCmsUsers hostUid Pending s =
     s\<lparr>hs_cmsUsersLoading := obj_set hostUid True (hs_cmsUsersLoading s)\<rparr>"
| "reduce_fetchCmsUsers hostUid (Fulfilled userlist) s =
     s\<lparr>hs_cmsUsersLoading := obj_set hostUid False (hs_cmsUsersLoading s),
       hs_cmsUsers := obj_set hostUid userlist (hs_cmsUsers s)\<rparr>"
| "reduce_fetchCmsUsers hostUid (Rejected e) s =
     s\<lparr>hs_cmsUsersLoading := obj_set hostUid False (hs_cmsUsersLoading s), hs_error := Some e\<rparr>"

fun reduce_cmsUserChange :: "(string \<times> js list, string) phase \<Rightarrow> host_state \<Rightarrow> host_state" where
  "reduce_cmsUserChange Pending s = request_pending s"
| "reduce_cmsUserChange (Fulfilled (hostUid, userlist)) s =
     s\<lparr>hs_cmsUsers := obj_set hostUid userlist (hs_cmsUsers s), hs_loading := False\<rparr>"
| "reduce_cmsUserChange (Rejected e) s = request_rejected e s"

text \<open>The matchers on \<open>host/loginHostsBatch\<close>: fulfilled and rejected do the same.\<close>

fun reduce_loginHostsBatch :: "(unit, unit) phase \<Rightarrow> host_state \<Rightarrow> host_state" where
  "reduce_loginHostsBatch Pending s =
     s\<lparr>hs_isBatchHostLogin := True, hs_isLoggingIntoHost := True, hs_loading := True\<rparr>"
| "reduce_loginHostsBatch (Fulfilled _) s =
     s\<lparr>hs_isBatchHostLogin := False, hs_isLoggingIntoHost := False, hs_loading := False\<rparr>"
| "reduce_loginHostsBatch (Rejected _) s =
     s\<lparr>hs_isBatchHostLogin := False, hs_isLoggingIntoHost := False, hs_loading := False\<rparr>"

section \<open>The reducer\<close>

datatype host_action =
    Ui host_ui_action
  | Ha host_ha_action
  | Dialog host_dialog_action
  | FetchHosts "(int \<times> host_groups, string) phase"
  | AddHost "(host_groups, string) phase"
  | LoginToHost string "(ha_info, string) phase"
  | RefreshHaInfo string ha_info
  | DeleteHost "(string \<times> host_groups, string) phase"
  | EditHost "(host_groups, string) phase"
  | MoveHost "(host_groups, string) phase"
  | MergeHaPeers "(unit, string) phase"
  | SetHostPassword "(unit, string) phase"
  | StartService "(unit, string) phase"
  | StopService "(unit, string) phase"
  | MarkGroupHa host_groups
  | CreateHostGroup "(host_groups, string) phase"
  | UpdateHostGroup "(host_groups, string) phase"
  | DeleteHostGroup "(host_groups \<times> string list, string) phase"
  | FetchHostEnv string "(js, string) phase"
  | FetchCmsUsers string "(js list, string) phase"
  | CmsUserChange "(string \<times> js list, string) phase"
  | LoginHostsBatch "(unit, unit) phase"

primrec host_reduce :: "bool \<Rightarrow> host_action \<Rightarrow> host_state \<Rightarrow> host_state" where
  "host_reduce blocked (Ui a) s = reduce_host_ui a s"
| "host_reduce blocked (Ha a) s = reduce_host_ha a s"
| "host_reduce blocked (Dialog a) s = reduce_host_dialog a s"
| "host_reduce blocked (FetchHosts p) s = reduce_fetchHosts blocked p s"
| "host_reduce blocked (AddHost p) s = reduce_addHost blocked p s"
| "host_reduce blocked (LoginToHost u p) s = reduce_loginToHost u p s"
| "host_reduce blocked (RefreshHaInfo u info) s = refreshHaInfoFulfilled blocked u info s"
| "host_reduce blocked (DeleteHost p) s = reduce_deleteHost blocked p s"
| "host_reduce blocked (EditHost p) s = reduce_editHost blocked p s"
| "host_reduce blocked (MoveHost p) s = reduce_moveHost blocked p s"
| "host_reduce blocked (MergeHaPeers p) s = reduce_plain p s"
| "host_reduce blocked (SetHostPassword p) s = reduce_plain p s"
| "host_reduce blocked (StartService p) s = reduce_service ''start'' p s"
| "host_reduce blocked (StopService p) s = reduce_service ''stop'' p s"
| "host_reduce blocked (MarkGroupHa gs) s = applyHostGroupsResponse blocked gs s"
| "host_reduce blocked (CreateHostGroup p) s = reduce_createHostGroup blocked p s"
| "host_reduce blocked (UpdateHostGroup p) s = reduce_updateHostGroup blocked p s"
| "host_reduce blocked (DeleteHostGroup p) s = reduce_deleteHostGroup blocked p s"
| "host_reduce blocked (FetchHostEnv u p) s = reduce_fetchHostEnv u p s"
| "host_reduce blocked (FetchCmsUsers u p) s = reduce_fetchCmsUsers u p s"
| "host_reduce blocked (CmsUserChange p) s = reduce_cmsUserChange p s"
| "host_reduce blocked (LoginHostsBatch p) s = reduce_loginHostsBatch p s"

text \<open>One dispatch. The one reducer that can raise is \<open>loginToHost.fulfilled\<close>, on a refused
  write to local storage; the store then keeps its state.\<close>

definition host_step :: "bool \<Rightarrow> host_action \<Rightarrow> host_state \<Rightarrow> js_error + host_state" where
  "host_step blocked a s =
     (case a of
        LoginToHost u (Fulfilled info) \<Rightarrow>
          if blocked then Inl (Thrown ''QuotaExceededError'') else Inr (host_reduce blocked a s)
      | _ \<Rightarrow> Inr (host_reduce blocked a s))"

text \<open>The state after a list of dispatches; a dispatch that raises changes nothing.\<close>

definition host_dispatch :: "bool \<times> host_action \<Rightarrow> host_state \<Rightarrow> host_state" where
  "host_dispatch ba s = (case host_step (fst ba) (snd ba) s of Inl _ \<Rightarrow> s | Inr s' \<Rightarrow> s')"

definition host_run :: "(bool \<times> host_action) list \<Rightarrow> host_state \<Rightarrow> host_state" where
  "host_run as s = fold host_dispatch as s"

end
