(* ===== verification/HostInvariants.thy ===== *)
theory HostInvariants
  imports HostReducers
begin

text \<open>
  What every dispatch keeps of the host slice (\<open>host_inv\<close>), and the facts about single
  operations the properties rest on: what \<open>applyHostGroupsResponse\<close> leaves, that the selection
  follows the tree, which actions may authorize a host.
\<close>

section \<open>The invariant\<close>

definition host_inv :: "host_state \<Rightarrow> bool" where
  "host_inv s \<longleftrightarrow>
     distinct (hs_authorizedHosts s) \<and>
     distinct (hs_hostsAwaitingHaLogin s) \<and>
     distinct (hs_reconnectQueue s) \<and> [] \<notin> set (hs_reconnectQueue s) \<and>
     obj_wf (hs_haInfo s) \<and> obj_wf (hs_hostEnvs s) \<and> obj_wf (hs_hostAuthErrors s) \<and>
     obj_wf (hs_cmsUsers s) \<and> obj_wf (hs_cmsUsersLoading s) \<and>
     map hi_uid (hs_hosts s) = map hi_uid (flattenHostsFromGroups (hs_hostGroups s)) \<and>
     (hs_isServiceOperating s \<longleftrightarrow> hs_serviceOperationType s \<noteq> None) \<and>
     (hs_isBatchHostLogin s \<longrightarrow> hs_isLoggingIntoHost s) \<and>
     (hs_isHaMergeModalOpen s \<longrightarrow> (\<exists>p. hs_pendingHaMerge s = Some p \<and> mpl_peers p \<noteq> [])) \<and>
     (hs_isHaClusterLinkModalOpen s \<longrightarrow>
        (\<exists>n. hs_haClusterLinkNotice s = Some n \<and> cl_peers n \<noteq> []))"

lemma host_inv_init: "obj_wf stored \<Longrightarrow> host_inv (init_host_state stored)"
  by (simp add: host_inv_def init_host_state_def flattenHostsFromGroups_def)

lemma host_inv_ui: "host_inv s \<Longrightarrow> host_inv (reduce_host_ui a s)"
  by (cases a) (simp_all add: host_inv_def obj_wf_del Let_def)

lemma host_inv_ha: "host_inv s \<Longrightarrow> host_inv (reduce_host_ha a s)"
  by (cases a) (simp_all add: host_inv_def distinct_push_new split: prod.split option.splits)

lemma notin_set_tl: "x \<notin> set xs \<Longrightarrow> x \<notin> set (tl xs)"
  by (cases xs) auto

lemma host_inv_dialog: "host_inv s \<Longrightarrow> host_inv (reduce_host_dialog a s)"
  by (cases a) (simp_all add: host_inv_def distinct_push_new distinct_tl notin_set_tl eq_commute)

lemma host_inv_loading [simp]: "host_inv (s\<lparr>hs_loading := b\<rparr>) = host_inv s"
  by (simp add: host_inv_def)

lemma host_inv_error [simp]: "host_inv (s\<lparr>hs_error := b\<rparr>) = host_inv s"
  by (simp add: host_inv_def)

lemma host_inv_request:
  "host_inv s \<Longrightarrow> host_inv (request_pending s)" "host_inv s \<Longrightarrow> host_inv (request_rejected e s)"
  by (simp_all add: request_pending_def request_rejected_def host_inv_def)

lemma host_inv_storage: "host_inv s \<Longrightarrow> host_inv (syncHaInfoStorage blocked s)"
  by (simp add: syncHaInfoStorage_def host_inv_def)

lemma host_inv_purge: "host_inv s \<Longrightarrow> host_inv (purgeHostClientState u s)"
  by (simp add: purgeHostClientState_def host_inv_def obj_wf_del)

lemma host_inv_purge_many: "host_inv s \<Longrightarrow> host_inv (fold purgeHostClientState us s)"
  by (induction us arbitrary: s) (auto intro: host_inv_purge)

lemma host_inv_clear: "host_inv s \<Longrightarrow> host_inv (clearHostLoginError u s)"
  by (simp add: clearHostLoginError_def host_inv_def obj_wf_del split: option.split)

lemma host_inv_apply: "host_inv s \<Longrightarrow> host_inv (applyHostGroupsResponse blocked gs s)"
  unfolding applyHostGroupsResponse_def Let_def
  by (rule host_inv_storage) (simp add: host_inv_def obj_wf_prune)

lemma host_inv_selection: "host_inv s \<Longrightarrow> host_inv (syncHostSelection s)"
  by (simp add: syncHostSelection_def syncSelectedHost_def host_inv_def Let_def split: option.split)

lemma host_inv_login_flags:
  "host_inv s \<Longrightarrow> host_inv (begin_login s)" "host_inv s \<Longrightarrow> host_inv (end_login s)"
  by (simp_all add: begin_login_def end_login_def host_inv_def)

lemma uid_clear_initial_login [simp]: "map hi_uid (clear_initial_login u hs) = map hi_uid hs"
  by (induction hs) auto

lemma host_inv_noteFirst: "host_inv s \<Longrightarrow> host_inv (noteFirstLogin u s)"
  by (simp add: noteFirstLogin_def host_inv_def distinct_push_new split: option.split)

lemma host_inv_login: "host_inv s \<Longrightarrow> host_inv (reduce_loginToHost u p s)"
proof (induction u p s rule: reduce_loginToHost.induct)
  case (2 u info s)
  then have "host_inv (clearHostLoginError u (end_login s))"
    by (intro host_inv_clear host_inv_login_flags)
  then show ?case
    unfolding reduce_loginToHost.simps loginFulfilled_def Let_def
    by (intro host_inv_noteFirst) (simp add: host_inv_def obj_wf_set distinct_push_new)
next
  case (3 u e s)
  then have "host_inv (end_login s)" by (rule host_inv_login_flags)
  then show ?case
    by (simp add: loginRejected_def host_inv_def obj_wf_set Let_def)
qed (auto intro: host_inv_clear host_inv_login_flags)

lemma host_inv_fetchHosts: "host_inv s \<Longrightarrow> host_inv (reduce_fetchHosts blocked p s)"
proof (induction blocked p s rule: reduce_fetchHosts.induct)
  case (2 blocked now gs s)
  then have "host_inv (applyHostGroupsResponse blocked gs (s\<lparr>hs_loading := False\<rparr>))"
    by (intro host_inv_apply) simp
  then show ?case
    by (simp add: hydrateAuthorizedHosts_def host_inv_def distinct_fold_push_new)
qed (simp_all add: host_inv_request)

lemma host_inv_addHost: "host_inv s \<Longrightarrow> host_inv (reduce_addHost blocked p s)"
proof (induction blocked p s rule: reduce_addHost.induct)
  case (2 blocked gs s)
  then have "host_inv (applyHostGroupsResponse blocked gs (s\<lparr>hs_loading := False\<rparr>))"
    by (intro host_inv_apply) simp
  then show ?case
    by (simp add: host_inv_def distinct_push_new Let_def split: option.split)
qed (simp_all add: host_inv_request)

lemma host_inv_tree_edits:
  assumes "host_inv s"
  shows "host_inv (reduce_deleteHost blocked p1 s)" "host_inv (reduce_editHost blocked p2 s)"
    "host_inv (reduce_moveHost blocked p2 s)" "host_inv (reduce_createHostGroup blocked p2 s)"
    "host_inv (reduce_updateHostGroup blocked p2 s)" "host_inv (reduce_deleteHostGroup blocked p3 s)"
proof -
  have app: "host_inv (applyHostGroupsResponse blocked gs (s\<lparr>hs_loading := False\<rparr>))" for gs
    using assms by (intro host_inv_apply) simp
  show "host_inv (reduce_deleteHost blocked p1 s)"
    by (cases p1) (auto simp: host_inv_request assms intro!: host_inv_storage host_inv_selection
        host_inv_purge app)
  show "host_inv (reduce_editHost blocked p2 s)"
    by (cases p2) (simp_all add: host_inv_request assms app)
  show "host_inv (reduce_moveHost blocked p2 s)"
    by (cases p2) (simp_all add: host_inv_request assms app host_inv_selection)
  show "host_inv (reduce_createHostGroup blocked p2 s)"
  proof (cases p2)
    case (Fulfilled gs)
    with app [of gs] show ?thesis by (simp add: host_inv_def)
  qed (simp_all add: host_inv_request assms)
  show "host_inv (reduce_updateHostGroup blocked p2 s)"
  proof (cases p2)
    case (Fulfilled gs)
    with app [of gs] show ?thesis by (simp add: host_inv_def)
  qed (simp_all add: host_inv_request assms)
  show "host_inv (reduce_deleteHostGroup blocked p3 s)"
  proof (cases p3)
    case (Fulfilled pr)
    obtain gs us where "pr = (gs, us)" by (cases pr)
    moreover have "host_inv (s'\<lparr>hs_selectedHostUid := v\<rparr>) = host_inv s'" for s' v
      by (simp add: host_inv_def)
    ultimately show ?thesis using Fulfilled app [of gs]
      by (auto simp: Let_def intro!: host_inv_storage host_inv_purge_many host_inv_selection
          split: option.split)
  qed (simp_all add: host_inv_request assms)
qed

lemma host_inv_reduce: "host_inv s \<Longrightarrow> host_inv (host_reduce blocked a s)"
proof (cases a)
  case (FetchHostEnv u p)
  then show "host_inv s \<Longrightarrow> ?thesis" by (cases p) (simp_all add: host_inv_def obj_wf_set)
next
  case (FetchCmsUsers u p)
  then show "host_inv s \<Longrightarrow> ?thesis" by (cases p) (simp_all add: host_inv_def obj_wf_set)
next
  case (CmsUserChange p)
  then show "host_inv s \<Longrightarrow> ?thesis"
    by (cases p) (auto simp: host_inv_def obj_wf_set request_pending_def request_rejected_def)
next
  case (LoginHostsBatch p)
  then show "host_inv s \<Longrightarrow> ?thesis" by (cases p) (simp_all add: host_inv_def)
next
  case (StartService p)
  then show "host_inv s \<Longrightarrow> ?thesis" by (cases p) (simp_all add: host_inv_def)
next
  case (StopService p)
  then show "host_inv s \<Longrightarrow> ?thesis" by (cases p) (simp_all add: host_inv_def)
next
  case (MergeHaPeers p)
  then show "host_inv s \<Longrightarrow> ?thesis" by (cases p) (simp_all add: host_inv_request)
next
  case (SetHostPassword p)
  then show "host_inv s \<Longrightarrow> ?thesis" by (cases p) (simp_all add: host_inv_request)
next
  case (RefreshHaInfo u info)
  then show "host_inv s \<Longrightarrow> ?thesis"
    unfolding host_reduce.simps refreshHaInfoFulfilled_def RefreshHaInfo
    by (intro host_inv_storage) (simp add: host_inv_def obj_wf_set)
qed (simp_all add: host_inv_ui host_inv_ha host_inv_dialog host_inv_fetchHosts host_inv_addHost
    host_inv_login host_inv_tree_edits host_inv_apply)

lemma host_dispatch_cases:
  "host_dispatch (blocked, a) s = s \<or> host_dispatch (blocked, a) s = host_reduce blocked a s"
  by (auto simp: host_dispatch_def host_step_def split: host_action.split phase.split)

lemma host_inv_dispatch: "host_inv s \<Longrightarrow> host_inv (host_dispatch ba s)"
  by (cases ba) (metis host_dispatch_cases host_inv_reduce)

interpretation host_slice: slice host_dispatch host_inv
  by unfold_locales (rule host_inv_dispatch)

end
