(* ===== verification/HostFacts.thy ===== *)
theory HostFacts
  imports HostInvariants
begin

text \<open>
  Properties of the host slice (\<open>hostSlice.js\<close>, model in \<open>HostState\<close> and \<open>HostReducers\<close>): the
  invariant over any run, who may authorize a host, what a deletion forgets, that the selection
  follows the tree, how login errors are kept apart, and what the reconnect queue does.
\<close>

section \<open>Facts about the shared steps\<close>

lemma apply_fields [simp]:
  "hs_hostGroups (applyHostGroupsResponse b gs s) = gs"
  "hs_hosts (applyHostGroupsResponse b gs s) = flattenHostsFromGroups gs"
  "hs_authorizedHosts (applyHostGroupsResponse b gs s) =
     filter (\<lambda>u. u \<in> hi_uid ` set (flattenHostsFromGroups gs)) (hs_authorizedHosts s)"
  "hs_selectedHostUid (applyHostGroupsResponse b gs s) = hs_selectedHostUid s"
  "hs_selectedGroupUid (applyHostGroupsResponse b gs s) = hs_selectedGroupUid s"
  "hs_authorizedHostsHydrated (applyHostGroupsResponse b gs s) = hs_authorizedHostsHydrated s"
  "hs_hostsAwaitingHaLogin (applyHostGroupsResponse b gs s) = hs_hostsAwaitingHaLogin s"
  "hs_skipAutoHostLogin (applyHostGroupsResponse b gs s) = hs_skipAutoHostLogin s"
  "hs_reconnectQueue (applyHostGroupsResponse b gs s) = hs_reconnectQueue s"
  by (simp_all add: applyHostGroupsResponse_def syncHaInfoStorage_def Let_def)

lemma apply_maps:
  "map_of (hs_haInfo (applyHostGroupsResponse b gs s)) v =
     (if v \<in> hi_uid ` set (flattenHostsFromGroups gs) then map_of (hs_haInfo s) v else None)"
  "map_of (hs_hostEnvs (applyHostGroupsResponse b gs s)) v =
     (if v \<in> hi_uid ` set (flattenHostsFromGroups gs) then map_of (hs_hostEnvs s) v else None)"
  "map_of (hs_hostAuthErrors (applyHostGroupsResponse b gs s)) v =
     (if v \<in> hi_uid ` set (flattenHostsFromGroups gs) then map_of (hs_hostAuthErrors s) v else None)"
  by (simp_all add: applyHostGroupsResponse_def syncHaInfoStorage_def Let_def obj_get_prune)

lemma storage_fields [simp]:
  "hs_hostGroups (syncHaInfoStorage b s) = hs_hostGroups s"
  "hs_authorizedHosts (syncHaInfoStorage b s) = hs_authorizedHosts s"
  "hs_haInfo (syncHaInfoStorage b s) = hs_haInfo s"
  "hs_hostEnvs (syncHaInfoStorage b s) = hs_hostEnvs s"
  "hs_hostAuthErrors (syncHaInfoStorage b s) = hs_hostAuthErrors s"
  "hs_selectedHostUid (syncHaInfoStorage b s) = hs_selectedHostUid s"
  "hs_selectedGroupUid (syncHaInfoStorage b s) = hs_selectedGroupUid s"
  "hs_authorizedHostsHydrated (syncHaInfoStorage b s) = hs_authorizedHostsHydrated s"
  by (simp_all add: syncHaInfoStorage_def)

lemma selection_fields [simp]:
  "hs_hostGroups (syncHostSelection s) = hs_hostGroups s"
  "hs_authorizedHosts (syncHostSelection s) = hs_authorizedHosts s"
  "hs_haInfo (syncHostSelection s) = hs_haInfo s"
  "hs_hostEnvs (syncHostSelection s) = hs_hostEnvs s"
  "hs_hostAuthErrors (syncHostSelection s) = hs_hostAuthErrors s"
  "hs_authorizedHostsHydrated (syncHostSelection s) = hs_authorizedHostsHydrated s"
  "hs_ls_haInfo (syncHostSelection s) = hs_ls_haInfo s"
  by (simp_all add: syncHostSelection_def syncSelectedHost_def Let_def split: option.split)

lemma purge_fields [simp]:
  "hs_hostGroups (purgeHostClientState u s) = hs_hostGroups s"
  "hs_selectedHostUid (purgeHostClientState u s) = hs_selectedHostUid s"
  "hs_selectedGroupUid (purgeHostClientState u s) = hs_selectedGroupUid s"
  "hs_authorizedHostsHydrated (purgeHostClientState u s) = hs_authorizedHostsHydrated s"
  "hs_authorizedHosts (purgeHostClientState u s) = filter (\<lambda>x. x \<noteq> u) (hs_authorizedHosts s)"
  "hs_ls_haInfo (purgeHostClientState u s) = hs_ls_haInfo s"
  by (simp_all add: purgeHostClientState_def)

lemma purge_many [simp]:
  "hs_hostGroups (fold purgeHostClientState us s) = hs_hostGroups s"
  "hs_selectedHostUid (fold purgeHostClientState us s) = hs_selectedHostUid s"
  "hs_selectedGroupUid (fold purgeHostClientState us s) = hs_selectedGroupUid s"
  "hs_authorizedHostsHydrated (fold purgeHostClientState us s) = hs_authorizedHostsHydrated s"
  "set (hs_authorizedHosts (fold purgeHostClientState us s)) = set (hs_authorizedHosts s) - set us"
  "hs_ls_haInfo (fold purgeHostClientState us s) = hs_ls_haInfo s"
  by (induction us arbitrary: s) auto

lemma clear_fields [simp]:
  "hs_authorizedHosts (clearHostLoginError u s) = hs_authorizedHosts s"
  "hs_authorizedHostsHydrated (clearHostLoginError u s) = hs_authorizedHostsHydrated s"
  "hs_haInfo (clearHostLoginError u s) = hs_haInfo s"
  "hs_ls_haInfo (clearHostLoginError u s) = hs_ls_haInfo s"
  "hs_reconnectQueue (clearHostLoginError u s) = hs_reconnectQueue s"
  by (simp_all add: clearHostLoginError_def split: option.split)

lemma login_flag_fields [simp]:
  "hs_authorizedHosts (begin_login s) = hs_authorizedHosts s"
  "hs_authorizedHosts (end_login s) = hs_authorizedHosts s"
  "hs_authorizedHostsHydrated (begin_login s) = hs_authorizedHostsHydrated s"
  "hs_authorizedHostsHydrated (end_login s) = hs_authorizedHostsHydrated s"
  "hs_haInfo (begin_login s) = hs_haInfo s" "hs_haInfo (end_login s) = hs_haInfo s"
  "hs_ls_haInfo (begin_login s) = hs_ls_haInfo s" "hs_ls_haInfo (end_login s) = hs_ls_haInfo s"
  "hs_reconnectQueue (end_login s) = hs_reconnectQueue s"
  by (simp_all add: begin_login_def end_login_def)

lemma noteFirst_fields [simp]:
  "hs_authorizedHosts (noteFirstLogin u s) = hs_authorizedHosts s"
  "hs_authorizedHostsHydrated (noteFirstLogin u s) = hs_authorizedHostsHydrated s"
  "hs_haInfo (noteFirstLogin u s) = hs_haInfo s"
  "hs_ls_haInfo (noteFirstLogin u s) = hs_ls_haInfo s"
  "hs_reconnectQueue (noteFirstLogin u s) = hs_reconnectQueue s"
  "hs_hostAuthErrors (noteFirstLogin u s) = hs_hostAuthErrors s"
  "hs_error (noteFirstLogin u s) = hs_error s"
  by (simp_all add: noteFirstLogin_def split: option.split)

lemma request_fields [simp]:
  "hs_authorizedHosts (request_pending s) = hs_authorizedHosts s"
  "hs_authorizedHosts (request_rejected e s) = hs_authorizedHosts s"
  "hs_authorizedHostsHydrated (request_pending s) = hs_authorizedHostsHydrated s"
  "hs_authorizedHostsHydrated (request_rejected e s) = hs_authorizedHostsHydrated s"
  "hs_haInfo (request_pending s) = hs_haInfo s" "hs_haInfo (request_rejected e s) = hs_haInfo s"
  "hs_ls_haInfo (request_pending s) = hs_ls_haInfo s"
  "hs_ls_haInfo (request_rejected e s) = hs_ls_haInfo s"
  by (simp_all add: request_pending_def request_rejected_def)

section \<open>The invariant over any run\<close>



section \<open>Who may authorize a host\<close>

lemma fetchHosts_authorizes:
  "hs_authorizedHostsHydrated s \<Longrightarrow> set (hs_authorizedHosts (reduce_fetchHosts b p s)) \<subseteq> set (hs_authorizedHosts s)
    \<and> hs_authorizedHostsHydrated (reduce_fetchHosts b p s)"
  by (induction b p s rule: reduce_fetchHosts.induct) (auto simp: hydrateAuthorizedHosts_def)

lemma addHost_authorizes:
  "set (hs_authorizedHosts (reduce_addHost b p s)) \<subseteq> set (hs_authorizedHosts s)
    \<and> hs_authorizedHostsHydrated (reduce_addHost b p s) = hs_authorizedHostsHydrated s"
  by (induction b p s rule: reduce_addHost.induct) (auto simp: Let_def split: option.split)

lemma login_authorizes:
  "set (hs_authorizedHosts (reduce_loginToHost u p s)) \<subseteq>
     set (hs_authorizedHosts s) \<union> (case p of Fulfilled _ \<Rightarrow> {u} | _ \<Rightarrow> {})
    \<and> hs_authorizedHostsHydrated (reduce_loginToHost u p s) = hs_authorizedHostsHydrated s"
  by (cases p) (auto simp: loginFulfilled_def loginRejected_def Let_def)

lemma tree_edit_authorizes:
  "set (hs_authorizedHosts (reduce_deleteHost b p1 s)) \<subseteq> set (hs_authorizedHosts s)"
  "set (hs_authorizedHosts (reduce_editHost b p2 s)) \<subseteq> set (hs_authorizedHosts s)"
  "set (hs_authorizedHosts (reduce_moveHost b p2 s)) \<subseteq> set (hs_authorizedHosts s)"
  "set (hs_authorizedHosts (reduce_createHostGroup b p2 s)) \<subseteq> set (hs_authorizedHosts s)"
  "set (hs_authorizedHosts (reduce_updateHostGroup b p2 s)) \<subseteq> set (hs_authorizedHosts s)"
  "set (hs_authorizedHosts (reduce_deleteHostGroup b p3 s)) \<subseteq> set (hs_authorizedHosts s)"
  "hs_authorizedHostsHydrated (reduce_deleteHost b p1 s) = hs_authorizedHostsHydrated s"
  "hs_authorizedHostsHydrated (reduce_editHost b p2 s) = hs_authorizedHostsHydrated s"
  "hs_authorizedHostsHydrated (reduce_moveHost b p2 s) = hs_authorizedHostsHydrated s"
  "hs_authorizedHostsHydrated (reduce_createHostGroup b p2 s) = hs_authorizedHostsHydrated s"
  "hs_authorizedHostsHydrated (reduce_updateHostGroup b p2 s) = hs_authorizedHostsHydrated s"
  "hs_authorizedHostsHydrated (reduce_deleteHostGroup b p3 s) = hs_authorizedHostsHydrated s"
  by (cases p1; auto; fail | cases p2; auto; fail
     | cases p3; auto simp: Let_def split: option.splits if_splits)+

lemma ui_authorizes:
  "set (hs_authorizedHosts (reduce_host_ui a s)) \<subseteq> set (hs_authorizedHosts s)
    \<and> hs_authorizedHostsHydrated (reduce_host_ui a s) = hs_authorizedHostsHydrated s"
  by (cases a) (auto simp: Let_def)

lemma other_authorizes:
  "hs_authorizedHosts (reduce_host_ha h s) = hs_authorizedHosts s"
  "hs_authorizedHostsHydrated (reduce_host_ha h s) = hs_authorizedHostsHydrated s"
  "hs_authorizedHosts (reduce_host_dialog d s) = hs_authorizedHosts s"
  "hs_authorizedHostsHydrated (reduce_host_dialog d s) = hs_authorizedHostsHydrated s"
  by (cases h; simp split: prod.split) (cases h; simp split: prod.split | cases d; simp)+

lemma reduce_authorizes:
  assumes "hs_authorizedHostsHydrated s" "\<And>info. a \<noteq> LoginToHost u (Fulfilled info)"
    and "u \<notin> set (hs_authorizedHosts s)"
  shows "hs_authorizedHostsHydrated (host_reduce b a s) \<and> u \<notin> set (hs_authorizedHosts (host_reduce b a s))"
proof (cases a)
  case (FetchHosts p)
  with fetchHosts_authorizes [OF assms(1)] assms(3) show ?thesis by auto
next
  case (AddHost p)
  with addHost_authorizes [of b p s] assms show ?thesis by auto
next
  case (LoginToHost v p)
  with login_authorizes [of v p s] assms show ?thesis by (cases p) auto
next
  case (Ui x)
  with ui_authorizes [of x s] assms show ?thesis by auto
next
  case (StartService p)
  with assms show ?thesis by (cases p) auto
next
  case (StopService p)
  with assms show ?thesis by (cases p) auto
next
  case (MergeHaPeers p)
  with assms show ?thesis by (cases p) auto
next
  case (SetHostPassword p)
  with assms show ?thesis by (cases p) auto
next
  case (FetchHostEnv v p)
  with assms show ?thesis by (cases p) auto
next
  case (FetchCmsUsers v p)
  with assms show ?thesis by (cases p) auto
next
  case (CmsUserChange p)
  with assms show ?thesis by (cases p) auto
next
  case (LoginHostsBatch p)
  with assms show ?thesis by (cases p) auto
qed (use assms in \<open>auto simp: refreshHaInfoFulfilled_def other_authorizes tree_edit_authorizes(7-12)
    dest: tree_edit_authorizes(1-6) [THEN subsetD]\<close>)

lemma run_authorizes:
  assumes "hs_authorizedHostsHydrated s" "u \<notin> set (hs_authorizedHosts s)"
    and "\<And>b info. (b, LoginToHost u (Fulfilled info)) \<notin> set as"
  shows "hs_authorizedHostsHydrated (host_run as s) \<and> u \<notin> set (hs_authorizedHosts (host_run as s))"
  unfolding host_run_def
proof (rule fold_stable)
  fix ba and t :: host_state
  assume mem: "ba \<in> set as" and t: "hs_authorizedHostsHydrated t \<and> u \<notin> set (hs_authorizedHosts t)"
  obtain b a where ba: "ba = (b, a)" by (cases ba)
  with mem assms(3) have "\<And>info. a \<noteq> LoginToHost u (Fulfilled info)" by blast
  with t reduce_authorizes have "hs_authorizedHostsHydrated (host_reduce b a t)
      \<and> u \<notin> set (hs_authorizedHosts (host_reduce b a t))" by blast
  with t host_dispatch_cases [of b a t] ba
  show "hs_authorizedHostsHydrated (host_dispatch ba t) \<and> u \<notin> set (hs_authorizedHosts (host_dispatch ba t))"
    by auto
qed (use assms in auto)

text \<open>
  once the tab has restored its sessions (\<open>authorizedHostsHydrated\<close>), a host the user
  disconnects (\<open>revokeHostLogin\<close>) never comes back as connected by anything but a successful
  login of that host: no refetched host list, edit, move, failed login or login of another host
  authorizes it.
\<close>

theorem disconnect_is_final:
  assumes "hs_authorizedHostsHydrated s"
    and "\<And>b info. (b, LoginToHost u (Fulfilled info)) \<notin> set as"
  shows "u \<notin> set (hs_authorizedHosts (host_run ((b, Ui (RevokeHostLogin u)) # as) s))"
proof -
  let ?s = "host_dispatch (b, Ui (RevokeHostLogin u)) s"
  have "hs_authorizedHostsHydrated ?s" "u \<notin> set (hs_authorizedHosts ?s)"
    using assms(1) by (auto simp: host_dispatch_def host_step_def)
  from run_authorizes [OF this assms(2)] show ?thesis by (simp add: host_run_def)
qed

definition sample_host :: "string \<Rightarrow> string \<Rightarrow> int option \<Rightarrow> host_info" where
  "sample_host u addr expires =
     \<lparr>hi_uid = u, hi_id = ''admin'', hi_address = addr, hi_port = 8001, hi_alias = u,
      hi_initialLogin = True, hi_cmsSessionExpiresAt = expires\<rparr>"

definition sample_groups :: "host_info list \<Rightarrow> host_info list \<Rightarrow> host_groups" where
  "sample_groups as bs =
     [(''g1'', \<lparr>hg_name = ''A'', hg_hosts = map (\<lambda>h. (hi_uid h, h)) as, hg_defaultHostUid = None\<rparr>),
      (''g2'', \<lparr>hg_name = ''B'', hg_hosts = map (\<lambda>h. (hi_uid h, h)) bs, hg_defaultHostUid = None\<rparr>)]"

lemma disconnect_is_final_witness:
  "hs_authorizedHostsHydrated ((init_host_state [])\<lparr>hs_authorizedHostsHydrated := True,
      hs_authorizedHosts := [''u1'']\<rparr>) \<and>
   ''u1'' \<notin> set (hs_authorizedHosts (host_run ((False, Ui (RevokeHostLogin ''u1'')) #
      [(False, FetchHosts (Fulfilled (5, sample_groups [sample_host ''u1'' ''db1'' (Some 9)] [])))])
      ((init_host_state [])\<lparr>hs_authorizedHostsHydrated := True, hs_authorizedHosts := [''u1'']\<rparr>)))"
  by (intro conjI disconnect_is_final) (auto simp: init_host_state_def)

section \<open>Deleting a host\<close>

text \<open>
  after a host is deleted, the slice has no session, HA entry, environment or login error
  for it, in memory or (when it can be written) in local storage, and it is not the selected
  host; every other host still in the tree keeps its session, HA entry, environment and error.
\<close>

theorem deleted_host_forgotten:
  assumes "groups_wf gs" "u \<notin> hi_uid ` set (flattenHostsFromGroups gs)"
    and "s' = host_reduce b (DeleteHost (Fulfilled (u, gs))) s"
  shows "u \<notin> set (hs_authorizedHosts s') \<and> map_of (hs_haInfo s') u = None
      \<and> map_of (hs_hostEnvs s') u = None \<and> map_of (hs_hostAuthErrors s') u = None
      \<and> (\<not> b \<longrightarrow> map_of (hs_ls_haInfo s') u = None)
      \<and> (u \<noteq> [] \<longrightarrow> hs_selectedHostUid s' \<noteq> Some u)
      \<and> (\<forall>v \<in> hi_uid ` set (flattenHostsFromGroups gs).
           (v \<in> set (hs_authorizedHosts s') \<longleftrightarrow> v \<in> set (hs_authorizedHosts s))
           \<and> map_of (hs_haInfo s') v = map_of (hs_haInfo s) v
           \<and> map_of (hs_hostEnvs s') v = map_of (hs_hostEnvs s) v
           \<and> map_of (hs_hostAuthErrors s') v = map_of (hs_hostAuthErrors s) v)"
proof -
  let ?p = "purgeHostClientState u (applyHostGroupsResponse b gs (s\<lparr>hs_loading := False\<rparr>))"
  have s': "s' = syncHaInfoStorage b (syncHostSelection ?p)" using assms(3) by simp
  have "u \<noteq> [] \<Longrightarrow> hs_selectedHostUid (syncHostSelection ?p) \<noteq> Some u"
  proof
    assume u: "u \<noteq> []" "hs_selectedHostUid (syncHostSelection ?p) = Some u"
    then have sel: "hs_selectedHostUid ?p = Some u"
      by (auto simp: syncHostSelection_def syncSelectedHost_def Let_def split: if_splits option.splits)
    have "findGroupIdForHost gs (Some u) = None"
      using in_group_host [OF assms(1)] assms(2) by (auto simp: findGroupIdForHost_None)
    with sel u show False
      by (auto simp: syncHostSelection_def syncSelectedHost_def Let_def truthy_str_def
          split: if_splits option.splits)
  qed
  then show ?thesis using assms(2)
    by (auto simp: s' purgeHostClientState_def map_of_obj_del apply_maps syncHaInfoStorage_def)
qed

lemma deleted_host_forgotten_witness:
  "groups_wf (sample_groups [sample_host ''u2'' ''db2'' None] []) \<and>
   hs_selectedHostUid (host_reduce False (DeleteHost (Fulfilled (''u1'',
     sample_groups [sample_host ''u2'' ''db2'' None] [])))
       ((init_host_state [])\<lparr>hs_selectedHostUid := Some ''u1'', hs_authorizedHosts := [''u1'', ''u2'']\<rparr>))
     \<noteq> Some ''u1''"
proof -
  let ?gs = "sample_groups [sample_host ''u2'' ''db2'' None] []"
  have wf: "groups_wf ?gs"
    by (simp add: groups_wf_def sample_groups_def sample_host_def obj_wf_def)
  have no: "''u1'' \<notin> hi_uid ` set (flattenHostsFromGroups ?gs)"
    by (simp add: flattenHostsFromGroups_def sample_groups_def sample_host_def)
  show ?thesis
    using wf deleted_host_forgotten [OF wf no refl, of False
        "(init_host_state [])\<lparr>hs_selectedHostUid := Some ''u1'', hs_authorizedHosts := [''u1'', ''u2'']\<rparr>"]
    by blast
qed

section \<open>The selection follows the tree\<close>

text \<open>A selected host is in the selected group, and a selected group exists.\<close>

definition selection_ok :: "host_state \<Rightarrow> bool" where
  "selection_ok s \<longleftrightarrow>
     (\<forall>u. hs_selectedHostUid s = Some u \<and> u \<noteq> [] \<longrightarrow>
        (\<exists>g. hs_selectedGroupUid s = Some g \<and> in_group (hs_hostGroups s) g u)) \<and>
     (\<forall>g. hs_selectedGroupUid s = Some g \<and> g \<noteq> [] \<longrightarrow> map_of (hs_hostGroups s) g \<noteq> None)"

lemma in_group_key: "in_group gs g u \<Longrightarrow> map_of gs g \<noteq> None"
  unfolding in_group_def by (metis map_of_eq_None_iff image_eqI fst_conv)

lemma syncHostSelection_ok: "selection_ok (syncHostSelection s)"
proof (cases "truthy_str (hs_selectedHostUid s)")
  case False
  then show ?thesis
    by (auto simp: selection_ok_def syncHostSelection_def syncSelectedHost_def truthy_str_def Let_def
        split: option.split)
next
  case True
  then obtain u where u: "hs_selectedHostUid s = Some u" "u \<noteq> []" by (auto simp: truthy_str_def)
  show ?thesis
  proof (cases "findGroupIdForHost (hs_hostGroups s) (Some u)")
    case None
    with u show ?thesis
      by (auto simp: selection_ok_def syncHostSelection_def syncSelectedHost_def truthy_str_def Let_def
          split: option.split)
  next
    case (Some g)
    from findGroupIdForHost_SomeD [OF Some] in_group_key
    have g: "in_group (hs_hostGroups s) g u" "map_of (hs_hostGroups s) g \<noteq> None" by blast+
    with u Some show ?thesis
      by (cases "g = []")
        (auto simp: selection_ok_def syncHostSelection_def syncSelectedHost_def truthy_str_def Let_def
          split: option.split)
  qed
qed

lemma selection_ok_frame:
  "hs_selectedHostUid t = hs_selectedHostUid s \<Longrightarrow> hs_selectedGroupUid t = hs_selectedGroupUid s \<Longrightarrow>
   hs_hostGroups t = hs_hostGroups s \<Longrightarrow> selection_ok t = selection_ok s"
  by (simp add: selection_ok_def)

text \<open>
  whenever a host is moved or deleted or a group is deleted, the selection is repaired
  against the tree the server returned: the selected host (if any is left) is a member of the
  selected group and the selected group exists.
\<close>

theorem selection_follows_tree:
  "selection_ok (host_reduce b (MoveHost (Fulfilled gs)) s) \<and>
   selection_ok (host_reduce b (DeleteHost (Fulfilled (u, gs))) s) \<and>
   selection_ok (host_reduce b (DeleteHostGroup (Fulfilled (gs, us))) s)"
proof (intro conjI)
  show "selection_ok (host_reduce b (MoveHost (Fulfilled gs)) s)"
    by (simp add: syncHostSelection_ok)
  have "selection_ok (syncHaInfoStorage b (syncHostSelection t))" for t
    using syncHostSelection_ok selection_ok_frame [of "syncHaInfoStorage b (syncHostSelection t)"
        "syncHostSelection t"] by simp
  then show "selection_ok (host_reduce b (DeleteHost (Fulfilled (u, gs))) s)" by simp
  have "selection_ok (syncHaInfoStorage b (fold purgeHostClientState us (syncHostSelection t)))" for t
    using syncHostSelection_ok selection_ok_frame [of
        "syncHaInfoStorage b (fold purgeHostClientState us (syncHostSelection t))"
        "syncHostSelection t"] by simp
  then show "selection_ok (host_reduce b (DeleteHostGroup (Fulfilled (gs, us))) s)"
    by (simp add: Let_def)
qed

text \<open>
  Adding a host. When the tree the server returns has exactly one new host, that host is
  queued for its first-login HA handling and, unless the import batch asked for no automatic
  login, becomes the selected host with its own group selected; with that flag the selection
  is left alone. The dialog closes and the spinner stops in both cases.
\<close>

theorem addHost_selects_the_new_host:
  assumes wf: "groups_wf gs"
    and new: "hi_uid ` set (flattenHostsFromGroups gs) - hi_uid ` set (hs_hosts s) = {n}"
    and s': "s' = host_reduce b (AddHost (Fulfilled gs)) s"
  shows "n \<in> set (hs_hostsAwaitingHaLogin s') \<and> \<not> hs_isAddHostModalOpen s' \<and> \<not> hs_loading s'
    \<and> (if hs_skipAutoHostLogin s
       then hs_selectedHostUid s' = hs_selectedHostUid s \<and> hs_selectedGroupUid s' = hs_selectedGroupUid s
       else hs_selectedHostUid s' = Some n
         \<and> (\<exists>g. hs_selectedGroupUid s' = Some g \<and> in_group gs g n))"
proof -
  let ?P = "\<lambda>h. hi_uid h \<notin> hi_uid ` set (hs_hosts s)"
  have "find ?P (flattenHostsFromGroups gs) \<noteq> None"
  proof
    assume "find ?P (flattenHostsFromGroups gs) = None"
    then have "\<not> (\<exists>h. h \<in> set (flattenHostsFromGroups gs) \<and> ?P h)" unfolding find_None_iff .
    moreover have "n \<in> hi_uid ` set (flattenHostsFromGroups gs) - hi_uid ` set (hs_hosts s)"
      unfolding new by simp
    ultimately show False by (elim DiffE imageE) blast
  qed
  then obtain h where h: "find ?P (flattenHostsFromGroups gs) = Some h" by blast
  from find_SomeD [OF h] have mem: "h \<in> set (flattenHostsFromGroups gs)" "?P h" by simp_all
  then have "hi_uid h \<in> hi_uid ` set (flattenHostsFromGroups gs) - hi_uid ` set (hs_hosts s)" by blast
  then have n: "hi_uid h = n" "h \<in> set (flattenHostsFromGroups gs)"
    using mem(1) by (simp_all only: new singleton_iff)
  from flatten_in_group [OF wf n(2)] n(1) obtain g where "in_group gs g n" "n \<noteq> []" by auto
  then have "findGroupIdForHost gs (Some n) = Some g" "in_group gs g n"
    using findGroupIdForHost_iff [OF wf] by auto
  moreover have "\<not> hs_loading (applyHostGroupsResponse b gs (s\<lparr>hs_loading := False\<rparr>))"
    by (simp add: applyHostGroupsResponse_def syncHaInfoStorage_def Let_def)
  ultimately show ?thesis using h n by (simp add: s' Let_def)
qed

lemma addHost_selects_the_new_host_witness:
  "groups_wf (sample_groups [sample_host ''u1'' ''db1'' None] []) \<and>
   hs_selectedHostUid (host_reduce False (AddHost (Fulfilled
     (sample_groups [sample_host ''u1'' ''db1'' None] []))) (init_host_state [])) = Some ''u1''"
proof -
  let ?gs = "sample_groups [sample_host ''u1'' ''db1'' None] []"
  have wf: "groups_wf ?gs"
    by (simp add: groups_wf_def sample_groups_def sample_host_def obj_wf_def)
  have new: "hi_uid ` set (flattenHostsFromGroups ?gs) - hi_uid ` set (hs_hosts (init_host_state [])) = {''u1''}"
    by (simp add: flattenHostsFromGroups_def sample_groups_def sample_host_def init_host_state_def)
  have "\<not> hs_skipAutoHostLogin (init_host_state [])" by (simp add: init_host_state_def)
  with wf addHost_selects_the_new_host [OF wf new refl, of False] show ?thesis by simp
qed

section \<open>Login errors\<close>

lemma clear_effect:
  "hs_error (clearHostLoginError u s) =
     (if map_of (hs_hostAuthErrors s) u \<noteq> None \<and> hs_loginErrorHostUid s = Some u
         \<and> hs_error s = map_of (hs_hostAuthErrors s) u then None else hs_error s)"
  "hs_loginErrorHostUid (clearHostLoginError u s) =
     (if map_of (hs_hostAuthErrors s) u \<noteq> None \<and> hs_loginErrorHostUid s = Some u
         \<and> hs_error s = map_of (hs_hostAuthErrors s) u then None else hs_loginErrorHostUid s)"
  "map_of (hs_hostAuthErrors (clearHostLoginError u s)) v =
     (if v = u then None else map_of (hs_hostAuthErrors s) v)"
  "hs_isBatchHostLogin (clearHostLoginError u s) = hs_isBatchHostLogin s"
  by (auto simp: clearHostLoginError_def map_of_obj_del split: option.split)

lemma login_flag_effect:
  "hs_error (begin_login s) = hs_error s" "hs_error (end_login s) = hs_error s"
  "hs_loginErrorHostUid (begin_login s) = hs_loginErrorHostUid s"
  "hs_loginErrorHostUid (end_login s) = hs_loginErrorHostUid s"
  "hs_hostAuthErrors (begin_login s) = hs_hostAuthErrors s"
  "hs_hostAuthErrors (end_login s) = hs_hostAuthErrors s"
  "hs_isBatchHostLogin (begin_login s) = hs_isBatchHostLogin s"
  "hs_isBatchHostLogin (end_login s) = hs_isBatchHostLogin s"
  by (simp_all add: begin_login_def end_login_def)

lemma rejected_effect:
  assumes "\<not> hs_isBatchHostLogin s"
  shows "hs_error (loginRejected u e s) = Some e"
    "hs_loginErrorHostUid (loginRejected u e s) = Some u"
    "map_of (hs_hostAuthErrors (loginRejected u e s)) v =
       (if v = u then Some e else map_of (hs_hostAuthErrors s) v)"
    "\<not> hs_isBatchHostLogin (loginRejected u e s)"
  using assms by (simp_all add: loginRejected_def Let_def login_flag_effect map_of_obj_set)

lemma fulfilled_effect:
  "hs_error (loginFulfilled u info s) = hs_error (clearHostLoginError u s)"
  "map_of (hs_hostAuthErrors (loginFulfilled u info s)) v =
     (if v = u then None else map_of (hs_hostAuthErrors s) v)"
  by (simp_all add: loginFulfilled_def Let_def clear_effect login_flag_effect)

text \<open>
  Login errors are kept apart by host. Two different hosts fail to log in with the very
  same message; then the first is retried and succeeds. Its own record is gone, and the
  message of the second host's failure is still shown, both for that host and as the slice's
  error. (Had the first host been the last to fail, its retry would have cleared the error.)
\<close>

theorem login_error_of_other_host_stays:
  assumes "u \<noteq> v" "\<not> hs_isBatchHostLogin s"
  shows "let s' = host_run [(b, LoginToHost u (Rejected e)), (b, LoginToHost v (Rejected e)),
                            (b, LoginToHost u Pending), (False, LoginToHost u (Fulfilled info))] s;
             s'' = host_run [(b, LoginToHost v (Rejected e)), (b, LoginToHost u (Rejected e)),
                            (b, LoginToHost u Pending), (False, LoginToHost u (Fulfilled info))] s
    in hs_error s' = Some e \<and> map_of (hs_hostAuthErrors s') v = Some e
       \<and> map_of (hs_hostAuthErrors s') u = None
       \<and> hs_error s'' = None \<and> map_of (hs_hostAuthErrors s'') v = Some e
       \<and> map_of (hs_hostAuthErrors s'') u = None"
  using assms
  by (simp add: host_run_def host_dispatch_def host_step_def Let_def
      fulfilled_effect clear_effect login_flag_effect rejected_effect)

lemma login_error_of_other_host_stays_witness:
  "''u1'' \<noteq> (''u2'' :: string) \<and> hs_error (host_run [(False, LoginToHost ''u1'' (Rejected ''down'')),
     (False, LoginToHost ''u2'' (Rejected ''down'')), (False, LoginToHost ''u1'' Pending),
     (False, LoginToHost ''u1'' (Fulfilled \<lparr>hai_isHA = Bool False, hai_currentNodeType = None, hai_haNodes = []\<rparr>))]
     (init_host_state [])) = Some ''down''"
  using login_error_of_other_host_stays [of "''u1''" "''u2''" "init_host_state []" False "''down''"
      "\<lparr>hai_isHA = Bool False, hai_currentNodeType = None, hai_haNodes = []\<rparr>"]
  by (simp add: init_host_state_def Let_def)

section \<open>The copy in local storage\<close>

lemma storage_synced [simp]: "hs_ls_haInfo (syncHaInfoStorage False s) = hs_haInfo s"
  by (simp add: syncHaInfoStorage_def)

lemma apply_synced: "hs_ls_haInfo (applyHostGroupsResponse False gs s) = hs_haInfo (applyHostGroupsResponse False gs s)"
  by (simp add: applyHostGroupsResponse_def Let_def)

lemma reduce_synced:
  assumes "hs_ls_haInfo s = hs_haInfo s"
  shows "hs_ls_haInfo (host_reduce False a s) = hs_haInfo (host_reduce False a s)"
proof (cases a)
  case (Ui x)
  with assms show ?thesis by (cases x) (simp_all add: Let_def)
next
  case (Ha x)
  with assms show ?thesis by (cases x) (simp_all split: prod.split)
next
  case (Dialog x)
  with assms show ?thesis by (cases x) simp_all
next
  case (FetchHosts p)
  with assms show ?thesis
    by (cases p) (auto simp: hydrateAuthorizedHosts_def apply_synced)
next
  case (AddHost p)
  with assms show ?thesis
    by (cases p) (auto simp: apply_synced Let_def split: option.split)
next
  case (LoginToHost u p)
  with assms show ?thesis
    by (cases p) (auto simp: loginFulfilled_def loginRejected_def Let_def)
next
  case (DeleteHost p)
  with assms show ?thesis by (cases p) auto
next
  case (EditHost p)
  with assms show ?thesis by (cases p) (auto simp: apply_synced)
next
  case (MoveHost p)
  with assms show ?thesis by (cases p) (auto simp: apply_synced)
next
  case (MergeHaPeers p)
  with assms show ?thesis by (cases p) auto
next
  case (SetHostPassword p)
  with assms show ?thesis by (cases p) auto
next
  case (StartService p)
  with assms show ?thesis by (cases p) auto
next
  case (StopService p)
  with assms show ?thesis by (cases p) auto
next
  case (CreateHostGroup p)
  with assms show ?thesis by (cases p) (auto simp: apply_synced)
next
  case (UpdateHostGroup p)
  with assms show ?thesis by (cases p) (auto simp: apply_synced)
next
  case (DeleteHostGroup p)
  with assms show ?thesis by (cases p) (auto simp: Let_def)
next
  case (FetchHostEnv u p)
  with assms show ?thesis by (cases p) auto
next
  case (FetchCmsUsers u p)
  with assms show ?thesis by (cases p) auto
next
  case (CmsUserChange p)
  with assms show ?thesis by (cases p) auto
next
  case (LoginHostsBatch p)
  with assms show ?thesis by (cases p) auto
qed (use assms in \<open>simp_all add: refreshHaInfoFulfilled_def apply_synced\<close>)

text \<open>
  As long as the browser accepts the writes, the HA cache in local storage equals the one
  in memory after every sequence of dispatches from the start of the tab, so a reload starts
  from exactly the last known HA state.
\<close>

theorem storage_mirrors_haInfo:
  assumes "\<forall>(blocked, a) \<in> set as. \<not> blocked"
  shows "hs_ls_haInfo (host_run as (init_host_state stored)) = hs_haInfo (host_run as (init_host_state stored))"
  unfolding host_run_def
proof (rule fold_stable)
  fix ba and t :: host_state
  assume mem: "ba \<in> set as" and t: "hs_ls_haInfo t = hs_haInfo t"
  obtain b a where ba: "ba = (b, a)" by (cases ba)
  with mem assms have "\<not> b" by auto
  with ba reduce_synced [OF t, of a] t host_dispatch_cases [of b a t]
  show "hs_ls_haInfo (host_dispatch ba t) = hs_haInfo (host_dispatch ba t)" by auto
qed (simp add: init_host_state_def)

lemma storage_mirrors_haInfo_witness:
  "hs_ls_haInfo (host_run [(False, RefreshHaInfo ''u1''
      \<lparr>hai_isHA = Bool True, hai_currentNodeType = Some ''master'', hai_haNodes = []\<rparr>)] (init_host_state []))
   = [(''u1'', \<lparr>hai_isHA = Bool True, hai_currentNodeType = Some ''master'', hai_haNodes = []\<rparr>)]"
proof -
  let ?info = "\<lparr>hai_isHA = Bool True, hai_currentNodeType = Some ''master'', hai_haNodes = []\<rparr>"
  have all: "\<forall>(blocked, a) \<in> set [(False, RefreshHaInfo ''u1'' ?info)]. \<not> blocked" by simp
  have "hs_haInfo (host_run [(False, RefreshHaInfo ''u1'' ?info)] (init_host_state [])) = [(''u1'', ?info)]"
    by (simp add: host_run_def host_dispatch_def host_step_def refreshHaInfoFulfilled_def init_host_state_def)
  with storage_mirrors_haInfo [OF all, of "[]"] show ?thesis by simp
qed

text \<open>
  a refused write is caught everywhere but in \<open>loginToHost.fulfilled\<close>: there the reducer
  raises, so a login the server accepted is not recorded at all (the host stays unauthorized
  and the login spinner stays up), while the same HA data delivered by a refresh is stored in
  memory.
\<close>

theorem refused_write_loses_a_login:
  assumes "\<not> hs_isBatchHostLogin s" "u \<notin> set (hs_authorizedHosts s)"
  shows "host_step True (LoginToHost u (Fulfilled info)) s = Inl (Thrown ''QuotaExceededError'')
    \<and> (let s' = host_run [(True, LoginToHost u Pending), (True, LoginToHost u (Fulfilled info))] s
       in hs_isLoggingIntoHost s' \<and> u \<notin> set (hs_authorizedHosts s'))
    \<and> map_of (hs_haInfo (host_run [(True, RefreshHaInfo u info)] s)) u = Some info"
  using assms
  by (simp add: host_step_def host_run_def host_dispatch_def Let_def refreshHaInfoFulfilled_def
      map_of_obj_set) (simp add: clearHostLoginError_def begin_login_def split: option.split)

lemma refused_write_loses_a_login_witness:
  "host_step True (LoginToHost ''u1'' (Fulfilled \<lparr>hai_isHA = Bool False, hai_currentNodeType = None,
      hai_haNodes = []\<rparr>)) (init_host_state []) = Inl (Thrown ''QuotaExceededError'')"
  by (rule refused_write_loses_a_login [THEN conjunct1]) (simp_all add: init_host_state_def)

section \<open>The reconnect queue\<close>

text \<open>
  What \<open>handleReconnect\<close> of \<open>components/ReconnectHostModal.jsx\<close> dispatches to this slice when
  the login of the host it shows (the first of the queue) succeeds: the login's own actions,
  then \<open>closeReconnectModal\<close>.
\<close>

definition handleReconnect_success :: "ha_info \<Rightarrow> host_state \<Rightarrow> host_state" where
  "handleReconnect_success info s =
     (case hs_reconnectQueue s of
        [] \<Rightarrow> s
      | u # _ \<Rightarrow> host_run [(False, LoginToHost u Pending), (False, LoginToHost u (Fulfilled info)),
                        (False, Dialog CloseReconnectModal)] s)"

text \<open>\<open>handleDisconnect\<close>: the revocation and then the same closing action.\<close>

definition handleDisconnect_actions :: "host_state \<Rightarrow> host_state" where
  "handleDisconnect_actions s =
     (case hs_reconnectQueue s of
        [] \<Rightarrow> s
      | u # _ \<Rightarrow> host_run [(False, Ui (RevokeHostLogin u)), (False, Dialog CloseReconnectModal),
                        (False, Dialog ClearHostError)] s)"

lemma login_queue:
  "hs_reconnectQueue (reduce_loginToHost u (Fulfilled info) s) = filter (\<lambda>v. v \<noteq> u) (hs_reconnectQueue s)"
  by (simp add: loginFulfilled_def Let_def)

lemma begin_login_queue [simp]: "hs_reconnectQueue (begin_login s) = hs_reconnectQueue s"
  by (simp add: begin_login_def)

text \<open>
  With two hosts waiting for the user's decision, disconnecting the first leaves the second
  in the queue, but reconnecting the first drops the second as well: the successful login
  already removes its own host, and \<open>closeReconnectModal\<close> then removes whichever host has
  become the first. The second host's prompt is never shown.
\<close>

theorem reconnect_drops_the_next_prompt:
  assumes "hs_reconnectQueue s = u # v # rest" "distinct (u # v # rest)"
  shows "hs_reconnectQueue (handleReconnect_success info s) = rest
    \<and> hs_reconnectQueue (handleDisconnect_actions s) = v # rest"
proof -
  have "filter (\<lambda>x. x \<noteq> u) (u # v # rest) = v # rest"
    using assms(2) by (auto intro: filter_True)
  then show ?thesis
    using assms(1) by (simp add: handleReconnect_success_def handleDisconnect_actions_def host_run_def
        host_dispatch_def host_step_def login_queue del: reduce_loginToHost.simps(2))
qed

lemma reconnect_drops_the_next_prompt_witness:
  "hs_reconnectQueue (handleReconnect_success \<lparr>hai_isHA = Bool False, hai_currentNodeType = None,
      hai_haNodes = []\<rparr> ((init_host_state [])\<lparr>hs_reconnectQueue := [''u1'', ''u2'']\<rparr>)) = []"
  by (rule reconnect_drops_the_next_prompt [of _ "''u1''" "''u2''", THEN conjunct1])
    (simp_all add: init_host_state_def)

end
