(* ===== verification/HostThunks.thy ===== *)
theory HostThunks
  imports HostFacts
begin

text \<open>
  The thunks of \<open>hostSlice.js\<close> and the result dialog of \<open>hostLoginReport.js\<close>.

  A server call is a parameter: its outcome is an \<open>api_error\<close> or the response. A thunk is the
  phase it settles in, given the outcome. A thunk that dispatches others is modelled as the run
  of its dispatches on the state. \<open>processHaLoginSideEffects\<close> waits once, for \<open>markGroupHa\<close>; what
  other code dispatches meanwhile is the parameter \<open>env\<close>, any function on states. In the loops
  over several hosts (\<open>mergeHaPeers\<close>, \<open>loginHostsBatch\<close>) nothing else is dispatched in between.
\<close>

section \<open>Outcomes of server calls\<close>

text \<open>What the code reads of a failed call: \<open>err.response?.data\<close>, with its fields \<open>message\<close>,
  \<open>error\<close>, \<open>type\<close> and \<open>data.type\<close>; all are missing when there is no response.\<close>

record api_error =
  ae_message :: "string option"
  ae_error :: "string option"
  ae_type :: "string option"
  ae_dataType :: "string option"

definition errMessage :: "string \<Rightarrow> api_error \<Rightarrow> string" where
  "errMessage fallback e = str_or (ae_message e) fallback"

definition errMessageOrError :: "string \<Rightarrow> api_error \<Rightarrow> string" where
  "errMessageOrError fallback e = str_or (ae_message e) (str_or (ae_error e) fallback)"

definition settle :: "(api_error \<Rightarrow> string) \<Rightarrow> ('r \<Rightarrow> 'p) \<Rightarrow> api_error + 'r \<Rightarrow> ('p, string) phase" where
  "settle msg f r = (case r of Inl e \<Rightarrow> Rejected (msg e) | Inr x \<Rightarrow> Fulfilled (f x))"

text \<open>\<open>response.host_groups || {}\<close>.\<close>

definition groupsOr :: "host_groups option \<Rightarrow> host_groups" where
  "groupsOr r = (case r of None \<Rightarrow> [] | Some gs \<Rightarrow> gs)"

definition fetchHosts :: "int \<Rightarrow> api_error + host_groups option \<Rightarrow> (int \<times> host_groups, string) phase" where
  "fetchHosts now = settle (errMessage ''Failed to fetch hosts'') (\<lambda>r. (now, groupsOr r))"

definition addHost :: "api_error + host_groups option \<Rightarrow> (host_groups, string) phase" where
  "addHost = settle (errMessageOrError ''Failed to add host'') groupsOr"

definition deleteHost ::
  "string \<Rightarrow> api_error + host_groups option \<Rightarrow> (string \<times> host_groups, string) phase" where
  "deleteHost hostUid = settle (errMessageOrError ''Failed to delete host'') (\<lambda>r. (hostUid, groupsOr r))"

definition editHost :: "api_error + host_groups option \<Rightarrow> (host_groups, string) phase" where
  "editHost = settle (errMessageOrError ''Failed to edit host'') groupsOr"

definition moveHost :: "api_error + host_groups option \<Rightarrow> (host_groups, string) phase" where
  "moveHost = settle (errMessageOrError ''Failed to move host'') groupsOr"

definition markGroupHa :: "api_error + host_groups option \<Rightarrow> (host_groups, string) phase" where
  "markGroupHa = settle (errMessage ''Failed to mark HA group'') groupsOr"

definition createHostGroup :: "api_error + host_groups option \<Rightarrow> (host_groups, string) phase" where
  "createHostGroup = settle (errMessageOrError ''Failed to create group'') groupsOr"

definition updateHostGroup :: "api_error + host_groups option \<Rightarrow> (host_groups, string) phase" where
  "updateHostGroup = settle (errMessageOrError ''Failed to update group'') groupsOr"

text \<open>The members of the group are read before the call is made.\<close>

definition deleteHostGroup ::
  "host_state \<Rightarrow> string \<Rightarrow> api_error + host_groups option
    \<Rightarrow> (host_groups \<times> string list, string) phase" where
  "deleteHostGroup s groupId =
     (let removedHostUids = getGroupHostUids (map_of (hs_hostGroups s) groupId)
      in settle (errMessageOrError ''Failed to delete group'') (\<lambda>r. (groupsOr r, removedHostUids)))"

definition setHostPassword :: "api_error + unit \<Rightarrow> (unit, string) phase" where
  "setHostPassword = settle (errMessageOrError ''Failed to set password'') id"

section \<open>The service of a host\<close>

definition HA_NODE_STEP :: string where
  "HA_NODE_STEP = ''HA databases (heartbeat)''"

definition formatServiceFailures :: "string \<Rightarrow> (string \<times> string) list \<Rightarrow> string" where
  "formatServiceFailures actionLabel failures =
     ''Failed to '' @ actionLabel @ '' for: '' @
     join '', '' (map (\<lambda>(name, err). name @ '' ('' @ err @ '')'') failures)"

record service_result =
  sr_problem :: string
  sr_skipped :: "js list"
  sr_haNodeFailed :: bool

text \<open>The payload of a successful start: partial failures come back as text, not as an error.\<close>

definition startService ::
  "api_error + (string \<times> string) list \<times> js list \<Rightarrow> (service_result, string) phase" where
  "startService = settle (errMessage ''Failed to start service'')
     (\<lambda>(failed, skipped).
        \<lparr>sr_problem = (if length failed > 0 then formatServiceFailures ''start service'' failed else []),
         sr_skipped = skipped, sr_haNodeFailed = list_ex (\<lambda>f. fst f = HA_NODE_STEP) failed\<rparr>)"

definition stopService ::
  "api_error + (string \<times> string) list \<times> js list \<Rightarrow> (string \<times> js list, string) phase" where
  "stopService = settle (errMessage ''Failed to stop service'')
     (\<lambda>(failed, skipped).
        (if length failed > 0 then formatServiceFailures ''stop service'' failed else [], skipped))"

text \<open>The thunks with what they dispatch on this slice: pending, the progress text, and at the
  end the settled phase. The refreshes a success also dispatches are not awaited; they are
  dispatches of their own (\<open>RefreshHaInfo\<close> here, the others on other slices).\<close>

definition progress :: "string \<Rightarrow> host_state \<Rightarrow> host_state" where
  "progress msg s = reduce_host_ui (SetServiceProgressMessage msg) s"

definition run_startService ::
  "api_error + (string \<times> string) list \<times> js list \<Rightarrow> host_state \<Rightarrow> host_state" where
  "run_startService r s =
     (let s1 = progress ''Starting service...'' (reduce_service ''start'' Pending s)
      in case startService r of
           Rejected e \<Rightarrow> reduce_service ''start'' (Rejected e) s1
         | Fulfilled _ \<Rightarrow> reduce_service ''start'' (Fulfilled ()) (progress ''Refreshing status...'' s1)
         | Pending \<Rightarrow> s1)"

definition run_stopService ::
  "api_error + (string \<times> string) list \<times> js list \<Rightarrow> host_state \<Rightarrow> host_state" where
  "run_stopService r s =
     (let s1 = progress ''Stopping service...'' (reduce_service ''stop'' Pending s)
      in case stopService r of
           Rejected e \<Rightarrow> reduce_service ''stop'' (Rejected e) s1
         | Fulfilled _ \<Rightarrow> reduce_service ''stop'' (Fulfilled ()) (progress ''Refreshing status...'' s1)
         | Pending \<Rightarrow> s1)"

text \<open>\<open>restartHostService\<close> (\<open>hostServiceRestart.js\<close>): one request; whatever its outcome, a result.
  An error without a response gives its own message, the argument of \<open>errorText\<close>.\<close>

record restart_response =
  rr_stopFailed :: "(string \<times> string) list"
  rr_startFailed :: "(string \<times> string) list"
  rr_skipped :: "js list"
  rr_leftStopped :: "string list"

record restart_result =
  rs_problems :: "string list"
  rs_skipped :: "js list"
  rs_leftStopped :: "string list"
  rs_haNodeFailed :: bool

definition restartHostService :: "string \<Rightarrow> api_error + restart_response \<Rightarrow> restart_result" where
  "restartHostService errorText r =
     (case r of
        Inl e \<Rightarrow> \<lparr>rs_problems = [errMessage errorText e], rs_skipped = [], rs_leftStopped = [],
                  rs_haNodeFailed = False\<rparr>
      | Inr x \<Rightarrow>
          \<lparr>rs_problems = filter (\<lambda>p. p \<noteq> [])
             [if length (rr_stopFailed x) > 0 then formatServiceFailures ''stop service'' (rr_stopFailed x) else [],
              if length (rr_startFailed x) > 0 then formatServiceFailures ''start service'' (rr_startFailed x) else []],
           rs_skipped = rr_skipped x, rs_leftStopped = rr_leftStopped x,
           rs_haNodeFailed = list_ex (\<lambda>f. fst f = HA_NODE_STEP) (rr_startFailed x)\<rparr>)"

section \<open>Login\<close>

record login_labels =
  hostLoginFailedMsg :: string
  hostLoginNoResponseMsg :: string
  hostLoginTlsErrorMsg :: string

definition hostLoginErrorMessage :: "login_labels \<Rightarrow> api_error \<Rightarrow> string" where
  "hostLoginErrorMessage CM e =
     (let type = str_or (ae_dataType e) (str_or (ae_type e) [])
      in if type = ''/errors/cms/no_response'' then hostLoginNoResponseMsg CM
         else if type = ''/errors/cms/tls_error'' then hostLoginTlsErrorMsg CM
         else errMessageOrError (hostLoginFailedMsg CM) e)"

text \<open>The body of a login response: \<open>false\<close>, or an object that may say \<open>data: false\<close> or
  \<open>success: false\<close> beside the HA data.\<close>

datatype login_response = LoginFalse | LoginObject bool bool ha_info

definition loginToHost ::
  "login_labels \<Rightarrow> api_error + login_response \<Rightarrow> (ha_info, string) phase" where
  "loginToHost CM r =
     (case r of
        Inl e \<Rightarrow> Rejected (hostLoginErrorMessage CM e)
      | Inr LoginFalse \<Rightarrow> Rejected (hostLoginFailedMsg CM)
      | Inr (LoginObject dataFalse successFalse info) \<Rightarrow>
          if dataFalse \<or> successFalse then Rejected (hostLoginFailedMsg CM) else Fulfilled info)"

definition refreshHaInfo :: "string \<Rightarrow> api_error + ha_info \<Rightarrow> (ha_info, string) phase" where
  "refreshHaInfo hostUid = settle (errMessage (''Failed to refresh HA info for '' @ hostUid)) id"

definition fetchHostEnv :: "string \<Rightarrow> api_error + js \<Rightarrow> (js, string) phase" where
  "fetchHostEnv hostUid = settle (errMessage (''Failed to fetch environment for '' @ hostUid)) id"

text \<open>\<open>userlist.flatMap(item => item.user || item)\<close>: an array is spliced in, one level.\<close>

definition flatten_users :: "js list \<Rightarrow> js list" where
  "flatten_users items =
     concat (map (\<lambda>item. case js_or (js_get item ''user'') item of Arr vs \<Rightarrow> vs | v \<Rightarrow> [v]) items)"

definition fetchCmsUsers :: "api_error + js list \<Rightarrow> (js list, string) phase" where
  "fetchCmsUsers = settle (errMessage ''Failed to fetch CMS users'') flatten_users"

definition addCmsUser :: "string \<Rightarrow> api_error + js list \<Rightarrow> (string \<times> js list, string) phase" where
  "addCmsUser hostUid = settle (errMessage ''Failed to add CMS user'') (\<lambda>r. (hostUid, flatten_users r))"

definition updateCmsUser :: "string \<Rightarrow> api_error + js list \<Rightarrow> (string \<times> js list, string) phase" where
  "updateCmsUser hostUid = settle (errMessage ''Failed to update CMS user'') (\<lambda>r. (hostUid, flatten_users r))"

definition deleteCmsUser :: "string \<Rightarrow> api_error + js list \<Rightarrow> (string \<times> js list, string) phase" where
  "deleteCmsUser hostUid = settle (errMessage ''Failed to delete CMS user'') (\<lambda>r. (hostUid, flatten_users r))"

section \<open>Reloading the host list\<close>

text \<open>Outcomes of the HA and environment calls, per host.\<close>

definition dispatch_refresh :: "bool \<Rightarrow> (string \<Rightarrow> api_error + ha_info) \<Rightarrow> string \<Rightarrow> host_state \<Rightarrow> host_state" where
  "dispatch_refresh blocked ha u s =
     (case refreshHaInfo u (ha u) of Fulfilled info \<Rightarrow> host_reduce blocked (RefreshHaInfo u info) s | _ \<Rightarrow> s)"

definition dispatch_env :: "bool \<Rightarrow> (string \<Rightarrow> api_error + js) \<Rightarrow> string \<Rightarrow> host_state \<Rightarrow> host_state" where
  "dispatch_env blocked env u s = host_reduce blocked (FetchHostEnv u (fetchHostEnv u (env u))) s"

definition dispatch_fetchHosts :: "bool \<Rightarrow> int \<Rightarrow> api_error + host_groups option \<Rightarrow> host_state \<Rightarrow> host_state" where
  "dispatch_fetchHosts blocked now r s =
     host_reduce blocked (FetchHosts (fetchHosts now r)) (host_reduce blocked (FetchHosts Pending) s)"

definition loadHosts ::
  "bool \<Rightarrow> int \<Rightarrow> api_error + host_groups option \<Rightarrow> (string \<Rightarrow> api_error + ha_info)
    \<Rightarrow> host_state \<Rightarrow> host_state" where
  "loadHosts blocked now r ha s =
     (let s1 = dispatch_fetchHosts blocked now r s;
          restored = filter (\<lambda>u. u \<notin> set (hs_authorizedHosts s)) (hs_authorizedHosts s1)
      in fold (dispatch_refresh blocked ha) restored s1)"

definition refreshServerList ::
  "bool \<Rightarrow> int \<Rightarrow> api_error + host_groups option \<Rightarrow> (string \<Rightarrow> api_error + ha_info)
    \<Rightarrow> (string \<Rightarrow> api_error + js) \<Rightarrow> host_state \<Rightarrow> host_state" where
  "refreshServerList blocked now r ha env s =
     (let s1 = dispatch_fetchHosts blocked now r s;
          authorizedHosts = hs_authorizedHosts s1
      in fold (dispatch_env blocked env) authorizedHosts
           (fold (dispatch_refresh blocked ha) authorizedHosts s1))"

section \<open>Merging HA peers\<close>

text \<open>
  \<open>api\<close> is the server's move endpoint on a server state. The loop stops at the first failure,
  which becomes the thunk's own.
\<close>

fun mergeHaPeers_loop ::
  "('srv \<Rightarrow> string \<Rightarrow> string \<Rightarrow> (api_error + host_groups option) \<times> 'srv) \<Rightarrow> bool \<Rightarrow> string
    \<Rightarrow> string list \<Rightarrow> host_state \<Rightarrow> 'srv \<Rightarrow> (string + unit) \<times> host_state \<times> 'srv" where
  "mergeHaPeers_loop api blocked target [] s srv = (Inr (), s, srv)"
| "mergeHaPeers_loop api blocked target (u # us) s srv =
     (case api srv u target of (r, srv') \<Rightarrow>
        (let s' = host_reduce blocked (MoveHost (moveHost r)) (host_reduce blocked (MoveHost Pending) s)
         in case moveHost r of
              Rejected e \<Rightarrow> (Inl e, s', srv')
            | _ \<Rightarrow> mergeHaPeers_loop api blocked target us s' srv'))"

definition mergeHaPeers ::
  "('srv \<Rightarrow> string \<Rightarrow> string \<Rightarrow> (api_error + host_groups option) \<times> 'srv) \<Rightarrow> bool \<Rightarrow> merge_plan
    \<Rightarrow> host_state \<Rightarrow> 'srv \<Rightarrow> (string + unit) \<times> host_state \<times> 'srv" where
  "mergeHaPeers api blocked plan s srv =
     (case mergeHaPeers_loop api blocked (mpl_targetGroupId plan) (map hp_hostUid (mpl_peers plan))
             (host_reduce blocked (MergeHaPeers Pending) s) srv of
        (Inl e, s', srv') \<Rightarrow> (Inl e, host_reduce blocked (MergeHaPeers (Rejected e)) s', srv')
      | (Inr _, s', srv') \<Rightarrow> (Inr (), host_reduce blocked (MergeHaPeers (Fulfilled ())) s', srv'))"

section \<open>HA side effects of a login\<close>

text \<open>Session storage: the hosts whose cluster-link notice was shown in this tab, and whether
  the browser refuses access (each access is in its own \<open>try\<close>).\<close>

record session_storage =
  ss_blocked :: bool
  ss_linked :: "string list"

definition clearHaClusterLinkSessionNotices :: "string list \<Rightarrow> session_storage \<Rightarrow> session_storage" where
  "clearHaClusterLinkSessionNotices hostUids ss =
     (if ss_blocked ss then ss else ss\<lparr>ss_linked := filter (\<lambda>u. u \<notin> set hostUids) (ss_linked ss)\<rparr>)"

definition isHaPostLoginModalOpen :: "host_state \<Rightarrow> bool" where
  "isHaPostLoginModalOpen s \<longleftrightarrow>
     hs_isDiscoveryModalOpen s \<or> hs_isHaMergeModalOpen s \<or> hs_isHaClusterLinkModalOpen s"

datatype follow_up =
    Discovery "ha_node list" "string option" string
  | Merge merge_plan
  | ClusterLink cluster_link_notice

fun follow_action :: "follow_up \<Rightarrow> host_ha_action" where
  "follow_action (Discovery nodes groupId anchor) =
     SetSuggestedHaNodes (SuggestedObject nodes groupId (Some anchor))"
| "follow_action (Merge plan) = SetPendingHaMerge (Some plan)"
| "follow_action (ClusterLink notice) = SetHaClusterLinkNotice (Some notice)"

text \<open>\<open>show\<close>: keep the action for later in collect mode, else dispatch it.\<close>

definition show_modal :: "bool \<Rightarrow> follow_up \<Rightarrow> host_state \<times> follow_up option \<Rightarrow> host_state \<times> follow_up option" where
  "show_modal collect fu st =
     (if collect then (fst st, Some fu) else (reduce_host_ha (follow_action fu) (fst st), snd st))"

definition isHaResponse :: "ha_info \<Rightarrow> bool" where
  "isHaResponse info \<longleftrightarrow> hai_isHA info = Bool True \<or> lower (js_string (hai_isHA info)) = ''true''"

text \<open>The three stages after the wait; the flag says whether a modal was shown.\<close>

definition discovery_stage ::
  "bool \<Rightarrow> string \<Rightarrow> ha_info \<Rightarrow> host_info list \<Rightarrow> bool \<Rightarrow> host_groups \<Rightarrow> host_state
    \<Rightarrow> (host_state \<times> follow_up option) \<times> bool" where
  "discovery_stage collect hostUid response hosts awaiting hostGroups s =
     (let undiscovered = findUndiscoveredHaPeers hosts (hai_haNodes response)
      in if undiscovered = [] then ((s, None), False)
         else
           (let stale = hs_isDiscoveryModalOpen s \<and>
                        findUndiscoveredHaPeers hosts (hs_suggestedHaNodes s) = [];
                s' = (if stale then reduce_host_ha ClearSuggestedHaNodes s else s)
            in if awaiting \<and> \<not> hs_isDiscoveryModalOpen s' then
                 (show_modal collect
                    (Discovery undiscovered (findGroupIdForHost hostGroups (Some hostUid)) hostUid)
                    (s', None), True)
               else ((s', None), False)))"

definition merge_stage ::
  "bool \<Rightarrow> string \<Rightarrow> ha_info \<Rightarrow> host_groups \<Rightarrow> (host_state \<times> follow_up option) \<times> bool
    \<Rightarrow> (host_state \<times> follow_up option) \<times> bool" where
  "merge_stage collect hostUid response hostGroups st =
     (if \<not> snd st \<and> \<not> hs_isHaMergeModalOpen (fst (fst st)) then
        (case findHaPeersNeedingMerge hostGroups (hai_haNodes response) hostUid of
           None \<Rightarrow> st
         | Some plan \<Rightarrow> (show_modal collect (Merge plan) (fst st), True))
      else st)"

definition link_stage ::
  "bool \<Rightarrow> string \<Rightarrow> ha_info \<Rightarrow> host_groups \<Rightarrow> (host_state \<times> follow_up option) \<times> bool
    \<Rightarrow> session_storage \<Rightarrow> (host_state \<times> follow_up option) \<times> session_storage" where
  "link_stage collect hostUid response hostGroups st ss =
     (if \<not> snd st \<and> \<not> hs_isHaClusterLinkModalOpen (fst (fst st)) then
        (let peers = findRegisteredHaPeersInSameGroup hostGroups (hai_haNodes response) hostUid;
             alreadyNoticed = (\<not> ss_blocked ss \<and> hostUid \<in> set (ss_linked ss));
             target = findGroupIdForHost hostGroups (Some hostUid)
         in if peers \<noteq> [] \<and> \<not> alreadyNoticed then
              (show_modal collect (ClusterLink
                 \<lparr>cl_anchorHostUid = hostUid, cl_targetGroupId = target,
                  cl_targetGroupName =
                    (case target of None \<Rightarrow> ''Group'' | Some g \<Rightarrow> groupNameOr hostGroups g),
                  cl_peers = peers\<rparr>) (fst st),
               if ss_blocked ss then ss else ss\<lparr>ss_linked := push_new hostUid (ss_linked ss)\<rparr>)
            else (fst st, ss))
      else (fst st, ss))"

text \<open>
  \<open>processHaLoginSideEffects\<close>. The host list, the awaiting flag and the HA data are those of the
  state at the start; the groups and the open dialogs are read again after the wait. \<open>mark\<close> is
  the outcome of \<open>markGroupHa\<close>.
\<close>

definition processHaLoginSideEffects ::
  "bool \<Rightarrow> bool \<Rightarrow> string \<Rightarrow> api_error + host_groups option \<Rightarrow> (host_state \<Rightarrow> host_state)
    \<Rightarrow> host_state \<Rightarrow> session_storage \<Rightarrow> (host_state \<times> follow_up option) \<times> session_storage" where
  "processHaLoginSideEffects blocked collect hostUid mark env s ss =
     (case map_of (hs_haInfo s) hostUid of
        None \<Rightarrow> ((s, None), ss)
      | Some response \<Rightarrow>
        (let hosts = hs_hosts s;
             awaiting = (hostUid \<in> set (hs_hostsAwaitingHaLogin s));
             s1 = (if isHaResponse response then
                     (case markGroupHa mark of
                        Fulfilled gs \<Rightarrow> host_reduce blocked (MarkGroupHa gs) (env s)
                      | _ \<Rightarrow> env s)
                   else s);
             (st, ss') =
               (if isHaResponse response \<and> hai_haNodes response \<noteq> [] then
                  link_stage collect hostUid response (hs_hostGroups s1)
                    (merge_stage collect hostUid response (hs_hostGroups s1)
                      (discovery_stage collect hostUid response hosts awaiting (hs_hostGroups s1) s1)) ss
                else ((s1, None), ss))
         in ((if awaiting then reduce_host_ha (RemoveHostAwaitingHaLogin hostUid) (fst st) else fst st,
              snd st), ss')))"

text \<open>\<open>haFollowUpAction\<close>: a deferred modal, re-based on the current tree.\<close>

definition rebase_group :: "host_groups \<Rightarrow> string \<Rightarrow> string option \<Rightarrow> string option" where
  "rebase_group gs anchor old = (case findGroupIdForHost gs (Some anchor) of Some g \<Rightarrow> Some g | None \<Rightarrow> old)"

fun haFollowUpAction :: "follow_up option \<Rightarrow> host_state option \<Rightarrow> host_ha_action option" where
  "haFollowUpAction None hostState = None"
| "haFollowUpAction (Some fu) None = Some (follow_action fu)"
| "haFollowUpAction (Some (Merge plan)) (Some s) =
     (if mpl_anchorHostUid plan = [] then Some (follow_action (Merge plan))
      else map_option (\<lambda>p. SetPendingHaMerge (Some p))
        (findHaPeersNeedingMerge (hs_hostGroups s)
          (case map_of (hs_haInfo s) (mpl_anchorHostUid plan) of None \<Rightarrow> [] | Some i \<Rightarrow> hai_haNodes i)
          (mpl_anchorHostUid plan)))"
| "haFollowUpAction (Some (Discovery nodes groupId anchor)) (Some s) =
     (if anchor = [] then Some (follow_action (Discovery nodes groupId anchor))
      else Some (follow_action (Discovery nodes (rebase_group (hs_hostGroups s) anchor groupId) anchor)))"
| "haFollowUpAction (Some (ClusterLink n)) (Some s) =
     (if cl_anchorHostUid n = [] then Some (follow_action (ClusterLink n))
      else let gid = rebase_group (hs_hostGroups s) (cl_anchorHostUid n) None
           in Some (follow_action (ClusterLink
                (n\<lparr>cl_targetGroupId := gid,
                   cl_targetGroupName := str_or (map_option hg_name
                     (case gid of None \<Rightarrow> None | Some g \<Rightarrow> map_of (hs_hostGroups s) g))
                     (cl_targetGroupName n)\<rparr>))))"

end
