(* ===== verification/HostBatch.thy ===== *)
theory HostBatch
  imports HostThunks
begin

text \<open>
  Logging in to hosts: one login with its HA side effects (\<open>loginToHostWithSideEffects\<close>), the
  sequential batch behind "Login All" (\<open>loginHostsBatch\<close>), and the one result dialog a batch
  shows (\<open>hostLoginReport.js\<close>). The server's login endpoint is \<open>api\<close>, on a server state; \<open>mark\<close>
  and \<open>env\<close> are those of \<open>processHaLoginSideEffects\<close>, per host.
\<close>

section \<open>One login\<close>

text \<open>\<open>dispatch(loginToHost(uid)).unwrap()\<close>: pending, the call, then fulfilled or rejected. When
  the reducer of the fulfilled action raises, nothing is stored and the promise rejects with that
  error, whose message is the argument of \<open>Thrown\<close>.\<close>

definition dispatch_login ::
  "login_labels \<Rightarrow> ('srv \<Rightarrow> string \<Rightarrow> (api_error + login_response) \<times> 'srv) \<Rightarrow> bool \<Rightarrow> string
    \<Rightarrow> host_state \<Rightarrow> 'srv \<Rightarrow> (string + unit) \<times> host_state \<times> 'srv" where
  "dispatch_login CM api blocked u s srv =
     (let s1 = host_reduce blocked (LoginToHost u Pending) s
      in case api srv u of
           (r, srv') \<Rightarrow>
             (case loginToHost CM r of
                Rejected e \<Rightarrow> (Inl e, host_reduce blocked (LoginToHost u (Rejected e)) s1, srv')
              | Pending \<Rightarrow> (Inr (), s1, srv')
              | Fulfilled info \<Rightarrow>
                  (case host_step blocked (LoginToHost u (Fulfilled info)) s1 of
                     Inr s2 \<Rightarrow> (Inr (), s2, srv')
                   | Inl (Thrown m) \<Rightarrow> (Inl m, s1, srv')
                   | Inl TypeError \<Rightarrow> (Inl [], s1, srv'))))"

definition loginToHostWithSideEffects ::
  "login_labels \<Rightarrow> ('srv \<Rightarrow> string \<Rightarrow> (api_error + login_response) \<times> 'srv) \<Rightarrow> bool
    \<Rightarrow> api_error + host_groups option \<Rightarrow> (host_state \<Rightarrow> host_state) \<Rightarrow> string
    \<Rightarrow> host_state \<Rightarrow> session_storage \<Rightarrow> 'srv
    \<Rightarrow> (string + string) \<times> host_state \<times> session_storage \<times> 'srv" where
  "loginToHostWithSideEffects CM api blocked mark env hostUid s ss srv =
     (case dispatch_login CM api blocked hostUid s srv of
        (Inl e, s1, srv') \<Rightarrow> (Inl e, s1, ss, srv')
      | (Inr _, s1, srv') \<Rightarrow>
          (case processHaLoginSideEffects blocked False hostUid mark env s1 ss of
             ((s2, _), ss') \<Rightarrow> (Inr hostUid, s2, ss', srv')))"

section \<open>The batch\<close>

datatype login_status = StPending | Connected | Failed | Skipped

record login_result =
  br_uid :: string
  br_name :: string
  br_status :: login_status
  br_reason :: "string option"
  br_followUp :: "follow_up option"

record login_batch =
  bt_successCount :: nat
  bt_failed :: "(string \<times> string) list"
  bt_attempted :: nat
  bt_results :: "login_result list"

text \<open>\<open>nameOf\<close>, and \<open>byUid.get(uid)\<close>: the map holds the last entry of a uid.\<close>

definition hostNameOf :: "host_state \<Rightarrow> string \<Rightarrow> string" where
  "hostNameOf s u =
     (case find (\<lambda>h. hi_uid h = u) (hs_hosts s) of
        None \<Rightarrow> u
      | Some h \<Rightarrow> if aliasOrId h \<noteq> [] then aliasOrId h else u)"

fun update_first :: "string \<Rightarrow> (login_result \<Rightarrow> login_result) \<Rightarrow> login_result list \<Rightarrow> login_result list" where
  "update_first u f [] = []"
| "update_first u f (r # rs) = (if br_uid r = u then f r # rs else r # update_first u f rs)"

definition update_result :: "string \<Rightarrow> (login_result \<Rightarrow> login_result) \<Rightarrow> login_result list \<Rightarrow> login_result list" where
  "update_result u f rs = rev (update_first u f (rev rs))"

fun login_loop ::
  "login_labels \<Rightarrow> ('srv \<Rightarrow> string \<Rightarrow> (api_error + login_response) \<times> 'srv) \<Rightarrow> bool \<Rightarrow> string list
    \<Rightarrow> login_batch \<Rightarrow> host_state \<Rightarrow> 'srv \<Rightarrow> login_batch \<times> host_state \<times> 'srv" where
  "login_loop CM api blocked [] b s srv = (b, s, srv)"
| "login_loop CM api blocked (u # us) b s srv =
     (case dispatch_login CM api blocked u s srv of
        (Inr _, s', srv') \<Rightarrow>
          login_loop CM api blocked us
            (b\<lparr>bt_results := update_result u (\<lambda>r. r\<lparr>br_status := Connected\<rparr>) (bt_results b),
               bt_successCount := bt_successCount b + 1\<rparr>) s' srv'
      | (Inl reason, s', srv') \<Rightarrow>
          login_loop CM api blocked us
            (b\<lparr>bt_results := update_result u (\<lambda>r. r\<lparr>br_status := Failed, br_reason := Some reason\<rparr>)
                 (bt_results b),
               bt_failed := bt_failed b @ [(hostNameOf s' u, reason)]\<rparr>) s' srv')"

fun effects_loop ::
  "bool \<Rightarrow> (string \<Rightarrow> api_error + host_groups option) \<Rightarrow> (string \<Rightarrow> host_state \<Rightarrow> host_state)
    \<Rightarrow> login_result list \<Rightarrow> host_state \<Rightarrow> session_storage
    \<Rightarrow> login_result list \<times> host_state \<times> session_storage" where
  "effects_loop blocked mark env [] s ss = ([], s, ss)"
| "effects_loop blocked mark env (r # rs) s ss =
     (if br_status r \<noteq> Connected then
        (case effects_loop blocked mark env rs s ss of (rs', s', ss') \<Rightarrow> (r # rs', s', ss'))
      else
        (case processHaLoginSideEffects blocked True (br_uid r) (mark (br_uid r)) (env (br_uid r)) s ss of
           ((s1, fu), ss1) \<Rightarrow>
             (case effects_loop blocked mark env rs s1 ss1 of
                (rs', s', ss') \<Rightarrow>
                  ((case fu of None \<Rightarrow> r | Some _ \<Rightarrow> r\<lparr>br_followUp := fu\<rparr>) # rs', s', ss'))))"

definition loginHostsBatch ::
  "login_labels \<Rightarrow> ('srv \<Rightarrow> string \<Rightarrow> (api_error + login_response) \<times> 'srv) \<Rightarrow> bool
    \<Rightarrow> (string \<Rightarrow> api_error + host_groups option) \<Rightarrow> (string \<Rightarrow> host_state \<Rightarrow> host_state)
    \<Rightarrow> string list \<Rightarrow> host_state \<Rightarrow> session_storage \<Rightarrow> 'srv
    \<Rightarrow> login_batch \<times> host_state \<times> session_storage \<times> 'srv" where
  "loginHostsBatch CM api blocked mark env hostUids s ss srv =
     (let s0 = host_reduce blocked (LoginHostsBatch Pending) s;
          requested = filter (\<lambda>u. u \<noteq> []) hostUids;
          alreadyAuthorized = set (hs_authorizedHosts s0);
          pending = filter (\<lambda>u. u \<notin> alreadyAuthorized) requested;
          results = map (\<lambda>u. \<lparr>br_uid = u, br_name = hostNameOf s0 u,
                        br_status = (if u \<in> alreadyAuthorized then Skipped else StPending),
                        br_reason = None, br_followUp = None\<rparr>) requested
      in case login_loop CM api blocked pending
                \<lparr>bt_successCount = 0, bt_failed = [], bt_attempted = length pending,
                 bt_results = results\<rparr> s0 srv of
           (b, s1, srv') \<Rightarrow>
             (case effects_loop blocked mark env (bt_results b) s1 ss of
                (rs, s2, ss') \<Rightarrow>
                  (b\<lparr>bt_results := rs\<rparr>, host_reduce blocked (LoginHostsBatch (Fulfilled ())) s2, ss', srv')))"

section \<open>The result dialog\<close>

text \<open>The labels the report uses; the counted messages are functions of the count.\<close>

record report_labels =
  connectedHostsMsg :: "nat \<Rightarrow> string"
  hostsFailedToLoginMsg :: "nat \<Rightarrow> string"
  haFollowUpsPendingMsg :: "nat \<Rightarrow> string"
  passwordSavedCountMsg :: "nat \<Rightarrow> string"
  passwordNotSavedMsg :: "string \<Rightarrow> string"
  loginAllLabel :: string
  resultLabel :: "login_status \<Rightarrow> string"

datatype report_type = RSuccess | RError | RInfo

record report_row =
  rw_uid :: string
  rw_name :: string
  rw_result :: string
  rw_reasons :: "string list"
  rw_followUp :: "follow_up option"

record login_report =
  rp_type :: report_type
  rp_title :: string
  rp_message :: string
  rp_table :: "(bool \<times> report_row list) option"

definition hostLoginResultStatusModal ::
  "report_labels \<Rightarrow> string \<Rightarrow> login_batch \<Rightarrow> string list \<Rightarrow> login_report option" where
  "hostLoginResultStatusModal CM title batch leadMessages =
     (let results = bt_results batch;
          successCount = bt_successCount batch;
          failedCount = length (filter (\<lambda>r. br_status r = Failed) results);
          followUpCount = length (filter (\<lambda>r. br_followUp r \<noteq> None) results);
          attempted = list_ex (\<lambda>r. br_status r \<noteq> Skipped) results;
          message = join '' '' (filter (\<lambda>m. m \<noteq> [])
            (leadMessages @
             [if attempted then connectedHostsMsg CM successCount else [],
              if failedCount > 0 then hostsFailedToLoginMsg CM failedCount else [],
              if followUpCount > 0 then haFollowUpsPendingMsg CM followUpCount else []]));
          needsTable = list_ex (\<lambda>r. br_status r = Failed \<or> br_followUp r \<noteq> None) results;
          type = (if failedCount > 0 \<and> successCount = 0 then RError
                  else if failedCount > 0 \<or> followUpCount > 0 then RInfo else RSuccess)
      in if message = [] then None
         else Some \<lparr>rp_type = type, rp_title = title, rp_message = message,
           rp_table = (if needsTable then Some (failedCount > 0,
             map (\<lambda>r. \<lparr>rw_uid = br_uid r, rw_name = br_name r, rw_result = resultLabel CM (br_status r),
                       rw_reasons = (case br_reason r of None \<Rightarrow> [] | Some x \<Rightarrow> if x = [] then [] else [x]),
                       rw_followUp = br_followUp r\<rparr>) results) else None)\<rparr>)"

definition importLoginAllStatusModal ::
  "report_labels \<Rightarrow> nat \<Rightarrow> string list \<Rightarrow> login_batch \<Rightarrow> login_report option" where
  "importLoginAllStatusModal CM savedCount passwordSaveFailed batch =
     (let leadMessages =
            (if savedCount > 0 then [passwordSavedCountMsg CM savedCount] else []) @
            (if length passwordSaveFailed > 0
             then [passwordNotSavedMsg CM (join '', '' passwordSaveFailed)] else []);
          loginFailedOnly = length (bt_failed batch) > 0 \<and> bt_successCount batch = 0
      in map_option (\<lambda>report.
           if savedCount = 0 \<or> length passwordSaveFailed > 0 \<or> loginFailedOnly
           then report\<lparr>rp_type := RError\<rparr> else report)
         (hostLoginResultStatusModal CM (loginAllLabel CM) batch leadMessages))"

section \<open>Facts about the loops\<close>

lemma length_filter_update_first:
  assumes "\<And>r. P (f r)" "\<And>r. r \<in> set rs \<Longrightarrow> br_uid r = u \<Longrightarrow> \<not> P r" "u \<in> br_uid ` set rs"
  shows "length (filter P (update_first u f rs)) = Suc (length (filter P rs))"
  using assms(2,3) by (induction rs) (auto simp: assms(1))

lemma length_filter_update_first_other:
  assumes "\<And>r. \<not> P (f r)" "\<And>r. r \<in> set rs \<Longrightarrow> br_uid r = u \<Longrightarrow> \<not> P r"
  shows "length (filter P (update_first u f rs)) = length (filter P rs)"
  using assms(2) by (induction rs) (auto simp: assms(1))

lemma update_first_map:
  "distinct (map br_uid rs) \<Longrightarrow> update_first u f rs = map (\<lambda>r. if br_uid r = u then f r else r) rs"
proof (induction rs)
  case (Cons r rs)
  then show ?case
    by (auto intro!: map_idI[symmetric] simp: rev_image_eqI)
qed simp

lemma update_result_map:
  "distinct (map br_uid rs) \<Longrightarrow> update_result u f rs = map (\<lambda>r. if br_uid r = u then f r else r) rs"
  by (simp add: update_result_def update_first_map rev_map [symmetric])

lemma update_result_count:
  "(\<And>r. P (f r)) \<Longrightarrow> (\<And>r. r \<in> set rs \<Longrightarrow> br_uid r = u \<Longrightarrow> \<not> P r) \<Longrightarrow> u \<in> br_uid ` set rs \<Longrightarrow>
     length (filter P (update_result u f rs)) = Suc (length (filter P rs))"
  using length_filter_update_first [of P f "rev rs" u]
  by (simp add: update_result_def rev_filter [symmetric])

lemma update_result_count_other:
  "(\<And>r. \<not> P (f r)) \<Longrightarrow> (\<And>r. r \<in> set rs \<Longrightarrow> br_uid r = u \<Longrightarrow> \<not> P r) \<Longrightarrow>
     length (filter P (update_result u f rs)) = length (filter P rs)"
  using length_filter_update_first_other [of P f "rev rs" u]
  by (simp add: update_result_def rev_filter [symmetric])

text \<open>What the login loop keeps: the counters count the entries, and the hosts still to do are
  the pending entries.\<close>

definition batch_counts :: "login_batch \<Rightarrow> bool" where
  "batch_counts b \<longleftrightarrow>
     bt_successCount b = length (filter (\<lambda>r. br_status r = Connected) (bt_results b)) \<and>
     length (bt_failed b) = length (filter (\<lambda>r. br_status r = Failed) (bt_results b))"

definition batch_todo :: "string list \<Rightarrow> login_batch \<Rightarrow> bool" where
  "batch_todo us b \<longleftrightarrow> distinct us \<and> distinct (map br_uid (bt_results b)) \<and>
     set us \<subseteq> br_uid ` set (bt_results b) \<and>
     (\<forall>r \<in> set (bt_results b). br_uid r \<in> set us \<longleftrightarrow> br_status r = StPending)"

definition batch_succeed :: "string \<Rightarrow> login_batch \<Rightarrow> login_batch" where
  "batch_succeed u b =
     b\<lparr>bt_results := update_result u (\<lambda>r. r\<lparr>br_status := Connected\<rparr>) (bt_results b),
       bt_successCount := bt_successCount b + 1\<rparr>"

definition batch_fail :: "string \<Rightarrow> string \<Rightarrow> string \<Rightarrow> login_batch \<Rightarrow> login_batch" where
  "batch_fail u name reason b =
     b\<lparr>bt_results := update_result u (\<lambda>r. r\<lparr>br_status := Failed, br_reason := Some reason\<rparr>)
         (bt_results b),
       bt_failed := bt_failed b @ [(name, reason)]\<rparr>"

definition batch_same :: "login_batch \<Rightarrow> login_batch \<Rightarrow> bool" where
  "batch_same b b' \<longleftrightarrow> map br_uid (bt_results b') = map br_uid (bt_results b) \<and>
     bt_attempted b' = bt_attempted b \<and>
     (\<forall>r' \<in> set (bt_results b'). \<exists>r \<in> set (bt_results b).
        br_uid r' = br_uid r \<and> (br_status r' = Skipped \<longleftrightarrow> br_status r = Skipped))"

lemma batch_same_trans: "batch_same a b \<Longrightarrow> batch_same b c \<Longrightarrow> batch_same a c"
  unfolding batch_same_def by (metis (no_types, lifting))

lemma batch_step:
  assumes "batch_todo (u # us) b" "batch_counts b"
    and "b' = batch_succeed u b \<or> b' = batch_fail u name reason b"
  shows "batch_todo us b' \<and> batch_counts b' \<and> batch_same b b'"
proof -
  have d: "distinct (map br_uid (bt_results b))" and u: "u \<in> br_uid ` set (bt_results b)"
    and pend: "\<And>r. r \<in> set (bt_results b) \<Longrightarrow> br_uid r = u \<Longrightarrow> br_status r = StPending"
    using assms(1) by (auto simp: batch_todo_def)
  note upd = update_result_map [OF d]
  have uids: "map br_uid (bt_results b') = map br_uid (bt_results b)"
    using assms(3) by (auto simp: batch_succeed_def batch_fail_def upd)
  have mem: "\<exists>r \<in> set (bt_results b). br_uid r' = br_uid r \<and>
      (if br_uid r = u then br_status r' \<in> {Connected, Failed} else r' = r)"
    if r': "r' \<in> set (bt_results b')" for r'
  proof -
    obtain f where f: "bt_results b' = map (\<lambda>r. if br_uid r = u then f r else r) (bt_results b)"
      and fr: "\<And>r. br_uid (f r) = br_uid r" "\<And>r. br_status (f r) \<in> {Connected, Failed}"
    proof (cases "b' = batch_succeed u b")
      case True
      then show ?thesis by (intro that [of "\<lambda>r. r\<lparr>br_status := Connected\<rparr>"])
          (simp_all add: batch_succeed_def upd)
    next
      case False
      with assms(3) have "b' = batch_fail u name reason b" by simp
      then show ?thesis
        by (intro that [of "\<lambda>r. r\<lparr>br_status := Failed, br_reason := Some reason\<rparr>"])
          (simp_all add: batch_fail_def upd)
    qed
    from r' obtain r where "r \<in> set (bt_results b)" "r' = (if br_uid r = u then f r else r)"
      unfolding f by auto
    with fr show ?thesis by (intro bexI [of _ r]) auto
  qed
  have counts: "batch_counts b'"
    using assms(2,3) pend u
    by (auto simp: batch_counts_def batch_succeed_def batch_fail_def update_result_count
        update_result_count_other)
  have todo: "batch_todo us b'"
  proof -
    have "set us \<subseteq> set (map br_uid (bt_results b'))" unfolding uids
      using assms(1) by (auto simp: batch_todo_def)
    then have "set us \<subseteq> br_uid ` set (bt_results b')" by simp
    moreover have "br_uid r' \<in> set us \<longleftrightarrow> br_status r' = StPending"
      if "r' \<in> set (bt_results b')" for r'
    proof -
      obtain r where "r \<in> set (bt_results b)" "br_uid r' = br_uid r"
        "if br_uid r = u then br_status r' \<in> {Connected, Failed} else r' = r"
        using mem [OF \<open>r' \<in> set (bt_results b')\<close>] by blast
      with assms(1) show ?thesis by (auto simp: batch_todo_def split: if_splits)
    qed
    ultimately show ?thesis using assms(1) d by (simp add: batch_todo_def uids)
  qed
  have "batch_same b b'"
  proof -
    have "bt_attempted b' = bt_attempted b"
      using assms(3) by (auto simp: batch_succeed_def batch_fail_def)
    moreover have "\<exists>r \<in> set (bt_results b). br_uid r' = br_uid r \<and>
        (br_status r' = Skipped \<longleftrightarrow> br_status r = Skipped)" if "r' \<in> set (bt_results b')" for r'
      using mem [OF that] pend by (fastforce split: if_splits)
    ultimately show ?thesis by (simp add: batch_same_def uids)
  qed
  with counts todo show ?thesis by blast
qed

lemma login_loop_batch:
  assumes "batch_todo us b" "batch_counts b" "login_loop CM api blocked us b s srv = (b', s', srv')"
  shows "batch_todo [] b' \<and> batch_counts b' \<and> batch_same b b'"
  using assms
proof (induction us arbitrary: b s srv)
  case Nil
  then show ?case by (auto simp: batch_same_def)
next
  case (Cons u us)
  obtain res s1 srv1 where res: "dispatch_login CM api blocked u s srv = (res, s1, srv1)"
    by (cases "dispatch_login CM api blocked u s srv") auto
  obtain b1 where b1: "\<exists>name reason. b1 = batch_succeed u b \<or> b1 = batch_fail u name reason b"
    and run: "login_loop CM api blocked us b1 s1 srv1 = (b', s', srv')"
    using Cons.prems(3) res
    by (cases res) (auto simp: batch_succeed_def batch_fail_def)
  then obtain name reason where "b1 = batch_succeed u b \<or> b1 = batch_fail u name reason b" by blast
  from batch_step [OF Cons.prems(1,2) this]
  have st: "batch_todo us b1" "batch_counts b1" "batch_same b b1" by simp_all
  from Cons.IH [OF st(1,2) run] st(3) show ?case
    using batch_same_trans by blast
qed

lemma effects_loop_results:
  assumes "effects_loop blocked mark env rs s ss = (rs', s', ss')"
  shows "map (\<lambda>r. (br_uid r, br_status r)) rs' = map (\<lambda>r. (br_uid r, br_status r)) rs"
  using assms
  by (induction rs arbitrary: rs' s ss) (auto split: if_splits prod.splits option.splits)

section \<open>What a batch reports\<close>

lemma batch_todo_start:
  assumes "distinct us"
  shows "batch_todo (filter (\<lambda>u. u \<notin> A) us)
    \<lparr>bt_successCount = 0, bt_failed = [], bt_attempted = n,
     bt_results = map (\<lambda>u. \<lparr>br_uid = u, br_name = f u,
       br_status = (if u \<in> A then Skipped else StPending), br_reason = None, br_followUp = None\<rparr>) us\<rparr>"
  using assms by (auto simp: batch_todo_def comp_def image_iff)

lemma batch_counts_start:
  "batch_counts \<lparr>bt_successCount = 0, bt_failed = [], bt_attempted = n,
     bt_results = map (\<lambda>u. \<lparr>br_uid = u, br_name = f u,
       br_status = (if u \<in> A then Skipped else StPending), br_reason = None, br_followUp = None\<rparr>) us\<rparr>"
  by (auto simp: batch_counts_def filter_empty_conv)

lemma status_counts:
  assumes "\<forall>r \<in> set rs. br_status r \<noteq> StPending"
  shows "length (filter (\<lambda>r. br_status r = Connected) rs) + length (filter (\<lambda>r. br_status r = Failed) rs)
    = length (filter (\<lambda>r. br_status r \<noteq> Skipped) rs)"
proof -
  have "br_status r = Connected \<or> br_status r = Failed \<or> br_status r = Skipped" if "r \<in> set rs" for r
    using assms that by (cases "br_status r") auto
  then show ?thesis by (induction rs) auto
qed

text \<open>
  C19: a batch login reports on every host exactly once, in the order asked for. When it ends no
  host is left pending; the skipped ones are exactly those already connected when it began; the
  success count and the list of failures count the connected and the failed entries, and together
  they are the hosts attempted, so nothing is lost or counted twice. The batch and login flags
  are down again.
\<close>

theorem batch_accounts_for_every_host:
  assumes "distinct (filter (\<lambda>u. u \<noteq> []) hostUids)"
    and "loginHostsBatch CM api blocked mark env hostUids s ss srv = (b, s', ss', srv')"
  shows "map br_uid (bt_results b) = filter (\<lambda>u. u \<noteq> []) hostUids
    \<and> (\<forall>r \<in> set (bt_results b). br_status r \<noteq> StPending
         \<and> (br_status r = Skipped \<longleftrightarrow> br_uid r \<in> set (hs_authorizedHosts s)))
    \<and> bt_successCount b = length (filter (\<lambda>r. br_status r = Connected) (bt_results b))
    \<and> length (bt_failed b) = length (filter (\<lambda>r. br_status r = Failed) (bt_results b))
    \<and> bt_successCount b + length (bt_failed b) = bt_attempted b
    \<and> \<not> hs_isBatchHostLogin s' \<and> \<not> hs_isLoggingIntoHost s' \<and> \<not> hs_loading s'"
proof -
  define s0 where "s0 = host_reduce blocked (LoginHostsBatch Pending) s"
  define us where "us = filter (\<lambda>u. u \<noteq> []) hostUids"
  define A where "A = set (hs_authorizedHosts s)"
  define b0 where "b0 = \<lparr>bt_successCount = 0, bt_failed = [],
     bt_attempted = length (filter (\<lambda>u. u \<notin> A) us),
     bt_results = map (\<lambda>u. \<lparr>br_uid = u, br_name = hostNameOf s0 u,
       br_status = (if u \<in> A then Skipped else StPending), br_reason = None, br_followUp = None\<rparr>) us\<rparr>"
  have A: "set (hs_authorizedHosts s0) = A" by (simp add: s0_def A_def)
  obtain b1 s1 srv1 where l: "login_loop CM api blocked (filter (\<lambda>u. u \<notin> A) us) b0 s0 srv = (b1, s1, srv1)"
    by (cases "login_loop CM api blocked (filter (\<lambda>u. u \<notin> A) us) b0 s0 srv") auto
  obtain rs s2 ss2 where e: "effects_loop blocked mark env (bt_results b1) s1 ss = (rs, s2, ss2)"
    by (cases "effects_loop blocked mark env (bt_results b1) s1 ss") auto
  have "b = b1\<lparr>bt_results := rs\<rparr>" and s': "s' = host_reduce blocked (LoginHostsBatch (Fulfilled ())) s2"
    using assms(2) l e unfolding loginHostsBatch_def Let_def s0_def [symmetric] A us_def [symmetric]
      b0_def [symmetric] by simp_all
  note b = this(1)
  have "batch_todo [] b1 \<and> batch_counts b1 \<and> batch_same b0 b1"
    using login_loop_batch [OF _ _ l] batch_todo_start [of us A] batch_counts_start assms(1)
    unfolding b0_def us_def by blast
  then have todo: "batch_todo [] b1" and cnt: "batch_counts b1" and same: "batch_same b0 b1" by simp_all
  note m = effects_loop_results [OF e]
  have uids: "map br_uid rs = map br_uid (bt_results b1)"
    and stat: "map br_status rs = map br_status (bt_results b1)"
    using arg_cong [OF m, of "map fst"] arg_cong [OF m, of "map snd"] by (simp_all add: comp_def)
  have lens: "length (filter (\<lambda>r. br_status r = x) rs) = length (filter (\<lambda>r. br_status r = x) (bt_results b1))" for x
    using arg_cong [OF stat, of "\<lambda>xs. length (filter (\<lambda>y. y = x) xs)"]
    by (simp add: filter_map comp_def)
  have u1: "map br_uid (bt_results b1) = us"
    using same by (simp add: batch_same_def b0_def comp_def)
  have each: "br_status r \<noteq> StPending \<and> (br_status r = Skipped \<longleftrightarrow> br_uid r \<in> A)"
    if "r \<in> set (bt_results b1)" for r
    using that todo same by (fastforce simp: batch_todo_def batch_same_def b0_def split: if_splits)
  have each': "br_status r \<noteq> StPending \<and> (br_status r = Skipped \<longleftrightarrow> br_uid r \<in> A)"
    if "r \<in> set rs" for r
  proof -
    have "(br_uid r, br_status r) \<in> set (map (\<lambda>r. (br_uid r, br_status r)) rs)" using that by auto
    then obtain r' where "r' \<in> set (bt_results b1)" "br_uid r' = br_uid r" "br_status r' = br_status r"
      unfolding m by auto
    with each show ?thesis by metis
  qed
  have "length (filter (\<lambda>r. br_status r \<noteq> Skipped) (bt_results b1)) =
      length (filter (\<lambda>u. u \<notin> A) (map br_uid (bt_results b1)))"
    using each by (simp add: filter_map comp_def cong: filter_cong)
  then have att: "length (filter (\<lambda>r. br_status r \<noteq> Skipped) (bt_results b1)) = bt_attempted b1"
    using same by (simp add: u1 batch_same_def b0_def)
  have "bt_successCount b1 + length (bt_failed b1) = bt_attempted b1"
    using status_counts [of "bt_results b1"] each cnt att by (simp add: batch_counts_def)
  with each' cnt uids u1 lens show ?thesis
    by (simp add: b s' us_def A_def batch_counts_def)
qed

definition sample_labels :: login_labels where
  "sample_labels = \<lparr>hostLoginFailedMsg = ''Login failed'', hostLoginNoResponseMsg = ''No response'',
     hostLoginTlsErrorMsg = ''TLS error''\<rparr>"

text \<open>A server that refuses the host \<open>u2\<close> and counts the attempts.\<close>

definition sample_login_api :: "nat \<Rightarrow> string \<Rightarrow> (api_error + login_response) \<times> nat" where
  "sample_login_api n u =
     (if u = ''u2'' then Inl \<lparr>ae_message = Some ''bad password'', ae_error = None, ae_type = None,
                              ae_dataType = None\<rparr>
      else Inr (LoginObject False False
             \<lparr>hai_isHA = Bool False, hai_currentNodeType = None, hai_haNodes = []\<rparr>), Suc n)"

lemma batch_accounts_for_every_host_witness:
  "bt_successCount (fst (loginHostsBatch sample_labels sample_login_api False (\<lambda>_. Inr None) (\<lambda>_ s. s)
     [''u1'', ''u2'', ''u3''] ((init_host_state [])\<lparr>hs_authorizedHosts := [''u3'']\<rparr>)
     \<lparr>ss_blocked = False, ss_linked = []\<rparr> 0))
   + length (bt_failed (fst (loginHostsBatch sample_labels sample_login_api False (\<lambda>_. Inr None) (\<lambda>_ s. s)
     [''u1'', ''u2'', ''u3''] ((init_host_state [])\<lparr>hs_authorizedHosts := [''u3'']\<rparr>)
     \<lparr>ss_blocked = False, ss_linked = []\<rparr> 0)))
   = bt_attempted (fst (loginHostsBatch sample_labels sample_login_api False (\<lambda>_. Inr None) (\<lambda>_ s. s)
     [''u1'', ''u2'', ''u3''] ((init_host_state [])\<lparr>hs_authorizedHosts := [''u3'']\<rparr>)
     \<lparr>ss_blocked = False, ss_linked = []\<rparr> 0))"
proof -
  let ?out = "loginHostsBatch sample_labels sample_login_api False (\<lambda>_. Inr None) (\<lambda>_ s. s)
     [''u1'', ''u2'', ''u3''] ((init_host_state [])\<lparr>hs_authorizedHosts := [''u3'']\<rparr>)
     \<lparr>ss_blocked = False, ss_linked = []\<rparr> 0"
  have d: "distinct (filter (\<lambda>u. u \<noteq> []) [''u1'', ''u2'', ''u3''])" by simp
  have "?out = (fst ?out, fst (snd ?out), fst (snd (snd ?out)), snd (snd (snd ?out)))" by simp
  from batch_accounts_for_every_host [OF d this] show ?thesis by blast
qed

end
