(* ===== verification/HostDialogs.thy ===== *)
theory HostDialogs
  imports HostBatch
begin

text \<open>
  Properties of the HA dialogs a login may open (\<open>processHaLoginSideEffects\<close> and
  \<open>haFollowUpAction\<close> of \<open>hostSlice.js\<close>): what a collected login leaves alone, that a login
  never stacks dialogs, and that a deferred dialog follows the current tree.
\<close>

section \<open>The dialog fields\<close>

definition ha_dialogs :: "host_state \<Rightarrow> bool \<times> bool \<times> bool" where
  "ha_dialogs s = (hs_isDiscoveryModalOpen s, hs_isHaMergeModalOpen s, hs_isHaClusterLinkModalOpen s)"

lemma ha_dialogs_mark [simp]:
  "ha_dialogs (applyHostGroupsResponse b gs s) = ha_dialogs s"
  by (simp add: ha_dialogs_def applyHostGroupsResponse_def syncHaInfoStorage_def Let_def)

lemma ha_dialogs_await [simp]:
  "ha_dialogs (reduce_host_ha (RemoveHostAwaitingHaLogin u) s) = ha_dialogs s"
  by (simp add: ha_dialogs_def)

text \<open>What a stage may do to the dialogs: in collect mode only close a stale discovery dialog,
  else also open one, which is then the only one.\<close>

definition opened :: "host_state \<Rightarrow> host_state \<Rightarrow> nat" where
  "opened s s' = of_bool (hs_isDiscoveryModalOpen s' \<and> \<not> hs_isDiscoveryModalOpen s)
     + of_bool (hs_isHaMergeModalOpen s' \<and> \<not> hs_isHaMergeModalOpen s)
     + of_bool (hs_isHaClusterLinkModalOpen s' \<and> \<not> hs_isHaClusterLinkModalOpen s)"

lemma discovery_stage_opened:
  assumes "discovery_stage collect u info hosts aw gs s = ((s1, fu), shown)"
  shows "opened s s1 \<le> of_bool (shown \<and> \<not> collect)"
    and "hs_isHaMergeModalOpen s1 = hs_isHaMergeModalOpen s"
    and "hs_isHaClusterLinkModalOpen s1 = hs_isHaClusterLinkModalOpen s"
    and "collect \<Longrightarrow> hs_isDiscoveryModalOpen s1 \<Longrightarrow> hs_isDiscoveryModalOpen s"
    and "hs_hostsAwaitingHaLogin s1 = hs_hostsAwaitingHaLogin s"
    and "\<not> shown \<Longrightarrow> hs_isDiscoveryModalOpen s1 \<Longrightarrow> hs_isDiscoveryModalOpen s"
    and "\<not> collect \<Longrightarrow> fu = None"
  using assms
  by (auto simp: discovery_stage_def show_modal_def opened_def Let_def split: if_splits)

lemma merge_stage_opened:
  assumes "merge_stage collect u info gs ((s, fu), shown) = ((s1, fu1), shown1)"
  shows "hs_isDiscoveryModalOpen s1 = hs_isDiscoveryModalOpen s"
    and "hs_isHaClusterLinkModalOpen s1 = hs_isHaClusterLinkModalOpen s"
    and "collect \<Longrightarrow> hs_isHaMergeModalOpen s1 = hs_isHaMergeModalOpen s"
    and "hs_hostsAwaitingHaLogin s1 = hs_hostsAwaitingHaLogin s"
    and "shown \<Longrightarrow> s1 = s \<and> shown1"
    and "\<not> shown1 \<Longrightarrow> s1 = s"
    and "\<not> collect \<Longrightarrow> fu = None \<Longrightarrow> fu1 = None"
  using assms
  by (auto simp: merge_stage_def show_modal_def split: if_splits option.splits)

lemma link_stage_opened:
  assumes "link_stage collect u info gs ((s, fu), shown) ss = ((s1, fu1), ss1)"
  shows "hs_isDiscoveryModalOpen s1 = hs_isDiscoveryModalOpen s"
    and "hs_isHaMergeModalOpen s1 = hs_isHaMergeModalOpen s"
    and "collect \<Longrightarrow> hs_isHaClusterLinkModalOpen s1 = hs_isHaClusterLinkModalOpen s"
    and "hs_hostsAwaitingHaLogin s1 = hs_hostsAwaitingHaLogin s"
    and "shown \<Longrightarrow> s1 = s"
    and "\<not> collect \<Longrightarrow> fu = None \<Longrightarrow> fu1 = None"
  using assms
  by (auto simp: link_stage_def show_modal_def Let_def split: if_splits)

text \<open>The state the stages start from: the groups are those \<open>markGroupHa\<close> left.\<close>

lemma side_effects_stages:
  assumes "map_of (hs_haInfo s) u = Some info"
    and "processHaLoginSideEffects blocked collect u mark env s ss = ((s', fu), ss')"
    and "ha_dialogs (env s) = ha_dialogs s" "hs_hostsAwaitingHaLogin (env s) = hs_hostsAwaitingHaLogin s"
  obtains s1 s2 where "ha_dialogs s1 = ha_dialogs s"
    "hs_hostsAwaitingHaLogin s1 = hs_hostsAwaitingHaLogin s"
    "s2 = s1 \<and> fu = None \<or>
     (\<exists>sd fd shd sm fm shm gs. discovery_stage collect u info (hs_hosts s)
          (u \<in> set (hs_hostsAwaitingHaLogin s)) gs s1 = ((sd, fd), shd)
        \<and> merge_stage collect u info gs ((sd, fd), shd) = ((sm, fm), shm)
        \<and> link_stage collect u info gs ((sm, fm), shm) ss = ((s2, fu), ss'))"
    "s' = (if u \<in> set (hs_hostsAwaitingHaLogin s)
           then reduce_host_ha (RemoveHostAwaitingHaLogin u) s2 else s2)"
proof -
  define s1 where "s1 = (if isHaResponse info then
       (case markGroupHa mark of Fulfilled gs \<Rightarrow> host_reduce blocked (MarkGroupHa gs) (env s) | _ \<Rightarrow> env s)
     else s)"
  have d: "ha_dialogs s1 = ha_dialogs s" "hs_hostsAwaitingHaLogin s1 = hs_hostsAwaitingHaLogin s"
    using assms(3,4) by (auto simp: s1_def split: phase.split)
  define gs where "gs = hs_hostGroups s1"
  obtain sd fd shd where ds: "discovery_stage collect u info (hs_hosts s)
      (u \<in> set (hs_hostsAwaitingHaLogin s)) gs s1 = ((sd, fd), shd)"
    by (metis surj_pair)
  obtain sm fm shm where ms: "merge_stage collect u info gs ((sd, fd), shd) = ((sm, fm), shm)"
    by (metis surj_pair)
  obtain sl fl ssl where ls: "link_stage collect u info gs ((sm, fm), shm) ss = ((sl, fl), ssl)"
    by (metis surj_pair)
  have run: "(case if isHaResponse info \<and> hai_haNodes info \<noteq> []
        then link_stage collect u info gs (merge_stage collect u info gs (discovery_stage collect u info
          (hs_hosts s) (u \<in> set (hs_hostsAwaitingHaLogin s)) gs s1)) ss
        else ((s1, None), ss) of
       (st, x) \<Rightarrow> ((if u \<in> set (hs_hostsAwaitingHaLogin s)
           then reduce_host_ha (RemoveHostAwaitingHaLogin u) (fst st) else fst st, snd st), x))
     = ((s', fu), ss')"
    using assms(2)
    unfolding processHaLoginSideEffects_def assms(1) option.case Let_def s1_def [symmetric] gs_def [symmetric] .
  show ?thesis
  proof (cases "isHaResponse info \<and> hai_haNodes info \<noteq> []")
    case True
    then have "fl = fu" "ssl = ss'" "s' = (if u \<in> set (hs_hostsAwaitingHaLogin s)
           then reduce_host_ha (RemoveHostAwaitingHaLogin u) sl else sl)"
      using run unfolding if_P [OF True] ds ms ls by (auto split: if_splits)
    with that [OF d, of sl] ds ms ls show ?thesis by blast
  next
    case False
    then have "fu = None" "s' = (if u \<in> set (hs_hostsAwaitingHaLogin s)
           then reduce_host_ha (RemoveHostAwaitingHaLogin u) s1 else s1)"
      using run unfolding if_not_P [OF False] by (auto split: if_splits)
    with that [OF d, of s1] show ?thesis by blast
  qed
qed

section \<open>Properties\<close>

text \<open>
  a login collected by a batch opens no HA dialog. For a host whose HA data is known, and as
  long as nothing else opens one during the wait, the merge and the cluster-link dialogs are as
  they were, the discovery dialog is as it was or a stale one was closed, and the host is no
  longer waiting for its first-login handling, so nothing can pop up later.
\<close>

theorem collected_login_opens_nothing:
  assumes "map_of (hs_haInfo s) u = Some info"
    and "ha_dialogs (env s) = ha_dialogs s" "hs_hostsAwaitingHaLogin (env s) = hs_hostsAwaitingHaLogin s"
    and "processHaLoginSideEffects blocked True u mark env s ss = ((s', fu), ss')"
  shows "(hs_isDiscoveryModalOpen s' \<longrightarrow> hs_isDiscoveryModalOpen s)
    \<and> hs_isHaMergeModalOpen s' = hs_isHaMergeModalOpen s
    \<and> hs_isHaClusterLinkModalOpen s' = hs_isHaClusterLinkModalOpen s
    \<and> u \<notin> set (hs_hostsAwaitingHaLogin s')"
proof -
  from side_effects_stages [OF assms(1,4,2,3)] obtain s1 s2 where
    d: "ha_dialogs s1 = ha_dialogs s" "hs_hostsAwaitingHaLogin s1 = hs_hostsAwaitingHaLogin s" and
    st: "s2 = s1 \<and> fu = None \<or> (\<exists>sd fd shd sm fm shm gs. discovery_stage True u info (hs_hosts s)
          (u \<in> set (hs_hostsAwaitingHaLogin s)) gs s1 = ((sd, fd), shd)
        \<and> merge_stage True u info gs ((sd, fd), shd) = ((sm, fm), shm)
        \<and> link_stage True u info gs ((sm, fm), shm) ss = ((s2, fu), ss'))" and
    s': "s' = (if u \<in> set (hs_hostsAwaitingHaLogin s)
           then reduce_host_ha (RemoveHostAwaitingHaLogin u) s2 else s2)" by metis
  have "(hs_isDiscoveryModalOpen s2 \<longrightarrow> hs_isDiscoveryModalOpen s1)
    \<and> hs_isHaMergeModalOpen s2 = hs_isHaMergeModalOpen s1
    \<and> hs_isHaClusterLinkModalOpen s2 = hs_isHaClusterLinkModalOpen s1
    \<and> hs_hostsAwaitingHaLogin s2 = hs_hostsAwaitingHaLogin s1"
    using st
  proof (elim disjE exE conjE)
    fix sd fd shd sm fm shm gs
    assume ds: "discovery_stage True u info (hs_hosts s) (u \<in> set (hs_hostsAwaitingHaLogin s)) gs s1
        = ((sd, fd), shd)"
      and ms: "merge_stage True u info gs ((sd, fd), shd) = ((sm, fm), shm)"
      and ls: "link_stage True u info gs ((sm, fm), shm) ss = ((s2, fu), ss')"
    show ?thesis
      using discovery_stage_opened(2-5) [OF ds] merge_stage_opened(1-4) [OF ms]
        link_stage_opened(1-4) [OF ls] by simp
  qed simp
  with d show ?thesis by (auto simp: s' ha_dialogs_def)
qed

text \<open>
  a login never stacks dialogs. Outside a batch, a login opens at most one of the discovery,
  merge and cluster-link dialogs, and none is kept back for later.
\<close>

theorem login_opens_at_most_one_dialog:
  assumes "map_of (hs_haInfo s) u = Some info"
    and "ha_dialogs (env s) = ha_dialogs s" "hs_hostsAwaitingHaLogin (env s) = hs_hostsAwaitingHaLogin s"
    and "processHaLoginSideEffects blocked False u mark env s ss = ((s', fu), ss')"
  shows "opened s s' \<le> 1 \<and> fu = None"
proof -
  from side_effects_stages [OF assms(1,4,2,3)] obtain s1 s2 where
    d: "ha_dialogs s1 = ha_dialogs s" and
    st: "s2 = s1 \<and> fu = None \<or> (\<exists>sd fd shd sm fm shm gs. discovery_stage False u info (hs_hosts s)
          (u \<in> set (hs_hostsAwaitingHaLogin s)) gs s1 = ((sd, fd), shd)
        \<and> merge_stage False u info gs ((sd, fd), shd) = ((sm, fm), shm)
        \<and> link_stage False u info gs ((sm, fm), shm) ss = ((s2, fu), ss'))" and
    s': "s' = (if u \<in> set (hs_hostsAwaitingHaLogin s)
           then reduce_host_ha (RemoveHostAwaitingHaLogin u) s2 else s2)" by metis
  have "opened s1 s2 \<le> 1 \<and> fu = None"
    using st
  proof (elim disjE exE conjE)
    fix sd fd shd sm fm shm gs
    assume ds: "discovery_stage False u info (hs_hosts s) (u \<in> set (hs_hostsAwaitingHaLogin s)) gs s1
        = ((sd, fd), shd)"
      and ms: "merge_stage False u info gs ((sd, fd), shd) = ((sm, fm), shm)"
      and ls: "link_stage False u info gs ((sm, fm), shm) ss = ((s2, fu), ss')"
    note facts = discovery_stage_opened [OF ds] merge_stage_opened [OF ms] link_stage_opened [OF ls]
    show ?thesis
    proof (cases shd)
      case True
      then have "s2 = sd" using facts by simp
      with facts True show ?thesis by simp
    next
      case False
      then have dd: "hs_isDiscoveryModalOpen s2 \<Longrightarrow> hs_isDiscoveryModalOpen s1"
        using facts by simp
      have "s2 = sm \<or> sm = sd" using facts by auto
      with dd facts show ?thesis by (auto simp: opened_def)
    qed
  qed (simp add: opened_def)
  moreover have "opened s s' = opened s1 s2"
    using d by (simp add: s' opened_def ha_dialogs_def)
  ultimately show ?thesis by simp
qed

text \<open>Two hosts of one cluster in different groups; \<open>u2\<close> is registered under its own group.\<close>

definition sample_ha_info :: ha_info where
  "sample_ha_info = \<lparr>hai_isHA = Bool True, hai_currentNodeType = Some ''master'',
     hai_haNodes = [\<lparr>hn_ip = ''10.0.0.1'', hn_hostname = ''db1'', hn_state = ''master''\<rparr>,
                    \<lparr>hn_ip = ''10.0.0.2'', hn_hostname = ''db2'', hn_state = ''slave''\<rparr>]\<rparr>"

definition sample_ha_groups :: host_groups where
  "sample_ha_groups = sample_groups [sample_host ''u1'' ''10.0.0.1'' None] [sample_host ''u2'' ''10.0.0.2'' None]"

definition sample_ha_state :: host_state where
  "sample_ha_state = (init_host_state [(''u1'', sample_ha_info)])
     \<lparr>hs_hostGroups := sample_ha_groups, hs_hosts := flattenHostsFromGroups sample_ha_groups,
      hs_hostsAwaitingHaLogin := [''u1'']\<rparr>"

lemma sample_ha_state_info: "map_of (hs_haInfo sample_ha_state) ''u1'' = Some sample_ha_info"
  by (simp add: sample_ha_state_def init_host_state_def)

lemma pair3_collapse: "x = ((fst (fst x), snd (fst x)), snd x)"
  by simp

lemma collected_login_opens_nothing_witness:
  "let out = processHaLoginSideEffects False True ''u1'' (Inr (Some sample_ha_groups)) (\<lambda>s. s)
       sample_ha_state \<lparr>ss_blocked = False, ss_linked = []\<rparr>
   in hs_isHaMergeModalOpen (fst (fst out)) = hs_isHaMergeModalOpen sample_ha_state
    \<and> ''u1'' \<notin> set (hs_hostsAwaitingHaLogin (fst (fst out)))"
  using collected_login_opens_nothing [OF sample_ha_state_info refl refl
      pair3_collapse [of "processHaLoginSideEffects False True ''u1'' (Inr (Some sample_ha_groups)) (\<lambda>s. s)
       sample_ha_state \<lparr>ss_blocked = False, ss_linked = []\<rparr>"]]
  unfolding Let_def by blast

lemma login_opens_at_most_one_dialog_witness:
  "let out = processHaLoginSideEffects False False ''u1'' (Inr (Some sample_ha_groups)) (\<lambda>s. s)
       sample_ha_state \<lparr>ss_blocked = False, ss_linked = []\<rparr>
   in opened sample_ha_state (fst (fst out)) \<le> 1 \<and> snd (fst out) = None"
  using login_opens_at_most_one_dialog [OF sample_ha_state_info refl refl
      pair3_collapse [of "processHaLoginSideEffects False False ''u1'' (Inr (Some sample_ha_groups)) (\<lambda>s. s)
       sample_ha_state \<lparr>ss_blocked = False, ss_linked = []\<rparr>"]]
  unfolding Let_def by blast

text \<open>
  a deferred merge is re-based when it is opened. The plan that opens is made from the tree
  as it is now: it targets the group the anchor host is in now, every host it would move is now
  in another group, and none is listed twice. When the anchor and all registered cluster members
  already share a group, nothing opens.
\<close>

theorem deferred_merge_is_rebased:
  assumes "mpl_anchorHostUid plan \<noteq> []"
    and "haFollowUpAction (Some (Merge plan)) (Some s) = act"
  shows "(act = None \<or> (\<exists>p. act = Some (SetPendingHaMerge (Some p)) \<and> mpl_peers p \<noteq> []
      \<and> findGroupIdForHost (hs_hostGroups s) (Some (mpl_anchorHostUid plan)) = Some (mpl_targetGroupId p)
      \<and> distinct (map hp_hostUid (mpl_peers p))
      \<and> (\<forall>q \<in> set (mpl_peers p). findGroupIdForHost (hs_hostGroups s) (Some (hp_hostUid q))
             = Some (mp_fromGroupId q) \<and> mp_fromGroupId q \<noteq> mpl_targetGroupId p)))
    \<and> ((\<forall>h \<in> set (flattenHostsFromGroups (hs_hostGroups s)).
          findGroupIdForHost (hs_hostGroups s) (Some (hi_uid h))
            = findGroupIdForHost (hs_hostGroups s) (Some (mpl_anchorHostUid plan))) \<longrightarrow> act = None)"
proof -
  let ?gs = "hs_hostGroups s" and ?a = "mpl_anchorHostUid plan"
  define nodes where "nodes = (case map_of (hs_haInfo s) ?a of None \<Rightarrow> [] | Some i \<Rightarrow> hai_haNodes i)"
  have act: "act = map_option (\<lambda>p. SetPendingHaMerge (Some p)) (findHaPeersNeedingMerge ?gs nodes ?a)"
    using assms by (auto simp: nodes_def)
  show ?thesis
  proof (cases "findHaPeersNeedingMerge ?gs nodes ?a")
    case None
    with act show ?thesis by simp
  next
    case (Some p)
    then obtain t where t: "findGroupIdForHost ?gs (Some ?a) = Some t" "mpl_targetGroupId p = t"
      and peers: "mpl_peers p = merge_loop ?gs (flattenHostsFromGroups ?gs) t ?a nodes []"
      and ne: "mpl_peers p \<noteq> []"
      by (auto simp: findHaPeersNeedingMerge_def Let_def split: option.splits if_splits)
    have mem: "findGroupIdForHost ?gs (Some (hp_hostUid q)) = Some (mp_fromGroupId q)
        \<and> mp_fromGroupId q \<noteq> t
        \<and> (\<exists>h \<in> set (flattenHostsFromGroups ?gs). hi_uid h = hp_hostUid q)"
      if "q \<in> set (mpl_peers p)" for q
      using merge_loop_mem [OF that [unfolded peers] assms(1)] by blast
    from ne obtain q where "q \<in> set (mpl_peers p)" by (cases "mpl_peers p") auto
    with mem obtain h where "h \<in> set (flattenHostsFromGroups ?gs)"
      "findGroupIdForHost ?gs (Some (hi_uid h)) \<noteq> findGroupIdForHost ?gs (Some ?a)"
      unfolding t(1) by (metis option.inject)
    with act Some t ne mem merge_loop_distinct [OF assms(1)] show ?thesis
      by (auto simp: peers)
  qed
qed

lemma deferred_merge_is_rebased_witness:
  "let plan = \<lparr>mpl_anchorHostUid = ''u1'', mpl_targetGroupId = ''old'', mpl_targetGroupName = ''Old'',
              mpl_peers = []\<rparr>
   in haFollowUpAction (Some (Merge plan)) (Some (sample_ha_state
        \<lparr>hs_hostGroups := sample_groups [sample_host ''u1'' ''10.0.0.1'' None,
                                         sample_host ''u2'' ''10.0.0.2'' None] []\<rparr>)) = None"
proof -
  let ?plan = "\<lparr>mpl_anchorHostUid = ''u1'', mpl_targetGroupId = ''old'', mpl_targetGroupName = ''Old'',
              mpl_peers = []\<rparr>"
  let ?s = "sample_ha_state \<lparr>hs_hostGroups := sample_groups [sample_host ''u1'' ''10.0.0.1'' None,
                                         sample_host ''u2'' ''10.0.0.2'' None] []\<rparr>"
  have a: "mpl_anchorHostUid ?plan \<noteq> []" by simp
  have same: "\<forall>h \<in> set (flattenHostsFromGroups (hs_hostGroups ?s)).
          findGroupIdForHost (hs_hostGroups ?s) (Some (hi_uid h))
            = findGroupIdForHost (hs_hostGroups ?s) (Some (mpl_anchorHostUid ?plan))"
    by (simp add: flattenHostsFromGroups_def sample_groups_def sample_host_def findGroupIdForHost_def)
  show ?thesis
    using deferred_merge_is_rebased [OF a refl, of ?s] same unfolding Let_def by blast
qed

end
