(* ===== verification/HaFacts.thy ===== *)
theory HaFacts
  imports HaPeers
begin

text \<open>
  Properties of the shared host lookups (\<open>hostGroupUtils.js\<close>) and of the HA peer planning
  (\<open>haPeerUtils.js\<close>): the order the tree is shown in, which group a host is in, how peer names
  are matched, and what a merge plan and a cluster-link notice contain.
\<close>

section \<open>Order of the tree\<close>

lemma consistent_two_level:
  fixes rank :: "'a \<Rightarrow> int"
  assumes "consistent_cmp lc"
  shows "consistent_cmp (\<lambda>a b. if rank a \<noteq> rank b then rank a - rank b else lc (f a) (f b))"
  unfolding consistent_cmp_def
proof (intro conjI allI impI)
  fix a b
  show "(if rank a \<noteq> rank b then rank a - rank b else lc (f a) (f b)) \<le> 0
      \<or> (if rank b \<noteq> rank a then rank b - rank a else lc (f b) (f a)) \<le> 0"
    using consistent_cmp_total [OF assms, of "f a" "f b"] by auto
next
  fix a b c
  assume "(if rank a \<noteq> rank b then rank a - rank b else lc (f a) (f b)) \<le> 0 \<and>
      (if rank b \<noteq> rank c then rank b - rank c else lc (f b) (f c)) \<le> 0"
  then show "(if rank a \<noteq> rank c then rank a - rank c else lc (f a) (f c)) \<le> 0"
    using consistent_cmp_trans [OF assms, of "f a" "f b" "f c"] by (auto split: if_splits)
qed

definition group_rank :: "string \<Rightarrow> int" where
  "group_rank gid = (if gid = UNGROUPED_GROUP_ID then 1 else 0)"

lemma orderedGroupEntries_rank:
  "orderedGroupEntries lc gs = js_sort (\<lambda>a b. if group_rank (fst a) \<noteq> group_rank (fst b)
      then group_rank (fst a) - group_rank (fst b) else lc (hg_name (snd a)) (hg_name (snd b))) gs"
  unfolding orderedGroupEntries_def
  by (rule arg_cong [of _ _ "\<lambda>c. js_sort c gs"]) (auto simp: fun_eq_iff group_rank_def)

text \<open>
  The groups are shown as a rearrangement of the tree's entries in which the ungrouped
  bucket never comes before another group and the other groups are in name order.
\<close>

theorem groups_shown_in_order:
  assumes "consistent_cmp lc"
  shows "mset (orderedGroupEntries lc gs) = mset gs
    \<and> sorted_wrt (\<lambda>a b. (fst a = UNGROUPED_GROUP_ID \<longrightarrow> fst b = UNGROUPED_GROUP_ID)
        \<and> (fst a \<noteq> UNGROUPED_GROUP_ID \<longrightarrow> fst b \<noteq> UNGROUPED_GROUP_ID
             \<longrightarrow> lc (hg_name (snd a)) (hg_name (snd b)) \<le> 0)) (orderedGroupEntries lc gs)"
proof -
  let ?cmp = "\<lambda>a b. if group_rank (fst a) \<noteq> group_rank (fst b)
      then group_rank (fst a) - group_rank (fst b) else lc (hg_name (snd a)) (hg_name (snd b))"
  have s: "sorted_wrt (\<lambda>a b. ?cmp a b \<le> 0) (orderedGroupEntries lc gs)"
    unfolding orderedGroupEntries_rank by (intro sorted_js_sort consistent_two_level assms)
  have "sorted_wrt (\<lambda>a b. (fst a = UNGROUPED_GROUP_ID \<longrightarrow> fst b = UNGROUPED_GROUP_ID)
        \<and> (fst a \<noteq> UNGROUPED_GROUP_ID \<longrightarrow> fst b \<noteq> UNGROUPED_GROUP_ID
             \<longrightarrow> lc (hg_name (snd a)) (hg_name (snd b)) \<le> 0)) (orderedGroupEntries lc gs)"
    by (rule sorted_wrt_mono_rel [OF _ s]) (auto simp: group_rank_def split: if_splits)
  then show ?thesis by (simp add: orderedGroupEntries_def)
qed

text \<open>A collation for the witnesses: shorter names first.\<close>

definition by_length :: "string \<Rightarrow> string \<Rightarrow> int" where
  "by_length a b = int (length a) - int (length b)"

lemma consistent_by_length: "consistent_cmp by_length"
  by (auto simp: consistent_cmp_def by_length_def)

lemma groups_shown_in_order_witness:
  "consistent_cmp by_length \<and> mset (orderedGroupEntries by_length
     [(UNGROUPED_GROUP_ID, \<lparr>hg_name = [], hg_hosts = [], hg_defaultHostUid = None\<rparr>),
      (''g1'', \<lparr>hg_name = ''A'', hg_hosts = [], hg_defaultHostUid = None\<rparr>)]) = mset
     [(UNGROUPED_GROUP_ID, \<lparr>hg_name = [], hg_hosts = [], hg_defaultHostUid = None\<rparr>),
      (''g1'', \<lparr>hg_name = ''A'', hg_hosts = [], hg_defaultHostUid = None\<rparr>)]"
  using groups_shown_in_order [OF consistent_by_length] consistent_by_length by blast

text \<open>
  Within a group the hosts are shown as a rearrangement of the given uids by HA role, master
  before slave before replica before hosts of no known role, and by label within a role.
\<close>

theorem hosts_shown_by_role:
  assumes "consistent_cmp lc"
  shows "mset (sortHostUidsByHaRole lc us hosts ha) = mset us
    \<and> sorted_wrt (\<lambda>a b. roleRank ha a < roleRank ha b
        \<or> roleRank ha a = roleRank ha b \<and> lc (hostLabel hosts a) (hostLabel hosts b) \<le> 0)
        (sortHostUidsByHaRole lc us hosts ha)"
proof -
  have eq: "sortHostUidsByHaRole lc us hosts ha = js_sort (\<lambda>a b. if roleRank ha a \<noteq> roleRank ha b
      then roleRank ha a - roleRank ha b else lc (hostLabel hosts a) (hostLabel hosts b)) us"
    unfolding sortHostUidsByHaRole_def
    by (rule arg_cong [of _ _ "\<lambda>c. js_sort c us"]) (auto simp: fun_eq_iff Let_def)
  have s: "sorted_wrt (\<lambda>a b. (if roleRank ha a \<noteq> roleRank ha b
      then roleRank ha a - roleRank ha b else lc (hostLabel hosts a) (hostLabel hosts b)) \<le> 0)
      (sortHostUidsByHaRole lc us hosts ha)"
    unfolding eq by (intro sorted_js_sort consistent_two_level assms)
  have "sorted_wrt (\<lambda>a b. roleRank ha a < roleRank ha b
        \<or> roleRank ha a = roleRank ha b \<and> lc (hostLabel hosts a) (hostLabel hosts b) \<le> 0)
        (sortHostUidsByHaRole lc us hosts ha)"
    by (rule sorted_wrt_mono_rel [OF _ s]) (auto split: if_splits)
  then show ?thesis by (simp add: eq)
qed

lemma hosts_shown_by_role_witness:
  "consistent_cmp by_length \<and> mset (sortHostUidsByHaRole by_length [''u1'', ''u2''] [] []) = mset [''u1'', ''u2'']"
  using hosts_shown_by_role [OF consistent_by_length] consistent_by_length by blast

section \<open>Group of a host\<close>

text \<open>
  The group lookup every feature uses finds exactly the one group a host is filed under: in
  a well-formed tree it answers \<open>gid\<close> if and only if the host is a member of \<open>gid\<close>, and
  answers nothing if and only if the host is in no group.
\<close>

theorem group_lookup_exact:
  assumes "groups_wf gs" "u \<noteq> []"
  shows "(findGroupIdForHost gs (Some u) = Some gid \<longleftrightarrow> in_group gs gid u)
    \<and> (findGroupIdForHost gs (Some u) = None \<longleftrightarrow> u \<notin> hi_uid ` set (flattenHostsFromGroups gs))"
proof -
  have "u \<in> hi_uid ` set (flattenHostsFromGroups gs) \<longleftrightarrow> (\<exists>gid. in_group gs gid u)"
    using flatten_in_group [OF assms(1)] in_group_host [OF assms(1)] by fastforce
  with findGroupIdForHost_None [of gs u] findGroupIdForHost_iff [OF assms(1)] assms(2)
  show ?thesis by auto
qed

definition one_host_tree :: host_groups where
  "one_host_tree = [(''g1'', \<lparr>hg_name = ''A'', hg_hosts = [(''u1'', \<lparr>hi_uid = ''u1'', hi_id = ''admin'',
     hi_address = ''db1.example'', hi_port = 8001, hi_alias = [], hi_initialLogin = False,
     hi_cmsSessionExpiresAt = None\<rparr>)], hg_defaultHostUid = None\<rparr>)]"

lemma group_lookup_exact_witness:
  "groups_wf one_host_tree
    \<and> (findGroupIdForHost one_host_tree (Some ''u1'') = Some ''g1'' \<longleftrightarrow> in_group one_host_tree ''g1'' ''u1'')"
proof -
  have "groups_wf one_host_tree" by (simp add: groups_wf_def one_host_tree_def obj_wf_def)
  with group_lookup_exact [OF this, of "''u1''" "''g1''"] show ?thesis by simp
qed

section \<open>Matching peer names\<close>

text \<open>
  Matching two host names does not depend on their order, and two fully qualified names
  match only when they are the same name: hosts of different domains are never taken for one
  another because they share the short name.
\<close>

theorem hostname_matching:
  shows "hostnameMatches a b = hostnameMatches b a
    \<and> (has_dot (normalizeIdent a) \<and> has_dot (normalizeIdent b) \<longrightarrow>
        hostnameMatches a b = (normalizeIdent a = normalizeIdent b))"
  using hostnameMatches_sym hostnameMatches_fqdn by blast

lemma hostname_matching_witness:
  "has_dot (normalizeIdent ''db1.a.com'') \<and> has_dot (normalizeIdent ''db1.b.com'')
    \<and> \<not> hostnameMatches ''db1.a.com'' ''db1.b.com''"
proof -
  have n: "normalizeIdent ''db1.a.com'' = ''db1.a.com''" "normalizeIdent ''db1.b.com'' = ''db1.b.com''"
    by code_simp+
  have d: "has_dot ''db1.a.com''" "has_dot ''db1.b.com''" by code_simp+
  show ?thesis
    using conjunct2 [OF hostname_matching [of "''db1.a.com''" "''db1.b.com''"]] n d by simp
qed

section \<open>Merge plans\<close>

lemma merge_loop_uids:
  "set (map hp_hostUid (merge_loop gs hosts target anchor nodes seen)) =
     {u. \<exists>node \<in> set nodes. \<exists>m. findHostMatchingHaPeer hosts node (Some anchor) = Some m \<and> hi_uid m = u
        \<and> (\<exists>g. findGroupIdForHost gs (Some u) = Some g \<and> g \<noteq> [] \<and> g \<noteq> target)} - set seen"
    (is "_ = ?S nodes - set seen")
proof (induction nodes arbitrary: seen)
  case Nil
  then show ?case by simp
next
  case (Cons node nodes)
  show ?case
  proof (cases "findHostMatchingHaPeer hosts node (Some anchor)")
    case None
    then have "?S (node # nodes) = ?S nodes" by auto
    with Cons None show ?thesis by simp
  next
    case (Some m)
    define away where "away \<longleftrightarrow>
      (\<exists>g. findGroupIdForHost gs (Some (hi_uid m)) = Some g \<and> g \<noteq> [] \<and> g \<noteq> target)"
    have S: "?S (node # nodes) = (if away then insert (hi_uid m) (?S nodes) else ?S nodes)"
      using Some unfolding away_def by auto
    have no: "\<not> away \<Longrightarrow> hi_uid m \<notin> ?S nodes" unfolding away_def by auto
    show ?thesis
    proof (cases "hi_uid m \<in> set seen")
      case True
      with Cons [of seen] Some show ?thesis unfolding S by auto
    next
      case False
      have "set (map hp_hostUid (merge_loop gs hosts target anchor (node # nodes) seen)) =
          (if away then {hi_uid m} else {})
          \<union> set (map hp_hostUid (merge_loop gs hosts target anchor nodes (hi_uid m # seen)))"
        using Some False by (auto simp: away_def split: option.splits)
      also have "\<dots> = (if away then {hi_uid m} else {}) \<union> (?S nodes - set (hi_uid m # seen))"
        by (simp only: Cons.IH)
      also have "\<dots> = ?S (node # nodes) - set seen"
        unfolding S using no False by (cases away) auto
      finally show ?thesis .
    qed
  qed
qed

text \<open>
  C18: a merge plan is exact. For an anchor host filed in the tree, the hosts to move are
  precisely the registered hosts that some HA node resolves to (other than the anchor) and that
  are filed in another group; each is listed once, with the group it leaves; and there is no
  plan exactly when there is no such host.
\<close>

theorem merge_plan_exact:
  assumes "anchor \<noteq> []" "findGroupIdForHost gs (Some anchor) = Some target"
    and "U = {u. \<exists>node \<in> set nodes. \<exists>m. findHostMatchingHaPeer (flattenHostsFromGroups gs) node (Some anchor) = Some m
           \<and> hi_uid m = u \<and> (\<exists>g. findGroupIdForHost gs (Some u) = Some g \<and> g \<noteq> [] \<and> g \<noteq> target)}"
  shows "(case findHaPeersNeedingMerge gs nodes anchor of
       None \<Rightarrow> U = {}
     | Some p \<Rightarrow> mpl_anchorHostUid p = anchor \<and> mpl_targetGroupId p = target \<and> U \<noteq> {}
         \<and> set (map hp_hostUid (mpl_peers p)) = U \<and> distinct (map hp_hostUid (mpl_peers p))
         \<and> (\<forall>q \<in> set (mpl_peers p). findGroupIdForHost gs (Some (hp_hostUid q)) = Some (mp_fromGroupId q)))
     \<and> anchor \<notin> U"
proof -
  let ?l = "merge_loop gs (flattenHostsFromGroups gs) target anchor nodes []"
  have U: "set (map hp_hostUid ?l) = U" using merge_loop_uids [of gs _ target anchor nodes "[]"] assms(3) by simp
  have d: "distinct (map hp_hostUid ?l)" by (rule merge_loop_distinct [OF assms(1)])
  have left: "findGroupIdForHost gs (Some (hp_hostUid q)) = Some (mp_fromGroupId q)" "hp_hostUid q \<noteq> anchor"
    if "q \<in> set ?l" for q
    using merge_loop_mem [OF that assms(1)] by simp_all
  from left have "anchor \<notin> U" unfolding U [symmetric] by auto
  moreover have "nodes = [] \<Longrightarrow> U = {}" using assms(3) by simp
  ultimately show ?thesis
    using assms(2) U d left
    by (auto simp: findHaPeersNeedingMerge_def Let_def split: option.split)
qed

text \<open>
  Moving and linking do not overlap: a host listed in the cluster-link notice is filed in
  the anchor's own group and is not the anchor, so it is never also in the merge plan.
\<close>

theorem link_and_merge_disjoint:
  assumes "anchor \<noteq> []" "findHaPeersNeedingMerge gs nodes anchor = Some p"
    and "q \<in> set (findRegisteredHaPeersInSameGroup gs nodes' anchor)"
  shows "hp_hostUid q \<noteq> anchor
    \<and> findGroupIdForHost gs (Some (hp_hostUid q)) = findGroupIdForHost gs (Some anchor)
    \<and> hp_hostUid q \<notin> hp_hostUid ` set (mpl_peers p)"
proof -
  obtain target where t: "findGroupIdForHost gs (Some anchor) = Some target"
    using assms(2) by (cases "findGroupIdForHost gs (Some anchor)") (auto simp: findHaPeersNeedingMerge_def)
  from assms(3) t have "q \<in> set (same_group_loop gs (flattenHostsFromGroups gs) target anchor nodes' [])"
    by (auto simp: findRegisteredHaPeersInSameGroup_def split: if_splits)
  from same_group_loop_mem [OF this assms(1)]
  have q: "hp_hostUid q \<noteq> anchor" "findGroupIdForHost gs (Some (hp_hostUid q)) = Some target" by simp_all
  have "mpl_peers p = merge_loop gs (flattenHostsFromGroups gs) target anchor nodes []"
    using assms(2) t by (auto simp: findHaPeersNeedingMerge_def Let_def split: if_splits)
  then have "\<forall>m \<in> set (mpl_peers p). findGroupIdForHost gs (Some (hp_hostUid m)) \<noteq> Some target"
    using merge_loop_mem [OF _ assms(1)] by fastforce
  with q t show ?thesis by auto
qed

text \<open>A cluster of three: the anchor, a peer beside it and a peer in another group.\<close>

definition cluster_host :: "string \<Rightarrow> string \<Rightarrow> host_info" where
  "cluster_host u addr = \<lparr>hi_uid = u, hi_id = ''admin'', hi_address = addr, hi_port = 8001,
     hi_alias = u, hi_initialLogin = False, hi_cmsSessionExpiresAt = None\<rparr>"

definition cluster_tree :: host_groups where
  "cluster_tree =
    [(''g1'', \<lparr>hg_name = ''A'', hg_hosts = [(''u1'', cluster_host ''u1'' ''db1''),
        (''u2'', cluster_host ''u2'' ''db2'')], hg_defaultHostUid = None\<rparr>),
     (''g2'', \<lparr>hg_name = ''B'', hg_hosts = [(''u3'', cluster_host ''u3'' ''db3'')], hg_defaultHostUid = None\<rparr>)]"

definition cluster_nodes :: "ha_node list" where
  "cluster_nodes = map (\<lambda>n. \<lparr>hn_ip = [], hn_hostname = n, hn_state = ''slave''\<rparr>) [''db1'', ''db2'', ''db3'']"

lemma cluster_plan: "findHaPeersNeedingMerge cluster_tree cluster_nodes ''u1'' =
   Some \<lparr>mpl_anchorHostUid = ''u1'', mpl_targetGroupId = ''g1'', mpl_targetGroupName = ''A'',
     mpl_peers = [\<lparr>hp_hostUid = ''u3'', hp_alias = ''u3'', hp_address = ''db3'', hp_port = 8001,
       hp_haRole = ''slave'', mp_fromGroupId = ''g2'', mp_fromGroupName = ''B''\<rparr>]\<rparr>"
  by code_simp

lemma merge_plan_exact_witness:
  "findGroupIdForHost cluster_tree (Some ''u1'') = Some ''g1'' \<and>
   {u. \<exists>node \<in> set cluster_nodes. \<exists>m. findHostMatchingHaPeer (flattenHostsFromGroups cluster_tree) node (Some ''u1'') = Some m
        \<and> hi_uid m = u \<and> (\<exists>g. findGroupIdForHost cluster_tree (Some u) = Some g \<and> g \<noteq> [] \<and> g \<noteq> ''g1'')} = {''u3''}"
proof -
  have a: "(''u1'' :: string) \<noteq> []" by simp
  have t: "findGroupIdForHost cluster_tree (Some ''u1'') = Some ''g1''" by code_simp
  show ?thesis using merge_plan_exact [OF a t refl, of cluster_nodes] t by (simp add: cluster_plan)
qed

lemma link_and_merge_disjoint_witness:
  "(\<exists>q :: ha_peer. q \<in> set (findRegisteredHaPeersInSameGroup cluster_tree cluster_nodes ''u1'')
      \<and> hp_hostUid q \<notin> hp_hostUid ` {\<lparr>hp_hostUid = ''u3'', hp_alias = ''u3'', hp_address = ''db3'',
          hp_port = 8001, hp_haRole = ''slave'', mp_fromGroupId = ''g2'', mp_fromGroupName = ''B''\<rparr>})"
proof -
  have a: "(''u1'' :: string) \<noteq> []" by simp
  have q: "\<lparr>hp_hostUid = ''u2'', hp_alias = ''u2'', hp_address = ''db2'', hp_port = 8001, hp_haRole = ''slave''\<rparr>
      \<in> set (findRegisteredHaPeersInSameGroup cluster_tree cluster_nodes ''u1'')"
    by code_simp
  from link_and_merge_disjoint [OF a cluster_plan q] q show ?thesis
    by (intro exI [of _ "\<lparr>hp_hostUid = ''u2'', hp_alias = ''u2'', hp_address = ''db2'', hp_port = 8001,
      hp_haRole = ''slave''\<rparr>"] conjI) simp_all
qed

end
