(* ===== verification/DatabaseCore.thy ===== *)
theory DatabaseCore
  imports JsPrelude
begin

text \<open>
  Model of \<open>apps/web-manager/src/features/database/databaseCoreSlice.js\<close> (and of \<open>dbKey.js\<close>):
  the database lists of every host, which database is logged in, and how the start-info
  responses, which may arrive late and out of order, are let into the state.

  A response is a \<open>js\<close> value, as the code tests its types at run time. A reducer that raises
  leaves the store as it was, so a dispatch is a sum. An assignment the code guards by comparing
  JSON texts (only so that an equal value keeps its identity) is modelled as the assignment. A
  missing \<open>hostUid\<close> or \<open>dbname\<close> is the empty string, which the code treats alike.
\<close>

section \<open>The state\<close>

record db_state =
  dc_databasesByHost :: "(string, js list) obj"
  dc_activeDatabasesByHost :: "(string, js list) obj"
  dc_navigatorDatabasesByHost :: "(string, js list) obj"
  dc_navigatorActiveDatabasesByHost :: "(string, js list) obj"
  dc_haDbNamesByHost :: "(string, js list) obj"
  dc_activeHostUid :: "string option"
  dc_selectedDatabase :: js
  dc_selectedDatabaseSubItem :: js
  dc_loggedInDatabases :: "string list"
  dc_loggingInDatabases :: "(string, bool) obj"
  dc_loginChangedSeq :: "(string, nat) obj"
  dc_loadingByHost :: "(string, bool) obj"
  dc_actionLoading :: bool
  dc_error :: "string option"
  dc_pendingReadsByHost :: "(string, (string, bool) obj) obj"
  dc_appliedLiveSeqByHost :: "(string, nat) obj"
  dc_appliedNavigatorSeqByHost :: "(string, nat) obj"

definition init_db_state :: db_state where
  "init_db_state =
    \<lparr>dc_databasesByHost = [], dc_activeDatabasesByHost = [], dc_navigatorDatabasesByHost = [],
     dc_navigatorActiveDatabasesByHost = [], dc_haDbNamesByHost = [], dc_activeHostUid = None,
     dc_selectedDatabase = Null, dc_selectedDatabaseSubItem = Null, dc_loggedInDatabases = [],
     dc_loggingInDatabases = [], dc_loginChangedSeq = [], dc_loadingByHost = [],
     dc_actionLoading = False, dc_error = None, dc_pendingReadsByHost = [],
     dc_appliedLiveSeqByHost = [], dc_appliedNavigatorSeqByHost = []\<rparr>"

definition dbKey :: "string \<Rightarrow> string \<Rightarrow> string" where
  "dbKey hostUid dbname = hostUid @ '':'' @ dbname"

text \<open>\<open>o[k] ?? 0\<close> and a flag that is falsy when missing.\<close>

definition get0 :: "(string, nat) obj \<Rightarrow> string \<Rightarrow> nat" where
  "get0 m k = (case map_of m k of None \<Rightarrow> 0 | Some n \<Rightarrow> n)"

definition flag :: "(string, bool) obj \<Rightarrow> string \<Rightarrow> bool" where
  "flag m k \<longleftrightarrow> map_of m k = Some True"

section \<open>Logins\<close>

definition noteLoginChange :: "string \<Rightarrow> string \<Rightarrow> nat \<Rightarrow> db_state \<Rightarrow> db_state" where
  "noteLoginChange hostUid dbname seq s =
     (if hostUid = [] \<or> dbname = [] then s
      else s\<lparr>dc_loginChangedSeq := obj_set (dbKey hostUid dbname) seq (dc_loginChangedSeq s)\<rparr>)"

definition addLogin :: "string \<Rightarrow> string \<Rightarrow> db_state \<Rightarrow> db_state" where
  "addLogin hostUid dbname s =
     s\<lparr>dc_loggedInDatabases := push_new (dbKey hostUid dbname) (dc_loggedInDatabases s)\<rparr>"

definition dropLogin :: "string \<Rightarrow> string \<Rightarrow> db_state \<Rightarrow> db_state" where
  "dropLogin hostUid dbname s =
     s\<lparr>dc_loggedInDatabases := filter (\<lambda>k. k \<noteq> dbKey hostUid dbname) (dc_loggedInDatabases s)\<rparr>"

definition markBulkSucceededLoggedIn :: "string \<Rightarrow> string list \<Rightarrow> nat \<Rightarrow> db_state \<Rightarrow> db_state" where
  "markBulkSucceededLoggedIn hostUid succeeded seq s =
     (if hostUid = [] then s
      else fold (\<lambda>dbname st. noteLoginChange hostUid dbname seq (addLogin hostUid dbname st)) succeeded s)"

fun js_keys :: "js \<Rightarrow> string list" where
  "js_keys (Obj ob) = obj_keys ob"
| "js_keys _ = []"

fun is_str :: "js \<Rightarrow> bool" where
  "is_str (Str _) = True"
| "is_str _ = False"

fun str_of :: "js \<Rightarrow> string" where
  "str_of (Str x) = x"
| "str_of _ = []"

text \<open>The entries of a response that carry a login state: objects with a string \<open>dbname\<close> and an
  \<open>isLoggedIn\<close> field (an array has neither).\<close>

definition login_entries :: "js \<Rightarrow> js list" where
  "login_entries payload =
     filter (\<lambda>e. is_str (js_get e ''dbname'') \<and> ''isLoggedIn'' \<in> set (js_keys e))
       (ensureArray (js_get (js_get payload ''dblist'') ''dbs'') @
        ensureArray (js_get (js_get payload ''activelist'') ''active''))"

text \<open>The source collects these in a set, in order; a name that comes twice is added once by
  \<open>syncLoggedInFromStartInfo\<close> anyway.\<close>

definition reported_logins :: "js list \<Rightarrow> string list" where
  "reported_logins entries =
     map (\<lambda>e. str_of (js_get e ''dbname''))
       (filter (\<lambda>e. js_get e ''isLoggedIn'' = Bool True) entries)"

definition changedSince :: "nat \<Rightarrow> db_state \<Rightarrow> string \<Rightarrow> bool" where
  "changedSince seq s key \<longleftrightarrow> get0 (dc_loginChangedSeq s) key > seq"

definition syncLoggedInFromStartInfo :: "js \<Rightarrow> string \<Rightarrow> nat \<Rightarrow> db_state \<Rightarrow> db_state" where
  "syncLoggedInFromStartInfo payload hostUid seq s =
     (let entries = login_entries payload
      in if hostUid = [] \<or> entries = [] then s
         else
           (let kept = filter (\<lambda>key. \<not> starts_with (dbKey hostUid []) key
                  \<or> flag (dc_loggingInDatabases s) key \<or> changedSince seq s key) (dc_loggedInDatabases s);
                next = fold (\<lambda>dbname acc. let key = dbKey hostUid dbname in
                  if changedSince seq s key then acc else push_new key acc) (reported_logins entries) kept
            in s\<lparr>dc_loggedInDatabases := next\<rparr>))"

section \<open>Parsing a response\<close>

text \<open>\<open>if (byHost[hostUid]?.length !== 0) byHost[hostUid] = []\<close>.\<close>

definition clearList :: "string \<Rightarrow> (string, js list) obj \<Rightarrow> (string, js list) obj" where
  "clearList hostUid byHost = (if map_of byHost hostUid = Some [] then byHost else obj_set hostUid [] byHost)"

definition active_names :: "js \<Rightarrow> js list" where
  "active_names activeFound =
     filter truthy (map (\<lambda>d. if is_str d then d else js_get d ''dbname'') (ensureArray activeFound))"

definition set_active :: "js \<Rightarrow> string \<Rightarrow> bool \<Rightarrow> bool \<Rightarrow> db_state \<Rightarrow> db_state" where
  "set_active payload hostUid updateLive updateNavigator s =
     (let activelist = js_get payload ''activelist''
      in if activelist = Undefined then s
         else
           (let newActive = active_names (js_get activelist ''active'');
                s1 = (if updateLive
                      then s\<lparr>dc_activeDatabasesByHost := obj_set hostUid newActive (dc_activeDatabasesByHost s)\<rparr>
                      else s)
            in if updateNavigator
               then s1\<lparr>dc_navigatorActiveDatabasesByHost :=
                         obj_set hostUid newActive (dc_navigatorActiveDatabasesByHost s1)\<rparr>
               else s1))"

text \<open>The list entry for a database only the active list reports.\<close>

definition missing_entry :: "js \<Rightarrow> js \<Rightarrow> js" where
  "missing_entry activeFound dbname =
     (case find (\<lambda>a. (case a of Obj _ \<Rightarrow> True | _ \<Rightarrow> False) \<and> js_get a ''dbname'' = dbname)
             (case activeFound of Arr vs \<Rightarrow> vs | v \<Rightarrow> [v]) of
        Some a \<Rightarrow>
          if ''isLoggedIn'' \<in> set (js_keys a) then
            Obj [(''dbname'', dbname),
                 (''isProfileExists'', Bool (js_get a ''isProfileExists'' = Bool True)),
                 (''isLoggedIn'', js_get a ''isLoggedIn''),
                 (''isLoggedOut'', Bool (js_get a ''isLoggedOut'' = Bool True))]
          else Obj [(''dbname'', dbname), (''isProfileExists'', Bool False)]
      | None \<Rightarrow> Obj [(''dbname'', dbname), (''isProfileExists'', Bool False)])"

text \<open>\<open>activeNames\<close> are those of this response, or else the host's last known ones.\<close>

definition merged_list :: "js \<Rightarrow> js list \<Rightarrow> js_error + js list" where
  "merged_list payload lastActive =
     (let dbsFound = js_get (js_get payload ''dblist'') ''dbs'';
          activelist = js_get payload ''activelist'';
          activeFound = js_get activelist ''active'';
          rawList = ensureArray dbsFound;
          activeNames = (if activelist = Undefined then lastActive else active_names activeFound)
      in res_bind (res_map (\<lambda>db. js_dot db ''dbname'') rawList) (\<lambda>knownNames.
           Inr (rawList @ map (missing_entry activeFound)
                 (filter (\<lambda>name. name \<notin> set knownNames) activeNames))))"

definition set_databases :: "js \<Rightarrow> string \<Rightarrow> bool \<Rightarrow> bool \<Rightarrow> db_state \<Rightarrow> js_error + db_state" where
  "set_databases payload hostUid updateLive updateNavigator s =
     (if js_get (js_get payload ''dblist'') ''dbs'' = Undefined then Inr s
      else res_bind (merged_list payload
               (case map_of (dc_activeDatabasesByHost s) hostUid of None \<Rightarrow> [] | Some xs \<Rightarrow> xs)) (\<lambda>merged.
        let s1 = (if updateLive
                  then s\<lparr>dc_databasesByHost := obj_set hostUid merged (dc_databasesByHost s)\<rparr> else s)
        in Inr (if updateNavigator
                then s1\<lparr>dc_navigatorDatabasesByHost := obj_set hostUid merged (dc_navigatorDatabasesByHost s1)\<rparr>
                else s1)))"

text \<open>\<open>dbs.find(db => db.dbname === name)\<close>, which raises on a missing element it reaches.\<close>

fun find_db :: "js \<Rightarrow> js list \<Rightarrow> js_error + bool" where
  "find_db name [] = Inr False"
| "find_db name (db # dbs) =
     res_bind (js_dot db ''dbname'') (\<lambda>n. if n = name then Inr True else find_db name dbs)"

definition check_selection :: "js \<Rightarrow> string \<Rightarrow> db_state \<Rightarrow> js_error + db_state" where
  "check_selection payload hostUid s =
     (if truthy (js_get (js_get payload ''dblist'') ''dbs'') \<and> dc_activeHostUid s = Some hostUid then
        res_bind (find_db (dc_selectedDatabase s)
            (case map_of (dc_databasesByHost s) hostUid of None \<Rightarrow> [] | Some xs \<Rightarrow> xs)) (\<lambda>exists.
          Inr (if exists then s
               else s\<lparr>dc_selectedDatabase := Null, dc_selectedDatabaseSubItem := Null\<rparr>))
      else Inr s)"

definition set_haDbNames :: "js \<Rightarrow> string \<Rightarrow> db_state \<Rightarrow> db_state" where
  "set_haDbNames payload hostUid s =
     (case js_get payload ''haDbNames'' of
        Undefined \<Rightarrow> s
      | Arr vs \<Rightarrow> s\<lparr>dc_haDbNamesByHost := obj_set hostUid vs (dc_haDbNamesByHost s)\<rparr>
      | _ \<Rightarrow> s\<lparr>dc_haDbNamesByHost := obj_set hostUid [] (dc_haDbNamesByHost s)\<rparr>)"

definition parseDbResponse ::
  "js \<Rightarrow> string \<Rightarrow> bool \<Rightarrow> bool \<Rightarrow> nat \<Rightarrow> db_state \<Rightarrow> js_error + db_state" where
  "parseDbResponse payload hostUid updateLive updateNavigator seq s =
     (if \<not> truthy payload then Inr s
      else res_bind (set_databases payload hostUid updateLive updateNavigator
                       (set_active payload hostUid updateLive updateNavigator s)) (\<lambda>s1.
           res_bind (check_selection payload hostUid s1) (\<lambda>s2.
           Inr (if updateLive
                then set_haDbNames payload hostUid (syncLoggedInFromStartInfo payload hostUid seq s2)
                else s2))))"

section \<open>Reads and responses\<close>

definition pendingReads :: "db_state \<Rightarrow> string \<Rightarrow> (string, bool) obj" where
  "pendingReads s hostUid =
     (case map_of (dc_pendingReadsByHost s) hostUid of None \<Rightarrow> [] | Some r \<Rightarrow> r)"

definition startRead :: "string \<Rightarrow> string \<Rightarrow> bool \<Rightarrow> db_state \<Rightarrow> db_state" where
  "startRead hostUid requestId foreground s =
     (let s1 = s\<lparr>dc_pendingReadsByHost :=
             obj_set hostUid (obj_set requestId foreground (pendingReads s hostUid)) (dc_pendingReadsByHost s)\<rparr>
      in if foreground then s1\<lparr>dc_loadingByHost := obj_set hostUid True (dc_loadingByHost s1)\<rparr> else s1)"

text \<open>\<open>None\<close>: the read no longer belongs to the host's connection (the source returns false).\<close>

definition settleRead :: "string \<Rightarrow> string \<Rightarrow> db_state \<Rightarrow> db_state option" where
  "settleRead hostUid requestId s =
     (case map_of (pendingReads s hostUid) requestId of
        None \<Rightarrow> None
      | Some foreground \<Rightarrow>
          (let reads = obj_del requestId (pendingReads s hostUid);
               s1 = s\<lparr>dc_pendingReadsByHost := obj_set hostUid reads (dc_pendingReadsByHost s)\<rparr>
           in Some (if foreground
                    then s1\<lparr>dc_loadingByHost := obj_set hostUid (list_ex id (obj_vals reads)) (dc_loadingByHost s1)\<rparr>
                    else s1)))"

definition applyStartInfo ::
  "string \<Rightarrow> js \<Rightarrow> nat option \<Rightarrow> bool \<Rightarrow> db_state \<Rightarrow> js_error + db_state" where
  "applyStartInfo hostUid payload seqOpt isBackground s =
     (case seqOpt of
        None \<Rightarrow> Inr s
      | Some seq \<Rightarrow>
          if hostUid = [] then Inr s
          else
            (let updateLive = seq > get0 (dc_appliedLiveSeqByHost s) hostUid;
                 updateNavigator = (\<not> isBackground \<and> seq > get0 (dc_appliedNavigatorSeqByHost s) hostUid);
                 s1 = (if updateLive
                       then s\<lparr>dc_appliedLiveSeqByHost := obj_set hostUid seq (dc_appliedLiveSeqByHost s)\<rparr> else s);
                 s2 = (if updateNavigator
                       then s1\<lparr>dc_appliedNavigatorSeqByHost := obj_set hostUid seq (dc_appliedNavigatorSeqByHost s1)\<rparr>
                       else s1)
             in if updateLive \<or> updateNavigator
                then parseDbResponse payload hostUid updateLive updateNavigator seq s2
                else Inr s2))"

definition readFailed :: "string \<Rightarrow> string \<Rightarrow> nat \<Rightarrow> db_state \<Rightarrow> db_state" where
  "readFailed hostUid e seq s =
     (let s1 = (if seq > get0 (dc_appliedLiveSeqByHost s) hostUid
           then s\<lparr>dc_appliedLiveSeqByHost := obj_set hostUid seq (dc_appliedLiveSeqByHost s),
                  dc_databasesByHost := clearList hostUid (dc_databasesByHost s),
                  dc_activeDatabasesByHost := clearList hostUid (dc_activeDatabasesByHost s)\<rparr>
           else s)
      in if seq > get0 (dc_appliedNavigatorSeqByHost s1) hostUid
         then s1\<lparr>dc_appliedNavigatorSeqByHost := obj_set hostUid seq (dc_appliedNavigatorSeqByHost s1),
                 dc_error := Some e,
                 dc_navigatorDatabasesByHost := clearList hostUid (dc_navigatorDatabasesByHost s1),
                 dc_navigatorActiveDatabasesByHost := clearList hostUid (dc_navigatorActiveDatabasesByHost s1)\<rparr>
         else s1)"

section \<open>The actions\<close>

text \<open>
  A start-info read names its host, its request and whether it is a background poll; it settles
  with the sequence number of the request (\<open>None\<close> when the thunk itself failed). The other
  thunks settle with the number drawn when the call returned. \<open>loginDatabase.fulfilled\<close> names
  the database the server answered for.
\<close>

datatype db_action =
    SetSelectedDatabase js
  | SetSelectedDatabaseSubItem js
  | ClearDatabaseError
  | ResetDatabaseState string
  | ClearDatabaseLoginsForHost string
  | ClearDatabaseLogin string string nat
  | ReadPending string string bool
  | ReadFulfilled string string bool js "nat option"
  | ReadRejected string string bool string "nat option"
  | StartDatabase string string "(js \<times> nat, string) phase"
  | StopDatabase string string "(js \<times> nat, string) phase"
  | StartAllDatabases string "(string list \<times> nat, string) phase"
  | StopAllDatabases string "(string list \<times> nat, string) phase"
  | RunSelectedDatabases string "(string list \<times> nat, string) phase"
  | LoginDatabase string string bool "(string \<times> nat, string) phase"
  | LogoutDatabase string "(string \<times> nat, string) phase"
  | RegisterDatabase string "(js \<times> nat, string) phase"
  | DeleteDatabaseProfile string "(string \<times> js \<times> nat, string) phase"
  | HostSelected "string option"
  | CloseHostTabs string "nat option"

definition action_pending :: "db_state \<Rightarrow> db_state" where
  "action_pending s = s\<lparr>dc_actionLoading := True, dc_error := None\<rparr>"

definition action_rejected :: "string \<Rightarrow> db_state \<Rightarrow> db_state" where
  "action_rejected e s = s\<lparr>dc_actionLoading := False, dc_error := Some e\<rparr>"

text \<open>\<open>startDatabase\<close> and \<open>stopDatabase\<close>: the response is a start-info, and the database went
  through the server's login gate.\<close>

fun reduce_startStop :: "string \<Rightarrow> string \<Rightarrow> (js \<times> nat, string) phase \<Rightarrow> db_state \<Rightarrow> js_error + db_state" where
  "reduce_startStop hostUid dbname Pending s = Inr (action_pending s)"
| "reduce_startStop hostUid dbname (Fulfilled (payload, seq)) s =
     res_bind (applyStartInfo hostUid payload (Some seq) False (s\<lparr>dc_actionLoading := False\<rparr>)) (\<lambda>s1.
       Inr (if hostUid \<noteq> [] \<and> dbname \<noteq> []
            then noteLoginChange hostUid dbname seq (addLogin hostUid dbname s1) else s1))"
| "reduce_startStop hostUid dbname (Rejected e) s = Inr (action_rejected e s)"

fun reduce_bulk :: "string \<Rightarrow> (string list \<times> nat, string) phase \<Rightarrow> db_state \<Rightarrow> db_state" where
  "reduce_bulk hostUid Pending s = action_pending s"
| "reduce_bulk hostUid (Fulfilled (succeeded, seq)) s =
     markBulkSucceededLoggedIn hostUid succeeded seq (s\<lparr>dc_actionLoading := False\<rparr>)"
| "reduce_bulk hostUid (Rejected e) s = action_rejected e s"

fun reduce_login :: "string \<Rightarrow> string \<Rightarrow> bool \<Rightarrow> (string \<times> nat, string) phase \<Rightarrow> db_state \<Rightarrow> db_state" where
  "reduce_login hostUid dbname isBackground Pending s =
     (let s1 = (if isBackground then s else s\<lparr>dc_actionLoading := True\<rparr>);
          s2 = (if dbname = [] then s1
                else s1\<lparr>dc_loggingInDatabases := obj_set (dbKey hostUid dbname) True (dc_loggingInDatabases s1)\<rparr>)
      in s2\<lparr>dc_error := None\<rparr>)"
| "reduce_login hostUid dbname isBackground (Fulfilled (name, seq)) s =
     (let s1 = s\<lparr>dc_actionLoading := False\<rparr>;
          s2 = (if name = [] then s1
                else s1\<lparr>dc_loggingInDatabases := obj_set (dbKey hostUid name) False (dc_loggingInDatabases s1)\<rparr>)
      in noteLoginChange hostUid name seq (addLogin hostUid name s2))"
| "reduce_login hostUid dbname isBackground (Rejected e) s =
     (let s1 = s\<lparr>dc_actionLoading := False\<rparr>;
          s2 = (if dbname = [] then s1
                else s1\<lparr>dc_loggingInDatabases := obj_set (dbKey hostUid dbname) False (dc_loggingInDatabases s1)\<rparr>)
      in s2\<lparr>dc_error := Some e\<rparr>)"

fun reduce_logout :: "string \<Rightarrow> (string \<times> nat, string) phase \<Rightarrow> db_state \<Rightarrow> db_state" where
  "reduce_logout hostUid Pending s = action_pending s"
| "reduce_logout hostUid (Fulfilled (dbname, seq)) s =
     noteLoginChange hostUid dbname seq (dropLogin hostUid dbname (s\<lparr>dc_actionLoading := False\<rparr>))"
| "reduce_logout hostUid (Rejected e) s = action_rejected e s"

definition applyIfAny :: "string \<Rightarrow> js \<Rightarrow> nat \<Rightarrow> db_state \<Rightarrow> js_error + db_state" where
  "applyIfAny hostUid response seq s =
     (if truthy response then applyStartInfo hostUid response (Some seq) False s else Inr s)"

fun reduce_register :: "string \<Rightarrow> (js \<times> nat, string) phase \<Rightarrow> db_state \<Rightarrow> js_error + db_state" where
  "reduce_register hostUid Pending s = Inr (action_pending s)"
| "reduce_register hostUid (Fulfilled (response, seq)) s =
     applyIfAny hostUid response seq (s\<lparr>dc_actionLoading := False\<rparr>)"
| "reduce_register hostUid (Rejected e) s = Inr (action_rejected e s)"

fun reduce_deleteProfile ::
  "string \<Rightarrow> (string \<times> js \<times> nat, string) phase \<Rightarrow> db_state \<Rightarrow> js_error + db_state" where
  "reduce_deleteProfile hostUid Pending s = Inr (action_pending s)"
| "reduce_deleteProfile hostUid (Fulfilled (dbname, response, seq)) s =
     applyIfAny hostUid response seq
       (noteLoginChange hostUid dbname seq (dropLogin hostUid dbname (s\<lparr>dc_actionLoading := False\<rparr>)))"
| "reduce_deleteProfile hostUid (Rejected e) s = Inr (action_rejected e s)"

definition evictLists :: "string \<Rightarrow> db_state \<Rightarrow> db_state" where
  "evictLists hostUid s =
     s\<lparr>dc_databasesByHost := obj_del hostUid (dc_databasesByHost s),
       dc_activeDatabasesByHost := obj_del hostUid (dc_activeDatabasesByHost s),
       dc_navigatorDatabasesByHost := obj_del hostUid (dc_navigatorDatabasesByHost s),
       dc_navigatorActiveDatabasesByHost := obj_del hostUid (dc_navigatorActiveDatabasesByHost s),
       dc_haDbNamesByHost := obj_del hostUid (dc_haDbNamesByHost s)\<rparr>"

definition resetDatabaseState :: "string \<Rightarrow> db_state \<Rightarrow> db_state" where
  "resetDatabaseState hostUid s =
     (if hostUid \<noteq> [] then evictLists hostUid s
      else s\<lparr>dc_databasesByHost := [], dc_activeDatabasesByHost := [],
             dc_navigatorDatabasesByHost := [], dc_navigatorActiveDatabasesByHost := [],
             dc_haDbNamesByHost := []\<rparr>)
       \<lparr>dc_selectedDatabase := Null, dc_selectedDatabaseSubItem := Null, dc_error := None\<rparr>"

definition clearDatabaseLoginsForHost :: "string \<Rightarrow> db_state \<Rightarrow> db_state" where
  "clearDatabaseLoginsForHost hostUid s =
     (if hostUid = [] then s
      else s\<lparr>dc_loggedInDatabases :=
               filter (\<lambda>key. \<not> starts_with (hostUid @ '':'') key) (dc_loggedInDatabases s),
             dc_loggingInDatabases :=
               obj_prune (\<lambda>key. \<not> starts_with (hostUid @ '':'') key) (dc_loggingInDatabases s)\<rparr>)"

definition clearDatabaseLogin :: "string \<Rightarrow> string \<Rightarrow> nat \<Rightarrow> db_state \<Rightarrow> db_state" where
  "clearDatabaseLogin hostUid dbname seq s =
     (if hostUid = [] \<or> dbname = [] then s
      else noteLoginChange hostUid dbname seq
        ((dropLogin hostUid dbname s)
           \<lparr>dc_loggingInDatabases := obj_del (dbKey hostUid dbname) (dc_loggingInDatabases s)\<rparr>))"

definition closeHostTabs :: "string \<Rightarrow> nat option \<Rightarrow> db_state \<Rightarrow> db_state" where
  "closeHostTabs hostUid seqOpt s =
     (let s1 = evictLists hostUid s;
          s2 = (case seqOpt of
             Some seq \<Rightarrow>
               s1\<lparr>dc_appliedLiveSeqByHost := obj_set hostUid seq (dc_appliedLiveSeqByHost s1),
                  dc_appliedNavigatorSeqByHost := obj_set hostUid seq (dc_appliedNavigatorSeqByHost s1)\<rparr>
           | None \<Rightarrow>
               s1\<lparr>dc_appliedLiveSeqByHost := obj_del hostUid (dc_appliedLiveSeqByHost s1),
                  dc_appliedNavigatorSeqByHost := obj_del hostUid (dc_appliedNavigatorSeqByHost s1)\<rparr>)
      in s2\<lparr>dc_pendingReadsByHost := obj_del hostUid (dc_pendingReadsByHost s2),
            dc_loadingByHost := obj_del hostUid (dc_loadingByHost s2)\<rparr>)"

fun db_reduce :: "db_action \<Rightarrow> db_state \<Rightarrow> js_error + db_state" where
  "db_reduce (SetSelectedDatabase v) s =
     Inr (if dc_selectedDatabase s \<noteq> v
          then s\<lparr>dc_selectedDatabase := v, dc_selectedDatabaseSubItem := Null\<rparr> else s)"
| "db_reduce (SetSelectedDatabaseSubItem v) s = Inr (s\<lparr>dc_selectedDatabaseSubItem := v\<rparr>)"
| "db_reduce ClearDatabaseError s = Inr (s\<lparr>dc_error := None\<rparr>)"
| "db_reduce (ResetDatabaseState h) s = Inr (resetDatabaseState h s)"
| "db_reduce (ClearDatabaseLoginsForHost h) s = Inr (clearDatabaseLoginsForHost h s)"
| "db_reduce (ClearDatabaseLogin h d seq) s = Inr (clearDatabaseLogin h d seq s)"
| "db_reduce (ReadPending h req isBackground) s =
     Inr ((startRead h req (\<not> isBackground) s)\<lparr>dc_error := None\<rparr>)"
| "db_reduce (ReadFulfilled h req isBackground payload seq) s =
     (case settleRead h req s of
        None \<Rightarrow> Inr s
      | Some s1 \<Rightarrow> applyStartInfo h payload seq isBackground s1)"
| "db_reduce (ReadRejected h req isBackground e seqOpt) s =
     (case settleRead h req s of
        None \<Rightarrow> Inr s
      | Some s1 \<Rightarrow> (case seqOpt of
            None \<Rightarrow> Inr s1
          | Some seq \<Rightarrow> Inr (if isBackground then s1 else readFailed h e seq s1)))"
| "db_reduce (StartDatabase h d p) s = reduce_startStop h d p s"
| "db_reduce (StopDatabase h d p) s = reduce_startStop h d p s"
| "db_reduce (StartAllDatabases h p) s = Inr (reduce_bulk h p s)"
| "db_reduce (StopAllDatabases h p) s = Inr (reduce_bulk h p s)"
| "db_reduce (RunSelectedDatabases h p) s = Inr (reduce_bulk h p s)"
| "db_reduce (LoginDatabase h d isBackground p) s = Inr (reduce_login h d isBackground p s)"
| "db_reduce (LogoutDatabase h p) s = Inr (reduce_logout h p s)"
| "db_reduce (RegisterDatabase h p) s = reduce_register h p s"
| "db_reduce (DeleteDatabaseProfile h p) s = reduce_deleteProfile h p s"
| "db_reduce (HostSelected u) s = Inr (s\<lparr>dc_activeHostUid := u\<rparr>)"
| "db_reduce (CloseHostTabs h seqOpt) s = Inr (closeHostTabs h seqOpt s)"

text \<open>One dispatch: a reducer that raises leaves the state.\<close>

definition db_dispatch :: "db_action \<Rightarrow> db_state \<Rightarrow> db_state" where
  "db_dispatch a s = (case db_reduce a s of Inl _ \<Rightarrow> s | Inr s' \<Rightarrow> s')"

end
