(* ===== verification/DatabaseFacts.thy ===== *)
theory DatabaseFacts
  imports DatabaseCore
begin

text \<open>
  Properties of the database slice (model in \<open>DatabaseCore\<close>). The store is run together with the
  module's sequence counter (\<open>nextSeq\<close> of \<open>singleFlight.js\<close>): an action carries a number drawn
  before it, a request id is never used twice at a time, and closing a host draws a number of its
  own, as \<open>layoutSlice.js\<close> does.
\<close>

section \<open>What the parts of a response leave alone\<close>

lemma noteLogin_frame [simp]:
  "dc_loggedInDatabases (noteLoginChange h d q s) = dc_loggedInDatabases s"
  "dc_loggingInDatabases (noteLoginChange h d q s) = dc_loggingInDatabases s"
  "dc_databasesByHost (noteLoginChange h d q s) = dc_databasesByHost s"
  "dc_activeDatabasesByHost (noteLoginChange h d q s) = dc_activeDatabasesByHost s"
  "dc_navigatorDatabasesByHost (noteLoginChange h d q s) = dc_navigatorDatabasesByHost s"
  "dc_navigatorActiveDatabasesByHost (noteLoginChange h d q s) = dc_navigatorActiveDatabasesByHost s"
  "dc_pendingReadsByHost (noteLoginChange h d q s) = dc_pendingReadsByHost s"
  "dc_loadingByHost (noteLoginChange h d q s) = dc_loadingByHost s"
  "dc_appliedLiveSeqByHost (noteLoginChange h d q s) = dc_appliedLiveSeqByHost s"
  "dc_appliedNavigatorSeqByHost (noteLoginChange h d q s) = dc_appliedNavigatorSeqByHost s"
  by (simp_all add: noteLoginChange_def)

text \<open>A step that does not touch the bookkeeping of reads.\<close>

definition same_reads :: "db_state \<Rightarrow> db_state \<Rightarrow> bool" where
  "same_reads s s' \<longleftrightarrow> dc_pendingReadsByHost s' = dc_pendingReadsByHost s
     \<and> dc_loadingByHost s' = dc_loadingByHost s"

definition same_marks :: "db_state \<Rightarrow> db_state \<Rightarrow> bool" where
  "same_marks s s' \<longleftrightarrow> dc_appliedLiveSeqByHost s' = dc_appliedLiveSeqByHost s
     \<and> dc_appliedNavigatorSeqByHost s' = dc_appliedNavigatorSeqByHost s"

definition same_navigator :: "db_state \<Rightarrow> db_state \<Rightarrow> bool" where
  "same_navigator s s' \<longleftrightarrow> dc_navigatorDatabasesByHost s' = dc_navigatorDatabasesByHost s
     \<and> dc_navigatorActiveDatabasesByHost s' = dc_navigatorActiveDatabasesByHost s"

definition same_live :: "db_state \<Rightarrow> db_state \<Rightarrow> bool" where
  "same_live s s' \<longleftrightarrow> dc_databasesByHost s' = dc_databasesByHost s
     \<and> dc_activeDatabasesByHost s' = dc_activeDatabasesByHost s
     \<and> dc_haDbNamesByHost s' = dc_haDbNamesByHost s
     \<and> dc_loggedInDatabases s' = dc_loggedInDatabases s"

definition same_changes :: "db_state \<Rightarrow> db_state \<Rightarrow> bool" where
  "same_changes s s' \<longleftrightarrow> dc_loginChangedSeq s' = dc_loginChangedSeq s
     \<and> dc_loggingInDatabases s' = dc_loggingInDatabases s"

lemmas same_defs = same_reads_def same_marks_def same_navigator_def same_live_def same_changes_def

text \<open>The lists of every other host.\<close>

definition lists_of :: "db_state \<Rightarrow> string \<Rightarrow> js list option \<times> js list option \<times> js list option \<times> js list option \<times> js list option" where
  "lists_of s h = (map_of (dc_databasesByHost s) h, map_of (dc_activeDatabasesByHost s) h,
     map_of (dc_navigatorDatabasesByHost s) h, map_of (dc_navigatorActiveDatabasesByHost s) h,
     map_of (dc_haDbNamesByHost s) h)"

definition lists_wf :: "db_state \<Rightarrow> bool" where
  "lists_wf s \<longleftrightarrow> obj_wf (dc_databasesByHost s) \<and> obj_wf (dc_activeDatabasesByHost s)
     \<and> obj_wf (dc_navigatorDatabasesByHost s) \<and> obj_wf (dc_navigatorActiveDatabasesByHost s)
     \<and> obj_wf (dc_haDbNamesByHost s)"

lemma set_active_frame:
  "same_reads s (set_active p h l n s)" "same_marks s (set_active p h l n s)"
  "same_changes s (set_active p h l n s)"
  "\<not> n \<Longrightarrow> same_navigator s (set_active p h l n s)" "\<not> l \<Longrightarrow> same_live s (set_active p h l n s)"
  "h' \<noteq> h \<Longrightarrow> lists_of (set_active p h l n s) h' = lists_of s h'"
  "lists_wf s \<Longrightarrow> lists_wf (set_active p h l n s)"
  "dc_loggedInDatabases (set_active p h l n s) = dc_loggedInDatabases s"
  by (simp_all add: set_active_def Let_def same_defs lists_of_def lists_wf_def map_of_obj_set obj_wf_set)

lemma set_databases_frame:
  assumes "set_databases p h l n s = Inr s'"
  shows "same_reads s s'" "same_marks s s'" "same_changes s s'"
    "\<not> n \<Longrightarrow> same_navigator s s'" "\<not> l \<Longrightarrow> same_live s s'"
    "h' \<noteq> h \<Longrightarrow> lists_of s' h' = lists_of s h'" "lists_wf s \<Longrightarrow> lists_wf s'"
    "dc_loggedInDatabases s' = dc_loggedInDatabases s"
  using assms
  by (auto simp: set_databases_def res_bind_eq_Inr Let_def same_defs lists_of_def lists_wf_def
      map_of_obj_set obj_wf_set split: if_splits)

lemma check_selection_frame:
  assumes "check_selection p h s = Inr s'"
  shows "same_reads s s'" "same_marks s s'" "same_changes s s'" "same_navigator s s'" "same_live s s'"
    "lists_of s' h' = lists_of s h'" "lists_wf s \<Longrightarrow> lists_wf s'"
    "dc_loggedInDatabases s' = dc_loggedInDatabases s"
  using assms
  by (auto simp: check_selection_def res_bind_eq_Inr same_defs lists_of_def lists_wf_def split: if_splits)

lemma set_haDbNames_frame:
  "same_reads s (set_haDbNames p h s)" "same_marks s (set_haDbNames p h s)"
  "same_changes s (set_haDbNames p h s)" "same_navigator s (set_haDbNames p h s)"
  "h' \<noteq> h \<Longrightarrow> lists_of (set_haDbNames p h s) h' = lists_of s h'"
  "lists_wf s \<Longrightarrow> lists_wf (set_haDbNames p h s)"
  "dc_loggedInDatabases (set_haDbNames p h s) = dc_loggedInDatabases s"
  by (auto simp: set_haDbNames_def same_defs lists_of_def lists_wf_def map_of_obj_set obj_wf_set split: js.split)

lemma sync_frame:
  "same_reads s (syncLoggedInFromStartInfo p h q s)" "same_marks s (syncLoggedInFromStartInfo p h q s)"
  "same_changes s (syncLoggedInFromStartInfo p h q s)" "same_navigator s (syncLoggedInFromStartInfo p h q s)"
  "lists_of (syncLoggedInFromStartInfo p h q s) h' = lists_of s h'"
  "lists_wf s \<Longrightarrow> lists_wf (syncLoggedInFromStartInfo p h q s)"
  by (simp_all add: syncLoggedInFromStartInfo_def Let_def same_defs lists_of_def lists_wf_def)

lemma distinct_fold_push:
  "distinct xs \<Longrightarrow> distinct (fold (\<lambda>y acc. let k = f y in if P k then acc else push_new k acc) ys xs)"
  by (induction ys arbitrary: xs) (auto simp: Let_def intro: distinct_push_new)

lemma set_fold_push:
  "set (fold (\<lambda>y acc. let k = f y in if P k then acc else push_new k acc) ys xs) =
     set xs \<union> {k \<in> f ` set ys. \<not> P k}"
  by (induction ys arbitrary: xs) (auto simp: Let_def)

lemma sync_distinct:
  "distinct (dc_loggedInDatabases s) \<Longrightarrow> distinct (dc_loggedInDatabases (syncLoggedInFromStartInfo p h q s))"
  by (simp add: syncLoggedInFromStartInfo_def Let_def distinct_fold_push [unfolded Let_def])

lemma parse_frame:
  assumes "parseDbResponse p h l n q s = Inr s'"
  shows "same_reads s s'" "same_marks s s'" "same_changes s s'"
    "\<not> n \<Longrightarrow> same_navigator s s'" "\<not> l \<Longrightarrow> same_live s s'"
    "h' \<noteq> h \<Longrightarrow> lists_of s' h' = lists_of s h'" "lists_wf s \<Longrightarrow> lists_wf s'"
    "distinct (dc_loggedInDatabases s) \<Longrightarrow> distinct (dc_loggedInDatabases s')"
proof -
  have "s' = s \<or> (\<exists>s1 s2. set_databases p h l n (set_active p h l n s) = Inr s1
      \<and> check_selection p h s1 = Inr s2
      \<and> s' = (if l then set_haDbNames p h (syncLoggedInFromStartInfo p h q s2) else s2))"
    using assms by (auto simp: parseDbResponse_def res_bind_eq_Inr split: if_splits)
  then show "same_reads s s'" "same_marks s s'" "same_changes s s'"
    "\<not> n \<Longrightarrow> same_navigator s s'" "\<not> l \<Longrightarrow> same_live s s'"
    "h' \<noteq> h \<Longrightarrow> lists_of s' h' = lists_of s h'" "lists_wf s \<Longrightarrow> lists_wf s'"
    "distinct (dc_loggedInDatabases s) \<Longrightarrow> distinct (dc_loggedInDatabases s')"
  proof (atomize (full), elim disjE exE conjE, goal_cases)
    case 1
    then show ?case by (simp add: same_defs)
  next
    case (2 s1 s2)
    let ?a = "set_active p h l n s" and ?y = "syncLoggedInFromStartInfo p h q s2"
    note f = set_active_frame [where s = s and p = p and h = h and l = l and n = n]
      set_databases_frame [OF 2(1)] check_selection_frame [OF 2(2)]
      set_haDbNames_frame [where s = ?y and p = p and h = h]
      sync_frame [where s = s2 and p = p and h = h and q = q]
      sync_distinct [where s = s2 and p = p and h = h and q = q]
    show ?case
      unfolding 2(3) using f by (cases l; cases n) (simp_all add: same_defs)
  qed
qed

section \<open>Sequence numbers\<close>

lemma get0_set [simp]: "get0 (obj_set k v m) k' = (if k' = k then v else get0 m k')"
  by (simp add: get0_def map_of_obj_set)

lemma get0_del [simp]: "get0 (obj_del k m) k' = (if k' = k then 0 else get0 m k')"
  by (simp add: get0_def map_of_obj_del)

text \<open>The applied numbers only grow, and only up to \<open>q\<close>.\<close>

definition marks_grow :: "nat \<Rightarrow> db_state \<Rightarrow> db_state \<Rightarrow> bool" where
  "marks_grow q s s' \<longleftrightarrow> (\<forall>k.
     get0 (dc_appliedLiveSeqByHost s) k \<le> get0 (dc_appliedLiveSeqByHost s') k \<and>
     get0 (dc_appliedLiveSeqByHost s') k \<le> max q (get0 (dc_appliedLiveSeqByHost s) k) \<and>
     get0 (dc_appliedNavigatorSeqByHost s) k \<le> get0 (dc_appliedNavigatorSeqByHost s') k \<and>
     get0 (dc_appliedNavigatorSeqByHost s') k \<le> max q (get0 (dc_appliedNavigatorSeqByHost s) k))"

lemma marks_grow_same: "same_marks s s' \<Longrightarrow> marks_grow q s s'"
  by (simp add: marks_grow_def same_marks_def)

definition seq_or0 :: "nat option \<Rightarrow> nat" where
  "seq_or0 so = (case so of None \<Rightarrow> 0 | Some q \<Rightarrow> q)"

lemma apply_frame:
  assumes "applyStartInfo h p so bg s = Inr s'"
  shows "same_reads s s'" "same_changes s s'" "bg \<Longrightarrow> same_navigator s s'"
    "h' \<noteq> h \<Longrightarrow> lists_of s' h' = lists_of s h'" "lists_wf s \<Longrightarrow> lists_wf s'"
    "distinct (dc_loggedInDatabases s) \<Longrightarrow> distinct (dc_loggedInDatabases s')"
    "marks_grow (seq_or0 so) s s'"
    "so = Some q \<Longrightarrow> q \<le> get0 (dc_appliedLiveSeqByHost s) h \<Longrightarrow> same_live s s'"
    "so = Some q \<Longrightarrow> q \<le> get0 (dc_appliedNavigatorSeqByHost s) h \<Longrightarrow> same_navigator s s'"
proof (atomize (full), goal_cases)
  case 1
  show ?case
  proof (cases "so = None \<or> h = []")
    case True
    with assms have "s' = s" by (auto simp: applyStartInfo_def split: option.splits)
    then show ?thesis by (simp add: same_defs marks_grow_def)
  next
    case False
    then obtain r where so: "so = Some r" "h \<noteq> []" by auto
    define l where "l \<longleftrightarrow> r > get0 (dc_appliedLiveSeqByHost s) h"
    define n where "n \<longleftrightarrow> \<not> bg \<and> r > get0 (dc_appliedNavigatorSeqByHost s) h"
    define s1 where "s1 = (if l then s\<lparr>dc_appliedLiveSeqByHost := obj_set h r (dc_appliedLiveSeqByHost s)\<rparr> else s)"
    define s2 where "s2 = (if n then s1\<lparr>dc_appliedNavigatorSeqByHost := obj_set h r (dc_appliedNavigatorSeqByHost s1)\<rparr> else s1)"
    have r: "(if l \<or> n then parseDbResponse p h l n r s2 else Inr s2) = Inr s'"
      using assms unfolding so(1) applyStartInfo_def option.case if_not_P [OF so(2)] Let_def
        l_def [symmetric] n_def [symmetric] s1_def [symmetric] s2_def [symmetric] .
    have f2: "same_reads s s2" "same_changes s s2" "same_navigator s s2" "same_live s s2"
      "lists_of s2 h' = lists_of s h'" "lists_wf s2 = lists_wf s"
      by (simp_all add: s1_def s2_def same_defs lists_of_def lists_wf_def)
    have g: "marks_grow r s s2" unfolding s2_def s1_def marks_grow_def by (auto simp: l_def n_def)
    have "s' = s2 \<or> parseDbResponse p h l n r s2 = Inr s'" using r by (auto split: if_splits)
    then have f: "same_reads s2 s'" "same_marks s2 s'" "same_changes s2 s'"
      "\<not> n \<longrightarrow> same_navigator s2 s'" "\<not> l \<longrightarrow> same_live s2 s'"
      "h' \<noteq> h \<longrightarrow> lists_of s' h' = lists_of s2 h'" "lists_wf s2 \<longrightarrow> lists_wf s'"
      "distinct (dc_loggedInDatabases s2) \<longrightarrow> distinct (dc_loggedInDatabases s')"
      using parse_frame [of p h l n r s2 s'] by (auto simp: same_defs)
    have "marks_grow r s s'" using g f(2) by (simp add: marks_grow_def same_marks_def)
    with f f2 so show ?thesis by (auto simp: same_defs seq_or0_def l_def n_def)
  qed
qed

lemma apply_mark:
  assumes "applyStartInfo h p (Some q) bg s = Inr s'" "h \<noteq> []"
  shows "q \<le> get0 (dc_appliedLiveSeqByHost s') h"
    "\<not> bg \<Longrightarrow> q \<le> get0 (dc_appliedNavigatorSeqByHost s') h"
  using assms
  by (auto simp: applyStartInfo_def Let_def same_marks_def dest: parse_frame(2) split: if_splits)

section \<open>Reads in flight\<close>

definition has_foreground :: "(string, bool) obj \<Rightarrow> bool" where
  "has_foreground reads \<longleftrightarrow> list_ex id (obj_vals reads)"

lemma has_foreground_iff: "obj_wf reads \<Longrightarrow> has_foreground reads \<longleftrightarrow> (\<exists>r. map_of reads r = Some True)"
  unfolding has_foreground_def by (force simp: list_ex_iff map_of_obj_wf [symmetric])

lemma has_foreground_set:
  assumes "obj_wf reads" "map_of reads req = None"
  shows "has_foreground (obj_set req fg reads) \<longleftrightarrow> fg \<or> has_foreground reads"
proof -
  have "(\<exists>r. map_of (obj_set req fg reads) r = Some True) \<longleftrightarrow> fg \<or> (\<exists>r. map_of reads r = Some True)"
    unfolding map_of_obj_set using assms(2) by (metis option.distinct(1) option.inject)
  with assms(1) show ?thesis by (simp add: has_foreground_iff obj_wf_set)
qed

lemma has_foreground_del:
  assumes "obj_wf reads" "map_of reads req = Some False"
  shows "has_foreground (obj_del req reads) = has_foreground reads"
proof -
  have "(\<exists>r. map_of (obj_del req reads) r = Some True) \<longleftrightarrow> (\<exists>r. map_of reads r = Some True)"
    unfolding map_of_obj_del using assms(2) by (metis option.distinct(1) option.inject)
  with assms(1) show ?thesis by (simp add: has_foreground_iff obj_wf_del)
qed

text \<open>The spinner of a host is on exactly while it has a foreground read in flight.\<close>

definition reads_ok :: "db_state \<Rightarrow> bool" where
  "reads_ok s \<longleftrightarrow> (\<forall>h. obj_wf (pendingReads s h) \<and>
     flag (dc_loadingByHost s) h = has_foreground (pendingReads s h))"

lemma reads_ok_same: "same_reads s s' \<Longrightarrow> reads_ok s \<Longrightarrow> reads_ok s'"
  by (simp add: reads_ok_def same_reads_def pendingReads_def)

lemma flag_set [simp]: "flag (obj_set k v m) k' = (if k' = k then v else flag m k')"
  by (simp add: flag_def map_of_obj_set)

lemma flag_del [simp]: "flag (obj_del k m) k' = (k' \<noteq> k \<and> flag m k')"
  by (simp add: flag_def map_of_obj_del)

lemma pending_start: "pendingReads (startRead h req fg s) k =
    (if k = h then obj_set req fg (pendingReads s h) else pendingReads s k)"
  by (simp add: startRead_def pendingReads_def Let_def map_of_obj_set)

lemma loading_start: "flag (dc_loadingByHost (startRead h req fg s)) k = (if k = h \<and> fg then True else flag (dc_loadingByHost s) k)"
  by (simp add: startRead_def Let_def)

lemma reads_ok_start:
  assumes "reads_ok s" "map_of (pendingReads s h) req = None"
  shows "reads_ok (startRead h req fg s)"
  unfolding reads_ok_def
proof
  fix k
  have ok: "obj_wf (pendingReads s k)" "flag (dc_loadingByHost s) k = has_foreground (pendingReads s k)"
    using assms(1) by (simp_all add: reads_ok_def)
  then have "k = h \<Longrightarrow> has_foreground (obj_set req fg (pendingReads s h)) = (fg \<or> has_foreground (pendingReads s h))"
    using assms(2) by (auto simp: has_foreground_set)
  with ok show "obj_wf (pendingReads (startRead h req fg s) k) \<and>
      flag (dc_loadingByHost (startRead h req fg s)) k = has_foreground (pendingReads (startRead h req fg s) k)"
    by (auto simp: pending_start loading_start obj_wf_set)
qed

lemma settle_SomeD:
  assumes "settleRead h req s = Some s'"
  shows "pendingReads s' k = (if k = h then obj_del req (pendingReads s h) else pendingReads s k)"
    "same_marks s s'" "same_navigator s s'" "same_live s s'" "same_changes s s'"
    "lists_of s' h' = lists_of s h'" "lists_wf s' = lists_wf s"
    "dc_selectedDatabase s' = dc_selectedDatabase s"
    "map_of (pendingReads s h) req \<noteq> None"
  using assms
  by (auto simp: settleRead_def Let_def pendingReads_def map_of_obj_set same_defs lists_of_def lists_wf_def
      split: option.splits if_splits)

lemma reads_ok_settle:
  assumes "reads_ok s" "settleRead h req s = Some s'"
  shows "reads_ok s'"
  unfolding reads_ok_def
proof
  fix k
  have ok: "obj_wf (pendingReads s j)" "flag (dc_loadingByHost s) j = has_foreground (pendingReads s j)" for j
    using assms(1) by (simp_all add: reads_ok_def)
  obtain fg where fg: "map_of (pendingReads s h) req = Some fg"
    using settle_SomeD(9) [OF assms(2)] by auto
  have wf: "obj_wf (obj_del req (pendingReads s h))" using ok by (simp add: obj_wf_del)
  have "\<not> fg \<Longrightarrow> has_foreground (obj_del req (pendingReads s h)) = has_foreground (pendingReads s h)"
    using fg ok by (simp add: has_foreground_del)
  moreover have "flag (dc_loadingByHost s') k =
      (if k = h \<and> fg then has_foreground (obj_del req (pendingReads s h)) else flag (dc_loadingByHost s) k)"
    using assms(2) fg by (cases fg) (auto simp: settleRead_def Let_def has_foreground_def)
  ultimately show "obj_wf (pendingReads s' k) \<and> flag (dc_loadingByHost s') k = has_foreground (pendingReads s' k)"
    using ok wf by (auto simp: settle_SomeD(1) [OF assms(2)])
qed

lemma reads_ok_close: "reads_ok s \<Longrightarrow> reads_ok (closeHostTabs h q s)"
proof -
  have "pendingReads (closeHostTabs h q s) k = (if k = h then [] else pendingReads s k)"
    "flag (dc_loadingByHost (closeHostTabs h q s)) k = (k \<noteq> h \<and> flag (dc_loadingByHost s) k)" for k
    by (auto simp: closeHostTabs_def evictLists_def pendingReads_def Let_def map_of_obj_del split: option.split)
  then show "reads_ok s \<Longrightarrow> reads_ok (closeHostTabs h q s)"
    by (simp add: reads_ok_def has_foreground_def)
qed

section \<open>One dispatch\<close>

text \<open>What every dispatch but a closing keeps: the bookkeeping of reads, the shape of the lists,
  and numbers that grow no further than \<open>q\<close>.\<close>

definition step_ok :: "nat \<Rightarrow> db_state \<Rightarrow> db_state \<Rightarrow> bool" where
  "step_ok q s s' \<longleftrightarrow> (reads_ok s \<longrightarrow> reads_ok s') \<and> marks_grow q s s' \<and> (lists_wf s \<longrightarrow> lists_wf s')
     \<and> (distinct (dc_loggedInDatabases s) \<longrightarrow> distinct (dc_loggedInDatabases s'))
     \<and> (\<forall>k. get0 (dc_loginChangedSeq s') k \<le> max q (get0 (dc_loginChangedSeq s) k))"

lemma max_chain: "a \<le> max q b \<Longrightarrow> b \<le> max q c \<Longrightarrow> a \<le> max q (c :: nat)"
  by linarith

lemma marks_grow_trans:
  assumes "marks_grow q a b" "marks_grow q b c"
  shows "marks_grow q a c"
  unfolding marks_grow_def
proof (intro allI conjI)
  fix k
  note ab = assms(1) [unfolded marks_grow_def, rule_format, of k]
  note bc = assms(2) [unfolded marks_grow_def, rule_format, of k]
  from ab bc show "get0 (dc_appliedLiveSeqByHost a) k \<le> get0 (dc_appliedLiveSeqByHost c) k"
    "get0 (dc_appliedNavigatorSeqByHost a) k \<le> get0 (dc_appliedNavigatorSeqByHost c) k" by linarith+
  from ab bc show "get0 (dc_appliedLiveSeqByHost c) k \<le> max q (get0 (dc_appliedLiveSeqByHost a) k)"
    "get0 (dc_appliedNavigatorSeqByHost c) k \<le> max q (get0 (dc_appliedNavigatorSeqByHost a) k)" by linarith+
qed

lemma step_ok_trans:
  assumes "step_ok q a b" "step_ok q b c"
  shows "step_ok q a c"
proof -
  have "get0 (dc_loginChangedSeq c) k \<le> max q (get0 (dc_loginChangedSeq a) k)" for k
  proof (rule max_chain)
    show "get0 (dc_loginChangedSeq c) k \<le> max q (get0 (dc_loginChangedSeq b) k)"
      "get0 (dc_loginChangedSeq b) k \<le> max q (get0 (dc_loginChangedSeq a) k)"
      using assms unfolding step_ok_def by simp_all
  qed
  moreover have "marks_grow q a c" using assms unfolding step_ok_def by (blast intro: marks_grow_trans)
  ultimately show ?thesis using assms unfolding step_ok_def by simp
qed

lemma step_ok_refl: "step_ok q s s"
  by (simp add: step_ok_def marks_grow_def)

lemma reads_ok_fields [simp]:
  "reads_ok (s\<lparr>dc_error := e\<rparr>) = reads_ok s" "reads_ok (s\<lparr>dc_actionLoading := b\<rparr>) = reads_ok s"
  "reads_ok (s\<lparr>dc_selectedDatabase := v\<rparr>) = reads_ok s" "reads_ok (s\<lparr>dc_selectedDatabaseSubItem := v\<rparr>) = reads_ok s"
  "reads_ok (s\<lparr>dc_activeHostUid := u\<rparr>) = reads_ok s" "reads_ok (s\<lparr>dc_loggingInDatabases := m\<rparr>) = reads_ok s"
  "reads_ok (s\<lparr>dc_loggedInDatabases := l\<rparr>) = reads_ok s" "reads_ok (s\<lparr>dc_loginChangedSeq := cq\<rparr>) = reads_ok s"
  by (simp_all add: reads_ok_def pendingReads_def)

lemma step_ok_fields:
  "step_ok q s (s\<lparr>dc_error := e\<rparr>)" "step_ok q s (s\<lparr>dc_actionLoading := b\<rparr>)"
  "step_ok q s (s\<lparr>dc_selectedDatabase := v\<rparr>)" "step_ok q s (s\<lparr>dc_selectedDatabaseSubItem := v\<rparr>)"
  "step_ok q s (s\<lparr>dc_activeHostUid := u\<rparr>)" "step_ok q s (s\<lparr>dc_loggingInDatabases := m\<rparr>)"
  by (simp_all add: step_ok_def marks_grow_def lists_wf_def)

lemma step_ok_logins:
  "q' \<le> q \<Longrightarrow> step_ok q s (noteLoginChange h d q' s)"
  "step_ok q s (addLogin h d s)" "step_ok q s (dropLogin h d s)"
  by (simp_all add: step_ok_def noteLoginChange_def addLogin_def dropLogin_def marks_grow_def lists_wf_def
      distinct_push_new le_max_iff_disj)

lemma step_ok_apply:
  assumes "applyStartInfo h p so bg s = Inr s'" "seq_or0 so \<le> q"
  shows "step_ok q s s'"
proof -
  note f = apply_frame(1,2,5,6,7) [OF assms(1)]
  have "marks_grow q s s'" using f(5) assms(2) unfolding marks_grow_def
    by (meson le_max_iff_disj le_trans max.mono order_refl)
  with f show ?thesis by (auto simp: step_ok_def same_changes_def intro: reads_ok_same)
qed

lemma step_ok_start:
  "map_of (pendingReads s h) req = None \<Longrightarrow> step_ok q s (startRead h req fg s)"
  by (simp add: step_ok_def reads_ok_start) (simp add: startRead_def Let_def marks_grow_def lists_wf_def)

lemma step_ok_settle: "settleRead h req s = Some s' \<Longrightarrow> step_ok q s s'"
  using settle_SomeD(2-7) [of h req s s'] reads_ok_settle [of s h req s']
  by (simp add: step_ok_def marks_grow_same) (simp add: same_defs)

lemma step_ok_readFailed: "q' \<le> q \<Longrightarrow> step_ok q s (readFailed h e q' s)"
  by (auto simp: readFailed_def Let_def step_ok_def marks_grow_def lists_wf_def clearList_def obj_wf_set
      reads_ok_def pendingReads_def)

lemma step_ok_evict: "step_ok q s (resetDatabaseState h s)"
  by (simp add: resetDatabaseState_def evictLists_def step_ok_def marks_grow_def lists_wf_def obj_wf_del
      reads_ok_def pendingReads_def)

lemma step_ok_clear: "step_ok q s (clearDatabaseLoginsForHost h s)"
  by (simp add: clearDatabaseLoginsForHost_def step_ok_def marks_grow_def lists_wf_def reads_ok_def pendingReads_def)

lemma step_ok_bulk: "q' \<le> q \<Longrightarrow> step_ok q s (markBulkSucceededLoggedIn h ds q' s)"
proof -
  assume q: "q' \<le> q"
  have "step_ok q st (fold (\<lambda>dbname st. noteLoginChange h dbname q' (addLogin h dbname st)) ds st)" for st
  proof (induction ds arbitrary: st)
    case Nil
    then show ?case by (simp add: step_ok_refl)
  next
    case (Cons d ds)
    have "step_ok q st (noteLoginChange h d q' (addLogin h d st))"
      by (rule step_ok_trans [OF step_ok_logins(2) step_ok_logins(1) [OF q]])
    with Cons show ?case by (auto intro: step_ok_trans)
  qed
  then show ?thesis by (simp add: markBulkSucceededLoggedIn_def step_ok_refl)
qed

fun action_seq :: "db_action \<Rightarrow> nat option" where
  "action_seq (ClearDatabaseLogin h d q) = Some q"
| "action_seq (ReadFulfilled h r b p so) = so"
| "action_seq (ReadRejected h r b e so) = so"
| "action_seq (StartDatabase h d (Fulfilled (p, q))) = Some q"
| "action_seq (StopDatabase h d (Fulfilled (p, q))) = Some q"
| "action_seq (StartAllDatabases h (Fulfilled (ds, q))) = Some q"
| "action_seq (StopAllDatabases h (Fulfilled (ds, q))) = Some q"
| "action_seq (RunSelectedDatabases h (Fulfilled (ds, q))) = Some q"
| "action_seq (LoginDatabase h d b (Fulfilled (n, q))) = Some q"
| "action_seq (LogoutDatabase h (Fulfilled (n, q))) = Some q"
| "action_seq (RegisterDatabase h (Fulfilled (p, q))) = Some q"
| "action_seq (DeleteDatabaseProfile h (Fulfilled (n, p, q))) = Some q"
| "action_seq (CloseHostTabs h so) = so"
| "action_seq _ = None"

fun fresh_request :: "db_action \<Rightarrow> db_state \<Rightarrow> bool" where
  "fresh_request (ReadPending h req bg) s = (map_of (pendingReads s h) req = None)"
| "fresh_request (CloseHostTabs h so) s = False"
| "fresh_request _ s = True"

lemma step_ok_startStop:
  assumes "reduce_startStop h d p s = Inr s'" "\<And>x q'. p = Fulfilled (x, q') \<Longrightarrow> q' \<le> q"
  shows "step_ok q s s'"
proof (cases p)
  case Pending
  with assms show ?thesis
    by (auto simp: action_pending_def intro: step_ok_trans [OF step_ok_fields(2) step_ok_fields(1)])
next
  case (Rejected e)
  with assms show ?thesis
    by (auto simp: action_rejected_def intro: step_ok_trans [OF step_ok_fields(2) step_ok_fields(1)])
next
  case (Fulfilled x)
  obtain y q' where x: "x = (y, q')" by (cases x)
  with assms(1) Fulfilled obtain s1 where a: "applyStartInfo h y (Some q') False (s\<lparr>dc_actionLoading := False\<rparr>) = Inr s1"
    and s': "s' = (if h \<noteq> [] \<and> d \<noteq> [] then noteLoginChange h d q' (addLogin h d s1) else s1)"
    by (auto simp: res_bind_eq_Inr)
  have q: "q' \<le> q" using assms(2) Fulfilled x by blast
  have "step_ok q s s1"
    using step_ok_trans [OF step_ok_fields(2) step_ok_apply [OF a]] q by (simp add: seq_or0_def)
  moreover have "step_ok q s1 s'"
    using step_ok_trans [OF step_ok_logins(2) step_ok_logins(1) [OF q]] by (auto simp: s' step_ok_refl)
  ultimately show ?thesis by (rule step_ok_trans)
qed

lemma step_ok_reduce_bulk:
  assumes "\<And>x q'. p = Fulfilled (x, q') \<Longrightarrow> q' \<le> q"
  shows "step_ok q s (reduce_bulk h p s)"
  using assms
  by (cases "(h, p, s)" rule: reduce_bulk.cases)
    (auto simp: action_pending_def action_rejected_def
      intro: step_ok_trans [OF step_ok_fields(2) step_ok_fields(1)] step_ok_trans [OF step_ok_fields(2) step_ok_bulk])

lemma step_ok_reduce_login:
  assumes "\<And>x q'. p = Fulfilled (x, q') \<Longrightarrow> q' \<le> q"
  shows "step_ok q s (reduce_login h d bg p s)"
proof -
  have f: "step_ok q s0 (if c then s0 else s0\<lparr>dc_actionLoading := b\<rparr>)"
    "step_ok q s0 (if c' then s0 else s0\<lparr>dc_loggingInDatabases := m\<rparr>)" for s0 c b c' m
    by (simp_all add: step_ok_refl step_ok_fields)
  show ?thesis
    using assms
    by (cases "(h, d, bg, p, s)" rule: reduce_login.cases)
      (auto simp only: reduce_login.simps Let_def intro!: step_ok_trans [OF _ step_ok_fields(1)]
        step_ok_trans [OF _ step_ok_logins(1)] step_ok_trans [OF _ step_ok_logins(2)]
        step_ok_trans [OF _ f(2)] f(1) step_ok_fields(2))
qed

lemma step_ok_reduce_logout:
  assumes "\<And>x q'. p = Fulfilled (x, q') \<Longrightarrow> q' \<le> q"
  shows "step_ok q s (reduce_logout h p s)"
  using assms
  by (cases "(h, p, s)" rule: reduce_logout.cases)
    (auto simp only: reduce_logout.simps action_pending_def action_rejected_def
      intro!: step_ok_trans [OF step_ok_fields(2) step_ok_fields(1)]
        step_ok_trans [OF _ step_ok_logins(1)] step_ok_trans [OF step_ok_fields(2) step_ok_logins(3)])

lemma step_ok_applyIfAny:
  assumes "applyIfAny h p q' s = Inr s'" "q' \<le> q"
  shows "step_ok q s s'"
  using assms step_ok_apply [of h p "Some q'" False s s' q]
  by (auto simp: applyIfAny_def step_ok_refl seq_or0_def split: if_splits)

lemma step_ok_reduce_register:
  assumes "reduce_register h p s = Inr s'" "\<And>x q'. p = Fulfilled (x, q') \<Longrightarrow> q' \<le> q"
  shows "step_ok q s s'"
  using assms
  by (cases "(h, p, s)" rule: reduce_register.cases)
    (auto simp: action_pending_def action_rejected_def
      intro: step_ok_trans [OF step_ok_fields(2) step_ok_fields(1)]
        step_ok_trans [OF step_ok_fields(2) step_ok_applyIfAny])

lemma step_ok_reduce_deleteProfile:
  assumes "reduce_deleteProfile h p s = Inr s'" "\<And>n x q'. p = Fulfilled (n, x, q') \<Longrightarrow> q' \<le> q"
  shows "step_ok q s s'"
  using assms
proof (cases "(h, p, s)" rule: reduce_deleteProfile.cases)
  case (2 h' n x q' s0)
  have q: "q' \<le> q" using assms(2) 2 by blast
  have "step_ok q s (noteLoginChange h n q' (dropLogin h n (s\<lparr>dc_actionLoading := False\<rparr>)))"
    by (rule step_ok_trans [OF step_ok_trans [OF step_ok_fields(2) step_ok_logins(3)] step_ok_logins(1) [OF q]])
  with 2 assms(1) step_ok_applyIfAny [OF _ q] show ?thesis by (auto intro: step_ok_trans)
qed (auto simp: action_pending_def action_rejected_def
      intro: step_ok_trans [OF step_ok_fields(2) step_ok_fields(1)])

lemma step_ok_clearLogin: "q' \<le> q \<Longrightarrow> step_ok q s (clearDatabaseLogin h d q' s)"
  by (auto simp: clearDatabaseLogin_def step_ok_refl
      intro!: step_ok_trans [OF _ step_ok_logins(1)] step_ok_trans [OF step_ok_logins(3) step_ok_fields(6)])

lemma step_ok_reduce:
  assumes "db_reduce a s = Inr s'" "fresh_request a s" "\<And>q'. action_seq a = Some q' \<Longrightarrow> q' \<le> q"
  shows "step_ok q s s'"
proof (cases a)
  case (ReadPending h req bg)
  with assms show ?thesis
    by (auto intro: step_ok_trans [OF step_ok_start step_ok_fields(1)])
next
  case (ReadFulfilled h req bg p so)
  have "seq_or0 so \<le> q" using assms(3) ReadFulfilled by (cases so) (auto simp: seq_or0_def)
  with ReadFulfilled assms(1) show ?thesis
    by (auto simp: step_ok_refl split: option.splits intro: step_ok_trans [OF step_ok_settle step_ok_apply])
next
  case (ReadRejected h req bg e so)
  with assms show ?thesis
    by (auto simp: step_ok_refl split: option.splits if_splits
        intro: step_ok_settle step_ok_trans [OF step_ok_settle step_ok_readFailed])
next
  case (StartDatabase h d p)
  with assms show ?thesis by (intro step_ok_startStop [of h d p]) auto
next
  case (StopDatabase h d p)
  with assms show ?thesis by (intro step_ok_startStop [of h d p]) auto
next
  case (RegisterDatabase h p)
  with assms show ?thesis by (intro step_ok_reduce_register [of h p]) auto
next
  case (DeleteDatabaseProfile h p)
  with assms show ?thesis by (intro step_ok_reduce_deleteProfile [of h p]) auto
next
  case (SetSelectedDatabase v)
  with assms show ?thesis
    by (auto simp: step_ok_refl split: if_splits intro: step_ok_trans [OF step_ok_fields(3) step_ok_fields(4)])
next
  case (StartAllDatabases h p)
  have "s' = reduce_bulk h p s" using assms(1) StartAllDatabases by simp
  with assms(3) StartAllDatabases show ?thesis by (simp add: step_ok_reduce_bulk)
next
  case (StopAllDatabases h p)
  have "s' = reduce_bulk h p s" using assms(1) StopAllDatabases by simp
  with assms(3) StopAllDatabases show ?thesis by (simp add: step_ok_reduce_bulk)
next
  case (RunSelectedDatabases h p)
  have "s' = reduce_bulk h p s" using assms(1) RunSelectedDatabases by simp
  with assms(3) RunSelectedDatabases show ?thesis by (simp add: step_ok_reduce_bulk)
next
  case (LoginDatabase h d bg p)
  have "s' = reduce_login h d bg p s" using assms(1) LoginDatabase by simp
  with assms(3) LoginDatabase show ?thesis by (simp add: step_ok_reduce_login)
next
  case (LogoutDatabase h p)
  have "s' = reduce_logout h p s" using assms(1) LogoutDatabase by simp
  with assms(3) LogoutDatabase show ?thesis by (simp add: step_ok_reduce_logout)
qed (use assms in \<open>auto simp: step_ok_evict step_ok_clear step_ok_clearLogin intro: step_ok_fields\<close>)

section \<open>The store with its counter\<close>

datatype db_event = DrawSeq | CloseHost string | Dispatch db_action

text \<open>A dispatch whose number was never drawn, or whose request id is in use, does not happen.\<close>

definition db_admissible :: "db_action \<Rightarrow> db_state \<times> nat \<Rightarrow> bool" where
  "db_admissible a sc \<longleftrightarrow> fresh_request a (fst sc) \<and>
     (case action_seq a of None \<Rightarrow> True | Some q \<Rightarrow> q \<le> snd sc)"

fun db_step :: "db_event \<Rightarrow> db_state \<times> nat \<Rightarrow> db_state \<times> nat" where
  "db_step DrawSeq (s, n) = (s, Suc n)"
| "db_step (CloseHost h) (s, n) = (db_dispatch (CloseHostTabs h (Some (Suc n))) s, Suc n)"
| "db_step (Dispatch a) (s, n) = (if db_admissible a (s, n) then (db_dispatch a s, n) else (s, n))"

definition db_run :: "db_event list \<Rightarrow> db_state \<times> nat \<Rightarrow> db_state \<times> nat" where
  "db_run es sc = fold db_step es sc"

definition db_inv :: "db_state \<times> nat \<Rightarrow> bool" where
  "db_inv sc \<longleftrightarrow> reads_ok (fst sc) \<and> lists_wf (fst sc) \<and> distinct (dc_loggedInDatabases (fst sc))
     \<and> (\<forall>k. get0 (dc_appliedLiveSeqByHost (fst sc)) k \<le> snd sc
          \<and> get0 (dc_appliedNavigatorSeqByHost (fst sc)) k \<le> snd sc
          \<and> get0 (dc_loginChangedSeq (fst sc)) k \<le> snd sc)"

lemma dispatch_step_ok:
  assumes "db_admissible a (s, n)"
  shows "step_ok n s (db_dispatch a s)"
proof (cases "db_reduce a s")
  case (Inl e)
  then show ?thesis by (simp add: db_dispatch_def step_ok_refl)
next
  case (Inr s')
  have "fresh_request a s" "\<And>q. action_seq a = Some q \<Longrightarrow> q \<le> n"
    using assms by (auto simp: db_admissible_def)
  with step_ok_reduce [OF Inr] Inr show ?thesis by (simp add: db_dispatch_def)
qed

lemma step_ok_bounded:
  assumes "step_ok n s s'" "db_inv (s, n)"
  shows "db_inv (s', n)"
proof -
  have m: "max n (get0 (dc_appliedLiveSeqByHost s) k) = n"
    "max n (get0 (dc_appliedNavigatorSeqByHost s) k) = n" "max n (get0 (dc_loginChangedSeq s) k) = n" for k
    using assms(2) by (simp_all add: db_inv_def max_absorb1)
  have "marks_grow n s s'" "\<forall>k. get0 (dc_loginChangedSeq s') k \<le> max n (get0 (dc_loginChangedSeq s) k)"
    using assms(1) by (simp_all add: step_ok_def)
  then have "\<forall>k. get0 (dc_appliedLiveSeqByHost s') k \<le> n \<and> get0 (dc_appliedNavigatorSeqByHost s') k \<le> n
      \<and> get0 (dc_loginChangedSeq s') k \<le> n"
    by (simp add: marks_grow_def m)
  with assms show ?thesis by (simp add: db_inv_def step_ok_def)
qed

lemma db_inv_step: "db_inv sc \<Longrightarrow> db_inv (db_step e sc)"
proof (cases sc)
  case (Pair s n)
  assume inv: "db_inv sc"
  show ?thesis
  proof (cases e)
    case DrawSeq
    with inv Pair show ?thesis by (auto simp: db_inv_def le_SucI)
  next
    case (CloseHost h)
    let ?s = "closeHostTabs h (Some (Suc n)) s"
    have "lists_wf ?s" "distinct (dc_loggedInDatabases ?s)"
      using inv Pair by (simp_all add: db_inv_def closeHostTabs_def evictLists_def Let_def lists_wf_def obj_wf_del)
    moreover have "reads_ok ?s" using inv Pair by (simp add: db_inv_def reads_ok_close)
    ultimately show ?thesis using inv Pair CloseHost
      by (auto simp: db_inv_def db_dispatch_def closeHostTabs_def evictLists_def Let_def le_SucI)
  next
    case (Dispatch a)
    show ?thesis
    proof (cases "db_admissible a (s, n)")
      case True
      from step_ok_bounded [OF dispatch_step_ok [OF True]] inv Pair Dispatch True show ?thesis by simp
    next
      case False
      with inv Pair Dispatch show ?thesis by simp
    qed
  qed
qed

lemma db_mark_step:
  assumes "db_inv sc"
  shows "get0 (dc_appliedLiveSeqByHost (fst sc)) h \<le> get0 (dc_appliedLiveSeqByHost (fst (db_step e sc))) h"
    "get0 (dc_appliedNavigatorSeqByHost (fst sc)) h \<le> get0 (dc_appliedNavigatorSeqByHost (fst (db_step e sc))) h"
proof (atomize (full), cases sc)
  case (Pair s n)
  show "get0 (dc_appliedLiveSeqByHost (fst sc)) h \<le> get0 (dc_appliedLiveSeqByHost (fst (db_step e sc))) h
    \<and> get0 (dc_appliedNavigatorSeqByHost (fst sc)) h \<le> get0 (dc_appliedNavigatorSeqByHost (fst (db_step e sc))) h"
  proof (cases e)
    case (CloseHost k)
    with Pair assms show ?thesis
      by (auto simp: db_inv_def db_dispatch_def closeHostTabs_def evictLists_def Let_def le_SucI)
  next
    case (Dispatch a)
    with Pair dispatch_step_ok [of a s n] show ?thesis
      by (auto simp: step_ok_def marks_grow_def)
  qed (simp add: Pair)
qed

interpretation db_live: monotone_slice db_step db_inv "\<lambda>sc. get0 (dc_appliedLiveSeqByHost (fst sc)) h" for h
  by unfold_locales (simp_all add: db_inv_step db_mark_step)

interpretation db_navigator: monotone_slice db_step db_inv "\<lambda>sc. get0 (dc_appliedNavigatorSeqByHost (fst sc)) h" for h
  by unfold_locales (simp_all add: db_inv_step db_mark_step)

lemma db_inv_init: "db_inv (init_db_state, n)"
  by (simp add: db_inv_def init_db_state_def reads_ok_def lists_wf_def pendingReads_def has_foreground_def
      flag_def get0_def)

end
