(* ===== verification/DatabaseProps.thy ===== *)
theory DatabaseProps
  imports DatabaseFacts
begin

text \<open>
  What the database slice guarantees whatever the order responses arrive in: a late response
  never undoes a newer one, a background poll never moves the navigator, the spinner tells the
  truth, a closed host is not filled again by its old reads, and the padlocks follow the server.
\<close>

section \<open>Out of order responses\<close>

text \<open>
  C13: a late response never undoes a newer one. Once a foreground start-info response numbered
  \<open>q1\<close> has been let in, then after any sequence of events a response numbered \<open>q2 <= q1\<close> that
  still arrives changes no list of any host, in the live view or in the navigator, and no login.
\<close>

theorem late_response_is_ignored:
  assumes "db_inv (s, n)" "q1 \<le> n" "h \<noteq> []" "map_of (pendingReads s h) r1 \<noteq> None"
    and "db_reduce (ReadFulfilled h r1 False p1 (Some q1)) s = Inr s1"
    and "q2 \<le> q1" "s2 = fst (db_run es (s1, n))"
    and "s3 = db_dispatch (ReadFulfilled h r2 bg p2 (Some q2)) s2"
  shows "dc_databasesByHost s3 = dc_databasesByHost s2
    \<and> dc_activeDatabasesByHost s3 = dc_activeDatabasesByHost s2
    \<and> dc_navigatorDatabasesByHost s3 = dc_navigatorDatabasesByHost s2
    \<and> dc_navigatorActiveDatabasesByHost s3 = dc_navigatorActiveDatabasesByHost s2
    \<and> dc_haDbNamesByHost s3 = dc_haDbNamesByHost s2
    \<and> dc_loggedInDatabases s3 = dc_loggedInDatabases s2"
proof -
  have adm: "db_admissible (ReadFulfilled h r1 False p1 (Some q1)) (s, n)"
    using assms(2) by (simp add: db_admissible_def)
  have "step_ok n s s1" using dispatch_step_ok [OF adm] assms(5) by (simp add: db_dispatch_def)
  then have inv1: "db_inv (s1, n)" using assms(1) by (rule step_ok_bounded)
  obtain s0 where "settleRead h r1 s = Some s0" "applyStartInfo h p1 (Some q1) False s0 = Inr s1"
    using assms(4,5) by (cases "settleRead h r1 s") (auto simp: settleRead_def Let_def split: option.splits)
  then have m1: "q1 \<le> get0 (dc_appliedLiveSeqByHost s1) h" "q1 \<le> get0 (dc_appliedNavigatorSeqByHost s1) h"
    using apply_mark assms(3) by auto
  have m2: "q2 \<le> get0 (dc_appliedLiveSeqByHost s2) h" "q2 \<le> get0 (dc_appliedNavigatorSeqByHost s2) h"
    using m1 db_live.run_mono [OF inv1, of h es] db_navigator.run_mono [OF inv1, of h es] assms(6,7)
    by (simp_all add: db_run_def)
  show ?thesis
  proof (cases "db_reduce (ReadFulfilled h r2 bg p2 (Some q2)) s2")
    case (Inl e)
    then show ?thesis by (simp add: assms(8) db_dispatch_def)
  next
    case (Inr t)
    then have t: "s3 = t" by (simp add: assms(8) db_dispatch_def)
    show ?thesis
    proof (cases "settleRead h r2 s2")
      case None
      with Inr t show ?thesis by simp
    next
      case (Some u)
      with Inr have a: "applyStartInfo h p2 (Some q2) bg u = Inr t" by simp
      from settle_SomeD(2-4) [OF Some] m2 have u: "same_live s2 u" "same_navigator s2 u"
        "q2 \<le> get0 (dc_appliedLiveSeqByHost u) h" "q2 \<le> get0 (dc_appliedNavigatorSeqByHost u) h"
        by (simp_all add: same_marks_def)
      from apply_frame(8,9) [OF a refl] u show ?thesis by (simp add: t same_defs)
    qed
  qed
qed

definition sample_start_info :: js where
  "sample_start_info = Obj [(''dblist'', Obj [(''dbs'', Arr [Obj [(''dbname'', Str ''demodb''), (''isLoggedIn'', Bool True)]])]),
     (''activelist'', Obj [(''active'', Arr [Str ''demodb''])])]"

definition sample_empty_info :: js where
  "sample_empty_info = Obj [(''dblist'', Obj [(''dbs'', Arr [])]), (''activelist'', Obj [(''active'', Arr [])])]"

lemma late_response_is_ignored_witness:
  "\<exists>s1. db_reduce (ReadFulfilled ''h1'' ''r1'' False sample_start_info (Some 2))
       (startRead ''h1'' ''r1'' True (startRead ''h1'' ''r2'' False init_db_state)) = Inr s1
    \<and> map_of (dc_databasesByHost s1) ''h1'' \<noteq> None
    \<and> dc_databasesByHost (db_dispatch (ReadFulfilled ''h1'' ''r2'' True sample_empty_info (Some 1)) s1)
        = dc_databasesByHost s1"
proof -
  let ?s = "startRead ''h1'' ''r1'' True (startRead ''h1'' ''r2'' False init_db_state)"
  have ok0: "reads_ok init_db_state" "lists_wf init_db_state"
    using db_inv_init [of 0] by (simp_all add: db_inv_def)
  have "reads_ok (startRead ''h1'' ''r2'' False init_db_state)"
    by (rule reads_ok_start [OF ok0(1)]) (simp add: pendingReads_def init_db_state_def)
  then have "reads_ok ?s"
    by (rule reads_ok_start) code_simp
  then have inv: "db_inv (?s, 2)"
    by (simp add: db_inv_def startRead_def Let_def init_db_state_def lists_wf_def get0_def)
  have pend: "map_of (pendingReads ?s ''h1'') ''r1'' \<noteq> None"
    by (simp add: pending_start map_of_obj_set)
  have h: "(''h1'' :: string) \<noteq> []" and q: "(2 :: nat) \<le> 2" "(1 :: nat) \<le> 2" by simp_all
  have "(case db_reduce (ReadFulfilled ''h1'' ''r1'' False sample_start_info (Some 2)) ?s of
      Inl _ \<Rightarrow> False | Inr s1 \<Rightarrow> map_of (dc_databasesByHost s1) ''h1'' \<noteq> None)"
    by code_simp
  then obtain s1 where s1: "db_reduce (ReadFulfilled ''h1'' ''r1'' False sample_start_info (Some 2)) ?s = Inr s1"
    and "map_of (dc_databasesByHost s1) ''h1'' \<noteq> None"
    by (cases "db_reduce (ReadFulfilled ''h1'' ''r1'' False sample_start_info (Some 2)) ?s") auto
  moreover have "s1 = fst (db_run [] (s1, 2))" by (simp add: db_run_def)
  ultimately show ?thesis
    using late_response_is_ignored [OF inv q(1) h pend s1 q(2) _ refl] by blast
qed

section \<open>Background polls\<close>

fun background_read :: "db_action \<Rightarrow> bool" where
  "background_read (ReadPending h req bg) = bg"
| "background_read (ReadFulfilled h req bg p so) = bg"
| "background_read (ReadRejected h req bg e so) = bg"
| "background_read _ = False"

text \<open>
  a background poll never moves the navigator, whatever it answers and however it ends, and
  a failing one leaves the lists and logins the dashboards show.
\<close>

theorem background_polls_keep_the_navigator:
  assumes "\<forall>a \<in> set as. background_read a"
  shows "dc_navigatorDatabasesByHost (fold db_dispatch as s) = dc_navigatorDatabasesByHost s
    \<and> dc_navigatorActiveDatabasesByHost (fold db_dispatch as s) = dc_navigatorActiveDatabasesByHost s
    \<and> ((\<forall>a \<in> set as. \<forall>h r b p so. a \<noteq> ReadFulfilled h r b p so) \<longrightarrow>
         dc_databasesByHost (fold db_dispatch as s) = dc_databasesByHost s
         \<and> dc_activeDatabasesByHost (fold db_dispatch as s) = dc_activeDatabasesByHost s
         \<and> dc_loggedInDatabases (fold db_dispatch as s) = dc_loggedInDatabases s)"
proof -
  have start: "same_navigator t (startRead h r b t)" "same_live t (startRead h r b t)" for t h r b
    by (simp_all add: startRead_def Let_def same_defs)
  have step: "same_navigator t (db_dispatch a t)
      \<and> ((\<forall>h r b p so. a \<noteq> ReadFulfilled h r b p so) \<longrightarrow> same_live t (db_dispatch a t))"
    if bg: "background_read a" for a t
  proof (cases a)
    case (ReadPending h r b)
    then show ?thesis using start [of t h r "\<not> b"] by (simp add: db_dispatch_def same_defs)
  next
    case (ReadRejected h r b e so)
    with bg have b by simp
    have "same_navigator t u \<and> same_live t u" if "settleRead h r t = Some u" for u
      using settle_SomeD(3,4) [OF that] by blast
    with ReadRejected \<open>b\<close> show ?thesis
      by (cases "settleRead h r t"; cases so) (simp_all add: db_dispatch_def same_defs)
  next
    case (ReadFulfilled h r b p so)
    with bg have b: b by simp
    show ?thesis
    proof (cases "settleRead h r t")
      case None
      with ReadFulfilled show ?thesis by (simp add: db_dispatch_def same_defs)
    next
      case (Some u)
      have "same_navigator t t'" if "applyStartInfo h p so b u = Inr t'" for t'
        using settle_SomeD(3) [OF Some] apply_frame(3) [OF that b] by (simp add: same_defs)
      with ReadFulfilled Some show ?thesis
        by (auto simp: db_dispatch_def same_navigator_def split: sum.split)
    qed
  qed (use bg in simp_all)
  show ?thesis
    using assms
  proof (induction as arbitrary: s)
    case Nil
    then show ?case by simp
  next
    case (Cons a as)
    with step [of a s] show ?case by (simp add: same_defs)
  qed
qed

lemma background_polls_keep_the_navigator_witness:
  "dc_navigatorDatabasesByHost (fold db_dispatch
     [ReadPending ''h1'' ''r1'' True, ReadFulfilled ''h1'' ''r1'' True sample_start_info (Some 1)] init_db_state) = []"
  using background_polls_keep_the_navigator [of "[ReadPending ''h1'' ''r1'' True,
      ReadFulfilled ''h1'' ''r1'' True sample_start_info (Some 1)]" init_db_state]
  by (simp add: init_db_state_def)

section \<open>The spinner\<close>


section \<open>Closing a host\<close>

text \<open>The events that start something new on a host.\<close>

fun starts_on :: "string \<Rightarrow> db_event \<Rightarrow> bool" where
  "starts_on h (Dispatch (ReadPending k r b)) = (k = h)"
| "starts_on h (Dispatch (StartDatabase k d p)) = (k = h)"
| "starts_on h (Dispatch (StopDatabase k d p)) = (k = h)"
| "starts_on h (Dispatch (RegisterDatabase k p)) = (k = h)"
| "starts_on h (Dispatch (DeleteDatabaseProfile k p)) = (k = h)"
| "starts_on h e = False"

definition emptied :: "string \<Rightarrow> db_state \<Rightarrow> bool" where
  "emptied h s \<longleftrightarrow> map_of (dc_pendingReadsByHost s) h \<in> {None, Some []} \<and> lists_of s h = (None, None, None, None, None)"

lemma emptied_cong:
  "dc_pendingReadsByHost s' = dc_pendingReadsByHost s \<Longrightarrow> lists_of s' h = lists_of s h \<Longrightarrow> emptied h s' = emptied h s"
  by (simp add: emptied_def)

lemma lists_of_fields [simp]:
  "lists_of (s\<lparr>dc_actionLoading := b\<rparr>) h = lists_of s h" "lists_of (s\<lparr>dc_error := e\<rparr>) h = lists_of s h"
  "lists_of (s\<lparr>dc_loggingInDatabases := m\<rparr>) h = lists_of s h"
  "lists_of (s\<lparr>dc_loggedInDatabases := l\<rparr>) h = lists_of s h"
  "lists_of (noteLoginChange k d q s) h = lists_of s h" "lists_of (addLogin k d s) h = lists_of s h"
  "lists_of (dropLogin k d s) h = lists_of s h" "lists_of (startRead k r fg s) h = lists_of s h"
  by (simp_all add: lists_of_def noteLoginChange_def addLogin_def dropLogin_def startRead_def Let_def)

lemma pending_fields [simp]:
  "dc_pendingReadsByHost (addLogin k d s) = dc_pendingReadsByHost s"
  "dc_pendingReadsByHost (dropLogin k d s) = dc_pendingReadsByHost s"
  by (simp_all add: addLogin_def dropLogin_def)

lemma emptied_apply:
  assumes "applyStartInfo k p so bg s = Inr s'" "k \<noteq> h"
  shows "emptied h s' = emptied h s"
  using apply_frame(1) [OF assms(1)] apply_frame(4) [OF assms(1)] assms(2)
  by (intro emptied_cong) (auto simp: same_reads_def)

lemma emptied_bulk [simp]: "emptied h (markBulkSucceededLoggedIn k ds q s) = emptied h s"
proof -
  have "emptied h (fold (\<lambda>d st. noteLoginChange k d q (addLogin k d st)) ds s) = emptied h s"
  proof (induction ds arbitrary: s)
    case (Cons d ds)
    have "emptied h (noteLoginChange k d q (addLogin k d s)) = emptied h s" by (rule emptied_cong) simp_all
    with Cons show ?case by simp
  qed simp
  then show ?thesis by (simp add: markBulkSucceededLoggedIn_def)
qed

lemma emptied_settle:
  assumes "settleRead k r s = Some s'"
  shows "k \<noteq> h \<and> emptied h s \<longrightarrow> emptied h s'" "emptied k s \<Longrightarrow> False"
  using assms
  by (auto simp: settleRead_def emptied_def pendingReads_def lists_of_def Let_def map_of_obj_set
      split: option.splits if_splits)

lemma emptied_fields [simp]:
  "emptied h (s\<lparr>dc_actionLoading := b\<rparr>) = emptied h s" "emptied h (s\<lparr>dc_error := e\<rparr>) = emptied h s"
  "emptied h (s\<lparr>dc_selectedDatabase := v\<rparr>) = emptied h s"
  "emptied h (s\<lparr>dc_selectedDatabaseSubItem := v\<rparr>) = emptied h s"
  "emptied h (s\<lparr>dc_activeHostUid := u\<rparr>) = emptied h s"
  "emptied h (s\<lparr>dc_loggingInDatabases := m\<rparr>) = emptied h s"
  "emptied h (noteLoginChange k d q s) = emptied h s" "emptied h (addLogin k d s) = emptied h s"
  "emptied h (dropLogin k d s) = emptied h s"
  by (simp_all add: emptied_def lists_of_def noteLoginChange_def addLogin_def dropLogin_def)

lemma emptied_start: "k \<noteq> h \<Longrightarrow> emptied h (startRead k r fg s) = emptied h s"
  by (simp add: emptied_def startRead_def Let_def map_of_obj_set lists_of_def)

lemma emptied_failed: "k \<noteq> h \<Longrightarrow> emptied h (readFailed k e q s) = emptied h s"
  by (simp add: emptied_def readFailed_def Let_def clearList_def map_of_obj_set lists_of_def)

lemma emptied_reset: "emptied h s \<Longrightarrow> emptied h (resetDatabaseState k s)"
  by (simp add: emptied_def resetDatabaseState_def evictLists_def map_of_obj_del lists_of_def)

lemma emptied_clears:
  "emptied h (clearDatabaseLoginsForHost k s) = emptied h s" "emptied h (clearDatabaseLogin k d q s) = emptied h s"
  by (simp_all add: emptied_def clearDatabaseLoginsForHost_def clearDatabaseLogin_def lists_of_def
      noteLoginChange_def dropLogin_def)

lemma emptied_reduce_bulk [simp]: "emptied h (reduce_bulk k p s) = emptied h s"
  by (cases "(k, p, s)" rule: reduce_bulk.cases) (simp_all add: action_pending_def action_rejected_def)

lemma emptied_reduce_login [simp]: "emptied h (reduce_login k d bg p s) = emptied h s"
  by (cases "(k, d, bg, p, s)" rule: reduce_login.cases) (simp_all add: Let_def)

lemma emptied_reduce_logout [simp]: "emptied h (reduce_logout k p s) = emptied h s"
  by (cases "(k, p, s)" rule: reduce_logout.cases) (simp_all add: action_pending_def action_rejected_def)

lemma emptied_applyIfAny: "applyIfAny k p q s = Inr s' \<Longrightarrow> k \<noteq> h \<Longrightarrow> emptied h s' = emptied h s"
  by (auto simp: applyIfAny_def emptied_apply split: if_splits)

lemma emptied_startStop:
  assumes "reduce_startStop k d p s = Inr s'" "k \<noteq> h"
  shows "emptied h s' = emptied h s"
  using assms
  by (cases "(k, d, p, s)" rule: reduce_startStop.cases)
    (auto simp: action_pending_def action_rejected_def res_bind_eq_Inr split: if_splits dest!: emptied_apply)

lemma emptied_register:
  assumes "reduce_register k p s = Inr s'" "k \<noteq> h"
  shows "emptied h s' = emptied h s"
  using assms
  by (cases "(k, p, s)" rule: reduce_register.cases)
    (auto simp: action_pending_def action_rejected_def emptied_applyIfAny)

lemma emptied_deleteProfile:
  assumes "reduce_deleteProfile k p s = Inr s'" "k \<noteq> h"
  shows "emptied h s' = emptied h s"
  using assms
  by (cases "(k, p, s)" rule: reduce_deleteProfile.cases)
    (auto simp: action_pending_def action_rejected_def emptied_applyIfAny)

lemma emptied_read:
  assumes "emptied h s" "db_reduce (ReadFulfilled k r b p so) s = Inr s'"
  shows "emptied h s'"
proof (cases "settleRead k r s")
  case None
  with assms show ?thesis by simp
next
  case (Some u)
  then have "k \<noteq> h" using emptied_settle(2) assms(1) by blast
  with Some assms show ?thesis using emptied_settle(1) [OF Some] emptied_apply [of k p so b u s' h] by simp
qed

lemma emptied_read_failed:
  assumes "emptied h s" "db_reduce (ReadRejected k r b e so) s = Inr s'"
  shows "emptied h s'"
proof (cases "settleRead k r s")
  case None
  with assms show ?thesis by simp
next
  case (Some u)
  then have "k \<noteq> h" using emptied_settle(2) assms(1) by blast
  with Some assms show ?thesis using emptied_settle(1) [OF Some]
    by (auto simp: emptied_failed split: option.splits if_splits)
qed

lemma emptied_reduce:
  assumes "emptied h s" "db_reduce a s = Inr s'" "\<not> starts_on h (Dispatch a)" "fresh_request a s"
  shows "emptied h s'"
  using assms
proof (cases a)
  case (StartDatabase k d p)
  with assms emptied_startStop [of k d p s s' h] show ?thesis by simp
next
  case (StopDatabase k d p)
  with assms emptied_startStop [of k d p s s' h] show ?thesis by simp
next
  case (RegisterDatabase k p)
  with assms emptied_register [of k p s s' h] show ?thesis by simp
next
  case (DeleteDatabaseProfile k p)
  with assms emptied_deleteProfile [of k p s s' h] show ?thesis by simp
next
  case (ReadFulfilled k r b p so)
  with assms emptied_read [of h s k r b p so s'] show ?thesis by simp
next
  case (ReadRejected k r b e so)
  with assms emptied_read_failed [of h s k r b e so s'] show ?thesis by simp
qed (auto simp: emptied_start emptied_reset emptied_clears)

lemma emptied_step:
  assumes "emptied h (fst sc)" "\<not> starts_on h e"
  shows "emptied h (fst (db_step e sc))"
proof (cases sc)
  case (Pair s n)
  show ?thesis
  proof (cases e)
    case (CloseHost k)
    with Pair assms show ?thesis
      by (simp add: db_dispatch_def emptied_def closeHostTabs_def evictLists_def Let_def lists_of_def map_of_obj_del)
  next
    case (Dispatch a)
    have "emptied h (db_dispatch a s)" if "db_admissible a (s, n)"
      using emptied_reduce [of h s a] assms Pair Dispatch that
      by (cases "db_reduce a s") (simp_all add: db_dispatch_def db_admissible_def)
    with Pair assms Dispatch show ?thesis by simp
  qed (use Pair assms in simp)
qed

text \<open>
  a closed host is not filled again by what was still in flight. After a host is closed, as
  long as no new read of it begins and no start, stop, registration or profile deletion on it
  settles, its lists stay absent in every view, whatever else is dispatched: late answers and
  failures of its reads, other hosts' traffic, logins, resets.
\<close>

theorem closed_host_stays_empty:
  assumes "s1 = db_step (CloseHost h) sc" "\<forall>e \<in> set es. \<not> starts_on h e" "s = fst (db_run es s1)"
  shows "map_of (dc_databasesByHost s) h = None \<and> map_of (dc_activeDatabasesByHost s) h = None
    \<and> map_of (dc_navigatorDatabasesByHost s) h = None \<and> map_of (dc_navigatorActiveDatabasesByHost s) h = None
    \<and> map_of (dc_haDbNamesByHost s) h = None"
proof -
  have "emptied h (fst s1)"
    unfolding assms(1)
    by (cases sc) (simp add: db_dispatch_def emptied_def closeHostTabs_def evictLists_def Let_def
        lists_of_def map_of_obj_del)
  then have "emptied h (fst (db_run es s1))"
    unfolding db_run_def using assms(2) by (intro fold_stable [of es "\<lambda>sc. emptied h (fst sc)"]) (auto intro: emptied_step)
  then show ?thesis by (simp add: assms(3) emptied_def lists_of_def)
qed

lemma closed_host_stays_empty_witness:
  "map_of (dc_databasesByHost (fst (db_run [Dispatch (ReadFulfilled ''h1'' ''r1'' False sample_start_info (Some 1))]
     (db_step (CloseHost ''h1'') (startRead ''h1'' ''r1'' True init_db_state, 1))))) ''h1'' = None"
  using closed_host_stays_empty [OF refl _ refl, of "[Dispatch (ReadFulfilled ''h1'' ''r1'' False sample_start_info (Some 1))]"
      "''h1''" "(startRead ''h1'' ''r1'' True init_db_state, 1)"] by simp

end
