(* ===== verification/DatabaseThunks.thy ===== *)
theory DatabaseThunks
  imports DatabaseProps
begin

text \<open>
  The thunks of \<open>databaseCoreSlice.js\<close> and of \<open>isAmbiguousFailure.js\<close>: the phase each settles in,
  given the outcome of its server call (a parameter) and the number drawn when the call returned;
  and what a start-info response does to the padlocks and to the lists.
\<close>

section \<open>Outcomes\<close>

text \<open>A failed call had no response at all, or a response with an optional \<open>message\<close> and \<open>error\<close>.\<close>

datatype call_error = NoResponse | Response "string option" "string option"

definition isAmbiguousFailure :: "call_error \<Rightarrow> bool" where
  "isAmbiguousFailure e \<longleftrightarrow> e = NoResponse"

definition callMessage :: "string \<Rightarrow> call_error \<Rightarrow> string" where
  "callMessage fallback e =
     (case e of NoResponse \<Rightarrow> fallback | Response m er \<Rightarrow> str_or m (str_or er fallback))"

definition settleCall ::
  "string \<Rightarrow> ('r \<Rightarrow> 'p) \<Rightarrow> call_error + 'r \<Rightarrow> nat \<Rightarrow> ('p \<times> nat, string) phase" where
  "settleCall fallback f r seq =
     (case r of Inl e \<Rightarrow> Rejected (callMessage fallback e) | Inr x \<Rightarrow> Fulfilled (f x, seq))"

text \<open>A shared read (\<open>readStartInfo\<close>) never rejects; it gives an outcome with its request's number.\<close>

definition fetchDatabaseStartInfo :: "(call_error + js) \<times> nat \<Rightarrow> (js \<times> nat, string \<times> nat) phase" where
  "fetchDatabaseStartInfo r =
     (case fst r of
        Inl e \<Rightarrow> Rejected (callMessage ''Failed to fetch database information'' e, snd r)
      | Inr v \<Rightarrow> Fulfilled (v, snd r))"

text \<open>The second component says whether the list is fetched again.\<close>

definition startDatabase ::
  "string \<Rightarrow> call_error + js \<Rightarrow> nat \<Rightarrow> (js \<times> nat, string) phase \<times> bool" where
  "startDatabase dbname r seq =
     (settleCall (''Failed to start database '' @ dbname) id r seq,
      (case r of Inl e \<Rightarrow> isAmbiguousFailure e | Inr _ \<Rightarrow> False))"

text \<open>The name of an entry of the active list: the entry itself, or its \<open>dbname\<close>.\<close>

definition activeName :: "js \<Rightarrow> js" where
  "activeName a = (if is_str a then a else js_get a ''dbname'')"

definition validActive :: "js \<Rightarrow> bool" where
  "validActive active = (case active of
      Arr vs \<Rightarrow> list_all (\<lambda>a. is_str (activeName a) \<and> str_of (activeName a) \<noteq> []) vs
    | _ \<Rightarrow> False)"

text \<open>After a failed stop one start-info probe is made, with outcome \<open>probe\<close>.\<close>

definition stopDatabase ::
  "string \<Rightarrow> call_error + js \<Rightarrow> call_error + js \<Rightarrow> nat \<Rightarrow> (js \<times> nat, string) phase \<times> bool" where
  "stopDatabase dbname r probe seq =
     (case r of
        Inr response \<Rightarrow> (Fulfilled (response, seq), False)
      | Inl e \<Rightarrow>
          (let failed = (Rejected (callMessage (''Failed to stop database '' @ dbname) e), isAmbiguousFailure e)
           in case probe of
                Inl _ \<Rightarrow> failed
              | Inr info \<Rightarrow>
                  (let active = js_get (js_get info ''activelist'') ''active''
                   in if validActive active \<and>
                         \<not> list_ex (\<lambda>a. activeName a = Str dbname) (ensureArray active)
                      then (Fulfilled (info, seq), False) else failed)))"

definition startAllDatabases :: "call_error + string list \<Rightarrow> nat \<Rightarrow> (string list \<times> nat, string) phase" where
  "startAllDatabases = settleCall ''Failed to start databases'' id"

definition stopAllDatabases :: "call_error + string list \<Rightarrow> nat \<Rightarrow> (string list \<times> nat, string) phase" where
  "stopAllDatabases = settleCall ''Failed to stop databases'' id"

definition runSelectedDatabasesAction ::
  "string \<Rightarrow> call_error + string list \<Rightarrow> nat \<Rightarrow> (string list \<times> nat, string) phase" where
  "runSelectedDatabasesAction action = settleCall (''Failed to '' @ action @ '' databases'') id"

text \<open>\<open>{ dbname, ...response }\<close>: a \<open>dbname\<close> in the response wins.\<close>

definition loginDatabase :: "string \<Rightarrow> call_error + string option \<Rightarrow> nat \<Rightarrow> (string \<times> nat, string) phase" where
  "loginDatabase dbname = settleCall (''Failed to login to database '' @ dbname)
     (\<lambda>r. case r of None \<Rightarrow> dbname | Some d \<Rightarrow> d)"

definition logoutDatabase :: "string \<Rightarrow> call_error + unit \<Rightarrow> nat \<Rightarrow> (string \<times> nat, string) phase" where
  "logoutDatabase dbname = settleCall (''Failed to log out of database '' @ dbname) (\<lambda>_. dbname)"

definition registerDatabase :: "string \<Rightarrow> call_error + js \<Rightarrow> nat \<Rightarrow> (js \<times> nat, string) phase" where
  "registerDatabase dbname = settleCall (''Failed to register database '' @ dbname) id"

definition deleteDatabaseProfile :: "string \<Rightarrow> call_error + js \<Rightarrow> nat \<Rightarrow> (string \<times> js \<times> nat, string) phase" where
  "deleteDatabaseProfile dbname r seq =
     (case r of
        Inl e \<Rightarrow> Rejected (callMessage (''Failed to delete saved credentials for '' @ dbname) e)
      | Inr x \<Rightarrow> Fulfilled (dbname, x, seq))"

section \<open>Padlocks\<close>

lemma starts_with_dbKey [simp]: "starts_with (dbKey h []) (dbKey h d)"
  by (simp add: dbKey_def starts_with_append)

text \<open>
  the padlocks of a host follow the server. After a start-info response with login fields is
  let in, a database of the host is shown as logged in exactly when the response says so, except
  that a login in flight keeps its padlock and a login or logout the client made after the
  response was read is not undone; every other host's padlocks are untouched.
\<close>

theorem padlocks_follow_the_server:
  assumes "h \<noteq> []" "login_entries p \<noteq> []" "s' = syncLoggedInFromStartInfo p h q s"
  shows "key \<in> set (dc_loggedInDatabases s') \<longleftrightarrow>
     (if starts_with (dbKey h []) key
      then key \<in> set (dc_loggedInDatabases s) \<and> (flag (dc_loggingInDatabases s) key \<or> changedSince q s key)
         \<or> (\<exists>d \<in> set (reported_logins (login_entries p)). key = dbKey h d) \<and> \<not> changedSince q s key
      else key \<in> set (dc_loggedInDatabases s))"
proof -
  have "set (dc_loggedInDatabases s') =
      {k \<in> set (dc_loggedInDatabases s). \<not> starts_with (dbKey h []) k \<or> flag (dc_loggingInDatabases s) k \<or> changedSince q s k}
      \<union> {k \<in> dbKey h ` set (reported_logins (login_entries p)). \<not> changedSince q s k}"
    using assms by (simp add: syncLoggedInFromStartInfo_def set_fold_push)
  then show ?thesis by auto
qed

lemma padlocks_follow_the_server_witness:
  "login_entries sample_start_info \<noteq> [] \<and>
   ''h1:demodb'' \<in> set (dc_loggedInDatabases (syncLoggedInFromStartInfo sample_start_info ''h1'' 1 init_db_state))"
proof -
  have e: "login_entries sample_start_info \<noteq> []" by code_simp
  have d: "reported_logins (login_entries sample_start_info) = [''demodb'']" by code_simp
  have c: "\<not> changedSince 1 init_db_state ''h1:demodb''" by code_simp
  have k: "starts_with (dbKey ''h1'' []) ''h1:demodb''" "dbKey ''h1'' ''demodb'' = ''h1:demodb''" by code_simp+
  show ?thesis
    using padlocks_follow_the_server [of "''h1''" sample_start_info _ 1 init_db_state "''h1:demodb''", OF _ e refl] e d c k
    by simp
qed

section \<open>The lists\<close>

lemma js_dot_get: "js_dot v k = Inr x \<Longrightarrow> x = js_get v k"
  by (cases v) auto

lemma res_map_dot: "res_map (\<lambda>db. js_dot db k) xs = Inr ys \<Longrightarrow> ys = map (\<lambda>db. js_get db k) xs"
  by (induction xs arbitrary: ys) (auto simp: res_bind_eq_Inr dest: js_dot_get)

lemma missing_entry_name [simp]: "js_get (missing_entry a name) ''dbname'' = name"
  by (simp add: missing_entry_def split: option.split)

lemma merged_list_names:
  assumes "merged_list p prev = Inr xs"
  shows "\<exists>added. xs = ensureArray (js_get (js_get p ''dblist'') ''dbs'') @ added"
    "\<forall>name \<in> set (if js_get p ''activelist'' = Undefined then prev
        else active_names (js_get (js_get p ''activelist'') ''active'')).
      \<exists>db \<in> set xs. js_get db ''dbname'' = name"
proof -
  from assms obtain ks where "res_map (\<lambda>db. js_dot db ''dbname'') (ensureArray (js_get (js_get p ''dblist'') ''dbs'')) = Inr ks"
    and xs: "xs = ensureArray (js_get (js_get p ''dblist'') ''dbs'') @
       map (missing_entry (js_get (js_get p ''activelist'') ''active''))
         (filter (\<lambda>name. name \<notin> set ks) (if js_get p ''activelist'' = Undefined then prev
           else active_names (js_get (js_get p ''activelist'') ''active'')))"
    by (auto simp: merged_list_def Let_def res_bind_eq_Inr)
  note ks = res_map_dot [OF this(1)]
  from xs show "\<exists>added. xs = ensureArray (js_get (js_get p ''dblist'') ''dbs'') @ added" by blast
  show "\<forall>name \<in> set (if js_get p ''activelist'' = Undefined then prev
        else active_names (js_get (js_get p ''activelist'') ''active'')).
      \<exists>db \<in> set xs. js_get db ''dbname'' = name"
  proof
    fix name
    assume n: "name \<in> set (if js_get p ''activelist'' = Undefined then prev
        else active_names (js_get (js_get p ''activelist'') ''active''))"
    show "\<exists>db \<in> set xs. js_get db ''dbname'' = name"
    proof (cases "name \<in> set ks")
      case True
      then show ?thesis unfolding ks xs by auto
    next
      case False
      with n have "missing_entry (js_get (js_get p ''activelist'') ''active'') name \<in> set xs"
        unfolding xs by auto
      then show ?thesis by (rule bexI [rotated]) simp
    qed
  qed
qed

lemma parse_live:
  assumes "parseDbResponse p h True n q s = Inr s'" "truthy p"
  shows "map_of (dc_activeDatabasesByHost s') h =
       (if js_get p ''activelist'' = Undefined then map_of (dc_activeDatabasesByHost s) h
        else Some (active_names (js_get (js_get p ''activelist'') ''active'')))"
    and "js_get (js_get p ''dblist'') ''dbs'' \<noteq> Undefined \<Longrightarrow>
      \<exists>xs. map_of (dc_databasesByHost s') h = Some xs \<and>
        merged_list p (case map_of (dc_activeDatabasesByHost s) h of None \<Rightarrow> [] | Some ys \<Rightarrow> ys) = Inr xs"
proof -
  obtain s1 s2 where s1: "set_databases p h True n (set_active p h True n s) = Inr s1"
    and s2: "check_selection p h s1 = Inr s2"
    and s': "s' = set_haDbNames p h (syncLoggedInFromStartInfo p h q s2)"
    using assms by (auto simp: parseDbResponse_def res_bind_eq_Inr)
  have tail: "dc_databasesByHost s' = dc_databasesByHost s1" "dc_activeDatabasesByHost s' = dc_activeDatabasesByHost s1"
    using check_selection_frame(5) [OF s2]
    by (auto simp: s' set_haDbNames_def syncLoggedInFromStartInfo_def Let_def same_live_def split: js.split)
  have act: "map_of (dc_activeDatabasesByHost (set_active p h True n s)) h =
      (if js_get p ''activelist'' = Undefined then map_of (dc_activeDatabasesByHost s) h
       else Some (active_names (js_get (js_get p ''activelist'') ''active'')))"
    by (simp add: set_active_def Let_def map_of_obj_set)
  have same: "dc_activeDatabasesByHost s1 = dc_activeDatabasesByHost (set_active p h True n s)"
    using s1 by (auto simp: set_databases_def res_bind_eq_Inr Let_def split: if_splits)
  with act tail show "map_of (dc_activeDatabasesByHost s') h =
       (if js_get p ''activelist'' = Undefined then map_of (dc_activeDatabasesByHost s) h
        else Some (active_names (js_get (js_get p ''activelist'') ''active'')))" by simp
  assume "js_get (js_get p ''dblist'') ''dbs'' \<noteq> Undefined"
  with s1 obtain xs where
    m: "merged_list p (case map_of (dc_activeDatabasesByHost (set_active p h True n s)) h of None \<Rightarrow> [] | Some ys \<Rightarrow> ys) = Inr xs"
    and db: "map_of (dc_databasesByHost s1) h = Some xs"
    by (auto simp: set_databases_def res_bind_eq_Inr Let_def map_of_obj_set)
  have "merged_list p (case map_of (dc_activeDatabasesByHost s) h of None \<Rightarrow> [] | Some ys \<Rightarrow> ys) = Inr xs"
    using m unfolding act by (auto simp: merged_list_def Let_def split: if_splits)
  with db tail show "\<exists>xs. map_of (dc_databasesByHost s') h = Some xs \<and>
        merged_list p (case map_of (dc_activeDatabasesByHost s) h of None \<Rightarrow> [] | Some ys \<Rightarrow> ys) = Inr xs"
    by simp
qed

text \<open>A newer response reaches the parser with the live view open.\<close>

lemma apply_live:
  assumes "applyStartInfo h p (Some q) bg s = Inr s'" "h \<noteq> []" "q > get0 (dc_appliedLiveSeqByHost s) h"
  obtains n s0 where "parseDbResponse p h True n q s0 = Inr s'"
    "dc_activeDatabasesByHost s0 = dc_activeDatabasesByHost s"
proof -
  let ?s1 = "s\<lparr>dc_appliedLiveSeqByHost := obj_set h q (dc_appliedLiveSeqByHost s)\<rparr>"
  let ?s2 = "?s1\<lparr>dc_appliedNavigatorSeqByHost := obj_set h q (dc_appliedNavigatorSeqByHost ?s1)\<rparr>"
  have "parseDbResponse p h True True q ?s2 = Inr s' \<or> parseDbResponse p h True False q ?s1 = Inr s'"
    using assms by (auto simp: applyStartInfo_def Let_def split: if_splits)
  then show ?thesis using that [of True ?s2] that [of False ?s1] by auto
qed

text \<open>
  every running database is in the list. When a response with a database list is let into the
  live view, the host's list starts with the entries the server sent, unchanged and in order, and
  has an entry for every database the host's active list names, also for those the server's own
  list leaves out.
\<close>

theorem running_databases_are_listed:
  assumes "applyStartInfo h p (Some q) bg s = Inr s'" "h \<noteq> []" "q > get0 (dc_appliedLiveSeqByHost s) h"
    and "truthy p" "js_get (js_get p ''dblist'') ''dbs'' \<noteq> Undefined"
  shows "\<exists>dbs added. map_of (dc_databasesByHost s') h = Some dbs
    \<and> dbs = ensureArray (js_get (js_get p ''dblist'') ''dbs'') @ added
    \<and> (\<forall>names. map_of (dc_activeDatabasesByHost s') h = Some names \<longrightarrow>
         (\<forall>name \<in> set names. \<exists>db \<in> set dbs. js_get db ''dbname'' = name))"
proof -
  obtain n s0 where r: "parseDbResponse p h True n q s0 = Inr s'"
    and s0: "dc_activeDatabasesByHost s0 = dc_activeDatabasesByHost s"
    by (rule apply_live [OF assms(1-3)])
  from parse_live(2) [OF r assms(4,5)] obtain xs where xs: "map_of (dc_databasesByHost s') h = Some xs"
    "merged_list p (case map_of (dc_activeDatabasesByHost s) h of None \<Rightarrow> [] | Some ys \<Rightarrow> ys) = Inr xs"
    unfolding s0 by blast
  note act = parse_live(1) [OF r assms(4), unfolded s0]
  note m = merged_list_names [OF xs(2)]
  from m(1) obtain added where "xs = ensureArray (js_get (js_get p ''dblist'') ''dbs'') @ added" by blast
  with xs(1) m(2) act show ?thesis by (intro exI [of _ xs] exI [of _ added]) (auto split: if_splits)
qed

lemma running_databases_are_listed_witness:
  "\<exists>s'. applyStartInfo ''h1'' (Obj [(''dblist'', Obj [(''dbs'', Arr [])]),
        (''activelist'', Obj [(''active'', Arr [Str ''replica''])])]) (Some 1) False init_db_state = Inr s'
    \<and> (\<exists>dbs. map_of (dc_databasesByHost s') ''h1'' = Some dbs \<and> (\<exists>db \<in> set dbs. js_get db ''dbname'' = Str ''replica''))"
proof -
  let ?p = "Obj [(''dblist'', Obj [(''dbs'', Arr [])]), (''activelist'', Obj [(''active'', Arr [Str ''replica''])])]"
  have "(case applyStartInfo ''h1'' ?p (Some 1) False init_db_state of Inl _ \<Rightarrow> False
      | Inr s' \<Rightarrow> map_of (dc_activeDatabasesByHost s') ''h1'' = Some [Str ''replica''])" by code_simp
  then obtain s' where s': "applyStartInfo ''h1'' ?p (Some 1) False init_db_state = Inr s'"
    and a: "map_of (dc_activeDatabasesByHost s') ''h1'' = Some [Str ''replica'']"
    by (cases "applyStartInfo ''h1'' ?p (Some 1) False init_db_state") auto
  have q: "(1 :: nat) > get0 (dc_appliedLiveSeqByHost init_db_state) ''h1''"
    by (simp add: init_db_state_def get0_def)
  have "\<exists>dbs. map_of (dc_databasesByHost s') ''h1'' = Some dbs \<and> (\<exists>db \<in> set dbs. js_get db ''dbname'' = Str ''replica'')"
    using running_databases_are_listed [OF s' _ q] a by auto
  with s' show ?thesis by blast
qed

section \<open>An ambiguous stop\<close>

text \<open>
  a stop whose call failed is taken for done only on sound evidence. It succeeds only when
  the probe answered with a well-formed list of active databases, every entry named, that does
  not name the database; and then the host's live list does not name it either once the result
  is let in. Otherwise it fails, and the list is fetched again exactly when no response came.
\<close>

theorem failed_stop_needs_evidence:
  assumes "stopDatabase dbname (Inl e) probe q = (out, refetch)"
  shows "(case out of
      Fulfilled (p, q') \<Rightarrow> q' = q \<and> \<not> refetch \<and> probe = Inr p
        \<and> (\<exists>vs. js_get (js_get p ''activelist'') ''active'' = Arr vs
             \<and> (\<forall>a \<in> set vs. is_str (activeName a) \<and> activeName a \<noteq> Str [] \<and> activeName a \<noteq> Str dbname))
        \<and> (\<forall>h s s' names. applyStartInfo h p (Some q) False s = Inr s' \<and> h \<noteq> []
             \<and> q > get0 (dc_appliedLiveSeqByHost s) h \<and> map_of (dc_activeDatabasesByHost s') h = Some names
             \<longrightarrow> Str dbname \<notin> set names)
    | Rejected m \<Rightarrow> refetch = isAmbiguousFailure e
    | Pending \<Rightarrow> False)"
proof (cases out)
  case Pending
  with assms show ?thesis by (auto simp: stopDatabase_def Let_def split: sum.splits if_splits)
next
  case (Rejected m)
  with assms show ?thesis by (auto simp: stopDatabase_def Let_def split: sum.splits if_splits)
next
  case (Fulfilled pq)
  obtain p q' where pq: "pq = (p, q')" by (cases pq)
  let ?act = "js_get (js_get p ''activelist'') ''active''"
  from assms Fulfilled pq have probe: "probe = Inr p" "q' = q" "\<not> refetch"
    and v: "validActive ?act" "\<not> list_ex (\<lambda>a. activeName a = Str dbname) (ensureArray ?act)"
    by (auto simp: stopDatabase_def Let_def split: sum.splits if_splits)
  from v(1) obtain vs where vs: "?act = Arr vs" by (cases ?act) (simp_all add: validActive_def)
  with v have each: "\<forall>a \<in> set vs. is_str (activeName a) \<and> activeName a \<noteq> Str [] \<and> activeName a \<noteq> Str dbname"
    by (auto simp: validActive_def list_all_iff list_ex_iff)
  have names: "Str dbname \<notin> set (active_names ?act)"
    using each unfolding vs active_names_def activeName_def [symmetric] by auto
  have def: "js_get p ''activelist'' \<noteq> Undefined" and t: "truthy p"
    using vs by (auto, cases p, auto)
  have "Str dbname \<notin> set ns"
    if a: "applyStartInfo h p (Some q) False s = Inr s'" "h \<noteq> []" "q > get0 (dc_appliedLiveSeqByHost s) h"
      "map_of (dc_activeDatabasesByHost s') h = Some ns"
    for h s s' ns
  proof -
    obtain n s0 where r: "parseDbResponse p h True n q s0 = Inr s'"
      by (rule apply_live [OF a(1-3)])
    from parse_live(1) [OF r t] def a(4) have "ns = active_names ?act" by simp
    with names show ?thesis by simp
  qed
  with Fulfilled pq probe vs each show ?thesis by auto
qed

lemma failed_stop_needs_evidence_witness:
  "stopDatabase ''demodb'' (Inl NoResponse) (Inr sample_start_info) 3 = (Rejected ''Failed to stop database demodb'', True)
   \<and> (\<exists>p. stopDatabase ''demodb'' (Inl NoResponse) (Inr sample_empty_info) 3 = (Fulfilled (p, 3), False)
        \<and> js_get (js_get p ''activelist'') ''active'' = Arr [])"
proof -
  have r: "stopDatabase ''demodb'' (Inl NoResponse) (Inr sample_start_info) 3 = (Rejected ''Failed to stop database demodb'', True)"
    by code_simp
  have f: "stopDatabase ''demodb'' (Inl NoResponse) (Inr sample_empty_info) 3 = (Fulfilled (sample_empty_info, 3), False)"
    by code_simp
  have e: "js_get (js_get sample_empty_info ''activelist'') ''active'' = Arr []" by code_simp
  show ?thesis using failed_stop_needs_evidence [OF f] r f e by auto
qed

end
