(* ===== verification/SharedReads.thy ===== *)
theory SharedReads
  imports JsPrelude
begin

text \<open>
  Model of \<open>apps/web-manager/src/infrastructure/utils/singleFlight.js\<close>: sharing of reads. A
  promise is a number; a request is sent for a promise when \<open>launch\<close> draws its sequence number.
  Events are a caller asking for a read and a request settling. When the request in flight
  settles, the promise callbacks run in the order they were registered: first \<open>settle\<close>, then, if
  a read is queued, its \<open>launch\<close>; they are one step here. What a request answers does not matter
  to the sharing.
\<close>

section \<open>createSingleFlight\<close>

record single_flight =
  sf_pending :: "(string, nat) obj"
  sf_next :: nat

definition single_flight_ask :: "string \<Rightarrow> single_flight \<Rightarrow> nat \<times> single_flight" where
  "single_flight_ask key st =
     (case map_of (sf_pending st) key of
        Some p \<Rightarrow> (p, st)
      | None \<Rightarrow> (sf_next st, st\<lparr>sf_pending := obj_set key (sf_next st) (sf_pending st), sf_next := Suc (sf_next st)\<rparr>))"

text \<open>The promise of \<open>key\<close> settles.\<close>

definition single_flight_settle :: "string \<Rightarrow> single_flight \<Rightarrow> single_flight" where
  "single_flight_settle key st = st\<lparr>sf_pending := obj_del key (sf_pending st)\<rparr>"

section \<open>createSharedReads\<close>

record read_entry =
  re_current :: nat
  re_next :: "nat option"

text \<open>\<open>rd_lastSeq\<close> is the module's counter; \<open>rd_seqs\<close> records the number of every request sent and
  \<open>rd_flight\<close> the ones that have not settled, with their keys.\<close>

record shared_reads =
  rd_entries :: "(string, read_entry) obj"
  rd_lastSeq :: nat
  rd_promises :: nat
  rd_seqs :: "(nat \<times> nat) list"
  rd_flight :: "(nat \<times> string) list"

definition init_shared_reads :: "nat \<Rightarrow> shared_reads" where
  "init_shared_reads n = \<lparr>rd_entries = [], rd_lastSeq = n, rd_promises = 0, rd_seqs = [], rd_flight = []\<rparr>"

definition nextSeq :: "shared_reads \<Rightarrow> shared_reads" where
  "nextSeq st = st\<lparr>rd_lastSeq := Suc (rd_lastSeq st)\<rparr>"

definition launch :: "nat \<Rightarrow> string \<Rightarrow> shared_reads \<Rightarrow> shared_reads" where
  "launch p key st =
     (let st1 = nextSeq st
      in st1\<lparr>rd_seqs := (p, rd_lastSeq st1) # rd_seqs st1, rd_flight := (p, key) # rd_flight st1\<rparr>)"

definition shared_ask :: "string \<Rightarrow> bool \<Rightarrow> shared_reads \<Rightarrow> nat \<times> shared_reads" where
  "shared_ask key fresh st =
     (let p = rd_promises st; st1 = st\<lparr>rd_promises := Suc p\<rparr>
      in case map_of (rd_entries st) key of
           None \<Rightarrow> (p, (launch p key st1)\<lparr>rd_entries :=
                       obj_set key \<lparr>re_current = p, re_next = None\<rparr> (rd_entries st)\<rparr>)
         | Some entry \<Rightarrow>
             if \<not> fresh then (re_current entry, st)
             else (case re_next entry of
                     Some q \<Rightarrow> (q, st)
                   | None \<Rightarrow> (p, st1\<lparr>rd_entries := obj_set key (entry\<lparr>re_next := Some p\<rparr>) (rd_entries st)\<rparr>)))"

text \<open>The request of promise \<open>p\<close>, sent for \<open>key\<close>, settles.\<close>

definition shared_settle :: "nat \<Rightarrow> string \<Rightarrow> shared_reads \<Rightarrow> shared_reads" where
  "shared_settle p key st =
     (let st1 = st\<lparr>rd_flight := filter (\<lambda>f. f \<noteq> (p, key)) (rd_flight st)\<rparr>
      in case map_of (rd_entries st) key of
           None \<Rightarrow> st1
         | Some entry \<Rightarrow>
             if re_current entry \<noteq> p then st1
             else (case re_next entry of
                     None \<Rightarrow> st1\<lparr>rd_entries := obj_del key (rd_entries st)\<rparr>
                   | Some q \<Rightarrow> launch q key
                       (st1\<lparr>rd_entries := obj_set key \<lparr>re_current = q, re_next = None\<rparr> (rd_entries st)\<rparr>)))"

text \<open>Other users of the module draw numbers too. A request settles only while it is in flight.\<close>

datatype read_event = Ask string bool | Settle nat string | OtherSeq

fun read_step :: "read_event \<Rightarrow> shared_reads \<Rightarrow> shared_reads" where
  "read_step (Ask key fresh) st = snd (shared_ask key fresh st)"
| "read_step (Settle p key) st = (if (p, key) \<in> set (rd_flight st) then shared_settle p key st else st)"
| "read_step OtherSeq st = nextSeq st"

section \<open>Invariant\<close>

text \<open>The request in flight for a key is the one its entry names, a queued promise has not been
  sent, and promises are handed out once.\<close>

definition flight_inv :: "shared_reads \<Rightarrow> bool" where
  "flight_inv st \<longleftrightarrow> distinct (rd_flight st) \<and>
     (\<forall>p key. (p, key) \<in> set (rd_flight st) \<longleftrightarrow> map_option re_current (map_of (rd_entries st) key) = Some p)"

definition queued :: "shared_reads \<Rightarrow> string \<Rightarrow> nat \<Rightarrow> bool" where
  "queued st key q \<longleftrightarrow> (\<exists>e. map_of (rd_entries st) key = Some e \<and> re_next e = Some q)"

definition queue_inv :: "shared_reads \<Rightarrow> bool" where
  "queue_inv st \<longleftrightarrow>
     (\<forall>p \<in> fst ` set (rd_seqs st). p < rd_promises st) \<and>
     (\<forall>key q. queued st key q \<longrightarrow> q < rd_promises st \<and> q \<notin> fst ` set (rd_seqs st)) \<and>
     (\<forall>k k' q. queued st k q \<longrightarrow> queued st k' q \<longrightarrow> k = k')"

definition reads_inv :: "shared_reads \<Rightarrow> bool" where
  "reads_inv st \<longleftrightarrow> flight_inv st \<and> queue_inv st"

lemma reads_inv_init: "reads_inv (init_shared_reads n)"
  by (simp add: reads_inv_def flight_inv_def queue_inv_def queued_def init_shared_reads_def)

lemma launch_fields [simp]:
  "rd_entries (launch p key st) = rd_entries st" "rd_lastSeq (launch p key st) = Suc (rd_lastSeq st)"
  "rd_promises (launch p key st) = rd_promises st"
  "rd_seqs (launch p key st) = (p, Suc (rd_lastSeq st)) # rd_seqs st"
  "rd_flight (launch p key st) = (p, key) # rd_flight st"
  by (simp_all add: launch_def nextSeq_def Let_def)

lemma queued_set:
  "rd_entries st' = obj_set key e (rd_entries st) \<Longrightarrow>
     queued st' k q \<longleftrightarrow> (if k = key then re_next e = Some q else queued st k q)"
  by (simp add: queued_def map_of_obj_set)

lemma queued_del:
  "rd_entries st' = obj_del key (rd_entries st) \<Longrightarrow> queued st' k q \<longleftrightarrow> k \<noteq> key \<and> queued st k q"
  by (simp add: queued_def map_of_obj_del)

lemma queue_inv_ask: "queue_inv st \<Longrightarrow> queue_inv (snd (shared_ask key fresh st))"
proof -
  assume inv: "queue_inv st"
  show ?thesis
  proof (cases "map_of (rd_entries st) key")
    case None
    let ?st = "snd (shared_ask key fresh st)"
    have f: "rd_promises ?st = Suc (rd_promises st)"
      "rd_seqs ?st = (rd_promises st, Suc (rd_lastSeq st)) # rd_seqs st"
      "rd_entries ?st = obj_set key \<lparr>re_current = rd_promises st, re_next = None\<rparr> (rd_entries st)"
      using None by (simp_all add: shared_ask_def Let_def)
    show ?thesis using inv unfolding queue_inv_def queued_set [OF f(3)] f(1,2)
      by (auto simp: less_SucI)
  next
    case (Some e)
    show ?thesis
    proof (cases "fresh \<and> re_next e = None")
      case True
      let ?st = "snd (shared_ask key fresh st)"
      have f: "rd_promises ?st = Suc (rd_promises st)" "rd_seqs ?st = rd_seqs st"
        "rd_entries ?st = obj_set key (e\<lparr>re_next := Some (rd_promises st)\<rparr>) (rd_entries st)"
        using Some True by (simp_all add: shared_ask_def Let_def)
      show ?thesis using inv unfolding queue_inv_def queued_set [OF f(3)] f(1,2)
        by (auto simp: less_SucI)
    next
      case False
      with Some have "snd (shared_ask key fresh st) = st"
        by (auto simp: shared_ask_def Let_def split: option.split)
      with inv show ?thesis by simp
    qed
  qed
qed

lemma queue_inv_settle: "queue_inv st \<Longrightarrow> queue_inv (shared_settle p key st)"
proof -
  assume inv: "queue_inv st"
  show ?thesis
  proof (cases "map_of (rd_entries st) key")
    case None
    with inv show ?thesis by (simp add: shared_settle_def Let_def queue_inv_def queued_def)
  next
    case (Some e)
    show ?thesis
    proof (cases "re_current e = p")
      case False
      with Some inv show ?thesis by (simp add: shared_settle_def Let_def queue_inv_def queued_def)
    next
      case cur: True
      let ?st = "shared_settle p key st"
      show ?thesis
      proof (cases "re_next e")
        case None
        then have f: "rd_promises ?st = rd_promises st" "rd_seqs ?st = rd_seqs st"
          "rd_entries ?st = obj_del key (rd_entries st)"
          using Some cur by (simp_all add: shared_settle_def Let_def)
        show ?thesis using inv unfolding queue_inv_def queued_del [OF f(3)] f(1,2) by blast
      next
        case (Some q)
        with \<open>map_of (rd_entries st) key = Some e\<close> cur
        have f: "rd_promises ?st = rd_promises st" "rd_seqs ?st = (q, Suc (rd_lastSeq st)) # rd_seqs st"
          "rd_entries ?st = obj_set key \<lparr>re_current = q, re_next = None\<rparr> (rd_entries st)"
          and q: "queued st key q"
          by (simp_all add: shared_settle_def Let_def queued_def)
        show ?thesis using inv q unfolding queue_inv_def queued_set [OF f(3)] f(1,2) by auto
      qed
    qed
  qed
qed

lemma flight_inv_ask: "flight_inv st \<Longrightarrow> flight_inv (snd (shared_ask key fresh st))"
  by (auto simp: shared_ask_def Let_def flight_inv_def map_of_obj_set split: option.splits)

lemma flight_inv_settle:
  assumes "flight_inv st" "(p, key) \<in> set (rd_flight st)"
  shows "flight_inv (shared_settle p key st)"
proof -
  obtain e where e: "map_of (rd_entries st) key = Some e" "re_current e = p"
    using assms by (auto simp: flight_inv_def)
  with assms(1) show ?thesis
    by (auto simp: shared_settle_def Let_def flight_inv_def map_of_obj_set map_of_obj_del split: option.split)
qed

lemma reads_inv_step: "reads_inv st \<Longrightarrow> reads_inv (read_step e st)"
proof (cases e)
  case OtherSeq
  then show "reads_inv st \<Longrightarrow> ?thesis"
    by (simp add: reads_inv_def flight_inv_def queue_inv_def queued_def nextSeq_def)
qed (simp_all add: reads_inv_def flight_inv_ask queue_inv_ask flight_inv_settle queue_inv_settle)

lemma lastSeq_step: "rd_lastSeq st \<le> rd_lastSeq (read_step e st)"
  by (cases e) (auto simp: shared_ask_def shared_settle_def nextSeq_def Let_def split: option.split)

interpretation shared_reads_slice: monotone_slice read_step reads_inv rd_lastSeq
  by unfold_locales (simp_all add: reads_inv_step lastSeq_step)

section \<open>Properties\<close>

lemma length_filter_unique:
  "distinct xs \<Longrightarrow> (\<And>p q. (p, key) \<in> set xs \<Longrightarrow> (q, key) \<in> set xs \<Longrightarrow> p = q) \<Longrightarrow>
     length (filter (\<lambda>f. snd f = key) xs) \<le> 1"
proof (induction xs)
  case Nil
  then show ?case by simp
next
  case (Cons x xs)
  show ?case
  proof (cases "snd x = key")
    case True
    have "(p, key) \<notin> set xs" for p
      using Cons.prems(1) Cons.prems(2) [of p "fst x"] True by (cases x) auto
    then have "filter (\<lambda>f. snd f = key) xs = []" by (auto simp: filter_empty_conv)
    with True show ?thesis by simp
  next
    case False
    with Cons show ?thesis by simp
  qed
qed

text \<open>
  reads are shared. At any time, for every key at most one request is in flight, and a read
  is queued only behind one: over any sequence of asks and settlements from the initial state no
  key ever has two requests out.
\<close>

theorem one_request_per_key:
  "length (filter (\<lambda>f. snd f = key) (rd_flight (fold read_step es (init_shared_reads n)))) \<le> 1
   \<and> (\<forall>q. queued (fold read_step es (init_shared_reads n)) key q \<longrightarrow>
        (\<exists>p. (p, key) \<in> set (rd_flight (fold read_step es (init_shared_reads n)))))"
proof -
  let ?st = "fold read_step es (init_shared_reads n)"
  have "reads_inv ?st" by (rule shared_reads_slice.run_inv) (rule reads_inv_init)
  then have inv: "flight_inv ?st" by (simp add: reads_inv_def)
  have "length (filter (\<lambda>f. snd f = key) (rd_flight ?st)) \<le> 1"
    using inv by (intro length_filter_unique) (auto simp: flight_inv_def)
  moreover have "\<exists>p. (p, key) \<in> set (rd_flight ?st)" if "queued ?st key q" for q
    using that inv by (auto simp: flight_inv_def queued_def)
  ultimately show ?thesis by blast
qed

text \<open>Once a promise has no request, or one newer than \<open>n\<close>, it stays so.\<close>

lemma one_request_per_key_witness:
  "rd_flight (fold read_step [Ask ''k'' False, Ask ''k'' True, Ask ''k'' False] (init_shared_reads 5)) = [(0, ''k'')]
   \<and> (\<exists>p. (p, ''k'') \<in> set (rd_flight (fold read_step [Ask ''k'' False, Ask ''k'' True, Ask ''k'' False] (init_shared_reads 5))))"
proof -
  have "queued (fold read_step [Ask ''k'' False, Ask ''k'' True, Ask ''k'' False] (init_shared_reads 5)) ''k'' 1"
    unfolding queued_def by (rule exI [of _ "\<lparr>re_current = 0, re_next = Some 1\<rparr>"]) code_simp
  moreover have "rd_flight (fold read_step [Ask ''k'' False, Ask ''k'' True, Ask ''k'' False] (init_shared_reads 5)) = [(0, ''k'')]"
    by code_simp
  ultimately show ?thesis
    using one_request_per_key [of "''k''" "[Ask ''k'' False, Ask ''k'' True, Ask ''k'' False]" 5] by blast
qed

definition sent_after :: "nat \<Rightarrow> nat \<Rightarrow> shared_reads \<Rightarrow> bool" where
  "sent_after n p st \<longleftrightarrow> n \<le> rd_lastSeq st \<and> (\<forall>q. (p, q) \<in> set (rd_seqs st) \<longrightarrow> q > n)"

lemma sent_after_step: "sent_after n p st \<Longrightarrow> sent_after n p (read_step e st)"
  by (cases e) (auto simp: sent_after_def shared_ask_def shared_settle_def nextSeq_def Let_def split: option.splits)

text \<open>
  C34: a fresh read is fresh. The request that answers a fresh read is always sent after the read
  was asked for: whatever happens later, the number of a request sent for its promise is larger
  than every number drawn before the ask.
\<close>

theorem fresh_read_is_sent_later:
  assumes "reads_inv st" "shared_ask key True st = (p, st')"
    and "(p, q) \<in> set (rd_seqs (fold read_step es st'))"
  shows "q > rd_lastSeq st"
proof -
  have "sent_after (rd_lastSeq st) p st'"
  proof (cases "map_of (rd_entries st) key")
    case None
    with assms(2) have st': "p = rd_promises st" "rd_lastSeq st' = Suc (rd_lastSeq st)"
      "rd_seqs st' = (p, Suc (rd_lastSeq st)) # rd_seqs st"
      by (auto simp: shared_ask_def Let_def)
    have "\<forall>x \<in> fst ` set (rd_seqs st). x < rd_promises st"
      using assms(1) by (simp add: reads_inv_def queue_inv_def)
    then have "(p, x) \<notin> set (rd_seqs st)" for x unfolding st'(1) by force
    then show ?thesis using st' by (auto simp: sent_after_def)
  next
    case (Some e)
    have inv: "queue_inv st" using assms(1) by (simp add: reads_inv_def)
    have "rd_lastSeq st' = rd_lastSeq st \<and> rd_seqs st' = rd_seqs st \<and> p \<notin> fst ` set (rd_seqs st)"
    proof (cases "re_next e")
      case None
      with Some assms(2) have "p = rd_promises st" "rd_lastSeq st' = rd_lastSeq st" "rd_seqs st' = rd_seqs st"
        by (auto simp: shared_ask_def Let_def)
      with inv show ?thesis by (auto simp: queue_inv_def)
    next
      case (Some r)
      with \<open>map_of (rd_entries st) key = Some e\<close> assms(2) have "p = r" "st' = st" "queued st key r"
        by (auto simp: shared_ask_def Let_def queued_def)
      with inv show ?thesis by (auto simp: queue_inv_def)
    qed
    then show ?thesis by (force simp: sent_after_def)
  qed
  then have "sent_after (rd_lastSeq st) p (fold read_step es st')"
    by (rule fold_stable [rotated]) (rule sent_after_step)
  with assms(3) show ?thesis by (simp add: sent_after_def)
qed

lemma fresh_read_is_sent_later_witness:
  "(\<exists>p st' q. shared_ask ''k'' True (read_step (Ask ''k'' False) (init_shared_reads 5)) = (p, st')
     \<and> (p, q) \<in> set (rd_seqs (fold read_step [Settle 0 ''k''] st')) \<and> q > 6)"
proof -
  let ?st = "read_step (Ask ''k'' False) (init_shared_reads 5)"
  let ?out = "shared_ask ''k'' True ?st"
  have inv: "reads_inv ?st" by (rule reads_inv_step [OF reads_inv_init])
  have out: "?out = (fst ?out, snd ?out)" by simp
  have m: "(fst ?out, 7) \<in> set (rd_seqs (fold read_step [Settle 0 ''k''] (snd ?out)))" by code_simp
  have l: "rd_lastSeq ?st = 6" by code_simp
  from fresh_read_is_sent_later [OF inv out m] m out show ?thesis unfolding l by blast
qed

text \<open>
  No read waits for ever behind others. After an ask, one request for the key is in flight,
  and either it is the one that answers the read or the read's own request is sent as soon as
  that one settles.
\<close>

theorem read_waits_for_one_request:
  assumes "reads_inv st" "shared_ask key fresh st = (p, st')"
  shows "\<exists>c. (c, key) \<in> set (rd_flight st') \<and>
    (p = c \<or> (p, key) \<in> set (rd_flight (read_step (Settle c key) st')))"
proof (cases "map_of (rd_entries st) key")
  case None
  with assms(2) show ?thesis by (auto simp: shared_ask_def Let_def)
next
  case (Some e)
  have fl: "(re_current e, key) \<in> set (rd_flight st)"
    using assms(1) Some by (simp add: reads_inv_def flight_inv_def)
  show ?thesis
  proof (cases fresh)
    case False
    with Some assms(2) fl show ?thesis by (auto simp: shared_ask_def Let_def)
  next
    case True
    have "(re_current e, key) \<in> set (rd_flight st')" "map_of (rd_entries st') key = Some (e\<lparr>re_next := Some p\<rparr>)"
      using Some True assms(2) fl
      by (auto simp: shared_ask_def Let_def map_of_obj_set split: option.splits)
    then show ?thesis by (intro exI [of _ "re_current e"]) (simp add: shared_settle_def Let_def)
  qed
qed

lemma read_waits_for_one_request_witness:
  "\<exists>c. (c, ''k'') \<in> set (rd_flight (snd (shared_ask ''k'' True (read_step (Ask ''k'' False) (init_shared_reads 5)))))"
  using read_waits_for_one_request [OF reads_inv_step [OF reads_inv_init] surjective_pairing,
      of "''k''" True "Ask ''k'' False" 5] by blast

end
