(* ===== verification/PropertiesText.thy ===== *)
theory PropertiesText
  imports JsPrelude "HOL-Library.Word"
begin

text \<open>
  Model of the text layer of \<open>apps/web-manager/src/features/host/hostImportExport.js\<close>: reading
  Java \<open>.properties\<close> files (lines 142 to 313). A string here is a list of 16-bit code units, as
  the language has them, since \<open>\uXXXX\<close> escapes produce any of them.

  The reader's counterpart is outside the repository: the files are written by Java's
  \<open>Properties.store\<close>. Its documented output format is modelled below (\<open>java_file\<close>) to state what
  the reader recovers from it.
\<close>

section \<open>Code units\<close>

type_synonym units = "16 word list"

definition units :: "string \<Rightarrow> units" where
  "units s = map (\<lambda>c. of_nat (of_char c)) s"

text \<open>White space, the same set for \<open>trim\<close> and for \<open>\s\<close>.\<close>

definition ws16 :: "16 word \<Rightarrow> bool" where
  "ws16 c \<longleftrightarrow> c \<in> {9, 10, 11, 12, 13, 32, 0xA0, 0x1680, 0x2000, 0x2001, 0x2002, 0x2003, 0x2004, 0x2005,
     0x2006, 0x2007, 0x2008, 0x2009, 0x200A, 0x2028, 0x2029, 0x202F, 0x205F, 0x3000, 0xFEFF}"

definition trim16 :: "units \<Rightarrow> units" where
  "trim16 s = rev (dropWhile ws16 (rev (dropWhile ws16 s)))"

definition stripBom :: "units \<Rightarrow> units" where
  "stripBom s = (case s of [] \<Rightarrow> [] | c # cs \<Rightarrow> if c = 0xFEFF then cs else s)"

section \<open>Escapes\<close>

definition hexVal :: "16 word \<Rightarrow> 16 word option" where
  "hexVal c = (if 48 \<le> c \<and> c \<le> 57 then Some (c - 48)
     else if 97 \<le> c \<and> c \<le> 102 then Some (c - 87)
     else if 65 \<le> c \<and> c \<le> 70 then Some (c - 55) else None)"

definition hex4 :: "units \<Rightarrow> 16 word option" where
  "hex4 ds = (case map hexVal ds of
      [Some a, Some b, Some c, Some d] \<Rightarrow> Some (((a * 16 + b) * 16 + c) * 16 + d)
    | _ \<Rightarrow> None)"

text \<open>The escape after a backslash, with the number of further units it takes.\<close>

definition escape_unit :: "16 word \<Rightarrow> units \<Rightarrow> 16 word \<times> nat" where
  "escape_unit next rest =
     (if next = 110 then (10, 0) else if next = 114 then (13, 0)
      else if next = 116 then (9, 0) else if next = 102 then (12, 0)
      else if next = 117 then
        (case hex4 (take 4 rest) of Some u \<Rightarrow> (u, 4) | None \<Rightarrow> (next, 0))
      else (next, 0))"

function unescapeJavaProperties :: "units \<Rightarrow> units" where
  "unescapeJavaProperties [] = []"
| "unescapeJavaProperties [c] = [c]"
| "unescapeJavaProperties (c # next # rest) =
     (if c \<noteq> 92 then c # unescapeJavaProperties (next # rest)
      else fst (escape_unit next rest) # unescapeJavaProperties (drop (snd (escape_unit next rest)) rest))"
  by pat_completeness auto
termination by (relation "measure length") auto

section \<open>Lines\<close>

text \<open>\<open>\r\n\<close> and \<open>\r\<close> become \<open>\n\<close>; then the text is split at \<open>\n\<close>.\<close>

fun normalizeEol :: "units \<Rightarrow> units" where
  "normalizeEol [] = []"
| "normalizeEol (c # cs) =
     (if c = 13 then 10 # (case cs of [] \<Rightarrow> [] | d # ds \<Rightarrow> if d = 10 then normalizeEol ds else normalizeEol cs)
      else c # normalizeEol cs)"

fun splitLines :: "units \<Rightarrow> units list" where
  "splitLines [] = [[]]"
| "splitLines (c # cs) =
     (if c = 10 then [] # splitLines cs
      else (case splitLines cs of l # ls \<Rightarrow> (c # l) # ls | [] \<Rightarrow> [[c]]))"

fun joinLoop :: "units list \<Rightarrow> units option \<Rightarrow> units list" where
  "joinLoop [] current = (case current of None \<Rightarrow> [] | Some c \<Rightarrow> [c])"
| "joinLoop (raw # raws) current =
     (let line = (case current of None \<Rightarrow> raw | Some c \<Rightarrow> c @ dropWhile ws16 raw)
      in if line \<noteq> [] \<and> last line = 92 then joinLoop raws (Some (butlast line))
         else line # joinLoop raws None)"

definition joinPropertyContinuations :: "units \<Rightarrow> units list" where
  "joinPropertyContinuations text = joinLoop (splitLines (normalizeEol (stripBom text))) None"

definition isPropertyWhitespace :: "16 word \<Rightarrow> bool" where
  "isPropertyWhitespace c \<longleftrightarrow> c \<in> {32, 9, 12}"

definition isPropertyKeyTerminator :: "16 word \<Rightarrow> bool" where
  "isPropertyKeyTerminator c \<longleftrightarrow> c \<in> {32, 9, 12, 61, 58}"

text \<open>The line up to the first unescaped terminator, and the rest from it on.\<close>

fun splitKey :: "units \<Rightarrow> units \<times> units" where
  "splitKey [] = ([], [])"
| "splitKey [c] = (if isPropertyKeyTerminator c then ([], [c]) else ([c], []))"
| "splitKey (c # d # cs) =
     (if c = 92 then (case splitKey cs of (k, r) \<Rightarrow> (c # d # k, r))
      else if isPropertyKeyTerminator c then ([], c # d # cs)
      else (case splitKey (d # cs) of (k, r) \<Rightarrow> (c # k, r)))"

definition valueStart :: "units \<Rightarrow> units" where
  "valueStart r =
     (let r1 = dropWhile isPropertyWhitespace r;
          r2 = (case r1 of [] \<Rightarrow> [] | c # cs \<Rightarrow> if c = 61 \<or> c = 58 then cs else r1)
      in dropWhile isPropertyWhitespace r2)"

definition parsePropertyLine :: "units \<Rightarrow> (units \<times> units) option" where
  "parsePropertyLine line =
     (let trimmed = trim16 line
      in case trimmed of
           [] \<Rightarrow> None
         | c # _ \<Rightarrow>
             if c = 35 \<or> c = 33 then None
             else (case splitKey trimmed of (k, r) \<Rightarrow> Some (unescapeJavaProperties k, valueStart r)))"

definition extractPropertyValueForKey :: "units \<Rightarrow> units \<Rightarrow> units option" where
  "extractPropertyValueForKey line propertyKey =
     (case parsePropertyLine line of
        None \<Rightarrow> None
      | Some (k, raw) \<Rightarrow> if k = propertyKey then Some raw else None)"

fun firstValue :: "units \<Rightarrow> units list \<Rightarrow> units option" where
  "firstValue propertyKey [] = None"
| "firstValue propertyKey (line # ls) =
     (case extractPropertyValueForKey line propertyKey of
        None \<Rightarrow> firstValue propertyKey ls
      | Some raw \<Rightarrow>
          (let xml = trim16 (unescapeJavaProperties raw)
           in if xml \<noteq> [] then Some xml else firstValue propertyKey ls))"

definition starts_lt :: "units \<Rightarrow> bool" where
  "starts_lt s \<longleftrightarrow> s \<noteq> [] \<and> hd s = 60"

definition extractXmlPropertyFromPrefs :: "units \<Rightarrow> units \<Rightarrow> units option" where
  "extractXmlPropertyFromPrefs rawText propertyKey =
     (let text = stripBom rawText
      in if starts_lt (trim16 text) then None
         else firstValue propertyKey (joinPropertyContinuations text))"

definition PREFS_KEY_SERVERS :: units where
  "PREFS_KEY_SERVERS = units ''CUBRID_SERVERS''"

definition PREFS_KEY_HOSTGROUP :: units where
  "PREFS_KEY_HOSTGROUP = units ''com.cubrid.manager.hostgroup''"

definition extractHostsXmlFromPrefs :: "units \<Rightarrow> units option" where
  "extractHostsXmlFromPrefs rawText =
     (let text = stripBom rawText; trimmed = trim16 text
      in if starts_lt trimmed then Some trimmed
         else extractXmlPropertyFromPrefs text PREFS_KEY_SERVERS)"

section \<open>What Java writes\<close>

text \<open>\<open>Properties.store\<close>: a backslash and the separators are escaped by a backslash, control
  characters and everything beyond the printable ASCII range by their letter or as \<open>\uXXXX\<close>;
  in a key every space is escaped, in a value only the first character if it is a space.\<close>

definition hexDigit :: "16 word \<Rightarrow> 16 word" where
  "hexDigit d = (if d < 10 then d + 48 else d + 55)"

definition uEscape :: "16 word \<Rightarrow> units" where
  "uEscape c = (let n = unat c in
     [92, 117, hexDigit (of_nat (n div 4096)), hexDigit (of_nat (n div 256 mod 16)),
      hexDigit (of_nat (n div 16 mod 16)), hexDigit (of_nat (n mod 16))])"

definition java_char :: "bool \<Rightarrow> 16 word \<Rightarrow> units" where
  "java_char escapeSpace c =
     (if c = 32 then (if escapeSpace then [92, 32] else [32])
      else if c = 9 then [92, 116] else if c = 10 then [92, 110]
      else if c = 13 then [92, 114] else if c = 12 then [92, 102]
      else if c \<in> {92, 61, 58, 35, 33} then [92, c]
      else if c < 32 \<or> c > 126 then uEscape c else [c])"

definition java_key :: "units \<Rightarrow> units" where
  "java_key k = concat (map (java_char True) k)"

definition java_value :: "units \<Rightarrow> units" where
  "java_value v = (case v of [] \<Rightarrow> [] | c # cs \<Rightarrow> java_char True c @ concat (map (java_char False) cs))"

definition java_line :: "units \<times> units \<Rightarrow> units" where
  "java_line kv = java_key (fst kv) @ [61] @ java_value (snd kv)"

definition java_file :: "(units \<times> units) list \<Rightarrow> units" where
  "java_file kvs = concat (map (\<lambda>kv. java_line kv @ [10]) kvs)"

end
