(* ===== verification/PropertiesFacts.thy ===== *)
theory PropertiesFacts
  imports PropertiesText
begin

text \<open>
  The reader of \<open>.properties\<close> text recovers what Java's \<open>Properties.store\<close> wrote: escapes, one
  line, a whole file; and the one kind of value it does not recover.
\<close>

section \<open>Escapes\<close>

lemma below16:
  assumes "k < 16"
  shows "k = 0 \<or> k = 1 \<or> k = 2 \<or> k = 3 \<or> k = 4 \<or> k = 5 \<or> k = 6 \<or> k = 7 \<or> k = 8 \<or> k = 9 \<or> k = 10 \<or>
    k = 11 \<or> k = 12 \<or> k = 13 \<or> k = 14 \<or> k = (15 :: nat)"
  using assms by arith

lemma hexVal_hexDigit:
  assumes "k < 16"
  shows "hexVal (hexDigit (of_nat k)) = Some (of_nat k)"
  using below16 [OF assms] by (elim disjE) (simp_all add: hexVal_def hexDigit_def)

definition printable :: "16 word \<Rightarrow> bool" where
  "printable c \<longleftrightarrow> 33 \<le> c \<and> c \<le> 126"

lemma hexDigit_plain:
  assumes "k < 16"
  shows "printable (hexDigit (of_nat k))" "hexDigit (of_nat k) \<notin> {92, 61, 58}"
  using below16 [OF assms] by (elim disjE; simp add: printable_def hexDigit_def)+

lemma unat16: "unat (c :: 16 word) < 65536"
  using unsigned_less [of c] by simp

lemma digits16: "((n div 4096 * 16 + n div 256 mod 16) * 16 + n div 16 mod 16) * 16 + n mod 16 = (n :: nat)"
proof -
  have "n div 4096 = n div 256 div 16" "n div 256 = n div 16 div 16" by (simp_all add: div_mult2_eq [symmetric])
  then have "n div 4096 * 16 + n div 256 mod 16 = n div 256" "n div 256 * 16 + n div 16 mod 16 = n div 16"
    by (simp_all only: div_mult_mod_eq)
  then show ?thesis by (simp only: div_mult_mod_eq)
qed

lemma hex4_digits: "hex4 (drop 2 (uEscape c)) = Some c"
proof -
  define n where "n = unat c"
  have n: "n < 65536" using unat16 by (simp add: n_def)
  then have d: "n div 4096 < 16" "n div 256 mod 16 < 16" "n div 16 mod 16 < 16" "n mod 16 < 16" by auto
  have "hex4 (drop 2 (uEscape c)) =
      Some (((of_nat (n div 4096) * 16 + of_nat (n div 256 mod 16)) * 16 + of_nat (n div 16 mod 16)) * 16 + of_nat (n mod 16))"
    by (simp add: uEscape_def Let_def n_def [symmetric] hex4_def hexVal_hexDigit [OF d(1)] hexVal_hexDigit [OF d(2)]
        hexVal_hexDigit [OF d(3)] hexVal_hexDigit [OF d(4)])
  also have "((of_nat (n div 4096) * 16 + of_nat (n div 256 mod 16)) * 16 + of_nat (n div 16 mod 16)) * 16 + of_nat (n mod 16)
      = (of_nat (((n div 4096 * 16 + n div 256 mod 16) * 16 + n div 16 mod 16) * 16 + n mod 16) :: 16 word)"
    by simp
  also have "\<dots> = c" unfolding digits16 by (simp add: n_def)
  finally show ?thesis .
qed

lemma uEscape_split: "uEscape c = 92 # 117 # drop 2 (uEscape c)" "length (drop 2 (uEscape c)) = 4"
  by (simp_all add: uEscape_def Let_def)

lemma unescape_plain: "c \<noteq> 92 \<Longrightarrow> unescapeJavaProperties (c # r) = c # unescapeJavaProperties r"
  by (cases r) simp_all

lemma unescape_java_char: "unescapeJavaProperties (java_char b c @ r) = c # unescapeJavaProperties r"
proof (cases "java_char b c = uEscape c")
  case True
  have "unescapeJavaProperties (uEscape c @ r) = c # unescapeJavaProperties r"
  proof -
    obtain ds where ds: "uEscape c = 92 # 117 # ds" "length ds = 4" "hex4 ds = Some c"
      using uEscape_split [of c] hex4_digits [of c] by metis
    then show ?thesis by (simp add: escape_unit_def)
  qed
  with True show ?thesis by simp
next
  case False
  then show ?thesis
    by (auto simp: java_char_def escape_unit_def unescape_plain split: if_splits)
qed

lemma unescape_java_chars: "unescapeJavaProperties (concat (map (java_char b) v)) = v"
  by (induction v) (simp_all add: unescape_java_char)

lemma unescape_java_value: "unescapeJavaProperties (java_value v) = v"
  by (cases v) (simp_all add: java_value_def unescape_java_char unescape_java_chars)

lemma unescape_java_key: "unescapeJavaProperties (java_key k) = k"
  by (simp add: java_key_def unescape_java_chars)

section \<open>Units Java writes\<close>

lemma printable_ws: "printable c \<Longrightarrow> \<not> ws16 c"
  unfolding ws16_def insert_iff by (rule notI, elim disjE emptyE; simp add: printable_def)

lemma printable_eol: "printable c \<Longrightarrow> c \<noteq> 10" "printable c \<Longrightarrow> c \<noteq> 13" "printable c \<Longrightarrow> c \<noteq> 0xFEFF"
  by (rule notI, simp add: printable_def)+

lemma printable_consts [simp]:
  "printable 92" "printable 117" "printable 116" "printable 110" "printable 114" "printable 102"
  "printable 61" "printable 58" "printable 35" "printable 33" "\<not> printable 32"
  by (simp_all add: printable_def)

lemma not_printable_cases: "\<not> printable c \<Longrightarrow> c < 32 \<or> c = 32 \<or> c > (126 :: 16 word)"
proof -
  assume "\<not> printable c"
  then have "unat c < 33 \<or> unat c > 126"
    unfolding printable_def word_le_nat_alt by simp arith
  then have "unat c < 32 \<or> unat c = 32 \<or> unat c > 126" by arith
  moreover have "c < 32 \<longleftrightarrow> unat c < 32" "c > 126 \<longleftrightarrow> unat c > 126" unfolding word_less_nat_alt by simp_all
  moreover have "c = 32 \<longleftrightarrow> unat c = 32" unfolding word_unat_eq_iff by simp
  ultimately show ?thesis by blast
qed

text \<open>The shapes of a written unit: an escape, or a printable unit that means nothing special.\<close>

lemma java_char_cases:
  obtains (space) "c = 32" "\<not> b" "java_char b c = [32]"
    | (escape) x where "java_char b c = [92, x]" "printable x \<and> x \<noteq> 92 \<or> c = 32 \<and> b \<and> x = 32 \<or> c = 92 \<and> x = 92"
    | (unicode) d1 d2 d3 d4 where "java_char b c = [92, 117, d1, d2, d3, d4]"
        "\<And>d. d \<in> {d1, d2, d3, d4} \<Longrightarrow> printable d \<and> d \<notin> {92, 61, 58}"
    | (plain) "java_char b c = [c]" "printable c" "c \<notin> {92, 61, 58, 35, 33}"
proof (cases "c \<in> {32, 9, 10, 13, 12, 92, 61, 58, 35, 33}")
  case True
  show ?thesis
  proof (cases "c = 32")
    case True
    then show ?thesis using space escape [of 32] by (cases b) (simp_all add: java_char_def)
  next
    case False
    define x where "x = (if c = 9 then 116 else if c = 10 then 110 else if c = 13 then 114 else if c = 12 then 102 else c)"
    have "java_char b c = [92, x]" using True False by (auto simp: java_char_def x_def)
    moreover have "printable x \<and> x \<noteq> 92 \<or> c = 92 \<and> x = 92"
      using True False unfolding insert_iff by (elim disjE emptyE; simp add: x_def)
    ultimately show ?thesis using escape [of x] by blast
  qed
next
  case False
  show ?thesis
  proof (cases "c < 32 \<or> c > 126")
    case True
    define n where "n = unat c"
    have n: "n div 4096 < 16" "n div 256 mod 16 < 16" "n div 16 mod 16 < 16" "n mod 16 < 16"
      using unat16 [of c] by (auto simp: n_def)
    have "java_char b c = uEscape c" using True False by (simp add: java_char_def)
    then have "java_char b c = [92, 117, hexDigit (of_nat (n div 4096)), hexDigit (of_nat (n div 256 mod 16)),
        hexDigit (of_nat (n div 16 mod 16)), hexDigit (of_nat (n mod 16))]"
      by (simp add: uEscape_def Let_def n_def)
    then show ?thesis
    proof (rule unicode)
      fix d
      assume "d \<in> {hexDigit (of_nat (n div 4096)), hexDigit (of_nat (n div 256 mod 16)),
        hexDigit (of_nat (n div 16 mod 16)), hexDigit (of_nat (n mod 16))}"
      with hexDigit_plain [OF n(1)] hexDigit_plain [OF n(2)] hexDigit_plain [OF n(3)] hexDigit_plain [OF n(4)]
      show "printable d \<and> d \<notin> {92, 61, 58}" by (elim insertE emptyE; simp)
    qed
  next
    case small: False
    then have "printable c" using not_printable_cases False by blast
    moreover have "java_char b c = [c]" using small False by (auto simp: java_char_def)
    ultimately show ?thesis using False by (intro plain) auto
  qed
qed

lemma java_char_units: "x \<in> set (java_char b c) \<Longrightarrow> printable x \<or> x = 32"
proof (cases b c rule: java_char_cases)
  case (unicode d1 d2 d3 d4)
  assume "x \<in> set (java_char b c)"
  then have "x = 92 \<or> x = 117 \<or> x \<in> {d1, d2, d3, d4}" using unicode(1) by simp
  then show ?thesis using unicode(2) [of x] by (elim disjE) simp_all
next
  case (escape y)
  assume "x \<in> set (java_char b c)"
  then have "x = 92 \<or> x = y" using escape(1) by simp
  then show ?thesis using escape(2) by (elim disjE) simp_all
qed simp_all

lemma java_char_nonempty: "java_char b c \<noteq> []"
  by (cases b c rule: java_char_cases) simp_all

lemma java_char_hd:
  assumes "b \<or> c \<noteq> 32"
  shows "printable (hd (java_char b c)) \<and> hd (java_char b c) \<notin> {61, 58, 35, 33}"
proof (cases b c rule: java_char_cases)
  case space
  with assms show ?thesis by simp
qed simp_all

lemma java_char_last:
  assumes "c \<noteq> 32" "c \<noteq> 92"
  shows "printable (last (java_char b c)) \<and> last (java_char b c) \<noteq> 92"
proof (cases b c rule: java_char_cases)
  case (unicode d1 d2 d3 d4)
  from unicode(2) [of d4] unicode(1) show ?thesis by simp
next
  case (escape x)
  with assms show ?thesis by simp
qed (use assms in simp_all)

lemma java_key_units: "x \<in> set (java_key k) \<Longrightarrow> printable x \<or> x = 32"
  unfolding java_key_def set_concat set_map by (elim UN_E imageE) (simp add: java_char_units)

lemma java_chars_units: "x \<in> set (concat (map (java_char b) v)) \<Longrightarrow> printable x \<or> x = 32"
  unfolding set_concat set_map by (elim UN_E imageE) (simp add: java_char_units)

lemma java_value_units: "x \<in> set (java_value v) \<Longrightarrow> printable x \<or> x = 32"
proof (cases v)
  case (Cons c cs)
  assume "x \<in> set (java_value v)"
  with Cons have "x \<in> set (java_char True c) \<or> x \<in> set (concat (map (java_char False) cs))"
    by (simp add: java_value_def)
  then show ?thesis using java_char_units java_chars_units by blast
qed (simp add: java_value_def)

lemma java_line_units: "x \<in> set (java_line kv) \<Longrightarrow> printable x \<or> x = 32"
  using java_key_units [of x "fst kv"] java_value_units [of x "snd kv"]
  unfolding java_line_def by (auto simp del: set_concat)

lemma java_line_hd:
  assumes "fst kv \<noteq> []"
  shows "printable (hd (java_line kv)) \<and> hd (java_line kv) \<notin> {35, 33}"
proof -
  from assms obtain c k where "fst kv = c # k" by (cases "fst kv") auto
  then have "hd (java_line kv) = hd (java_char True c)"
    using java_char_nonempty [of True c] by (simp add: java_line_def java_key_def hd_append)
  with java_char_hd [of True c] show ?thesis by simp
qed

lemma java_value_hd: "v \<noteq> [] \<Longrightarrow> java_value v \<noteq> [] \<and> printable (hd (java_value v))"
proof (cases v)
  case (Cons c cs)
  then show ?thesis using java_char_hd [of True c] java_char_nonempty [of True c]
    by (simp add: java_value_def hd_append)
qed simp

text \<open>The last unit of a value matters: a trailing space would be trimmed, and a trailing
  backslash is taken for a continuation.\<close>

definition good_end :: "units \<Rightarrow> bool" where
  "good_end v \<longleftrightarrow> v = [] \<or> last v \<notin> {32, 92}"

lemma last_concat_map: "xs \<noteq> [] \<Longrightarrow> f (last xs) \<noteq> [] \<Longrightarrow> last (concat (map f xs)) = last (f (last xs))"
proof (induction xs rule: rev_induct)
  case (snoc x xs)
  then show ?case by simp
qed simp

lemma java_value_last:
  assumes "good_end v" "v \<noteq> []"
  shows "printable (last (java_value v)) \<and> last (java_value v) \<noteq> 92"
proof (cases v)
  case (Cons c cs)
  have l: "last v \<noteq> 32" "last v \<noteq> 92" using assms by (auto simp: good_end_def)
  show ?thesis
  proof (cases "cs = []")
    case True
    with Cons l java_char_last [of c True] show ?thesis by (simp add: java_value_def)
  next
    case False
    then have "concat (map (java_char False) cs) \<noteq> []" using java_char_nonempty by (cases cs) auto
    then have "last (java_value v) = last (java_char False (last cs))"
      using Cons False java_char_nonempty last_concat_map [of cs "java_char False"] by (simp add: java_value_def)
    with Cons False l java_char_last [of "last cs" False] show ?thesis by simp
  qed
qed (use assms in simp)

lemma java_line_last:
  assumes "good_end (snd kv)"
  shows "printable (last (java_line kv)) \<and> last (java_line kv) \<noteq> 92"
proof (cases "snd kv = []")
  case True
  then show ?thesis by (simp add: java_line_def java_value_def)
next
  case False
  with java_value_last [OF assms False] java_value_hd [OF False] show ?thesis by (simp add: java_line_def)
qed

section \<open>One line\<close>

lemma trim16_id: "s \<noteq> [] \<Longrightarrow> \<not> ws16 (hd s) \<Longrightarrow> \<not> ws16 (last s) \<Longrightarrow> trim16 s = s"
proof -
  assume a: "s \<noteq> []" "\<not> ws16 (hd s)" "\<not> ws16 (last s)"
  then have "dropWhile ws16 s = s" by (cases s) auto
  moreover have "dropWhile ws16 (rev s) = rev s" using a by (cases s rule: rev_cases) auto
  ultimately show ?thesis by (simp add: trim16_def)
qed

lemma trim16_java_line: "fst kv \<noteq> [] \<Longrightarrow> good_end (snd kv) \<Longrightarrow> trim16 (java_line kv) = java_line kv"
  using java_line_hd java_line_last by (intro trim16_id) (auto simp: printable_ws java_line_def)

lemma splitKey_java_char:
  assumes "r \<noteq> []"
  shows "splitKey (java_char True c @ r) = (java_char True c @ fst (splitKey r), snd (splitKey r))"
proof (cases True c rule: java_char_cases)
  case (escape x)
  then show ?thesis by (simp split: prod.split)
next
  case (unicode d1 d2 d3 d4)
  have p: "d \<noteq> 92 \<and> \<not> isPropertyKeyTerminator d" if "d \<in> {d1, d2, d3, d4}" for d
    using unicode(2) [OF that] by (auto simp: isPropertyKeyTerminator_def printable_def)
  obtain y ys where "r = y # ys" using assms by (cases r) auto
  with unicode(1) p show ?thesis by (simp split: prod.split)
next
  case plain
  obtain y ys where r: "r = y # ys" using assms by (cases r) auto
  have "\<not> isPropertyKeyTerminator c" using plain by (auto simp: isPropertyKeyTerminator_def printable_def)
  with plain r show ?thesis by (simp split: prod.split)
qed simp

lemma splitKey_java_key: "r \<noteq> [] \<Longrightarrow> splitKey (java_key k @ r) = (java_key k @ fst (splitKey r), snd (splitKey r))"
  by (induction k) (simp_all add: java_key_def splitKey_java_char)

lemma valueStart_java: "valueStart (61 # java_value v) = java_value v"
proof -
  have "dropWhile isPropertyWhitespace (java_value v) = java_value v"
    using java_value_hd [of v] by (cases v; cases "java_value v")
      (auto simp: java_value_def isPropertyWhitespace_def printable_def)
  then show ?thesis by (simp add: valueStart_def isPropertyWhitespace_def)
qed

lemma splitKey_separator: "splitKey (61 # r) = ([], 61 # r)"
  by (cases r) (simp_all add: isPropertyKeyTerminator_def)

lemma parse_java_line:
  assumes "k \<noteq> []" "good_end v"
  shows "parsePropertyLine (java_line (k, v)) = Some (k, java_value v)"
proof -
  have t: "trim16 (java_line (k, v)) = java_line (k, v)" using assms by (simp add: trim16_java_line)
  have h: "java_line (k, v) \<noteq> []" "hd (java_line (k, v)) \<notin> {35, 33}"
    using java_line_hd [of "(k, v)"] assms(1) by (auto simp: java_line_def)
  have "splitKey (java_line (k, v)) = (java_key k, 61 # java_value v)"
    using splitKey_java_key [of "61 # java_value v" k] by (simp add: java_line_def splitKey_separator)
  with t h show ?thesis
    by (cases "java_line (k, v)") (simp_all add: parsePropertyLine_def valueStart_java unescape_java_key)
qed

section \<open>A whole file\<close>

lemma normalizeEol_id: "13 \<notin> set s \<Longrightarrow> normalizeEol s = s"
  by (induction s) auto

lemma splitLines_line: "10 \<notin> set l \<Longrightarrow> splitLines (l @ 10 # r) = l # splitLines r"
  by (induction l) auto

lemma java_line_eol: "10 \<notin> set (java_line kv)" "13 \<notin> set (java_line kv)" "0xFEFF \<notin> set (java_line kv)"
proof -
  have "x \<noteq> 10 \<and> x \<noteq> 13 \<and> x \<noteq> 0xFEFF" if "x \<in> set (java_line kv)" for x
    using java_line_units [OF that] printable_eol [of x] by (elim disjE) simp_all
  then show "10 \<notin> set (java_line kv)" "13 \<notin> set (java_line kv)" "0xFEFF \<notin> set (java_line kv)" by blast+
qed

lemma java_file_Cons: "java_file (kv # kvs) = java_line kv @ 10 # java_file kvs"
  by (simp add: java_file_def)

lemma splitLines_java_file: "splitLines (java_file kvs) = map java_line kvs @ [[]]"
proof (induction kvs)
  case Nil
  then show ?case by (simp add: java_file_def)
next
  case (Cons kv kvs)
  then show ?case using java_line_eol(1) by (simp add: java_file_Cons splitLines_line)
qed

lemma java_file_no_cr: "13 \<notin> set (java_file kvs)"
  by (induction kvs) (simp_all add: java_file_def java_line_eol)

lemma java_file_bom: "stripBom (java_file kvs) = java_file kvs"
proof (cases kvs)
  case (Cons kv kvs')
  have "java_line kv \<noteq> []" by (simp add: java_line_def)
  then obtain c cs where c: "java_line kv = c # cs" by (cases "java_line kv") auto
  then have "c \<noteq> 0xFEFF" using java_line_eol(3) [of kv] by auto
  with Cons c show ?thesis by (simp add: java_file_Cons stripBom_def)
qed (simp add: java_file_def stripBom_def)

lemma joinLoop_lines:
  "\<forall>l \<in> set ls. l = [] \<or> last l \<noteq> 92 \<Longrightarrow> joinLoop ls None = ls"
  by (induction ls) (auto simp: Let_def)

lemma join_java_file:
  assumes "\<forall>kv \<in> set kvs. good_end (snd kv)"
  shows "joinPropertyContinuations (java_file kvs) = map java_line kvs @ [[]]"
proof -
  have "\<forall>l \<in> set (map java_line kvs @ [[]]). l = [] \<or> last l \<noteq> 92"
    using assms java_line_last by auto
  from joinLoop_lines [OF this] show ?thesis
    by (simp add: joinPropertyContinuations_def java_file_bom normalizeEol_id java_file_no_cr
        splitLines_java_file)
qed

lemma firstValue_java:
  assumes "\<forall>kv \<in> set kvs. fst kv \<noteq> [] \<and> good_end (snd kv)"
  shows "firstValue key (map java_line kvs @ [[]]) =
    map_option (\<lambda>kv. trim16 (snd kv)) (find (\<lambda>kv. fst kv = key \<and> trim16 (snd kv) \<noteq> []) kvs)"
  using assms
proof (induction kvs)
  case Nil
  then show ?case by (simp add: extractPropertyValueForKey_def parsePropertyLine_def trim16_def)
next
  case (Cons kv kvs)
  obtain k v where kv: "kv = (k, v)" by (cases kv)
  with Cons.prems have "parsePropertyLine (java_line (k, v)) = Some (k, java_value v)"
    by (simp add: parse_java_line)
  with Cons kv show ?case
    by (simp add: extractPropertyValueForKey_def unescape_java_value Let_def)
qed

lemma hd_trim16: "s \<noteq> [] \<Longrightarrow> \<not> ws16 (hd s) \<Longrightarrow> trim16 s \<noteq> [] \<and> hd (trim16 s) = hd s"
proof -
  assume a: "s \<noteq> []" "\<not> ws16 (hd s)"
  then obtain c cs where s: "s = c # cs" "\<not> ws16 c" by (cases s) auto
  then have "dropWhile ws16 (rev cs @ [c]) = dropWhile ws16 (rev cs) @ [c]"
    by (cases "\<exists>x\<in>set (rev cs). \<not> ws16 x") (auto simp: dropWhile_append)
  with s show ?thesis by (simp add: trim16_def)
qed



text \<open>
  the reader departs from the format at a trailing backslash. The value of one backslash is
  written as two. A line continues in Java only after an odd number of backslashes; the reader looks
  at the last one alone, takes the line for continued, and the next entry becomes part of this value.
\<close>

theorem trailing_backslash_swallows_the_next_entry:
  "extractXmlPropertyFromPrefs (java_file [(units ''a'', [92]), (units ''b'', units ''x'')]) (units ''b'') = None
   \<and> extractXmlPropertyFromPrefs (java_file [(units ''a'', [92]), (units ''b'', units ''x'')]) (units ''a'')
       = Some (units ''b=x'')"
  by code_simp

end
