(* ===== verification/HostImport.thy ===== *)
theory HostImport
  imports HostGroups PropertiesText
begin

text \<open>
  Model of the rest of \<open>apps/web-manager/src/features/host/hostImportExport.js\<close>: the export
  payload, reading an import file in any of its formats, and checking the rows before they are
  imported. The browser's \<open>DOMParser\<close> and \<open>JSON.parse\<close> are parameters (\<open>parseXml\<close>,
  \<open>parseJson\<close>); the downloads only hand a text to the browser and are not modelled. A thrown
  error is the left side, with its message.
\<close>

section \<open>Export\<close>

definition DEFAULT_IMPORT_PORT :: int where "DEFAULT_IMPORT_PORT = 8001"
definition MIN_IMPORT_PORT :: int where "MIN_IMPORT_PORT = 1"
definition MAX_IMPORT_PORT :: int where "MAX_IMPORT_PORT = 65535"

definition NATIVE_FORMAT_ID :: string where "NATIVE_FORMAT_ID = ''cubrid-webmanager-hosts''"
definition NATIVE_FORMAT_VERSION :: int where "NATIVE_FORMAT_VERSION = 1"

definition export_host :: "host_info \<Rightarrow> js" where
  "export_host h = Obj [(''alias'', Str (hi_alias h)), (''address'', Str (hi_address h)),
     (''port'', Num (if hi_port h = 0 then DEFAULT_IMPORT_PORT else hi_port h)), (''id'', Str (hi_id h))]"

definition export_group :: "string \<Rightarrow> host_group \<Rightarrow> host_info list \<Rightarrow> js" where
  "export_group groupId g hosts =
     Obj ((if groupId = UNGROUPED_GROUP_ID then [] else [(''name'', Str (str_or (Some (hg_name g)) ''Imported''))])
          @ [(''hosts'', Arr (map export_host hosts))])"

definition selected_hosts :: "string list option \<Rightarrow> host_group \<Rightarrow> host_info list" where
  "selected_hosts selectedUids g =
     filter (\<lambda>h. case selectedUids of None \<Rightarrow> True | Some us \<Rightarrow> hi_uid h \<in> set us) (obj_vals (hg_hosts g))"

definition buildGroupedExportPayload :: "host_groups \<Rightarrow> string list option \<Rightarrow> js list" where
  "buildGroupedExportPayload gs selectedUids =
     map (\<lambda>(gid, g). export_group gid g (selected_hosts selectedUids g))
       (filter (\<lambda>(gid, g). selected_hosts selectedUids g \<noteq> []) gs)"

text \<open>The object \<open>exportHostGroupsToJson\<close> writes; \<open>date\<close> is the time stamp. Nothing is written
  when no host is selected.\<close>

definition exportHostGroupsToJson :: "host_groups \<Rightarrow> string list option \<Rightarrow> string \<Rightarrow> js option" where
  "exportHostGroupsToJson gs selectedUids date =
     (let groups = buildGroupedExportPayload gs selectedUids
      in if groups = [] then None
         else Some (Obj [(''format'', Str NATIVE_FORMAT_ID), (''version'', Num NATIVE_FORMAT_VERSION),
                         (''exportedAt'', Str date), (''groups'', Arr groups)]))"

section \<open>XML documents\<close>

datatype xml = Element string "(string \<times> string) list" "xml list"

fun nodeName :: "xml \<Rightarrow> string" where
  "nodeName (Element n as cs) = n"

text \<open>\<open>node.getAttribute(k) || ''\<close>.\<close>

fun attr :: "xml \<Rightarrow> string \<Rightarrow> string" where
  "attr (Element n as cs) k = (case map_of as k of None \<Rightarrow> [] | Some v \<Rightarrow> v)"

text \<open>\<open>getElementsByTagName\<close>: the elements of a name below a node, in document order; for a
  document the root counts too.\<close>

fun elements :: "string \<Rightarrow> xml \<Rightarrow> xml list" where
  "elements tag (Element n as cs) =
     (if n = tag then [Element n as cs] else []) @ concat (map (elements tag) cs)"

fun below :: "string \<Rightarrow> xml \<Rightarrow> xml list" where
  "below tag (Element n as cs) = concat (map (elements tag) cs)"

text \<open>The two XML exports: the tree that is serialized.\<close>

definition exportHostsToXml :: "host_info list \<Rightarrow> xml option" where
  "exportHostsToXml hosts =
     (if hosts = [] then None
      else Some (Element ''hosts'' [] (map (\<lambda>h. Element ''host''
        [(''id'', hi_uid h), (''name'', str_or (Some (hi_alias h)) (hi_address h)), (''address'', hi_address h),
         (''port'', int_str (if hi_port h = 0 then DEFAULT_IMPORT_PORT else hi_port h)), (''user'', hi_id h),
         (''password'', []), (''savePassword'', ''false''), (''jdbcDriver'', ''default'')] []) hosts)))"

fun js_text :: "js \<Rightarrow> string" where
  "js_text (Str s) = s"
| "js_text v = js_string v"

definition native_host :: "js \<Rightarrow> xml" where
  "native_host h = Element ''host'' [(''alias'', js_text (js_get h ''alias'')), (''address'', js_text (js_get h ''address'')),
     (''port'', js_text (js_get h ''port'')), (''user'', js_text (js_get h ''id''))] []"

definition exportHostGroupsToNativeXml :: "host_groups \<Rightarrow> string list option \<Rightarrow> xml option" where
  "exportHostGroupsToNativeXml gs selectedUids =
     (let groups = buildGroupedExportPayload gs selectedUids
      in if groups = [] then None
         else Some (Element ''cwm-hosts'' [(''version'', int_str NATIVE_FORMAT_VERSION)]
           (map (\<lambda>g. Element ''group''
              (if truthy (js_get g ''name'') then [(''name'', js_text (js_get g ''name''))] else [])
              (map native_host (ensureArray (js_get g ''hosts'')))) groups)))"

section \<open>Reading a file\<close>

record import_host =
  ih_legacyId :: string
  ih_alias :: string
  ih_address :: string
  ih_port :: string
  ih_id :: string
  ih_ungrouped :: bool

record import_group =
  ig_name :: string
  ig_legacyHostIds :: "string list"

record import_file =
  if_hosts :: "import_host list"
  if_groups :: "import_group list"

definition parseXmlDocument :: "(units \<Rightarrow> xml option) \<Rightarrow> units \<Rightarrow> string \<Rightarrow> string + xml" where
  "parseXmlDocument parseXml text contextLabel =
     (case parseXml text of
        None \<Rightarrow> Inl (''Invalid XML in '' @ contextLabel @ ''. Please select a valid CUBRID Manager file.'')
      | Some doc \<Rightarrow> Inr doc)"

definition noValidHosts :: string where
  "noValidHosts = ''The selected file contains no valid host connections.''"

definition host_of_node :: "xml \<Rightarrow> import_host option" where
  "host_of_node node =
     (let address = trim (attr node ''address'')
      in if address = [] then None
         else Some \<lparr>ih_legacyId = trim (attr node ''id''),
           ih_alias = trim (str_or (Some (attr node ''name'')) (str_or (Some (attr node ''id'')) address)),
           ih_address = address, ih_port = str_or (Some (attr node ''port'')) (int_str DEFAULT_IMPORT_PORT),
           ih_id = trim (str_or (Some (attr node ''user'')) ''admin''), ih_ungrouped = False\<rparr>)"

definition parseHostsFromXmlString :: "(units \<Rightarrow> xml option) \<Rightarrow> units \<Rightarrow> string + import_host list" where
  "parseHostsFromXmlString parseXml text =
     res_bind (parseXmlDocument parseXml text ''host list'') (\<lambda>doc.
       if nodeName doc \<noteq> ''hosts'' then Inl ''Incorrect file format. Expected <hosts> root element.''
       else
         (let nodes = elements ''host'' doc
          in if nodes = [] then Inl ''No host connection information found in the selected file.''
             else
               (let hosts = List.map_filter host_of_node nodes
                in if hosts = [] then Inl noValidHosts else Inr hosts)))"

definition group_of_node :: "xml \<Rightarrow> import_group option" where
  "group_of_node node =
     (let name = trim (str_or (Some (attr node ''name'')) (attr node ''id''))
      in if name = [] then None
         else Some \<lparr>ig_name = name,
           ig_legacyHostIds = filter (\<lambda>i. i \<noteq> []) (map (\<lambda>item. trim (attr item ''id'')) (below ''item'' node))\<rparr>)"

definition parseHostGroupsFromXmlString :: "(units \<Rightarrow> xml option) \<Rightarrow> units \<Rightarrow> string + import_group list" where
  "parseHostGroupsFromXmlString parseXml text =
     res_bind (parseXmlDocument parseXml text ''host groups'') (\<lambda>doc.
       Inr (List.map_filter group_of_node (elements ''group'' doc)))"

subsection \<open>The native formats\<close>

text \<open>\<open>String(v ?? '')\<close>, and iterating \<open>v || []\<close>: an array gives its elements, a string its
  characters, anything else raises.\<close>

definition nullish_text :: "js \<Rightarrow> string" where
  "nullish_text v = (if v = Undefined \<or> v = Null then [] else js_string v)"

fun js_iterate :: "js \<Rightarrow> js_error + js list" where
  "js_iterate (Arr vs) = Inr vs"
| "js_iterate (Str s) = Inr (map (\<lambda>c. Str [c]) s)"
| "js_iterate v = (if truthy v then Inl TypeError else Inr [])"

definition import_host_of :: "bool \<Rightarrow> nat \<Rightarrow> string \<Rightarrow> js \<Rightarrow> import_host" where
  "import_host_of ungrouped counter address host =
     \<lparr>ih_legacyId = ''native-'' @ nat_str counter,
      ih_alias = str_or (Some (trim (nullish_text (js_get host ''alias'')))) address,
      ih_address = address,
      ih_port = (let port = js_get host ''port'' in
        if port = Undefined \<or> port = Null then int_str DEFAULT_IMPORT_PORT else js_string port),
      ih_id = str_or (Some (trim (nullish_text (js_get host ''id'')))) ''admin'', ih_ungrouped = ungrouped\<rparr>"

text \<open>The inner loop, over the hosts of a group, from the counter on.\<close>

fun group_hosts_loop :: "bool \<Rightarrow> nat \<Rightarrow> js list \<Rightarrow> js_error + import_host list" where
  "group_hosts_loop ungrouped counter [] = Inr []"
| "group_hosts_loop ungrouped counter (host # hs) =
     res_bind (js_dot host ''address'') (\<lambda>a.
       let address = trim (nullish_text a)
       in if address = [] then group_hosts_loop ungrouped counter hs
          else res_bind (group_hosts_loop ungrouped (Suc counter) hs) (\<lambda>rest.
            Inr (import_host_of ungrouped counter address host # rest)))"

fun grouped_payload_loop :: "nat \<Rightarrow> js list \<Rightarrow> js_error + import_file" where
  "grouped_payload_loop counter [] = Inr \<lparr>if_hosts = [], if_groups = []\<rparr>"
| "grouped_payload_loop counter (g # gs) =
     res_bind (js_dot g ''name'') (\<lambda>n.
       let groupName = trim (nullish_text n); ungrouped = (groupName = [])
       in res_bind (js_iterate (js_get g ''hosts'')) (\<lambda>hs.
          res_bind (group_hosts_loop ungrouped counter hs) (\<lambda>hosts.
          res_bind (grouped_payload_loop (counter + length hosts) gs) (\<lambda>rest.
            Inr \<lparr>if_hosts = hosts @ if_hosts rest,
                 if_groups = (if groupName \<noteq> [] \<and> hosts \<noteq> []
                              then [\<lparr>ig_name = groupName, ig_legacyHostIds = map ih_legacyId hosts\<rparr>] else [])
                             @ if_groups rest\<rparr>))))"

definition groupedPayloadToHostsAndGroups :: "js list \<Rightarrow> js_error + import_file" where
  "groupedPayloadToHostsAndGroups = grouped_payload_loop 0"

text \<open>The result of a native file, or its error; a \<open>TypeError\<close> has the message \<open>typeErr\<close>.\<close>

definition nativeResult :: "string \<Rightarrow> js_error + import_file \<Rightarrow> string + import_file option" where
  "nativeResult typeErr r =
     (case r of
        Inl TypeError \<Rightarrow> Inl typeErr
      | Inl (Thrown m) \<Rightarrow> Inl m
      | Inr f \<Rightarrow> if if_hosts f = [] then Inl noValidHosts else Inr (Some f))"

definition tryParseNativeJson ::
  "string \<Rightarrow> (units \<Rightarrow> js option) \<Rightarrow> units \<Rightarrow> string + import_file option" where
  "tryParseNativeJson typeErr parseJson input =
     (case parseJson input of
        None \<Rightarrow> Inr None
      | Some data \<Rightarrow>
          if truthy data \<and> js_get data ''format'' = Str NATIVE_FORMAT_ID then
            (case js_get data ''groups'' of
               Arr gs \<Rightarrow> nativeResult typeErr (groupedPayloadToHostsAndGroups gs)
             | _ \<Rightarrow> Inr None)
          else Inr None)"

definition native_host_of_node :: "xml \<Rightarrow> js" where
  "native_host_of_node node = Obj [(''alias'', Str (attr node ''alias'')), (''address'', Str (attr node ''address'')),
     (''port'', Str (str_or (Some (attr node ''port'')) (int_str DEFAULT_IMPORT_PORT))),
     (''id'', Str (str_or (Some (attr node ''user'')) ''admin''))]"

definition native_group_of_node :: "xml \<Rightarrow> js" where
  "native_group_of_node node = Obj [(''name'', Str (trim (attr node ''name''))),
     (''hosts'', Arr (map native_host_of_node (below ''host'' node)))]"

definition tryParseNativeXml ::
  "string \<Rightarrow> (units \<Rightarrow> xml option) \<Rightarrow> units \<Rightarrow> string + import_file option" where
  "tryParseNativeXml typeErr parseXml input =
     res_bind (parseXmlDocument parseXml input ''host list'') (\<lambda>doc.
       if nodeName doc \<noteq> ''cwm-hosts'' then Inr None
       else nativeResult typeErr (groupedPayloadToHostsAndGroups (map native_group_of_node (elements ''group'' doc))))"

definition parseHostsImportFile ::
  "string \<Rightarrow> (units \<Rightarrow> js option) \<Rightarrow> (units \<Rightarrow> xml option) \<Rightarrow> units \<Rightarrow> string + import_file" where
  "parseHostsImportFile typeErr parseJson parseXml rawInput =
     (let input = trim16 (stripBom rawInput);
          legacy =
            (if starts_lt input then
               res_bind (tryParseNativeXml typeErr parseXml input) (\<lambda>native.
                 case native of
                   Some f \<Rightarrow> Inr f
                 | None \<Rightarrow> res_bind (parseHostsFromXmlString parseXml input) (\<lambda>hs.
                     Inr \<lparr>if_hosts = hs, if_groups = []\<rparr>))
             else
               (case extractHostsXmlFromPrefs input of
                  None \<Rightarrow> Inl ''No CUBRID host XML found. Provide a <hosts> XML or .prefs/.properties with CUBRID_SERVERS.''
                | Some hostsXml \<Rightarrow>
                    res_bind (parseHostsFromXmlString parseXml hostsXml) (\<lambda>hs.
                      (case extractXmlPropertyFromPrefs input PREFS_KEY_HOSTGROUP of
                         None \<Rightarrow> Inr \<lparr>if_hosts = hs, if_groups = []\<rparr>
                       | Some groupsXml \<Rightarrow>
                           res_bind (parseHostGroupsFromXmlString parseXml groupsXml) (\<lambda>gs.
                             Inr \<lparr>if_hosts = hs, if_groups = gs\<rparr>)))))
      in if input \<noteq> [] \<and> hd input = 123 then
           res_bind (tryParseNativeJson typeErr parseJson input) (\<lambda>native.
             case native of Some f \<Rightarrow> Inr f | None \<Rightarrow> legacy)
         else legacy)"

section \<open>Checking the rows\<close>

definition parseImportPort :: "string \<Rightarrow> string + int" where
  "parseImportPort value =
     (let raw = trim value
      in if raw = [] then Inr DEFAULT_IMPORT_PORT
         else if \<not> list_all is_digit raw then Inl ''Port must be an integer''
         else (let port = digits_value raw
               in if port < MIN_IMPORT_PORT \<or> port > MAX_IMPORT_PORT
                  then Inl (''Port must be '' @ int_str MIN_IMPORT_PORT @ ''-'' @ int_str MAX_IMPORT_PORT)
                  else Inr port))"

text \<open>A connection as the checks compare it: a port is compared as text.\<close>

record peer_entry =
  pe_rowId :: string
  pe_alias :: string
  pe_address :: string
  pe_port :: string

definition sameConnection :: "string \<Rightarrow> string \<Rightarrow> string \<Rightarrow> string \<Rightarrow> bool" where
  "sameConnection address port address' port' \<longleftrightarrow> trim address = trim address' \<and> port = port'"

definition sameAlias :: "string \<Rightarrow> string \<Rightarrow> bool" where
  "sameAlias a b \<longleftrightarrow> trim a \<noteq> [] \<and> trim b \<noteq> [] \<and> trim a = trim b"

record import_row = import_host +
  ir_rowId :: string
  ir_portNumber :: "int option"
  ir_importGroupName :: string
  ir_hasPrefsGroups :: bool

fun check_existing :: "string \<Rightarrow> string \<Rightarrow> string \<Rightarrow> host_info list \<Rightarrow> string option" where
  "check_existing alias address port [] = None"
| "check_existing alias address port (e # es) =
     (if sameConnection address port (hi_address e) (int_str (hi_port e)) then Some ''Already registered (address + port)''
      else if sameAlias alias (hi_alias e) then Some ''Alias already in use''
      else check_existing alias address port es)"

fun check_peers :: "string \<Rightarrow> string \<Rightarrow> string \<Rightarrow> string \<Rightarrow> peer_entry list \<Rightarrow> string option" where
  "check_peers rowId alias address port [] = None"
| "check_peers rowId alias address port (p # ps) =
     (if pe_rowId p = rowId then check_peers rowId alias address port ps
      else if sameConnection address port (pe_address p) (pe_port p) then Some ''Duplicate address + port in import file''
      else if sameAlias alias (pe_alias p) then Some ''Duplicate alias in import file''
      else check_peers rowId alias address port ps)"

definition validateImportHostEntry ::
  "import_row \<Rightarrow> host_info list \<Rightarrow> peer_entry list \<Rightarrow> string option" where
  "validateImportHostEntry entry existingHosts batchPeers =
     (let alias = trim (ih_alias entry); address = trim (ih_address entry); id = trim (ih_id entry);
          portResult = (case ir_portNumber entry of Some p \<Rightarrow> Inr p | None \<Rightarrow> parseImportPort (ih_port entry))
      in if alias = [] then Some ''Name (alias) is required''
         else if address = [] then Some ''Address is required''
         else if id = [] then Some ''Username is required''
         else (case portResult of
             Inl err \<Rightarrow> Some err
           | Inr port \<Rightarrow>
               (case check_existing alias address (int_str port) existingHosts of
                  Some err \<Rightarrow> Some err
                | None \<Rightarrow> check_peers (ir_rowId entry) alias address (int_str port) batchPeers)))"

definition legacy_map :: "import_group list \<Rightarrow> (string, string) obj" where
  "legacy_map groups =
     fold (\<lambda>g m. if trim (ig_name g) = [] then m
       else fold (\<lambda>i m'. if trim i = [] then m' else obj_set (trim i) (trim (ig_name g)) m') (ig_legacyHostIds g) m)
       groups []"

definition row_id :: "nat \<Rightarrow> string" where
  "row_id i = ''import-row-'' @ nat_str i"

definition base_row :: "(string, string) obj \<Rightarrow> bool \<Rightarrow> nat \<times> import_host \<Rightarrow> import_row" where
  "base_row groupOf hasPrefsGroups ih =
     (case ih of (i, h) \<Rightarrow>
       (let portResult = parseImportPort (ih_port h)
        in \<lparr>ih_legacyId = ih_legacyId h, ih_alias = ih_alias h, ih_address = ih_address h,
            ih_port = (case portResult of Inr p \<Rightarrow> int_str p | Inl _ \<Rightarrow> ih_port h),
            ih_id = ih_id h, ih_ungrouped = ih_ungrouped h, ir_rowId = row_id i,
            ir_portNumber = (case portResult of Inr p \<Rightarrow> Some p | Inl _ \<Rightarrow> None),
            ir_importGroupName = (case map_of groupOf (trim (ih_legacyId h)) of None \<Rightarrow> [] | Some g \<Rightarrow> g),
            ir_hasPrefsGroups = hasPrefsGroups\<rparr>))"

definition peer_of :: "import_row \<Rightarrow> peer_entry" where
  "peer_of other =
     \<lparr>pe_rowId = ir_rowId other, pe_alias = trim (ih_alias other), pe_address = trim (ih_address other),
      pe_port = (case parseImportPort (ih_port other) of Inr p \<Rightarrow> int_str p | Inl _ \<Rightarrow> ih_port other)\<rparr>"

record preview_row = import_row +
  pr_validationError :: "string option"
  pr_isDuplicate :: bool
  pr_isSelectable :: bool

definition preview_row_of :: "import_row list \<Rightarrow> host_info list \<Rightarrow> import_row \<Rightarrow> preview_row" where
  "preview_row_of baseRows existingHosts r =
     (let err = validateImportHostEntry r existingHosts
            (map peer_of (filter (\<lambda>other. ir_rowId other \<noteq> ir_rowId r) baseRows))
      in import_row.extend r
           (preview_row.fields err (err = Some ''Already registered (address + port)'') (err = None)))"

definition buildImportPreviewList :: "import_file \<Rightarrow> host_info list \<Rightarrow> preview_row list" where
  "buildImportPreviewList parsed existingHosts =
     (let hosts = if_hosts parsed; groups = if_groups parsed;
          hasPrefsGroups = (groups \<noteq> [] \<or> list_ex ih_ungrouped hosts);
          baseRows = map (base_row (legacy_map groups) hasPrefsGroups) (enumerate 0 hosts)
      in map (preview_row_of baseRows existingHosts) baseRows)"

text \<open>\<open>None\<close> is \<open>{ ok: true }\<close>, \<open>Some\<close> the messages.\<close>

definition validateSelectedImportRows :: "preview_row list \<Rightarrow> string list option" where
  "validateSelectedImportRows rows =
     (let invalid = filter (\<lambda>r. pr_validationError r \<noteq> None \<and> \<not> pr_isDuplicate r) rows
      in if invalid = [] then None
         else Some (map (\<lambda>r. str_or (Some (ih_alias r)) (str_or (Some (ih_address r)) (ir_rowId r))
                @ '': '' @ (case pr_validationError r of Some e \<Rightarrow> e | None \<Rightarrow> [])) invalid))"

record ('r) import_parts =
  ip_ungrouped :: "'r list"
  ip_byGroup :: "(string, 'r list) obj"
  ip_unassigned :: "'r list"

definition add_row :: "'r import_row_scheme \<Rightarrow> 'r import_row_scheme import_parts \<Rightarrow> 'r import_row_scheme import_parts" where
  "add_row row parts =
     (let groupName = trim (ir_importGroupName row)
      in if ih_ungrouped row then parts\<lparr>ip_ungrouped := ip_ungrouped parts @ [row]\<rparr>
         else if groupName \<noteq> [] then
           parts\<lparr>ip_byGroup := obj_set groupName
             ((case map_of (ip_byGroup parts) groupName of None \<Rightarrow> [] | Some rs \<Rightarrow> rs) @ [row]) (ip_byGroup parts)\<rparr>
         else parts\<lparr>ip_unassigned := ip_unassigned parts @ [row]\<rparr>)"

definition partitionImportRows :: "'r import_row_scheme list \<Rightarrow> 'r import_row_scheme import_parts" where
  "partitionImportRows rows = fold add_row rows \<lparr>ip_ungrouped = [], ip_byGroup = [], ip_unassigned = []\<rparr>"

end
