(* ===== verification/ImportFacts.thy ===== *)
theory ImportFacts
  imports HostImport
begin

text \<open>
  Properties of the host import (\<open>HostImport\<close>): ports, rows that may be imported, how rows are
  split over groups, and that an exported file reads back as what was exported.
\<close>

section \<open>Ports\<close>

lemma import_port_reads:
  "\<lbrakk>1 \<le> p; p \<le> 65535; trim text = int_str p\<rbrakk> \<Longrightarrow> parseImportPort text = Inr p"
proof -
  assume p: "1 \<le> p" "p \<le> 65535" "trim text = int_str p"
  then have "int_str p = nat_str (nat p)" by (simp add: int_str_def)
  with p show "parseImportPort text = Inr p"
    using nat_str_digits [of "nat p"] nat_str_nonempty [of "nat p"] digits_value_nat_str [of "nat p"]
    by (simp add: parseImportPort_def Let_def MIN_IMPORT_PORT_def MAX_IMPORT_PORT_def)
qed

text \<open>
  an imported port is a valid port, and every valid port is accepted. A text is read as the
  default port when blank, otherwise only as a whole number from 1 to 65535; and writing any
  port of that range in decimal, with white space around it or not, reads back as itself.
\<close>

theorem import_port_bounds:
  "(\<forall>p. parseImportPort text = Inr p \<longrightarrow> 1 \<le> p \<and> p \<le> 65535
      \<and> (trim text = [] \<and> p = DEFAULT_IMPORT_PORT \<or> list_all is_digit (trim text) \<and> p = digits_value (trim text)))
   \<and> (\<forall>p. 1 \<le> p \<and> p \<le> 65535 \<and> trim text = int_str p \<longrightarrow> parseImportPort text = Inr p)"
proof (intro conjI allI impI)
  fix p
  assume "parseImportPort text = Inr p"
  then have d: "trim text = [] \<and> p = DEFAULT_IMPORT_PORT \<or>
      list_all is_digit (trim text) \<and> p = digits_value (trim text) \<and> MIN_IMPORT_PORT \<le> p \<and> p \<le> MAX_IMPORT_PORT"
    by (auto simp: parseImportPort_def Let_def split: if_splits)
  then show "1 \<le> p" "p \<le> 65535" "trim text = [] \<and> p = DEFAULT_IMPORT_PORT
      \<or> list_all is_digit (trim text) \<and> p = digits_value (trim text)"
    by (auto simp: DEFAULT_IMPORT_PORT_def MIN_IMPORT_PORT_def MAX_IMPORT_PORT_def)
qed (blast intro: import_port_reads)

lemma import_port_bounds_witness:
  "parseImportPort '' 8001 '' = Inr 8001 \<and> \<not> (\<exists>p. parseImportPort ''65536'' = Inr p)"
proof -
  have "int_str 8001 = ''8001''"
    by (simp add: int_str_def nat_str_large nat_str_small char_of_def bit_iff_odd)
  moreover have "trim '' 8001 '' = ''8001''" by code_simp
  ultimately have "parseImportPort '' 8001 '' = Inr 8001"
    by (intro import_port_bounds [THEN conjunct2, rule_format]) simp
  moreover have "parseImportPort ''65536'' \<noteq> Inr p" for p
  proof
    assume a: "parseImportPort ''65536'' = Inr p"
    have "trim ''65536'' = ''65536''" by code_simp
    moreover have "digits_value ''65536'' = 65536" by code_simp
    ultimately show False using import_port_bounds [THEN conjunct1, rule_format, OF a] by auto
  qed
  ultimately show ?thesis by blast
qed

section \<open>Rows\<close>

lemma check_existing_None:
  "check_existing alias address port es = None \<longleftrightarrow>
     (\<forall>e \<in> set es. \<not> sameConnection address port (hi_address e) (int_str (hi_port e)) \<and> \<not> sameAlias alias (hi_alias e))"
  by (induction es) auto

lemma check_peers_None:
  "check_peers rowId alias address port ps = None \<longleftrightarrow>
     (\<forall>p \<in> set ps. pe_rowId p \<noteq> rowId \<longrightarrow>
        \<not> sameConnection address port (pe_address p) (pe_port p) \<and> \<not> sameAlias alias (pe_alias p))"
  by (induction ps) auto

lemma row_id_inj: "row_id i = row_id j \<longleftrightarrow> i = j"
  using nat_str_inj by (auto simp: row_id_def)

lemma base_row_id [simp]: "ir_rowId (base_row m b (i, h)) = row_id i"
  by (simp add: base_row_def Let_def)

lemma preview_row_fields [simp]:
  "ir_rowId (preview_row_of rows ex r) = ir_rowId r" "ih_alias (preview_row_of rows ex r) = ih_alias r"
  "ih_address (preview_row_of rows ex r) = ih_address r" "ih_port (preview_row_of rows ex r) = ih_port r"
  "ih_id (preview_row_of rows ex r) = ih_id r" "ir_portNumber (preview_row_of rows ex r) = ir_portNumber r"
  "ih_legacyId (preview_row_of rows ex r) = ih_legacyId r" "ih_ungrouped (preview_row_of rows ex r) = ih_ungrouped r"
  "ir_importGroupName (preview_row_of rows ex r) = ir_importGroupName r"
  "pr_validationError (preview_row_of rows ex r) = validateImportHostEntry r ex
     (map peer_of (filter (\<lambda>other. ir_rowId other \<noteq> ir_rowId r) rows))"
  "pr_isSelectable (preview_row_of rows ex r) = (validateImportHostEntry r ex
     (map peer_of (filter (\<lambda>other. ir_rowId other \<noteq> ir_rowId r) rows)) = None)"
  by (simp_all add: preview_row_of_def Let_def import_row.defs preview_row.defs)

lemma distinct_row_ids: "distinct (map ir_rowId (map (base_row m b) (enumerate k hosts)))"
proof -
  have "ir_rowId (base_row m b p) = row_id (fst p)" for p by (cases p) simp
  then have "map ir_rowId (map (base_row m b) (enumerate k hosts)) = map (row_id \<circ> fst) (enumerate k hosts)"
    by (simp only: List.map.compositionality comp_def)
  also have "\<dots> = map row_id [k..<k + length hosts]" by (simp flip: map_map)
  finally show ?thesis by (simp only: distinct_map) (simp add: inj_on_def row_id_inj)
qed

lemma base_row_port:
  "ir_portNumber (base_row m b p) = Some n \<Longrightarrow> ih_port (base_row m b p) = int_str n \<and> 1 \<le> n \<and> n \<le> 65535"
  by (cases p) (auto simp: base_row_def Let_def parseImportPort_def DEFAULT_IMPORT_PORT_def
      MIN_IMPORT_PORT_def MAX_IMPORT_PORT_def split: sum.splits if_splits)

lemma base_row_no_port:
  "ir_portNumber (base_row m b p) = None \<Longrightarrow> \<exists>e. parseImportPort (ih_port (base_row m b p)) = Inl e"
  by (cases p) (auto simp: base_row_def Let_def split: sum.splits)

text \<open>What the check of a row that may be imported has established.\<close>

lemma validate_None:
  assumes "validateImportHostEntry r ex peers = None"
    and port: "\<And>n. ir_portNumber r = Some n \<Longrightarrow> ih_port r = int_str n"
    and noport: "ir_portNumber r = None \<Longrightarrow> \<exists>e. parseImportPort (ih_port r) = Inl e"
  shows "\<exists>n. ir_portNumber r = Some n" "trim (ih_alias r) \<noteq> []" "trim (ih_address r) \<noteq> []" "trim (ih_id r) \<noteq> []"
    and "check_existing (trim (ih_alias r)) (trim (ih_address r)) (ih_port r) ex = None"
    and "check_peers (ir_rowId r) (trim (ih_alias r)) (trim (ih_address r)) (ih_port r) peers = None"
proof -
  have *: "trim (ih_alias r) \<noteq> [] \<and> trim (ih_address r) \<noteq> [] \<and> trim (ih_id r) \<noteq> []"
    using assms(1) by (auto simp: validateImportHostEntry_def Let_def split: if_splits)
  obtain n where n: "ir_portNumber r = Some n"
  proof (cases "ir_portNumber r")
    case None
    with noport obtain e where "parseImportPort (ih_port r) = Inl e" by blast
    with assms(1) * None show ?thesis by (simp add: validateImportHostEntry_def Let_def)
  qed blast
  with assms(1) * port [OF n]
  have c: "check_existing (trim (ih_alias r)) (trim (ih_address r)) (ih_port r) ex = None"
    "check_peers (ir_rowId r) (trim (ih_alias r)) (trim (ih_address r)) (ih_port r) peers = None"
    by (simp_all add: validateImportHostEntry_def Let_def split: option.splits)
  show "\<exists>n. ir_portNumber r = Some n" using n by blast
  show "trim (ih_alias r) \<noteq> []" "trim (ih_address r) \<noteq> []" "trim (ih_id r) \<noteq> []" using * by blast+
  show "check_existing (trim (ih_alias r)) (trim (ih_address r)) (ih_port r) ex = None"
    "check_peers (ir_rowId r) (trim (ih_alias r)) (trim (ih_address r)) (ih_port r) peers = None"
    by (fact c)+
qed

lemma parse_int_str: "1 \<le> n \<Longrightarrow> n \<le> 65535 \<Longrightarrow> parseImportPort (int_str n) = Inr n"
  by (rule import_port_reads) (simp_all add: int_str_def trim_nat_str)

definition base_rows :: "import_file \<Rightarrow> import_row list" where
  "base_rows f = map (base_row (legacy_map (if_groups f)) (if_groups f \<noteq> [] \<or> list_ex ih_ungrouped (if_hosts f)))
     (enumerate 0 (if_hosts f))"

lemma preview_list: "buildImportPreviewList f ex = map (preview_row_of (base_rows f) ex) (base_rows f)"
  by (simp add: buildImportPreviewList_def base_rows_def Let_def)

lemma base_rows_distinct: "distinct (map ir_rowId (base_rows f))"
  unfolding base_rows_def by (rule distinct_row_ids)

lemma base_rows_port:
  assumes "r \<in> set (base_rows f)"
  shows "ir_portNumber r = Some n \<Longrightarrow> ih_port r = int_str n \<and> 1 \<le> n \<and> n \<le> 65535"
    and "ir_portNumber r = None \<Longrightarrow> \<exists>e. parseImportPort (ih_port r) = Inl e"
  using assms base_row_port base_row_no_port unfolding base_rows_def by auto

text \<open>The facts of a row that may be selected.\<close>

lemma selectable_facts:
  assumes "r \<in> set (base_rows f)" "pr_isSelectable (preview_row_of (base_rows f) ex r)"
  obtains n where "ir_portNumber r = Some n" "ih_port r = int_str n" "1 \<le> n" "n \<le> 65535"
    "trim (ih_alias r) \<noteq> []" "trim (ih_address r) \<noteq> []" "trim (ih_id r) \<noteq> []"
    "check_existing (trim (ih_alias r)) (trim (ih_address r)) (int_str n) ex = None"
    "check_peers (ir_rowId r) (trim (ih_alias r)) (trim (ih_address r)) (int_str n)
       (map peer_of (filter (\<lambda>other. ir_rowId other \<noteq> ir_rowId r) (base_rows f))) = None"
proof -
  have "validateImportHostEntry r ex
      (map peer_of (filter (\<lambda>other. ir_rowId other \<noteq> ir_rowId r) (base_rows f))) = None"
    using assms(2) by (simp only: preview_row_fields)
  note v = validate_None [OF this base_rows_port(1) [OF assms(1), THEN conjunct1] base_rows_port(2) [OF assms(1)]]
  from v(1) obtain n where n: "ir_portNumber r = Some n" by blast
  note p = base_rows_port(1) [OF assms(1) n]
  show thesis by (rule that [OF n]) (use p v(2-) in simp_all)
qed


definition sample_file :: import_file where
  "sample_file = \<lparr>if_hosts =
      [\<lparr>ih_legacyId = ''a'', ih_alias = ''one'', ih_address = ''h1'', ih_port = ''7'', ih_id = ''admin'', ih_ungrouped = False\<rparr>,
       \<lparr>ih_legacyId = ''b'', ih_alias = ''one'', ih_address = ''h2'', ih_port = ''7'', ih_id = ''admin'', ih_ungrouped = False\<rparr>,
       \<lparr>ih_legacyId = ''c'', ih_alias = ''two'', ih_address = ''h2'', ih_port = ''8'', ih_id = ''admin'', ih_ungrouped = False\<rparr>],
     if_groups = [\<lparr>ig_name = ''G'', ig_legacyHostIds = [''a'', ''c'']\<rparr>]\<rparr>"


section \<open>Splitting the rows over groups\<close>

abbreviation row_group :: "'r import_row_scheme \<Rightarrow> string" where
  "row_group r \<equiv> trim (ir_importGroupName r)"

definition names_group :: "string \<Rightarrow> 'r import_row_scheme \<Rightarrow> bool" where
  "names_group g r \<longleftrightarrow> \<not> ih_ungrouped r \<and> row_group r = g"

lemma partition_snoc: "partitionImportRows (rows @ [r]) = add_row r (partitionImportRows rows)"
  by (simp add: partitionImportRows_def)

text \<open>
  splitting the chosen rows loses none, repeats none and keeps their order. The rows of the
  no-group bucket are exactly those marked so, the rows of a group exactly those that name it
  (after trimming), the rest are those with a blank group name; each group appears once and no
  group is empty.
\<close>

theorem partition_accounts_for_every_row:
  "ip_ungrouped (partitionImportRows rows) = filter ih_ungrouped rows
   \<and> ip_unassigned (partitionImportRows rows) = filter (names_group []) rows
   \<and> distinct (obj_keys (ip_byGroup (partitionImportRows rows)))
   \<and> map_of (ip_byGroup (partitionImportRows rows)) g =
       (if g = [] \<or> filter (names_group g) rows = [] then None else Some (filter (names_group g) rows))"
proof (induction rows arbitrary: g rule: rev_induct)
  case Nil
  show ?case by (simp add: partitionImportRows_def)
next
  case (snoc r rows)
  note old = snoc [of g, THEN conjunct2, THEN conjunct2, THEN conjunct2]
    and own = snoc [of "row_group r", THEN conjunct2, THEN conjunct2, THEN conjunct2]
  note rest = snoc [of g, THEN conjunct1] snoc [of g, THEN conjunct2, THEN conjunct1]
    snoc [of g, THEN conjunct2, THEN conjunct2, THEN conjunct1]
  consider "ih_ungrouped r" | "\<not> ih_ungrouped r" "row_group r = []" | "\<not> ih_ungrouped r" "row_group r \<noteq> []"
    by blast
  then show ?case
  proof cases
    case 1
    then show ?thesis using old rest by (simp add: partition_snoc add_row_def Let_def names_group_def)
  next
    case 2
    then show ?thesis using snoc [of g] by (simp add: partition_snoc add_row_def Let_def names_group_def)
  next
    case 3
    then show ?thesis
      using old own rest
      by (cases "g = []"; simp add: partition_snoc add_row_def Let_def names_group_def [abs_def] map_of_obj_set distinct_update
          del: map_of_eq_Some_iff map_of_eq_None_iff split: option.split)
  qed
qed

section \<open>An exported file reads back\<close>

text \<open>What a host row of an exported file is read back as.\<close>

abbreviation written_port :: "host_info \<Rightarrow> int" where
  "written_port h \<equiv> if hi_port h = 0 then DEFAULT_IMPORT_PORT else hi_port h"

definition reread_host :: "bool \<Rightarrow> nat \<Rightarrow> host_info \<Rightarrow> import_host" where
  "reread_host ungrouped c h =
     \<lparr>ih_legacyId = ''native-'' @ nat_str c, ih_alias = hi_alias h, ih_address = hi_address h,
      ih_port = int_str (written_port h), ih_id = hi_id h, ih_ungrouped = ungrouped\<rparr>"

fun reread_hosts :: "bool \<Rightarrow> nat \<Rightarrow> host_info list \<Rightarrow> import_host list" where
  "reread_hosts u c [] = []"
| "reread_hosts u c (h # hs) = reread_host u c h # reread_hosts u (Suc c) hs"

definition clean :: "string \<Rightarrow> bool" where
  "clean s \<longleftrightarrow> s \<noteq> [] \<and> trim s = s"

definition clean_host :: "host_info \<Rightarrow> bool" where
  "clean_host h \<longleftrightarrow> clean (hi_alias h) \<and> clean (hi_address h) \<and> clean (hi_id h)"

lemma length_reread_hosts [simp]: "length (reread_hosts u c hs) = length hs"
  by (induction hs arbitrary: c) auto

lemma legacy_reread_hosts:
  "map ih_legacyId (reread_hosts u c hs) = map (\<lambda>i. ''native-'' @ nat_str i) [c..<c + length hs]"
proof (induction hs arbitrary: c)
  case (Cons h hs)
  have "[c..<c + length (h # hs)] = c # [Suc c..<Suc c + length hs]"
    by (simp add: upt_rec [of c] del: upt_Suc)
  with Cons show ?case by (simp add: reread_host_def)
qed simp

lemma group_hosts_loop_export:
  "list_all clean_host hs \<Longrightarrow> group_hosts_loop u c (map export_host hs) = Inr (reread_hosts u c hs)"
proof (induction hs arbitrary: c)
  case (Cons h hs)
  then have c: "clean (hi_alias h)" "clean (hi_address h)" "clean (hi_id h)" by (simp_all add: clean_host_def)
  have "import_host_of u c (hi_address h) (export_host h) = reread_host u c h"
    using c by (simp add: import_host_of_def reread_host_def export_host_def nullish_text_def clean_def str_or_def)
  moreover have "js_dot (export_host h) ''address'' = Inr (Str (hi_address h))"
    by (simp add: export_host_def)
  moreover have "trim (nullish_text (Str (hi_address h))) = hi_address h" "hi_address h \<noteq> []"
    using c by (simp_all add: nullish_text_def clean_def)
  ultimately show ?case using Cons by (simp add: Let_def)
qed simp

text \<open>The groups of the export that are not empty, each with the hosts selected in it.\<close>

definition exported_groups :: "host_groups \<Rightarrow> string list option \<Rightarrow> (string \<times> host_group) list" where
  "exported_groups gs sel = filter (\<lambda>(gid, g). selected_hosts sel g \<noteq> []) gs"

definition written_name :: "host_group \<Rightarrow> string" where
  "written_name g = str_or (Some (hg_name g)) ''Imported''"

fun reread :: "string list option \<Rightarrow> nat \<Rightarrow> (string \<times> host_group) list \<Rightarrow> import_file" where
  "reread sel c [] = \<lparr>if_hosts = [], if_groups = []\<rparr>"
| "reread sel c ((gid, g) # gs) =
     (let u = (gid = UNGROUPED_GROUP_ID); hosts = reread_hosts u c (selected_hosts sel g);
          rest = reread sel (c + length hosts) gs
      in \<lparr>if_hosts = hosts @ if_hosts rest,
          if_groups = (if u then [] else [\<lparr>ig_name = written_name g, ig_legacyHostIds = map ih_legacyId hosts\<rparr>])
            @ if_groups rest\<rparr>)"

definition clean_group :: "string list option \<Rightarrow> string \<times> host_group \<Rightarrow> bool" where
  "clean_group sel p \<longleftrightarrow> trim (hg_name (snd p)) = hg_name (snd p)
     \<and> selected_hosts sel (snd p) \<noteq> [] \<and> list_all clean_host (selected_hosts sel (snd p))"

lemma grouped_loop_export:
  "list_all (clean_group sel) gs \<Longrightarrow>
     grouped_payload_loop c (map (\<lambda>(gid, g). export_group gid g (selected_hosts sel g)) gs) = Inr (reread sel c gs)"
proof (induction gs arbitrary: c)
  case (Cons p gs)
  obtain gid g where p: "p = (gid, g)" by force
  let ?hs = "selected_hosts sel g" and ?u = "gid = UNGROUPED_GROUP_ID"
  from Cons.prems have cl: "trim (hg_name g) = hg_name g" "?hs \<noteq> []" "list_all clean_host ?hs"
    and rest: "list_all (clean_group sel) gs" by (auto simp: p clean_group_def [of sel "(gid, g)"])
  have w: "trim (written_name g) = written_name g" "written_name g \<noteq> []"
  proof -
    have "trim ''Imported'' = ''Imported''" by code_simp
    with cl(1) show "trim (written_name g) = written_name g" "written_name g \<noteq> []"
      by (simp_all add: written_name_def str_or_def)
  qed
  have n: "js_dot (export_group gid g ?hs) ''name'' = Inr (if ?u then Undefined else Str (written_name g))"
    and h: "js_iterate (js_get (export_group gid g ?hs) ''hosts'') = Inr (map export_host ?hs)"
    by (simp_all add: export_group_def written_name_def)
  have nt: "trim (nullish_text (if ?u then Undefined else Str (written_name g))) = (if ?u then [] else written_name g)"
    using w by (simp add: nullish_text_def)
  have ne: "reread_hosts v c ?hs \<noteq> []" for v using cl(2) by (metis length_0_conv length_reread_hosts)
  show ?case
    using Cons.IH [OF rest] group_hosts_loop_export [OF cl(3)] n h nt w(2) ne
    by (cases ?u) (simp_all add: p Let_def)
qed simp


lemma upt_split: "[c..<c + n] @ [c + n..<c + n + m] = [c..<c + (n + m)]" for c :: nat
  using upt_add_eq_append [of c "c + n" m] by (simp add: add.assoc)

lemma reread_legacy:
  "map ih_legacyId (if_hosts (reread sel c gs)) =
     map (\<lambda>i. ''native-'' @ nat_str i) [c..<c + length (if_hosts (reread sel c gs))]"
proof (induction gs arbitrary: c)
  case (Cons p gs)
  obtain gid g where p: "p = (gid, g)" by force
  let ?n = "length (selected_hosts sel g)"
  let ?m = "length (if_hosts (reread sel (c + ?n) gs))"
  have "map ih_legacyId (if_hosts (reread sel c (p # gs))) =
      map (\<lambda>i. ''native-'' @ nat_str i) ([c..<c + ?n] @ [c + ?n..<c + ?n + ?m])"
    using Cons [of "c + ?n"] by (simp only: p reread.simps Let_def length_reread_hosts import_file.select_convs
        map_append legacy_reread_hosts)
  also have "[c..<c + ?n] @ [c + ?n..<c + ?n + ?m] = [c..<c + (?n + ?m)]"
    by (rule upt_split)
  also have "?n + ?m = length (if_hosts (reread sel c (p # gs)))"
    by (simp add: p Let_def)
  finally show ?case .
qed simp

lemma reread_hosts_fields:
  "map (\<lambda>h. (ih_alias h, ih_address h, ih_port h, ih_id h, ih_ungrouped h)) (reread_hosts u c hs)
     = map (\<lambda>h. (hi_alias h, hi_address h, int_str (written_port h), hi_id h, u)) hs"
  by (induction hs arbitrary: c) (simp_all add: reread_host_def)

lemma reread_fields:
  "map (\<lambda>h. (ih_alias h, ih_address h, ih_port h, ih_id h, ih_ungrouped h)) (if_hosts (reread sel c gs))
     = concat (map (\<lambda>(gid, g). map (\<lambda>h. (hi_alias h, hi_address h, int_str (written_port h), hi_id h,
                                          gid = UNGROUPED_GROUP_ID)) (selected_hosts sel g)) gs)"
  by (induction gs arbitrary: c) (auto simp: Let_def reread_hosts_fields)

lemma reread_hosts_ungrouped: "h \<in> set (reread_hosts u c hs) \<Longrightarrow> ih_ungrouped h = u"
  by (induction hs arbitrary: c) (auto simp: reread_host_def)

lemma reread_groups:
  "map (\<lambda>g. (ig_name g, length (ig_legacyHostIds g))) (if_groups (reread sel c gs))
     = map (\<lambda>(gid, g). (written_name g, length (selected_hosts sel g))) (filter (\<lambda>(gid, g). gid \<noteq> UNGROUPED_GROUP_ID) gs)
   \<and> concat (map ig_legacyHostIds (if_groups (reread sel c gs)))
     = map ih_legacyId (filter (\<lambda>h. \<not> ih_ungrouped h) (if_hosts (reread sel c gs)))"
proof (induction gs arbitrary: c)
  case (Cons p gs)
  obtain gid g where p: "p = (gid, g)" by force
  have "filter (\<lambda>h. \<not> ih_ungrouped h) (reread_hosts u c hs) = (if u then [] else reread_hosts u c hs)" for u hs
    by (auto simp: filter_empty_conv filter_id_conv dest: reread_hosts_ungrouped)
  with Cons [of "c + length (selected_hosts sel g)"] show ?case by (simp add: p Let_def)
qed simp

text \<open>
  C16: a JSON export reads back as what was exported. When the export succeeds and the file's
  text is parsed to what was written, the import succeeds and yields the selected hosts in order,
  each with its name, address, port (8001 where none was set) and user and marked as ungrouped
  exactly when it came from the no-group bucket; every host gets its own temporary id; and the
  groups are the exported ones, in order, each with as many hosts as were selected in it, their
  ids being those of the grouped hosts in order. Hosts are assumed to have a name, address and
  user without white space around, and groups a name of this kind (or none).
\<close>

theorem json_export_reads_back:
  assumes export: "exportHostGroupsToJson gs sel date = Some v"
    and clean: "\<forall>(gid, g) \<in> set gs. trim (hg_name g) = hg_name g \<and> list_all clean_host (selected_hosts sel g)"
    and input: "trim16 (stripBom raw) = 123 # rest" "parseJson (123 # rest) = Some v"
  shows "\<exists>f. parseHostsImportFile typeErr parseJson parseXml raw = Inr f
    \<and> map (\<lambda>h. (ih_alias h, ih_address h, ih_port h, ih_id h, ih_ungrouped h)) (if_hosts f)
        = concat (map (\<lambda>(gid, g). map (\<lambda>h. (hi_alias h, hi_address h, int_str (written_port h), hi_id h,
                                             gid = UNGROUPED_GROUP_ID)) (selected_hosts sel g)) (exported_groups gs sel))
    \<and> distinct (map ih_legacyId (if_hosts f))
    \<and> map (\<lambda>g. (ig_name g, length (ig_legacyHostIds g))) (if_groups f)
        = map (\<lambda>(gid, g). (written_name g, length (selected_hosts sel g)))
            (filter (\<lambda>(gid, g). gid \<noteq> UNGROUPED_GROUP_ID) (exported_groups gs sel))
    \<and> concat (map ig_legacyHostIds (if_groups f)) = map ih_legacyId (filter (\<lambda>h. \<not> ih_ungrouped h) (if_hosts f))"
proof -
  let ?gs = "exported_groups gs sel"
  have payload: "buildGroupedExportPayload gs sel = map (\<lambda>(gid, g). export_group gid g (selected_hosts sel g)) ?gs"
    by (simp add: buildGroupedExportPayload_def exported_groups_def)
  have ne: "?gs \<noteq> []" and v: "js_get v ''format'' = Str NATIVE_FORMAT_ID" "truthy v"
    "js_get v ''groups'' = Arr (map (\<lambda>(gid, g). export_group gid g (selected_hosts sel g)) ?gs)"
    using export by (auto simp: exportHostGroupsToJson_def Let_def payload split: if_splits)
  have cl: "list_all (clean_group sel) ?gs"
    using clean by (auto simp: exported_groups_def clean_group_def list_all_iff)
  let ?f = "reread sel 0 ?gs"
  have hosts: "if_hosts ?f \<noteq> []"
  proof -
    obtain gid g tl where tl: "?gs = (gid, g) # tl" using ne by (metis list.exhaust surj_pair)
    then have "selected_hosts sel g \<noteq> []" using cl by (simp add: clean_group_def)
    then have "reread_hosts u 0 (selected_hosts sel g) \<noteq> []" for u by (metis length_0_conv length_reread_hosts)
    then show ?thesis by (simp add: tl Let_def)
  qed
  have "tryParseNativeJson typeErr parseJson (123 # rest) = Inr (Some ?f)"
    using v hosts grouped_loop_export [OF cl, of 0] input(2)
    by (simp add: tryParseNativeJson_def groupedPayloadToHostsAndGroups_def nativeResult_def)
  then have "parseHostsImportFile typeErr parseJson parseXml raw = Inr ?f"
    by (simp add: parseHostsImportFile_def input(1) Let_def)
  moreover have "distinct (map ih_legacyId (if_hosts ?f))"
    by (subst reread_legacy) (auto simp: distinct_map inj_on_def dest: nat_str_inj)
  ultimately show ?thesis using reread_fields reread_groups by (intro exI [of _ ?f]) simp
qed

definition export_sample :: host_groups where
  "export_sample =
     [(UNGROUPED_GROUP_ID, \<lparr>hg_name = [], hg_hosts =
        [(''u1'', \<lparr>hi_uid = ''u1'', hi_id = ''admin'', hi_address = ''h'', hi_port = 7, hi_alias = ''a'',
                   hi_initialLogin = False, hi_cmsSessionExpiresAt = None\<rparr>)], hg_defaultHostUid = None\<rparr>),
      (''g'', \<lparr>hg_name = ''G'', hg_hosts =
        [(''u2'', \<lparr>hi_uid = ''u2'', hi_id = ''admin'', hi_address = ''k'', hi_port = 8, hi_alias = ''b'',
                   hi_initialLogin = False, hi_cmsSessionExpiresAt = None\<rparr>)], hg_defaultHostUid = None\<rparr>)]"

lemma json_export_reads_back_witness:
  "\<exists>f. parseHostsImportFile [] (\<lambda>_. exportHostGroupsToJson export_sample None ''now'') (\<lambda>_. None) [123, 125] = Inr f
     \<and> map ih_alias (if_hosts f) = [''a'', ''b''] \<and> map ig_name (if_groups f) = [''G'']"
proof -
  obtain v where v: "exportHostGroupsToJson export_sample None ''now'' = Some v"
    by (cases "exportHostGroupsToJson export_sample None ''now''") (auto simp: exportHostGroupsToJson_def
        buildGroupedExportPayload_def export_sample_def selected_hosts_def Let_def)
  have c: "\<forall>(gid, g) \<in> set export_sample. trim (hg_name g) = hg_name g \<and> list_all clean_host (selected_hosts None g)"
    by code_simp
  have i: "trim16 (stripBom [123, 125]) = 123 # [125]" by code_simp
  have e: "exported_groups export_sample None = export_sample" by code_simp
  obtain f where f: "parseHostsImportFile [] (\<lambda>_. exportHostGroupsToJson export_sample None ''now'') (\<lambda>_. None) [123, 125] = Inr f"
    "map (\<lambda>h. (ih_alias h, ih_address h, ih_port h, ih_id h, ih_ungrouped h)) (if_hosts f)
      = concat (map (\<lambda>(gid, g). map (\<lambda>h. (hi_alias h, hi_address h, int_str (written_port h), hi_id h,
           gid = UNGROUPED_GROUP_ID)) (selected_hosts None g)) export_sample)"
    "map (\<lambda>g. (ig_name g, length (ig_legacyHostIds g))) (if_groups f)
      = map (\<lambda>(gid, g). (written_name g, length (selected_hosts None g)))
          (filter (\<lambda>(gid, g). gid \<noteq> UNGROUPED_GROUP_ID) export_sample)"
    using json_export_reads_back [OF v c i, of "\<lambda>_. exportHostGroupsToJson export_sample None ''now''" "[]" "\<lambda>_. None"]
    unfolding e using v by blast
  from arg_cong [OF f(2), of "map fst"] have "map ih_alias (if_hosts f) = [''a'', ''b'']"
    by (simp add: export_sample_def selected_hosts_def comp_def)
  moreover from arg_cong [OF f(3), of "map fst"] have "map ig_name (if_groups f) = [''G'']"
    by (simp add: export_sample_def selected_hosts_def comp_def written_name_def str_or_def UNGROUPED_GROUP_ID_def)
  ultimately show ?thesis using f(1) by (intro exI [of _ f]) simp
qed

end
