(* ===== verification/CmsResponses.thy ===== *)
theory CmsResponses
  imports JsPrelude
begin

text \<open>
  Model of how the API server reads an answer of the manager service
  (\<open>apps/api-server/src/common/decorators/handle-cms-status-errors.decorator.ts\<close> and
  \<open>handle-cms-token-errors.decorator.ts\<close>) and of what it shows of a maintenance run
  (\<open>cms-job/maintenance-job.ts\<close>). The regular expressions are written out as matchers; an error
  object that is thrown is represented by what a caller can see of it.
\<close>

section \<open>More strings\<close>

fun str_includes :: "string \<Rightarrow> string \<Rightarrow> bool" where
  "str_includes part [] = (part = [])"
| "str_includes part (c # cs) = (starts_with part (c # cs) \<or> str_includes part cs)"

definition ends_with :: "string \<Rightarrow> string \<Rightarrow> bool" where
  "ends_with suffix s \<longleftrightarrow> starts_with (rev suffix) (rev s)"

definition rtrim :: "string \<Rightarrow> string" where
  "rtrim s = rev (dropWhile js_ws (rev s))"

text \<open>\<open>s.split(sep).join(r)\<close> for a separator that is not empty.\<close>

function replace_all :: "string \<Rightarrow> string \<Rightarrow> string \<Rightarrow> string" where
  "replace_all sep r [] = []"
| "replace_all sep r (c # cs) =
     (if sep \<noteq> [] \<and> starts_with sep (c # cs) then r @ replace_all sep r (drop (length sep) (c # cs))
      else c # replace_all sep r cs)"
  by pat_completeness auto
termination
  by (relation "measure (\<lambda>(sep, r, s). length s)") (auto simp: neq_Nil_conv)

lemma includes_append: "str_includes p s \<longleftrightarrow> (\<exists>a b. s = a @ p @ b)"
proof (induction s)
  case (Cons c cs)
  show ?case
  proof
    assume "str_includes p (c # cs)"
    then show "\<exists>a b. c # cs = a @ p @ b"
    proof (cases "starts_with p (c # cs)")
      case True
      then show ?thesis by (metis append_Nil starts_with_append)
    next
      case False
      with \<open>str_includes p (c # cs)\<close> Cons.IH obtain a b where "cs = a @ p @ b" by auto
      then have "c # cs = (c # a) @ p @ b" by simp
      then show ?thesis by blast
    qed
  next
    assume "\<exists>a b. c # cs = a @ p @ b"
    then obtain a b where ab: "c # cs = a @ p @ b" by blast
    show "str_includes p (c # cs)"
    proof (cases a)
      case Nil
      with ab have "starts_with p (c # cs)" by simp
      then show ?thesis by simp
    next
      case (Cons d a')
      with ab Cons.IH show ?thesis by auto
    qed
  qed
qed simp

section \<open>Status of an answer\<close>

definition has_key :: "js \<Rightarrow> string \<Rightarrow> bool" where
  "has_key v k = (case v of Obj kvs \<Rightarrow> k \<in> fst ` set kvs | _ \<Rightarrow> False)"

definition isCmsStatusFailure :: "js \<Rightarrow> bool" where
  "isCmsStatusFailure response =
     (if \<not> has_key response ''status'' then False
      else
        (let normalized = lower (trim (js_string (js_get response ''status'')))
         in if normalized = ''success'' \<or> normalized = ''ok'' then False
            else if str_includes ''fail'' normalized \<or> normalized = ''error'' then True
            else normalized \<noteq> ''success''))"

text \<open>The five patterns of \<open>getCmsErrorLines\<close>; all ignore case.\<close>

definition is_error_line :: "string \<Rightarrow> bool" where
  "is_error_line text =
     (let t = lower text
      in starts_with ''error:'' (dropWhile js_ws t) \<or> str_includes ''error occurred'' t
         \<or> str_includes (''can'' @ [CHR 0x27] @ ''t open file'') t \<or> starts_with ''load failed.'' t
         \<or> starts_with ''stopped with error.'' t)"

definition getCmsErrorLines :: "js \<Rightarrow> string list" where
  "getCmsErrorLines response =
     (case js_get response ''line'' of
        Arr lines \<Rightarrow> filter (\<lambda>text. text \<noteq> [] \<and> is_error_line text) (map (\<lambda>l. trim (js_string l)) lines)
      | _ \<Rightarrow> [])"

definition hasCmsLineFailure :: "js \<Rightarrow> bool" where
  "hasCmsLineFailure response \<longleftrightarrow> getCmsErrorLines response \<noteq> []"

definition isCmsLongJobFailure :: "js \<Rightarrow> bool" where
  "isCmsLongJobFailure response \<longleftrightarrow> isCmsStatusFailure response \<or> hasCmsLineFailure response"

text \<open>\<open>s.replace(/<end>\s*$/i, '')\<close>: at most one place matches.\<close>

definition strip_end :: "string \<Rightarrow> string" where
  "strip_end s = (let t = rtrim s in if ends_with ''<end>'' (lower t) then take (length t - 5) t else s)"

definition stripCmsArtifacts :: "string \<Rightarrow> string" where
  "stripCmsArtifacts s = trim (strip_end s)"

definition isMeaningfulCmsNote :: "js \<Rightarrow> bool" where
  "isMeaningfulCmsNote note =
     (if note = Undefined \<or> note = Null then False
      else (let v = trim (js_string note) in v \<noteq> [] \<and> lower v \<noteq> ''none''))"

definition line_message :: "js \<Rightarrow> string" where
  "line_message response =
     (let errorLines = getCmsErrorLines response
      in if errorLines \<noteq> [] then join [CHR 0x0A] errorLines
         else (case js_get response ''line'' of
             Arr lines \<Rightarrow> trim (join [CHR 0x0A] (filter (\<lambda>l. trim l \<noteq> []) (map js_string lines)))
           | _ \<Rightarrow> []))"

definition extractCmsFailureMessage :: "js \<Rightarrow> string option \<Rightarrow> string" where
  "extractCmsFailureMessage response errorMessage =
     (let note = js_get response ''note'';
          noteMessage = (if isMeaningfulCmsNote note then Some (stripCmsArtifacts (js_string note)) else None)
      in str_or errorMessage (str_or noteMessage (str_or (Some (line_message response)) ''CMS request failed'')))"

definition extractCmsLongJobFailureMessage :: "js \<Rightarrow> string" where
  "extractCmsLongJobFailureMessage response = extractCmsFailureMessage response None"

definition isInvalidTokenError :: "js \<Rightarrow> bool" where
  "isInvalidTokenError response =
     (case js_get response ''note'' of
        Str note \<Rightarrow>
          (let lowerNote = lower (trim (strip_end note))
           in str_includes ''invalid token'' lowerNote \<and> str_includes ''reconnect'' lowerNote)
      | _ \<Rightarrow> False)"

section \<open>Maintenance output\<close>

text \<open>The masking pattern: a name of a secret, an equals sign or colon, and its value.\<close>

definition opt_quote :: "string \<Rightarrow> string \<times> string" where
  "opt_quote s = (case s of c # cs \<Rightarrow> if c = CHR 0x22 \<or> c = CHR 0x27 then ([c], cs) else ([], s) | [] \<Rightarrow> ([], []))"

definition secret_name :: "string \<Rightarrow> string option" where
  "secret_name s = find (\<lambda>k. starts_with k (lower s)) [''token'', ''dbpasswd'', ''password'']"

definition spaces :: "string \<Rightarrow> string \<times> string" where
  "spaces s = (takeWhile js_ws s, dropWhile js_ws s)"

text \<open>What is left after a value, if there is one: a quoted text, or characters up to a space,
  comma or semicolon.\<close>

definition after_value :: "string \<Rightarrow> string option" where
  "after_value s =
     (case s of
        [] \<Rightarrow> None
      | q # cs \<Rightarrow>
          if (q = CHR 0x22 \<or> q = CHR 0x27) \<and> q \<in> set cs then Some (tl (dropWhile (\<lambda>c. c \<noteq> q) cs))
          else if js_ws q \<or> q = CHR '','' \<or> q = CHR '';'' then None
          else Some (dropWhile (\<lambda>c. \<not> (js_ws c \<or> c = CHR '','' \<or> c = CHR '';'')) s))"

text \<open>A match at the start of a text: the part that is kept, and what follows the value.\<close>

definition match_secret :: "string \<Rightarrow> (string \<times> string) option" where
  "match_secret s =
     (let (q1, s1) = opt_quote s
      in case secret_name s1 of
           None \<Rightarrow> None
         | Some k \<Rightarrow>
             (let key = take (length k) s1;
                  (q2, s2) = opt_quote (drop (length k) s1);
                  (w1, s3) = spaces s2
              in case s3 of
                   [] \<Rightarrow> None
                 | e # s4 \<Rightarrow>
                     if e \<noteq> CHR ''='' \<and> e \<noteq> CHR '':'' then None
                     else (let (w2, s5) = spaces s4
                           in map_option (\<lambda>rest. (q1 @ key @ q2 @ w1 @ [e] @ w2, rest)) (after_value s5))))"

lemma length_after_value: "after_value s = Some r \<Longrightarrow> length r \<le> length s"
proof (cases s)
  case (Cons q cs)
  assume a: "after_value s = Some r"
  have "length (dropWhile P xs) \<le> length xs" for P and xs :: string by (rule length_dropWhile_le)
  from this [of "\<lambda>c. c \<noteq> q" cs] this [of "\<lambda>c. \<not> (js_ws c \<or> c = CHR '','' \<or> c = CHR '';'')" s] a Cons
  show ?thesis by (auto simp: after_value_def split: if_splits)
qed (simp add: after_value_def)

lemma length_opt_quote: "length (snd (opt_quote s)) \<le> length s"
  by (cases s) (auto simp: opt_quote_def)

lemma match_secret_shorter: "match_secret s = Some (kept, rest) \<Longrightarrow> length rest < length s"
proof -
  assume m: "match_secret s = Some (kept, rest)"
  obtain q1 s1 where q1: "opt_quote s = (q1, s1)" by force
  with m obtain k where k: "secret_name s1 = Some k" by (auto simp: match_secret_def split: option.splits)
  obtain q2 s2 where q2: "opt_quote (drop (length k) s1) = (q2, s2)" by force
  from m q1 k q2 obtain e s4 where e: "dropWhile js_ws s2 = e # s4"
    by (auto simp: match_secret_def spaces_def Let_def split: list.splits)
  from m q1 k q2 e have r: "after_value (dropWhile js_ws s4) = Some rest"
    by (auto simp: match_secret_def spaces_def Let_def split: if_splits)
  have "length rest \<le> length (dropWhile js_ws s4)" by (rule length_after_value [OF r])
  also have "\<dots> \<le> length s4" by (rule length_dropWhile_le)
  also have "\<dots> < length (dropWhile js_ws s2)" using e by simp
  also have "\<dots> \<le> length s2" by (rule length_dropWhile_le)
  also have "\<dots> \<le> length (drop (length k) s1)" using length_opt_quote [of "drop (length k) s1"] q2 by simp
  also have "\<dots> \<le> length s1" by simp
  also have "\<dots> \<le> length s" using length_opt_quote [of s] q1 by simp
  finally show ?thesis .
qed

function mask_secrets :: "string \<Rightarrow> string" where
  "mask_secrets s =
     (case s of
        [] \<Rightarrow> []
      | c # cs \<Rightarrow>
          (case match_secret s of
             Some (kept, rest) \<Rightarrow> kept @ ''[redacted]'' @ mask_secrets rest
           | None \<Rightarrow> c # mask_secrets cs))"
  by pat_completeness auto
termination
  by (relation "measure length") (auto dest: match_secret_shorter)

declare mask_secrets.simps [simp del]

lemma map_of_size_js: "map_of kvs k = Some v \<Longrightarrow> size v < size (Obj kvs)"
  by (induction kvs) (auto split: if_splits)

text \<open>Only utility text is shown: strings, arrays of them and \<open>{ line: ... }\<close>.\<close>

function textLines :: "js \<Rightarrow> string list" where
  "textLines (Str s) = (if trim s \<noteq> [] then [s] else [])"
| "textLines (Arr vs) = concat (map textLines vs)"
| "textLines (Obj kvs) = (case map_of kvs ''line'' of Some v \<Rightarrow> textLines v | None \<Rightarrow> [])"
| "textLines Undefined = []"
| "textLines Null = []"
| "textLines (Bool b) = []"
| "textLines (Num n) = []"
  by pat_completeness auto

termination
  by (relation "measure size") (auto dest: map_of_size_js simp: less_Suc_eq_le size_list_estimation')

datatype job_type =
  Unload | Load | Create | Optimize | Check | Compact | Copy | Addvol | Rename | Delete | Backupdb | Restore

text \<open>The secrets that are cut out of the text wherever they occur.\<close>

definition secrets_of :: "js \<Rightarrow> js \<Rightarrow> string list" where
  "secrets_of payload response =
     List.map_filter (\<lambda>v. case v of Str s \<Rightarrow> if s = [] then None else Some s | _ \<Rightarrow> None)
       [js_get payload ''dbpasswd'', js_get response ''token'', js_get response ''dbpasswd'', js_get response ''password'']"

definition redactMaintenanceText :: "js \<Rightarrow> js \<Rightarrow> string \<Rightarrow> string" where
  "redactMaintenanceText payload response v =
     mask_secrets (fold (\<lambda>secret out. replace_all secret ''[redacted]'' out) (secrets_of payload response) v)"

definition getMaintenanceSummary :: "job_type \<Rightarrow> js \<Rightarrow> js option" where
  "getMaintenanceSummary type payload =
     (case type of
        Optimize \<Rightarrow>
          (let classname = js_get payload ''classname''
           in Some (Obj ([(''operation'', Str ''statistics-update''),
                (''scope'', Str (if truthy classname then ''selected-class'' else ''all-classes''))]
                @ (if truthy classname then [(''className'', classname)] else [])
                @ [(''scanMethod'', Str ''unknown'')])))
      | Check \<Rightarrow> Some (Obj [(''operation'', Str ''consistency-check''), (''scope'', Str ''entire-database''),
                           (''repairRequested'', Bool (js_get payload ''repairdb'' = Str ''y''))])
      | _ \<Rightarrow> None)"

definition getMaintenanceResult :: "js \<Rightarrow> js \<Rightarrow> bool \<Rightarrow> js" where
  "getMaintenanceResult payload response success =
     (let lines = textLines (js_get response ''log'') @ textLines (js_get response ''line'');
          note = (case js_get response ''note'' of
             Str n \<Rightarrow> if trim n \<noteq> [] \<and> lower (trim n) \<noteq> ''none'' then [n] else []
           | _ \<Rightarrow> []);
          output = redactMaintenanceText payload response (join [CHR 0x0A] (lines @ note))
      in Obj ([(''success'', Bool success)] @ (if output \<noteq> [] then [(''output'', Str output)] else [])))"

end
