(* ===== verification/CmsJobs.thy ===== *)
theory CmsJobs
  imports Complex_Main CmsResponses HostGroups
begin

text \<open>
  Model of the long-running jobs of the API server (\<open>apps/api-server/src/cms-job\<close>): the job files
  of \<open>CmsJobStore\<close>, the operation locks, and \<open>CmsJobService\<close>. Time is milliseconds; an ISO time
  stamp is represented by the time it stands for. A job file that does not parse is \<open>Corrupt\<close>.
  Failures of the file system other than a missing file are not modelled.
\<close>

section \<open>Jobs\<close>

datatype job_status = Queued | Running | Succeeded | Failed

definition isTerminalJobStatus :: "job_status \<Rightarrow> bool" where
  "isTerminalJobStatus s \<longleftrightarrow> s = Succeeded \<or> s = Failed"

record job_error =
  je_message :: string
  je_code :: js
  je_cmsStatus :: js

record cms_job =
  cj_jobId :: string
  cj_userId :: string
  cj_hostUid :: string
  cj_dbname :: string
  cj_type :: job_type
  cj_status :: job_status
  cj_createdAt :: int
  cj_startedAt :: "int option"
  cj_finishedAt :: "int option"
  cj_payload :: js
  cj_result :: js
  cj_warnings :: "string list"
  cj_error :: "job_error option"
  cj_cmsUuid :: "string option"

definition resolveJobDbname :: "job_type \<Rightarrow> string \<Rightarrow> js \<Rightarrow> string" where
  "resolveJobDbname type dbname payload =
     (if type = Copy then js_string (js_get payload ''destdbname'') else dbname)"

text \<open>\<open>JSON.stringify\<close> of a string and of a pair of strings.\<close>

definition hex_char :: "nat \<Rightarrow> char" where
  "hex_char n = char_of (if n < 10 then 48 + n else 87 + n)"

definition json_char :: "char \<Rightarrow> string" where
  "json_char c =
     (let n = of_char c :: nat
      in if c = CHR 0x22 \<or> c = CHR 0x5C then [CHR 0x5C, c]
         else if n = 8 then [CHR 0x5C, CHR ''b''] else if n = 9 then [CHR 0x5C, CHR ''t'']
         else if n = 10 then [CHR 0x5C, CHR ''n''] else if n = 12 then [CHR 0x5C, CHR ''f'']
         else if n = 13 then [CHR 0x5C, CHR ''r'']
         else if n < 32 then [CHR 0x5C, CHR ''u'', CHR ''0'', CHR ''0'', hex_char (n div 16), hex_char (n mod 16)]
         else [c])"

definition json_string :: "string \<Rightarrow> string" where
  "json_string s = [CHR 0x22] @ concat (map json_char s) @ [CHR 0x22]"

definition buildOperationKey :: "string \<Rightarrow> string \<Rightarrow> string" where
  "buildOperationKey hostKey dbname = ''['' @ json_string hostKey @ '','' @ json_string dbname @ '']''"

section \<open>The store\<close>

record op_entry =
  oe_jobId :: string
  oe_userKey :: string

datatype job_file = Parsed cms_job | Corrupt

type_synonym job_dir = "(string, job_file) obj"

record job_store =
  st_dirs :: "(string, job_dir) obj"
  st_operations :: "(string, (string, string) obj) obj"
  st_globalOperations :: "(string, op_entry) obj"

definition user_dir :: "string \<Rightarrow> job_store \<Rightarrow> job_dir" where
  "user_dir userKey st = (case map_of (st_dirs st) userKey of None \<Rightarrow> [] | Some d \<Rightarrow> d)"

definition saveJob :: "string \<Rightarrow> cms_job \<Rightarrow> job_store \<Rightarrow> job_store" where
  "saveJob userKey record st =
     st\<lparr>st_dirs := obj_set userKey (obj_set (cj_jobId record) (Parsed record) (user_dir userKey st)) (st_dirs st)\<rparr>"

text \<open>Reading a file that does not parse raises.\<close>

definition getJob :: "string \<Rightarrow> string \<Rightarrow> job_store \<Rightarrow> js_error + cms_job option" where
  "getJob userKey jobId st =
     (case map_of (user_dir userKey st) jobId of
        None \<Rightarrow> Inr None
      | Some (Parsed j) \<Rightarrow> Inr (Some j)
      | Some Corrupt \<Rightarrow> Inl (Thrown ''SyntaxError''))"

definition parsed_jobs :: "job_dir \<Rightarrow> cms_job list" where
  "parsed_jobs d = List.map_filter (\<lambda>(_, f). case f of Parsed j \<Rightarrow> Some j | Corrupt \<Rightarrow> None) d"

definition newest_first :: "cms_job \<Rightarrow> cms_job \<Rightarrow> int" where
  "newest_first a b = sgn (cj_createdAt b - cj_createdAt a)"

definition listJobsForUser :: "string \<Rightarrow> job_store \<Rightarrow> cms_job list" where
  "listJobsForUser userKey st = js_sort newest_first (parsed_jobs (user_dir userKey st))"

definition readOperations :: "string \<Rightarrow> job_store \<Rightarrow> (string, string) obj" where
  "readOperations userKey st = (case map_of (st_operations st) userKey of None \<Rightarrow> [] | Some ops \<Rightarrow> ops)"

definition removeJobIdFromOperations :: "string \<Rightarrow> string \<Rightarrow> job_store \<Rightarrow> job_store" where
  "removeJobIdFromOperations userKey jobId st =
     (let ops = readOperations userKey st; kept = filter (\<lambda>(_, v). v \<noteq> jobId) ops
      in if kept = ops then st else st\<lparr>st_operations := obj_set userKey kept (st_operations st)\<rparr>)"

definition removeJobIdFromGlobalOperations :: "string \<Rightarrow> job_store \<Rightarrow> job_store" where
  "removeJobIdFromGlobalOperations jobId st =
     st\<lparr>st_globalOperations := filter (\<lambda>(_, e). oe_jobId e \<noteq> jobId) (st_globalOperations st)\<rparr>"

definition deleteJob :: "string \<Rightarrow> string \<Rightarrow> job_store \<Rightarrow> job_store" where
  "deleteJob userKey jobId st =
     (case map_of (st_dirs st) userKey of
        None \<Rightarrow> st
      | Some d \<Rightarrow> st\<lparr>st_dirs := obj_set userKey (obj_del jobId d) (st_dirs st)\<rparr>)"

definition listUserJobKeys :: "job_store \<Rightarrow> string list" where
  "listUserJobKeys st = filter (\<lambda>k. k \<noteq> ''operations'') (obj_keys (st_dirs st))"

definition active :: "cms_job \<Rightarrow> bool" where
  "active j \<longleftrightarrow> cj_status j = Queued \<or> cj_status j = Running"

definition listOrphanedActiveJobs :: "job_store \<Rightarrow> (string \<times> cms_job) list" where
  "listOrphanedActiveJobs st =
     concat (map (\<lambda>u. map (\<lambda>j. (u, j)) (filter active (listJobsForUser u st))) (listUserJobKeys st))"

definition finalizeOrphanedJob :: "string \<Rightarrow> cms_job \<Rightarrow> job_store \<Rightarrow> job_store" where
  "finalizeOrphanedJob userKey job st =
     removeJobIdFromGlobalOperations (cj_jobId job)
       (removeJobIdFromOperations userKey (cj_jobId job) (saveJob userKey job st))"

text \<open>Every orphan is marked failed; the number of them is returned too.\<close>

definition failOrphanedActiveJobs :: "string \<Rightarrow> js \<Rightarrow> int \<Rightarrow> job_store \<Rightarrow> job_store \<times> nat" where
  "failOrphanedActiveJobs message code now st =
     fold (\<lambda>userKey acc. fold (\<lambda>job (s, failed).
          if \<not> active job then (s, failed)
          else (finalizeOrphanedJob userKey
             (job\<lparr>cj_status := Failed,
                  cj_error := Some \<lparr>je_message = message, je_code = code, je_cmsStatus = Undefined\<rparr>,
                  cj_finishedAt := Some now\<rparr>) s, Suc failed))
        (listJobsForUser userKey (fst acc)) acc)
       (listUserJobKeys st) (st, 0)"

subsection \<open>Cleaning up\<close>

text \<open>The limits, in milliseconds; \<open>env\<close> is the number of hours an environment variable holds, if
  it is set to a finite one.\<close>

definition hours_or :: "rat \<Rightarrow> rat option \<Rightarrow> rat" where
  "hours_or fallback env =
     (case env of Some hours \<Rightarrow> if hours \<le> 0 then fallback else hours * 60 * 60 * 1000 | None \<Rightarrow> fallback)"

definition getJobRetentionMs :: "rat option \<Rightarrow> rat" where
  "getJobRetentionMs env = hours_or (24 * 60 * 60 * 1000) env"

definition getLongJobCmsTimeoutMs :: "rat option \<Rightarrow> rat" where
  "getLongJobCmsTimeoutMs env = hours_or (12 * 60 * 60 * 1000) env"

definition getStaleRunningJobMs :: "rat option \<Rightarrow> rat option \<Rightarrow> rat" where
  "getStaleRunningJobMs env timeoutEnv = hours_or (getLongJobCmsTimeoutMs timeoutEnv + 60 * 60 * 1000) env"

definition expired :: "rat \<Rightarrow> rat \<Rightarrow> int \<Rightarrow> cms_job \<Rightarrow> bool" where
  "expired retentionMs staleRunningMs now job =
     (if isTerminalJobStatus (cj_status job) then
        (let endedAt = (case cj_finishedAt job of Some t \<Rightarrow> t | None \<Rightarrow> cj_createdAt job)
         in of_int (now - endedAt) \<ge> retentionMs)
      else of_int (now - cj_createdAt job) \<ge> staleRunningMs)"

definition purge_file ::
  "rat \<Rightarrow> rat \<Rightarrow> int \<Rightarrow> string \<Rightarrow> string \<times> job_file \<Rightarrow> job_store \<times> nat \<Rightarrow> job_store \<times> nat" where
  "purge_file retentionMs staleRunningMs now userKey file acc =
     (case file of
        (jobId, Corrupt) \<Rightarrow> (deleteJob userKey jobId (fst acc), Suc (snd acc))
      | (jobId, Parsed job) \<Rightarrow>
          if expired retentionMs staleRunningMs now job then
            (removeJobIdFromGlobalOperations jobId
               (removeJobIdFromOperations userKey jobId (deleteJob userKey jobId (fst acc))), Suc (snd acc))
          else acc)"

definition purgeExpiredJobs :: "rat \<Rightarrow> rat \<Rightarrow> int \<Rightarrow> job_store \<Rightarrow> job_store \<times> nat" where
  "purgeExpiredJobs retentionMs staleRunningMs now st =
     fold (\<lambda>userKey acc.
        fold (purge_file retentionMs staleRunningMs now userKey) (user_dir userKey (fst acc)) acc)
       (listUserJobKeys st) (st, 0)"

section \<open>The outcome of a job\<close>

text \<open>What the code reads of an error it caught: its message (the detail of an \<open>AppError\<close>, else
  the message of an \<open>Error\<close>), and the answer of the service attached to it.\<close>

record raised =
  rs_message :: "string option"
  rs_response :: js

definition addWarnings :: "string list \<Rightarrow> cms_job \<Rightarrow> cms_job" where
  "addWarnings ws job = (if ws \<noteq> [] then job\<lparr>cj_warnings := cj_warnings job @ ws\<rparr> else job)"

definition mapJobResult :: "cms_job \<Rightarrow> js \<Rightarrow> js" where
  "mapJobResult job response =
     (if getMaintenanceSummary (cj_type job) (cj_payload job) \<noteq> None then
        getMaintenanceResult (cj_payload job) response True
      else (case response of
          Obj kvs \<Rightarrow>
            (case cj_type job of
               Unload \<Rightarrow> (let r = js_get response ''result'' in if r = Undefined \<or> r = Null then Obj [] else r)
             | Compact \<Rightarrow> Obj ([(''success'', Bool True)]
                 @ (let log = js_get response ''log'' in if truthy log then [(''log'', log)] else []))
             | Addvol \<Rightarrow> Obj [(''dbname'', js_get response ''dbname''), (''purpose'', js_get response ''purpose'')]
             | _ \<Rightarrow> Obj [(''success'', Bool True)])
        | Arr vs \<Rightarrow>
            (case cj_type job of
               Unload \<Rightarrow> Obj []
             | Addvol \<Rightarrow> Obj [(''dbname'', Undefined), (''purpose'', Undefined)]
             | _ \<Rightarrow> Obj [(''success'', Bool True)])
        | _ \<Rightarrow> Obj [(''success'', Bool True)]))"

text \<open>The job after an answer, and whether it succeeded.\<close>

definition applyCmsOutcome :: "cms_job \<Rightarrow> js \<Rightarrow> cms_job \<times> bool" where
  "applyCmsOutcome job response =
     (if cj_type job = Create then
        (let created = js_get response ''createDatabase''; err = js_get created ''error''
         in if js_get created ''success'' \<noteq> Bool True then
              (job\<lparr>cj_status := Failed,
                   cj_error := Some \<lparr>je_message = js_string (js_or (js_get err ''message'') (Str ''Create database failed'')),
                                     je_code = js_get err ''code'', je_cmsStatus = Undefined\<rparr>,
                   cj_result := response\<rparr>, False)
            else (job\<lparr>cj_status := Succeeded, cj_result := response\<rparr>, True))
      else if isCmsLongJobFailure response then
        (let status = js_get response ''status'';
             message = extractCmsLongJobFailureMessage response;
             cmsStatus = Str (if status = Undefined \<or> status = Null then [] else js_string status);
             maintenance = (getMaintenanceSummary (cj_type job) (cj_payload job) \<noteq> None)
         in (job\<lparr>cj_status := Failed,
                 cj_error := Some \<lparr>je_message = (if maintenance
                    then redactMaintenanceText (cj_payload job) response message else message),
                    je_code = Undefined, je_cmsStatus = cmsStatus\<rparr>,
                 cj_result := (if maintenance then getMaintenanceResult (cj_payload job) response False
                               else cj_result job)\<rparr>, False))
      else (job\<lparr>cj_status := Succeeded, cj_result := mapJobResult job response\<rparr>, True))"

definition jobErrorMessage :: "raised \<Rightarrow> string \<Rightarrow> string" where
  "jobErrorMessage err fallback = (case rs_message err of Some m \<Rightarrow> m | None \<Rightarrow> fallback)"

definition plain_error :: "string \<Rightarrow> job_error" where
  "plain_error m = \<lparr>je_message = m, je_code = Undefined, je_cmsStatus = Undefined\<rparr>"

text \<open>The catch block of \<open>runJob\<close>.\<close>

definition job_raised :: "raised \<Rightarrow> cms_job \<Rightarrow> cms_job" where
  "job_raised err job =
     (if cj_type job = Create then
        job\<lparr>cj_status := Failed, cj_error := Some (plain_error (jobErrorMessage err ''Create database failed''))\<rparr>
      else if truthy (rs_response err) \<and> isCmsLongJobFailure (rs_response err) then
        fst (applyCmsOutcome job (rs_response err))
      else
        (let message = jobErrorMessage err ''CMS operation failed''
         in if getMaintenanceSummary (cj_type job) (cj_payload job) \<noteq> None then
              job\<lparr>cj_status := Failed,
                  cj_error := Some (plain_error (redactMaintenanceText (cj_payload job) (rs_response err) message)),
                  cj_result := getMaintenanceResult (cj_payload job) (rs_response err) False\<rparr>
            else job\<lparr>cj_status := Failed, cj_error := Some (plain_error message)\<rparr>))"

text \<open>
  The body of the try block. \<open>follow\<close> is what the follow-up of a rename, copy or deletion gives,
  its warnings or an error; \<open>startInfo\<close> the database list that a rename or copy asks for, when it
  could be had.
\<close>

definition followUpAfterSuccess :: "raised + string list \<Rightarrow> cms_job \<Rightarrow> raised + cms_job" where
  "followUpAfterSuccess follow job =
     (if cj_type job \<in> {Rename, Copy, Delete}
      then (case follow of Inl err \<Rightarrow> Inl err | Inr ws \<Rightarrow> Inr (addWarnings ws job))
      else Inr job)"

definition refresh_list :: "js option \<Rightarrow> cms_job \<Rightarrow> cms_job" where
  "refresh_list startInfo job =
     (if cj_type job = Rename \<or> cj_type job = Copy then
        (case startInfo of
           Some v \<Rightarrow> job\<lparr>cj_result := v\<rparr>
         | None \<Rightarrow> addWarnings [''The database was '' @ (if cj_type job = Rename then ''renamed'' else ''copied'') @
             '', but the database list could not be refreshed. Refresh the list manually; do not repeat the '' @
             (if cj_type job = Rename then ''rename'' else ''copy'') @ ''.''] job)
      else job)"

definition finished_job :: "raised + js \<Rightarrow> raised + string list \<Rightarrow> js option \<Rightarrow> int \<Rightarrow> cms_job \<Rightarrow> cms_job" where
  "finished_job outcome follow startInfo now job =
     (case outcome of
        Inl err \<Rightarrow> job_raised err job
      | Inr response \<Rightarrow>
          (let (job1, succeeded) = applyCmsOutcome job response
           in if \<not> succeeded then job1
              else (case followUpAfterSuccess follow job1 of
                  Inl err \<Rightarrow> job_raised err job1
                | Inr job2 \<Rightarrow> refresh_list startInfo job2)))\<lparr>cj_finishedAt := Some now\<rparr>"

end
