(* ===== verification/CmsJobServer.thy ===== *)
theory CmsJobServer
  imports CmsJobs
begin

text \<open>
  The concurrent part of \<open>CmsJobService\<close>
  (\<open>apps/api-server/src/cms-job/cms-job.service.ts\<close>): requests and job runs as interleaved steps.
  A step is what one request or run does between two awaits that others can overtake: the check
  for a running action, the critical section under the lock file, the write of the job file, the
  start of the run, its end and its release. What the manager service answers is in the event.
\<close>

section \<open>Start and stop actions in progress\<close>

text \<open>\<open>database-action-lock.ts\<close>: the actions in progress, by host and database.\<close>

type_synonym running_actions = "(string, string) obj"

definition action_key :: "string \<Rightarrow> string \<Rightarrow> string" where
  "action_key hostKey dbname = hostKey @ ''/'' @ dbname"

fun busyDatabase :: "running_actions \<Rightarrow> string \<Rightarrow> string list \<Rightarrow> (string \<times> string) option" where
  "busyDatabase running hostKey [] = None"
| "busyDatabase running hostKey (d # ds) =
     (case map_of running (action_key hostKey d) of
        Some action \<Rightarrow> Some (d, action)
      | None \<Rightarrow> busyDatabase running hostKey ds)"

text \<open>\<open>withDatabaseActionLock\<close>: taking the names of an action, unless one is taken, and giving them
  back when it is over.\<close>

definition takeActionLock ::
  "string \<Rightarrow> string list \<Rightarrow> string \<Rightarrow> running_actions \<Rightarrow> (string \<times> string) + running_actions" where
  "takeActionLock hostKey dbnames action running =
     (case busyDatabase running hostKey (remdups dbnames) of
        Some busy \<Rightarrow> Inl busy
      | None \<Rightarrow> Inr (fold (\<lambda>d. obj_set (action_key hostKey d) action) (remdups dbnames) running))"

definition releaseActionLock :: "string \<Rightarrow> string list \<Rightarrow> running_actions \<Rightarrow> running_actions" where
  "releaseActionLock hostKey dbnames running =
     fold (\<lambda>d. obj_del (action_key hostKey d)) (remdups dbnames) running"

section \<open>The server\<close>

text \<open>
  A worker is one call of \<open>createJob\<close> with the run it schedules: asked for (the busy check has
  passed), admitted (its operation is registered), scheduled (its file is written), executing, and
  over (its outcome is written, its operation not yet released).
\<close>

datatype worker_phase = Asked | Admitted | Scheduled | Executing | Over

record worker =
  wk_userKey :: string
  wk_operation :: string
  wk_phase :: worker_phase
  wk_job :: cms_job

record job_server =
  sv_store :: job_store
  sv_running :: running_actions
  sv_workers :: "(string, worker) obj"

record job_request =
  rq_userId :: string
  rq_userKey :: string
  rq_hostUid :: string
  rq_hostKey :: string
  rq_type :: job_type
  rq_dbname :: string
  rq_payload :: js

text \<open>The record that \<open>createJob\<close> writes; its time of creation is set when it is written.\<close>

definition new_job :: "string \<Rightarrow> job_request \<Rightarrow> cms_job" where
  "new_job jobId rq =
     \<lparr>cj_jobId = jobId, cj_userId = rq_userId rq, cj_hostUid = rq_hostUid rq,
      cj_dbname = resolveJobDbname (rq_type rq) (rq_dbname rq) (rq_payload rq), cj_type = rq_type rq,
      cj_status = Queued, cj_createdAt = 0, cj_startedAt = None, cj_finishedAt = None,
      cj_payload = rq_payload rq, cj_result = Undefined, cj_warnings = [], cj_error = None, cj_cmsUuid = None\<rparr>"

definition request_operation :: "job_request \<Rightarrow> string" where
  "request_operation rq =
     buildOperationKey (rq_hostKey rq) (resolveJobDbname (rq_type rq) (rq_dbname rq) (rq_payload rq))"

datatype job_reply = Accepted string | ActionInProgress string | OperationInProgress string | Crashed js_error

datatype job_event =
    Ask string job_request
  | Admit string
  | Persist string int
  | Begin string int
  | ReportUuid string string
  | Complete string "raised + js" "raised + string list" "js option" int
  | Release string
  | Cleanup rat rat int

definition set_worker :: "string \<Rightarrow> worker \<Rightarrow> job_server \<Rightarrow> job_server" where
  "set_worker jobId w s = s\<lparr>sv_workers := obj_set jobId w (sv_workers s)\<rparr>"

definition drop_worker :: "string \<Rightarrow> job_server \<Rightarrow> job_server" where
  "drop_worker jobId s = s\<lparr>sv_workers := obj_del jobId (sv_workers s)\<rparr>"

text \<open>The check of \<open>createJob\<close> for a start, stop or restart of the database.\<close>

definition ask_job :: "string \<Rightarrow> job_request \<Rightarrow> job_server \<Rightarrow> job_server \<times> job_reply option" where
  "ask_job jobId rq s =
     (case busyDatabase (sv_running s) (rq_hostKey rq)
             [resolveJobDbname (rq_type rq) (rq_dbname rq) (rq_payload rq)] of
        Some (dbname, action) \<Rightarrow> (s, Some (ActionInProgress dbname))
      | None \<Rightarrow> (set_worker jobId \<lparr>wk_userKey = rq_userKey rq, wk_operation = request_operation rq,
                     wk_phase = Asked, wk_job = new_job jobId rq\<rparr> s, None))"

text \<open>The critical section: \<open>Inr\<close> the registered operations, or why the request is turned away.\<close>

definition register_operation ::
  "string \<Rightarrow> string \<Rightarrow> string \<Rightarrow> job_store \<Rightarrow> job_reply + job_store" where
  "register_operation jobId userKey operationKey st =
     (let ops = st_globalOperations st;
          entry = \<lparr>oe_jobId = jobId, oe_userKey = userKey\<rparr>
      in case map_of ops operationKey of
           None \<Rightarrow> Inr (st\<lparr>st_globalOperations := obj_set operationKey entry ops\<rparr>)
         | Some existing \<Rightarrow>
             (case getJob (oe_userKey existing) (oe_jobId existing) st of
                Inl e \<Rightarrow> Inl (Crashed e)
              | Inr existingJob \<Rightarrow>
                  (let isStale = (case existingJob of None \<Rightarrow> True | Some j \<Rightarrow> isTerminalJobStatus (cj_status j))
                   in if isStale
                      then Inr (st\<lparr>st_globalOperations := obj_set operationKey entry (obj_del operationKey ops)\<rparr>)
                      else Inl (OperationInProgress (oe_jobId existing)))))"

definition admit_job :: "string \<Rightarrow> worker \<Rightarrow> job_server \<Rightarrow> job_server \<times> job_reply option" where
  "admit_job jobId w s =
     (case register_operation jobId (wk_userKey w) (wk_operation w) (sv_store s) of
        Inl reply \<Rightarrow> (drop_worker jobId s, Some reply)
      | Inr st \<Rightarrow> (set_worker jobId (w\<lparr>wk_phase := Admitted\<rparr>) (s\<lparr>sv_store := st\<rparr>), None))"

definition persist_job :: "string \<Rightarrow> worker \<Rightarrow> int \<Rightarrow> job_server \<Rightarrow> job_server \<times> job_reply option" where
  "persist_job jobId w now s =
     (let job = (wk_job w)\<lparr>cj_createdAt := now\<rparr>
      in (set_worker jobId (w\<lparr>wk_phase := Scheduled, wk_job := job\<rparr>)
            (s\<lparr>sv_store := saveJob (wk_userKey w) job (sv_store s)\<rparr>), Some (Accepted jobId)))"

text \<open>\<open>runJob\<close> up to the call of the manager service.\<close>

definition begin_job :: "string \<Rightarrow> worker \<Rightarrow> int \<Rightarrow> job_server \<Rightarrow> job_server \<times> job_reply option" where
  "begin_job jobId w now s =
     (case getJob (wk_userKey w) jobId (sv_store s) of
        Inl e \<Rightarrow> (drop_worker jobId s, None)
      | Inr None \<Rightarrow> (drop_worker jobId s, None)
      | Inr (Some job) \<Rightarrow>
          (let job' = job\<lparr>cj_status := Running, cj_startedAt := Some now\<rparr>
           in (set_worker jobId (w\<lparr>wk_phase := Executing, wk_job := job'\<rparr>)
                 (s\<lparr>sv_store := saveJob (wk_userKey w) job' (sv_store s)\<rparr>), None)))"

definition report_uuid :: "string \<Rightarrow> worker \<Rightarrow> string \<Rightarrow> job_server \<Rightarrow> job_server \<times> job_reply option" where
  "report_uuid jobId w uuid s =
     (if cj_cmsUuid (wk_job w) = Some uuid then (s, None)
      else (let job = (wk_job w)\<lparr>cj_cmsUuid := Some uuid\<rparr>
            in (set_worker jobId (w\<lparr>wk_job := job\<rparr>)
                  (s\<lparr>sv_store := saveJob (wk_userKey w) job (sv_store s)\<rparr>), None)))"

definition complete_job ::
  "string \<Rightarrow> worker \<Rightarrow> raised + js \<Rightarrow> raised + string list \<Rightarrow> js option \<Rightarrow> int
    \<Rightarrow> job_server \<Rightarrow> job_server \<times> job_reply option" where
  "complete_job jobId w outcome follow startInfo now s =
     (let job = finished_job outcome follow startInfo now (wk_job w)
      in (set_worker jobId (w\<lparr>wk_phase := Over, wk_job := job\<rparr>)
            (s\<lparr>sv_store := saveJob (wk_userKey w) job (sv_store s)\<rparr>), None))"

text \<open>The release at the end of \<open>runJob\<close>: only an entry of its own is removed.\<close>

definition release_operation :: "string \<Rightarrow> string \<Rightarrow> job_store \<Rightarrow> job_store" where
  "release_operation jobId operationKey st =
     (case map_of (st_globalOperations st) operationKey of
        Some e \<Rightarrow> if oe_jobId e = jobId
                  then st\<lparr>st_globalOperations := obj_del operationKey (st_globalOperations st)\<rparr> else st
      | None \<Rightarrow> st)"

definition release_job :: "string \<Rightarrow> worker \<Rightarrow> job_server \<Rightarrow> job_server \<times> job_reply option" where
  "release_job jobId w s =
     (drop_worker jobId (s\<lparr>sv_store := release_operation jobId (wk_operation w) (sv_store s)\<rparr>), None)"

text \<open>A worker takes the steps in order; an event that is not its next step does nothing. A job id
  is drawn once (\<open>uuidv4\<close>).\<close>

definition when_in ::
  "worker_phase \<Rightarrow> string \<Rightarrow> (worker \<Rightarrow> job_server \<Rightarrow> job_server \<times> job_reply option)
    \<Rightarrow> job_server \<Rightarrow> job_server \<times> job_reply option" where
  "when_in ph jobId f s =
     (case map_of (sv_workers s) jobId of
        Some w \<Rightarrow> if wk_phase w = ph then f w s else (s, None)
      | None \<Rightarrow> (s, None))"

fun job_step :: "job_event \<Rightarrow> job_server \<Rightarrow> job_server \<times> job_reply option" where
  "job_step (Ask jobId rq) s =
     (if map_of (sv_workers s) jobId \<noteq> None then (s, None) else ask_job jobId rq s)"
| "job_step (Admit jobId) s = when_in Asked jobId (admit_job jobId) s"
| "job_step (Persist jobId now) s = when_in Admitted jobId (\<lambda>w. persist_job jobId w now) s"
| "job_step (Begin jobId now) s = when_in Scheduled jobId (\<lambda>w. begin_job jobId w now) s"
| "job_step (ReportUuid jobId uuid) s = when_in Executing jobId (\<lambda>w. report_uuid jobId w uuid) s"
| "job_step (Complete jobId outcome follow startInfo now) s =
     when_in Executing jobId (\<lambda>w. complete_job jobId w outcome follow startInfo now) s"
| "job_step (Release jobId) s = when_in Over jobId (release_job jobId) s"
| "job_step (Cleanup retentionMs staleRunningMs now) s =
     (s\<lparr>sv_store := fst (purgeExpiredJobs retentionMs staleRunningMs now (sv_store s))\<rparr>, None)"

definition run_jobs :: "job_event list \<Rightarrow> job_server \<Rightarrow> job_server" where
  "run_jobs es s = fold (\<lambda>e st. fst (job_step e st)) es s"

definition init_job_server :: "job_store \<Rightarrow> job_server" where
  "init_job_server st = \<lparr>sv_store = st, sv_running = [], sv_workers = []\<rparr>"

section \<open>After a restart\<close>

text \<open>
  An orphan with a known task of the manager service is polled again; \<open>polled\<close> is what that gives
  (\<open>None\<close> when the call or the polling raised). A \<open>create\<close> job is never reconciled. The flag says
  whether the job was resolved; a follow-up that raises leaves what was set so far.
\<close>

definition reconcile_job ::
  "js option \<Rightarrow> raised + string list \<Rightarrow> int \<Rightarrow> cms_job \<Rightarrow> cms_job \<times> bool" where
  "reconcile_job polled follow now job =
     (if cj_cmsUuid job = None \<or> cj_cmsUuid job = Some [] \<or> cj_type job = Create then (job, False)
      else (case polled of
          None \<Rightarrow> (job, False)
        | Some response \<Rightarrow>
            (let (job1, succeeded) = applyCmsOutcome job response
             in case (if succeeded then followUpAfterSuccess follow job1 else Inr job1) of
                  Inl err \<Rightarrow> (job1, False)
                | Inr job2 \<Rightarrow> (job2\<lparr>cj_finishedAt :=
                    (case cj_finishedAt job2 of None \<Rightarrow> Some now | t \<Rightarrow> t)\<rparr>, True))))"

definition interrupted_job :: "int \<Rightarrow> cms_job \<Rightarrow> cms_job" where
  "interrupted_job now job =
     job\<lparr>cj_status := Failed,
         cj_error := Some \<lparr>je_message = ''Job interrupted because the API server restarted.'',
                           je_code = Str ''JOB_INTERRUPTED'', je_cmsStatus = Undefined\<rparr>,
         cj_finishedAt := (case cj_finishedAt job of None \<Rightarrow> Some now | t \<Rightarrow> t)\<rparr>"

definition resolved_orphan ::
  "(cms_job \<Rightarrow> js option) \<Rightarrow> (cms_job \<Rightarrow> raised + string list) \<Rightarrow> int \<Rightarrow> cms_job \<Rightarrow> cms_job" where
  "resolved_orphan polled follow now job =
     (let (job', resolved) = reconcile_job (polled job) (follow job) now job
      in if resolved then job' else interrupted_job now job')"

definition recoverOrphanedJobsOnStartup ::
  "(cms_job \<Rightarrow> js option) \<Rightarrow> (cms_job \<Rightarrow> raised + string list) \<Rightarrow> int \<Rightarrow> job_store \<Rightarrow> job_store" where
  "recoverOrphanedJobsOnStartup polled follow now st =
     fold (\<lambda>(userKey, job). finalizeOrphanedJob userKey (resolved_orphan polled follow now job))
       (listOrphanedActiveJobs st) st"

section \<open>Reading jobs\<close>

record job_status_response =
  js_jobId :: string
  js_type :: job_type
  js_jobStatus :: job_status
  js_hostUid :: string
  js_dbname :: string
  js_createdAt :: int
  js_startedAt :: "int option"
  js_finishedAt :: "int option"
  js_maintenanceSummary :: "js option"
  js_result :: js
  js_warnings :: "string list"
  js_error_of :: "job_error option"

definition toStatusResponse :: "cms_job \<Rightarrow> job_status_response" where
  "toStatusResponse record =
     (let maintenanceSummary = getMaintenanceSummary (cj_type record) (cj_payload record)
      in \<lparr>js_jobId = cj_jobId record, js_type = cj_type record, js_jobStatus = cj_status record,
          js_hostUid = cj_hostUid record, js_dbname = cj_dbname record, js_createdAt = cj_createdAt record,
          js_startedAt = cj_startedAt record, js_finishedAt = cj_finishedAt record,
          js_maintenanceSummary = maintenanceSummary, js_result = cj_result record,
          js_warnings = cj_warnings record,
          js_error_of = (if maintenanceSummary \<noteq> None
             then map_option (\<lambda>e. e\<lparr>je_message := redactMaintenanceText (cj_payload record) Undefined (je_message e)\<rparr>)
                    (cj_error record)
             else cj_error record)\<rparr>)"

definition getJobResponse :: "string \<Rightarrow> string \<Rightarrow> string \<Rightarrow> job_store \<Rightarrow> js_error + job_status_response" where
  "getJobResponse userId userKey jobId st =
     res_bind (getJob userKey jobId st) (\<lambda>record.
       case record of
         None \<Rightarrow> Inl (Thrown (''Job not found: '' @ jobId))
       | Some j \<Rightarrow> if cj_userId j \<noteq> userId then Inl (Thrown (''Job not found: '' @ jobId))
                   else Inr (toStatusResponse j))"

definition listActiveJobs :: "string \<Rightarrow> string \<Rightarrow> job_store \<Rightarrow> job_status_response list" where
  "listActiveJobs userId userKey st =
     map toStatusResponse (filter (\<lambda>j. cj_userId j = userId \<and> active j) (listJobsForUser userKey st))"

definition CMS_JOB_RECENT_LIST_LIMIT :: nat where "CMS_JOB_RECENT_LIST_LIMIT = 50"

definition listRecentJobs :: "string \<Rightarrow> string \<Rightarrow> job_store \<Rightarrow> job_status_response list" where
  "listRecentJobs userId userKey st =
     map toStatusResponse (take CMS_JOB_RECENT_LIST_LIMIT
       (js_sort newest_first (filter (\<lambda>j. cj_userId j = userId) (listJobsForUser userKey st))))"

end
