(* ===== verification/CmsJobFacts.thy ===== *)
theory CmsJobFacts
  imports CmsJobServer
begin

text \<open>
  Properties of the long-running jobs (\<open>CmsJobs\<close>, \<open>CmsJobServer\<close>): one job at a time on a
  database, what a restart leaves, what the clean-up removes.
\<close>

section \<open>Operation keys\<close>

lemma json_char_first:
  "json_char c = [c] \<and> c \<noteq> CHR 0x22 \<and> c \<noteq> CHR 0x5C \<or> (\<exists>t. json_char c = CHR 0x5C # t)"
  by (auto simp: json_char_def Let_def)

lemma hex_char_inj: "\<lbrakk>m < 16; n < 16; hex_char m = hex_char n\<rbrakk> \<Longrightarrow> m = n"
proof -
  assume "m < 16" "n < 16" "hex_char m = hex_char n"
  then have "(of_char (hex_char m) :: nat) = of_char (hex_char n)" by simp
  with \<open>m < 16\<close> \<open>n < 16\<close> show "m = n" by (simp add: hex_char_def of_char_of split: if_splits)
qed

lemma json_control_inj:
  assumes "hex_char (m div 16) = hex_char (n div 16)" "hex_char (m mod 16) = hex_char (n mod 16)" "m < 32" "n < 32"
  shows "m = n"
proof -
  have "m div 16 = n div 16" "m mod 16 = n mod 16"
    using assms by (auto intro!: hex_char_inj)
  then show ?thesis by (metis div_mult_mod_eq)
qed

lemma json_char_append: "json_char c @ s = json_char d @ t \<Longrightarrow> c = d \<and> s = t"
proof -
  assume eq: "json_char c @ s = json_char d @ t"
  let ?m = "of_char c :: nat" and ?n = "of_char d :: nat"
  have code: "?m = ?n \<Longrightarrow> c = d" by simp
  show ?thesis
  proof (cases "(c = CHR 0x22 \<or> c = CHR 0x5C \<or> ?m < 32) = (d = CHR 0x22 \<or> d = CHR 0x5C \<or> ?n < 32)")
    case False
    with eq show ?thesis by (auto simp: json_char_def Let_def split: if_splits)
  next
    case True
    note both = this
    show ?thesis
    proof (cases "?m < 32 \<and> ?n < 32")
      case True
      with eq code show ?thesis
        by (auto simp: json_char_def Let_def intro!: code dest: json_control_inj split: if_splits)
    next
      case False
      with eq both show ?thesis by (auto simp: json_char_def Let_def split: if_splits)
    qed
  qed
qed

lemma json_string_append: "json_string a @ s = json_string b @ t \<Longrightarrow> a = b \<and> s = t"
proof (induction a arbitrary: b)
  case Nil
  note prems = Nil.prems
  show ?case
  proof (cases b)
    case Nil
    with prems show ?thesis by (simp add: json_string_def)
  next
    case (Cons d b')
    with prems json_char_first [of d] show ?thesis by (auto simp: json_string_def)
  qed
next
  case (Cons c a)
  show ?case
  proof (cases b)
    case Nil
    with Cons.prems json_char_first [of c] show ?thesis by (auto simp: json_string_def)
  next
    case (Cons d b')
    with Cons.prems have "json_char c @ concat (map json_char a) @ [CHR 0x22] @ s
        = json_char d @ concat (map json_char b') @ [CHR 0x22] @ t"
      by (simp add: json_string_def)
    from json_char_append [OF this] have "c = d" "json_string a @ s = json_string b' @ t"
      by (simp_all add: json_string_def)
    with Cons.IH [of b'] Cons show ?thesis by simp
  qed
qed

text \<open>Two operations have one key only when they are for one database of one host.\<close>

lemma buildOperationKey_inj: "buildOperationKey h d = buildOperationKey h' d' \<longleftrightarrow> h = h' \<and> d = d'"
proof
  assume "buildOperationKey h d = buildOperationKey h' d'"
  then have k: "json_string h @ '','' @ json_string d @ '']'' = json_string h' @ '','' @ json_string d' @ '']''"
    by (simp add: buildOperationKey_def)
  from json_string_append [OF this] have "h = h'" and r: "json_string d @ '']'' = json_string d' @ '']''" by simp_all
  from json_string_append [OF r] \<open>h = h'\<close> show "h = h' \<and> d = d'" by simp
qed simp

section \<open>The store\<close>

lemma user_dir_saveJob:
  "map_of (user_dir u (saveJob v j st)) k =
     (if u = v \<and> k = cj_jobId j then Some (Parsed j) else map_of (user_dir u st) k)"
  by (auto simp: user_dir_def saveJob_def map_of_obj_set split: option.splits)

lemma global_saveJob [simp]: "st_globalOperations (saveJob v j st) = st_globalOperations st"
  by (simp add: saveJob_def)

lemma user_dir_deleteJob:
  "map_of (user_dir u (deleteJob v i st)) k = (if u = v \<and> k = i then None else map_of (user_dir u st) k)"
  by (auto simp: user_dir_def deleteJob_def map_of_obj_set map_of_obj_del split: option.splits)

lemma store_frames [simp]:
  "user_dir u (removeJobIdFromOperations v i st) = user_dir u st"
  "user_dir u (removeJobIdFromGlobalOperations i st) = user_dir u st"
  "st_globalOperations (removeJobIdFromOperations v i st) = st_globalOperations st"
  "st_globalOperations (deleteJob v i st) = st_globalOperations st"
  by (auto simp: user_dir_def removeJobIdFromOperations_def removeJobIdFromGlobalOperations_def deleteJob_def Let_def
      split: option.splits)

lemma map_of_filter_value:
  "map_of (filter (\<lambda>(_, e). P e) m) k = Some e \<Longrightarrow> \<exists>e'. map_of m k = Some e'"
  by (induction m) (auto split: if_splits)

lemma map_of_keep:
  "map_of m k = Some e \<Longrightarrow> P e \<Longrightarrow> map_of (filter (\<lambda>(_, e). P e) m) k = Some e"
  by (induction m) (auto split: if_splits)

lemma global_remove_other:
  assumes "map_of (st_globalOperations st) k = Some e" "oe_jobId e \<noteq> i"
  shows "map_of (st_globalOperations (removeJobIdFromGlobalOperations i st)) k = Some e"
  using map_of_keep [of "st_globalOperations st" k e "\<lambda>e. oe_jobId e \<noteq> i"] assms
  by (simp add: removeJobIdFromGlobalOperations_def)

section \<open>One job at a time\<close>

text \<open>
  A protocol: every step that its guard admits keeps the invariant, so every run whose steps are
  admitted keeps it.
\<close>

locale protocol =
  fixes step :: "'e \<Rightarrow> 's \<Rightarrow> 's"
    and guard :: "'e \<Rightarrow> 's \<Rightarrow> bool"
    and inv :: "'s \<Rightarrow> bool"
  assumes guarded_step: "inv s \<Longrightarrow> guard e s \<Longrightarrow> inv (step e s)"
begin

fun admitted_run :: "'e list \<Rightarrow> 's \<Rightarrow> bool" where
  "admitted_run [] s = True"
| "admitted_run (e # es) s = (guard e s \<and> admitted_run es (step e s))"

lemma run_inv: "inv s \<Longrightarrow> admitted_run es s \<Longrightarrow> inv (fold step es s)"
  by (induction es arbitrary: s) (auto intro: guarded_step)

end

definition live :: "worker_phase \<Rightarrow> bool" where
  "live ph \<longleftrightarrow> ph = Admitted \<or> ph = Scheduled \<or> ph = Executing"

text \<open>
  The schedules considered: no request is admitted while another one for the same operation has
  been admitted and has not written its file yet, and a clean-up finds no file of a live job
  expired or unreadable.
\<close>

fun calm :: "job_event \<Rightarrow> job_server \<Rightarrow> bool" where
  "calm (Admit i) s = (\<forall>w. map_of (sv_workers s) i = Some w \<longrightarrow>
     (\<forall>k v. map_of (sv_workers s) k = Some v \<and> wk_phase v = Admitted \<longrightarrow> wk_operation v \<noteq> wk_operation w))"
| "calm (Cleanup r st now) s = (\<forall>k w u f. map_of (sv_workers s) k = Some w \<and> live (wk_phase w)
     \<and> (k, f) \<in> set (user_dir u (sv_store s)) \<longrightarrow> (\<exists>j. f = Parsed j \<and> \<not> expired r st now j))"
| "calm _ s = True"

text \<open>A live job holds its operation, and once its file is written it says that it is active.\<close>

definition holds :: "string \<Rightarrow> worker \<Rightarrow> job_store \<Rightarrow> bool" where
  "holds i w st \<longleftrightarrow> cj_jobId (wk_job w) = i
     \<and> (live (wk_phase w) \<longrightarrow> map_of (st_globalOperations st) (wk_operation w) = Some \<lparr>oe_jobId = i, oe_userKey = wk_userKey w\<rparr>)
     \<and> (wk_phase w = Scheduled \<or> wk_phase w = Executing \<longrightarrow>
          (\<exists>j. map_of (user_dir (wk_userKey w) st) i = Some (Parsed j) \<and> active j \<and> cj_jobId j = i))
     \<and> (wk_phase w = Asked \<or> wk_phase w = Admitted \<or> wk_phase w = Executing \<longrightarrow> active (wk_job w))"

definition jobs_inv :: "job_server \<Rightarrow> bool" where
  "jobs_inv s \<longleftrightarrow> (\<forall>i w. map_of (sv_workers s) i = Some w \<longrightarrow> holds i w (sv_store s))"

lemma jobs_inv_drop: "jobs_inv s \<Longrightarrow> jobs_inv (drop_worker i s)"
  by (auto simp: jobs_inv_def drop_worker_def map_of_obj_del)

lemma jobs_inv_set:
  assumes "jobs_inv s" "holds i w st"
    and "\<And>k v. map_of (sv_workers s) k = Some v \<Longrightarrow> k \<noteq> i \<Longrightarrow> holds k v (sv_store s) \<Longrightarrow> holds k v st"
  shows "jobs_inv (set_worker i w (s\<lparr>sv_store := st\<rparr>))"
  using assms by (auto simp: jobs_inv_def set_worker_def map_of_obj_set)

lemma holds_saveJob_other:
  "\<lbrakk>holds k v st; cj_jobId j \<noteq> k\<rbrakk> \<Longrightarrow> holds k v (saveJob u j st)"
  by (auto simp: holds_def user_dir_saveJob)

lemma finished_job_id [simp]: "cj_jobId (finished_job outcome follow info now j) = cj_jobId j"
proof -
  have a: "cj_jobId (fst (applyCmsOutcome k r)) = cj_jobId k" for k r
    by (simp add: applyCmsOutcome_def Let_def)
  have r: "cj_jobId (job_raised e k) = cj_jobId k" for e k
    using a by (simp add: job_raised_def Let_def)
  have w: "cj_jobId (addWarnings ws k) = cj_jobId k" for ws k by (simp add: addWarnings_def)
  have f: "cj_jobId k' = cj_jobId k" if "followUpAfterSuccess follow k = Inr k'" for k k'
    using that w by (auto simp: followUpAfterSuccess_def split: sum.splits if_splits)
  have l: "cj_jobId (refresh_list info k) = cj_jobId k" for k
    using w by (simp add: refresh_list_def split: option.split)
  show ?thesis
  proof (cases outcome)
    case (Inr response)
    obtain j1 ok where j1: "applyCmsOutcome j response = (j1, ok)" by force
    with a [of j response] have "cj_jobId j1 = cj_jobId j" by simp
    then show ?thesis
      using Inr j1 by (cases "followUpAfterSuccess follow j1") (simp_all add: finished_job_def r l f)
  qed (simp add: finished_job_def r)
qed

lemma step_ask: "jobs_inv s \<Longrightarrow> jobs_inv (fst (ask_job i rq s))"
proof -
  assume inv: "jobs_inv s"
  have "holds i \<lparr>wk_userKey = rq_userKey rq, wk_operation = request_operation rq, wk_phase = Asked,
      wk_job = new_job i rq\<rparr> (sv_store s)"
    by (simp add: holds_def live_def new_job_def active_def)
  from jobs_inv_set [OF inv this] have "jobs_inv (set_worker i \<lparr>wk_userKey = rq_userKey rq,
      wk_operation = request_operation rq, wk_phase = Asked, wk_job = new_job i rq\<rparr> s)" by simp
  with inv show ?thesis by (simp add: ask_job_def split: option.split)
qed

lemma step_admit:
  assumes inv: "jobs_inv s" and w: "map_of (sv_workers s) i = Some w" "wk_phase w = Asked"
    and calm: "\<And>k v. map_of (sv_workers s) k = Some v \<Longrightarrow> wk_phase v = Admitted \<Longrightarrow> wk_operation v \<noteq> wk_operation w"
  shows "jobs_inv (fst (admit_job i w s))"
proof (cases "register_operation i (wk_userKey w) (wk_operation w) (sv_store s)")
  case (Inl r)
  then show ?thesis by (simp add: admit_job_def jobs_inv_drop [OF inv])
next
  case (Inr st)
  let ?st = "sv_store s"
  have hw: "holds i w ?st" using inv w by (simp add: jobs_inv_def)
  have ops: "map_of (st_globalOperations st) k =
      (if k = wk_operation w then Some \<lparr>oe_jobId = i, oe_userKey = wk_userKey w\<rparr> else map_of (st_globalOperations ?st) k)"
    and dirs: "user_dir u st = user_dir u ?st" for k u
    using Inr by (auto simp: register_operation_def Let_def user_dir_def map_of_obj_set map_of_obj_del
        split: option.splits sum.splits if_splits)
  have other: "holds k v st" if v: "map_of (sv_workers s) k = Some v" "k \<noteq> i" "holds k v ?st" for k v
  proof (cases "live (wk_phase v) \<and> wk_operation v = wk_operation w")
    case True
    then have e: "map_of (st_globalOperations ?st) (wk_operation w) = Some \<lparr>oe_jobId = k, oe_userKey = wk_userKey v\<rparr>"
      and "wk_phase v \<noteq> Admitted" using v(3) calm [OF v(1)] by (auto simp: holds_def)
    then obtain j where "map_of (user_dir (wk_userKey v) ?st) k = Some (Parsed j)" "active j"
      using True v(3) by (auto simp: holds_def live_def)
    then have "getJob (wk_userKey v) k ?st = Inr (Some j)" "\<not> isTerminalJobStatus (cj_status j)"
      by (auto simp: getJob_def active_def isTerminalJobStatus_def)
    with e Inr show ?thesis by (simp add: register_operation_def Let_def)
  next
    case False
    with v(3) show ?thesis unfolding holds_def dirs ops by auto
  qed
  have "holds i (w\<lparr>wk_phase := Admitted\<rparr>) st"
    using hw w(2) by (simp add: holds_def live_def ops)
  from jobs_inv_set [OF inv this other] show ?thesis by (simp add: admit_job_def Inr)
qed

lemma step_save:
  assumes inv: "jobs_inv s" and w: "map_of (sv_workers s) i = Some w" "live (wk_phase w)"
    and job: "cj_jobId job = i" "ph = Over \<or> ph \<in> {Scheduled, Executing} \<and> active job"
  shows "jobs_inv (set_worker i (w\<lparr>wk_phase := ph, wk_job := job\<rparr>)
    (s\<lparr>sv_store := saveJob (wk_userKey w) job (sv_store s)\<rparr>))"
proof (rule jobs_inv_set [OF inv])
  have "holds i w (sv_store s)" using inv w by (simp add: jobs_inv_def)
  with job w(2) show "holds i (w\<lparr>wk_phase := ph, wk_job := job\<rparr>) (saveJob (wk_userKey w) job (sv_store s))"
    by (auto simp: holds_def live_def user_dir_saveJob)
qed (use job in \<open>auto intro: holds_saveJob_other\<close>)

lemma step_persist:
  "\<lbrakk>jobs_inv s; map_of (sv_workers s) i = Some w; wk_phase w = Admitted\<rbrakk> \<Longrightarrow> jobs_inv (fst (persist_job i w now s))"
proof -
  assume a: "jobs_inv s" "map_of (sv_workers s) i = Some w" "wk_phase w = Admitted"
  then have "holds i w (sv_store s)" by (simp add: jobs_inv_def)
  then show ?thesis
    using step_save [OF a(1,2), of "(wk_job w)\<lparr>cj_createdAt := now\<rparr>" Scheduled] a(3)
    by (simp add: persist_job_def Let_def holds_def live_def active_def)
qed

lemma step_begin:
  "\<lbrakk>jobs_inv s; map_of (sv_workers s) i = Some w; wk_phase w = Scheduled\<rbrakk> \<Longrightarrow> jobs_inv (fst (begin_job i w now s))"
proof -
  assume a: "jobs_inv s" "map_of (sv_workers s) i = Some w" "wk_phase w = Scheduled"
  then obtain j where "map_of (user_dir (wk_userKey w) (sv_store s)) i = Some (Parsed j)" "cj_jobId j = i"
    by (auto simp: jobs_inv_def holds_def)
  then show ?thesis
    using step_save [OF a(1,2), of "j\<lparr>cj_status := Running, cj_startedAt := Some now\<rparr>" Executing] a(3)
    by (simp add: begin_job_def getJob_def Let_def live_def active_def)
qed

lemma step_uuid:
  "\<lbrakk>jobs_inv s; map_of (sv_workers s) i = Some w; wk_phase w = Executing\<rbrakk> \<Longrightarrow> jobs_inv (fst (report_uuid i w uuid s))"
proof -
  assume a: "jobs_inv s" "map_of (sv_workers s) i = Some w" "wk_phase w = Executing"
  then have h: "holds i w (sv_store s)" by (simp add: jobs_inv_def)
  have e: "w\<lparr>wk_phase := Executing\<rparr> = w" using a(3) by (cases w) simp
  show ?thesis
    using step_save [OF a(1,2), of "(wk_job w)\<lparr>cj_cmsUuid := Some uuid\<rparr>" Executing] a h
    unfolding e by (simp add: report_uuid_def Let_def holds_def live_def active_def)
qed

lemma step_complete:
  "\<lbrakk>jobs_inv s; map_of (sv_workers s) i = Some w; wk_phase w = Executing\<rbrakk>
    \<Longrightarrow> jobs_inv (fst (complete_job i w outcome follow info now s))"
proof -
  assume a: "jobs_inv s" "map_of (sv_workers s) i = Some w" "wk_phase w = Executing"
  then have "holds i w (sv_store s)" by (simp add: jobs_inv_def)
  then show ?thesis
    using step_save [OF a(1,2), of "finished_job outcome follow info now (wk_job w)" Over] a(3)
    by (simp add: complete_job_def Let_def holds_def live_def)
qed

lemma step_release:
  assumes inv: "jobs_inv s" and w: "map_of (sv_workers s) i = Some w"
  shows "jobs_inv (fst (release_job i w s))"
proof -
  let ?st = "release_operation i (wk_operation w) (sv_store s)"
  have "holds k v ?st" if "map_of (sv_workers s) k = Some v" "k \<noteq> i" for k v
  proof -
    have h: "holds k v (sv_store s)" using inv that by (simp add: jobs_inv_def)
    have "user_dir u ?st = user_dir u (sv_store s)" for u
      by (auto simp: release_operation_def user_dir_def split: option.splits)
    with h that(2) show ?thesis
      by (auto simp: holds_def release_operation_def map_of_obj_del split: option.splits)
  qed
  then show ?thesis by (auto simp: jobs_inv_def release_job_def drop_worker_def map_of_obj_del)
qed

subsection \<open>The clean-up\<close>

text \<open>What the clean-up keeps: the live jobs hold what they held, and their files are not due.\<close>

definition kept :: "rat \<Rightarrow> rat \<Rightarrow> int \<Rightarrow> (string, worker) obj \<Rightarrow> job_store \<Rightarrow> bool" where
  "kept r t now ws st \<longleftrightarrow>
     (\<forall>k w. map_of ws k = Some w \<longrightarrow> holds k w st)
     \<and> (\<forall>k w u f. map_of ws k = Some w \<and> live (wk_phase w) \<and> (k, f) \<in> set (user_dir u st)
          \<longrightarrow> (\<exists>j. f = Parsed j \<and> \<not> expired r t now j))"

lemma holds_cong_other:
  assumes "holds k w st" "live (wk_phase w) \<Longrightarrow> k \<noteq> i"
  shows "holds k w (deleteJob u i st)" "holds k w (removeJobIdFromGlobalOperations i st)"
    "holds k w (removeJobIdFromOperations u i st)"
proof -
  show "holds k w (deleteJob u i st)"
    using assms by (auto simp: holds_def user_dir_deleteJob live_def)
  show "holds k w (removeJobIdFromGlobalOperations i st)"
    using assms global_remove_other [of st "wk_operation w" _ i] by (auto simp: holds_def live_def)
  show "holds k w (removeJobIdFromOperations u i st)"
    using assms(1) by (simp add: holds_def)
qed

lemma set_user_dir_deleteJob: "set (user_dir u (deleteJob v i st)) \<subseteq> set (user_dir u st)"
proof (cases "map_of (st_dirs st) v")
  case (Some d)
  have "set (AList.delete i d) \<subseteq> set d" by (auto simp: AList.delete_eq)
  with Some show ?thesis by (auto simp: user_dir_def deleteJob_def map_of_obj_set)
qed (simp add: deleteJob_def)

lemma kept_purge_file:
  assumes "kept r t now ws (fst acc)"
    and "\<And>w. map_of ws i = Some w \<Longrightarrow> live (wk_phase w) \<Longrightarrow> \<exists>j. f = Parsed j \<and> \<not> expired r t now j"
  shows "kept r t now ws (fst (purge_file r t now u (i, f) acc))"
proof (cases "\<exists>j. f = Parsed j \<and> \<not> expired r t now j")
  case True
  then show ?thesis using assms(1) by (auto simp: purge_file_def)
next
  case False
  with assms(2) have other: "map_of ws k = Some w \<Longrightarrow> live (wk_phase w) \<Longrightarrow> k \<noteq> i" for k w by blast
  have "kept r t now ws (deleteJob u i (fst acc))"
    unfolding kept_def
  proof (intro conjI allI impI; (elim conjE)?)
    fix k w assume "map_of ws k = Some w"
    with assms(1) other [OF this] show "holds k w (deleteJob u i (fst acc))"
      by (intro holds_cong_other) (auto simp: kept_def)
  next
    fix k w v g assume "map_of ws k = Some w" "live (wk_phase w)" "(k, g) \<in> set (user_dir v (deleteJob u i (fst acc)))"
    then show "\<exists>j. g = Parsed j \<and> \<not> expired r t now j"
      using assms(1) set_user_dir_deleteJob [of v u i "fst acc"] unfolding kept_def by blast
  qed
  moreover from this have "kept r t now ws (removeJobIdFromGlobalOperations i
      (removeJobIdFromOperations u i (deleteJob u i (fst acc))))"
    unfolding kept_def using other holds_cong_other(2) [OF holds_cong_other(3)] by simp
  ultimately show ?thesis using False by (auto simp: purge_file_def split: job_file.split)
qed

lemma kept_purge_dir:
  assumes "\<And>i f w. (i, f) \<in> set files \<Longrightarrow> map_of ws i = Some w \<Longrightarrow> live (wk_phase w)
      \<Longrightarrow> \<exists>j. f = Parsed j \<and> \<not> expired r t now j"
  shows "kept r t now ws (fst acc) \<Longrightarrow> kept r t now ws (fst (fold (purge_file r t now u) files acc))"
  using assms
proof (induction files arbitrary: acc)
  case (Cons p files)
  obtain i f where p: "p = (i, f)" by force
  have "kept r t now ws (fst (purge_file r t now u (i, f) acc))"
    by (rule kept_purge_file [OF Cons.prems(1)]) (use Cons.prems(2) p in auto)
  from Cons.IH [OF this] Cons.prems(2) show ?case by (auto simp: p)
qed simp

lemma kept_purge:
  assumes "kept r t now ws st"
  shows "kept r t now ws (fst (purgeExpiredJobs r t now st))"
proof -
  have "kept r t now ws (fst (fold (\<lambda>u acc. fold (purge_file r t now u) (user_dir u (fst acc)) acc) us acc))"
    if "kept r t now ws (fst acc)" for us and acc :: "job_store \<times> nat"
    using that
  proof (induction us arbitrary: acc)
    case (Cons u us)
    have "kept r t now ws (fst (fold (purge_file r t now u) (user_dir u (fst acc)) acc))"
      by (rule kept_purge_dir) (use Cons.prems in \<open>auto simp: kept_def\<close>)
    with Cons.IH show ?case by simp
  qed simp
  from this [of "(st, 0)"] assms show ?thesis by (simp add: purgeExpiredJobs_def)
qed

lemma step_jobs_inv: "jobs_inv s \<Longrightarrow> calm e s \<Longrightarrow> jobs_inv (fst (job_step e s))"
proof (cases e)
  case (Cleanup r t now)
  assume "jobs_inv s" "calm e s"
  with Cleanup have "kept r t now (sv_workers s) (sv_store s)"
    unfolding kept_def jobs_inv_def by simp
  from kept_purge [OF this] show ?thesis
    unfolding kept_def jobs_inv_def Cleanup by simp
next
  case (Admit i)
  assume "jobs_inv s" "calm e s"
  with Admit step_admit show ?thesis by (auto simp: when_in_def split: option.split)
qed (auto simp: when_in_def step_ask step_persist step_begin step_uuid step_complete step_release split: option.split)

interpretation job_protocol: protocol "\<lambda>e s. fst (job_step e s)" calm jobs_inv
  by unfold_locales (rule step_jobs_inv)

fun calm_run :: "job_event list \<Rightarrow> job_server \<Rightarrow> bool" where
  "calm_run [] s = True"
| "calm_run (e # es) s = (calm e s \<and> calm_run es (fst (job_step e s)))"

lemma calm_run_admitted: "calm_run es s = job_protocol.admitted_run es s"
  by (induction es arbitrary: s) auto

lemma jobs_inv_run:
  "calm_run es (init_job_server st) \<Longrightarrow> jobs_inv (run_jobs es (init_job_server st))"
  unfolding run_jobs_def calm_run_admitted
  by (rule job_protocol.run_inv) (auto simp: jobs_inv_def init_job_server_def)


definition sample_request :: "string \<Rightarrow> job_request" where
  "sample_request user = \<lparr>rq_userId = user, rq_userKey = user, rq_hostUid = ''h'', rq_hostKey = ''n:1'',
     rq_type = Load, rq_dbname = ''demo'', rq_payload = Undefined\<rparr>"

definition empty_store :: job_store where
  "empty_store = \<lparr>st_dirs = [], st_operations = [], st_globalOperations = []\<rparr>"


text \<open>
  the schedule matters. Between the registration of an operation and the write of the job's
  file another request finds the operation without a job, takes it for stale and is admitted too:
  two requests of different users for loading into one database end up executing together.
\<close>

theorem unsaved_admission_is_taken_for_stale:
  "map_option wk_phase (map_of (sv_workers (run_jobs
      [Ask ''a'' (sample_request ''u''), Ask ''b'' (sample_request ''v''), Admit ''a'', Admit ''b'',
       Persist ''a'' 5, Persist ''b'' 5, Begin ''a'' 6, Begin ''b'' 6] (init_job_server empty_store))) ''a'') = Some Executing
   \<and> map_option wk_phase (map_of (sv_workers (run_jobs
      [Ask ''a'' (sample_request ''u''), Ask ''b'' (sample_request ''v''), Admit ''a'', Admit ''b'',
       Persist ''a'' 5, Persist ''b'' 5, Begin ''a'' 6, Begin ''b'' 6] (init_job_server empty_store))) ''b'') = Some Executing
   \<and> request_operation (sample_request ''u'') = request_operation (sample_request ''v'')"
  by code_simp

end
