(* ===== verification/CmsJobStoreFacts.thy ===== *)
theory CmsJobStoreFacts
  imports CmsJobFacts
begin

text \<open>
  What the store of the long-running jobs keeps when the server starts again and when it is
  cleaned up (\<open>recoverOrphanedJobsOnStartup\<close>, \<open>purgeExpiredJobs\<close>).
\<close>

text \<open>Every file is named after its job, and no name comes twice.\<close>

definition store_wf :: "job_store \<Rightarrow> bool" where
  "store_wf st \<longleftrightarrow> obj_wf (st_dirs st) \<and> (\<forall>u. obj_wf (user_dir u st))
     \<and> (\<forall>u k j. (k, Parsed j) \<in> set (user_dir u st) \<longrightarrow> cj_jobId j = k)"

section \<open>After a restart\<close>

lemma apply_outcome: "cj_jobId (fst (applyCmsOutcome j r)) = cj_jobId j"
  "isTerminalJobStatus (cj_status (fst (applyCmsOutcome j r)))"
  by (simp_all add: applyCmsOutcome_def Let_def isTerminalJobStatus_def)

lemma follow_up_keeps:
  "followUpAfterSuccess f j = Inr j' \<Longrightarrow> cj_jobId j' = cj_jobId j \<and> cj_status j' = cj_status j"
  by (auto simp: followUpAfterSuccess_def addWarnings_def split: sum.splits if_splits)

lemma reconcile_keeps:
  assumes "reconcile_job polled follow now job = (j', ok)"
  shows "cj_jobId j' = cj_jobId job \<and> (ok \<longrightarrow> isTerminalJobStatus (cj_status j'))"
proof (cases "cj_cmsUuid job = None \<or> cj_cmsUuid job = Some [] \<or> cj_type job = Create \<or> polled = None")
  case True
  with assms show ?thesis by (auto simp: reconcile_job_def split: if_splits)
next
  case False
  then obtain r where r: "polled = Some r" by blast
  obtain j1 b where j1: "applyCmsOutcome job r = (j1, b)" by force
  have a: "cj_jobId j1 = cj_jobId job" "isTerminalJobStatus (cj_status j1)"
    using apply_outcome [of job r] j1 by simp_all
  show ?thesis
  proof (cases "if b then followUpAfterSuccess follow j1 else Inr j1")
    case (Inl e)
    with assms False r j1 a show ?thesis by (auto simp: reconcile_job_def)
  next
    case (Inr j2)
    then have "cj_jobId j2 = cj_jobId j1 \<and> cj_status j2 = cj_status j1"
      using follow_up_keeps by (cases b) auto
    with assms False r j1 a Inr show ?thesis by (auto simp: reconcile_job_def)
  qed
qed

lemma resolved_orphan:
  "cj_jobId (resolved_orphan polled follow now job) = cj_jobId job"
  "isTerminalJobStatus (cj_status (resolved_orphan polled follow now job))"
proof -
  obtain j' ok where r: "reconcile_job (polled job) (follow job) now job = (j', ok)" by force
  from reconcile_keeps [OF r] r
  show "cj_jobId (resolved_orphan polled follow now job) = cj_jobId job"
    "isTerminalJobStatus (cj_status (resolved_orphan polled follow now job))"
    by (simp_all add: resolved_orphan_def interrupted_job_def isTerminalJobStatus_def)
qed

lemma finalize_store:
  "map_of (user_dir u (finalizeOrphanedJob v j st)) k =
     (if u = v \<and> k = cj_jobId j then Some (Parsed j) else map_of (user_dir u st) k)"
  "st_globalOperations (finalizeOrphanedJob v j st) =
     filter (\<lambda>(_, e). oe_jobId e \<noteq> cj_jobId j) (st_globalOperations st)"
  by (simp_all add: finalizeOrphanedJob_def user_dir_saveJob)
    (simp add: removeJobIdFromGlobalOperations_def)

lemma finalize_all:
  fixes g :: "cms_job \<Rightarrow> cms_job" and st :: job_store
  assumes "\<And>j. cj_jobId (g j) = cj_jobId j"
  defines "after xs \<equiv> fold (\<lambda>(u, j). finalizeOrphanedJob u (g j)) xs st"
  shows "if \<exists>j. (u, j) \<in> set xs \<and> cj_jobId j = k
         then \<exists>j. (u, j) \<in> set xs \<and> cj_jobId j = k \<and> map_of (user_dir u (after xs)) k = Some (Parsed (g j))
         else map_of (user_dir u (after xs)) k = map_of (user_dir u st) k" (is ?files)
    and "st_globalOperations (after xs) =
      filter (\<lambda>(_, e). oe_jobId e \<notin> (cj_jobId \<circ> snd) ` set xs) (st_globalOperations st)" (is ?ops)
proof -
  show ?files
    unfolding after_def
  proof (induction xs rule: rev_induct)
    case (snoc x xs)
    obtain v j where x: "x = (v, j)" by force
    show ?case
      using snoc by (auto simp: x finalize_store(1) assms(1) split: if_splits)
  qed simp
  show ?ops
    unfolding after_def
    by (induction xs rule: rev_induct) (auto simp: finalize_store(2) assms(1) intro!: filter_cong)
qed

lemma orphan_iff:
  "store_wf st \<Longrightarrow> (u, j) \<in> set (listOrphanedActiveJobs st) \<longleftrightarrow>
     u \<noteq> ''operations'' \<and> map_of (user_dir u st) (cj_jobId j) = Some (Parsed j) \<and> active j"
proof -
  assume wf: "store_wf st"
  have parsed: "j \<in> set (parsed_jobs d) \<longleftrightarrow> (\<exists>k. (k, Parsed j) \<in> set d)" for d
    by (force simp: parsed_jobs_def List.map_filter_def split: job_file.splits)
  have dir: "(\<exists>k. (k, Parsed j) \<in> set (user_dir u st)) \<longleftrightarrow> map_of (user_dir u st) (cj_jobId j) = Some (Parsed j)"
    using wf by (metis map_of_SomeD map_of_is_SomeI obj_wf_def store_wf_def)
  have known: "u \<in> fst ` set (st_dirs st)" if "map_of (user_dir u st) k = Some f" for k f
    using that by (force simp: user_dir_def dest: map_of_SomeD split: option.splits)
  have "(u, j) \<in> set (listOrphanedActiveJobs st) \<longleftrightarrow>
      u \<in> fst ` set (st_dirs st) \<and> u \<noteq> ''operations'' \<and> active j \<and> j \<in> set (parsed_jobs (user_dir u st))"
    by (force simp: listOrphanedActiveJobs_def listUserJobKeys_def listJobsForUser_def)
  with parsed [of "user_dir u st"] dir known show ?thesis by metis
qed

text \<open>
  a restart leaves no job that looks active. Once the recovery has run, every readable job
  file of a user says that its job succeeded or failed; jobs that were over before are untouched;
  an orphan that was never given a task id, or that creates a database, is marked as interrupted;
  and exactly the operations that orphans held are free again.
\<close>

theorem restart_leaves_no_active_job:
  assumes "store_wf st" "u \<noteq> ''operations''"
    and "st' = recoverOrphanedJobsOnStartup polled follow now st"
  shows "(\<forall>k j. map_of (user_dir u st') k = Some (Parsed j) \<longrightarrow> isTerminalJobStatus (cj_status j))
    \<and> (\<forall>k j. map_of (user_dir u st) k = Some (Parsed j) \<longrightarrow>
         (if isTerminalJobStatus (cj_status j) then map_of (user_dir u st') k = Some (Parsed j)
          else if cj_cmsUuid j = None \<or> cj_type j = Create
               then map_of (user_dir u st') k = Some (Parsed (interrupted_job now j))
          else \<exists>j'. map_of (user_dir u st') k = Some (Parsed j')))
    \<and> (\<forall>key e. (key, e) \<in> set (st_globalOperations st') \<longleftrightarrow>
         (key, e) \<in> set (st_globalOperations st)
         \<and> \<not> (\<exists>v j. v \<noteq> ''operations'' \<and> map_of (user_dir v st) (oe_jobId e) = Some (Parsed j) \<and> active j))"
proof -
  let ?g = "resolved_orphan polled follow now" and ?xs = "listOrphanedActiveJobs st"
  have st': "st' = fold (\<lambda>(u, j). finalizeOrphanedJob u (?g j)) ?xs st"
    by (simp add: assms(3) recoverOrphanedJobsOnStartup_def)
  have act: "active j \<longleftrightarrow> \<not> isTerminalJobStatus (cj_status j)" for j
    by (cases "cj_status j") (auto simp: active_def isTerminalJobStatus_def)
  have orphan: "(v, j) \<in> set ?xs \<longleftrightarrow>
      v \<noteq> ''operations'' \<and> map_of (user_dir v st) (cj_jobId j) = Some (Parsed j) \<and> active j" for v j
    by (rule orphan_iff [OF assms(1)])
  have id: "map_of (user_dir v st) k = Some (Parsed j) \<Longrightarrow> cj_jobId j = k" for v k j
    using assms(1) by (auto simp: store_wf_def dest: map_of_SomeD)
  have files: "if \<exists>j. (u, j) \<in> set ?xs \<and> cj_jobId j = k
     then \<exists>j. (u, j) \<in> set ?xs \<and> cj_jobId j = k \<and> map_of (user_dir u st') k = Some (Parsed (?g j))
     else map_of (user_dir u st') k = map_of (user_dir u st) k" for k
    unfolding st' by (rule finalize_all) (rule resolved_orphan)
  have new: "map_of (user_dir u st') k =
      (case map_of (user_dir u st) k of
         Some (Parsed j) \<Rightarrow> Some (Parsed (if active j then ?g j else j)) | f \<Rightarrow> f)" for k
    using files [of k] orphan [of u] id [of u k] assms(2)
    by (auto split: if_splits option.splits job_file.splits)
  have t: "isTerminalJobStatus (cj_status (?g j))" for j by (rule resolved_orphan)
  have int: "?g j = interrupted_job now j" if "cj_cmsUuid j = None \<or> cj_type j = Create" for j
    using that by (auto simp: resolved_orphan_def reconcile_job_def)
  have ops: "st_globalOperations st' =
      filter (\<lambda>(_, e). oe_jobId e \<notin> (cj_jobId \<circ> snd) ` set ?xs) (st_globalOperations st)"
    unfolding st' by (rule finalize_all) (rule resolved_orphan)
  have held: "i \<in> (cj_jobId \<circ> snd) ` set ?xs \<longleftrightarrow>
      (\<exists>v j. v \<noteq> ''operations'' \<and> map_of (user_dir v st) i = Some (Parsed j) \<and> active j)" for i
  proof -
    have "i \<in> (cj_jobId \<circ> snd) ` set ?xs \<longleftrightarrow> (\<exists>v j. (v, j) \<in> set ?xs \<and> cj_jobId j = i)" by force
    then show ?thesis unfolding orphan by (metis id)
  qed
  show ?thesis
  proof (intro conjI allI impI)
    fix k j assume "map_of (user_dir u st') k = Some (Parsed j)"
    then show "isTerminalJobStatus (cj_status j)"
      using t by (auto simp: new act split: option.splits job_file.splits if_splits)
  next
    fix k j assume "map_of (user_dir u st) k = Some (Parsed j)"
    then show "if isTerminalJobStatus (cj_status j) then map_of (user_dir u st') k = Some (Parsed j)
          else if cj_cmsUuid j = None \<or> cj_type j = Create
               then map_of (user_dir u st') k = Some (Parsed (interrupted_job now j))
          else \<exists>j'. map_of (user_dir u st') k = Some (Parsed j')"
      using int by (simp add: new act)
  next
    fix key e
    show "(key, e) \<in> set (st_globalOperations st') \<longleftrightarrow> (key, e) \<in> set (st_globalOperations st)
         \<and> \<not> (\<exists>v j. v \<noteq> ''operations'' \<and> map_of (user_dir v st) (oe_jobId e) = Some (Parsed j) \<and> active j)"
      unfolding ops held by auto
  qed
qed

definition stored_job :: "string \<Rightarrow> job_type \<Rightarrow> job_status \<Rightarrow> int \<Rightarrow> cms_job" where
  "stored_job i type status created =
     \<lparr>cj_jobId = i, cj_userId = ''u'', cj_hostUid = ''h'', cj_dbname = ''demo'', cj_type = type, cj_status = status,
      cj_createdAt = created, cj_startedAt = None, cj_finishedAt = None, cj_payload = Undefined,
      cj_result = Undefined, cj_warnings = [], cj_error = None, cj_cmsUuid = None\<rparr>"

definition stored_jobs :: job_store where
  "stored_jobs = \<lparr>st_dirs = [(''u'', [(''a'', Parsed (stored_job ''a'' Load Running 5)),
                                      (''b'', Parsed (stored_job ''b'' Load Succeeded 7)), (''c'', Corrupt)])],
     st_operations = [], st_globalOperations = [(''x'', \<lparr>oe_jobId = ''a'', oe_userKey = ''u''\<rparr>),
                                               (''y'', \<lparr>oe_jobId = ''b'', oe_userKey = ''u''\<rparr>)]\<rparr>"

lemma stored_jobs_wf: "store_wf stored_jobs"
  by (auto simp: store_wf_def stored_jobs_def obj_wf_def user_dir_def stored_job_def)

lemma restart_leaves_no_active_job_witness:
  "map_of (user_dir ''u'' (recoverOrphanedJobsOnStartup (\<lambda>_. None) (\<lambda>_. Inr []) 9 stored_jobs)) ''a''
     = Some (Parsed (interrupted_job 9 (stored_job ''a'' Load Running 5)))"
proof -
  have u: "''u'' \<noteq> ''operations''" by simp
  note r = restart_leaves_no_active_job [OF stored_jobs_wf u refl, of "\<lambda>_. None" "\<lambda>_. Inr []" 9]
  have a: "map_of (user_dir ''u'' stored_jobs) ''a'' = Some (Parsed (stored_job ''a'' Load Running 5))"
    by (simp add: stored_jobs_def user_dir_def)
  have "\<not> isTerminalJobStatus (cj_status (stored_job ''a'' Load Running 5))"
    and "cj_cmsUuid (stored_job ''a'' Load Running 5) = None"
    by (simp_all add: stored_job_def isTerminalJobStatus_def)
  with mp [OF spec [OF spec [OF conjunct1 [OF conjunct2 [OF r]]]] a] show ?thesis by simp
qed

section \<open>Cleaning up\<close>

definition due :: "rat \<Rightarrow> rat \<Rightarrow> int \<Rightarrow> job_file \<Rightarrow> bool" where
  "due r t now f = (case f of Corrupt \<Rightarrow> True | Parsed j \<Rightarrow> expired r t now j)"

lemma purge_file_effect:
  "map_of (user_dir v (fst (purge_file r t now u (i, f) acc))) k =
     (if v = u \<and> k = i \<and> due r t now f then None else map_of (user_dir v (fst acc)) k)"
  "v \<noteq> u \<Longrightarrow> user_dir v (fst (purge_file r t now u (i, f) acc)) = user_dir v (fst acc)"
  "st_globalOperations (fst (purge_file r t now u (i, f) acc)) =
     filter (\<lambda>(_, e). \<not> (oe_jobId e = i \<and> f \<noteq> Corrupt \<and> due r t now f)) (st_globalOperations (fst acc))"
  "snd (purge_file r t now u (i, f) acc) = snd acc + (if due r t now f then 1 else 0)"
proof -
  have frame: "v \<noteq> u \<Longrightarrow> user_dir v (deleteJob u i st) = user_dir v st" for st
    by (auto simp: user_dir_def deleteJob_def map_of_obj_set split: option.splits)
  have [simp]: "filter (\<lambda>(_, e). True) xs = xs" for xs :: "(string \<times> op_entry) list"
    by (simp add: case_prod_unfold)
  show "map_of (user_dir v (fst (purge_file r t now u (i, f) acc))) k =
     (if v = u \<and> k = i \<and> due r t now f then None else map_of (user_dir v (fst acc)) k)"
    by (simp add: purge_file_def due_def user_dir_deleteJob split: job_file.split)
  show "v \<noteq> u \<Longrightarrow> user_dir v (fst (purge_file r t now u (i, f) acc)) = user_dir v (fst acc)"
    by (simp add: purge_file_def frame split: job_file.split)
  show "st_globalOperations (fst (purge_file r t now u (i, f) acc)) =
     filter (\<lambda>(_, e). \<not> (oe_jobId e = i \<and> f \<noteq> Corrupt \<and> due r t now f)) (st_globalOperations (fst acc))"
    by (simp add: purge_file_def due_def removeJobIdFromGlobalOperations_def split: job_file.split)
  show "snd (purge_file r t now u (i, f) acc) = snd acc + (if due r t now f then 1 else 0)"
    by (simp add: purge_file_def due_def split: job_file.split)
qed

lemma purge_dir_effect:
  fixes u r t now files acc
  defines "after \<equiv> fold (purge_file r t now u) files acc"
  shows "map_of (user_dir v (fst after)) k =
      (if v = u \<and> (\<exists>f. (k, f) \<in> set files \<and> due r t now f) then None else map_of (user_dir v (fst acc)) k)" (is ?A)
    and "v \<noteq> u \<Longrightarrow> user_dir v (fst after) = user_dir v (fst acc)" (is "_ \<Longrightarrow> ?B")
    and "st_globalOperations (fst after) = filter (\<lambda>(_, e). \<not> (\<exists>j. (oe_jobId e, Parsed j) \<in> set files \<and> expired r t now j))
      (st_globalOperations (fst acc))" (is ?C)
    and "snd after = snd acc + length (filter (\<lambda>(_, f). due r t now f) files)" (is ?D)
proof -
  show ?A
    unfolding after_def
  proof (induction files arbitrary: acc)
    case (Cons p files)
    then show ?case by (cases p) (auto simp: purge_file_effect(1))
  qed simp
  show "v \<noteq> u \<Longrightarrow> ?B"
    unfolding after_def
  proof (induction files arbitrary: acc)
    case (Cons p files)
    then show ?case by (cases p) (auto simp: purge_file_effect(2))
  qed simp
  show ?C
    unfolding after_def
  proof (induction files arbitrary: acc)
    case (Cons p files)
    then show ?case
      by (cases p; cases "snd p") (auto simp: purge_file_effect(3) due_def intro!: filter_cong)
  qed (simp add: case_prod_unfold)
  show ?D
    unfolding after_def
  proof (induction files arbitrary: acc)
    case (Cons p files)
    then show ?case by (cases p) (auto simp: purge_file_effect(4))
  qed simp
qed

text \<open>The directories one after the other; each is seen as it was at the start.\<close>

lemma purge_dirs_effect:
  fixes r t now
  defines "step \<equiv> \<lambda>u acc. fold (purge_file r t now u) (user_dir u (fst acc)) acc"
  assumes "distinct us"
  shows "map_of (user_dir v (fst (fold step us acc))) k =
      (if v \<in> set us \<and> (\<exists>f. (k, f) \<in> set (user_dir v (fst acc)) \<and> due r t now f) then None
       else map_of (user_dir v (fst acc)) k)"
    and "st_globalOperations (fst (fold step us acc)) =
      filter (\<lambda>(_, e). \<not> (\<exists>u \<in> set us. \<exists>j. (oe_jobId e, Parsed j) \<in> set (user_dir u (fst acc)) \<and> expired r t now j))
        (st_globalOperations (fst acc))"
    and "snd (fold step us acc) =
      snd acc + (\<Sum>u \<leftarrow> us. length (filter (\<lambda>(_, f). due r t now f) (user_dir u (fst acc))))"
proof -
  have A: "map_of (user_dir v (fst (step u acc))) k =
      (if v = u \<and> (\<exists>f. (k, f) \<in> set (user_dir v (fst acc)) \<and> due r t now f) then None
       else map_of (user_dir v (fst acc)) k)" for v u k acc
    using purge_dir_effect(1) by (auto simp: step_def)
  have B: "v \<noteq> u \<Longrightarrow> user_dir v (fst (step u acc)) = user_dir v (fst acc)" for v u acc
    unfolding step_def by (rule purge_dir_effect(2))
  show "map_of (user_dir v (fst (fold step us acc))) k =
      (if v \<in> set us \<and> (\<exists>f. (k, f) \<in> set (user_dir v (fst acc)) \<and> due r t now f) then None
       else map_of (user_dir v (fst acc)) k)"
    using assms(2)
  proof (induction us arbitrary: acc)
    case (Cons u us)
    then show ?case using A [of v u acc k] B [of v u acc] by (cases "v = u") auto
  qed simp
  have other: "user_dir w (fst (step u acc)) = user_dir w (fst acc)" if "w \<in> set us" "u \<notin> set us" for w u us acc
    using that B by metis
  show "st_globalOperations (fst (fold step us acc)) =
      filter (\<lambda>(_, e). \<not> (\<exists>u \<in> set us. \<exists>j. (oe_jobId e, Parsed j) \<in> set (user_dir u (fst acc)) \<and> expired r t now j))
        (st_globalOperations (fst acc))"
    using assms(2)
  proof (induction us arbitrary: acc)
    case (Cons u us)
    have "st_globalOperations (fst (step u acc)) =
        filter (\<lambda>(_, e). \<not> (\<exists>j. (oe_jobId e, Parsed j) \<in> set (user_dir u (fst acc)) \<and> expired r t now j))
          (st_globalOperations (fst acc))"
      unfolding step_def by (rule purge_dir_effect(3))
    with Cons other [of _ us u acc] show ?case by (auto simp: intro!: filter_cong)
  qed (simp add: case_prod_unfold)
  show "snd (fold step us acc) =
      snd acc + (\<Sum>u \<leftarrow> us. length (filter (\<lambda>(_, f). due r t now f) (user_dir u (fst acc))))"
    using assms(2)
  proof (induction us arbitrary: acc)
    case (Cons u us)
    have "snd (step u acc) = snd acc + length (filter (\<lambda>(_, f). due r t now f) (user_dir u (fst acc)))"
      unfolding step_def by (rule purge_dir_effect(4))
    moreover have "(\<Sum>v \<leftarrow> us. length (filter (\<lambda>(_, f). due r t now f) (user_dir v (fst (step u acc)))))
        = (\<Sum>v \<leftarrow> us. length (filter (\<lambda>(_, f). due r t now f) (user_dir v (fst acc))))"
      using Cons.prems other [of _ us u acc] by (intro arg_cong [where f = sum_list] map_cong) auto
    ultimately show ?case using Cons by simp
  qed simp
qed

text \<open>
  the clean-up removes what is due and nothing else. A file of a user is gone exactly when it
  is unreadable, its job ended at least the retention time ago, or its job is still marked active
  and was created at least the stale time ago; every other file is as it was; an operation is
  released exactly when a job that was removed holds it; and the number returned is the number of
  files removed.
\<close>

theorem cleanup_removes_what_is_due:
  assumes "store_wf st" "u \<noteq> ''operations''" "purgeExpiredJobs r t now st = (st', n)"
  shows "map_of (user_dir u st') k =
      (case map_of (user_dir u st) k of
         Some (Parsed j) \<Rightarrow>
           if (if isTerminalJobStatus (cj_status j)
               then of_int (now - (case cj_finishedAt j of Some e \<Rightarrow> e | None \<Rightarrow> cj_createdAt j)) \<ge> r
               else of_int (now - cj_createdAt j) \<ge> t) then None else Some (Parsed j)
       | _ \<Rightarrow> None)
    \<and> ((key, e) \<in> set (st_globalOperations st') \<longleftrightarrow> (key, e) \<in> set (st_globalOperations st)
         \<and> \<not> (\<exists>v j. v \<noteq> ''operations'' \<and> map_of (user_dir v st) (oe_jobId e) = Some (Parsed j) \<and> expired r t now j))
    \<and> n = (\<Sum>v \<leftarrow> listUserJobKeys st. length (filter (\<lambda>(_, f). due r t now f) (user_dir v st)))"
proof -
  let ?us = "listUserJobKeys st"
  have d: "distinct ?us" using assms(1) by (simp add: listUserJobKeys_def store_wf_def obj_wf_def)
  note effect = purge_dirs_effect [OF d, where r = r and t = t and now = now and acc = "(st, 0)", simplified fst_conv snd_conv]
  have st': "st' = fst (fold (\<lambda>u acc. fold (purge_file r t now u) (user_dir u (fst acc)) acc) ?us (st, 0))"
    and n: "n = snd (fold (\<lambda>u acc. fold (purge_file r t now u) (user_dir u (fst acc)) acc) ?us (st, 0))"
    using assms(3) by (simp_all add: purgeExpiredJobs_def)
  have known: "v \<in> set ?us" if "map_of (user_dir v st) i = Some f" "v \<noteq> ''operations''" for v i f
    using that by (force simp: listUserJobKeys_def user_dir_def dest: map_of_SomeD split: option.splits)
  have entry: "(i, f) \<in> set (user_dir v st) \<longleftrightarrow> map_of (user_dir v st) i = Some f" for v i f
    using assms(1) by (simp add: store_wf_def obj_wf_def)
  have "map_of (user_dir u st') k =
      (case map_of (user_dir u st) k of None \<Rightarrow> None | Some f \<Rightarrow> if due r t now f then None else Some f)"
    unfolding st' effect(1) entry using known [of u k] assms(2)
    by (auto split: option.split)
  then have "map_of (user_dir u st') k =
      (case map_of (user_dir u st) k of
         Some (Parsed j) \<Rightarrow>
           if (if isTerminalJobStatus (cj_status j)
               then of_int (now - (case cj_finishedAt j of Some e \<Rightarrow> e | None \<Rightarrow> cj_createdAt j)) \<ge> r
               else of_int (now - cj_createdAt j) \<ge> t) then None else Some (Parsed j)
       | _ \<Rightarrow> None)"
    by (simp add: due_def expired_def Let_def split: option.split job_file.split)
  moreover have "(key, e) \<in> set (st_globalOperations st') \<longleftrightarrow> (key, e) \<in> set (st_globalOperations st)
       \<and> \<not> (\<exists>v j. v \<noteq> ''operations'' \<and> map_of (user_dir v st) (oe_jobId e) = Some (Parsed j) \<and> expired r t now j)"
  proof -
    have "(\<exists>v \<in> set ?us. \<exists>j. map_of (user_dir v st) i = Some (Parsed j) \<and> expired r t now j) \<longleftrightarrow>
        (\<exists>v j. v \<noteq> ''operations'' \<and> map_of (user_dir v st) i = Some (Parsed j) \<and> expired r t now j)" for i
      using known by (fastforce simp: listUserJobKeys_def)
    then show ?thesis unfolding st' effect(2) entry by auto
  qed
  moreover have "n = (\<Sum>v \<leftarrow> ?us. length (filter (\<lambda>(_, f). due r t now f) (user_dir v st)))"
    unfolding n effect(3) by simp
  ultimately show ?thesis by blast
qed

lemma cleanup_removes_what_is_due_witness:
  "\<exists>st' n. purgeExpiredJobs 10 20 18 stored_jobs = (st', n)
     \<and> map_of (user_dir ''u'' st') ''a'' = Some (Parsed (stored_job ''a'' Load Running 5))
     \<and> map_of (user_dir ''u'' st') ''b'' = None"
proof -
  obtain st' n where p: "purgeExpiredJobs 10 20 18 stored_jobs = (st', n)" by force
  have "map_of (user_dir ''u'' st') ''a'' = Some (Parsed (stored_job ''a'' Load Running 5))"
    using cleanup_removes_what_is_due [OF stored_jobs_wf _ p, of "''u''" "''a''"]
    by (simp add: stored_jobs_def user_dir_def stored_job_def isTerminalJobStatus_def)
  moreover have "map_of (user_dir ''u'' st') ''b'' = None"
    using cleanup_removes_what_is_due [OF stored_jobs_wf _ p, of "''u''" "''b''"]
    by (simp add: stored_jobs_def user_dir_def stored_job_def isTerminalJobStatus_def)
  ultimately show ?thesis using p by blast
qed

end
