(* ===== verification/AsyncPoll.thy ===== *)
theory AsyncPoll
  imports CmsJobs
begin

text \<open>
  Model of \<open>pollCmsAsyncJob\<close> (\<open>apps/api-server/src/common/poll-cms-async-job.ts\<close>). The loop has no
  bound of its own, so it is a partial function. \<open>clock k\<close> is the time at the check before poll
  \<open>k\<close>; \<open>ask k uuid\<close> is what looking up the host and asking for the task gives at poll \<open>k\<close>; and
  \<open>onUuid\<close> is the callback, when there is one, with the error it raises if it does.
\<close>

definition CMS_ASYNC_JOB_POLL_INTERVAL_MS :: int where "CMS_ASYNC_JOB_POLL_INTERVAL_MS = 3000"
definition CMS_ASYNC_JOB_FIRST_POLL_INTERVAL_MS :: int where "CMS_ASYNC_JOB_FIRST_POLL_INTERVAL_MS = 500"

datatype poll_error = DidNotFinish string rat | PollRaised raised

text \<open>The callback is called once, with the first uuid that is known.\<close>

definition reportUuidIfNew ::
  "(string \<Rightarrow> raised option) option \<Rightarrow> js \<Rightarrow> bool \<Rightarrow> raised + bool" where
  "reportUuidIfNew onUuid currentUuid uuidReported =
     (if uuidReported \<or> \<not> truthy currentUuid then Inr uuidReported
      else (case onUuid of
          None \<Rightarrow> Inr uuidReported
        | Some callback \<Rightarrow> (case callback (js_string currentUuid) of None \<Rightarrow> Inr True | Some e \<Rightarrow> Inl e)))"

definition unfinished :: "js \<Rightarrow> bool" where
  "unfinished response \<longleftrightarrow> js_get response ''job-status'' = Str ''running'' \<or> isInvalidTokenError response"

partial_function (option) poll_loop ::
  "(nat \<Rightarrow> int) \<Rightarrow> (nat \<Rightarrow> js \<Rightarrow> raised + js) \<Rightarrow> (string \<Rightarrow> raised option) option \<Rightarrow> string \<Rightarrow> rat \<Rightarrow> rat
    \<Rightarrow> nat \<Rightarrow> js \<Rightarrow> js \<Rightarrow> bool \<Rightarrow> (poll_error + js \<times> nat) option" where
  [code]: "poll_loop clock ask onUuid task timeoutMs deadline polls response currentUuid uuidReported =
     (if \<not> unfinished response then Some (Inr (response, polls))
      else if of_int (clock polls) > deadline then Some (Inl (DidNotFinish task timeoutMs))
      else (case ask polls currentUuid of
          Inl e \<Rightarrow> Some (Inl (PollRaised e))
        | Inr response' \<Rightarrow>
            (let uuid = js_get response' ''uuid'';
                 currentUuid' = (if truthy uuid then uuid else currentUuid)
             in case reportUuidIfNew onUuid currentUuid' uuidReported of
                  Inl e \<Rightarrow> Some (Inl (PollRaised e))
                | Inr reported' \<Rightarrow>
                    poll_loop clock ask onUuid task timeoutMs deadline (Suc polls) response' currentUuid' reported')))"

definition pollCmsAsyncJob ::
  "(nat \<Rightarrow> int) \<Rightarrow> (nat \<Rightarrow> js \<Rightarrow> raised + js) \<Rightarrow> (string \<Rightarrow> raised option) option \<Rightarrow> string \<Rightarrow> rat option
    \<Rightarrow> rat option \<Rightarrow> int \<Rightarrow> js \<Rightarrow> (poll_error + js \<times> nat) option" where
  "pollCmsAsyncJob clock ask onUuid task deadlineMs timeoutEnv start initialResponse =
     (let timeoutMs = (case deadlineMs of Some t \<Rightarrow> t | None \<Rightarrow> getLongJobCmsTimeoutMs timeoutEnv);
          currentUuid = js_get initialResponse ''uuid''
      in case reportUuidIfNew onUuid currentUuid False of
           Inl e \<Rightarrow> Some (Inl (PollRaised e))
         | Inr reported \<Rightarrow>
             poll_loop clock ask onUuid task timeoutMs (of_int start + timeoutMs) 0 initialResponse currentUuid reported)"

section \<open>The polling ends\<close>

text \<open>A sleep takes at least the interval asked for.\<close>

definition sleeps :: "(nat \<Rightarrow> int) \<Rightarrow> bool" where
  "sleeps clock \<longleftrightarrow> (\<forall>k. clock (Suc k) \<ge> clock k +
     (if k = 0 then CMS_ASYNC_JOB_FIRST_POLL_INTERVAL_MS else CMS_ASYNC_JOB_POLL_INTERVAL_MS))"

lemma sleeps_from:
  assumes "sleeps clock"
  shows "clock (Suc k) \<ge> clock 0 + 500 + 3000 * int k"
proof (induction k)
  case 0
  from assms have "clock (Suc 0) \<ge> clock 0 + (if (0::nat) = 0 then CMS_ASYNC_JOB_FIRST_POLL_INTERVAL_MS
      else CMS_ASYNC_JOB_POLL_INTERVAL_MS)" unfolding sleeps_def by blast
  then show ?case by (simp add: CMS_ASYNC_JOB_FIRST_POLL_INTERVAL_MS_def)
next
  case (Suc k)
  from assms have "clock (Suc (Suc k)) \<ge> clock (Suc k) + (if Suc k = 0 then CMS_ASYNC_JOB_FIRST_POLL_INTERVAL_MS
      else CMS_ASYNC_JOB_POLL_INTERVAL_MS)" unfolding sleeps_def by blast
  with Suc show ?case by (simp add: CMS_ASYNC_JOB_POLL_INTERVAL_MS_def)
qed

lemma sleeps_step: "sleeps clock \<Longrightarrow> clock (Suc k) \<ge> clock k + 500"
proof -
  assume "sleeps clock"
  then have "clock (Suc k) \<ge> clock k + (if k = 0 then CMS_ASYNC_JOB_FIRST_POLL_INTERVAL_MS
      else CMS_ASYNC_JOB_POLL_INTERVAL_MS)" unfolding sleeps_def by blast
  then show ?thesis
    by (cases "k = 0") (simp_all add: CMS_ASYNC_JOB_FIRST_POLL_INTERVAL_MS_def CMS_ASYNC_JOB_POLL_INTERVAL_MS_def)
qed

lemma poll_loop_ends:
  assumes "sleeps clock"
  shows "\<exists>y. poll_loop clock ask onUuid task timeoutMs deadline polls response uuid reported = Some y
    \<and> (case y of
         Inr (r, n) \<Rightarrow> \<not> unfinished r \<and> polls \<le> n \<and> (polls < n \<longrightarrow> of_int (clock (n - 1)) \<le> deadline)
       | Inl (DidNotFinish t d) \<Rightarrow> t = task \<and> d = timeoutMs \<and> (\<exists>n \<ge> polls. of_int (clock n) > deadline)
       | Inl (PollRaised e) \<Rightarrow> True)"
proof (induction "nat (\<lceil>deadline\<rceil> + 1 - clock polls)" arbitrary: polls response uuid reported rule: less_induct)
  case less
  let ?loop = "poll_loop clock ask onUuid task timeoutMs deadline"
  note unfold = poll_loop.simps [of clock ask onUuid task timeoutMs deadline polls response uuid reported]
  show ?case
  proof (cases "unfinished response \<and> of_int (clock polls) \<le> deadline")
    case False
    then show ?thesis by (subst unfold) (auto simp: not_le)
  next
    case True
    then have "clock polls \<le> \<lceil>deadline\<rceil>" by linarith
    then have smaller: "nat (\<lceil>deadline\<rceil> + 1 - clock (Suc polls)) < nat (\<lceil>deadline\<rceil> + 1 - clock polls)"
      using sleeps_step [OF assms, of polls] by linarith
    show ?thesis
    proof (cases "ask polls uuid")
      case (Inl e)
      with True show ?thesis by (subst unfold) simp
    next
      case (Inr r)
      let ?uuid = "if truthy (js_get r ''uuid'') then js_get r ''uuid'' else uuid"
      show ?thesis
      proof (cases "reportUuidIfNew onUuid ?uuid reported")
        case (Inl e)
        with True Inr show ?thesis by (subst unfold) (simp add: Let_def)
      next
        case rep: (Inr b)
        have eq: "?loop polls response uuid reported = ?loop (Suc polls) r ?uuid b"
          using True Inr rep by (subst unfold) (simp add: Let_def)
        obtain y where y: "?loop (Suc polls) r ?uuid b = Some y"
          "case y of
             Inr (r, n) \<Rightarrow> \<not> unfinished r \<and> Suc polls \<le> n \<and> (Suc polls < n \<longrightarrow> of_int (clock (n - 1)) \<le> deadline)
           | Inl (DidNotFinish t d) \<Rightarrow> t = task \<and> d = timeoutMs \<and> (\<exists>n \<ge> Suc polls. of_int (clock n) > deadline)
           | Inl (PollRaised e) \<Rightarrow> True"
          using less.hyps [OF smaller, of r ?uuid b] by blast
        show ?thesis
        proof (intro exI conjI)
          show "?loop polls response uuid reported = Some y" using eq y(1) by simp
        next
          show "case y of
             Inr (r, n) \<Rightarrow> \<not> unfinished r \<and> polls \<le> n \<and> (polls < n \<longrightarrow> of_int (clock (n - 1)) \<le> deadline)
           | Inl (DidNotFinish t d) \<Rightarrow> t = task \<and> d = timeoutMs \<and> (\<exists>n \<ge> polls. of_int (clock n) > deadline)
           | Inl (PollRaised e) \<Rightarrow> True"
            using y(2) True
            by (auto split: sum.splits poll_error.splits prod.splits intro: Suc_leD)
        qed
      qed
    qed
  qed
qed

text \<open>
  C21: watching a task ends. When a sleep takes at least the interval asked for, the polling
  returns: with an answer that is final (the task no longer runs, and the answer is not that the
  token is invalid), or with the error that the task did not finish, only after the deadline, or
  with an error that a poll or the callback raised. The number of polls before a final answer is
  bounded by the time limit: one after half a second and the others three seconds apart.
\<close>

theorem poll_ends_by_the_deadline:
  assumes "sleeps clock" "start \<le> clock 0"
    and "timeoutMs = (case deadlineMs of Some t \<Rightarrow> t | None \<Rightarrow> getLongJobCmsTimeoutMs timeoutEnv)"
  shows "\<exists>y. pollCmsAsyncJob clock ask onUuid task deadlineMs timeoutEnv start response = Some y
    \<and> (case y of
         Inr (r, n) \<Rightarrow> \<not> unfinished r \<and> (2 \<le> n \<longrightarrow> of_int (500 + 3000 * (int n - 2)) \<le> timeoutMs)
       | Inl (DidNotFinish t d) \<Rightarrow> t = task \<and> d = timeoutMs \<and> (\<exists>n. of_int (clock n) > of_int start + timeoutMs)
       | Inl (PollRaised e) \<Rightarrow> True)"
proof (cases "reportUuidIfNew onUuid (js_get response ''uuid'') False")
  case (Inl e)
  then show ?thesis by (simp add: pollCmsAsyncJob_def)
next
  case (Inr b)
  let ?deadline = "of_int start + timeoutMs"
  have eq: "pollCmsAsyncJob clock ask onUuid task deadlineMs timeoutEnv start response
      = poll_loop clock ask onUuid task timeoutMs ?deadline 0 response (js_get response ''uuid'') b"
    using Inr unfolding assms(3) by (simp add: pollCmsAsyncJob_def Let_def)
  obtain y where y: "pollCmsAsyncJob clock ask onUuid task deadlineMs timeoutEnv start response = Some y"
    "case y of
       Inr (r, n) \<Rightarrow> \<not> unfinished r \<and> 0 \<le> n \<and> (0 < n \<longrightarrow> of_int (clock (n - 1)) \<le> ?deadline)
     | Inl (DidNotFinish t d) \<Rightarrow> t = task \<and> d = timeoutMs \<and> (\<exists>n \<ge> 0. of_int (clock n) > ?deadline)
     | Inl (PollRaised e) \<Rightarrow> True"
    unfolding eq using poll_loop_ends [OF assms(1)] by blast
  have bound: "of_int (500 + 3000 * (int n - 2)) \<le> timeoutMs" if "2 \<le> n" "of_int (clock (n - 1)) \<le> ?deadline" for n
  proof -
    have "clock (n - 1) \<ge> clock 0 + 500 + 3000 * (int n - 2)"
      using sleeps_from [OF assms(1), of "n - 2"] that(1) by (simp add: of_nat_diff Suc_diff_Suc numeral_2_eq_2)
    then have "500 + 3000 * (int n - 2) \<le> clock (n - 1) - start" using assms(2) by simp
    then have "(of_int (500 + 3000 * (int n - 2)) :: rat) \<le> of_int (clock (n - 1) - start)" by (simp only: of_int_le_iff)
    with that(2) show ?thesis by simp
  qed
  show ?thesis
  proof (intro exI conjI)
    show "pollCmsAsyncJob clock ask onUuid task deadlineMs timeoutEnv start response = Some y" by (rule y(1))
  next
    show "case y of
         Inr (r, n) \<Rightarrow> \<not> unfinished r \<and> (2 \<le> n \<longrightarrow> of_int (500 + 3000 * (int n - 2)) \<le> timeoutMs)
       | Inl (DidNotFinish t d) \<Rightarrow> t = task \<and> d = timeoutMs \<and> (\<exists>n. of_int (clock n) > ?deadline)
       | Inl (PollRaised e) \<Rightarrow> True"
      using y(2) bound by (auto split: sum.splits poll_error.splits prod.splits)
  qed
qed

lemma poll_ends_by_the_deadline_witness:
  "\<exists>y. pollCmsAsyncJob (\<lambda>k. 3000 * int k) (\<lambda>k u. Inr (Obj [(''job-status'', Str ''running'')])) None ''unloaddb''
      (Some 9000) None 0 (Obj [(''job-status'', Str ''running''), (''uuid'', Str ''t'')]) = Some y"
proof -
  have "sleeps (\<lambda>k. 3000 * int k)"
    by (simp add: sleeps_def CMS_ASYNC_JOB_FIRST_POLL_INTERVAL_MS_def CMS_ASYNC_JOB_POLL_INTERVAL_MS_def)
  moreover have "(0::int) \<le> 3000 * int 0" by simp
  ultimately show ?thesis
    using poll_ends_by_the_deadline [of "\<lambda>k. 3000 * int k" 0 _ None "Some 9000", OF _ _ refl] by blast
qed

end
