(* ===== verification/CmsTokens.thy ===== *)
theory CmsTokens
  imports JsPrelude
begin

text \<open>
  Model of \<open>apps/api-server/src/cms-https-client/cms-token-activity.ts\<close>: what the manager service
  did with each token, and until when a host's session is taken to last. Times are milliseconds
  since 1970.
\<close>

definition CMS_DEFAULT_TOKEN_ACTIVE_TIME_SEC :: int where "CMS_DEFAULT_TOKEN_ACTIVE_TIME_SEC = 7200"
definition CMS_TOKEN_ACTIVITY_RETENTION_MS :: int where "CMS_TOKEN_ACTIVITY_RETENTION_MS = 24 * 60 * 60 * 1000"
definition SWEEP_EVERY_NOTES :: nat where "SWEEP_EVERY_NOTES = 256"

record token_activity =
  ta_acceptedAt :: int
  ta_rejected :: bool
  ta_closedAt :: "int option"
  ta_touchedAt :: int

record token_log =
  tl_activity :: "(string, token_activity) obj"
  tl_notesSinceSweep :: nat

definition stale_entry :: "int \<Rightarrow> token_activity \<Rightarrow> bool" where
  "stale_entry now e \<longleftrightarrow> \<not> ta_rejected e \<and> now - ta_touchedAt e > CMS_TOKEN_ACTIVITY_RETENTION_MS"

definition sweep :: "int \<Rightarrow> (string, token_activity) obj \<Rightarrow> (string, token_activity) obj" where
  "sweep now = filter (\<lambda>(_, e). \<not> stale_entry now e)"

definition entry_of :: "string \<Rightarrow> int \<Rightarrow> token_log \<Rightarrow> token_activity" where
  "entry_of token at log =
     (case map_of (tl_activity log) token of
        Some e \<Rightarrow> e
      | None \<Rightarrow> \<lparr>ta_acceptedAt = 0, ta_rejected = False, ta_closedAt = None, ta_touchedAt = at\<rparr>)"

definition noteCmsTokenUse :: "string \<Rightarrow> bool \<Rightarrow> int \<Rightarrow> int \<Rightarrow> token_log \<Rightarrow> token_log" where
  "noteCmsTokenUse token rejected startedAt at log =
     (if token = [] then log
      else
        (let e1 = (entry_of token at log)\<lparr>ta_touchedAt := at\<rparr>;
             e2 = (if rejected then e1\<lparr>ta_rejected := True\<rparr>
                   else if \<not> ta_rejected e1
                     \<and> (case ta_closedAt e1 of None \<Rightarrow> True | Some closed \<Rightarrow> startedAt > closed)
                   then e1\<lparr>ta_acceptedAt := at\<rparr> else e1);
             activity = obj_set token e2 (tl_activity log);
             notes = Suc (tl_notesSinceSweep log)
         in if notes \<ge> SWEEP_EVERY_NOTES
            then \<lparr>tl_activity = sweep at activity, tl_notesSinceSweep = 0\<rparr>
            else \<lparr>tl_activity = activity, tl_notesSinceSweep = notes\<rparr>))"

definition closeCmsToken :: "string \<Rightarrow> int \<Rightarrow> token_log \<Rightarrow> token_log" where
  "closeCmsToken token at log =
     (if token = [] then log
      else log\<lparr>tl_activity := obj_set token
        ((entry_of token at log)\<lparr>ta_acceptedAt := 0, ta_closedAt := Some at, ta_touchedAt := at\<rparr>) (tl_activity log)\<rparr>)"

definition forgetCmsToken :: "string \<Rightarrow> token_log \<Rightarrow> token_log" where
  "forgetCmsToken token log =
     (if token = [] then log else log\<lparr>tl_activity := obj_del token (tl_activity log)\<rparr>)"

text \<open>\<open>issuedAt\<close> and \<open>activeTimeSec\<close> are the host's \<open>cmsTokenIssuedAt\<close> and \<open>cmsTokenActiveTimeSec\<close>.\<close>

definition cmsSessionExpiresAt :: "token_log \<Rightarrow> string \<Rightarrow> int option \<Rightarrow> int option \<Rightarrow> int option" where
  "cmsSessionExpiresAt log token issuedAt activeTimeSec =
     (if token = [] then None
      else
        (let entry = map_of (tl_activity log) token
         in if (case entry of Some e \<Rightarrow> ta_rejected e | None \<Rightarrow> False) then None
            else
              (let since = max (case entry of Some e \<Rightarrow> ta_acceptedAt e | None \<Rightarrow> 0)
                               (case issuedAt of Some t \<Rightarrow> t | None \<Rightarrow> 0)
               in if since = 0 then None
                  else Some (since + (case activeTimeSec of Some t \<Rightarrow> t | None \<Rightarrow> CMS_DEFAULT_TOKEN_ACTIVE_TIME_SEC) * 1000))))"

section \<open>The active time of a configuration\<close>

definition blank :: "char \<Rightarrow> bool" where
  "blank c \<longleftrightarrow> c = CHR '' '' \<or> c = CHR 0x09"

text \<open>The pattern \<open>/^([^ \t=]+)[ \t]*=?[ \t]*(.*)$/\<close>: the name and the rest; a line break in the rest
  is no match.\<close>

definition conf_entry :: "string \<Rightarrow> (string \<times> string) option" where
  "conf_entry text =
     (let name = takeWhile (\<lambda>c. \<not> (blank c \<or> c = CHR ''='')) text;
          s1 = dropWhile blank (drop (length name) text);
          s2 = (case s1 of c # cs \<Rightarrow> if c = CHR ''='' then cs else s1 | [] \<Rightarrow> []);
          rest = dropWhile blank s2
      in if name = [] \<or> CHR 0x0A \<in> set rest \<or> CHR 0x0D \<in> set rest then None else Some (name, rest))"

definition token_time_line :: "string \<Rightarrow> string option" where
  "token_time_line line =
     (let text = trim line
      in if text = [] \<or> hd text = CHR ''#'' then None
         else (case conf_entry text of
             Some (name, rest) \<Rightarrow>
               if lower name \<in> {''token_active_time'', ''tokenactivetime''} then Some (trim rest) else None
           | None \<Rightarrow> None))"

definition parseTokenActiveTime :: "string list \<Rightarrow> int" where
  "parseTokenActiveTime conflines =
     (let raw = fold (\<lambda>line acc. case token_time_line line of Some v \<Rightarrow> Some v | None \<Rightarrow> acc) conflines None
      in case raw of
           None \<Rightarrow> CMS_DEFAULT_TOKEN_ACTIVE_TIME_SEC
         | Some v \<Rightarrow>
             if \<not> (list_all is_digit v \<and> 1 \<le> length v \<and> length v \<le> 10) then CMS_DEFAULT_TOKEN_ACTIVE_TIME_SEC
             else if digits_value v > 0 then digits_value v else CMS_DEFAULT_TOKEN_ACTIVE_TIME_SEC)"

section \<open>Properties\<close>

datatype token_event =
    Note string bool int int
  | Close string int
  | Forget string

fun token_step :: "token_event \<Rightarrow> token_log \<Rightarrow> token_log" where
  "token_step (Note token rejected startedAt at) log = noteCmsTokenUse token rejected startedAt at log"
| "token_step (Close token at) log = closeCmsToken token at log"
| "token_step (Forget token) log = forgetCmsToken token log"

lemma map_of_filter_keep:
  "distinct (map fst m) \<Longrightarrow> map_of (filter (\<lambda>(_, e). P e) m) k =
     (case map_of m k of Some e \<Rightarrow> if P e then Some e else None | None \<Rightarrow> None)"
proof (induction m)
  case (Cons p m)
  obtain i e where p: "p = (i, e)" by force
  have "i \<notin> fst ` set m" using Cons.prems by (simp add: p)
  then have "map_of m i = None" by (simp add: map_of_eq_None_iff)
  with Cons show ?case by (auto simp: p split: option.split)
qed simp

definition log_wf :: "token_log \<Rightarrow> bool" where
  "log_wf log \<longleftrightarrow> distinct (map fst (tl_activity log))"

lemma step_log_wf: "log_wf log \<Longrightarrow> log_wf (token_step e log)"
proof (cases e)
  case (Note t r s a)
  assume "log_wf log"
  then have "distinct (map fst (obj_set t x (tl_activity log)))" for x by (simp add: log_wf_def distinct_update)
  then show ?thesis using \<open>log_wf log\<close>
    by (simp add: Note noteCmsTokenUse_def Let_def log_wf_def sweep_def distinct_map_filter)
qed (auto simp: log_wf_def closeCmsToken_def forgetCmsToken_def distinct_update distinct_delete)

text \<open>The entry a note writes, and a lookup after it: that entry or the old one, unless a sweep took
  it for stale.\<close>

definition noted :: "string \<Rightarrow> bool \<Rightarrow> int \<Rightarrow> int \<Rightarrow> token_log \<Rightarrow> token_activity" where
  "noted t r s a log =
     (let e1 = (entry_of t a log)\<lparr>ta_touchedAt := a\<rparr>
      in if r then e1\<lparr>ta_rejected := True\<rparr>
         else if \<not> ta_rejected e1 \<and> (case ta_closedAt e1 of None \<Rightarrow> True | Some c \<Rightarrow> s > c) then e1\<lparr>ta_acceptedAt := a\<rparr>
         else e1)"

lemma note_lookup:
  assumes "log_wf log" "t \<noteq> []" "x = (if k = t then Some (noted t r s a log) else map_of (tl_activity log) k)"
  shows "map_of (tl_activity (noteCmsTokenUse t r s a log)) k = x
    \<or> (\<exists>e. x = Some e \<and> stale_entry a e \<and> map_of (tl_activity (noteCmsTokenUse t r s a log)) k = None)"
proof -
  let ?m = "obj_set t (noted t r s a log) (tl_activity log)"
  have d: "distinct (map fst ?m)" using assms(1) by (simp add: log_wf_def distinct_update)
  have x: "map_of ?m k = x" by (simp add: assms(3) map_of_obj_set)
  have act: "tl_activity (noteCmsTokenUse t r s a log) = ?m \<or> tl_activity (noteCmsTokenUse t r s a log) = sweep a ?m"
    using assms(2) by (simp add: noteCmsTokenUse_def noted_def Let_def)
  have "map_of (sweep a ?m) k = (case x of Some e \<Rightarrow> if \<not> stale_entry a e then Some e else None | None \<Rightarrow> None)"
    unfolding sweep_def map_of_filter_keep [OF d] x ..
  with act x show ?thesis by (auto split: option.splits if_splits)
qed

definition rejected :: "string \<Rightarrow> token_log \<Rightarrow> bool" where
  "rejected t log \<longleftrightarrow> (\<exists>e. map_of (tl_activity log) t = Some e \<and> ta_rejected e)"

lemma rejected_step:
  assumes "log_wf log" "rejected t log" "e \<noteq> Forget t"
  shows "rejected t (token_step e log)"
proof (cases e)
  case (Note u r s a)
  show ?thesis
  proof (cases "u = []")
    case True
    then show ?thesis using assms(2) by (simp add: Note noteCmsTokenUse_def)
  next
    case False
    obtain f where f: "map_of (tl_activity log) t = Some f" "ta_rejected f" using assms(2) by (auto simp: rejected_def)
    define g where "g = (if t = u then noted u r s a log else f)"
    have g: "(if t = u then Some (noted u r s a log) else map_of (tl_activity log) t) = Some g" "ta_rejected g"
      using f by (auto simp: g_def noted_def entry_of_def Let_def)
    with note_lookup [OF assms(1) False refl, where k = t and r = r and s = s and a = a] show ?thesis
      by (auto simp: Note rejected_def stale_entry_def)
  qed
next
  case (Close u a)
  with assms(2) show ?thesis
    by (auto simp: rejected_def closeCmsToken_def map_of_obj_set entry_of_def split: option.splits)
next
  case (Forget u)
  with assms(2,3) show ?thesis by (auto simp: rejected_def forgetCmsToken_def map_of_obj_del)
qed

text \<open>A session the user closed at \<open>c\<close>: nothing accepted since counts.\<close>

definition closed_since :: "string \<Rightarrow> int \<Rightarrow> token_log \<Rightarrow> bool" where
  "closed_since t c log \<longleftrightarrow> (\<exists>e. map_of (tl_activity log) t = Some e \<and> ta_acceptedAt e = 0
     \<and> (\<exists>d \<ge> c. ta_closedAt e = Some d) \<and> ta_touchedAt e \<ge> c)"

text \<open>The events considered after that: no request started later, and nothing a day later.\<close>

fun late_answer :: "string \<Rightarrow> int \<Rightarrow> token_event \<Rightarrow> bool" where
  "late_answer t c (Note u r s a) = ((u = t \<longrightarrow> s \<le> c) \<and> c \<le> a \<and> a \<le> c + CMS_TOKEN_ACTIVITY_RETENTION_MS)"
| "late_answer t c (Close u a) = (c \<le> a)"
| "late_answer t c (Forget u) = (u \<noteq> t)"

lemma closed_step:
  assumes "log_wf log" "closed_since t c log" "late_answer t c e"
  shows "closed_since t c (token_step e log)"
proof (cases e)
  case (Note u r s a)
  show ?thesis
  proof (cases "u = []")
    case True
    then show ?thesis using assms(2) by (simp add: Note noteCmsTokenUse_def)
  next
    case False
    obtain f where f: "map_of (tl_activity log) t = Some f" "ta_acceptedAt f = 0" "\<exists>d \<ge> c. ta_closedAt f = Some d"
      "ta_touchedAt f \<ge> c" using assms(2) by (auto simp: closed_since_def)
    define g where "g = (if t = u then noted u r s a log else f)"
    have g: "(if t = u then Some (noted u r s a log) else map_of (tl_activity log) t) = Some g"
      using f(1) by (simp add: g_def)
    moreover have g: "ta_acceptedAt g = 0" "\<exists>d \<ge> c. ta_closedAt g = Some d" "ta_touchedAt g \<ge> c"
      using f assms(3) by (auto simp: g_def Note noted_def entry_of_def Let_def)
    moreover have "\<not> stale_entry a g" using g(3) assms(3) by (auto simp: Note stale_entry_def)
    ultimately show ?thesis
      using note_lookup [OF assms(1) False refl, where k = t and r = r and s = s and a = a] by (auto simp: Note closed_since_def)
  qed
next
  case (Close u a)
  with assms(2,3) show ?thesis
    by (auto simp: closed_since_def closeCmsToken_def map_of_obj_set entry_of_def split: option.splits)
next
  case (Forget u)
  with assms(2,3) show ?thesis by (auto simp: closed_since_def forgetCmsToken_def map_of_obj_del)
qed

lemma token_run:
  assumes "log_wf log" "P log" "\<And>log e. e \<in> set es \<Longrightarrow> log_wf log \<Longrightarrow> P log \<Longrightarrow> P (token_step e log)"
  shows "P (fold token_step es log)"
proof -
  have "log_wf (fold token_step es log) \<and> P (fold token_step es log)"
    by (rule fold_stable) (use assms step_log_wf in auto)
  then show ?thesis ..
qed

text \<open>
  C35: a session that ended stays ended. Once the service rejected a token, no later answer to any
  request makes its session look alive, until the token is forgotten. Once the user disconnected,
  the answers that still arrive (within a day) to requests started before do not count: the
  session is shown to last no longer than from the login.
\<close>

theorem ended_session_stays_ended:
  assumes "log_wf log" "t \<noteq> []"
  shows "((\<forall>e \<in> set es. e \<noteq> Forget t) \<longrightarrow>
      cmsSessionExpiresAt (fold token_step es (noteCmsTokenUse t True s a log)) t issued active = None)
    \<and> ((\<forall>e \<in> set es. late_answer t c e) \<longrightarrow>
      cmsSessionExpiresAt (fold token_step es (closeCmsToken t c log)) t issued active
        \<in> {None, cmsSessionExpiresAt \<lparr>tl_activity = [], tl_notesSinceSweep = 0\<rparr> t issued active})"
proof (intro conjI impI)
  assume es: "\<forall>e \<in> set es. e \<noteq> Forget t"
  have wf: "log_wf (noteCmsTokenUse t True s a log)" using step_log_wf [OF assms(1), of "Note t True s a"] by simp
  have "rejected t (noteCmsTokenUse t True s a log)"
    using note_lookup [OF assms refl, where k = t and r = True and s = s and a = a] by (auto simp: rejected_def noted_def stale_entry_def Let_def)
  from token_run [OF wf, of "rejected t" es, OF this] es rejected_step
  have "rejected t (fold token_step es (noteCmsTokenUse t True s a log))" by blast
  then show "cmsSessionExpiresAt (fold token_step es (noteCmsTokenUse t True s a log)) t issued active = None"
    by (auto simp: cmsSessionExpiresAt_def rejected_def)
next
  assume es: "\<forall>e \<in> set es. late_answer t c e"
  have wf: "log_wf (closeCmsToken t c log)" using step_log_wf [OF assms(1), of "Close t c"] by simp
  have "closed_since t c (closeCmsToken t c log)"
    using assms(2) by (simp add: closed_since_def closeCmsToken_def map_of_obj_set)
  from token_run [OF wf, of "closed_since t c" es, OF this] es closed_step
  have "closed_since t c (fold token_step es (closeCmsToken t c log))" by blast
  then show "cmsSessionExpiresAt (fold token_step es (closeCmsToken t c log)) t issued active
      \<in> {None, cmsSessionExpiresAt \<lparr>tl_activity = [], tl_notesSinceSweep = 0\<rparr> t issued active}"
    by (auto simp: cmsSessionExpiresAt_def closed_since_def)
qed

lemma ended_session_stays_ended_witness:
  "cmsSessionExpiresAt (fold token_step [Note ''t'' False 50 60] (noteCmsTokenUse ''t'' True 1 2
      \<lparr>tl_activity = [], tl_notesSinceSweep = 0\<rparr>)) ''t'' (Some 40) None = None"
proof -
  have "log_wf \<lparr>tl_activity = [], tl_notesSinceSweep = 0\<rparr>" by (simp add: log_wf_def)
  from ended_session_stays_ended [OF this, of "''t''" "[Note ''t'' False 50 60]" 1 2 "Some 40" None] show ?thesis by simp
qed

text \<open>
  forgetting is safe. When the clean-up of the record drops an entry, the host falls back to
  its login time: the session is never shown to last longer than with the entry, provided no
  accepted request is dated before 1970.
\<close>

theorem sweep_never_extends_a_session:
  assumes "log_wf log" "\<forall>e. map_of (tl_activity log) t = Some e \<longrightarrow> ta_acceptedAt e \<ge> 0"
    and "cmsSessionExpiresAt (log\<lparr>tl_activity := sweep now (tl_activity log)\<rparr>) t issued active = Some x"
  shows "\<exists>y \<ge> x. cmsSessionExpiresAt log t issued active = Some y"
proof (cases "map_of (tl_activity log) t")
  case None
  then have "map_of (sweep now (tl_activity log)) t = None"
    using assms(1) by (simp add: sweep_def map_of_filter_keep log_wf_def)
  with None have "cmsSessionExpiresAt (log\<lparr>tl_activity := sweep now (tl_activity log)\<rparr>) t issued active
      = cmsSessionExpiresAt log t issued active" by (simp add: cmsSessionExpiresAt_def)
  with assms(3) show ?thesis by auto
next
  case (Some e)
  then have swept: "map_of (sweep now (tl_activity log)) t = (if stale_entry now e then None else Some e)"
    using assms(1) by (simp add: sweep_def map_of_filter_keep log_wf_def)
  show ?thesis
  proof (cases "stale_entry now e")
    case False
    with Some swept have "cmsSessionExpiresAt (log\<lparr>tl_activity := sweep now (tl_activity log)\<rparr>) t issued active
      = cmsSessionExpiresAt log t issued active" by (simp add: cmsSessionExpiresAt_def)
    with assms(3) show ?thesis by auto
  next
    case True
    then have "\<not> ta_rejected e" by (simp add: stale_entry_def)
    moreover have "ta_acceptedAt e \<ge> 0" using assms(2) Some by blast
    ultimately show ?thesis
      using Some swept True assms(3) by (auto simp: cmsSessionExpiresAt_def Let_def max_def split: if_splits)
  qed
qed

lemma sweep_never_extends_a_session_witness:
  "\<exists>y \<ge> 47. cmsSessionExpiresAt \<lparr>tl_activity = [(''t'', \<lparr>ta_acceptedAt = 50, ta_rejected = False,
      ta_closedAt = None, ta_touchedAt = 50\<rparr>)], tl_notesSinceSweep = 0\<rparr> ''t'' (Some 47) (Some 0) = Some y"
  by (rule sweep_never_extends_a_session [where now = 90000000])
    (auto simp: log_wf_def cmsSessionExpiresAt_def sweep_def stale_entry_def CMS_TOKEN_ACTIVITY_RETENTION_MS_def)

end
