(* ===== verification/ServerHosts.thy ===== *)
theory ServerHosts
  imports CmsTokens HostGroups
begin

text \<open>
  Model of the API server's host tree: \<open>apps/api-server/src/host/host-group.util.ts\<close> and
  \<open>host.service.ts\<close>. A user is represented by the tree; a missing \<open>host_groups\<close> or \<open>hosts\<close> object
  is the empty one. A new id (\<open>uuidv4\<close>) and the time are arguments; an update is what
  \<open>atomicUpdateUser\<close> runs on the stored user, under its lock.
\<close>

section \<open>The tree\<close>

record server_host =
  sh_uid :: string
  sh_id :: string
  sh_token :: "string option"
  sh_address :: string
  sh_port :: int
  sh_password :: string
  sh_initialLogin :: "bool option"
  sh_alias :: string
  sh_dbProfiles :: js
  sh_cmsTokenIssuedAt :: "int option"
  sh_cmsTokenActiveTimeSec :: "int option"

record server_group =
  sg_name :: string
  sg_createdAt :: "int option"
  sg_hosts :: "(string, server_host) obj"
  sg_defaultHostUid :: "string option"

type_synonym server_groups = "(string, server_group) obj"

definition MAX_HOST_ALIAS_LENGTH :: nat where "MAX_HOST_ALIAS_LENGTH = 100"

definition ensureUngroupedGroup :: "server_groups \<Rightarrow> server_groups" where
  "ensureUngroupedGroup gs =
     (if map_of gs UNGROUPED_GROUP_ID = None
      then obj_set UNGROUPED_GROUP_ID
        \<lparr>sg_name = ''Ungrouped'', sg_createdAt = None, sg_hosts = [], sg_defaultHostUid = None\<rparr> gs
      else gs)"

fun findHostRef :: "server_groups \<Rightarrow> string \<Rightarrow> (string \<times> server_group \<times> server_host) option" where
  "findHostRef [] hostUid = None"
| "findHostRef ((groupId, g) # gs) hostUid =
     (case map_of (sg_hosts g) hostUid of
        Some h \<Rightarrow> Some (groupId, g, h)
      | None \<Rightarrow> findHostRef gs hostUid)"

definition getHost :: "server_groups \<Rightarrow> string \<Rightarrow> server_host option" where
  "getHost gs hostUid = map_option (\<lambda>(_, _, h). h) (findHostRef gs hostUid)"

definition all_hosts :: "server_groups \<Rightarrow> server_host list" where
  "all_hosts gs = concat (map (\<lambda>(_, g). obj_vals (sg_hosts g)) gs)"

definition countAllHosts :: "server_groups \<Rightarrow> nat" where
  "countAllHosts gs = sum_list (map (\<lambda>(_, g). length (sg_hosts g)) gs)"

definition excluded :: "string option \<Rightarrow> server_host \<Rightarrow> bool" where
  "excluded excludeHostUid h \<longleftrightarrow> (case excludeHostUid of Some u \<Rightarrow> u \<noteq> [] \<and> sh_uid h = u | None \<Rightarrow> False)"

definition findDuplicateHost ::
  "server_groups \<Rightarrow> string \<Rightarrow> int \<Rightarrow> string \<Rightarrow> string option \<Rightarrow> server_host option" where
  "findDuplicateHost gs address port hostId excludeHostUid =
     find (\<lambda>h. \<not> excluded excludeHostUid h \<and> sh_address h = address \<and> sh_port h = port \<and> sh_id h = hostId)
       (all_hosts gs)"

definition hasSameDefinedAlias :: "string \<Rightarrow> string \<Rightarrow> bool" where
  "hasSameDefinedAlias a b \<longleftrightarrow> trim a \<noteq> [] \<and> trim b \<noteq> [] \<and> trim a = trim b"

definition findDuplicateAlias :: "server_groups \<Rightarrow> string \<Rightarrow> string option \<Rightarrow> server_host option" where
  "findDuplicateAlias gs alias excludeHostUid =
     find (\<lambda>h. \<not> excluded excludeHostUid h \<and> hasSameDefinedAlias (sh_alias h) alias) (all_hosts gs)"

text \<open>A letter or digit, as \<open>/^[\p{L}\p{N}]/u\<close> has it in Latin-1.\<close>

definition letter_or_digit :: "char \<Rightarrow> bool" where
  "letter_or_digit c \<longleftrightarrow> (let n = of_char c :: nat in
     (48 \<le> n \<and> n \<le> 57) \<or> (65 \<le> n \<and> n \<le> 90) \<or> (97 \<le> n \<and> n \<le> 122)
     \<or> n \<in> {170, 178, 179, 181, 185, 186, 188, 189, 190} \<or> (192 \<le> n \<and> n \<noteq> 215 \<and> n \<noteq> 247))"

definition isValidGroupNameStart :: "string \<Rightarrow> bool" where
  "isValidGroupNameStart name = (case name of c # _ \<Rightarrow> letter_or_digit c | [] \<Rightarrow> False)"

definition createEmptyGroup :: "string \<Rightarrow> int \<Rightarrow> string \<Rightarrow> server_groups \<Rightarrow> server_groups" where
  "createEmptyGroup groupId now name gs =
     obj_set groupId \<lparr>sg_name = str_or (Some (trim name)) ''Group'', sg_createdAt = Some now, sg_hosts = [],
       sg_defaultHostUid = None\<rparr> gs"

definition deleteGroup :: "string \<Rightarrow> server_groups \<Rightarrow> bool \<times> server_groups" where
  "deleteGroup groupId gs =
     (if groupId = UNGROUPED_GROUP_ID \<or> map_of gs groupId = None then (False, gs)
      else (True, obj_del groupId gs))"

text \<open>A patch of a group: a new name, and a new default (\<open>Some None\<close> is \<open>null\<close>).\<close>

definition patch_name :: "string \<Rightarrow> string option \<Rightarrow> server_group \<Rightarrow> string + server_group" where
  "patch_name groupId name g =
     (case name of
        None \<Rightarrow> Inr g
      | Some n \<Rightarrow>
          if groupId = UNGROUPED_GROUP_ID then Inl ''CANNOT_RENAME_UNGROUPED''
          else if trim n = [] then Inl ''BLANK_GROUP_NAME_NOT_ALLOWED''
          else if \<not> isValidGroupNameStart (trim n) then Inl ''GROUP_NAME_INVALID_START''
          else Inr (g\<lparr>sg_name := trim n\<rparr>))"

definition patch_default :: "string option option \<Rightarrow> server_group \<Rightarrow> string + server_group" where
  "patch_default defaultHostUid g =
     (case defaultHostUid of
        None \<Rightarrow> Inr g
      | Some next \<Rightarrow>
          if (case next of Some u \<Rightarrow> u \<noteq> [] \<and> map_of (sg_hosts g) u = None | None \<Rightarrow> False)
          then Inl ''DEFAULT_HOST_NOT_IN_GROUP'' else Inr (g\<lparr>sg_defaultHostUid := next\<rparr>))"

definition updateGroup ::
  "string \<Rightarrow> string option \<Rightarrow> string option option \<Rightarrow> server_groups \<Rightarrow> string + bool \<times> server_groups" where
  "updateGroup groupId name defaultHostUid gs =
     (case map_of gs groupId of
        None \<Rightarrow> Inr (False, gs)
      | Some g \<Rightarrow>
          res_bind (patch_name groupId name g) (\<lambda>g1.
          res_bind (patch_default defaultHostUid g1) (\<lambda>g2. Inr (True, obj_set groupId g2 gs))))"

definition no_default :: "server_group \<Rightarrow> bool" where
  "no_default g \<longleftrightarrow> sg_defaultHostUid g = None \<or> sg_defaultHostUid g = Some []"

definition put_host :: "server_host \<Rightarrow> string \<Rightarrow> server_group \<Rightarrow> server_group" where
  "put_host h hostUid g =
     (let g1 = g\<lparr>sg_hosts := obj_set hostUid h (sg_hosts g)\<rparr>
      in if no_default g1 then g1\<lparr>sg_defaultHostUid := Some hostUid\<rparr> else g1)"

definition addHostToGroup :: "string \<Rightarrow> server_host \<Rightarrow> server_groups \<Rightarrow> string + server_groups" where
  "addHostToGroup groupId h gs =
     (case map_of gs groupId of
        None \<Rightarrow> Inl (''Host group not found: '' @ groupId)
      | Some g \<Rightarrow> Inr (obj_set groupId (put_host h (sh_uid h) g) gs))"

text \<open>Taking a host out of its group; the first one left becomes the default if it was the default.\<close>

definition drop_host :: "string \<Rightarrow> server_group \<Rightarrow> server_group" where
  "drop_host hostUid g =
     (let hosts = obj_del hostUid (sg_hosts g); g1 = g\<lparr>sg_hosts := hosts\<rparr>
      in if sg_defaultHostUid g = Some hostUid
         then g1\<lparr>sg_defaultHostUid := (case hosts of [] \<Rightarrow> None | (_, h) # _ \<Rightarrow> Some (sh_uid h))\<rparr> else g1)"

definition moveHostToGroup :: "string \<Rightarrow> string \<Rightarrow> server_groups \<Rightarrow> bool \<times> server_groups" where
  "moveHostToGroup hostUid targetGroupId gs =
     (case findHostRef gs hostUid of
        None \<Rightarrow> (False, gs)
      | Some (groupId, g, h) \<Rightarrow>
          if groupId = targetGroupId then (True, gs)
          else
            (let gs1 = (if targetGroupId = UNGROUPED_GROUP_ID then ensureUngroupedGroup gs else gs)
             in case map_of gs1 targetGroupId of
                  None \<Rightarrow> (False, gs1)
                | Some target \<Rightarrow>
                    (True, obj_set targetGroupId (put_host h hostUid target)
                             (obj_set groupId (drop_host hostUid g) gs1))))"

definition removeHostFromUser :: "string \<Rightarrow> server_groups \<Rightarrow> bool \<times> server_groups" where
  "removeHostFromUser hostUid gs =
     (case findHostRef gs hostUid of
        None \<Rightarrow> (False, gs)
      | Some (groupId, g, h) \<Rightarrow> (True, obj_set groupId (drop_host hostUid g) gs))"

section \<open>What the client sees\<close>

definition toSafeHost :: "token_log \<Rightarrow> server_host \<Rightarrow> host_info" where
  "toSafeHost log h =
     \<lparr>hi_uid = sh_uid h, hi_id = sh_id h, hi_address = sh_address h, hi_port = sh_port h, hi_alias = sh_alias h,
      hi_initialLogin = (case sh_initialLogin h of Some b \<Rightarrow> b | None \<Rightarrow> True),
      hi_cmsSessionExpiresAt = (case sh_token h of None \<Rightarrow> None
        | Some t \<Rightarrow> cmsSessionExpiresAt log t (sh_cmsTokenIssuedAt h) (sh_cmsTokenActiveTimeSec h))\<rparr>"

definition safe_group :: "token_log \<Rightarrow> server_group \<Rightarrow> host_group" where
  "safe_group log g = \<lparr>hg_name = sg_name g,
     hg_hosts = map (\<lambda>(uid, h). (uid, toSafeHost log h)) (sg_hosts g), hg_defaultHostUid = sg_defaultHostUid g\<rparr>"

definition sanitizeHostGroups :: "token_log \<Rightarrow> server_groups \<Rightarrow> host_groups" where
  "sanitizeHostGroups log gs =
     (let out = map (\<lambda>(gid, g). (gid, safe_group log g)) gs
      in if map_of out UNGROUPED_GROUP_ID = None
         then out @ [(UNGROUPED_GROUP_ID, \<lparr>hg_name = ''Ungrouped'', hg_hosts = [], hg_defaultHostUid = None\<rparr>)]
         else out)"

section \<open>The service\<close>

datatype host_error =
    ExceedMaxHosts | DuplicatedHost string | DuplicatedAlias string | NoSuchHost string
  | InvalidFormat string string | OtherError string

record add_host_payload =
  ah_id :: string
  ah_address :: string
  ah_port :: int
  ah_password :: string
  ah_alias :: js
  ah_groupId :: "string option"

definition HostService_addHost :: "string \<Rightarrow> add_host_payload \<Rightarrow> server_groups \<Rightarrow> host_error + server_groups" where
  "HostService_addHost newUid info gs =
     (let alias = (case ah_alias info of Str a \<Rightarrow> trim a | _ \<Rightarrow> [])
      in if countAllHosts gs \<ge> 400 then Inl ExceedMaxHosts
         else if alias = [] then Inl (InvalidFormat ''alias'' ''MISSING_OR_BLANK_ALIAS'')
         else if length alias > MAX_HOST_ALIAS_LENGTH then Inl (InvalidFormat ''alias'' ''ALIAS_TOO_LONG'')
         else (case findDuplicateHost gs (ah_address info) (ah_port info) (ah_id info) None of
             Some d \<Rightarrow> Inl (DuplicatedHost (sh_uid d))
           | None \<Rightarrow>
               (case findDuplicateAlias gs alias None of
                  Some d \<Rightarrow> Inl (DuplicatedAlias (sh_uid d))
                | None \<Rightarrow>
                    (let newHost = \<lparr>sh_uid = newUid, sh_id = ah_id info, sh_token = None, sh_address = ah_address info,
                           sh_port = ah_port info, sh_password = ah_password info, sh_initialLogin = Some True,
                           sh_alias = alias, sh_dbProfiles = Obj [], sh_cmsTokenIssuedAt = None,
                           sh_cmsTokenActiveTimeSec = None\<rparr>;
                         groupId = str_or (ah_groupId info) []
                     in if groupId \<noteq> [] then
                          (if map_of gs groupId = None then Inl (InvalidFormat ''groupId'' ''GROUP_NOT_FOUND'')
                           else (case addHostToGroup groupId newHost gs of
                               Inl e \<Rightarrow> Inl (OtherError e) | Inr gs' \<Rightarrow> Inr gs'))
                        else (case addHostToGroup UNGROUPED_GROUP_ID newHost (ensureUngroupedGroup gs) of
                               Inl e \<Rightarrow> Inl (OtherError e) | Inr gs' \<Rightarrow> Inr gs')))))"

definition HostService_createHostGroup :: "string \<Rightarrow> int \<Rightarrow> string \<Rightarrow> server_groups \<Rightarrow> host_error + server_groups" where
  "HostService_createHostGroup newUid now name gs =
     (let trimmed = trim name
      in if trimmed = [] then Inl (InvalidFormat ''name'' ''BLANK_GROUP_NAME_NOT_ALLOWED'')
         else if \<not> isValidGroupNameStart trimmed then Inl (InvalidFormat ''name'' ''GROUP_NAME_INVALID_START'')
         else Inr (createEmptyGroup newUid now trimmed gs))"

definition HostService_updateHostGroup ::
  "string \<Rightarrow> string option \<Rightarrow> string option option \<Rightarrow> server_groups \<Rightarrow> host_error + server_groups" where
  "HostService_updateHostGroup groupId name defaultHostUid gs =
     (case updateGroup groupId name defaultHostUid gs of
        Inr (True, gs') \<Rightarrow> Inr gs'
      | Inr (False, _) \<Rightarrow> Inl (InvalidFormat ''groupId'' ''GROUP_NOT_FOUND'')
      | Inl code \<Rightarrow>
          if code = ''DEFAULT_HOST_NOT_IN_GROUP'' then Inl (InvalidFormat ''defaultHostUid'' code)
          else if code \<in> {''BLANK_GROUP_NAME_NOT_ALLOWED'', ''GROUP_NAME_INVALID_START'', ''CANNOT_RENAME_UNGROUPED''}
          then Inl (InvalidFormat ''name'' code) else Inl (OtherError code))"

definition HostService_deleteHostGroup :: "string \<Rightarrow> server_groups \<Rightarrow> host_error + server_groups" where
  "HostService_deleteHostGroup groupId gs =
     (if groupId = UNGROUPED_GROUP_ID then Inl (InvalidFormat ''groupId'' ''CANNOT_DELETE_UNGROUPED'')
      else Inr (snd (deleteGroup groupId gs)))"

record update_host_request =
  uh_alias :: "string option"
  uh_address :: "string option"
  uh_port :: "int option"
  uh_id :: "string option"
  uh_password :: "string option"
  uh_token :: "string option"
  uh_dbProfiles :: "js option"

definition nullish :: "'a option \<Rightarrow> 'a \<Rightarrow> 'a" where
  "nullish a b = (case a of Some x \<Rightarrow> x | None \<Rightarrow> b)"

definition proposed_alias :: "server_host \<Rightarrow> string option \<Rightarrow> host_error + string" where
  "proposed_alias existing alias =
     (case alias of
        None \<Rightarrow> Inr (sh_alias existing)
      | Some a \<Rightarrow>
          if trim a = [] then Inl (InvalidFormat ''alias'' ''BLANK_ALIAS_NOT_ALLOWED'')
          else if length (trim a) > MAX_HOST_ALIAS_LENGTH then Inl (InvalidFormat ''alias'' ''ALIAS_TOO_LONG'')
          else Inr (trim a))"

text \<open>Whether the connection stays the one the stored session belongs to.\<close>

definition same_target :: "server_host \<Rightarrow> update_host_request \<Rightarrow> bool" where
  "same_target existing rq \<longleftrightarrow>
     sh_address existing = nullish (uh_address rq) (sh_address existing)
     \<and> int_str (sh_port existing) = int_str (nullish (uh_port rq) (sh_port existing))
     \<and> sh_id existing = nullish (uh_id rq) (sh_id existing)
     \<and> sh_password existing = nullish (uh_password rq) (sh_password existing)"

definition updated_host :: "string \<Rightarrow> server_host \<Rightarrow> update_host_request \<Rightarrow> string \<Rightarrow> server_host" where
  "updated_host hostUid existing rq alias =
     \<lparr>sh_uid = hostUid, sh_id = nullish (uh_id rq) (sh_id existing),
      sh_token = (case uh_token rq of Some t \<Rightarrow> Some t | None \<Rightarrow> sh_token existing),
      sh_address = nullish (uh_address rq) (sh_address existing), sh_port = nullish (uh_port rq) (sh_port existing),
      sh_password = nullish (uh_password rq) (sh_password existing),
      sh_initialLogin = Some (nullish (sh_initialLogin existing) True), sh_alias = alias,
      sh_dbProfiles = nullish (uh_dbProfiles rq) (sh_dbProfiles existing),
      sh_cmsTokenIssuedAt = (if same_target existing rq then sh_cmsTokenIssuedAt existing else None),
      sh_cmsTokenActiveTimeSec = (if same_target existing rq then sh_cmsTokenActiveTimeSec existing else None)\<rparr>"

text \<open>Updating and deleting a host also drop what is known of its token.\<close>

definition updateHost ::
  "string \<Rightarrow> update_host_request \<Rightarrow> server_groups \<Rightarrow> token_log \<Rightarrow> host_error + server_groups \<times> token_log" where
  "updateHost hostUid rq gs log =
     (case findHostRef gs hostUid of
        None \<Rightarrow> Inl (NoSuchHost hostUid)
      | Some (groupId, g, existing) \<Rightarrow>
          res_bind (proposed_alias existing (uh_alias rq)) (\<lambda>alias.
            case findDuplicateHost gs (nullish (uh_address rq) (sh_address existing))
                   (nullish (uh_port rq) (sh_port existing)) (nullish (uh_id rq) (sh_id existing)) (Some hostUid) of
              Some d \<Rightarrow> Inl (DuplicatedHost (sh_uid d))
            | None \<Rightarrow>
                (case findDuplicateAlias gs alias (Some hostUid) of
                   Some d \<Rightarrow> Inl (DuplicatedAlias (sh_uid d))
                 | None \<Rightarrow>
                     Inr (obj_set groupId (g\<lparr>sg_hosts := obj_set hostUid (updated_host hostUid existing rq alias) (sg_hosts g)\<rparr>) gs,
                          if same_target existing rq then log
                          else forgetCmsToken (str_or (sh_token existing) []) log))))"

definition HostService_moveHost :: "string \<Rightarrow> string \<Rightarrow> server_groups \<Rightarrow> host_error + server_groups" where
  "HostService_moveHost hostUid targetGroupId gs =
     (case moveHostToGroup hostUid targetGroupId gs of
        (True, gs') \<Rightarrow> Inr gs'
      | (False, gs') \<Rightarrow>
          if findHostRef gs' hostUid = None then Inl (NoSuchHost hostUid)
          else Inl (InvalidFormat ''targetGroupId'' ''GROUP_NOT_FOUND''))"

definition HostService_deleteHost :: "string \<Rightarrow> server_groups \<Rightarrow> token_log \<Rightarrow> host_error + server_groups \<times> token_log" where
  "HostService_deleteHost hostUid gs log =
     (case removeHostFromUser hostUid gs of
        (False, _) \<Rightarrow> Inl (NoSuchHost hostUid)
      | (True, gs') \<Rightarrow>
          Inr (gs', forgetCmsToken (str_or (Option.bind (getHost gs hostUid) sh_token) []) log))"

definition findHostInternal :: "string \<Rightarrow> server_groups \<Rightarrow> host_error + server_host" where
  "findHostInternal hostUid gs =
     (case getHost gs hostUid of
        None \<Rightarrow> Inl (NoSuchHost hostUid)
      | Some h \<Rightarrow> Inr (h\<lparr>sh_initialLogin := Some (nullish (sh_initialLogin h) True)\<rparr>))"

definition HostService_markGroupHa :: "string \<Rightarrow> string option \<Rightarrow> server_groups \<Rightarrow> host_error + server_groups" where
  "HostService_markGroupHa hostUid groupName gs =
     (case findHostRef gs hostUid of
        None \<Rightarrow> Inl (NoSuchHost hostUid)
      | Some (groupId, g, h) \<Rightarrow>
          (case groupName of
             Some n \<Rightarrow> Inr (if trim n \<noteq> [] then obj_set groupId (g\<lparr>sg_name := trim n\<rparr>) gs else gs)
           | None \<Rightarrow> Inr gs))"

definition findHostMatchingPeer ::
  "server_groups \<Rightarrow> string option \<Rightarrow> string option \<Rightarrow> server_host option" where
  "findHostMatchingPeer gs ip hostname =
     (let nIp = lower (str_or ip []); nHost = lower (str_or hostname []);
          isLoopback = (\<lambda>a. a = ''localhost'' \<or> a = ''127.0.0.1'')
      in find (\<lambda>h. let hAddr = lower (sh_address h)
           in hAddr = nIp \<or> hAddr = nHost \<or> isLoopback hAddr \<and> (isLoopback nIp \<or> isLoopback nHost)) (all_hosts gs))"

end
