(* ===== verification/ServerHostFacts.thy ===== *)
theory ServerHostFacts
  imports ServerHosts
begin

text \<open>
  Properties of the API server's host tree (\<open>ServerHosts\<close>): the operations refine updates of a map
  from hosts to where they are, and no operation lets two hosts share a connection or a name.
\<close>

section \<open>Where a host is\<close>

definition located :: "server_groups \<Rightarrow> string \<Rightarrow> string \<Rightarrow> server_host \<Rightarrow> bool" where
  "located gs a u h \<longleftrightarrow> (\<exists>g. map_of gs a = Some g \<and> map_of (sg_hosts g) u = Some h)"

definition tree_wf :: "server_groups \<Rightarrow> bool" where
  "tree_wf gs \<longleftrightarrow> obj_wf gs \<and> (\<forall>(a, g) \<in> set gs. obj_wf (sg_hosts g))
     \<and> (\<forall>a u h. located gs a u h \<longrightarrow> sh_uid h = u)
     \<and> (\<forall>a b u h k. located gs a u h \<and> located gs b u k \<longrightarrow> a = b)"

lemma findHostRef_sound:
  "obj_wf gs \<Longrightarrow> findHostRef gs u = Some (a, g, h) \<Longrightarrow> map_of gs a = Some g \<and> map_of (sg_hosts g) u = Some h"
proof (induction gs)
  case (Cons p gs)
  obtain b k where p: "p = (b, k)" by force
  show ?case
  proof (cases "map_of (sg_hosts k) u")
    case None
    with Cons p have "map_of gs a = Some g \<and> map_of (sg_hosts g) u = Some h" by (simp add: obj_wf_def)
    moreover from this have "a \<in> fst ` set gs" by (force dest: map_of_SomeD)
    ultimately show ?thesis using Cons.prems(1) p by (auto simp: obj_wf_def)
  next
    case (Some h')
    with Cons.prems p show ?thesis by simp
  qed
qed simp

lemma findHostRef_None: "findHostRef gs u = None \<longleftrightarrow> (\<forall>(a, g) \<in> set gs. map_of (sg_hosts g) u = None)"
  by (induction gs u rule: findHostRef.induct) (auto split: option.split)

lemma located_entry: "obj_wf gs \<Longrightarrow> located gs a u h \<longleftrightarrow> (\<exists>g. (a, g) \<in> set gs \<and> map_of (sg_hosts g) u = Some h)"
  by (auto simp: located_def map_of_obj_wf)

lemma findHostRef_iff:
  assumes "tree_wf gs"
  shows "findHostRef gs u = Some (a, g, h) \<longleftrightarrow> map_of gs a = Some g \<and> map_of (sg_hosts g) u = Some h"
proof
  have wf: "obj_wf gs" using assms by (simp add: tree_wf_def)
  assume "findHostRef gs u = Some (a, g, h)"
  from findHostRef_sound [OF wf this] show "map_of gs a = Some g \<and> map_of (sg_hosts g) u = Some h" .
next
  assume l: "map_of gs a = Some g \<and> map_of (sg_hosts g) u = Some h"
  then have "findHostRef gs u \<noteq> None" using findHostRef_None [of gs u] by (force dest: map_of_SomeD)
  then obtain b k h' where r: "findHostRef gs u = Some (b, k, h')" by auto
  have "obj_wf gs" using assms by (simp add: tree_wf_def)
  from findHostRef_sound [OF this r] have l': "map_of gs b = Some k" "map_of (sg_hosts k) u = Some h'" by simp_all
  with l assms have "a = b" unfolding tree_wf_def located_def by blast
  with l l' r show "findHostRef gs u = Some (a, g, h)" by simp
qed

lemma set_all_hosts: "tree_wf gs \<Longrightarrow> h \<in> set (all_hosts gs) \<longleftrightarrow> (\<exists>a u. located gs a u h)"
proof -
  assume wf: "tree_wf gs"
  then have "obj_wf gs" by (simp add: tree_wf_def)
  have mem: "h \<in> snd ` set (sg_hosts g) \<longleftrightarrow> (\<exists>u. map_of (sg_hosts g) u = Some h)" if "(a, g) \<in> set gs" for a g
  proof -
    have "obj_wf (sg_hosts g)" using wf that by (auto simp: tree_wf_def)
    then show ?thesis by (force simp: map_of_obj_wf [symmetric])
  qed
  have "h \<in> set (all_hosts gs) \<longleftrightarrow> (\<exists>(a, g) \<in> set gs. h \<in> snd ` set (sg_hosts g))"
    by (force simp: all_hosts_def)
  also have "\<dots> \<longleftrightarrow> (\<exists>(a, g) \<in> set gs. \<exists>u. map_of (sg_hosts g) u = Some h)" using mem by fast
  also have "\<dots> \<longleftrightarrow> (\<exists>a u. located gs a u h)" using \<open>obj_wf gs\<close> by (fastforce simp: located_entry)
  finally show ?thesis .
qed

section \<open>Replacing one group\<close>

text \<open>A tree in which one group's hosts are replaced.\<close>

lemma located_set:
  "located (obj_set a g gs) b u h \<longleftrightarrow> (if b = a then map_of (sg_hosts g) u = Some h else located gs b u h)"
  by (auto simp: located_def map_of_obj_set)

lemma located_del: "located (obj_del a gs) b u h \<longleftrightarrow> b \<noteq> a \<and> located gs b u h"
  by (auto simp: located_def map_of_obj_del)

lemma located_ensure: "located (ensureUngroupedGroup gs) a u h \<longleftrightarrow> located gs a u h"
  by (auto simp: ensureUngroupedGroup_def located_set) (auto simp: located_def)

lemma hosts_put [simp]: "sg_hosts (put_host h u g) = obj_set u h (sg_hosts g)"
  by (simp add: put_host_def Let_def)

lemma hosts_drop [simp]: "sg_hosts (drop_host u g) = obj_del u (sg_hosts g)"
  by (simp add: drop_host_def Let_def)

lemma groups_set_wf:
  assumes "obj_wf gs" "\<forall>(a, g) \<in> set gs. obj_wf (sg_hosts g)" "obj_wf (sg_hosts g')"
  shows "obj_wf (obj_set a g' gs) \<and> (\<forall>(b, g) \<in> set (obj_set a g' gs). obj_wf (sg_hosts g))"
proof
  show wf: "obj_wf (obj_set a g' gs)" using assms(1) by (rule obj_wf_set)
  show "\<forall>(b, g) \<in> set (obj_set a g' gs). obj_wf (sg_hosts g)"
    using assms by (auto simp: map_of_obj_wf [OF wf] map_of_obj_set map_of_obj_wf [OF assms(1), symmetric] split: if_splits)
qed

section \<open>The invariant\<close>

text \<open>What the service guarantees of a stored tree: every host is in one group, under its own uid;
  no two hosts have one connection (address, port, user) or one name; a name is trimmed, not blank
  and at most 100 characters long; there are at most 400 hosts; a group's default is one of its hosts.\<close>

definition no_clash :: "server_groups \<Rightarrow> bool" where
  "no_clash gs \<longleftrightarrow> (\<forall>a u h b v k. located gs a u h \<and> located gs b v k \<and> u \<noteq> v \<longrightarrow>
     (sh_address h, sh_port h, sh_id h) \<noteq> (sh_address k, sh_port k, sh_id k) \<and> sh_alias h \<noteq> sh_alias k)"

definition named :: "server_groups \<Rightarrow> bool" where
  "named gs \<longleftrightarrow> (\<forall>a u h. located gs a u h \<longrightarrow>
     u \<noteq> [] \<and> sh_alias h \<noteq> [] \<and> trim (sh_alias h) = sh_alias h \<and> length (sh_alias h) \<le> MAX_HOST_ALIAS_LENGTH)"

definition default_ok :: "server_group \<Rightarrow> bool" where
  "default_ok g \<longleftrightarrow> no_default g \<or> (\<exists>u h. sg_defaultHostUid g = Some u \<and> map_of (sg_hosts g) u = Some h)"

definition server_inv :: "server_groups \<Rightarrow> bool" where
  "server_inv gs \<longleftrightarrow> tree_wf gs \<and> no_clash gs \<and> named gs \<and> countAllHosts gs \<le> 400
     \<and> (\<forall>(a, g) \<in> set gs. default_ok g)"

text \<open>A tree whose hosts are those of another one, perhaps in other groups.\<close>

lemma inv_of_located:
  assumes inv: "server_inv gs" and wf: "obj_wf gs'" "\<forall>(a, g) \<in> set gs'. obj_wf (sg_hosts g)"
    and f: "\<And>a u h. located gs' a u h \<Longrightarrow> \<exists>b. located gs b u h"
    and one: "\<And>a b u h k. located gs' a u h \<Longrightarrow> located gs' b u k \<Longrightarrow> a = b"
    and n: "countAllHosts gs' \<le> 400" and d: "\<forall>(a, g) \<in> set gs'. default_ok g"
  shows "server_inv gs'"
proof -
  have "tree_wf gs'"
    using inv wf f one unfolding server_inv_def tree_wf_def by meson
  moreover have "no_clash gs'"
    using inv f unfolding server_inv_def no_clash_def by meson
  moreover have "named gs'"
    using inv f unfolding server_inv_def named_def by blast
  ultimately show ?thesis using n d by (simp add: server_inv_def)
qed

text \<open>A tree in which one host is added, changed or moved.\<close>

lemma inv_of_placed:
  assumes inv: "server_inv gs" and wf: "obj_wf gs'" "\<forall>(a, g) \<in> set gs'. obj_wf (sg_hosts g)"
    and f: "\<And>b v k. located gs' b v k \<longleftrightarrow> (if v = u then b = a \<and> k = h else located gs b v k)"
    and h: "sh_uid h = u" "u \<noteq> []" "sh_alias h \<noteq> []" "trim (sh_alias h) = sh_alias h"
      "length (sh_alias h) \<le> MAX_HOST_ALIAS_LENGTH"
    and apart: "\<And>b v k. located gs b v k \<Longrightarrow> v \<noteq> u \<Longrightarrow>
      (sh_address k, sh_port k, sh_id k) \<noteq> (sh_address h, sh_port h, sh_id h) \<and> sh_alias k \<noteq> sh_alias h"
    and n: "countAllHosts gs' \<le> 400" and d: "\<forall>(a, g) \<in> set gs'. default_ok g"
  shows "server_inv gs'"
proof -
  have "tree_wf gs'"
    using inv wf f h(1) unfolding server_inv_def tree_wf_def by (auto split: if_splits) metis+
  moreover have "no_clash gs'"
    unfolding no_clash_def
  proof (intro allI impI)
    fix b v k c w l
    assume l: "located gs' b v k \<and> located gs' c w l \<and> v \<noteq> w"
    show "(sh_address k, sh_port k, sh_id k) \<noteq> (sh_address l, sh_port l, sh_id l) \<and> sh_alias k \<noteq> sh_alias l"
    proof (cases "v = u \<or> w = u")
      case True
      then show ?thesis using l f apart by metis
    next
      case False
      then have "located gs b v k" "located gs c w l" "v \<noteq> w" using l f by simp_all
      then show ?thesis using inv unfolding server_inv_def no_clash_def by blast
    qed
  qed
  moreover have "named gs'"
    using inv f h unfolding server_inv_def named_def by (auto split: if_splits)
  ultimately show ?thesis using n d by (simp add: server_inv_def)
qed

subsection \<open>Counting\<close>

lemma count_set:
  assumes "obj_wf gs" "map_of gs a = Some g"
  shows "countAllHosts (obj_set a g' gs) + length (sg_hosts g) = countAllHosts gs + length (sg_hosts g')"
  using assms
proof (induction gs)
  case (Cons p gs)
  obtain b k where p: "p = (b, k)" by force
  show ?case
  proof (cases "a = b")
    case True
    then show ?thesis using Cons.prems by (simp add: p countAllHosts_def)
  next
    case False
    with Cons show ?thesis by (simp add: p countAllHosts_def obj_wf_def)
  qed
qed simp

lemma count_set_new: "map_of gs a = None \<Longrightarrow> countAllHosts (obj_set a g gs) = countAllHosts gs + length (sg_hosts g)"
proof (induction gs)
  case (Cons p gs)
  then show ?case by (cases p) (auto simp: countAllHosts_def split: if_splits)
qed (simp add: countAllHosts_def)

lemma count_del: "countAllHosts (obj_del a gs) \<le> countAllHosts gs"
  by (induction gs) (auto simp: countAllHosts_def)

lemma length_obj_set:
  "obj_wf m \<Longrightarrow> length (obj_set k v m) = (if map_of m k = None then Suc (length m) else length m)"
  by (induction m) (auto simp: obj_wf_def)

lemma length_obj_del:
  "obj_wf m \<Longrightarrow> map_of m k \<noteq> None \<Longrightarrow> Suc (length (obj_del k m)) = length m"
proof (induction m)
  case (Cons p m)
  obtain j w where p: "p = (j, w)" by force
  show ?case
  proof (cases "j = k")
    case True
    then have "k \<notin> fst ` set m" using Cons.prems p by (auto simp: obj_wf_def)
    then have "obj_del k m = m" by (simp add: delete_id)
    with True show ?thesis by (simp add: p)
  next
    case False
    with Cons show ?thesis by (simp add: p obj_wf_def)
  qed
qed simp

lemma count_ensure: "countAllHosts (ensureUngroupedGroup gs) = countAllHosts gs"
  by (auto simp: ensureUngroupedGroup_def count_set_new)

lemma ensure_wf:
  "tree_wf gs \<Longrightarrow> tree_wf (ensureUngroupedGroup gs)"
proof -
  assume wf: "tree_wf gs"
  then have "obj_wf gs" "\<forall>(a, g) \<in> set gs. obj_wf (sg_hosts g)" by (auto simp: tree_wf_def)
  from groups_set_wf [OF this, of "\<lparr>sg_name = ''Ungrouped'', sg_createdAt = None, sg_hosts = [], sg_defaultHostUid = None\<rparr>" UNGROUPED_GROUP_ID]
  have "obj_wf (ensureUngroupedGroup gs) \<and> (\<forall>(a, g) \<in> set (ensureUngroupedGroup gs). obj_wf (sg_hosts g))"
    using wf by (auto simp: ensureUngroupedGroup_def tree_wf_def)
  with wf show ?thesis by (simp add: tree_wf_def located_ensure)
qed

text \<open>Replacing a group keeps what holds of every group.\<close>

lemma groups_set_all:
  "\<forall>(a, g) \<in> set gs. P g \<Longrightarrow> P g' \<Longrightarrow> \<forall>(a, g) \<in> set (obj_set a' g' gs). P g"
  by (induction gs) (auto split: if_splits)

lemma groups_del_all: "\<forall>(a, g) \<in> set gs. P g \<Longrightarrow> \<forall>(a, g) \<in> set (obj_del a' gs). P g"
  by (induction gs) (auto split: if_splits)

lemma default_empty [simp]: "default_ok \<lparr>sg_name = n, sg_createdAt = c, sg_hosts = m, sg_defaultHostUid = None\<rparr>"
  by (simp add: default_ok_def no_default_def)

lemma ensure_defaults:
  assumes d: "\<forall>(a, g) \<in> set gs. default_ok g"
  shows "\<forall>(a, g) \<in> set (ensureUngroupedGroup gs). default_ok g"
  using groups_set_all [OF d default_empty] d by (simp add: ensureUngroupedGroup_def)

lemma ensure_inv: "server_inv gs \<Longrightarrow> server_inv (ensureUngroupedGroup gs)"
  unfolding server_inv_def
  by (intro conjI ensure_defaults) (auto simp: ensure_wf count_ensure no_clash_def named_def located_ensure)

lemma default_put: "default_ok g \<Longrightarrow> default_ok (put_host h u g)"
  by (auto simp: default_ok_def no_default_def put_host_def Let_def map_of_obj_set)

lemma default_drop:
  assumes "default_ok g" "\<forall>(v, h) \<in> set (sg_hosts g). sh_uid h = v"
  shows "default_ok (drop_host u g)"
proof (cases "sg_defaultHostUid g = Some u")
  case True
  show ?thesis
  proof (cases "obj_del u (sg_hosts g)")
    case Nil
    then show ?thesis by (simp add: default_ok_def no_default_def drop_host_def Let_def True)
  next
    case (Cons p m)
    obtain v h where p: "p = (v, h)" by force
    then have "(v, h) \<in> set (obj_del u (sg_hosts g))" by (simp add: Cons)
    then have "(v, h) \<in> set (sg_hosts g)" by (auto simp: AList.delete_eq)
    then have "sh_uid h = v" using assms(2) by blast
    then show ?thesis by (simp add: default_ok_def drop_host_def Let_def True Cons p)
  qed
next
  case False
  with assms(1) show ?thesis
    by (auto simp: default_ok_def no_default_def drop_host_def Let_def map_of_obj_del)
qed

section \<open>The operations as updates of a map\<close>

lemma located_unique: "tree_wf gs \<Longrightarrow> located gs a u h \<Longrightarrow> located gs b u k \<Longrightarrow> a = b \<and> h = k"
  unfolding tree_wf_def by (auto simp: located_def) (metis option.inject)+

lemma ref_located: "tree_wf gs \<Longrightarrow> findHostRef gs u = Some (a, g, h) \<Longrightarrow> located gs a u h"
  by (auto simp: findHostRef_iff located_def)

lemma move_located:
  assumes wf: "tree_wf gs" and m: "moveHostToGroup u t gs = (True, gs')"
  obtains b h where "located gs b u h"
    and "\<And>a v k. located gs' a v k \<longleftrightarrow> (if v = u then a = t \<and> k = h else located gs a v k)"
proof -
  obtain b g h where r: "findHostRef gs u = Some (b, g, h)"
    using m by (auto simp: moveHostToGroup_def split: option.splits)
  note at = ref_located [OF wf r]
  show thesis
  proof (cases "b = t")
    case True
    then have "gs' = gs" using m r by (simp add: moveHostToGroup_def)
    with at True show thesis using that [OF at] located_unique [OF wf at] by metis
  next
    case False
    define gs1 where "gs1 = (if t = UNGROUPED_GROUP_ID then ensureUngroupedGroup gs else gs)"
    obtain target where t: "map_of gs1 t = Some target" and gs':
      "gs' = obj_set t (put_host h u target) (obj_set b (drop_host u g) gs1)"
      using m r False by (auto simp: moveHostToGroup_def gs1_def Let_def split: option.splits)
    have l1: "located gs1 a v k \<longleftrightarrow> located gs a v k" for a v k by (simp add: gs1_def located_ensure)
    have b1: "map_of gs b = Some g" using r wf by (simp add: findHostRef_iff)
    have "located gs' a v k \<longleftrightarrow> (if v = u then a = t \<and> k = h else located gs a v k)" for a v k
    proof -
      have "located gs' a v k \<longleftrightarrow>
          (if a = t then map_of (obj_set u h (sg_hosts target)) v = Some k
           else if a = b then map_of (obj_del u (sg_hosts g)) v = Some k else located gs a v k)"
        by (simp add: gs' located_set l1)
      moreover have "map_of (sg_hosts target) v = Some k \<longleftrightarrow> located gs t v k"
        unfolding l1 [symmetric] by (simp add: located_def t)
      moreover have "map_of (sg_hosts g) v = Some k \<longleftrightarrow> located gs b v k"
        by (simp add: located_def b1)
      moreover have "located gs a u k \<Longrightarrow> a = b" using located_unique [OF wf at] by blast
      ultimately show ?thesis by (auto simp: map_of_obj_set map_of_obj_del)
    qed
    with that [OF at] show thesis by blast
  qed
qed

lemma remove_located:
  assumes wf: "tree_wf gs" and m: "removeHostFromUser u gs = (True, gs')"
  shows "located gs' a v k \<longleftrightarrow> v \<noteq> u \<and> located gs a v k"
proof -
  obtain b g h where r: "findHostRef gs u = Some (b, g, h)" and gs': "gs' = obj_set b (drop_host u g) gs"
    using m by (auto simp: removeHostFromUser_def split: option.splits)
  have b: "map_of gs b = Some g" using r wf by (simp add: findHostRef_iff)
  have "located gs a u k \<Longrightarrow> a = b" using located_unique [OF wf ref_located [OF wf r]] by blast
  then show ?thesis using b by (auto simp: gs' located_set map_of_obj_del) (auto simp: located_def)
qed

lemma add_located:
  assumes "addHostToGroup a h gs = Inr gs'" "\<And>b k. \<not> located gs b (sh_uid h) k"
  shows "located gs' b v k \<longleftrightarrow> (if v = sh_uid h then b = a \<and> k = h else located gs b v k)"
proof -
  obtain g where g: "map_of gs a = Some g" "gs' = obj_set a (put_host h (sh_uid h) g) gs"
    using assms(1) by (auto simp: addHostToGroup_def split: option.splits)
  then show ?thesis using assms(2)
    by (auto simp: located_set map_of_obj_set) (auto simp: located_def)
qed

lemma update_located:
  assumes wf: "tree_wf gs" and r: "findHostRef gs u = Some (a, g, h)"
  shows "located (obj_set a (g\<lparr>sg_hosts := obj_set u h' (sg_hosts g)\<rparr>) gs) b v k \<longleftrightarrow>
    (if v = u then b = a \<and> k = h' else located gs b v k)"
proof -
  have g: "map_of gs a = Some g" using r wf by (simp add: findHostRef_iff)
  have "located gs b u k \<Longrightarrow> b = a" using located_unique [OF wf ref_located [OF wf r]] by blast
  with g show ?thesis by (auto simp: located_set map_of_obj_set) (auto simp: located_def)
qed

section \<open>Every operation keeps the invariant\<close>

lemma inv_parts:
  assumes "server_inv gs"
  shows "tree_wf gs" "obj_wf gs" "\<forall>(a, g) \<in> set gs. obj_wf (sg_hosts g)" "\<forall>(a, g) \<in> set gs. default_ok g"
    "countAllHosts gs \<le> 400"
  using assms by (auto simp: server_inv_def tree_wf_def)

lemma group_parts:
  assumes inv: "server_inv gs" and g: "map_of gs a = Some g"
  shows "obj_wf (sg_hosts g)" "default_ok g" "\<forall>(v, h) \<in> set (sg_hosts g). sh_uid h = v"
proof -
  have m: "(a, g) \<in> set gs" using g by (rule map_of_SomeD)
  show wf: "obj_wf (sg_hosts g)" "default_ok g" using inv_parts [OF inv] m by blast+
  show "\<forall>(v, h) \<in> set (sg_hosts g). sh_uid h = v"
  proof clarify
    fix v h
    assume "(v, h) \<in> set (sg_hosts g)"
    then have "located gs a v h" using g by (simp add: map_of_obj_wf [OF wf(1)] located_def)
    then show "sh_uid h = v" using inv_parts(1) [OF inv] unfolding tree_wf_def by blast
  qed
qed

lemma no_duplicate_host:
  "tree_wf gs \<Longrightarrow> findDuplicateHost gs address port i e = None \<Longrightarrow> located gs b v k \<Longrightarrow> \<not> excluded e k
    \<Longrightarrow> (sh_address k, sh_port k, sh_id k) \<noteq> (address, port, i)"
  using set_all_hosts [of gs k] by (auto simp: findDuplicateHost_def find_None_iff)

lemma no_duplicate_alias:
  assumes inv: "server_inv gs" and n: "findDuplicateAlias gs al e = None" and l: "located gs b v k"
    and al: "trim al = al" "al \<noteq> []" and e: "\<not> excluded e k"
  shows "sh_alias k \<noteq> al"
proof -
  have "k \<in> set (all_hosts gs)" using set_all_hosts inv_parts(1) [OF inv] l by blast
  then have "\<not> hasSameDefinedAlias (sh_alias k) al" using n e by (auto simp: findDuplicateAlias_def find_None_iff)
  then show ?thesis using al by (auto simp: hasSameDefinedAlias_def)
qed

lemma add_inv:
  assumes inv: "server_inv gs" and add: "addHostToGroup a h gs = Inr gs'"
    and new: "\<And>b k. \<not> located gs b (sh_uid h) k" and n: "countAllHosts gs < 400"
    and h: "sh_uid h \<noteq> []" "sh_alias h \<noteq> []" "trim (sh_alias h) = sh_alias h" "length (sh_alias h) \<le> MAX_HOST_ALIAS_LENGTH"
    and conn_free: "findDuplicateHost gs (sh_address h) (sh_port h) (sh_id h) None = None"
    and name_free: "findDuplicateAlias gs (sh_alias h) None = None"
  shows "server_inv gs'"
proof -
  note parts = inv_parts [OF inv]
  obtain g where g: "map_of gs a = Some g" "gs' = obj_set a (put_host h (sh_uid h) g) gs"
    using add by (auto simp: addHostToGroup_def split: option.splits)
  note gp = group_parts [OF inv g(1)]
  have m: "map_of (sg_hosts g) (sh_uid h) = None"
    using new [of a] g(1) by (cases "map_of (sg_hosts g) (sh_uid h)") (auto simp: located_def)
  show ?thesis
  proof (rule inv_of_placed [OF inv])
    show "obj_wf gs'" "\<forall>(a, g) \<in> set gs'. obj_wf (sg_hosts g)"
      using groups_set_wf [OF parts(2,3), of "put_host h (sh_uid h) g" a] gp(1) by (simp_all add: g(2) obj_wf_set)
    show "located gs' b v k \<longleftrightarrow> (if v = sh_uid h then b = a \<and> k = h else located gs b v k)" for b v k
      using add_located [OF add new] .
    show "countAllHosts gs' \<le> 400"
      using count_set [OF parts(2) g(1), of "put_host h (sh_uid h) g"] n length_obj_set [OF gp(1), of "sh_uid h" h] m
      by (simp add: g(2))
    show "\<forall>(a, g) \<in> set gs'. default_ok g"
      unfolding g(2) by (rule groups_set_all [OF parts(4) default_put [OF gp(2)]])
    show "(sh_address k, sh_port k, sh_id k) \<noteq> (sh_address h, sh_port h, sh_id h) \<and> sh_alias k \<noteq> sh_alias h"
      if "located gs b v k" "v \<noteq> sh_uid h" for b v k
      using no_duplicate_host [OF parts(1) conn_free that(1)] no_duplicate_alias [OF inv name_free that(1) h(3,2)]
      by (simp add: excluded_def)
  qed (use h in simp_all)
qed

lemma move_inv:
  assumes inv: "server_inv gs" and mv: "moveHostToGroup u t gs = (True, gs')"
  shows "server_inv gs'"
proof -
  obtain b g h where r: "findHostRef gs u = Some (b, g, h)"
    using mv by (auto simp: moveHostToGroup_def split: option.splits)
  show ?thesis
  proof (cases "b = t")
    case True
    with mv r inv show ?thesis by (simp add: moveHostToGroup_def)
  next
    case False
    define gs1 where "gs1 = (if t = UNGROUPED_GROUP_ID then ensureUngroupedGroup gs else gs)"
    have inv1: "server_inv gs1" using inv ensure_inv by (simp add: gs1_def)
    note parts = inv_parts [OF inv1]
    obtain target where t: "map_of gs1 t = Some target" and gs':
      "gs' = obj_set t (put_host h u target) (obj_set b (drop_host u g) gs1)"
      using mv r False by (auto simp: moveHostToGroup_def gs1_def Let_def split: option.splits)
    have gb: "map_of gs b = Some g" "map_of (sg_hosts g) u = Some h"
      using r findHostRef_iff [OF inv_parts(1) [OF inv]] by simp_all
    have g: "map_of gs1 b = Some g"
      using gb(1) by (auto simp: gs1_def ensureUngroupedGroup_def map_of_obj_set)
    define gs2 where "gs2 = obj_set b (drop_host u g) gs1"
    have wf2: "obj_wf gs2" "\<forall>(a, g) \<in> set gs2. obj_wf (sg_hosts g)"
      using groups_set_wf [OF parts(2,3), of "drop_host u g" b] group_parts(1) [OF inv1 g] by (simp_all add: gs2_def obj_wf_del)
    have t2: "map_of gs2 t = Some target" using t False by (simp add: gs2_def map_of_obj_set)
    have one: "located gs1 a v k \<Longrightarrow> located gs1 c v l \<Longrightarrow> a = c \<and> k = l" for a c v k l
      using located_unique [OF parts(1)] .
    have at: "located gs1 b u h" using g gb(2) by (simp add: located_def)
    have m: "map_of (sg_hosts target) u = None"
      using one [OF at, of t] t False by (cases "map_of (sg_hosts target) u") (auto simp: located_def)
    have n2: "Suc (countAllHosts gs2) = countAllHosts gs1"
      using count_set [OF parts(2) g, of "drop_host u g"] length_obj_del [OF group_parts(1) [OF inv1 g], of u] gb(2)
      by (simp add: gs2_def)
    have n: "countAllHosts gs' = Suc (countAllHosts gs2)"
      using count_set [OF wf2(1) t2, of "put_host h u target"] length_obj_set [OF group_parts(1) [OF inv1 t], of u h] m
      by (simp add: gs' gs2_def)
    have d2: "\<forall>(a, g) \<in> set gs2. default_ok g"
      unfolding gs2_def by (rule groups_set_all [OF parts(4) default_drop [OF group_parts(2,3) [OF inv1 g]]])
    obtain c h' where l: "located gs c u h'"
      "\<And>a v k. located gs' a v k \<longleftrightarrow> (if v = u then a = t \<and> k = h' else located gs a v k)"
      using move_located [OF inv_parts(1) [OF inv] mv] by metis
    show ?thesis
    proof (rule inv_of_located [OF inv])
      show "obj_wf gs'" "\<forall>(a, g) \<in> set gs'. obj_wf (sg_hosts g)"
        using groups_set_wf [OF wf2, of "put_host h u target" t] group_parts(1) [OF inv1 t]
        by (simp_all add: gs' gs2_def obj_wf_set)
      show "\<exists>b. located gs b v k" if "located gs' a v k" for a v k
        using that l(1) unfolding l(2) by (auto split: if_splits)
      show "a = d" if "located gs' a v k" "located gs' d v m" for a d v k m
        using that located_unique [OF inv_parts(1) [OF inv]] unfolding l(2) by (auto split: if_splits)
      show "countAllHosts gs' \<le> 400" using n n2 parts(5) by simp
      show "\<forall>(a, g) \<in> set gs'. default_ok g"
        unfolding gs' gs2_def [symmetric] by (rule groups_set_all [OF d2 default_put [OF group_parts(2) [OF inv1 t]]])
    qed
  qed
qed

lemma remove_inv:
  assumes inv: "server_inv gs" and rm: "removeHostFromUser u gs = (True, gs')"
  shows "server_inv gs'"
proof -
  note parts = inv_parts [OF inv]
  obtain b g h where r: "findHostRef gs u = Some (b, g, h)" and gs': "gs' = obj_set b (drop_host u g) gs"
    using rm by (auto simp: removeHostFromUser_def split: option.splits)
  have g: "map_of gs b = Some g" "map_of (sg_hosts g) u = Some h"
    using r findHostRef_iff [OF parts(1)] by simp_all
  note gp = group_parts [OF inv g(1)]
  show ?thesis
  proof (rule inv_of_located [OF inv])
    show "obj_wf gs'" "\<forall>(a, g) \<in> set gs'. obj_wf (sg_hosts g)"
      using groups_set_wf [OF parts(2,3), of "drop_host u g" b] gp(1) by (simp_all add: gs' obj_wf_del)
    show "\<exists>b. located gs b v k" if "located gs' a v k" for a v k
      using that remove_located [OF parts(1) rm, of a v k] by blast
    show "a = d" if "located gs' a v k" "located gs' d v m" for a d v k m
      using that remove_located [OF parts(1) rm, of a v k] remove_located [OF parts(1) rm, of d v m]
        located_unique [OF parts(1), of a v k d m] by simp
    show "countAllHosts gs' \<le> 400"
      using count_set [OF parts(2) g(1), of "drop_host u g"] length_obj_del [OF gp(1), of u] g(2) parts(5)
      by (simp add: gs')
    show "\<forall>(a, g) \<in> set gs'. default_ok g"
      unfolding gs' by (rule groups_set_all [OF parts(4) default_drop [OF gp(2,3)]])
  qed
qed

text \<open>A group replaced by one with the same hosts.\<close>

lemma regroup_located:
  "map_of gs a = Some g \<Longrightarrow> sg_hosts g' = sg_hosts g \<Longrightarrow> located (obj_set a g' gs) b u h \<longleftrightarrow> located gs b u h"
  unfolding located_set by (simp add: located_def)

lemma regroup_inv:
  assumes inv: "server_inv gs" and g: "map_of gs a = Some g" and h: "sg_hosts g' = sg_hosts g" and d: "default_ok g'"
  shows "server_inv (obj_set a g' gs)"
proof -
  note parts = inv_parts [OF inv]
  show ?thesis
  proof (rule inv_of_located [OF inv])
    show "obj_wf (obj_set a g' gs)" "\<forall>(b, g) \<in> set (obj_set a g' gs). obj_wf (sg_hosts g)"
      using groups_set_wf [OF parts(2,3), of g' a] group_parts(1) [OF inv g] h by (simp_all add: obj_wf_set)
    show "\<exists>b. located gs b v k" if "located (obj_set a g' gs) c v k" for c v k
      using that regroup_located [OF g h, of c v k] by blast
    show "b = c" if "located (obj_set a g' gs) b v k" "located (obj_set a g' gs) c v l" for b c v k l
      using that regroup_located [OF g h, of b v k] regroup_located [OF g h, of c v l]
        located_unique [OF parts(1), of b v k c l] by simp
    show "countAllHosts (obj_set a g' gs) \<le> 400" using count_set [OF parts(2) g, of g'] h parts(5) by simp
    show "\<forall>(b, g) \<in> set (obj_set a g' gs). default_ok g" by (rule groups_set_all [OF parts(4) d])
  qed
qed

lemma update_group:
  assumes inv: "server_inv gs" and up: "updateGroup a n d gs = Inr (True, gs')"
  obtains g g' where "map_of gs a = Some g" "gs' = obj_set a g' gs" "sg_hosts g' = sg_hosts g" "default_ok g'"
proof -
  obtain g g1 g2 where g: "map_of gs a = Some g" "patch_name a n g = Inr g1" "patch_default d g1 = Inr g2"
      "gs' = obj_set a g2 gs"
    using up by (auto simp: updateGroup_def res_bind_eq_Inr split: option.splits)
  have g1: "sg_hosts g1 = sg_hosts g" "sg_defaultHostUid g1 = sg_defaultHostUid g"
    using g(2) by (auto simp: patch_name_def split: option.splits if_splits)
  have ok1: "default_ok g1" using group_parts(2) [OF inv g(1)] g1 by (simp add: default_ok_def no_default_def)
  have g2: "default_ok g2 \<and> sg_hosts g2 = sg_hosts g1"
  proof (cases d)
    case None
    with g(3) ok1 show ?thesis by (simp add: patch_default_def)
  next
    case (Some d')
    then have e: "g2 = g1\<lparr>sg_defaultHostUid := d'\<rparr>"
      and m: "\<And>u. d' = Some u \<Longrightarrow> u = [] \<or> map_of (sg_hosts g1) u \<noteq> None"
      using g(3) by (auto simp: patch_default_def split: if_splits)
    show ?thesis using m by (cases d') (auto simp: e default_ok_def no_default_def)
  qed
  show thesis using that [OF g(1,4)] g2 g1(1) by simp
qed

lemma update_inv:
  assumes inv: "server_inv gs" and r: "findHostRef gs u = Some (a, g, h)"
    and h': "sh_uid h' = u" "sh_alias h' \<noteq> []" "trim (sh_alias h') = sh_alias h'"
      "length (sh_alias h') \<le> MAX_HOST_ALIAS_LENGTH"
    and conn_free: "findDuplicateHost gs (sh_address h') (sh_port h') (sh_id h') (Some u) = None"
    and name_free: "findDuplicateAlias gs (sh_alias h') (Some u) = None"
  shows "server_inv (obj_set a (g\<lparr>sg_hosts := obj_set u h' (sg_hosts g)\<rparr>) gs)"
proof -
  note parts = inv_parts [OF inv]
  have g: "map_of gs a = Some g" "map_of (sg_hosts g) u = Some h"
    using r findHostRef_iff [OF parts(1)] by simp_all
  note gp = group_parts [OF inv g(1)]
  let ?g = "g\<lparr>sg_hosts := obj_set u h' (sg_hosts g)\<rparr>" and ?gs = "obj_set a (g\<lparr>sg_hosts := obj_set u h' (sg_hosts g)\<rparr>) gs"
  have uid: "located gs b v k \<Longrightarrow> sh_uid k = v" for b v k using parts(1) unfolding tree_wf_def by blast
  have "located gs a u h" using g by (simp add: located_def)
  then have u: "u \<noteq> []" using inv unfolding server_inv_def named_def by blast
  show ?thesis
  proof (rule inv_of_placed [OF inv])
    show "obj_wf ?gs" "\<forall>(b, g) \<in> set ?gs. obj_wf (sg_hosts g)"
      using groups_set_wf [OF parts(2,3), of ?g a] gp(1) by (simp_all add: obj_wf_set)
    show "located ?gs b v k \<longleftrightarrow> (if v = u then b = a \<and> k = h' else located gs b v k)" for b v k
      by (rule update_located [OF parts(1) r])
    show "countAllHosts ?gs \<le> 400"
      using count_set [OF parts(2) g(1), of ?g] length_obj_set [OF gp(1), of u h'] g(2) parts(5) by simp
    show "\<forall>(b, g) \<in> set ?gs. default_ok g"
      by (rule groups_set_all [OF parts(4)]) (use gp(2) in \<open>auto simp: default_ok_def no_default_def map_of_obj_set\<close>)
    show "(sh_address k, sh_port k, sh_id k) \<noteq> (sh_address h', sh_port h', sh_id h') \<and> sh_alias k \<noteq> sh_alias h'"
      if "located gs b v k" "v \<noteq> u" for b v k
    proof -
      have "\<not> excluded (Some u) k" using uid [OF that(1)] that(2) by (simp add: excluded_def)
      then show ?thesis
        using no_duplicate_host [OF parts(1) conn_free that(1)] no_duplicate_alias [OF inv name_free that(1) h'(3,2)] by simp
    qed
  qed (use h' u in simp_all)
qed

section \<open>The operations the client can ask for\<close>

datatype server_op =
    AddHost string add_host_payload
  | CreateGroup string int string
  | UpdateGroup string "string option" "string option option"
  | DeleteGroup string
  | UpdateHost string update_host_request
  | MoveHost string string
  | DeleteHost string
  | MarkHa string "string option"

text \<open>A request that is refused changes nothing: \<open>atomicUpdateUser\<close> stores what the update returns.\<close>

fun server_step :: "server_op \<Rightarrow> server_groups \<times> token_log \<Rightarrow> host_error + server_groups \<times> token_log" where
  "server_step (AddHost uid p) (gs, log) = map_sum id (\<lambda>gs. (gs, log)) (HostService_addHost uid p gs)"
| "server_step (CreateGroup gid now n) (gs, log) = map_sum id (\<lambda>gs. (gs, log)) (HostService_createHostGroup gid now n gs)"
| "server_step (UpdateGroup gid n d) (gs, log) = map_sum id (\<lambda>gs. (gs, log)) (HostService_updateHostGroup gid n d gs)"
| "server_step (DeleteGroup gid) (gs, log) = map_sum id (\<lambda>gs. (gs, log)) (HostService_deleteHostGroup gid gs)"
| "server_step (UpdateHost u rq) (gs, log) = updateHost u rq gs log"
| "server_step (MoveHost u t) (gs, log) = map_sum id (\<lambda>gs. (gs, log)) (HostService_moveHost u t gs)"
| "server_step (DeleteHost u) (gs, log) = HostService_deleteHost u gs log"
| "server_step (MarkHa u n) (gs, log) = map_sum id (\<lambda>gs. (gs, log)) (HostService_markGroupHa u n gs)"

text \<open>\<open>uuidv4\<close> gives an id no host or group has.\<close>

definition fresh_id :: "server_op \<Rightarrow> server_groups \<Rightarrow> bool" where
  "fresh_id op gs \<longleftrightarrow> (case op of
       AddHost uid _ \<Rightarrow> uid \<noteq> [] \<and> findHostRef gs uid = None
     | CreateGroup gid _ _ \<Rightarrow> map_of gs gid = None
     | _ \<Rightarrow> True)"

lemma map_sum_Inr: "map_sum id f r = Inr y \<longleftrightarrow> (\<exists>x. r = Inr x \<and> y = f x)"
  by (cases r) auto

lemma not_located:
  assumes "tree_wf gs" "findHostRef gs u = None"
  shows "\<not> located gs a u h"
proof
  assume "located gs a u h"
  then obtain g where "map_of gs a = Some g" "map_of (sg_hosts g) u = Some h" by (auto simp: located_def)
  then have "findHostRef gs u = Some (a, g, h)" using findHostRef_iff [OF assms(1)] by simp
  with assms(2) show False by simp
qed

definition new_host :: "string \<Rightarrow> add_host_payload \<Rightarrow> server_host" where
  "new_host newUid info = \<lparr>sh_uid = newUid, sh_id = ah_id info, sh_token = None, sh_address = ah_address info,
     sh_port = ah_port info, sh_password = ah_password info, sh_initialLogin = Some True,
     sh_alias = (case ah_alias info of Str a \<Rightarrow> trim a | _ \<Rightarrow> []), sh_dbProfiles = Obj [], sh_cmsTokenIssuedAt = None,
     sh_cmsTokenActiveTimeSec = None\<rparr>"

lemma addHost_cases:
  assumes "HostService_addHost uid p gs = Inr gs'"
  obtains gs1 where "gs1 = gs \<or> gs1 = ensureUngroupedGroup gs" "countAllHosts gs < 400"
    "addHostToGroup (str_or (ah_groupId p) UNGROUPED_GROUP_ID) (new_host uid p) gs1 = Inr gs'"
    "sh_alias (new_host uid p) \<noteq> []" "trim (sh_alias (new_host uid p)) = sh_alias (new_host uid p)"
    "length (sh_alias (new_host uid p)) \<le> MAX_HOST_ALIAS_LENGTH"
    "findDuplicateHost gs (ah_address p) (ah_port p) (ah_id p) None = None"
    "findDuplicateAlias gs (sh_alias (new_host uid p)) None = None"
proof -
  let ?h = "new_host uid p" and ?g = "str_or (ah_groupId p) []"
  have al: "(case ah_alias p of Str a \<Rightarrow> trim a | _ \<Rightarrow> []) = sh_alias ?h" by (simp add: new_host_def)
  have f: "countAllHosts gs < 400" "sh_alias ?h \<noteq> []" "length (sh_alias ?h) \<le> MAX_HOST_ALIAS_LENGTH"
    "findDuplicateHost gs (ah_address p) (ah_port p) (ah_id p) None = None"
    "findDuplicateAlias gs (sh_alias ?h) None = None"
    using assms unfolding HostService_addHost_def Let_def al by (auto split: if_splits option.splits)
  have tr: "trim (sh_alias ?h) = sh_alias ?h" by (simp add: new_host_def split: js.split)
  have h: "\<lparr>sh_uid = uid, sh_id = ah_id p, sh_token = None, sh_address = ah_address p, sh_port = ah_port p,
      sh_password = ah_password p, sh_initialLogin = Some True, sh_alias = sh_alias ?h, sh_dbProfiles = Obj [],
      sh_cmsTokenIssuedAt = None, sh_cmsTokenActiveTimeSec = None\<rparr> = ?h"
    by (simp add: new_host_def)
  show thesis
  proof (cases "?g = []")
    case True
    then have g: "str_or (ah_groupId p) UNGROUPED_GROUP_ID = UNGROUPED_GROUP_ID"
      by (auto simp: str_or_def split: option.splits if_splits)
    have "addHostToGroup UNGROUPED_GROUP_ID ?h (ensureUngroupedGroup gs) = Inr gs'"
      using assms f True unfolding HostService_addHost_def Let_def al h by (auto split: sum.splits)
    with f tr g show thesis by (intro that) simp_all
  next
    case False
    then have g: "str_or (ah_groupId p) UNGROUPED_GROUP_ID = ?g"
      by (auto simp: str_or_def split: option.splits if_splits)
    have "addHostToGroup ?g ?h gs = Inr gs'"
      using assms f False unfolding HostService_addHost_def Let_def al h by (auto split: sum.splits if_splits)
    with f tr g show thesis by (intro that [of gs]) simp_all
  qed
qed

lemma obj_set_new: "map_of gs a = None \<Longrightarrow> obj_set a g gs = gs @ [(a, g)]"
  by (induction gs) (auto split: if_splits)

lemma all_hosts_ensure: "all_hosts (ensureUngroupedGroup gs) = all_hosts gs"
  by (simp add: ensureUngroupedGroup_def obj_set_new all_hosts_def)

lemma addHost_inv:
  assumes inv: "server_inv gs" and add: "HostService_addHost uid p gs = Inr gs'" and u: "uid \<noteq> []" "findHostRef gs uid = None"
  shows "server_inv gs'"
proof -
  obtain gs1 where gs1: "gs1 = gs \<or> gs1 = ensureUngroupedGroup gs"
    and n: "countAllHosts gs < 400"
    and a: "addHostToGroup (str_or (ah_groupId p) UNGROUPED_GROUP_ID) (new_host uid p) gs1 = Inr gs'"
    and al: "sh_alias (new_host uid p) \<noteq> []" "trim (sh_alias (new_host uid p)) = sh_alias (new_host uid p)"
      "length (sh_alias (new_host uid p)) \<le> MAX_HOST_ALIAS_LENGTH"
    and conn: "findDuplicateHost gs (ah_address p) (ah_port p) (ah_id p) None = None"
    and name: "findDuplicateAlias gs (sh_alias (new_host uid p)) None = None"
    using add by (rule addHost_cases)
  have hosts: "all_hosts gs1 = all_hosts gs" using gs1 all_hosts_ensure by auto
  have h: "sh_uid (new_host uid p) = uid" by (simp add: new_host_def)
  have new: "\<not> located gs1 b uid k" for b k
    using gs1 not_located [OF inv_parts(1) [OF inv] u(2)] by (auto simp: located_ensure)
  show ?thesis
  proof (rule add_inv [OF _ a])
    show "server_inv gs1" using gs1 inv ensure_inv by blast
    show "countAllHosts gs1 < 400" using gs1 n count_ensure by auto
    show "findDuplicateHost gs1 (sh_address (new_host uid p)) (sh_port (new_host uid p)) (sh_id (new_host uid p)) None = None"
      using conn by (simp add: findDuplicateHost_def hosts new_host_def)
    show "findDuplicateAlias gs1 (sh_alias (new_host uid p)) None = None"
      using name by (simp add: findDuplicateAlias_def hosts)
  qed (use al u new h in simp_all)
qed

lemma updateHost_cases:
  assumes "updateHost u rq gs log = Inr (gs', log')"
  obtains a g h al where "findHostRef gs u = Some (a, g, h)" "proposed_alias h (uh_alias rq) = Inr al"
    "gs' = obj_set a (g\<lparr>sg_hosts := obj_set u (updated_host u h rq al) (sg_hosts g)\<rparr>) gs"
    "findDuplicateHost gs (sh_address (updated_host u h rq al)) (sh_port (updated_host u h rq al))
       (sh_id (updated_host u h rq al)) (Some u) = None"
    "findDuplicateAlias gs al (Some u) = None"
  using assms unfolding updateHost_def
  by (auto simp: res_bind_eq_Inr updated_host_def split: option.splits)

lemma alias_ok:
  assumes "proposed_alias h al = Inr al'"
    "sh_alias h \<noteq> []" "trim (sh_alias h) = sh_alias h" "length (sh_alias h) \<le> MAX_HOST_ALIAS_LENGTH"
  shows "al' \<noteq> []" "trim al' = al'" "length al' \<le> MAX_HOST_ALIAS_LENGTH"
  using assms by (auto simp: proposed_alias_def split: option.splits if_splits)

lemma updateHost_inv:
  assumes inv: "server_inv gs" and up: "updateHost u rq gs log = Inr (gs', log')"
  shows "server_inv gs'"
proof -
  obtain a g h al where r: "findHostRef gs u = Some (a, g, h)" and al: "proposed_alias h (uh_alias rq) = Inr al"
    and gs': "gs' = obj_set a (g\<lparr>sg_hosts := obj_set u (updated_host u h rq al) (sg_hosts g)\<rparr>) gs"
    and free: "findDuplicateHost gs (sh_address (updated_host u h rq al)) (sh_port (updated_host u h rq al))
       (sh_id (updated_host u h rq al)) (Some u) = None" "findDuplicateAlias gs al (Some u) = None"
    using up by (rule updateHost_cases)
  have "located gs a u h" using ref_located [OF inv_parts(1) [OF inv] r] .
  then have nm: "sh_alias h \<noteq> []" "trim (sh_alias h) = sh_alias h" "length (sh_alias h) \<le> MAX_HOST_ALIAS_LENGTH"
    using inv unfolding server_inv_def named_def by blast+
  have upd: "sh_uid (updated_host u h rq al) = u" "sh_alias (updated_host u h rq al) = al"
    by (simp_all add: updated_host_def)
  show ?thesis
    unfolding gs' by (rule update_inv [OF inv r]) (use free alias_ok [OF al nm] upd in simp_all)
qed

lemma createGroup_inv:
  assumes inv: "server_inv gs" and new: "map_of gs gid = None"
  shows "server_inv (createEmptyGroup gid now n gs)" "located (createEmptyGroup gid now n gs) a u h \<longleftrightarrow> located gs a u h"
proof -
  note parts = inv_parts [OF inv]
  let ?g = "\<lparr>sg_name = str_or (Some (trim n)) ''Group'', sg_createdAt = Some now, sg_hosts = [], sg_defaultHostUid = None\<rparr>"
  have loc: "located (obj_set gid ?g gs) b v k \<longleftrightarrow> located gs b v k" for b v k
    unfolding located_set using new by (auto simp: located_def)
  then show "located (createEmptyGroup gid now n gs) a u h \<longleftrightarrow> located gs a u h" by (simp add: createEmptyGroup_def)
  show "server_inv (createEmptyGroup gid now n gs)"
    unfolding createEmptyGroup_def
  proof (rule inv_of_located [OF inv])
    show "obj_wf (obj_set gid ?g gs)" "\<forall>(b, g) \<in> set (obj_set gid ?g gs). obj_wf (sg_hosts g)"
      using groups_set_wf [OF parts(2,3), of ?g gid] by (simp_all add: obj_wf_set)
    show "countAllHosts (obj_set gid ?g gs) \<le> 400" using count_set_new [OF new, of ?g] parts(5) by simp
    show "\<forall>(b, g) \<in> set (obj_set gid ?g gs). default_ok g"
      by (rule groups_set_all [OF parts(4)]) simp
  qed (use loc located_unique [OF parts(1)] in \<open>auto simp: loc\<close>)
qed

lemma deleteGroup_inv:
  assumes inv: "server_inv gs" shows "server_inv (obj_del a gs)"
proof -
  note parts = inv_parts [OF inv]
  show ?thesis
  proof (rule inv_of_located [OF inv])
    show "obj_wf (obj_del a gs)" using parts(2) by (rule obj_wf_del)
    show "\<forall>(b, g) \<in> set (obj_del a gs). obj_wf (sg_hosts g)" by (rule groups_del_all [OF parts(3)])
    show "countAllHosts (obj_del a gs) \<le> 400" using count_del [of a gs] parts(5) by simp
    show "\<forall>(b, g) \<in> set (obj_del a gs). default_ok g" by (rule groups_del_all [OF parts(4)])
    show "\<exists>b. located gs b v k" if "located (obj_del a gs) c v k" for c v k using that unfolding located_del by blast
    show "b = c" if "located (obj_del a gs) b v k" "located (obj_del a gs) c v l" for b c v k l
      using that located_unique [OF parts(1), of b v k c l] unfolding located_del by simp
  qed
qed

theorem server_step_inv:
  assumes inv: "server_inv gs" and f: "fresh_id op gs" and st: "server_step op (gs, log) = Inr (gs', log')"
  shows "server_inv gs'"
proof (cases op)
  case (AddHost uid p)
  then show ?thesis using st f addHost_inv [OF inv] by (auto simp: map_sum_Inr fresh_id_def)
next
  case (CreateGroup gid now n)
  then show ?thesis using st f createGroup_inv(1) [OF inv]
    by (auto simp: map_sum_Inr fresh_id_def HostService_createHostGroup_def Let_def split: if_splits)
next
  case (UpdateGroup gid n d)
  then have "updateGroup gid n d gs = Inr (True, gs')"
    using st by (auto simp: map_sum_Inr HostService_updateHostGroup_def split: sum.splits prod.splits bool.splits if_splits)
  then show ?thesis by (rule update_group [OF inv]) (simp add: regroup_inv [OF inv])
next
  case (DeleteGroup gid)
  then have "gs' = gs \<or> gs' = obj_del gid gs"
    using st by (auto simp: map_sum_Inr HostService_deleteHostGroup_def deleteGroup_def split: if_splits)
  then show ?thesis using inv deleteGroup_inv [OF inv] by blast
next
  case (UpdateHost u rq)
  then show ?thesis using st updateHost_inv [OF inv] by simp
next
  case (MoveHost u t)
  then have "moveHostToGroup u t gs = (True, gs')"
    using st by (auto simp: map_sum_Inr HostService_moveHost_def split: prod.splits bool.splits if_splits)
  then show ?thesis by (rule move_inv [OF inv])
next
  case (DeleteHost u)
  then have "removeHostFromUser u gs = (True, gs')"
    using st by (auto simp: HostService_deleteHost_def split: prod.splits bool.splits)
  then show ?thesis by (rule remove_inv [OF inv])
next
  case (MarkHa u n)
  then obtain a g h where r: "findHostRef gs u = Some (a, g, h)"
    using st by (auto simp: map_sum_Inr HostService_markGroupHa_def split: option.splits)
  then have g: "map_of gs a = Some g" using findHostRef_iff [OF inv_parts(1) [OF inv]] by simp
  have "gs' = gs \<or> (\<exists>n. gs' = obj_set a (g\<lparr>sg_name := n\<rparr>) gs)"
    using st r MarkHa by (auto simp: map_sum_Inr HostService_markGroupHa_def split: option.splits if_splits)
  moreover have "default_ok (g\<lparr>sg_name := n\<rparr>)" for n
    using group_parts(2) [OF inv g] by (simp add: default_ok_def no_default_def)
  ultimately show ?thesis using inv regroup_inv [OF inv g] by auto
qed

text \<open>The stored trees a new user can come to have.\<close>

inductive stored :: "server_groups \<times> token_log \<Rightarrow> bool" where
  new_user: "stored ([], log)"
| request: "stored (gs, log) \<Longrightarrow> fresh_id op gs \<Longrightarrow> server_step op (gs, log) = Inr s \<Longrightarrow> stored s"
| session: "stored (gs, log) \<Longrightarrow> stored (gs, log')"

lemma stored_inv: "stored s \<Longrightarrow> server_inv (fst s)"
proof (induction rule: stored.induct)
  case (new_user log)
  then show ?case
    by (simp add: server_inv_def tree_wf_def no_clash_def named_def located_def countAllHosts_def)
next
  case (request gs log op s)
  then show ?case using server_step_inv [of gs op log "fst s" "snd s"] by simp
qed simp

lemma stored_hosts:
  assumes "stored (gs, log)" "map_of gs a = Some g" "map_of (sg_hosts g) u = Some h"
  shows "server_inv gs" "located gs a u h"
  using stored_inv [OF assms(1)] assms(2,3) by (auto simp: located_def)

text \<open>
  C2: however a user's host tree came to be, by any sequence of the service's operations since the
  account was made: every host is stored under its own uid in exactly one group, two different hosts
  have neither the same connection (address, port and account) nor the same name, every name is trimmed, not
  empty and at most 100 characters long, every group's default is one of its own hosts, and there
  are at most 400 hosts.
\<close>

theorem stored_tree_is_consistent:
  assumes st: "stored (gs, log)" and a: "map_of gs a = Some g" "map_of (sg_hosts g) u = Some h"
  shows "sh_uid h = u \<and> findHostRef gs u = Some (a, g, h)
    \<and> (\<forall>b k v l. map_of gs b = Some k \<and> map_of (sg_hosts k) v = Some l \<and> v \<noteq> u \<longrightarrow>
         (sh_address l, sh_port l, sh_id l) \<noteq> (sh_address h, sh_port h, sh_id h) \<and> sh_alias l \<noteq> sh_alias h)
    \<and> sh_alias h \<noteq> [] \<and> trim (sh_alias h) = sh_alias h \<and> length (sh_alias h) \<le> 100
    \<and> (\<forall>d. sg_defaultHostUid g = Some d \<and> d \<noteq> [] \<longrightarrow> d \<in> set (obj_keys (sg_hosts g)))
    \<and> countAllHosts gs \<le> 400"
proof (intro conjI allI impI)
  have inv: "server_inv gs" and l: "located gs a u h" using stored_hosts [OF st a] .
  note wf = inv_parts(1) [OF inv]
  show "sh_uid h = u" using wf l unfolding tree_wf_def by blast
  show "findHostRef gs u = Some (a, g, h)" using a findHostRef_iff [OF wf] by simp
  have nm: "sh_alias h \<noteq> [] \<and> trim (sh_alias h) = sh_alias h \<and> length (sh_alias h) \<le> MAX_HOST_ALIAS_LENGTH"
    using inv l unfolding server_inv_def named_def by blast
  then show "sh_alias h \<noteq> []" "trim (sh_alias h) = sh_alias h" "length (sh_alias h) \<le> 100"
    by (simp_all add: MAX_HOST_ALIAS_LENGTH_def)
  show "countAllHosts gs \<le> 400" using inv_parts(5) [OF inv] .
  fix d
  assume "sg_defaultHostUid g = Some d \<and> d \<noteq> []"
  then have "map_of (sg_hosts g) d \<noteq> None" using group_parts(2) [OF inv a(1)] by (auto simp: default_ok_def no_default_def)
  then show "d \<in> set (obj_keys (sg_hosts g))" by (auto simp: map_of_eq_None_iff)
next
  fix b k v l
  assume o: "map_of gs b = Some k \<and> map_of (sg_hosts k) v = Some l \<and> v \<noteq> u"
  then have "located gs b v l" by (auto simp: located_def)
  with stored_hosts [OF st a] o have "(sh_address l, sh_port l, sh_id l) \<noteq> (sh_address h, sh_port h, sh_id h) \<and> sh_alias l \<noteq> sh_alias h"
    unfolding server_inv_def no_clash_def by blast
  then show "(sh_address l, sh_port l, sh_id l) \<noteq> (sh_address h, sh_port h, sh_id h)" "sh_alias l \<noteq> sh_alias h" by simp_all
qed

text \<open>Two hosts added one after the other; the second goes to the same group.\<close>

definition example_payload :: "string \<Rightarrow> add_host_payload" where
  "example_payload n = \<lparr>ah_id = ''admin'', ah_address = n, ah_port = 8, ah_password = ''p'', ah_alias = Str ('' '' @ n),
     ah_groupId = None\<rparr>"

definition example_host :: "string \<Rightarrow> server_host" where
  "example_host n = \<lparr>sh_uid = n, sh_id = ''admin'', sh_token = None, sh_address = n, sh_port = 8, sh_password = ''p'',
     sh_initialLogin = Some True, sh_alias = n, sh_dbProfiles = Obj [], sh_cmsTokenIssuedAt = None,
     sh_cmsTokenActiveTimeSec = None\<rparr>"

definition example_groups :: "string list \<Rightarrow> server_groups" where
  "example_groups ns = [(UNGROUPED_GROUP_ID, \<lparr>sg_name = ''Ungrouped'', sg_createdAt = None,
     sg_hosts = map (\<lambda>n. (n, example_host n)) ns, sg_defaultHostUid = Some ''a''\<rparr>)]"

lemma example_steps:
  "server_step (AddHost ''a'' (example_payload ''a'')) ([], l) = Inr (example_groups [''a''], l)"
  "server_step (AddHost ''b'' (example_payload ''b'')) (example_groups [''a''], l) = Inr (example_groups [''a'', ''b''], l)"
  by code_simp+

lemma example_stored: "stored (example_groups [''a'', ''b''], l)"
proof (rule request)
  show "stored (example_groups [''a''], l)"
    by (rule request [OF new_user _ example_steps(1)]) (simp add: fresh_id_def)
  show "fresh_id (AddHost ''b'' (example_payload ''b'')) (example_groups [''a''])"
    by (simp add: fresh_id_def example_groups_def)
qed (rule example_steps)

theorem stored_tree_is_consistent_witness:
  "findHostRef (example_groups [''a'', ''b'']) ''b'' =
     Some (UNGROUPED_GROUP_ID, snd (hd (example_groups [''a'', ''b''])), example_host ''b'')
   \<and> sg_defaultHostUid (snd (hd (example_groups [''a'', ''b'']))) = Some ''a''"
  using stored_tree_is_consistent [OF example_stored [of "\<lparr>tl_activity = [], tl_notesSinceSweep = 0\<rparr>"], of UNGROUPED_GROUP_ID
      "snd (hd (example_groups [''a'', ''b'']))" "''b''" "example_host ''b''"]
  by (simp add: example_groups_def)

section \<open>The service as a map from hosts to where they are\<close>

definition where_is :: "server_groups \<Rightarrow> string \<Rightarrow> (string \<times> server_host) option" where
  "where_is gs u = map_option (\<lambda>(a, _, h). (a, h)) (findHostRef gs u)"

text \<open>What a request that succeeds does to that map.\<close>

fun spec_step :: "server_op \<Rightarrow> (string \<Rightarrow> (string \<times> server_host) option) \<Rightarrow> (string \<Rightarrow> (string \<times> server_host) option)" where
  "spec_step (AddHost uid p) m = m(uid \<mapsto> (str_or (ah_groupId p) UNGROUPED_GROUP_ID, new_host uid p))"
| "spec_step (DeleteGroup a) m = (\<lambda>u. case m u of Some (b, h) \<Rightarrow> if b = a then None else Some (b, h) | None \<Rightarrow> None)"
| "spec_step (UpdateHost u rq) m = (case m u of
     Some (a, h) \<Rightarrow> m(u \<mapsto> (a, updated_host u h rq (case uh_alias rq of Some n \<Rightarrow> trim n | None \<Rightarrow> sh_alias h)))
   | None \<Rightarrow> m)"
| "spec_step (MoveHost u t) m = (case m u of Some (a, h) \<Rightarrow> m(u \<mapsto> (t, h)) | None \<Rightarrow> m)"
| "spec_step (DeleteHost u) m = m(u := None)"
| "spec_step _ m = m"

lemma where_is_located: "tree_wf gs \<Longrightarrow> where_is gs u = Some (a, h) \<longleftrightarrow> located gs a u h"
  by (auto simp: where_is_def findHostRef_iff located_def)

lemma where_is_eq:
  assumes wf: "tree_wf gs" and l: "\<And>a u h. located gs a u h \<longleftrightarrow> m u = Some (a, h)"
  shows "where_is gs = m"
proof
  fix u
  show "where_is gs u = m u"
    using where_is_located [OF wf, of u] l [of _ u] by (cases "m u"; cases "where_is gs u") auto
qed

lemma addHost_located:
  assumes inv: "server_inv gs" and add: "HostService_addHost uid p gs = Inr gs'" and u: "findHostRef gs uid = None"
  shows "located gs' a v k \<longleftrightarrow> (if v = uid then a = str_or (ah_groupId p) UNGROUPED_GROUP_ID \<and> k = new_host uid p
    else located gs a v k)"
proof -
  obtain gs1 where gs1: "gs1 = gs \<or> gs1 = ensureUngroupedGroup gs"
    and a: "addHostToGroup (str_or (ah_groupId p) UNGROUPED_GROUP_ID) (new_host uid p) gs1 = Inr gs'"
    using add by (rule addHost_cases)
  have h: "sh_uid (new_host uid p) = uid" by (simp add: new_host_def)
  have loc: "located gs1 b v k \<longleftrightarrow> located gs b v k" for b v k using gs1 located_ensure by auto
  have "\<not> located gs1 b (sh_uid (new_host uid p)) k" for b k
    using not_located [OF inv_parts(1) [OF inv] u] by (simp add: loc h)
  from add_located [OF a this, of a v k] show ?thesis by (simp add: h loc)
qed

lemma same_hosts_where_is:
  "tree_wf gs \<Longrightarrow> tree_wf gs' \<Longrightarrow> (\<And>a u h. located gs' a u h \<longleftrightarrow> located gs a u h) \<Longrightarrow> where_is gs' = where_is gs"
  by (rule where_is_eq) (simp_all add: where_is_located)

lemma where_is_addHost:
  assumes wf: "tree_wf gs'" and inv: "server_inv gs" and add: "HostService_addHost uid p gs = Inr gs'"
    and new: "findHostRef gs uid = None"
  shows "where_is gs' = spec_step (AddHost uid p) (where_is gs)"
  by (rule where_is_eq [OF wf], unfold addHost_located [OF inv add new])
    (auto simp: where_is_located [OF inv_parts(1) [OF inv]])

lemma where_is_deleteGroup:
  assumes wf: "tree_wf gs" "tree_wf gs'" and del: "HostService_deleteHostGroup gid gs = Inr gs'"
  shows "where_is gs' = spec_step (DeleteGroup gid) (where_is gs)"
proof -
  have "gs' = gs \<and> map_of gs gid = None \<or> gs' = obj_del gid gs"
    using del by (auto simp: HostService_deleteHostGroup_def deleteGroup_def split: if_splits)
  then have "located gs' a u h \<longleftrightarrow> a \<noteq> gid \<and> located gs a u h" for a u h
    using located_del [of gid gs a u h] by (auto simp: located_def)
  then show ?thesis
    by (intro where_is_eq [OF wf(2)]) (auto simp: where_is_located [OF wf(1), symmetric] split: option.splits)
qed

lemma where_is_updateHost:
  assumes wf: "tree_wf gs" "tree_wf gs'" and up: "updateHost u rq gs log = Inr (gs', log')"
  shows "where_is gs' = spec_step (UpdateHost u rq) (where_is gs)"
proof -
  obtain a g h al where r: "findHostRef gs u = Some (a, g, h)"
    and al: "proposed_alias h (uh_alias rq) = Inr al"
    and gs': "gs' = obj_set a (g\<lparr>sg_hosts := obj_set u (updated_host u h rq al) (sg_hosts g)\<rparr>) gs"
    by (rule updateHost_cases [OF up]) (rule that)
  have "al = (case uh_alias rq of Some n \<Rightarrow> trim n | None \<Rightarrow> sh_alias h)"
    using al by (auto simp: proposed_alias_def split: option.splits if_splits)
  moreover have "where_is gs u = Some (a, h)" by (simp add: where_is_def r)
  ultimately show ?thesis
    by (intro where_is_eq [OF wf(2)], unfold gs' update_located [OF wf(1) r])
      (auto simp: where_is_located [OF wf(1), symmetric])
qed

lemma where_is_moveHost:
  assumes wf: "tree_wf gs" "tree_wf gs'" and mv: "HostService_moveHost u t gs = Inr gs'"
  shows "where_is gs' = spec_step (MoveHost u t) (where_is gs)"
proof -
  have mv': "moveHostToGroup u t gs = (True, gs')"
    using mv by (auto simp: HostService_moveHost_def split: prod.splits bool.splits if_splits)
  obtain b h where l: "located gs b u h"
    "\<And>a v k. located gs' a v k \<longleftrightarrow> (if v = u then a = t \<and> k = h else located gs a v k)"
    using move_located [OF wf(1) mv'] by metis
  have w: "where_is gs u = Some (b, h)" using l(1) where_is_located [OF wf(1)] by simp
  show ?thesis
    by (rule where_is_eq [OF wf(2)], unfold l(2)) (auto simp: w where_is_located [OF wf(1)])
qed

lemma where_is_deleteHost:
  assumes wf: "tree_wf gs" "tree_wf gs'" and del: "HostService_deleteHost u gs log = Inr (gs', log')"
  shows "where_is gs' = spec_step (DeleteHost u) (where_is gs)"
proof -
  have "removeHostFromUser u gs = (True, gs')"
    using del by (auto simp: HostService_deleteHost_def split: prod.splits bool.splits)
  from remove_located [OF wf(1) this] show ?thesis
    by (intro where_is_eq [OF wf(2)]) (auto simp: where_is_located [OF wf(1)])
qed

lemma markHa_located:
  assumes wf: "tree_wf gs" and mk: "HostService_markGroupHa u n gs = Inr gs'"
  shows "located gs' b v k \<longleftrightarrow> located gs b v k"
proof -
  obtain a g h where r: "findHostRef gs u = Some (a, g, h)"
    using mk by (auto simp: HostService_markGroupHa_def split: option.splits)
  have gs': "gs' = gs \<or> (\<exists>n. gs' = obj_set a (g\<lparr>sg_name := n\<rparr>) gs)"
    using mk r by (auto simp: HostService_markGroupHa_def split: option.splits if_splits)
  have g: "map_of gs a = Some g" using r findHostRef_iff [OF wf] by simp
  show ?thesis using gs' regroup_located [OF g] by auto
qed

lemma updateGroup_located:
  assumes inv: "server_inv gs" and up: "HostService_updateHostGroup gid n d gs = Inr gs'"
  shows "located gs' b v k \<longleftrightarrow> located gs b v k"
proof -
  have "updateGroup gid n d gs = Inr (True, gs')"
    using up by (auto simp: HostService_updateHostGroup_def split: sum.splits prod.splits bool.splits if_splits)
  then obtain g g' where g: "map_of gs gid = Some g" "gs' = obj_set gid g' gs" "sg_hosts g' = sg_hosts g"
    using update_group [OF inv] by metis
  then show ?thesis using regroup_located [OF g(1,3)] by simp
qed

text \<open>
  C3: the service updates a map. Every request that succeeds changes the
  map from uids to (group, host) as its name says and no other host's entry - adding puts the new
  host in the asked group or the ungrouped one, moving changes the group only, updating the host
  only, deleting a group takes its hosts with it, and the group requests move nothing.
\<close>

theorem server_refines_map:
  assumes inv: "server_inv gs" and f: "fresh_id op gs" and st: "server_step op (gs, log) = Inr (gs', log')"
  shows "where_is gs' = spec_step op (where_is gs)"
proof -
  have wf: "tree_wf gs" "tree_wf gs'"
    using inv_parts(1) [OF inv] inv_parts(1) [OF server_step_inv [OF inv f st]] .
  show ?thesis
  proof (cases op)
    case (AddHost uid p)
    then show ?thesis using f st where_is_addHost [OF wf(2) inv] by (auto simp: fresh_id_def map_sum_Inr)
  next
    case (CreateGroup gid now n)
    then have "gs' = createEmptyGroup gid now (trim n) gs" and new: "map_of gs gid = None"
      using st f by (auto simp: map_sum_Inr HostService_createHostGroup_def Let_def fresh_id_def split: if_splits)
    then show ?thesis
      using same_hosts_where_is [OF wf] createGroup_inv(2) [OF inv new] by (simp add: CreateGroup)
  next
    case (UpdateGroup gid n d)
    then have "HostService_updateHostGroup gid n d gs = Inr gs'" using st by (auto simp: map_sum_Inr)
    from same_hosts_where_is [OF wf updateGroup_located [OF inv this]] show ?thesis by (simp add: UpdateGroup)
  next
    case (MarkHa u n)
    then have "HostService_markGroupHa u n gs = Inr gs'" using st by (auto simp: map_sum_Inr)
    from same_hosts_where_is [OF wf markHa_located [OF wf(1) this]] show ?thesis by (simp add: MarkHa)
  qed (use st where_is_deleteGroup [OF wf] where_is_updateHost [OF wf] where_is_moveHost [OF wf]
      where_is_deleteHost [OF wf] in \<open>simp_all add: map_sum_Inr\<close>)
qed

theorem server_refines_map_witness:
  "where_is (example_groups [''a'', ''b'']) = (where_is (example_groups [''a'']))(''b'' \<mapsto> (UNGROUPED_GROUP_ID, example_host ''b''))"
proof -
  have "stored (example_groups [''a''], \<lparr>tl_activity = [], tl_notesSinceSweep = 0\<rparr>)"
    by (rule request [OF new_user _ example_steps(1)]) (simp add: fresh_id_def)
  then have "server_inv (example_groups [''a''])" using stored_inv by fastforce
  moreover have "fresh_id (AddHost ''b'' (example_payload ''b'')) (example_groups [''a''])"
    by (simp add: fresh_id_def example_groups_def)
  ultimately have "where_is (example_groups [''a'', ''b'']) =
      spec_step (AddHost ''b'' (example_payload ''b'')) (where_is (example_groups [''a'']))"
    using example_steps(2) by (rule server_refines_map)
  moreover have "new_host ''b'' (example_payload ''b'') = example_host ''b''" by code_simp
  ultimately show ?thesis by (simp add: example_payload_def str_or_def)
qed

end
