(* ===== verification/ApiClient.thy ===== *)
theory ApiClient
  imports CmsResponses
begin

text \<open>
  Model of \<open>apps/web-manager/src/api/apiClient.js\<close>: how the HTTP client of the web manager answers a
  response that fails. It renews the access token, silently logs in to a host again, or asks the
  user to reconnect. Requests and their failures interleave, so the client is a state and a step
  function on events; a step also gives what the client does (\<open>ac_effect\<close>).

  A handler runs from one await to the next. Loading a module that is already loaded
  (\<open>await import(...)\<close>) is no step of its own; \<open>loaded\<close> says whether it succeeds. The path of an
  absolute URL (\<open>new URL(url).pathname\<close>) is the parameter \<open>pathname\<close>. Times are milliseconds.
\<close>

section \<open>Requests\<close>

record request =
  rq_id :: nat
  rq_url :: string
  rq_issuedAt :: int
  rq_retry :: bool
  rq_token :: "string option"

definition AUTO_RELOGIN_MAX_ATTEMPTS :: nat where "AUTO_RELOGIN_MAX_ATTEMPTS = 3"
definition AUTO_RELOGIN_WINDOW_MS :: int where "AUTO_RELOGIN_WINDOW_MS = 15000"

text \<open>\<open>path.replace(/^\/?api\//i, '')\<close> and \<open>replace(/^\//, '')\<close>\<close>

definition strip_api :: "string \<Rightarrow> string" where
  "strip_api path =
     (let p = (case path of c # cs \<Rightarrow> if c = CHR ''/'' then cs else path | [] \<Rightarrow> [])
      in if starts_with ''api/'' (lower p) then drop 4 p else path)"

definition strip_slash :: "string \<Rightarrow> string" where
  "strip_slash path = (case path of c # cs \<Rightarrow> if c = CHR ''/'' then cs else path | [] \<Rightarrow> [])"

definition getHostUidFromUrl :: "(string \<Rightarrow> string) \<Rightarrow> string \<Rightarrow> string option" where
  "getHostUidFromUrl pathname url =
     (if url = [] then None
      else
        (let path = (if starts_with ''http://'' url \<or> starts_with ''https://'' url then pathname url else url);
             segments = split_on (CHR ''/'') (strip_slash (strip_api path));
             second = (case segments of _ # s # _ \<Rightarrow> s | _ \<Rightarrow> []);
             hostUid = (if hd segments = ''host'' \<and> second \<noteq> [] then second else hd segments)
         in if length hostUid > 15 then Some hostUid else None))"

text \<open>The message that a failed response is given.\<close>

definition normalizedMessage :: "js \<Rightarrow> js" where
  "normalizedMessage apiData =
     (let inner = js_get apiData ''data''
      in js_or (js_get apiData ''note'') (js_or (js_get inner ''message'') (js_or (js_get inner ''detail'')
           (js_or (js_get inner ''title'') (js_or (js_get apiData ''message'') (Str ''An unexpected error occurred''))))))"

text \<open>What the caller of a successful request gets: the payload of the envelope, with its note and
  its status.\<close>

definition unwrapResponse :: "js \<Rightarrow> js" where
  "unwrapResponse rawData =
     (case rawData of
        Obj kvs \<Rightarrow>
          (case map_of kvs ''data'' of
             None \<Rightarrow> rawData
           | Some payload \<Rightarrow>
               if payload = Bool False \<or> payload = Null \<or> payload = Num 0 then rawData
               else (case payload of
                   Obj ps \<Rightarrow>
                     (let note = js_get rawData ''note''; status = js_get rawData ''status'';
                          ps1 = (if truthy note then obj_set ''note'' note ps else ps);
                          ps2 = (if status \<noteq> Undefined then
                                   (let p = obj_set ''httpStatus'' status ps1
                                    in if map_of p ''jobId'' = None \<and> map_of p ''status'' = None
                                       then obj_set ''status'' status p else p)
                                 else ps1)
                      in Obj ps2)
                 | _ \<Rightarrow> payload))
      | _ \<Rightarrow> rawData)"

section \<open>The client\<close>

text \<open>\<open>ac_waiting\<close> are the requests that wait for the login to a host that \<open>ac_refreshing\<close> holds,
  \<open>ac_waiters\<close> those that wait for a new access token, \<open>ac_refresher\<close> the one that asked for it;
  \<open>ac_inFlight\<close> says that the refresh has not been answered yet. The tokens are those in local storage.\<close>

record api_client =
  ac_reconnecting :: "string list"
  ac_lastLogin :: "(string, int) obj"
  ac_refreshing :: "string list"
  ac_waiting :: "(string \<times> request) list"
  ac_failures :: "(string, nat \<times> int) obj"
  ac_isRefreshing :: bool
  ac_inFlight :: bool
  ac_refresher :: "request option"
  ac_waiters :: "request list"
  ac_handlingExpiry :: bool
  ac_token :: "string option"
  ac_refreshToken :: "string option"

datatype ac_effect =
    Fail request | Throw request | Resend request
  | OpenPrompt string | Revoke string | Login string
  | Refresh | SessionRefreshed string "string option" | Logout | ClearLogin string js

definition isStaleHostRequest :: "string \<Rightarrow> request \<Rightarrow> api_client \<Rightarrow> bool" where
  "isStaleHostRequest hostUid r s \<longleftrightarrow>
     rq_issuedAt r < (case map_of (ac_lastLogin s) hostUid of Some t \<Rightarrow> t | None \<Rightarrow> 0)"

definition clearReconnectingHost :: "string \<Rightarrow> api_client \<Rightarrow> api_client" where
  "clearReconnectingHost hostUid s = s\<lparr>ac_reconnecting := removeAll hostUid (ac_reconnecting s)\<rparr>"

text \<open>Asking the user; when the store cannot be loaded the host is free to be asked for again.\<close>

definition open_prompt :: "string \<Rightarrow> bool \<Rightarrow> request \<Rightarrow> api_client \<Rightarrow> api_client \<times> ac_effect list" where
  "open_prompt hostUid loaded r s =
     (if loaded then (s\<lparr>ac_reconnecting := hostUid # ac_reconnecting s\<rparr>, [OpenPrompt hostUid, Fail r])
      else (clearReconnectingHost hostUid s, [Fail r]))"

definition count_failure :: "string \<Rightarrow> int \<Rightarrow> api_client \<Rightarrow> nat \<times> int" where
  "count_failure hostUid now s =
     (case map_of (ac_failures s) hostUid of
        Some (n, windowStart) \<Rightarrow> if now - windowStart < AUTO_RELOGIN_WINDOW_MS then (Suc n, windowStart) else (1, now)
      | None \<Rightarrow> (1, now))"

text \<open>The silent re-login: the session is given up, and one login is shared by all who wait.\<close>

definition relogin :: "string \<Rightarrow> bool \<Rightarrow> request \<Rightarrow> api_client \<Rightarrow> api_client \<times> ac_effect list" where
  "relogin hostUid loaded r s =
     (if \<not> loaded then open_prompt hostUid False r (s\<lparr>ac_refreshing := removeAll hostUid (ac_refreshing s)\<rparr>)
      else if hostUid \<in> set (ac_refreshing s)
      then (s\<lparr>ac_waiting := ac_waiting s @ [(hostUid, r)]\<rparr>, [Revoke hostUid])
      else (s\<lparr>ac_waiting := ac_waiting s @ [(hostUid, r)], ac_refreshing := hostUid # ac_refreshing s\<rparr>,
            [Revoke hostUid, Login hostUid]))"

definition host_unauthorized ::
  "string \<Rightarrow> bool \<Rightarrow> int \<Rightarrow> request \<Rightarrow> js \<Rightarrow> api_client \<Rightarrow> api_client \<times> ac_effect list" where
  "host_unauthorized hostUid loaded now r apiData s =
     (if str_includes ''/cms-auth/login'' (rq_url r) then (s, [Fail r])
      else if hostUid \<in> set (ac_reconnecting s) then (s, [Fail r])
      else if js_or (js_get (js_get apiData ''data'') ''code'') (js_get apiData ''code'') = Str ''INVALID_TOKEN'' then
        (if isStaleHostRequest hostUid r s then (s, [Fail r]) else open_prompt hostUid loaded r s)
      else if isStaleHostRequest hostUid r s then (s, [Fail r])
      else
        (let entry = count_failure hostUid now s;
             s1 = s\<lparr>ac_failures := obj_set hostUid entry (ac_failures s)\<rparr>
         in if fst entry > AUTO_RELOGIN_MAX_ATTEMPTS then open_prompt hostUid loaded r s1
            else relogin hostUid loaded r s1))"

text \<open>The session of the user with the API server itself.\<close>

definition session_expired :: "string \<Rightarrow> api_client \<Rightarrow> api_client" where
  "session_expired path s =
     (if ac_handlingExpiry s \<or> path = ''/login'' \<or> path = ''/register'' then s
      else s\<lparr>ac_handlingExpiry := True, ac_token := None, ac_refreshToken := None\<rparr>)"

definition refresh_failed :: "string \<Rightarrow> api_client \<Rightarrow> api_client \<times> ac_effect list" where
  "refresh_failed path s = (session_expired path (s\<lparr>ac_waiters := []\<rparr>), map Fail (ac_waiters s))"

definition app_unauthorized :: "string \<Rightarrow> request \<Rightarrow> api_client \<Rightarrow> api_client \<times> ac_effect list" where
  "app_unauthorized path r s =
     (let login = str_includes ''/auth/login'' (rq_url r) \<or> str_includes ''/auth/logout'' (rq_url r);
          r' = r\<lparr>rq_retry := True\<rparr>
      in if login then (s, [Fail r])
         else if str_includes ''/auth/refresh'' (rq_url r) then (session_expired path s, [Fail r])
         else if ac_isRefreshing s then (s\<lparr>ac_waiters := ac_waiters s @ [r']\<rparr>, [])
         else
           (let s1 = s\<lparr>ac_isRefreshing := True, ac_refresher := Some r'\<rparr>
            in if ac_refreshToken s = None \<or> ac_refreshToken s = Some [] then refresh_failed path s1
               else (s1\<lparr>ac_inFlight := True\<rparr>, [Refresh])))"

definition unauthorized ::
  "(string \<Rightarrow> string) \<Rightarrow> string \<Rightarrow> bool \<Rightarrow> int \<Rightarrow> request \<Rightarrow> js \<Rightarrow> api_client \<Rightarrow> api_client \<times> ac_effect list" where
  "unauthorized pathname path loaded now r apiData s =
     (if rq_retry r then (s, [Fail r])
      else
        (let errorType = js_or (js_get (js_get apiData ''data'') ''type'') (js_or (js_get apiData ''type'') (Str []))
         in case errorType of
              Str t \<Rightarrow>
                (case getHostUidFromUrl pathname (rq_url r) of
                   Some hostUid \<Rightarrow> if starts_with ''/errors/auth/'' t then app_unauthorized path r s
                                   else host_unauthorized hostUid loaded now r apiData s
                 | None \<Rightarrow> app_unauthorized path r s)
            | _ \<Rightarrow> (s, [Throw r])))"

text \<open>A response that succeeds: a login to a host is noted, and every success of a host resets its counter.\<close>

definition responded :: "(string \<Rightarrow> string) \<Rightarrow> int \<Rightarrow> request \<Rightarrow> api_client \<Rightarrow> api_client" where
  "responded pathname now r s =
     (case getHostUidFromUrl pathname (rq_url r) of
        None \<Rightarrow> s
      | Some hostUid \<Rightarrow>
          (let s1 = (if str_includes ''/cms-auth/login'' (rq_url r)
                     then s\<lparr>ac_lastLogin := obj_set hostUid now (ac_lastLogin s)\<rparr> else s)
           in s1\<lparr>ac_failures := obj_del hostUid (ac_failures s1)\<rparr>))"

text \<open>The requests that waited for a login go on one after the other.\<close>

fun resume :: "string \<Rightarrow> bool \<Rightarrow> request list \<Rightarrow> api_client \<Rightarrow> api_client \<times> ac_effect list" where
  "resume hostUid loaded [] s = (s, [])"
| "resume hostUid loaded (r # rs) s =
     (let (s1, out) =
            (if hostUid \<in> set (ac_reconnecting s) \<or> isStaleHostRequest hostUid r s then (s, [Fail r])
             else open_prompt hostUid loaded r s);
          (s2, outs) = resume hostUid loaded rs s1
      in (s2, out @ outs))"

definition relogin_done :: "string \<Rightarrow> bool \<Rightarrow> bool \<Rightarrow> api_client \<Rightarrow> api_client \<times> ac_effect list" where
  "relogin_done hostUid ok loaded s =
     (let rs = map snd (filter (\<lambda>w. fst w = hostUid) (ac_waiting s));
          s1 = s\<lparr>ac_refreshing := removeAll hostUid (ac_refreshing s),
                 ac_waiting := filter (\<lambda>w. fst w \<noteq> hostUid) (ac_waiting s)\<rparr>
      in if ok then (s1, map (\<lambda>r. Resend (r\<lparr>rq_retry := True\<rparr>)) rs) else resume hostUid loaded rs s1)"

text \<open>The answer to a refresh: the tokens, or nothing when it failed or has no access token.\<close>

definition refresh_done ::
  "string \<Rightarrow> (string \<times> string option) option \<Rightarrow> api_client \<Rightarrow> api_client \<times> ac_effect list" where
  "refresh_done path tokens s =
     (case tokens of
        Some (token, next) \<Rightarrow>
          (let s1 = s\<lparr>ac_token := Some token,
                      ac_refreshToken := (if next = None \<or> next = Some [] then ac_refreshToken s else next),
                      ac_isRefreshing := False, ac_refresher := None, ac_waiters := []\<rparr>
           in (s1, SessionRefreshed token next # map (\<lambda>r. Resend (r\<lparr>rq_token := Some token\<rparr>)) (ac_waiters s)
                 @ (case ac_refresher s of Some r \<Rightarrow> [Resend (r\<lparr>rq_token := Some token\<rparr>)] | None \<Rightarrow> [])))
      | None \<Rightarrow> refresh_failed path s)"

text \<open>The end of the handling of an expired session; the request that asked for the refresh that
  failed, if there is one, fails with it.\<close>

definition expiry_done :: "api_client \<Rightarrow> api_client \<times> ac_effect list" where
  "expiry_done s =
     (let s1 = s\<lparr>ac_handlingExpiry := False\<rparr>; out = (if ac_handlingExpiry s then [Logout] else [])
      in if ac_isRefreshing s \<and> \<not> ac_inFlight s
         then (s1\<lparr>ac_isRefreshing := False, ac_refresher := None\<rparr>,
               out @ (case ac_refresher s of Some r \<Rightarrow> [Fail r] | None \<Rightarrow> []))
         else (s1, out))"

text \<open>A database action without a live login: its padlock is opened.\<close>

definition bad_request :: "(string \<Rightarrow> string) \<Rightarrow> bool \<Rightarrow> request \<Rightarrow> js \<Rightarrow> ac_effect list" where
  "bad_request pathname loaded r apiData =
     (let inner = js_get apiData ''data'';
          dbname = js_or (js_get inner ''dbname'') (js_get apiData ''dbname'')
      in (if js_or (js_get inner ''code'') (js_get apiData ''code'') = Str ''MISSING_DB_CREDENTIALS''
          then (case getHostUidFromUrl pathname (rq_url r) of
                  Some hostUid \<Rightarrow> if truthy dbname \<and> loaded then [ClearLogin hostUid dbname] else []
                | None \<Rightarrow> [])
          else []) @ [Fail r])"

section \<open>Runs\<close>

datatype ac_event =
    Responded int request
  | Unauthorized bool int request js
  | BadRequest bool request js
  | ReloginDone string bool bool
  | ClearReconnecting string
  | RefreshDone "(string \<times> string option) option"
  | ExpiryDone
  | StoreTokens "string option" "string option"

fun ac_step :: "(string \<Rightarrow> string) \<Rightarrow> string \<Rightarrow> ac_event \<Rightarrow> api_client \<Rightarrow> api_client \<times> ac_effect list" where
  "ac_step pathname path (Responded now r) s = (responded pathname now r s, [])"
| "ac_step pathname path (Unauthorized loaded now r apiData) s = unauthorized pathname path loaded now r apiData s"
| "ac_step pathname path (BadRequest loaded r apiData) s = (s, bad_request pathname loaded r apiData)"
| "ac_step pathname path (ReloginDone hostUid ok loaded) s = relogin_done hostUid ok loaded s"
| "ac_step pathname path (ClearReconnecting hostUid) s = (clearReconnectingHost hostUid s, [])"
| "ac_step pathname path (RefreshDone tokens) s =
     (if ac_inFlight s then refresh_done path tokens (s\<lparr>ac_inFlight := False\<rparr>) else (s, []))"
| "ac_step pathname path ExpiryDone s = expiry_done s"
| "ac_step pathname path (StoreTokens token refreshToken) s =
     (s\<lparr>ac_token := token, ac_refreshToken := refreshToken\<rparr>, [])"

fun ac_run :: "(string \<Rightarrow> string) \<Rightarrow> string \<Rightarrow> ac_event list \<Rightarrow> api_client \<Rightarrow> api_client \<times> ac_effect list" where
  "ac_run pathname path [] s = (s, [])"
| "ac_run pathname path (e # es) s =
     (let (s1, out) = ac_step pathname path e s; (s2, outs) = ac_run pathname path es s1 in (s2, out @ outs))"

definition init_api_client :: "string option \<Rightarrow> string option \<Rightarrow> api_client" where
  "init_api_client token refreshToken =
     \<lparr>ac_reconnecting = [], ac_lastLogin = [], ac_refreshing = [], ac_waiting = [], ac_failures = [],
      ac_isRefreshing = False, ac_inFlight = False, ac_refresher = None, ac_waiters = [], ac_handlingExpiry = False,
      ac_token = token, ac_refreshToken = refreshToken\<rparr>"

end
