(* ===== verification/ApiClientFacts.thy ===== *)
theory ApiClientFacts
  imports ApiClient "HOL-Library.Multiset"
begin

text \<open>
  Properties of the HTTP client (\<open>ApiClient\<close>): a host the user is asked about is left alone, late
  failures of an old session are ignored, the silent re-logins are bounded only while they fail, and
  every request is answered once.
\<close>

section \<open>A step at a time\<close>

definition quiet :: "string \<Rightarrow> ac_effect list \<Rightarrow> bool" where
  "quiet u out \<longleftrightarrow> OpenPrompt u \<notin> set out \<and> Revoke u \<notin> set out \<and> Login u \<notin> set out"

lemma quiet_simps [simp]:
  "quiet u []" "quiet u (Fail r # out) = quiet u out" "quiet u (Throw r # out) = quiet u out"
  "quiet u (Resend r # out) = quiet u out" "quiet u (Refresh # out) = quiet u out"
  "quiet u (SessionRefreshed t n # out) = quiet u out" "quiet u (Logout # out) = quiet u out"
  "quiet u (ClearLogin v d # out) = quiet u out" "quiet u (out @ out') = (quiet u out \<and> quiet u out')"
  by (auto simp: quiet_def)

lemma quiet_maps [simp]:
  "quiet u (map Fail rs)" "quiet u (map (\<lambda>r. Resend (f r)) rs)" "quiet u (map ((\<lambda>r. Resend (f r)) \<circ> g) xs)"
  by (auto simp: quiet_def)

lemma reconnecting_clear [simp]: "ac_reconnecting (clearReconnectingHost u s) = removeAll u (ac_reconnecting s)"
  by (simp add: clearReconnectingHost_def)

lemma session_expired_fields [simp]:
  "ac_reconnecting (session_expired path s) = ac_reconnecting s"
  "ac_lastLogin (session_expired path s) = ac_lastLogin s"
  "ac_failures (session_expired path s) = ac_failures s"
  "ac_waiting (session_expired path s) = ac_waiting s"
  "ac_refreshing (session_expired path s) = ac_refreshing s"
  "ac_waiters (session_expired path s) = ac_waiters s"
  "ac_isRefreshing (session_expired path s) = ac_isRefreshing s"
  "ac_inFlight (session_expired path s) = ac_inFlight s"
  "ac_refresher (session_expired path s) = ac_refresher s"
  by (simp_all add: session_expired_def)

text \<open>What the session with the API server leaves alone.\<close>

definition same_hosts :: "api_client \<Rightarrow> api_client \<Rightarrow> bool" where
  "same_hosts s t \<longleftrightarrow> ac_reconnecting t = ac_reconnecting s \<and> ac_lastLogin t = ac_lastLogin s
     \<and> ac_failures t = ac_failures s \<and> ac_waiting t = ac_waiting s \<and> ac_refreshing t = ac_refreshing s"

lemma app_frame:
  assumes "app_unauthorized path r s = (s', out)"
  shows "same_hosts s s' \<and> quiet u out"
  using assms by (auto simp: app_unauthorized_def refresh_failed_def same_hosts_def Let_def split: if_splits)

lemma refresh_frame:
  assumes "refresh_done path tokens s = (s', out)"
  shows "same_hosts s s' \<and> quiet u out"
  using assms
  by (cases tokens) (auto simp: refresh_done_def refresh_failed_def same_hosts_def Let_def split: option.splits)

lemma expiry_frame:
  assumes "expiry_done s = (s', out)"
  shows "same_hosts s s' \<and> quiet u out"
  using assms by (auto simp: expiry_done_def same_hosts_def Let_def split: if_splits option.splits)

lemma bad_request_quiet: "quiet u (bad_request pathname loaded r d)"
  by (simp add: bad_request_def Let_def split: option.splits)

lemma resume_other: "resume v loaded rs s = (s', out) \<Longrightarrow> u \<noteq> v \<Longrightarrow>
    (u \<in> set (ac_reconnecting s') \<longleftrightarrow> u \<in> set (ac_reconnecting s)) \<and> quiet u out"
proof (induction rs arbitrary: s s' out)
  case (Cons r rs)
  then show ?case
    by (auto simp: open_prompt_def quiet_def split: if_splits prod.splits)
qed simp

lemma resume_silent: "resume u loaded rs s = (s', out) \<Longrightarrow> u \<in> set (ac_reconnecting s) \<Longrightarrow> s' = s \<and> quiet u out"
  by (induction rs arbitrary: s' out) (auto split: prod.splits)

lemma prompted_step:
  assumes "ac_step pathname path e s = (s', out)" "u \<in> set (ac_reconnecting s)" "e \<noteq> ClearReconnecting u"
  shows "u \<in> set (ac_reconnecting s') \<and> quiet u out"
proof (cases e)
  case (Unauthorized loaded now r d)
  have app: "app_unauthorized path r s = (s', out) \<Longrightarrow> ?thesis"
    using app_frame assms(2) by (fastforce simp: same_hosts_def)
  have host: "?thesis" if "host_unauthorized v loaded now r d s = (s', out)" for v
  proof (cases "u = v")
    case True
    with that assms(2) show ?thesis by (auto simp: host_unauthorized_def split: if_splits)
  next
    case False
    with that assms(2) show ?thesis
      by (auto simp: host_unauthorized_def open_prompt_def relogin_def Let_def quiet_def split: if_splits)
  qed
  show ?thesis
    using assms(1) app host assms(2) unfolding Unauthorized
    by (auto simp: unauthorized_def Let_def split: if_splits js.splits option.splits)
next
  case (ReloginDone v ok loaded)
  show ?thesis
  proof (cases ok)
    case True
    with assms show ?thesis by (auto simp: ReloginDone relogin_done_def Let_def)
  next
    case False
    then obtain t rs where "resume v loaded rs t = (s', out)" "ac_reconnecting t = ac_reconnecting s"
      using assms(1) by (auto simp: ReloginDone relogin_done_def Let_def)
    then show ?thesis using resume_other [of v loaded rs t s' out u] resume_silent [of u loaded rs t s' out] assms(2)
      by (cases "u = v") auto
  qed
next
  case (RefreshDone tokens)
  then show ?thesis using assms refresh_frame [of path tokens _ s' out u]
    by (fastforce simp: same_hosts_def split: if_splits)
next
  case ExpiryDone
  then show ?thesis using assms expiry_frame [of s s' out u] by (simp add: same_hosts_def)
qed (use assms in \<open>auto simp: responded_def bad_request_quiet Let_def split: option.splits\<close>)

section \<open>A host the user is asked about\<close>

text \<open>Prompts for a host are as many as it is given free for, and one for the host at first.\<close>

definition asked :: "string \<Rightarrow> api_client \<Rightarrow> nat" where
  "asked u s = (if u \<in> set (ac_reconnecting s) then 1 else 0)"

lemma open_prompt_count:
  assumes "open_prompt v loaded r s = (s', out)" "v \<notin> set (ac_reconnecting s)"
  shows "count_list out (OpenPrompt u) + asked u s = asked u s'"
  using assms by (auto simp: open_prompt_def asked_def split: if_splits)

lemma quiet_count: "quiet u out \<Longrightarrow> count_list out (OpenPrompt u) = 0"
  by (auto simp: quiet_def intro: count_notin)

lemma resume_count:
  "resume v loaded rs s = (s', out) \<Longrightarrow> count_list out (OpenPrompt u) + asked u s = asked u s'"
proof (induction rs arbitrary: s s' out)
  case (Cons r rs)
  obtain s1 o1 where s1: "(if v \<in> set (ac_reconnecting s) \<or> isStaleHostRequest v r s then (s, [Fail r])
      else open_prompt v loaded r s) = (s1, o1)" by force
  obtain s2 o2 where s2: "resume v loaded rs s1 = (s2, o2)" by force
  have "count_list o1 (OpenPrompt u) + asked u s = asked u s1"
    using s1 open_prompt_count [of v loaded r s s1 o1 u] by (auto split: if_splits)
  moreover have "s' = s2" "out = o1 @ o2" using Cons.prems s1 s2 by simp_all
  ultimately show ?case using Cons.IH [OF s2] by simp
qed simp

lemma host_unauthorized_count:
  assumes "host_unauthorized v loaded now r d s = (s', out)"
  shows "count_list out (OpenPrompt u) + asked u s = asked u s'"
proof -
  have a: "asked u (s\<lparr>ac_failures := f\<rparr>) = asked u s" for f by (simp add: asked_def)
  have b: "asked u (s\<lparr>ac_failures := f, ac_refreshing := g\<rparr>) = asked u s" for f g by (simp add: asked_def)
  show ?thesis
    using assms open_prompt_count [of v loaded r s s' out u]
      open_prompt_count [of v loaded r "s\<lparr>ac_failures := obj_set v (count_failure v now s) (ac_failures s)\<rparr>" s' out u]
      open_prompt_count [of v False r "s\<lparr>ac_failures := obj_set v (count_failure v now s) (ac_failures s),
        ac_refreshing := removeAll v (ac_refreshing s)\<rparr>" s' out u]
    by (auto simp: host_unauthorized_def relogin_def Let_def a b split: if_splits) (simp_all add: asked_def)
qed

lemma same_hosts_asked: "same_hosts s s' \<Longrightarrow> asked u s' = asked u s"
  by (simp add: same_hosts_def asked_def)

lemma step_count:
  assumes "ac_step pathname path e s = (s', out)"
  shows "count_list out (OpenPrompt u) + asked u s \<le> asked u s' + (if e = ClearReconnecting u then 1 else 0)"
proof (cases e)
  case (Unauthorized loaded now r d)
  have "count_list out (OpenPrompt u) + asked u s \<le> asked u s'" if "app_unauthorized path r s = (s', out)"
    using app_frame [OF that, of u] quiet_count [of u out] same_hosts_asked [of s s' u] by auto
  then show ?thesis using assms host_unauthorized_count [of _ loaded now r d s s' out u] unfolding Unauthorized
    by (auto simp: unauthorized_def Let_def split: if_splits js.splits option.splits)
next
  case (ReloginDone v ok loaded)
  show ?thesis
  proof (cases ok)
    case True
    have "count_list (map ((\<lambda>r. Resend (r\<lparr>rq_retry := True\<rparr>)) \<circ> snd) xs) (OpenPrompt u) = 0" for xs
      by (rule quiet_count) simp
    with assms True show ?thesis by (auto simp: ReloginDone relogin_done_def Let_def asked_def)
  next
    case False
    then obtain t rs where "resume v loaded rs t = (s', out)" "ac_reconnecting t = ac_reconnecting s"
      using assms by (auto simp: ReloginDone relogin_done_def Let_def)
    then show ?thesis using resume_count [of v loaded rs t s' out u] by (simp add: asked_def)
  qed
next
  case (RefreshDone tokens)
  show ?thesis
  proof (cases "ac_inFlight s")
    case True
    then have "refresh_done path tokens (s\<lparr>ac_inFlight := False\<rparr>) = (s', out)" using assms RefreshDone by simp
    from refresh_frame [OF this, of u] show ?thesis using quiet_count [of u out] by (auto simp: same_hosts_def asked_def)
  qed (use assms RefreshDone in simp)
next
  case ExpiryDone
  then have "expiry_done s = (s', out)" using assms by simp
  from expiry_frame [OF this, of u] show ?thesis
    using quiet_count [of u out] same_hosts_asked [of s s' u] by auto
next
  case (BadRequest loaded r d)
  then show ?thesis using assms quiet_count [OF bad_request_quiet] by auto
qed (use assms in \<open>auto simp: responded_def asked_def Let_def split: option.splits\<close>)

lemma run_count:
  "ac_run pathname path es s = (s', out) \<Longrightarrow>
    count_list out (OpenPrompt u) + asked u s \<le> asked u s' + count_list es (ClearReconnecting u)"
proof (induction es arbitrary: s s' out)
  case (Cons e es)
  obtain s1 o1 where s1: "ac_step pathname path e s = (s1, o1)" by force
  obtain s2 o2 where s2: "ac_run pathname path es s1 = (s2, o2)" by force
  have "s' = s2" "out = o1 @ o2" using Cons.prems s1 s2 by simp_all
  then show ?case using step_count [OF s1, of u] Cons.IH [OF s2] by (auto split: if_splits)
qed simp

text \<open>
  the user is asked once. While a host waits for the user's decision, whatever requests of it
  fail and however, the client opens no second prompt for it, does not give up its session and does
  not log in to it; and over any run the prompts for a host are at most one more than the answers.
\<close>

theorem prompted_host_is_left_alone:
  assumes "ac_run pathname path es s = (s', out)"
  shows "(u \<in> set (ac_reconnecting s) \<and> ClearReconnecting u \<notin> set es \<longrightarrow>
      OpenPrompt u \<notin> set out \<and> Revoke u \<notin> set out \<and> Login u \<notin> set out \<and> u \<in> set (ac_reconnecting s'))
    \<and> count_list out (OpenPrompt u) \<le> Suc (count_list es (ClearReconnecting u))"
proof
  have "u \<in> set (ac_reconnecting s') \<and> quiet u out"
    if "u \<in> set (ac_reconnecting s)" "ClearReconnecting u \<notin> set es"
    using assms that
  proof (induction es arbitrary: s s' out)
    case (Cons e es)
    obtain s1 o1 where s1: "ac_step pathname path e s = (s1, o1)" by force
    obtain s2 o2 where s2: "ac_run pathname path es s1 = (s2, o2)" by force
    have r: "s' = s2" "out = o1 @ o2" using Cons.prems(1) s1 s2 by simp_all
    have "u \<in> set (ac_reconnecting s1) \<and> quiet u o1"
      using prompted_step [OF s1 Cons.prems(2)] Cons.prems(3) by auto
    then show ?case using Cons.IH [OF s2] Cons.prems(3) r by simp
  qed simp
  then show "u \<in> set (ac_reconnecting s) \<and> ClearReconnecting u \<notin> set es \<longrightarrow>
      OpenPrompt u \<notin> set out \<and> Revoke u \<notin> set out \<and> Login u \<notin> set out \<and> u \<in> set (ac_reconnecting s')"
    by (simp add: quiet_def)
  show "count_list out (OpenPrompt u) \<le> Suc (count_list es (ClearReconnecting u))"
    using run_count [OF assms, of u] by (auto simp: asked_def split: if_splits)
qed

text \<open>A host as the examples use it, and a request to it.\<close>

definition sample_uid :: string where "sample_uid = ''0123456789abcdef''"

definition sample_request_of :: "string \<Rightarrow> int \<Rightarrow> nat \<Rightarrow> request" where
  "sample_request_of path at n =
     \<lparr>rq_id = n, rq_url = ''/'' @ sample_uid @ path, rq_issuedAt = at, rq_retry = False, rq_token = None\<rparr>"

lemma sample_host:
  "getHostUidFromUrl pathname (rq_url (sample_request_of ''/brokers'' at n)) = Some sample_uid"
  "getHostUidFromUrl pathname (rq_url (sample_request_of ''/cms-auth/login'' at n)) = Some sample_uid"
  by (simp_all add: sample_request_of_def sample_uid_def getHostUidFromUrl_def strip_api_def strip_slash_def
      lower_def lower_char_def Let_def)

lemma sample_login:
  "str_includes ''/cms-auth/login'' (rq_url (sample_request_of ''/brokers'' at n)) = False"
  "str_includes ''/cms-auth/login'' (rq_url (sample_request_of ''/cms-auth/login'' at n)) = True"
  by (simp_all add: sample_request_of_def sample_uid_def)

theorem prompted_host_is_left_alone_witness:
  "OpenPrompt sample_uid \<notin> set (snd (ac_run (\<lambda>u. u) ''/'' [Unauthorized True 5 (sample_request_of ''/brokers'' 4 0) Undefined]
     ((init_api_client None None)\<lparr>ac_reconnecting := [sample_uid]\<rparr>)))"
proof -
  obtain s' out where r: "ac_run (\<lambda>u. u) ''/'' [Unauthorized True 5 (sample_request_of ''/brokers'' 4 0) Undefined]
     ((init_api_client None None)\<lparr>ac_reconnecting := [sample_uid]\<rparr>) = (s', out)" by force
  from conjunct1 [OF prompted_host_is_left_alone [OF this, of sample_uid]] show ?thesis unfolding r by simp
qed

section \<open>Late failures\<close>

definition login_time :: "string \<Rightarrow> api_client \<Rightarrow> int" where
  "login_time u s = (case map_of (ac_lastLogin s) u of Some t \<Rightarrow> t | None \<Rightarrow> 0)"

lemma same_hosts_login: "same_hosts s s' \<Longrightarrow> login_time u s' = login_time u s"
  by (simp add: same_hosts_def login_time_def)

lemma open_prompt_login: "open_prompt v loaded r s = (s', out) \<Longrightarrow> ac_lastLogin s' = ac_lastLogin s"
  by (auto simp: open_prompt_def clearReconnectingHost_def split: if_splits)

lemma resume_login: "resume v loaded rs s = (s', out) \<Longrightarrow> ac_lastLogin s' = ac_lastLogin s"
proof (induction rs arbitrary: s s' out)
  case (Cons r rs)
  then show ?case by (auto dest: open_prompt_login split: if_splits prod.splits)
qed simp

lemma host_unauthorized_login:
  "host_unauthorized v loaded now r d s = (s', out) \<Longrightarrow> ac_lastLogin s' = ac_lastLogin s"
  by (auto simp: host_unauthorized_def relogin_def Let_def dest!: open_prompt_login split: if_splits)

lemma login_time_step:
  assumes "ac_step pathname path e s = (s', out)" "T \<le> login_time u s" "\<And>t r. e = Responded t r \<Longrightarrow> T \<le> t"
  shows "T \<le> login_time u s'"
proof (cases e)
  case (Responded t r)
  then show ?thesis using assms
    by (auto simp: responded_def login_time_def map_of_obj_set Let_def split: option.splits if_splits)
next
  case (Unauthorized loaded now r d)
  have "T \<le> login_time u s'" if "app_unauthorized path r s = (s', out)"
    using app_frame [OF that, of u] assms(2) by (simp add: same_hosts_def login_time_def)
  moreover have "T \<le> login_time u s'" if "host_unauthorized v loaded now r d s = (s', out)" for v
    using host_unauthorized_login [OF that] assms(2) by (simp add: login_time_def)
  ultimately show ?thesis using assms(1,2) unfolding Unauthorized
    by (auto simp: unauthorized_def Let_def split: if_splits js.splits option.splits)
next
  case (ReloginDone v ok loaded)
  have "ac_lastLogin s' = ac_lastLogin s"
    using assms(1) by (auto simp: ReloginDone relogin_done_def Let_def dest!: resume_login split: if_splits)
  then show ?thesis using assms(2) by (simp add: login_time_def)
next
  case (RefreshDone tokens)
  show ?thesis
  proof (cases "ac_inFlight s")
    case True
    then have "refresh_done path tokens (s\<lparr>ac_inFlight := False\<rparr>) = (s', out)" using assms(1) RefreshDone by simp
    from refresh_frame [OF this, of u] assms(2) show ?thesis by (simp add: same_hosts_def login_time_def)
  qed (use assms RefreshDone in simp)
next
  case ExpiryDone
  then have "expiry_done s = (s', out)" using assms(1) by simp
  from expiry_frame [OF this, of u] assms(2) show ?thesis by (simp add: same_hosts_def login_time_def)
qed (use assms in \<open>auto simp: clearReconnectingHost_def login_time_def\<close>)

lemma login_time_run:
  "ac_run pathname path es s = (s', out) \<Longrightarrow> T \<le> login_time u s \<Longrightarrow> (\<And>t r. Responded t r \<in> set es \<Longrightarrow> T \<le> t)
    \<Longrightarrow> T \<le> login_time u s'"
proof (induction es arbitrary: s s' out)
  case (Cons e es)
  obtain s1 o1 where s1: "ac_step pathname path e s = (s1, o1)" by force
  obtain s2 o2 where s2: "ac_run pathname path es s1 = (s2, o2)" by force
  have "s' = s2" using Cons.prems(1) s1 s2 by simp
  moreover have "T \<le> login_time u s1" by (rule login_time_step [OF s1 Cons.prems(2)]) (use Cons.prems(3) in auto)
  ultimately show ?case using Cons.IH [OF s2] Cons.prems(3) by auto
qed simp



section \<open>Silent re-logins\<close>

text \<open>While no request of the host succeeds, a failure counts in the window it came in.\<close>

definition counted :: "string \<Rightarrow> int \<Rightarrow> nat \<Rightarrow> api_client \<Rightarrow> bool" where
  "counted u T k s \<longleftrightarrow> (case map_of (ac_failures s) u of None \<Rightarrow> k = 0 | Some (n, w) \<Rightarrow> T \<le> w \<and> k \<le> n \<and> k \<le> 3)"

lemma relogin_out:
  assumes "relogin v loaded r s = (s', out)"
  shows "count_list out (Login u) \<le> count_list out (Revoke u) \<and> count_list out (Revoke u) \<le> (if u = v then 1 else 0)
    \<and> ac_failures s' = ac_failures s"
  using assms by (auto simp: relogin_def open_prompt_def clearReconnectingHost_def split: if_splits)

lemma open_prompt_out:
  assumes "open_prompt v loaded r s = (s', out)"
  shows "count_list out (Login u) = 0 \<and> count_list out (Revoke u) = 0 \<and> ac_failures s' = ac_failures s"
  using assms by (auto simp: open_prompt_def clearReconnectingHost_def split: if_splits)

lemma resume_out:
  "resume v loaded rs s = (s', out) \<Longrightarrow>
    count_list out (Login u) = 0 \<and> count_list out (Revoke u) = 0 \<and> ac_failures s' = ac_failures s"
proof (induction rs arbitrary: s s' out)
  case (Cons r rs)
  obtain s1 o1 where s1: "(if v \<in> set (ac_reconnecting s) \<or> isStaleHostRequest v r s then (s, [Fail r])
      else open_prompt v loaded r s) = (s1, o1)" by force
  obtain s2 o2 where s2: "resume v loaded rs s1 = (s2, o2)" by force
  have "count_list o1 (Login u) = 0 \<and> count_list o1 (Revoke u) = 0 \<and> ac_failures s1 = ac_failures s"
    using s1 open_prompt_out [of v loaded r s s1 o1 u] by (auto split: if_splits)
  moreover have "s' = s2" "out = o1 @ o2" using Cons.prems s1 s2 by simp_all
  ultimately show ?case using Cons.IH [OF s2] by simp
qed simp

lemma quiet_counts: "quiet u out \<Longrightarrow> count_list out (Login u) = 0 \<and> count_list out (Revoke u) = 0"
  by (auto simp: quiet_def intro: count_notin)

lemma counted_failures: "ac_failures s' = ac_failures s \<Longrightarrow> counted u T k s' = counted u T k s"
  by (simp add: counted_def)

text \<open>One failed request of the host.\<close>

lemma counted_unauthorized:
  assumes h: "host_unauthorized v loaded now r d s = (s', out)" and c: "counted u T k s"
    and t: "u = v \<Longrightarrow> T \<le> now \<and> now < T + 15000"
  shows "count_list out (Login u) \<le> count_list out (Revoke u) \<and> counted u T (k + count_list out (Revoke u)) s'"
proof (cases "fst (count_failure v now s) > AUTO_RELOGIN_MAX_ATTEMPTS")
  case True
  let ?s1 = "s\<lparr>ac_failures := obj_set v (count_failure v now s) (ac_failures s)\<rparr>"
  have c1: "counted u T k ?s1"
    using c t by (auto simp: counted_def count_failure_def map_of_obj_set AUTO_RELOGIN_WINDOW_MS_def split: option.splits)
  have "out = [Fail r] \<and> s' = s \<or> open_prompt v loaded r s = (s', out) \<or> open_prompt v loaded r ?s1 = (s', out)"
    using h True by (auto simp: host_unauthorized_def Let_def split: if_splits)
  then show ?thesis
    using c c1 open_prompt_out [of v loaded r s s' out u] open_prompt_out [of v loaded r ?s1 s' out u]
      counted_failures [of s' s u T k] counted_failures [of s' ?s1 u T k] by auto
next
  case False
  let ?s1 = "s\<lparr>ac_failures := obj_set v (count_failure v now s) (ac_failures s)\<rparr>"
  have c1: "counted u T (k + j) ?s1" if "j \<le> (if u = v then 1 else 0)" for j
    using c t False that
    by (auto simp: counted_def count_failure_def map_of_obj_set AUTO_RELOGIN_WINDOW_MS_def AUTO_RELOGIN_MAX_ATTEMPTS_def
        split: option.splits if_splits)
  have "out = [Fail r] \<and> s' = s \<or> open_prompt v loaded r s = (s', out) \<or> relogin v loaded r ?s1 = (s', out)"
    using h False by (auto simp: host_unauthorized_def Let_def split: if_splits)
  then show ?thesis
    using c c1 open_prompt_out [of v loaded r s s' out u] relogin_out [of v loaded r ?s1 s' out u]
      counted_failures [of s' s u T k] counted_failures [of s' ?s1 u T "k + count_list out (Revoke u)"] by auto
qed

definition in_window :: "(string \<Rightarrow> string) \<Rightarrow> string \<Rightarrow> int \<Rightarrow> ac_event \<Rightarrow> bool" where
  "in_window pathname u T e \<longleftrightarrow> (case e of
       Unauthorized _ now r _ \<Rightarrow> getHostUidFromUrl pathname (rq_url r) = Some u \<longrightarrow> T \<le> now \<and> now < T + AUTO_RELOGIN_WINDOW_MS
     | Responded _ r \<Rightarrow> getHostUidFromUrl pathname (rq_url r) \<noteq> Some u
     | _ \<Rightarrow> True)"

lemma failures_responded:
  "ac_failures (responded pathname now r s) =
    (case getHostUidFromUrl pathname (rq_url r) of None \<Rightarrow> ac_failures s | Some v \<Rightarrow> obj_del v (ac_failures s))"
  by (simp add: responded_def Let_def split: option.split)

lemma counted_step:
  assumes st: "ac_step pathname path e s = (s', out)" and c: "counted u T k s" and w: "in_window pathname u T e"
  shows "count_list out (Login u) \<le> count_list out (Revoke u) \<and> counted u T (k + count_list out (Revoke u)) s'"
proof (cases e)
  case (Responded now r)
  then have "map_of (ac_failures s') u = map_of (ac_failures s) u" "out = []"
    using st w by (auto simp: failures_responded in_window_def map_of_obj_del split: option.splits)
  with c show ?thesis by (simp add: counted_def)
next
  case (Unauthorized loaded now r d)
  have app: "?thesis" if "app_unauthorized path r s = (s', out)"
    using app_frame [OF that, of u] quiet_counts [of u out] c by (simp add: same_hosts_def counted_def)
  have host: "?thesis" if "getHostUidFromUrl pathname (rq_url r) = Some v" "host_unauthorized v loaded now r d s = (s', out)" for v
    by (rule counted_unauthorized [OF that(2) c])
      (use w that(1) in \<open>simp add: Unauthorized in_window_def AUTO_RELOGIN_WINDOW_MS_def\<close>)
  show ?thesis using st app host c unfolding Unauthorized
    by (auto simp: unauthorized_def Let_def split: if_splits js.splits option.splits)
next
  case (ReloginDone v ok loaded)
  show ?thesis
  proof (cases ok)
    case True
    then have "quiet u out" "ac_failures s' = ac_failures s"
      using st by (auto simp: ReloginDone relogin_done_def Let_def)
    with quiet_counts [of u out] c show ?thesis by (simp add: counted_def)
  next
    case False
    then obtain t rs where "resume v loaded rs t = (s', out)" "ac_failures t = ac_failures s"
      using st by (auto simp: ReloginDone relogin_done_def Let_def)
    with resume_out [of v loaded rs t s' out u] c show ?thesis by (simp add: counted_def)
  qed
next
  case (RefreshDone tokens)
  show ?thesis
  proof (cases "ac_inFlight s")
    case True
    then have "refresh_done path tokens (s\<lparr>ac_inFlight := False\<rparr>) = (s', out)" using st RefreshDone by simp
    from refresh_frame [OF this, of u] c quiet_counts [of u out] show ?thesis by (simp add: same_hosts_def counted_def)
  qed (use st c RefreshDone in simp)
next
  case ExpiryDone
  then have "expiry_done s = (s', out)" using st by simp
  from expiry_frame [OF this, of u] c quiet_counts [of u out] show ?thesis by (simp add: same_hosts_def counted_def)
next
  case (BadRequest loaded r d)
  then show ?thesis using st c quiet_counts [OF bad_request_quiet [of u pathname loaded r d]] by auto
qed (use st c in \<open>auto simp: counted_def clearReconnectingHost_def\<close>)



text \<open>A login that succeeds although the requests after it still fail: every tenth of a second one request
  fails, the host is logged in to and the request is sent again (and fails again, which is only passed on).\<close>

definition relogin_cycle :: "nat \<Rightarrow> ac_event list" where
  "relogin_cycle k =
     [Unauthorized True (100 * int k + 20) (sample_request_of ''/brokers'' (100 * int k + 10) k) Undefined,
      Responded (100 * int k + 40) (sample_request_of ''/cms-auth/login'' (100 * int k + 30) k),
      ReloginDone sample_uid True True,
      Unauthorized True (100 * int k + 60) ((sample_request_of ''/brokers'' (100 * int k + 50) k)\<lparr>rq_retry := True\<rparr>) Undefined]"

definition after_cycles :: "nat \<Rightarrow> api_client" where
  "after_cycles k = (init_api_client None None)\<lparr>ac_lastLogin :=
     (if k = 0 then [] else [(sample_uid, 100 * int k - 60)])\<rparr>"

lemma run_append:
  "ac_run pathname path (es @ es') s =
    (let (s1, out) = ac_run pathname path es s; (s2, outs) = ac_run pathname path es' s1 in (s2, out @ outs))"
  by (induction es arbitrary: s) (auto split: prod.splits)

lemma not_retried [simp]: "\<not> rq_retry (sample_request_of path at n)"
  by (simp add: sample_request_of_def)

lemma issued_at [simp]: "rq_issuedAt (sample_request_of path at n) = at"
  by (simp add: sample_request_of_def)

lemma cycle_run:
  "\<exists>r. ac_run pathname path (relogin_cycle k) (after_cycles k) =
    (after_cycles (Suc k), [Revoke sample_uid, Login sample_uid, Resend r,
       Fail ((sample_request_of ''/brokers'' (100 * int k + 50) k)\<lparr>rq_retry := True\<rparr>)])"
  by (simp add: relogin_cycle_def after_cycles_def init_api_client_def unauthorized_def host_unauthorized_def
      sample_host sample_login isStaleHostRequest_def count_failure_def relogin_def responded_def relogin_done_def
      js_or_def AUTO_RELOGIN_MAX_ATTEMPTS_def Let_def)

text \<open>
  a login that succeeds resets the count, even when the session it gives is no good. When every
  request of a host fails and every login to it succeeds, the client gives up the session and logs in
  again for each of them, without end and without asking the user: here ten times a second.
\<close>

theorem succeeding_relogins_are_not_bounded:
  "count_list (snd (ac_run pathname path (concat (map relogin_cycle [0..<n])) (init_api_client None None))) (Login sample_uid) = n
   \<and> OpenPrompt sample_uid \<notin> set (snd (ac_run pathname path (concat (map relogin_cycle [0..<n])) (init_api_client None None)))"
proof -
  have "\<exists>out. ac_run pathname path (concat (map relogin_cycle [0..<n])) (init_api_client None None) = (after_cycles n, out)
      \<and> count_list out (Login sample_uid) = n \<and> OpenPrompt sample_uid \<notin> set out"
  proof (induction n)
    case 0
    then show ?case by (simp add: after_cycles_def init_api_client_def)
  next
    case (Suc n)
    then obtain out where o: "ac_run pathname path (concat (map relogin_cycle [0..<n])) (init_api_client None None) = (after_cycles n, out)"
      "count_list out (Login sample_uid) = n" "OpenPrompt sample_uid \<notin> set out" by blast
    obtain r where "ac_run pathname path (relogin_cycle n) (after_cycles n) =
      (after_cycles (Suc n), [Revoke sample_uid, Login sample_uid, Resend r,
         Fail ((sample_request_of ''/brokers'' (100 * int n + 50) n)\<lparr>rq_retry := True\<rparr>)])"
      using cycle_run by blast
    with o show ?case by (simp add: run_append)
  qed
  then show ?thesis by auto
qed

section \<open>Every request is answered\<close>

definition pending :: "api_client \<Rightarrow> nat list" where
  "pending s = map (rq_id \<circ> snd) (ac_waiting s) @ map rq_id (ac_waiters s)
     @ (case ac_refresher s of Some r \<Rightarrow> [rq_id r] | None \<Rightarrow> [])"

definition answered :: "ac_effect list \<Rightarrow> nat list" where
  "answered = List.map_filter (\<lambda>e. case e of Fail r \<Rightarrow> Some (rq_id r) | Throw r \<Rightarrow> Some (rq_id r)
     | Resend r \<Rightarrow> Some (rq_id r) | _ \<Rightarrow> None)"

definition failed_requests :: "ac_event list \<Rightarrow> nat list" where
  "failed_requests = List.map_filter (\<lambda>e. case e of Unauthorized _ _ r _ \<Rightarrow> Some (rq_id r)
     | BadRequest _ r _ \<Rightarrow> Some (rq_id r) | _ \<Rightarrow> None)"

lemma map_filter_Nil [simp]: "List.map_filter f [] = []"
  by (simp add: List.map_filter_def)

lemma map_filter_Cons [simp]: "List.map_filter f (x # xs) = (case f x of None \<Rightarrow> List.map_filter f xs | Some y \<Rightarrow> y # List.map_filter f xs)"
  by (simp add: List.map_filter_def split: option.split)

lemma map_filter_app [simp]: "List.map_filter f (xs @ ys) = List.map_filter f xs @ List.map_filter f ys"
  by (simp add: List.map_filter_def)

lemma answered_simps [simp]:
  "answered [] = []" "answered (Fail r # out) = rq_id r # answered out" "answered (Throw r # out) = rq_id r # answered out"
  "answered (Resend r # out) = rq_id r # answered out" "answered (OpenPrompt u # out) = answered out"
  "answered (Revoke u # out) = answered out" "answered (Login u # out) = answered out"
  "answered (Refresh # out) = answered out" "answered (SessionRefreshed t n # out) = answered out"
  "answered (Logout # out) = answered out" "answered (ClearLogin v d # out) = answered out"
  "answered (out @ out') = answered out @ answered out'"
  by (simp_all add: answered_def)

lemma answered_fail [simp]: "answered (map Fail rs) = map rq_id rs"
  by (induction rs) simp_all

lemma answered_resend [simp]: "answered (map (\<lambda>x. Resend (f x)) xs) = map (rq_id \<circ> f) xs"
  by (induction xs) simp_all

text \<open>One request is renewing the access token exactly while \<open>isRefreshingAccessToken\<close>.\<close>

definition app_inv :: "api_client \<Rightarrow> bool" where
  "app_inv s \<longleftrightarrow> (ac_isRefreshing s \<longleftrightarrow> ac_refresher s \<noteq> None) \<and> (ac_inFlight s \<longrightarrow> ac_isRefreshing s)"

lemma app_inv_simps [simp]:
  "app_inv (s\<lparr>ac_failures := f\<rparr>) = app_inv s" "app_inv (s\<lparr>ac_reconnecting := us\<rparr>) = app_inv s"
  "app_inv (s\<lparr>ac_refreshing := us\<rparr>) = app_inv s" "app_inv (s\<lparr>ac_waiting := ws\<rparr>) = app_inv s"
  "app_inv (s\<lparr>ac_lastLogin := l\<rparr>) = app_inv s" "app_inv (clearReconnectingHost u s) = app_inv s"
  "app_inv (session_expired path s) = app_inv s" "app_inv (s\<lparr>ac_waiters := ws'\<rparr>) = app_inv s"
  "app_inv (s\<lparr>ac_token := t, ac_refreshToken := n\<rparr>) = app_inv s" "app_inv (s\<lparr>ac_handlingExpiry := b\<rparr>) = app_inv s"
  by (simp_all add: app_inv_def clearReconnectingHost_def)

lemma pending_simps [simp]:
  "pending (s\<lparr>ac_failures := f\<rparr>) = pending s" "pending (s\<lparr>ac_reconnecting := us\<rparr>) = pending s"
  "pending (s\<lparr>ac_refreshing := us\<rparr>) = pending s" "pending (s\<lparr>ac_lastLogin := l\<rparr>) = pending s"
  "pending (clearReconnectingHost u s) = pending s" "pending (session_expired path s) = pending s"
  "pending (s\<lparr>ac_token := t, ac_refreshToken := n\<rparr>) = pending s" "pending (s\<lparr>ac_handlingExpiry := b\<rparr>) = pending s"
  "pending (s\<lparr>ac_inFlight := c\<rparr>) = pending s"
  by (simp_all add: pending_def clearReconnectingHost_def)

definition accounts :: "nat list \<Rightarrow> api_client \<Rightarrow> api_client \<Rightarrow> ac_effect list \<Rightarrow> bool" where
  "accounts new s s' out \<longleftrightarrow> app_inv s' \<and> mset (answered out) + mset (pending s') = mset new + mset (pending s)"

lemma accounts_trans:
  assumes "accounts n1 s s1 o1" "accounts n2 s1 s2 o2"
  shows "accounts (n1 @ n2) s s2 (o1 @ o2)"
proof -
  have "mset (answered o1) + (mset (answered o2) + mset (pending s2)) = mset n2 + (mset (answered o1) + mset (pending s1))"
    using assms(2) by (simp add: accounts_def ac_simps)
  with assms show ?thesis by (simp add: accounts_def ac_simps)
qed

lemma open_prompt_accounts:
  "app_inv s \<Longrightarrow> open_prompt v loaded r s = (s', out) \<Longrightarrow> accounts [rq_id r] s s' out"
  by (auto simp: open_prompt_def accounts_def split: if_splits)

lemma resume_accounts: "app_inv s \<Longrightarrow> resume v loaded rs s = (s', out) \<Longrightarrow> accounts (map rq_id rs) s s' out"
proof (induction rs arbitrary: s s' out)
  case (Cons r rs)
  obtain s1 o1 where s1: "(if v \<in> set (ac_reconnecting s) \<or> isStaleHostRequest v r s then (s, [Fail r])
      else open_prompt v loaded r s) = (s1, o1)" by force
  obtain s2 o2 where s2: "resume v loaded rs s1 = (s2, o2)" by force
  have a: "accounts [rq_id r] s s1 o1"
    using s1 Cons.prems(1) open_prompt_accounts [of s v loaded r s1 o1]
    by (auto simp: accounts_def split: if_splits)
  moreover have "accounts (map rq_id rs) s1 s2 o2" using Cons.IH [OF _ s2] a by (simp add: accounts_def)
  moreover have "s' = s2" "out = o1 @ o2" using Cons.prems s1 s2 by simp_all
  ultimately show ?case using accounts_trans by fastforce
qed (simp add: accounts_def)

lemma relogin_accounts:
  "app_inv s \<Longrightarrow> relogin v loaded r s = (s', out) \<Longrightarrow> accounts [rq_id r] s s' out"
  by (auto simp: relogin_def open_prompt_def accounts_def split: if_splits) (simp_all add: pending_def)

lemma host_accounts:
  assumes i: "app_inv s" and h: "host_unauthorized v loaded now r d s = (s', out)"
  shows "accounts [rq_id r] s s' out"
proof -
  let ?t = "s\<lparr>ac_failures := obj_set v (count_failure v now s) (ac_failures s)\<rparr>"
  have i': "app_inv ?t" using i by simp
  have "s' = s \<and> out = [Fail r] \<or> open_prompt v loaded r s = (s', out) \<or> open_prompt v loaded r ?t = (s', out)
      \<or> relogin v loaded r ?t = (s', out)"
    using h by (auto simp: host_unauthorized_def Let_def split: if_splits)
  then show ?thesis
    using i open_prompt_accounts [OF i, of v loaded r s' out] open_prompt_accounts [OF i', of v loaded r s' out]
      relogin_accounts [OF i', of v loaded r s' out]
    by (auto simp: accounts_def)
qed

lemma app_accounts:
  assumes i: "app_inv s" and a: "app_unauthorized path r s = (s', out)"
  shows "accounts [rq_id r] s s' out"
proof (cases "ac_isRefreshing s")
  case True
  with i a show ?thesis
    by (auto simp: app_unauthorized_def accounts_def Let_def split: if_splits) (simp_all add: pending_def)
next
  case False
  then have "ac_refresher s = None" "\<not> ac_inFlight s" using i by (auto simp: app_inv_def)
  with False a i show ?thesis
    by (auto simp: app_unauthorized_def refresh_failed_def accounts_def Let_def split: if_splits)
      (simp_all add: pending_def app_inv_def)
qed

lemma relogin_done_accounts:
  assumes i: "app_inv s" and st: "relogin_done v ok loaded s = (s', out)"
  shows "accounts [] s s' out"
proof -
  let ?rs = "map snd (filter (\<lambda>w. fst w = v) (ac_waiting s))"
  let ?t = "s\<lparr>ac_refreshing := removeAll v (ac_refreshing s), ac_waiting := filter (\<lambda>w. fst w \<noteq> v) (ac_waiting s)\<rparr>"
  have "mset (map (rq_id \<circ> snd) ws) = mset (map (rq_id \<circ> snd) (filter (\<lambda>w. fst w = v) ws))
      + mset (map (rq_id \<circ> snd) (filter (\<lambda>w. fst w \<noteq> v) ws))" for ws :: "(string \<times> request) list"
    by (induction ws) auto
  then have p: "mset (pending s) = mset (map rq_id ?rs) + mset (pending ?t)" by (simp add: pending_def comp_def)
  have "accounts (map rq_id ?rs) ?t s' out"
  proof (cases ok)
    case True
    with st i show ?thesis by (auto simp: relogin_done_def Let_def accounts_def comp_def)
  next
    case False
    then have "resume v loaded ?rs ?t = (s', out)" using st by (simp add: relogin_done_def Let_def)
    with i show ?thesis by (intro resume_accounts) simp_all
  qed
  then show ?thesis by (simp add: accounts_def p)
qed

lemma refresh_done_accounts:
  assumes i: "app_inv s" and fl: "ac_inFlight s" and st: "refresh_done path tokens (s\<lparr>ac_inFlight := False\<rparr>) = (s', out)"
  shows "accounts [] s s' out"
proof -
  obtain r where r: "ac_refresher s = Some r" "ac_isRefreshing s" using i fl by (auto simp: app_inv_def)
  show ?thesis
  proof (cases tokens)
    case None
    with st r show ?thesis
      by (auto simp: refresh_done_def refresh_failed_def accounts_def) (simp_all add: pending_def app_inv_def)
  next
    case (Some tn)
    obtain t n where tn: "tn = (t, n)" by force
    have "ac_waiting s' = ac_waiting s" "ac_waiters s' = []" "ac_refresher s' = None" "\<not> ac_isRefreshing s'" "\<not> ac_inFlight s'"
      "answered out = map rq_id (ac_waiters s) @ [rq_id r]"
      using st Some tn r by (auto simp: refresh_done_def Let_def comp_def)
    then show ?thesis by (simp add: accounts_def app_inv_def pending_def r)
  qed
qed

lemma expiry_done_accounts:
  assumes i: "app_inv s" and st: "expiry_done s = (s', out)"
  shows "accounts [] s s' out"
proof (cases "ac_isRefreshing s \<and> \<not> ac_inFlight s")
  case True
  then obtain r where r: "ac_refresher s = Some r" using i by (auto simp: app_inv_def)
  have "s' = s\<lparr>ac_handlingExpiry := False, ac_isRefreshing := False, ac_refresher := None\<rparr>" "answered out = [rq_id r]"
    using st True r by (auto simp: expiry_done_def Let_def)
  then show ?thesis using True by (simp add: accounts_def app_inv_def pending_def r)
next
  case False
  with st i show ?thesis by (auto simp: expiry_done_def Let_def accounts_def)
qed

lemma accounts_step:
  assumes i: "app_inv s" and st: "ac_step pathname path e s = (s', out)"
  shows "accounts (failed_requests [e]) s s' out"
proof (cases e)
  case (Responded now r)
  then show ?thesis using st i
    by (auto simp: responded_def accounts_def failed_requests_def Let_def split: option.splits)
next
  case (Unauthorized loaded now r d)
  have "accounts [rq_id r] s s' out"
    using st i host_accounts [OF i] app_accounts [OF i] unfolding Unauthorized
    by (auto simp: unauthorized_def Let_def accounts_def split: if_splits js.splits option.splits)
  then show ?thesis by (simp add: Unauthorized failed_requests_def)
next
  case (BadRequest loaded r d)
  then show ?thesis using st i
    by (auto simp: bad_request_def accounts_def failed_requests_def Let_def split: option.splits if_splits)
next
  case (RefreshDone tokens)
  show ?thesis
  proof (cases "ac_inFlight s")
    case True
    then show ?thesis using st refresh_done_accounts [OF i True] by (simp add: RefreshDone failed_requests_def)
  next
    case False
    then show ?thesis using st i by (auto simp: RefreshDone failed_requests_def accounts_def)
  qed
qed (use st i relogin_done_accounts [OF i] expiry_done_accounts [OF i] in \<open>auto simp: accounts_def failed_requests_def\<close>)

lemma failed_requests_Cons: "failed_requests (e # es) = failed_requests [e] @ failed_requests es"
  by (simp add: failed_requests_def split: option.split)

lemma accounts_run:
  "app_inv s \<Longrightarrow> ac_run pathname path es s = (s', out) \<Longrightarrow> accounts (failed_requests es) s s' out"
proof (induction es arbitrary: s s' out)
  case (Cons e es)
  obtain s1 o1 where s1: "ac_step pathname path e s = (s1, o1)" by force
  obtain s2 o2 where s2: "ac_run pathname path es s1 = (s2, o2)" by force
  have a: "accounts (failed_requests [e]) s s1 o1" by (rule accounts_step [OF Cons.prems(1) s1])
  then have "accounts (failed_requests es) s1 s2 o2" using Cons.IH [OF _ s2] by (simp add: accounts_def)
  from accounts_trans [OF a this] show ?case using Cons.prems(2) s1 s2 by (simp add: failed_requests_Cons [of e es])
qed (simp add: accounts_def failed_requests_def)

text \<open>No request of the user's session fails while the end of a failed refresh is being handled.\<close>

definition settling :: "api_client \<Rightarrow> bool" where
  "settling s \<longleftrightarrow> ac_isRefreshing s \<and> \<not> ac_inFlight s"

fun undisturbed :: "(string \<Rightarrow> string) \<Rightarrow> string \<Rightarrow> ac_event list \<Rightarrow> api_client \<Rightarrow> bool" where
  "undisturbed pathname path [] s = True"
| "undisturbed pathname path (e # es) s =
     ((case e of Unauthorized _ _ _ _ \<Rightarrow> \<not> settling s | _ \<Rightarrow> True) \<and> undisturbed pathname path es (fst (ac_step pathname path e s)))"

definition waiters_inv :: "api_client \<Rightarrow> bool" where
  "waiters_inv s \<longleftrightarrow> (ac_waiters s \<noteq> [] \<longrightarrow> ac_inFlight s) \<and> (ac_inFlight s \<longrightarrow> ac_isRefreshing s)"

definition same_session :: "api_client \<Rightarrow> api_client \<Rightarrow> bool" where
  "same_session s t \<longleftrightarrow> ac_waiters t = ac_waiters s \<and> ac_inFlight t = ac_inFlight s \<and> ac_isRefreshing t = ac_isRefreshing s"

lemma open_prompt_session: "open_prompt v loaded r s = (s', out) \<Longrightarrow> same_session s s' \<and> count_list out Refresh = 0"
  by (auto simp: open_prompt_def clearReconnectingHost_def same_session_def split: if_splits)

lemma resume_session: "resume v loaded rs s = (s', out) \<Longrightarrow> same_session s s' \<and> count_list out Refresh = 0"
proof (induction rs arbitrary: s s' out)
  case (Cons r rs)
  obtain s1 o1 where s1: "(if v \<in> set (ac_reconnecting s) \<or> isStaleHostRequest v r s then (s, [Fail r])
      else open_prompt v loaded r s) = (s1, o1)" by force
  obtain s2 o2 where s2: "resume v loaded rs s1 = (s2, o2)" by force
  have "same_session s s1 \<and> count_list o1 Refresh = 0"
    using s1 open_prompt_session [of v loaded r s s1 o1] by (auto simp: same_session_def split: if_splits)
  moreover have "s' = s2" "out = o1 @ o2" using Cons.prems s1 s2 by simp_all
  ultimately show ?case using Cons.IH [OF s2] by (simp add: same_session_def)
qed (simp add: same_session_def)

lemma host_session:
  assumes "host_unauthorized v loaded now r d s = (s', out)"
  shows "same_session s s' \<and> count_list out Refresh = 0"
proof -
  let ?t = "s\<lparr>ac_failures := obj_set v (count_failure v now s) (ac_failures s)\<rparr>"
  have "s' = s \<and> out = [Fail r] \<or> open_prompt v loaded r s = (s', out) \<or> open_prompt v loaded r ?t = (s', out)
      \<or> relogin v loaded r ?t = (s', out)"
    using assms by (auto simp: host_unauthorized_def Let_def split: if_splits)
  moreover have "relogin v loaded r ?t = (s', out) \<Longrightarrow> same_session ?t s' \<and> count_list out Refresh = 0"
    by (auto simp: relogin_def open_prompt_def clearReconnectingHost_def same_session_def split: if_splits)
  ultimately show ?thesis using open_prompt_session by (fastforce simp: same_session_def)
qed

lemma count_map_no [simp]: "(\<And>x. f x \<noteq> y) \<Longrightarrow> count_list (map f xs) y = 0"
  by (rule count_notin) auto

definition refreshes :: "ac_event list \<Rightarrow> nat" where
  "refreshes es = length (filter (\<lambda>e. case e of RefreshDone _ \<Rightarrow> True | _ \<Rightarrow> False) es)"

text \<open>A step keeps the waiting behind a request in flight, and sends at most one refresh at a time.\<close>

lemma session_step:
  assumes w: "waiters_inv s" and st: "ac_step pathname path e s = (s', out)"
    and u: "case e of Unauthorized _ _ _ _ \<Rightarrow> \<not> settling s | _ \<Rightarrow> True"
  shows "waiters_inv s' \<and> count_list out Refresh + (if ac_inFlight s then 1 else 0)
    \<le> refreshes [e] + (if ac_inFlight s' then 1 else 0)"
proof (cases e)
  case (Responded now r)
  then show ?thesis using st w
    by (auto simp: responded_def waiters_inv_def refreshes_def Let_def split: option.splits if_splits)
next
  case (Unauthorized loaded now r d)
  have host: ?thesis if "host_unauthorized v loaded now r d s = (s', out)" for v
    using host_session [OF that] w by (simp add: same_session_def waiters_inv_def refreshes_def Unauthorized)
  have app: ?thesis if "app_unauthorized path r s = (s', out)"
    using that w u
    by (auto simp: app_unauthorized_def refresh_failed_def settling_def waiters_inv_def refreshes_def Unauthorized Let_def
        split: if_splits)
  have "s' = s \<and> count_list out Refresh = 0 \<or> (\<exists>v. host_unauthorized v loaded now r d s = (s', out))
      \<or> app_unauthorized path r s = (s', out)"
    using st unfolding Unauthorized
    by (auto simp: unauthorized_def Let_def split: if_splits js.splits option.splits)
  then show ?thesis using w host app by (elim disjE exE) simp_all
next
  case (BadRequest loaded r d)
  then show ?thesis using st w
    by (auto simp: bad_request_def refreshes_def Let_def split: option.splits)
next
  case (ReloginDone v ok loaded)
  have "same_session s s' \<and> count_list out Refresh = 0"
  proof (cases ok)
    case True
    with st show ?thesis by (auto simp: ReloginDone relogin_done_def same_session_def Let_def)
  next
    case False
    then obtain t rs where "resume v loaded rs t = (s', out)" "same_session s t"
      using st by (auto simp: ReloginDone relogin_done_def same_session_def Let_def)
    with resume_session [of v loaded rs t s' out] show ?thesis by (simp add: same_session_def)
  qed
  with w show ?thesis by (simp add: same_session_def waiters_inv_def refreshes_def ReloginDone)
next
  case (RefreshDone tokens)
  then show ?thesis using st w
    by (auto simp: refresh_done_def refresh_failed_def waiters_inv_def refreshes_def Let_def split: if_splits option.splits)
next
  case ExpiryDone
  then show ?thesis using st w
    by (auto simp: expiry_done_def waiters_inv_def refreshes_def Let_def split: if_splits option.splits)
qed (use st w in \<open>auto simp: clearReconnectingHost_def waiters_inv_def refreshes_def\<close>)

lemma session_run:
  "waiters_inv s \<Longrightarrow> ac_run pathname path es s = (s', out) \<Longrightarrow> undisturbed pathname path es s \<Longrightarrow>
    waiters_inv s' \<and> count_list out Refresh + (if ac_inFlight s then 1 else 0) \<le> refreshes es + (if ac_inFlight s' then 1 else 0)"
proof (induction es arbitrary: s s' out)
  case (Cons e es)
  obtain s1 o1 where s1: "ac_step pathname path e s = (s1, o1)" by force
  obtain s2 o2 where s2: "ac_run pathname path es s1 = (s2, o2)" by force
  have r: "s' = s2" "out = o1 @ o2" using Cons.prems(2) s1 s2 by simp_all
  have u: "case e of Unauthorized _ _ _ _ \<Rightarrow> \<not> settling s | _ \<Rightarrow> True" "undisturbed pathname path es s1"
    using Cons.prems(3) s1 by simp_all
  have a: "waiters_inv s1 \<and> count_list o1 Refresh + (if ac_inFlight s then 1 else 0)
      \<le> refreshes [e] + (if ac_inFlight s1 then 1 else 0)"
    by (rule session_step [OF Cons.prems(1) s1 u(1)])
  have "refreshes (e # es) = refreshes [e] + refreshes es" by (simp add: refreshes_def)
  then show ?case using a Cons.IH [OF conjunct1 [OF a] s2 u(2)] r by simp
qed (simp add: refreshes_def)

text \<open>
  C8: every request that fails gets one answer. Over any run from the start, the requests that failed
  are those that were failed, raised or sent again so far and those that still wait, each once. As
  long as no request fails in the moment in which the client gives up an expired session, those that
  wait for a new access token wait behind a refresh in flight, and at most one is in flight at a time.
\<close>

theorem every_request_is_answered_once:
  assumes "ac_run pathname path es (init_api_client token refreshToken) = (s', out)"
  shows "mset (answered out) + mset (pending s') = mset (failed_requests es)
    \<and> (undisturbed pathname path es (init_api_client token refreshToken) \<longrightarrow>
         (ac_waiters s' \<noteq> [] \<longrightarrow> ac_inFlight s') \<and> count_list out Refresh \<le> Suc (refreshes es))"
proof
  have "app_inv (init_api_client token refreshToken)" by (simp add: app_inv_def init_api_client_def)
  from accounts_run [OF this assms] show "mset (answered out) + mset (pending s') = mset (failed_requests es)"
    by (simp add: accounts_def pending_def init_api_client_def)
  have "waiters_inv (init_api_client token refreshToken)" by (simp add: waiters_inv_def init_api_client_def)
  from session_run [OF this assms]
  show "undisturbed pathname path es (init_api_client token refreshToken) \<longrightarrow>
      (ac_waiters s' \<noteq> [] \<longrightarrow> ac_inFlight s') \<and> count_list out Refresh \<le> Suc (refreshes es)"
    by (auto simp: waiters_inv_def split: if_splits)
qed

theorem every_request_is_answered_once_witness:
  "\<exists>s' out. ac_run (\<lambda>u. u) ''/'' [Unauthorized True 20 (sample_request_of ''/brokers'' 10 0) Undefined,
     ReloginDone sample_uid True True] (init_api_client None None) = (s', out)
   \<and> mset (answered out) + mset (pending s') = {#0#}"
proof -
  let ?es = "[Unauthorized True 20 (sample_request_of ''/brokers'' 10 0) Undefined, ReloginDone sample_uid True True]"
  obtain s' out where r: "ac_run (\<lambda>u. u) ''/'' ?es (init_api_client None None) = (s', out)" by force
  have "failed_requests ?es = [0]" by (simp add: failed_requests_def sample_request_of_def)
  then show ?thesis using every_request_is_answered_once [OF r] r by auto
qed

end
