(* ===== verification/ReconnectFlow.thy ===== *)
theory ReconnectFlow
  imports ApiClientFacts HostFacts
begin

text \<open>
  The HTTP client, the host slice and the reconnect dialog together
  (\<open>apiClient.js\<close>, \<open>hostSlice.js\<close>, \<open>ReconnectHostModal.jsx\<close>): the client asks for a host by an action of
  the slice, the dialog shows the first host of the slice's queue, and its two buttons give the host
  free again. Only the client dispatches \<open>openReconnectModal\<close>, and only the dialog frees a host.
\<close>

fun apply_effect :: "ac_effect \<Rightarrow> host_state \<Rightarrow> host_state" where
  "apply_effect (OpenPrompt u) s = host_dispatch (False, Dialog (OpenReconnectModal u)) s"
| "apply_effect (Revoke u) s = host_dispatch (False, Ui (RevokeHostLogin u)) s"
| "apply_effect (Login u) s = host_dispatch (False, LoginToHost u Pending) s"
| "apply_effect _ s = s"

datatype flow_event = Net ac_event | Act bool host_action | Reconnected ha_info | Disconnected

fun flow_step ::
  "(string \<Rightarrow> string) \<Rightarrow> string \<Rightarrow> flow_event \<Rightarrow> api_client \<times> host_state \<Rightarrow> (api_client \<times> host_state) \<times> ac_effect list" where
  "flow_step pathname path (Net e) (c, h) =
     (let (c', out) = ac_step pathname path e c in ((c', fold apply_effect out h), out))"
| "flow_step pathname path (Act blocked a) (c, h) = ((c, host_dispatch (blocked, a) h), [])"
| "flow_step pathname path (Reconnected info) (c, h) =
     (((case hs_reconnectQueue h of [] \<Rightarrow> c | u # _ \<Rightarrow> clearReconnectingHost u c), handleReconnect_success info h), [])"
| "flow_step pathname path Disconnected (c, h) =
     (((case hs_reconnectQueue h of [] \<Rightarrow> c | u # _ \<Rightarrow> clearReconnectingHost u c), handleDisconnect_actions h), [])"

fun flow_run ::
  "(string \<Rightarrow> string) \<Rightarrow> string \<Rightarrow> flow_event list \<Rightarrow> api_client \<times> host_state \<Rightarrow> (api_client \<times> host_state) \<times> ac_effect list" where
  "flow_run pathname path [] s = (s, [])"
| "flow_run pathname path (e # es) s =
     (let (s1, out) = flow_step pathname path e s; (s2, outs) = flow_run pathname path es s1 in (s2, out @ outs))"

text \<open>Everyone keeps to the part that is theirs.\<close>

definition proper :: "flow_event \<Rightarrow> bool" where
  "proper e \<longleftrightarrow> (case e of
       Net (ClearReconnecting _) \<Rightarrow> False
     | Act _ (Dialog (OpenReconnectModal _)) \<Rightarrow> False
     | _ \<Rightarrow> True)"

section \<open>The queue only grows by a prompt\<close>

abbreviation queue :: "host_state \<Rightarrow> string set" where
  "queue s \<equiv> set (hs_reconnectQueue s)"

lemma queue_frames [simp]:
  "hs_reconnectQueue (request_pending s) = hs_reconnectQueue s"
  "hs_reconnectQueue (request_rejected e s) = hs_reconnectQueue s"
  "hs_reconnectQueue (syncHaInfoStorage b s) = hs_reconnectQueue s"
  "hs_reconnectQueue (syncHostSelection s) = hs_reconnectQueue s"
  "hs_reconnectQueue (purgeHostClientState u s) = hs_reconnectQueue s"
  by (simp_all add: request_pending_def request_rejected_def syncHaInfoStorage_def syncHostSelection_def
      syncSelectedHost_def purgeHostClientState_def Let_def split: option.split)

lemma queue_purge_many [simp]: "hs_reconnectQueue (fold purgeHostClientState us s) = hs_reconnectQueue s"
  by (induction us arbitrary: s) auto

lemma queue_fetchHosts: "queue (reduce_fetchHosts b p s) \<subseteq> queue s"
  by (induction b p s rule: reduce_fetchHosts.induct) (auto simp: hydrateAuthorizedHosts_def)

lemma queue_addHost: "queue (reduce_addHost b p s) \<subseteq> queue s"
  by (induction b p s rule: reduce_addHost.induct) (auto simp: Let_def split: option.split)

lemma queue_login: "queue (reduce_loginToHost u p s) \<subseteq> queue s"
  by (cases p) (auto simp: loginFulfilled_def loginRejected_def Let_def)

lemma queue_tree_edits:
  "queue (reduce_deleteHost b p1 s) \<subseteq> queue s" "queue (reduce_editHost b p2 s) \<subseteq> queue s"
  "queue (reduce_moveHost b p2 s) \<subseteq> queue s" "queue (reduce_createHostGroup b p2 s) \<subseteq> queue s"
  "queue (reduce_updateHostGroup b p2 s) \<subseteq> queue s"
  by (cases p1; auto; fail | cases p2; auto; fail)+

lemma queue_deleteHostGroup: "queue (reduce_deleteHostGroup b p s) \<subseteq> queue s"
  by (cases p) (auto simp: Let_def split: option.splits if_splits)

lemma queue_other:
  "queue (reduce_host_ui a s) \<subseteq> queue s" "queue (reduce_host_ha ha s) \<subseteq> queue s"
  by (cases a; auto simp: Let_def) (cases ha; auto split: prod.split)

lemma set_tl: "set (tl xs) \<subseteq> set xs"
  by (cases xs) auto

lemma queue_dialog: "(\<And>u. d \<noteq> OpenReconnectModal u) \<Longrightarrow> queue (reduce_host_dialog d s) \<subseteq> queue s"
  by (cases d) (auto dest: subsetD [OF set_tl])

lemma queue_reduce:
  assumes "\<And>u. a \<noteq> Dialog (OpenReconnectModal u)"
  shows "queue (host_reduce b a s) \<subseteq> queue s"
proof (cases a)
  case (Dialog d)
  with assms queue_dialog [of d s] show ?thesis by simp
next
  case (StartService p)
  then show ?thesis by (cases p) auto
next
  case (StopService p)
  then show ?thesis by (cases p) auto
next
  case (MergeHaPeers p)
  then show ?thesis by (cases p) auto
next
  case (SetHostPassword p)
  then show ?thesis by (cases p) auto
next
  case (FetchHostEnv v p)
  then show ?thesis by (cases p) auto
next
  case (FetchCmsUsers v p)
  then show ?thesis by (cases p) auto
next
  case (CmsUserChange p)
  then show ?thesis by (cases p) auto
next
  case (LoginHostsBatch p)
  then show ?thesis by (cases p) auto
qed (use queue_fetchHosts queue_addHost queue_login queue_tree_edits queue_deleteHostGroup queue_other in
    \<open>auto simp: refreshHaInfoFulfilled_def dest: subsetD\<close>)

lemma queue_dispatch:
  assumes "\<And>u. a \<noteq> Dialog (OpenReconnectModal u)"
  shows "queue (host_dispatch (b, a) s) \<subseteq> queue s"
  using queue_reduce [OF assms, of b s] host_dispatch_cases [of b a s] by auto

lemma queue_host_run:
  "(\<And>b a u. (b, a) \<in> set as \<Longrightarrow> a \<noteq> Dialog (OpenReconnectModal u)) \<Longrightarrow> queue (host_run as s) \<subseteq> queue s"
proof (induction as arbitrary: s)
  case (Cons ba as)
  obtain b a where ba: "ba = (b, a)" by force
  have "queue (host_dispatch (b, a) s) \<subseteq> queue s" using Cons.prems ba by (intro queue_dispatch) auto
  moreover have "queue (host_run as (host_dispatch (b, a) s)) \<subseteq> queue (host_dispatch (b, a) s)"
    using Cons by auto
  ultimately show ?case by (simp add: host_run_def ba)
qed (simp add: host_run_def)

lemma queue_handleReconnect: "queue (handleReconnect_success info h) \<subseteq> queue h"
proof (cases "hs_reconnectQueue h")
  case (Cons u us)
  have "queue (host_run [(False, LoginToHost u Pending), (False, LoginToHost u (Fulfilled info)),
      (False, Dialog CloseReconnectModal)] h) \<subseteq> queue h"
    by (rule queue_host_run) auto
  then show ?thesis unfolding handleReconnect_success_def Cons list.case .
qed (simp add: handleReconnect_success_def)

lemma queue_handleDisconnect: "queue (handleDisconnect_actions h) \<subseteq> queue h"
proof (cases "hs_reconnectQueue h")
  case (Cons u us)
  have "queue (host_run [(False, Ui (RevokeHostLogin u)), (False, Dialog CloseReconnectModal),
      (False, Dialog ClearHostError)] h) \<subseteq> queue h"
    by (rule queue_host_run) auto
  then show ?thesis unfolding handleDisconnect_actions_def Cons list.case .
qed (simp add: handleDisconnect_actions_def)

section \<open>A dropped prompt\<close>

definition stuck :: "string \<Rightarrow> api_client \<times> host_state \<Rightarrow> bool" where
  "stuck v s \<longleftrightarrow> v \<in> set (ac_reconnecting (fst s)) \<and> v \<notin> queue (snd s)"

lemma effect_keeps_out:
  "e \<noteq> OpenPrompt v \<Longrightarrow> v \<notin> queue h \<Longrightarrow> v \<notin> queue (apply_effect e h)"
proof (cases e)
  case (OpenPrompt u)
  assume "e \<noteq> OpenPrompt v" "v \<notin> queue h"
  with OpenPrompt show ?thesis by (auto simp: host_dispatch_def host_step_def)
next
  case (Revoke u)
  assume "v \<notin> queue h"
  with Revoke show ?thesis using queue_dispatch [of "Ui (RevokeHostLogin u)" False h] by auto
next
  case (Login u)
  assume "v \<notin> queue h"
  with Login show ?thesis using queue_dispatch [of "LoginToHost u Pending" False h] by auto
qed simp_all

lemma effects_keep_out: "OpenPrompt v \<notin> set out \<Longrightarrow> v \<notin> queue h \<Longrightarrow> v \<notin> queue (fold apply_effect out h)"
proof (induction out arbitrary: h)
  case (Cons e out)
  then show ?case using effect_keeps_out [of e v h] by auto
qed simp

lemma stuck_step:
  assumes st: "flow_step pathname path e s = (s', out)" and "stuck v s" "proper e"
  shows "stuck v s' \<and> quiet v out"
proof -
  obtain c h where s: "s = (c, h)" by force
  have v: "v \<in> set (ac_reconnecting c)" "v \<notin> queue h" using assms(2) by (simp_all add: s stuck_def)
  have head: "v \<in> set (ac_reconnecting (case hs_reconnectQueue h of [] \<Rightarrow> c | u # _ \<Rightarrow> clearReconnectingHost u c))"
    using v by (cases "hs_reconnectQueue h") auto
  show ?thesis
  proof (cases e)
    case (Net x)
    obtain c' where c': "ac_step pathname path x c = (c', out)" "s' = (c', fold apply_effect out h)"
      using st by (auto simp: Net s split: prod.splits)
    have "x \<noteq> ClearReconnecting v" using assms(3) by (auto simp: Net proper_def)
    from prompted_step [OF c'(1) v(1) this] have q: "v \<in> set (ac_reconnecting c')" "quiet v out" by simp_all
    then show ?thesis using effects_keep_out [of v out h] v(2) by (simp add: c'(2) stuck_def quiet_def)
  next
    case (Act b a)
    have "\<And>u. a \<noteq> Dialog (OpenReconnectModal u)" using assms(3) by (auto simp: Act proper_def)
    from queue_dispatch [OF this, of b h] st v show ?thesis by (auto simp: Act s stuck_def)
  next
    case (Reconnected info)
    then show ?thesis using st head v queue_handleReconnect [of info h] by (auto simp: s stuck_def)
  next
    case Disconnected
    then show ?thesis using st head v queue_handleDisconnect [of h] by (auto simp: s stuck_def)
  qed
qed

lemma stuck_run:
  "flow_run pathname path es s = (s', out) \<Longrightarrow> stuck v s \<Longrightarrow> (\<And>e. e \<in> set es \<Longrightarrow> proper e) \<Longrightarrow> stuck v s' \<and> quiet v out"
proof (induction es arbitrary: s s' out)
  case (Cons e es)
  obtain s1 o1 where s1: "flow_step pathname path e s = (s1, o1)" by (metis prod.exhaust)
  obtain s2 o2 where s2: "flow_run pathname path es s1 = (s2, o2)" by (metis prod.exhaust)
  have r: "s' = s2" "out = o1 @ o2" using Cons.prems(1) s1 s2 by simp_all
  have "stuck v s1 \<and> quiet v o1" using stuck_step [OF s1 Cons.prems(2)] Cons.prems(3) by simp
  then show ?case using Cons.IH [OF s2] Cons.prems(3) r by simp
qed simp

text \<open>
  C37: a prompt that is dropped is lost for good. Two hosts wait for the user, and the user reconnects
  the first: the prompt of the second goes with it, but the client still takes the second for one
  that the user is being asked about. From then on, whatever happens, the user is never asked about
  it again, and no failure of its requests gives up its session or logs in to it.
\<close>

theorem dropped_prompt_never_returns:
  assumes "hs_reconnectQueue h = u # v # rest" "distinct (u # v # rest)" "v \<in> set (ac_reconnecting c)"
    and "flow_run pathname path (Reconnected info # es) (c, h) = ((c', h'), out)"
    and "\<And>e. e \<in> set es \<Longrightarrow> proper e"
  shows "v \<notin> set (hs_reconnectQueue h') \<and> v \<in> set (ac_reconnecting c')
    \<and> OpenPrompt v \<notin> set out \<and> Revoke v \<notin> set out \<and> Login v \<notin> set out"
proof -
  have "filter (\<lambda>x. x \<noteq> u) (u # v # rest) = v # rest" using assms(2) by (auto intro: filter_True)
  then have "hs_reconnectQueue (handleReconnect_success info h) = rest"
    using assms(1) by (simp add: handleReconnect_success_def host_run_def host_dispatch_def host_step_def login_queue
        del: reduce_loginToHost.simps(2))
  then have "stuck v (clearReconnectingHost u c, handleReconnect_success info h)"
    using assms(2,3) by (auto simp: stuck_def)
  moreover obtain out1 where "flow_run pathname path es (clearReconnectingHost u c, handleReconnect_success info h) = ((c', h'), out1)"
    "out = out1"
    using assms(1,4) by (auto split: prod.splits)
  ultimately show ?thesis using stuck_run assms(5) by (fastforce simp: stuck_def quiet_def)
qed

theorem dropped_prompt_never_returns_witness:
  "\<exists>c' h' out. flow_run (\<lambda>u. u) ''/''
       [Reconnected \<lparr>hai_isHA = Bool False, hai_currentNodeType = None, hai_haNodes = []\<rparr>,
        Net (Unauthorized True 9 (sample_request_of ''/brokers'' 8 0) Undefined)]
       ((init_api_client None None)\<lparr>ac_reconnecting := [''u1'', sample_uid]\<rparr>,
        (init_host_state [])\<lparr>hs_reconnectQueue := [''u1'', sample_uid]\<rparr>) = ((c', h'), out)
     \<and> sample_uid \<notin> set (hs_reconnectQueue h') \<and> OpenPrompt sample_uid \<notin> set out"
proof -
  let ?info = "\<lparr>hai_isHA = Bool False, hai_currentNodeType = None, hai_haNodes = []\<rparr>"
  let ?e = "Net (Unauthorized True 9 (sample_request_of ''/brokers'' 8 0) Undefined)"
  let ?c = "(init_api_client None None)\<lparr>ac_reconnecting := [''u1'', sample_uid]\<rparr>"
  let ?h = "(init_host_state [])\<lparr>hs_reconnectQueue := [''u1'', sample_uid]\<rparr>"
  obtain c' h' out where r: "flow_run (\<lambda>u. u) ''/'' (Reconnected ?info # [?e]) (?c, ?h) = ((c', h'), out)"
    by (metis prod.exhaust)
  have p: "\<And>e. e \<in> set [?e] \<Longrightarrow> proper e" by (simp add: proper_def)
  have q: "hs_reconnectQueue ?h = ''u1'' # sample_uid # []" by simp
  have d: "distinct (''u1'' # sample_uid # [])" by (simp add: sample_uid_def)
  have m: "sample_uid \<in> set (ac_reconnecting ?c)" by simp
  from dropped_prompt_never_returns [OF q d m r p] have o: "OpenPrompt sample_uid \<notin> set out" "sample_uid \<notin> set (hs_reconnectQueue h')" by simp_all
  show ?thesis using r o by blast
qed

end
