(* ===== verification/RefreshTokens.thy ===== *)
theory RefreshTokens
  imports JsPrelude
begin

text \<open>
  Model of the sign-in of the API server: \<open>auth/auth.service.ts\<close>, \<open>token/refresh-token.service.ts\<close>,
  \<open>token/token-blacklist.service.ts\<close> and \<open>token/jwt-strategy.ts\<close>.

  A refresh token is a file named by its hash. A rotation claims the file by renaming it, signs a new
  pair, writes the file of the successor, notes the claimed token as spent, and removes the claimed
  file. Every call of the file system is a step of its own, so that requests interleave at each of
  them: a request in progress is a \<open>phase\<close>, and \<open>advance\<close> takes it to its next one or to the reply.

  SHA-256 is the parameter \<open>sha\<close>; random tokens, ids and names are inputs of the steps, as are the clock (in
  milliseconds) and whether the call of the file system succeeds. A write that fails leaves no file. How many files a
  clean-up removed is only logged and is not modelled.
\<close>

section \<open>Files\<close>

definition ACCESS_TOKEN_EXPIRES_SEC :: int where "ACCESS_TOKEN_EXPIRES_SEC = 24 * 60 * 60"
definition REFRESH_TOKEN_EXPIRES_MS :: int where "REFRESH_TOKEN_EXPIRES_MS = 14 * 24 * 60 * 60 * 1000"

record token_record =
  tr_userId :: string
  tr_familyId :: string
  tr_expiresAt :: int
  tr_createdAt :: int

text \<open>The payload of an access token, with the fields that may be missing.\<close>

record access_payload =
  ap_sub :: "string option"
  ap_jti :: "string option"
  ap_type :: "string option"
  ap_exp :: "int option"

record consume_session =
  cs_tokenHash :: string
  cs_nonce :: string
  cs_record :: token_record

datatype token_file = Active string | Consuming string string | Consumed string | Barred string

datatype token_dir = TokenRoot | ConsumedRoot | BlacklistRoot

fun dir_of :: "token_file \<Rightarrow> token_dir" where
  "dir_of (Active _) = TokenRoot"
| "dir_of (Consuming _ _) = TokenRoot"
| "dir_of (Consumed _) = ConsumedRoot"
| "dir_of (Barred _) = BlacklistRoot"

text \<open>A file holds a token, a spent token with the time it was spent at, a barred id with its expiry,
  or something that does not parse.\<close>

datatype token_content = Token token_record | Spent token_record int | Bar string int | Garbled

type_synonym token_files = "(token_file, token_content) obj"

fun expires_at :: "token_content \<Rightarrow> int option" where
  "expires_at (Token r) = Some (tr_expiresAt r)"
| "expires_at (Spent r _) = Some (tr_expiresAt r)"
| "expires_at (Bar _ t) = Some t"
| "expires_at Garbled = None"

text \<open>What a pass over a directory removes: the tokens of a family, or what has expired.\<close>

datatype token_pass = Family string | Expired int

fun due_file :: "token_pass \<Rightarrow> token_content \<Rightarrow> bool" where
  "due_file (Family f) c = (case c of Token r \<Rightarrow> tr_familyId r = f | Spent r _ \<Rightarrow> tr_familyId r = f | Bar _ _ \<Rightarrow> False | Garbled \<Rightarrow> True)"
| "due_file (Expired now) c = (case expires_at c of Some t \<Rightarrow> now \<ge> t | None \<Rightarrow> True)"

section \<open>Requests and their phases\<close>

datatype token_request =
    LoginRq string bool bool
  | RefreshRq string
  | LogoutRq "string option" "int option" "string option"
  | AccessRq access_payload
  | PurgeTokensRq int
  | PurgeBlacklistRq int

datatype token_phase =
    Claiming string
  | Looking string
  | Reading string string
  | Dropping string string
  | Signing string "string option" "consume_session option"
  | Creating access_payload string "string option" "consume_session option"
  | Committing access_payload string consume_session
  | Unlocking access_payload string consume_session
  | Restoring consume_session
  | Blacklisting string int "string option"
  | Revoking string
  | Checking access_payload string
  | Forgetting access_payload string
  | Listing token_pass "token_dir list"
  | Sweeping token_pass "token_file list" "token_dir list"
  | Removing token_pass token_file "token_file list" "token_dir list"

datatype token_reply =
    Tokens access_payload string
  | InvalidCredentials | RefreshReused | RefreshInvalid | Broken | LoggedOut
  | Granted access_payload | RefusedType | RefusedRevoked | Cleaned

text \<open>\<open>login\<close>, \<open>refresh\<close>, \<open>logout\<close>, \<open>validate\<close> and the two clean-ups up to their first call.\<close>

fun start_logout :: "(string \<Rightarrow> string) \<Rightarrow> string option \<Rightarrow> token_phase + token_reply" where
  "start_logout sha refreshToken =
     (case refreshToken of
        Some t \<Rightarrow> if t = [] then Inr LoggedOut else Inl (Revoking (sha t))
      | None \<Rightarrow> Inr LoggedOut)"

definition validate :: "access_payload \<Rightarrow> token_phase + token_reply" where
  "validate payload =
     (if ap_type payload \<noteq> Some ''access'' then Inr RefusedType
      else (case ap_jti payload of
              Some jti \<Rightarrow> if jti = [] then Inr (Granted payload) else Inl (Checking payload jti)
            | None \<Rightarrow> Inr (Granted payload)))"

fun start_request :: "(string \<Rightarrow> string) \<Rightarrow> token_request \<Rightarrow> token_phase + token_reply" where
  "start_request sha (LoginRq userId found matches) =
     (if \<not> found \<or> \<not> matches then Inr InvalidCredentials else Inl (Signing userId None None))"
| "start_request sha (RefreshRq token) = Inl (Claiming (sha token))"
| "start_request sha (LogoutRq jti exp refreshToken) =
     (case (jti, exp) of
        (Some j, Some e) \<Rightarrow> if j \<noteq> [] \<and> e \<noteq> 0 then Inl (Blacklisting j (e * 1000) refreshToken)
                            else start_logout sha refreshToken
      | _ \<Rightarrow> start_logout sha refreshToken)"
| "start_request sha (AccessRq payload) = validate payload"
| "start_request sha (PurgeTokensRq now) = Inl (Listing (Expired now) [TokenRoot, ConsumedRoot])"
| "start_request sha (PurgeBlacklistRq now) = Inl (Listing (Expired now) [BlacklistRoot])"

text \<open>The next directory of a pass, or its end.\<close>

fun next_dir :: "token_pass \<Rightarrow> token_dir list \<Rightarrow> token_phase + token_reply" where
  "next_dir sw (d # ds) = Inl (Listing sw (d # ds))"
| "next_dir (Family f) [] = Inr RefreshReused"
| "next_dir (Expired now) [] = Inr Cleaned"

definition failed_issue :: "consume_session option \<Rightarrow> token_phase + token_reply" where
  "failed_issue session = (case session of Some s \<Rightarrow> Inl (Restoring s) | None \<Rightarrow> Inr Broken)"

definition access_token :: "string \<Rightarrow> string \<Rightarrow> int \<Rightarrow> access_payload" where
  "access_token userId jti now =
     \<lparr>ap_sub = Some userId, ap_jti = Some jti, ap_type = Some ''access'',
      ap_exp = Some (now div 1000 + ACCESS_TOKEN_EXPIRES_SEC)\<rparr>"

definition new_record :: "string \<Rightarrow> string \<Rightarrow> int \<Rightarrow> token_record" where
  "new_record userId familyId now =
     \<lparr>tr_userId = userId, tr_familyId = familyId, tr_expiresAt = now + REFRESH_TOKEN_EXPIRES_MS, tr_createdAt = now\<rparr>"

section \<open>Steps\<close>

text \<open>\<open>consumeForRotation\<close>: the rename, and then either the file of the spent token or the claimed file.\<close>

definition claim_token ::
  "int \<Rightarrow> bool \<Rightarrow> string \<Rightarrow> string \<Rightarrow> token_files \<Rightarrow> token_files \<times> (token_phase + token_reply)" where
  "claim_token now ok nonce h st =
     (if \<not> ok then (st, Inr Broken)
      else (case map_of st (Active h) of
              None \<Rightarrow> (st, Inl (Looking h))
            | Some c \<Rightarrow> (obj_set (Consuming h nonce) c (obj_del (Active h) st), Inl (Reading h nonce))))"

definition look_consumed :: "int \<Rightarrow> bool \<Rightarrow> string \<Rightarrow> token_files \<Rightarrow> token_files \<times> (token_phase + token_reply)" where
  "look_consumed now ok h st =
     (st, if \<not> ok then Inr Broken
          else (case map_of st (Consumed h) of
                  Some (Spent r _) \<Rightarrow> if now < tr_expiresAt r then Inl (Listing (Family (tr_familyId r)) [TokenRoot])
                                     else Inr RefreshInvalid
                | Some _ \<Rightarrow> Inr Broken
                | None \<Rightarrow> Inr RefreshInvalid))"

definition read_claimed ::
  "int \<Rightarrow> bool \<Rightarrow> string \<Rightarrow> string \<Rightarrow> token_files \<Rightarrow> token_files \<times> (token_phase + token_reply)" where
  "read_claimed now ok h nonce st =
     (st, case (if ok then map_of st (Consuming h nonce) else None) of
            Some (Token r) \<Rightarrow>
              if now \<ge> tr_expiresAt r then Inl (Dropping h nonce)
              else Inl (Signing (tr_userId r) (Some (tr_familyId r))
                         (Some \<lparr>cs_tokenHash = h, cs_nonce = nonce, cs_record = r\<rparr>))
          | _ \<Rightarrow> Inl (Dropping h nonce))"

text \<open>\<open>issueTokenPair\<close>: the access token is signed, and the refresh token is written by \<open>create\<close>.\<close>

definition create_token ::
  "(string \<Rightarrow> string) \<Rightarrow> int \<Rightarrow> bool \<Rightarrow> string \<Rightarrow> string \<Rightarrow> access_payload \<Rightarrow> string \<Rightarrow> string option
    \<Rightarrow> consume_session option \<Rightarrow> token_files \<Rightarrow> token_files \<times> (token_phase + token_reply)" where
  "create_token sha now ok token uuid access userId familyId session st =
     (if \<not> ok then (st, failed_issue session)
      else (obj_set (Active (sha token))
              (Token (new_record userId (case familyId of Some f \<Rightarrow> f | None \<Rightarrow> uuid) now)) st,
            case session of Some s \<Rightarrow> Inl (Committing access token s) | None \<Rightarrow> Inr (Tokens access token)))"

definition commitConsume ::
  "int \<Rightarrow> bool \<Rightarrow> access_payload \<Rightarrow> string \<Rightarrow> consume_session \<Rightarrow> token_files \<Rightarrow> token_files \<times> (token_phase + token_reply)" where
  "commitConsume now ok access token s st =
     (if \<not> ok then (st, Inl (Restoring s))
      else (obj_set (Consumed (cs_tokenHash s)) (Spent (cs_record s) now) st, Inl (Unlocking access token s)))"

definition rollbackConsume :: "bool \<Rightarrow> consume_session \<Rightarrow> token_files \<Rightarrow> token_files" where
  "rollbackConsume ok s st =
     (case map_of st (Consuming (cs_tokenHash s) (cs_nonce s)) of
        Some c \<Rightarrow> if ok then obj_set (Active (cs_tokenHash s)) c (obj_del (Consuming (cs_tokenHash s) (cs_nonce s)) st) else st
      | None \<Rightarrow> st)"

definition unlink :: "bool \<Rightarrow> token_file \<Rightarrow> token_files \<Rightarrow> token_files" where
  "unlink ok f st = (if ok then obj_del f st else st)"

text \<open>\<open>isBlacklisted\<close>\<close>

definition check_blacklist ::
  "(string \<Rightarrow> string) \<Rightarrow> int \<Rightarrow> bool \<Rightarrow> access_payload \<Rightarrow> string \<Rightarrow> token_files \<Rightarrow> token_phase + token_reply" where
  "check_blacklist sha now ok payload jti st =
     (if \<not> ok then Inr Broken
      else (case map_of st (Barred (sha jti)) of
              None \<Rightarrow> Inr (Granted payload)
            | Some c \<Rightarrow> (case expires_at c of
                           None \<Rightarrow> Inr Broken
                         | Some t \<Rightarrow> if now \<ge> t then Inl (Forgetting payload jti) else Inr RefusedRevoked)))"

text \<open>One file of a pass: a file that is due, or that cannot be read, is removed.\<close>

definition sweep_file :: "token_pass \<Rightarrow> bool \<Rightarrow> token_file \<Rightarrow> token_files \<Rightarrow> bool" where
  "sweep_file sw ok f st =
     (if \<not> ok then True else (case map_of st f of None \<Rightarrow> True | Some c \<Rightarrow> due_file sw c))"

fun advance ::
  "(string \<Rightarrow> string) \<Rightarrow> int \<Rightarrow> bool \<Rightarrow> string \<Rightarrow> string \<Rightarrow> token_phase \<Rightarrow> token_files
    \<Rightarrow> token_files \<times> (token_phase + token_reply)" where
  "advance sha now ok fresh uuid (Claiming h) st = claim_token now ok uuid h st"
| "advance sha now ok fresh uuid (Looking h) st = look_consumed now ok h st"
| "advance sha now ok fresh uuid (Reading h nonce) st = read_claimed now ok h nonce st"
| "advance sha now ok fresh uuid (Dropping h nonce) st = (unlink ok (Consuming h nonce) st, Inr RefreshInvalid)"
| "advance sha now ok fresh uuid (Signing userId familyId session) st =
     (st, if ok then Inl (Creating (access_token userId uuid now) userId familyId session) else failed_issue session)"
| "advance sha now ok fresh uuid (Creating access userId familyId session) st =
     create_token sha now ok fresh uuid access userId familyId session st"
| "advance sha now ok fresh uuid (Committing access token s) st = commitConsume now ok access token s st"
| "advance sha now ok fresh uuid (Unlocking access token s) st =
     (unlink ok (Consuming (cs_tokenHash s) (cs_nonce s)) st, Inr (Tokens access token))"
| "advance sha now ok fresh uuid (Restoring s) st = (rollbackConsume ok s st, Inr Broken)"
| "advance sha now ok fresh uuid (Blacklisting jti expiresAt refreshToken) st =
     (if ok then (obj_set (Barred (sha jti)) (Bar jti expiresAt) st, start_logout sha refreshToken) else (st, Inr Broken))"
| "advance sha now ok fresh uuid (Revoking h) st = (unlink ok (Active h) st, Inr LoggedOut)"
| "advance sha now ok fresh uuid (Checking payload jti) st = (st, check_blacklist sha now ok payload jti st)"
| "advance sha now ok fresh uuid (Forgetting payload jti) st = (unlink ok (Barred (sha jti)) st, Inr (Granted payload))"
| "advance sha now ok fresh uuid (Listing sw ds) st =
     (if \<not> ok then (st, Inr Broken)
      else (case ds of
              [] \<Rightarrow> (st, next_dir sw [])
            | d # ds' \<Rightarrow> (st, Inl (Sweeping sw (filter (\<lambda>f. dir_of f = d) (obj_keys st)) ds'))))"
| "advance sha now ok fresh uuid (Sweeping sw [] ds) st = (st, next_dir sw ds)"
| "advance sha now ok fresh uuid (Sweeping sw (f # fs) ds) st =
     (st, Inl (if sweep_file sw ok f st then Removing sw f fs ds else Sweeping sw fs ds))"
| "advance sha now ok fresh uuid (Removing sw f fs ds) st = (unlink ok f st, Inl (Sweeping sw fs ds))"

section \<open>The server\<close>

text \<open>\<open>tk_log\<close> are the replies given so far, each with its request.\<close>

record token_server =
  tk_files :: token_files
  tk_procs :: "(nat, token_request \<times> token_phase) obj"
  tk_log :: "(token_request \<times> token_reply) list"

datatype sign_in_event = Arrive nat token_request | Turn nat int bool string string | Restart

definition settle_turn ::
  "nat \<Rightarrow> token_request \<Rightarrow> token_phase + token_reply \<Rightarrow> token_server \<Rightarrow> token_server" where
  "settle_turn pid rq r s =
     (case r of
        Inl ph \<Rightarrow> s\<lparr>tk_procs := obj_set pid (rq, ph) (tk_procs s)\<rparr>
      | Inr reply \<Rightarrow> s\<lparr>tk_procs := obj_del pid (tk_procs s), tk_log := (rq, reply) # tk_log s\<rparr>)"

fun sign_in_step :: "(string \<Rightarrow> string) \<Rightarrow> sign_in_event \<Rightarrow> token_server \<Rightarrow> token_server" where
  "sign_in_step sha (Arrive pid rq) s =
     (if map_of (tk_procs s) pid \<noteq> None then s else settle_turn pid rq (start_request sha rq) s)"
| "sign_in_step sha (Turn pid now ok fresh uuid) s =
     (case map_of (tk_procs s) pid of
        None \<Rightarrow> s
      | Some (rq, ph) \<Rightarrow>
          (let (files, r) = advance sha now ok fresh uuid ph (tk_files s)
           in settle_turn pid rq r (s\<lparr>tk_files := files\<rparr>)))"
| "sign_in_step sha Restart s = s\<lparr>tk_procs := []\<rparr>"

definition token_run :: "(string \<Rightarrow> string) \<Rightarrow> sign_in_event list \<Rightarrow> token_server \<Rightarrow> token_server" where
  "token_run sha es s = fold (sign_in_step sha) es s"

definition init_token_server :: "token_files \<Rightarrow> token_server" where
  "init_token_server st = \<lparr>tk_files = st, tk_procs = [], tk_log = []\<rparr>"

end
