(* ===== verification/RefreshTokenFacts.thy ===== *)
theory RefreshTokenFacts
  imports RefreshTokens
begin

text \<open>
  What holds of the sign-in: a refresh token is rotated at most once on every schedule, a token that
  was rotated and comes back takes its family with it, a rotation under way can escape that, and
  after a logout neither of the two tokens is accepted again.
\<close>

section \<open>Counting in an object\<close>

definition obj_count :: "('v \<Rightarrow> bool) \<Rightarrow> ('k, 'v) obj \<Rightarrow> nat" where
  "obj_count P ob = length (filter (\<lambda>kv. P (snd kv)) ob)"

lemma obj_count_Nil [simp]: "obj_count P [] = 0"
  by (simp add: obj_count_def)

lemma obj_count_del:
  "obj_wf ob \<Longrightarrow> obj_count P (obj_del k ob) + (case map_of ob k of Some v \<Rightarrow> of_bool (P v) | None \<Rightarrow> 0) = obj_count P ob"
proof (induction ob)
  case (Cons kv ob)
  obtain k' v' where kv: "kv = (k', v')" by force
  have wf: "obj_wf ob" using Cons.prems by (simp add: obj_wf_def)
  show ?case
  proof (cases "k' = k")
    case True
    then have "k \<notin> fst ` set ob" using Cons.prems by (auto simp: obj_wf_def kv)
    then have "obj_del k ob = ob" by simp
    then show ?thesis by (simp add: kv True obj_count_def)
  next
    case False
    then show ?thesis using Cons.IH [OF wf] by (auto simp: kv obj_count_def)
  qed
qed simp

lemma obj_count_set:
  "obj_wf ob \<Longrightarrow> obj_count P (obj_set k v ob) + (case map_of ob k of Some w \<Rightarrow> of_bool (P w) | None \<Rightarrow> 0)
     = obj_count P ob + of_bool (P v)"
proof (induction ob)
  case Nil
  then show ?case by (simp add: obj_count_def)
next
  case (Cons kv ob)
  obtain k' v' where kv: "kv = (k', v')" by force
  have wf: "obj_wf ob" using Cons.prems by (simp add: obj_wf_def)
  show ?case using Cons.IH [OF wf] by (auto simp: kv obj_count_def)
qed

section \<open>At most one rotation\<close>

definition asks_for :: "(string \<Rightarrow> string) \<Rightarrow> string \<Rightarrow> token_request \<Rightarrow> bool" where
  "asks_for sha h rq \<longleftrightarrow> (case rq of RefreshRq t \<Rightarrow> sha t = h | _ \<Rightarrow> False)"

text \<open>The token that a request holds claimed.\<close>

definition claimed :: "token_phase \<Rightarrow> string option" where
  "claimed ph = (case ph of
       Reading h _ \<Rightarrow> Some h
     | Dropping h _ \<Rightarrow> Some h
     | Signing _ _ session \<Rightarrow> map_option cs_tokenHash session
     | Creating _ _ _ session \<Rightarrow> map_option cs_tokenHash session
     | Committing _ _ s \<Rightarrow> Some (cs_tokenHash s)
     | Unlocking _ _ s \<Rightarrow> Some (cs_tokenHash s)
     | Restoring s \<Rightarrow> Some (cs_tokenHash s)
     | _ \<Rightarrow> None)"

text \<open>A phase belongs to its request.\<close>

definition fits :: "(string \<Rightarrow> string) \<Rightarrow> token_request \<Rightarrow> token_phase \<Rightarrow> bool" where
  "fits sha rq ph \<longleftrightarrow>
     (case claimed ph of
        Some h \<Rightarrow> asks_for sha h rq
      | None \<Rightarrow> (case ph of
            Claiming h \<Rightarrow> asks_for sha h rq
          | Looking h \<Rightarrow> asks_for sha h rq
          | Signing _ _ _ \<Rightarrow> (\<exists>u f m. rq = LoginRq u f m)
          | Creating _ _ _ _ \<Rightarrow> (\<exists>u f m. rq = LoginRq u f m)
          | _ \<Rightarrow> True))"

definition rotated :: "(string \<Rightarrow> string) \<Rightarrow> string \<Rightarrow> token_request \<times> token_reply \<Rightarrow> bool" where
  "rotated sha h e \<longleftrightarrow> asks_for sha h (fst e) \<and> (case snd e of Tokens _ _ \<Rightarrow> True | _ \<Rightarrow> False)"

definition present :: "token_file \<Rightarrow> token_files \<Rightarrow> nat" where
  "present f st = of_bool (map_of st f \<noteq> None)"

text \<open>How often a token is there to be used, in use, or used up.\<close>

definition token_uses :: "(string \<Rightarrow> string) \<Rightarrow> string \<Rightarrow> token_server \<Rightarrow> nat" where
  "token_uses sha h s =
     present (Active h) (tk_files s) + obj_count (\<lambda>(rq, ph). claimed ph = Some h) (tk_procs s)
     + length (filter (rotated sha h) (tk_log s))"

definition result_use :: "(string \<Rightarrow> string) \<Rightarrow> string \<Rightarrow> token_request \<Rightarrow> token_phase + token_reply \<Rightarrow> nat" where
  "result_use sha h rq r =
     (case r of Inl ph \<Rightarrow> of_bool (claimed ph = Some h) | Inr reply \<Rightarrow> of_bool (rotated sha h (rq, reply)))"

definition token_inv :: "(string \<Rightarrow> string) \<Rightarrow> token_server \<Rightarrow> bool" where
  "token_inv sha s \<longleftrightarrow> obj_wf (tk_procs s)
     \<and> (\<forall>pid rq ph. map_of (tk_procs s) pid = Some (rq, ph) \<longrightarrow> fits sha rq ph)"

lemma present_simps [simp]:
  "present f (obj_set f' c st) = (if f' = f then 1 else present f st)"
  "present f (obj_del f' st) = (if f' = f then 0 else present f st)"
  by (simp_all add: present_def obj_simps)

lemma present_unlink: "present f (unlink ok f' st) \<le> present f st"
  by (simp add: unlink_def)

lemma next_dir_use [simp]: "result_use sha h rq (next_dir sw ds) = 0"
  by (cases "(sw, ds)" rule: next_dir.cases) (simp_all add: result_use_def claimed_def rotated_def)

lemma next_dir_fits: "next_dir sw ds = Inl ph \<Longrightarrow> fits sha rq ph"
  by (cases "(sw, ds)" rule: next_dir.cases) (auto simp: fits_def claimed_def)

lemma start_logout_use [simp]: "result_use sha h rq (start_logout sha r) = 0"
  by (simp add: result_use_def claimed_def rotated_def split: option.split)

lemma start_logout_fits: "start_logout sha r = Inl ph \<Longrightarrow> fits sha rq ph"
  by (auto simp: fits_def claimed_def split: option.splits if_splits)

lemmas phase_defs = claim_token_def look_consumed_def read_claimed_def create_token_def commitConsume_def
  rollbackConsume_def check_blacklist_def failed_issue_def

lemma result_use_simps [simp]:
  "result_use sha h rq (Inl ph) = of_bool (claimed ph = Some h)"
  "result_use sha h rq (Inr reply) = of_bool (rotated sha h (rq, reply))"
  by (simp_all add: result_use_def)

lemma advance_use:
  assumes "advance sha now ok fresh uuid ph st = (st', r)" "fits sha rq ph"
  shows "present (Active h) st' + result_use sha h rq r
    \<le> present (Active h) st + of_bool (claimed ph = Some h) + of_bool (sha fresh = h)"
proof (cases ph)
  case (Listing sw ds)
  then show ?thesis using assms(1) by (cases ds) (auto simp: claimed_def rotated_def split: if_splits)
next
  case (Sweeping sw fs ds)
  then show ?thesis using assms(1) by (cases fs) (auto simp: claimed_def split: if_splits)
next
  case (Removing sw f fs ds)
  then show ?thesis using assms(1) present_unlink [of "Active h" ok f st] by (auto simp: claimed_def)
next
  case (Blacklisting jti e t)
  then show ?thesis using assms(1) by (auto simp: rotated_def split: if_splits simp del: start_logout.simps)
qed (use assms in \<open>auto simp: phase_defs claimed_def rotated_def fits_def asks_for_def present_def obj_simps unlink_def
       split: if_splits option.splits token_content.splits token_request.splits\<close>)

lemma advance_fits:
  assumes "advance sha now ok fresh uuid ph st = (st', Inl ph')" "fits sha rq ph"
  shows "fits sha rq ph'"
proof (cases ph)
  case (Listing sw ds)
  then show ?thesis using assms(1) by (cases ds) (auto simp: fits_def claimed_def dest: next_dir_fits [of _ _ _ sha rq] split: if_splits)
next
  case (Sweeping sw fs ds)
  then show ?thesis using assms(1) by (cases fs) (auto simp: fits_def claimed_def dest: next_dir_fits [of _ _ _ sha rq] split: if_splits)
next
  case (Blacklisting jti e t)
  then show ?thesis using assms(1) start_logout_fits [of sha t ph' rq]
    by (auto split: if_splits simp del: start_logout.simps)
qed (use assms in \<open>auto simp: phase_defs claimed_def fits_def asks_for_def
       split: if_splits option.splits token_content.splits token_request.splits\<close>)

lemma start_fits: "start_request sha rq = Inl ph \<Longrightarrow> fits sha rq ph \<and> claimed ph = None"
  by (cases rq) (auto simp: validate_def fits_def claimed_def asks_for_def split: if_splits option.splits)

lemma start_use: "result_use sha h rq (start_request sha rq) = 0"
  by (cases rq) (auto simp: validate_def claimed_def rotated_def split: option.splits)

text \<open>The values drawn in a run.\<close>

fun drawn :: "sign_in_event \<Rightarrow> string list" where
  "drawn (Turn _ _ _ fresh _) = [fresh]"
| "drawn _ = []"

definition all_drawn :: "sign_in_event list \<Rightarrow> string list" where
  "all_drawn es = concat (map drawn es)"

lemma settle_use:
  assumes "obj_wf (tk_procs s)"
  shows "token_uses sha h (settle_turn pid rq r s)
      + (case map_of (tk_procs s) pid of Some (rq', ph) \<Rightarrow> of_bool (claimed ph = Some h) | None \<Rightarrow> 0)
    = token_uses sha h s + result_use sha h rq r"
  using obj_count_set [OF assms, of "\<lambda>(rq, ph). claimed ph = Some h" pid "(rq, projl r)"]
    obj_count_del [OF assms, of "\<lambda>(rq, ph). claimed ph = Some h" pid]
  by (cases r) (auto simp: settle_turn_def token_uses_def split: option.splits)

lemma token_uses_files:
  "token_uses sha h (s\<lparr>tk_files := files\<rparr>) + present (Active h) (tk_files s) = token_uses sha h s + present (Active h) files"
  by (simp add: token_uses_def)

lemma settle_inv:
  assumes "token_inv sha s" "\<And>ph. r = Inl ph \<Longrightarrow> fits sha rq ph"
  shows "token_inv sha (settle_turn pid rq r s)"
  using assms by (cases r) (auto simp: settle_turn_def token_inv_def obj_simps intro: wf_intros split: if_splits)

lemma sign_in_step_inv: "token_inv sha s \<Longrightarrow> token_inv sha (sign_in_step sha e s)"
proof (cases e)
  case (Arrive pid rq)
  assume "token_inv sha s"
  then show ?thesis using settle_inv [of sha s "start_request sha rq" rq pid] start_fits by (simp add: Arrive)
next
  case (Turn pid now ok fresh uuid)
  assume inv: "token_inv sha s"
  show ?thesis
  proof (cases "map_of (tk_procs s) pid")
    case (Some p)
    obtain rq ph where p: "p = (rq, ph)" by force
    obtain files r where adv: "advance sha now ok fresh uuid ph (tk_files s) = (files, r)" by force
    have "fits sha rq ph" using inv Some by (auto simp: token_inv_def p)
    then have "token_inv sha (settle_turn pid rq r (s\<lparr>tk_files := files\<rparr>))"
      using inv adv advance_fits by (intro settle_inv) (auto simp: token_inv_def)
    then show ?thesis by (simp add: Turn Some p adv)
  qed (simp add: Turn inv)
next
  case Restart
  assume "token_inv sha s"
  then show ?thesis by (simp add: Restart token_inv_def)
qed

lemma sign_in_step_use:
  assumes "token_inv sha s"
  shows "token_uses sha h (sign_in_step sha e s) \<le> token_uses sha h s + length (filter (\<lambda>x. sha x = h) (drawn e))"
proof (cases e)
  case (Arrive pid rq)
  have "obj_wf (tk_procs s)" using assms by (simp add: token_inv_def)
  from settle_use [OF this, of sha h pid rq "start_request sha rq"] show ?thesis
    by (auto simp: Arrive start_use)
next
  case (Turn pid now ok fresh uuid)
  show ?thesis
  proof (cases "map_of (tk_procs s) pid")
    case (Some p)
    obtain rq ph where p: "p = (rq, ph)" by force
    obtain files r where adv: "advance sha now ok fresh uuid ph (tk_files s) = (files, r)" by force
    have f: "fits sha rq ph" and wf: "obj_wf (tk_procs (s\<lparr>tk_files := files\<rparr>))"
      using assms Some by (auto simp: token_inv_def p)
    show ?thesis
      using advance_use [OF adv f, of h] settle_use [OF wf, of sha h pid rq r] Some token_uses_files [of sha h files s]
      by (auto simp: Turn p adv)
  qed (simp add: Turn)
qed (simp add: token_uses_def)

lemma token_run_use:
  "token_inv sha s \<Longrightarrow>
     token_uses sha h (token_run sha es s) \<le> token_uses sha h s + length (filter (\<lambda>x. sha x = h) (all_drawn es))"
proof (induction es arbitrary: s)
  case (Cons e es)
  from Cons.IH [OF sign_in_step_inv [OF Cons.prems, of e]] sign_in_step_use [OF Cons.prems, of h e]
  show ?case by (simp add: token_run_def all_drawn_def)
qed (simp add: token_run_def all_drawn_def)

lemma init_token_inv [simp]: "token_inv sha (init_token_server st)"
  by (simp add: token_inv_def init_token_server_def)

lemma filter_length_le:
  "(\<And>x. P x \<Longrightarrow> Q x) \<Longrightarrow> length (filter P xs) \<le> length (filter Q xs)"
  by (induction xs) auto

lemma filter_distinct_image:
  "distinct (map f xs) \<Longrightarrow> length (filter (\<lambda>x. f x = y) xs) = of_bool (y \<in> f ` set xs)"
  by (induction xs) (auto simp: filter_empty_conv)

text \<open>
  C7: a refresh token is good for one rotation. Requests may interleave at every call of the file
  system, calls may fail and the server may restart; as long as the tokens that are drawn are
  new, no refresh token is ever answered with a new pair twice.
\<close>

theorem refresh_token_rotates_once:
  assumes "distinct (map sha (all_drawn es))"
    and "\<And>x. x \<in> set (all_drawn es) \<Longrightarrow> map_of st (Active (sha x)) = None"
  shows "length (filter (\<lambda>(rq, reply). rq = RefreshRq t \<and> (\<exists>access token. reply = Tokens access token))
    (tk_log (token_run sha es (init_token_server st)))) \<le> 1"
proof -
  let ?log = "tk_log (token_run sha es (init_token_server st))"
  have "length (filter (\<lambda>(rq, reply). rq = RefreshRq t \<and> (\<exists>access token. reply = Tokens access token)) ?log)
      \<le> length (filter (rotated sha (sha t)) ?log)"
    by (rule filter_length_le) (auto simp: rotated_def asks_for_def)
  also have "\<dots> \<le> token_uses sha (sha t) (token_run sha es (init_token_server st))"
    by (simp add: token_uses_def)
  also have "\<dots> \<le> present (Active (sha t)) st + of_bool (sha t \<in> sha ` set (all_drawn es))"
    using token_run_use [OF init_token_inv, of sha "sha t" es st] filter_distinct_image [OF assms(1), of "sha t"]
    by (simp add: token_uses_def init_token_server_def)
  also have "\<dots> \<le> 1" using assms(2) by (auto simp: present_def)
  finally show ?thesis .
qed


theorem refresh_token_rotates_once_witness:
  "length (filter (\<lambda>(rq, reply). rq = RefreshRq ''old'' \<and> (\<exists>access token. reply = Tokens access token))
     (tk_log (token_run id
        [Arrive 1 (RefreshRq ''old''), Arrive 2 (RefreshRq ''old''), Turn 1 5 True ''a'' ''n'', Turn 2 5 True ''b'' ''m'',
         Turn 1 6 True ''c'' ''n'', Turn 1 6 True ''d'' ''n'', Turn 1 6 True ''new'' ''n'', Turn 1 7 True ''e'' ''n'',
         Turn 1 7 True ''f'' ''n'']
        (init_token_server [(Active ''old'', Token (new_record ''u'' ''f'' 0))])))) \<le> 1"
  by (rule refresh_token_rotates_once) (auto simp: all_drawn_def)

section \<open>A token that comes back\<close>

text \<open>A pass over the tokens of a family, without interruption.\<close>

lemma token_run_simps [simp]:
  "token_run sha [] s = s"
  "token_run sha (e # es) s = token_run sha es (sign_in_step sha e s)"
  "token_run sha (es @ es') s = token_run sha es' (token_run sha es s)"
  by (simp_all add: token_run_def)

definition outside :: "token_pass \<Rightarrow> token_file list \<Rightarrow> token_files \<Rightarrow> token_files" where
  "outside sw fs st = filter (\<lambda>(f, c). f \<notin> set fs \<or> \<not> due_file sw c) st"

lemma filter_same: "(\<And>x. x \<in> set xs \<Longrightarrow> P x = Q x) \<Longrightarrow> filter P xs = filter Q xs"
  by (rule filter_cong) auto

lemma obj_del_filter: "obj_del k ob = filter (\<lambda>kv. fst kv \<noteq> k) ob"
  by (auto simp: AList.delete_eq intro: filter_same)

lemma obj_wf_outside: "obj_wf st \<Longrightarrow> obj_wf (outside sw fs st)"
  by (auto simp: obj_wf_def outside_def intro: distinct_map_filter)

lemma outside_Cons:
  assumes "obj_wf st"
  shows "outside sw (f # fs) st
    = outside sw fs (if sweep_file sw True f st then obj_del f st else st)"
proof (cases "map_of st f")
  case None
  then have "(f, c) \<notin> set st" for c using map_of_obj_wf [OF assms, of f c] by simp
  then show ?thesis using None
    by (auto simp: outside_def sweep_file_def obj_del_filter intro!: filter_same)
next
  case (Some c)
  then have "(f, c') \<in> set st \<longleftrightarrow> c' = c" for c' using map_of_obj_wf [OF assms, of f c'] by auto
  then show ?thesis using Some
    by (auto simp: outside_def sweep_file_def obj_del_filter intro!: filter_same)
qed

lemma sweep_run:
  assumes "map_of (tk_procs s) pid = Some (rq, Sweeping (Family fam) fs [])" "obj_wf (tk_procs s)" "obj_wf (tk_files s)"
  shows "\<exists>n. token_run sha (replicate n (Turn pid now True x u)) s
    = s\<lparr>tk_files := outside (Family fam) fs (tk_files s), tk_procs := obj_del pid (tk_procs s),
        tk_log := (rq, RefreshReused) # tk_log s\<rparr>"
  using assms
proof (induction fs arbitrary: s)
  case Nil
  have "token_run sha (replicate 1 (Turn pid now True x u)) s
    = s\<lparr>tk_files := outside (Family fam) [] (tk_files s), tk_procs := obj_del pid (tk_procs s),
        tk_log := (rq, RefreshReused) # tk_log s\<rparr>"
    using Nil by (simp add: settle_turn_def outside_def)
  then show ?case by blast
next
  case (Cons f fs)
  define removed where "removed = sweep_file (Family fam) True f (tk_files s)"
  define k where "k = (if removed then 2 else 1 :: nat)"
  define files where "files = (if removed then obj_del f (tk_files s) else tk_files s)"
  define s1 where "s1 = s\<lparr>tk_files := files, tk_procs := obj_set pid (rq, Sweeping (Family fam) fs []) (tk_procs s)\<rparr>"
  have step: "token_run sha (replicate k (Turn pid now True x u)) s = s1"
    using Cons.prems(1) by (simp add: k_def s1_def files_def removed_def settle_turn_def obj_simps unlink_def numeral_2_eq_2 update_Some_unfold)
  have p1: "map_of (tk_procs s1) pid = Some (rq, Sweeping (Family fam) fs [])" by (simp add: s1_def obj_simps)
  have wf1: "obj_wf (tk_procs s1)" and wf2: "obj_wf (tk_files s1)"
    using Cons.prems(2,3) by (auto simp: s1_def files_def intro: wf_intros)
  obtain n where n: "token_run sha (replicate n (Turn pid now True x u)) s1
    = s1\<lparr>tk_files := outside (Family fam) fs (tk_files s1), tk_procs := obj_del pid (tk_procs s1),
        tk_log := (rq, RefreshReused) # tk_log s1\<rparr>"
    using Cons.IH [of s1, OF p1 wf1 wf2] by blast
  have "token_run sha (replicate (k + n) (Turn pid now True x u)) s
    = token_run sha (replicate n (Turn pid now True x u)) s1"
    by (simp add: replicate_add step)
  also have "\<dots> = s\<lparr>tk_files := outside (Family fam) (f # fs) (tk_files s), tk_procs := obj_del pid (tk_procs s),
        tk_log := (rq, RefreshReused) # tk_log s\<rparr>"
    using outside_Cons [OF Cons.prems(3), of "Family fam" f fs]
    unfolding n by (simp add: s1_def files_def removed_def delete_update_same)
  finally show ?case by blast
qed


lemma drop_procs: "map_of (tk_procs s) pid = None \<Longrightarrow> obj_del pid (obj_set pid v (tk_procs s)) = tk_procs s"
  by (simp add: delete_update_same map_of_eq_None_iff)



section \<open>A rotation that escapes\<close>

text \<open>The token of the family that is in use is claimed and read, its predecessor comes back and takes
  the family with it, and the rotation goes on.\<close>

definition overtaken :: "sign_in_event list" where
  "overtaken =
     [Arrive 1 (RefreshRq ''second''), Turn 1 8 True ''w'' ''n'', Turn 1 8 True ''w'' ''n'', Arrive 2 (RefreshRq ''first'')]
     @ replicate 6 (Turn 2 9 True ''w'' ''n'')
     @ [Turn 1 9 True ''w'' ''jti'', Turn 1 9 True ''third'' ''n'', Turn 1 9 True ''w'' ''n'', Turn 1 9 True ''w'' ''n'']"



section \<open>After a logout\<close>

lemma settle_log: "tk_log (settle_turn pid rq r s) = (case r of Inl _ \<Rightarrow> [] | Inr reply \<Rightarrow> [(rq, reply)]) @ tk_log s"
  by (cases r) (simp_all add: settle_turn_def)

lemma token_run_log: "\<exists>new. tk_log (token_run sha es s) = new @ tk_log s"
proof (induction es arbitrary: s)
  case (Cons e es)
  have "\<exists>new. tk_log (sign_in_step sha e s) = new @ tk_log s"
    by (cases e) (auto simp: settle_log split: option.split prod.split)
  then show ?case using Cons.IH [of "sign_in_step sha e s"] by auto
qed simp

lemma token_run_inv: "token_inv sha s \<Longrightarrow> token_inv sha (token_run sha es s)"
  by (induction es arbitrary: s) (auto intro: sign_in_step_inv)

text \<open>
  C30: a refresh token that is given up is dead. Once a logout removes its file while no rotation
  holds it, no run ever gives a new pair for it: the refreshes of the token that succeeded are those
  that had succeeded before.
\<close>

theorem revoked_token_is_dead:
  assumes "s = token_run sha before (init_token_server st)"
    and "map_of (tk_procs s) pid = Some (LogoutRq jti exp rt, Revoking (sha t))"
    and "\<And>q rq ph. map_of (tk_procs s) q = Some (rq, ph) \<Longrightarrow> claimed ph \<noteq> Some (sha t)"
    and "\<And>x. x \<in> set (x0 # all_drawn es) \<Longrightarrow> sha x \<noteq> sha t"
  shows "filter (rotated sha (sha t)) (tk_log (token_run sha (Turn pid now True x0 u # es) s))
    = filter (rotated sha (sha t)) (tk_log s)"
proof -
  let ?s1 = "sign_in_step sha (Turn pid now True x0 u) s" and ?r = "filter (rotated sha (sha t))"
  have inv: "token_inv sha s" using assms(1) token_run_inv by simp
  have s1: "?s1 = s\<lparr>tk_files := obj_del (Active (sha t)) (tk_files s), tk_procs := obj_del pid (tk_procs s),
      tk_log := (LogoutRq jti exp rt, LoggedOut) # tk_log s\<rparr>"
    using assms(2) by (simp add: settle_turn_def unlink_def)
  have wf: "obj_wf (obj_del pid (tk_procs s))" using inv by (auto simp: token_inv_def intro: wf_intros)
  have "claimed ph \<noteq> Some (sha t)" if "(q, rq, ph) \<in> set (obj_del pid (tk_procs s))" for q rq ph
    using that assms(3) [of q rq ph] map_of_obj_wf [OF wf, of q "(rq, ph)"] by (auto simp: obj_simps split: if_splits)
  then have "obj_count (\<lambda>(rq, ph). claimed ph = Some (sha t)) (tk_procs ?s1) = 0"
    unfolding s1 by (auto simp: obj_count_def filter_empty_conv)
  then have uses: "token_uses sha (sha t) ?s1 = length (?r (tk_log s))"
    unfolding token_uses_def s1 by (simp add: rotated_def)
  have "filter (\<lambda>x. sha x = sha t) (all_drawn es) = []" using assms(4) by (auto simp: filter_empty_conv)
  then have "token_uses sha (sha t) (token_run sha es ?s1) \<le> length (?r (tk_log s))"
    using token_run_use [OF sign_in_step_inv [OF inv], of "sha t" es "Turn pid now True x0 u"] uses by simp
  then have le: "length (?r (tk_log (token_run sha es ?s1))) \<le> length (?r (tk_log s))"
    by (simp add: token_uses_def)
  obtain new where "tk_log (token_run sha es ?s1) = new @ tk_log ?s1" using token_run_log by blast
  moreover have "tk_log ?s1 = (LogoutRq jti exp rt, LoggedOut) # tk_log s" unfolding s1 by simp
  ultimately have new: "tk_log (token_run sha es ?s1) = new @ (LogoutRq jti exp rt, LoggedOut) # tk_log s" by simp
  then show ?thesis using le unfolding token_run_simps(2) new by (simp add: rotated_def)
qed

theorem revoked_token_is_dead_witness:
  "filter (rotated id ''t'') (tk_log (token_run id
      [Turn 1 5 True ''x'' ''u'', Arrive 2 (RefreshRq ''t''), Turn 2 6 True ''x'' ''u'', Turn 2 6 True ''x'' ''u'']
      (token_run id [Arrive 1 (LogoutRq None None (Some ''t''))]
         (init_token_server [(Active ''t'', Token (new_record ''u'' ''f'' 0))])))) = []"
proof -
  let ?s = "token_run id [Arrive 1 (LogoutRq None None (Some ''t''))] (init_token_server [(Active ''t'', Token (new_record ''u'' ''f'' 0))])"
  have s: "tk_procs ?s = [(1, LogoutRq None None (Some ''t''), Revoking (id ''t''))]" "tk_log ?s = []"
    by (simp_all add: settle_turn_def init_token_server_def)
  have "filter (rotated id (id ''t'')) (tk_log (token_run id (Turn 1 5 True ''x'' ''u'' #
      [Arrive 2 (RefreshRq ''t''), Turn 2 6 True ''x'' ''u'', Turn 2 6 True ''x'' ''u'']) ?s)) = filter (rotated id (id ''t'')) (tk_log ?s)"
  proof (rule revoked_token_is_dead [OF refl])
    show "map_of (tk_procs ?s) 1 = Some (LogoutRq None None (Some ''t''), Revoking (id ''t''))" by (simp only: s) simp
    show "claimed ph \<noteq> Some (id ''t'')" if "map_of (tk_procs ?s) q = Some (rq, ph)" for q rq ph
      using that unfolding s by (auto simp: claimed_def split: if_splits)
  qed (auto simp: all_drawn_def)
  also have "\<dots> = []" unfolding s by simp
  finally show ?thesis by (simp only: id_apply)
qed

text \<open>A bar that lasts, and what could lift it.\<close>

definition bar_live :: "string \<Rightarrow> int \<Rightarrow> token_files \<Rightarrow> bool" where
  "bar_live h until st \<longleftrightarrow> (\<exists>j t. map_of st (Barred h) = Some (Bar j t) \<and> t \<ge> until)"

definition bar_ok :: "string \<Rightarrow> int \<Rightarrow> token_files \<Rightarrow> bool" where
  "bar_ok h until st \<longleftrightarrow> map_of st (Barred h) = None \<or> bar_live h until st"

definition before_expiry :: "int \<Rightarrow> token_pass \<Rightarrow> bool" where
  "before_expiry until sw \<longleftrightarrow> (case sw of Expired t \<Rightarrow> t < until | Family _ \<Rightarrow> True)"

definition harmless :: "(string \<Rightarrow> string) \<Rightarrow> string \<Rightarrow> int \<Rightarrow> token_files \<Rightarrow> token_phase \<Rightarrow> bool" where
  "harmless sha h until st ph \<longleftrightarrow> (case ph of
       Forgetting p j \<Rightarrow> ap_jti p = Some j \<and> sha j \<noteq> h
     | Checking p j \<Rightarrow> ap_jti p = Some j
     | Blacklisting j e _ \<Rightarrow> sha j = h \<longrightarrow> e \<ge> until
     | Listing sw _ \<Rightarrow> before_expiry until sw
     | Sweeping sw fs _ \<Rightarrow> before_expiry until sw \<and> (Barred h \<in> set fs \<longrightarrow> bar_live h until st)
     | Removing sw f fs _ \<Rightarrow> before_expiry until sw \<and> f \<noteq> Barred h \<and> (Barred h \<in> set fs \<longrightarrow> bar_live h until st)
     | _ \<Rightarrow> True)"

text \<open>A logout that has got past its first write has barred the id.\<close>

definition bars :: "(string \<Rightarrow> string) \<Rightarrow> string \<Rightarrow> token_request \<Rightarrow> bool" where
  "bars sha h rq \<longleftrightarrow> (case rq of LogoutRq (Some j) (Some e) _ \<Rightarrow> sha j = h \<and> j \<noteq> [] \<and> e \<noteq> 0 | _ \<Rightarrow> False)"

definition barred_by_now :: "(string \<Rightarrow> string) \<Rightarrow> string \<Rightarrow> int \<Rightarrow> token_files \<Rightarrow> token_request \<times> token_phase \<Rightarrow> bool" where
  "barred_by_now sha h until st p \<longleftrightarrow>
     (bars sha h (fst p) \<longrightarrow> (case snd p of Blacklisting j _ _ \<Rightarrow> sha j = h | _ \<Rightarrow> bar_live h until st))"

definition logout_inv :: "(string \<Rightarrow> string) \<Rightarrow> string \<Rightarrow> int \<Rightarrow> token_server \<Rightarrow> bool" where
  "logout_inv sha h until s \<longleftrightarrow> bar_ok h until (tk_files s)
     \<and> (\<forall>pid rq ph. map_of (tk_procs s) pid = Some (rq, ph) \<longrightarrow>
          harmless sha h until (tk_files s) ph \<and> barred_by_now sha h until (tk_files s) (rq, ph))
     \<and> (\<forall>rq. (rq, LoggedOut) \<in> set (tk_log s) \<longrightarrow> bars sha h rq \<longrightarrow> bar_live h until (tk_files s))"

text \<open>What happens before the access token expires: the clock has not reached its expiry, the file
  system works, and a logout with an id of that hash carries the expiry of that token.\<close>

definition timely :: "(string \<Rightarrow> string) \<Rightarrow> string \<Rightarrow> int \<Rightarrow> sign_in_event \<Rightarrow> bool" where
  "timely sha h until e \<longleftrightarrow> (case e of
       Turn _ now ok _ _ \<Rightarrow> ok \<and> now < until
     | Arrive _ rq \<Rightarrow> (case rq of
           PurgeTokensRq t \<Rightarrow> t < until
         | PurgeBlacklistRq t \<Rightarrow> t < until
         | LogoutRq (Some j) (Some e) _ \<Rightarrow> sha j = h \<longrightarrow> e * 1000 \<ge> until
         | _ \<Rightarrow> True)
     | Restart \<Rightarrow> True)"

lemma bar_set [simp]:
  "bar_live h until (obj_set f c st) \<longleftrightarrow> (if f = Barred h then (\<exists>j t. c = Bar j t \<and> t \<ge> until) else bar_live h until st)"
  "bar_live h until (obj_del f st) \<longleftrightarrow> f \<noteq> Barred h \<and> bar_live h until st"
  "bar_ok h until (obj_set f c st) \<longleftrightarrow> (if f = Barred h then (\<exists>j t. c = Bar j t \<and> t \<ge> until) else bar_ok h until st)"
  "bar_ok h until (obj_del f st) \<longleftrightarrow> f = Barred h \<or> bar_ok h until st"
  by (auto simp: bar_live_def bar_ok_def obj_simps)

lemma advance_bar:
  assumes "advance sha now True fresh uuid ph st = (st', r)" "now < until" "harmless sha h until st ph" "bar_ok h until st"
  shows "bar_ok h until st'" "bar_live h until st \<Longrightarrow> bar_live h until st'"
proof -
  have "bar_ok h until st' \<and> (bar_live h until st \<longrightarrow> bar_live h until st')"
  proof (cases ph)
    case (Sweeping sw fs ds)
    then show ?thesis using assms by (cases fs) auto
  next
    case (Listing sw ds)
    then show ?thesis using assms by (cases ds) auto
  qed (use assms in \<open>auto simp: phase_defs harmless_def unlink_def split: if_splits option.splits token_content.splits\<close>)
  then show "bar_ok h until st'" "bar_live h until st \<Longrightarrow> bar_live h until st'" by auto
qed

lemma next_dir_harmless: "next_dir sw ds = Inl ph \<Longrightarrow> before_expiry until sw \<Longrightarrow> harmless sha h until st ph"
  by (cases "(sw, ds)" rule: next_dir.cases) (auto simp: harmless_def)

lemma start_logout_harmless: "start_logout sha r = Inl ph \<Longrightarrow> harmless sha h until st ph"
  by (auto simp: harmless_def split: option.splits if_splits)

lemma live_not_due: "bar_live h until st \<Longrightarrow> before_expiry until sw \<Longrightarrow> \<not> sweep_file sw True (Barred h) st"
  by (cases sw) (auto simp: bar_live_def before_expiry_def sweep_file_def)

lemma listed_bar: "bar_ok h until st \<Longrightarrow> Barred h \<in> fst ` set st \<Longrightarrow> bar_live h until st"
  by (auto simp: bar_ok_def map_of_eq_None_iff)

lemma advance_harmless:
  assumes "advance sha now True fresh uuid ph st = (st', Inl ph')" "now < until" "harmless sha h until st ph" "bar_ok h until st"
  shows "harmless sha h until st' ph'"
proof (cases ph)
  case (Sweeping sw fs ds)
  show ?thesis
  proof (cases fs)
    case Nil
    then show ?thesis using assms(1,3) Sweeping next_dir_harmless [of sw ds ph' until sha h st'] by (auto simp: harmless_def)
  next
    case (Cons f fs')
    then show ?thesis using assms(1,3) Sweeping live_not_due [of h until st sw] by (auto simp: harmless_def split: if_splits)
  qed
next
  case (Listing sw ds)
  show ?thesis
  proof (cases ds)
    case Nil
    then show ?thesis using assms(1,3) Listing next_dir_harmless [of sw "[]" ph' until sha h st'] by (auto simp: harmless_def)
  next
    case (Cons d ds')
    then show ?thesis using assms(1,3,4) Listing listed_bar [of h until st] by (auto simp: harmless_def)
  qed
next
  case (Removing sw f fs ds)
  then show ?thesis using assms(1,3) by (auto simp: harmless_def unlink_def)
next
  case (Checking p j)
  then show ?thesis using assms by (auto simp: harmless_def check_blacklist_def bar_ok_def bar_live_def split: option.splits if_splits)
next
  case (Blacklisting j e r)
  then show ?thesis using assms(1) start_logout_harmless [of sha r ph' h until st'] by (auto simp del: start_logout.simps)
next
  case (Looking k)
  then show ?thesis using assms(1) by (auto simp: harmless_def before_expiry_def look_consumed_def split: option.splits token_content.splits if_splits)
qed (use assms in \<open>auto simp: phase_defs harmless_def split: if_splits option.splits token_content.splits\<close>)


lemma advance_barred:
  assumes "advance sha now True fresh uuid ph st = (st', r)" "now < until" "harmless sha h until st ph" "bar_ok h until st"
    and "barred_by_now sha h until st (rq, ph)"
  shows "(case r of Inl ph' \<Rightarrow> barred_by_now sha h until st' (rq, ph') | Inr _ \<Rightarrow> bars sha h rq \<longrightarrow> bar_live h until st')"
proof (cases "bars sha h rq")
  case True
  have "bar_live h until st'"
  proof (cases "\<exists>j e r. ph = Blacklisting j e r")
    case True
    then show ?thesis using assms \<open>bars sha h rq\<close> by (auto simp: barred_by_now_def harmless_def)
  next
    case False
    then have "bar_live h until st" using assms(5) True by (auto simp: barred_by_now_def split: token_phase.splits)
    then show ?thesis using advance_bar(2) [OF assms(1-4)] by blast
  qed
  moreover have "\<not> (\<exists>j e x. r = Inl (Blacklisting j e x))"
  proof (cases ph)
    case (Sweeping sw fs ds)
    then show ?thesis using assms(1) by (cases fs; cases sw; cases ds) (auto split: if_splits)
  next
    case (Listing sw ds)
    then show ?thesis using assms(1) by (cases ds; cases sw) (auto split: if_splits)
  qed (use assms(1) in \<open>auto simp: phase_defs split: if_splits option.splits token_content.splits\<close>)
  ultimately show ?thesis by (auto simp: barred_by_now_def split: sum.split token_phase.split)
qed (simp add: barred_by_now_def split: sum.split)

lemma bar_mono:
  assumes "bar_live h until st \<Longrightarrow> bar_live h until st'"
  shows "harmless sha h until st ph \<Longrightarrow> harmless sha h until st' ph" "barred_by_now sha h until st p \<Longrightarrow> barred_by_now sha h until st' p"
  using assms by (auto simp: harmless_def barred_by_now_def split: token_phase.splits)

lemma settle_logout_inv:
  assumes "logout_inv sha h until s" "bar_ok h until files" "bar_live h until (tk_files s) \<Longrightarrow> bar_live h until files"
    and "case r of Inl ph \<Rightarrow> harmless sha h until files ph \<and> barred_by_now sha h until files (rq, ph)
           | Inr reply \<Rightarrow> reply = LoggedOut \<longrightarrow> bars sha h rq \<longrightarrow> bar_live h until files"
  shows "logout_inv sha h until (settle_turn pid rq r (s\<lparr>tk_files := files\<rparr>))"
proof -
  have "harmless sha h until files ph" "barred_by_now sha h until files (rq', ph)"
    if "map_of (tk_procs s) q = Some (rq', ph)" for q rq' ph
    using that assms(1) bar_mono [OF assms(3)] by (auto simp: logout_inv_def)
  then show ?thesis using assms by (cases r) (auto simp: logout_inv_def settle_turn_def obj_simps split: if_splits)
qed

lemma start_harmless:
  assumes "timely sha h until (Arrive pid rq)"
  shows "case start_request sha rq of Inl ph \<Rightarrow> harmless sha h until files ph \<and> barred_by_now sha h until files (rq, ph)
    | Inr reply \<Rightarrow> reply = LoggedOut \<longrightarrow> bars sha h rq \<longrightarrow> bar_live h until files"
proof (cases rq)
  case (LogoutRq jti exp r)
  then show ?thesis using assms
    by (auto simp: timely_def harmless_def barred_by_now_def bars_def split: option.split if_splits)
qed (use assms in \<open>auto simp: timely_def validate_def harmless_def barred_by_now_def bars_def before_expiry_def split: option.split\<close>)

lemma logout_step:
  assumes "logout_inv sha h until s" "timely sha h until e"
  shows "logout_inv sha h until (sign_in_step sha e s)"
proof (cases e)
  case (Arrive pid rq)
  have "logout_inv sha h until (settle_turn pid rq (start_request sha rq) (s\<lparr>tk_files := tk_files s\<rparr>))"
    using assms start_harmless [of sha h until pid rq "tk_files s"]
    by (intro settle_logout_inv) (auto simp: Arrive logout_inv_def)
  then show ?thesis using assms(1) by (simp add: Arrive)
next
  case (Turn pid now ok fresh uuid)
  show ?thesis
  proof (cases "map_of (tk_procs s) pid")
    case (Some p)
    obtain rq ph where p: "p = (rq, ph)" by force
    obtain files r where adv: "advance sha now True fresh uuid ph (tk_files s) = (files, r)" by force
    have n: "now < until" "ok" using assms(2) by (auto simp: Turn timely_def)
    have i: "harmless sha h until (tk_files s) ph" "bar_ok h until (tk_files s)" "barred_by_now sha h until (tk_files s) (rq, ph)"
      using assms(1) Some by (auto simp: logout_inv_def p)
    note bar = advance_bar [OF adv n(1) i(1,2)] and b = advance_barred [OF adv n(1) i]
    have "logout_inv sha h until (settle_turn pid rq r (s\<lparr>tk_files := files\<rparr>))"
      using bar b advance_harmless [of sha now fresh uuid ph "tk_files s" files _ until h] adv n(1) i(1,2)
      by (intro settle_logout_inv [OF assms(1)]) (auto split: sum.splits)
    then show ?thesis by (simp add: Turn Some p adv n)
  qed (simp add: Turn assms(1))
qed (use assms in \<open>simp add: logout_inv_def\<close>)

lemma logout_run:
  "logout_inv sha h until s \<Longrightarrow> (\<And>e. e \<in> set es \<Longrightarrow> timely sha h until e) \<Longrightarrow> logout_inv sha h until (token_run sha es s)"
  by (induction es arbitrary: s) (auto intro: logout_step)

text \<open>The requests with an access token of that id that were let in.\<close>

definition let_in :: "string \<Rightarrow> token_request \<times> token_reply \<Rightarrow> bool" where
  "let_in jti e \<longleftrightarrow> (case snd e of Granted p \<Rightarrow> ap_jti p = Some jti | _ \<Rightarrow> False)"

lemma no_grant_start:
  assumes "start_request sha rq = Inr reply" "jti \<noteq> []"
  shows "\<not> let_in jti (rq, reply)"
  using assms by (cases rq) (auto simp: let_in_def validate_def split: option.splits if_splits)

lemma no_grant_advance:
  assumes "advance sha now True fresh uuid ph st = (st', Inr reply)" "now < until"
    and "harmless sha (sha jti) until st ph" "bar_live (sha jti) until st"
  shows "\<not> let_in jti (rq, reply)"
proof (cases ph)
  case (Sweeping sw fs ds)
  then show ?thesis using assms(1) by (cases fs; cases sw; cases ds) (auto simp: let_in_def)
next
  case (Listing sw ds)
  then show ?thesis using assms(1) by (cases ds; cases sw) (auto simp: let_in_def)
qed (use assms in \<open>auto simp: phase_defs let_in_def harmless_def bar_live_def split: if_splits option.splits token_content.splits\<close>)

lemma no_grant_step:
  assumes "logout_inv sha (sha jti) until s" "timely sha (sha jti) until e" "bar_live (sha jti) until (tk_files s)" "jti \<noteq> []"
  shows "bar_live (sha jti) until (tk_files (sign_in_step sha e s))
    \<and> filter (let_in jti) (tk_log (sign_in_step sha e s)) = filter (let_in jti) (tk_log s)"
proof (cases e)
  case (Arrive pid rq)
  then show ?thesis using no_grant_start [of sha rq _ jti] assms(3,4)
    by (cases "start_request sha rq") (auto simp: settle_turn_def)
next
  case (Turn pid now ok fresh uuid)
  show ?thesis
  proof (cases "map_of (tk_procs s) pid")
    case (Some p)
    obtain rq ph where p: "p = (rq, ph)" by force
    obtain files r where adv: "advance sha now True fresh uuid ph (tk_files s) = (files, r)" by force
    have n: "now < until" "ok" using assms(2) by (auto simp: Turn timely_def)
    have i: "harmless sha (sha jti) until (tk_files s) ph" "bar_ok (sha jti) until (tk_files s)"
      using assms(1) Some by (auto simp: logout_inv_def p)
    have "bar_live (sha jti) until files" using advance_bar(2) [OF adv n(1) i] assms(3) by blast
    then show ?thesis using no_grant_advance [of sha now fresh uuid ph "tk_files s" files _ until jti rq] adv n i(1) assms(3)
      by (cases r) (auto simp: Turn Some p settle_turn_def)
  qed (simp add: Turn assms(3))
qed (simp add: assms(3))

lemma no_grant_run:
  "logout_inv sha (sha jti) until s \<Longrightarrow> bar_live (sha jti) until (tk_files s) \<Longrightarrow> jti \<noteq> [] \<Longrightarrow>
     (\<And>e. e \<in> set es \<Longrightarrow> timely sha (sha jti) until e) \<Longrightarrow>
     filter (let_in jti) (tk_log (token_run sha es s)) = filter (let_in jti) (tk_log s)"
proof (induction es arbitrary: s)
  case (Cons e es)
  have t: "timely sha (sha jti) until e" using Cons.prems(4) by simp
  show ?case using Cons.IH [of "sign_in_step sha e s"] no_grant_step [OF Cons.prems(1) t Cons.prems(2,3)]
      logout_step [OF Cons.prems(1) t] Cons.prems(3,4) by simp
qed simp



end
