(* ===== verification/CmsJobClient.thy ===== *)
theory CmsJobClient
  imports Complex_Main HostGroups
begin

text \<open>
  Model of how the web client follows the jobs of the server: \<open>features/database/databaseJobApi.js\<close>,
  \<open>infrastructure/services/cmsJobRunner.js\<close>, \<open>infrastructure/cmsJob/cmsJobUtils.js\<close> and the state of
  \<open>infrastructure/context/CmsJobContext.jsx\<close>.

  A poll asks for one job until it is over; a tracker is one call of \<open>startTracking\<close>, which waits for
  a poll and notes its end. What runs before the next answer, timer or click is one step: the
  continuations of a promise run before anything else does. Jobs and errors are JavaScript objects,
  as they come from the server. \<open>localeCompare\<close> is the parameter \<open>cmp\<close>, the clock an input in
  milliseconds, and as a text (\<open>stamp\<close>) where a date is written. Sets of ids are lists in the order
  of insertion. Progress callbacks of the callers and the rendering are not modelled.
\<close>

section \<open>Job objects\<close>

definition js_nullish :: "js \<Rightarrow> js \<Rightarrow> js" where
  "js_nullish a b = (if a = Undefined \<or> a = Null then b else a)"

fun js_fields :: "js \<Rightarrow> (string, js) obj" where
  "js_fields (Obj kvs) = kvs"
| "js_fields _ = []"

text \<open>\<open>{ ...base, ...over }\<close>\<close>

definition js_spread :: "(string, js) obj \<Rightarrow> (string, js) obj \<Rightarrow> (string, js) obj" where
  "js_spread base over = fold (\<lambda>(k, v). obj_set k v) over base"

definition JOB_LIFECYCLE_STATUSES :: "string list" where
  "JOB_LIFECYCLE_STATUSES = [''queued'', ''running'', ''succeeded'', ''failed'']"

definition resolveCmsJobStatus :: "js \<Rightarrow> string option" where
  "resolveCmsJobStatus job =
     (case job of
        Obj _ \<Rightarrow>
          (let status = (case js_get job ''status'' of
                 Str s \<Rightarrow> if s \<in> set JOB_LIFECYCLE_STATUSES then Some s else None | _ \<Rightarrow> None);
               lifecycle = (case js_get job ''jobStatus'' of Str (c # cs) \<Rightarrow> Some (c # cs) | _ \<Rightarrow> status)
           in case lifecycle of
                Some l \<Rightarrow> if l \<in> set JOB_LIFECYCLE_STATUSES then Some l
                          else if truthy (js_get job ''finishedAt'')
                          then Some (if truthy (js_get job ''error'') then ''failed'' else ''succeeded'') else None
              | None \<Rightarrow> if truthy (js_get job ''finishedAt'')
                        then Some (if truthy (js_get job ''error'') then ''failed'' else ''succeeded'') else None)
      | _ \<Rightarrow> None)"

definition formatCmsJobError :: "js \<Rightarrow> js" where
  "formatCmsJobError job =
     (let message = js_get (js_get job ''error'') ''message''
      in if truthy message then message else Str ''Job failed'')"

text \<open>The answer of \<open>getJob\<close>, with its status resolved.\<close>

definition resolved_job :: "js \<Rightarrow> js" where
  "resolved_job job = (case resolveCmsJobStatus job of
       Some st \<Rightarrow> Obj (js_spread (js_fields job) [(''jobStatus'', Str st)]) | None \<Rightarrow> job)"

definition isTerminalCmsJobStatus :: "js \<Rightarrow> bool" where
  "isTerminalCmsJobStatus status \<longleftrightarrow> status = Str ''succeeded'' \<or> status = Str ''failed''"

definition status_or :: "js \<Rightarrow> js \<Rightarrow> js" where
  "status_or job other = (case resolveCmsJobStatus job of Some st \<Rightarrow> Str st | None \<Rightarrow> other)"

definition getCmsJobErrorResult :: "js \<Rightarrow> js \<Rightarrow> js \<Rightarrow> js" where
  "getCmsJobErrorResult error lastKnownJob previewJob =
     (let fields = js_spread (js_spread (js_spread (js_fields previewJob) (js_fields lastKnownJob))
                     (js_fields (js_get error ''lastKnownJob''))) (js_fields (js_get error ''job''));
          job = Obj fields;
          confirmedFailure = (resolveCmsJobStatus (js_get error ''job'') = Some ''failed'');
          outcomeUnknown = (\<not> confirmedFailure \<and> (truthy (js_get error ''jobStatusUnavailable'') \<or> truthy (js_get job ''jobId'')));
          text = js_get error ''message'';
          message = (if truthy text then text else (case error of Str s \<Rightarrow> Str s | _ \<Rightarrow> Undefined))
      in Obj (js_spread fields
           [(''jobId'', js_nullish (js_get job ''jobId'') (js_get error ''jobId'')),
            (''maintenanceSummary'', js_nullish (js_get job ''maintenanceSummary'') (js_get previewJob ''maintenanceSummary'')),
            (''jobStatus'', if outcomeUnknown then status_or job (Str ''queued'') else Str ''failed''),
            (''outcomeUnknown'', Bool outcomeUnknown),
            (''error'', if confirmedFailure \<and> truthy (js_get job ''error'') then js_get job ''error''
                        else Obj [(''message'', message)])]))"

definition normalizeTrackedJob :: "string \<Rightarrow> js \<Rightarrow> js \<Rightarrow> (string, js) obj" where
  "normalizeTrackedJob stamp serverJob fallback =
     [(''jobId'', js_nullish (js_get serverJob ''jobId'') (js_get fallback ''jobId'')),
      (''type'', js_nullish (js_get serverJob ''type'') (js_get fallback ''type'')),
      (''dbname'', js_nullish (js_nullish (js_get serverJob ''dbname'') (js_get fallback ''dbname'')) (Str [])),
      (''hostUid'', js_nullish (js_nullish (js_get serverJob ''hostUid'') (js_get fallback ''hostUid'')) (Str [])),
      (''jobStatus'', status_or serverJob (js_or (js_get fallback ''jobStatus'') (Str ''queued''))),
      (''outcomeUnknown'', js_nullish (js_get serverJob ''outcomeUnknown'') (Bool False)),
      (''createdAt'', js_nullish (js_nullish (js_get serverJob ''createdAt'') (js_get fallback ''createdAt'')) (Str stamp)),
      (''startedAt'', js_get serverJob ''startedAt''),
      (''finishedAt'', js_get serverJob ''finishedAt''),
      (''maintenanceSummary'', js_nullish (js_get serverJob ''maintenanceSummary'') (js_get fallback ''maintenanceSummary'')),
      (''error'', js_nullish (js_get serverJob ''error'') (js_get fallback ''error'')),
      (''result'', js_get serverJob ''result''),
      (''warnings'', js_nullish (js_get serverJob ''warnings'') (js_get fallback ''warnings'')),
      (''dismissed'', js_nullish (js_get fallback ''dismissed'') (Bool False))]"

text \<open>A tracked job is an object; \<open>job_id\<close> is its id.\<close>

type_synonym tracked = "(string, js) obj"

definition job_id :: "tracked \<Rightarrow> js" where
  "job_id j = js_get (Obj j) ''jobId''"

definition enqueueUniqueJobResult :: "tracked list \<Rightarrow> tracked \<Rightarrow> tracked list" where
  "enqueueUniqueJobResult results result =
     (if \<exists>existing \<in> set results. job_id existing = job_id result then results else results @ [result])"

section \<open>One poll\<close>

definition POLL_MAX_RETRIES :: nat where "POLL_MAX_RETRIES = 3"
definition POLL_MIN_INTERVAL_MS :: rat where "POLL_MIN_INTERVAL_MS = 2000"
definition POLL_MAX_INTERVAL_MS :: rat where "POLL_MAX_INTERVAL_MS = 30000"

definition adaptiveInterval :: "int \<Rightarrow> int \<Rightarrow> rat" where
  "adaptiveInterval startedAt now =
     (let steps = (now - startedAt) div (5 * 60 * 1000);
          interval = (if steps \<ge> 0 then POLL_MIN_INTERVAL_MS * 2 ^ nat steps else POLL_MIN_INTERVAL_MS / 2 ^ nat (- steps))
      in min interval POLL_MAX_INTERVAL_MS)"

datatype poll_stage = InFlight | Sleeping | Settled

record poll =
  po_jobId :: string
  po_startedAt :: int
  po_errors :: nat
  po_last :: js
  po_cancelled :: bool
  po_stage :: poll_stage
  po_open :: bool

definition new_poll :: "string \<Rightarrow> int \<Rightarrow> poll" where
  "new_poll jobId now = \<lparr>po_jobId = jobId, po_startedAt = now, po_errors = 0, po_last = Null,
     po_cancelled = False, po_stage = InFlight, po_open = True\<rparr>"

text \<open>What an answer gives: the poll goes on (and whether the update is passed on), or it is over with
  the job or with an error.\<close>

datatype poll_result = Waits | Ends "js + js"

definition terminal_error :: "js \<Rightarrow> js" where
  "terminal_error job = Obj [(''message'', formatCmsJobError job), (''jobTerminalFailure'', Bool True), (''job'', job)]"

definition status_error :: "js \<Rightarrow> string \<Rightarrow> js \<Rightarrow> js" where
  "status_error err jobId lastKnownJob =
     Obj [(''message'', let m = js_get err ''message'' in if truthy m then m else Str (js_string err)),
          (''jobStatusUnavailable'', Bool True), (''jobId'', Str jobId), (''lastKnownJob'', lastKnownJob)]"

definition poll_answer :: "js + js \<Rightarrow> poll \<Rightarrow> poll \<times> poll_result" where
  "poll_answer answer p =
     (case answer of
        Inr raw \<Rightarrow>
          (let job = resolved_job raw; p1 = p\<lparr>po_last := job, po_errors := 0\<rparr>
           in if po_cancelled p then (p\<lparr>po_stage := Settled\<rparr>, Waits)
              else if resolveCmsJobStatus job = Some ''succeeded''
              then (p1\<lparr>po_stage := Settled, po_cancelled := True\<rparr>, Ends (Inr job))
              else if resolveCmsJobStatus job = Some ''failed''
              then (p1\<lparr>po_stage := Settled, po_cancelled := True\<rparr>, Ends (Inl (terminal_error job)))
              else (p1\<lparr>po_stage := Sleeping\<rparr>, Waits))
      | Inl err \<Rightarrow>
          (let p1 = p\<lparr>po_errors := Suc (po_errors p)\<rparr>
           in if po_errors p1 \<ge> POLL_MAX_RETRIES
              then (p1\<lparr>po_stage := Settled, po_cancelled := True\<rparr>, Ends (Inl (status_error err (po_jobId p) (po_last p))))
              else (p1\<lparr>po_stage := Sleeping\<rparr>, Waits)))"

section \<open>The state\<close>

definition MAX_TRACKED :: nat where "MAX_TRACKED = 50"
definition MAX_DISMISSED :: nat where "MAX_DISMISSED = 200"

record track_options =
  to_notify :: bool
  to_successMessage :: js
  to_errorMessage :: js

text \<open>A tracker waits for its first look at the job or for a poll; one that joined a job that is
  followed already does nothing at its end.\<close>

datatype tracker_stage = Looking | Following nat

record tracker =
  tk_jobId :: string
  tk_session :: nat
  tk_options :: track_options
  tk_joined :: bool
  tk_stage :: tracker_stage

record job_client =
  jc_jobs :: "tracked list"
  jc_results :: "tracked list"
  jc_tracking :: "string list"
  jc_dismissed :: "string list"
  jc_session :: nat
  jc_active :: "(string, nat) obj"
  jc_polls :: "(nat, poll) obj"
  jc_trackers :: "(nat, tracker) obj"
  jc_restoring :: bool
  jc_next :: nat

definition created_at :: "tracked \<Rightarrow> string" where
  "created_at j = (case js_get (Obj j) ''createdAt'' of Str s \<Rightarrow> s | _ \<Rightarrow> [])"

definition sortJobs :: "(string \<Rightarrow> string \<Rightarrow> int) \<Rightarrow> tracked \<Rightarrow> tracked \<Rightarrow> int" where
  "sortJobs cmp a b = cmp (created_at b) (created_at a)"

definition upsert_list :: "(string \<Rightarrow> string \<Rightarrow> int) \<Rightarrow> bool \<Rightarrow> string \<Rightarrow> tracked \<Rightarrow> tracked list \<Rightarrow> tracked list" where
  "upsert_list cmp dismissed jobId patch prev =
     (let idx = length (takeWhile (\<lambda>j. job_id j \<noteq> Str jobId) prev);
          jobs = (if idx < length prev
                  then prev[idx := js_spread (js_spread (prev ! idx) patch) [(''jobId'', Str jobId)]]
                  else js_spread [(''jobId'', Str jobId), (''dismissed'', Bool dismissed)] patch # prev)
      in take MAX_TRACKED (js_sort (sortJobs cmp) jobs))"

definition upsertJob :: "(string \<Rightarrow> string \<Rightarrow> int) \<Rightarrow> string \<Rightarrow> tracked \<Rightarrow> job_client \<Rightarrow> job_client" where
  "upsertJob cmp jobId patch s =
     s\<lparr>jc_jobs := upsert_list cmp (jobId \<in> set (jc_dismissed s)) jobId patch (jc_jobs s)\<rparr>"

definition job_result :: "track_options \<Rightarrow> js \<Rightarrow> tracked" where
  "job_result options job =
     [(''jobId'', js_get job ''jobId''), (''type'', js_get job ''type''), (''dbname'', js_get job ''dbname''),
      (''status'', js_get job ''jobStatus''), (''outcomeUnknown'', js_get job ''outcomeUnknown''),
      (''error'', js_get job ''error''), (''maintenanceSummary'', js_get job ''maintenanceSummary''),
      (''result'', js_get job ''result''), (''warnings'', js_get job ''warnings''),
      (''startedAt'', js_get job ''startedAt''), (''finishedAt'', js_get job ''finishedAt''),
      (''successMessage'', to_successMessage options), (''errorMessage'', to_errorMessage options)]"

definition notifyTerminal :: "js \<Rightarrow> track_options \<Rightarrow> nat \<Rightarrow> job_client \<Rightarrow> job_client" where
  "notifyTerminal job options session s =
     (if \<not> to_notify options then s
      else if js_get job ''jobStatus'' \<noteq> Str ''succeeded'' \<and> js_get job ''jobStatus'' \<noteq> Str ''failed''
           \<and> \<not> truthy (js_get job ''outcomeUnknown'') then s
      else if session \<noteq> jc_session s then s
      else s\<lparr>jc_results := enqueueUniqueJobResult (jc_results s) (job_result options job)\<rparr>)"

definition dismissJobResult :: "string \<Rightarrow> job_client \<Rightarrow> job_client" where
  "dismissJobResult jobId s =
     (if jobId = [] then s else s\<lparr>jc_results := filter (\<lambda>r. job_id r \<noteq> Str jobId) (jc_results s)\<rparr>)"

section \<open>Polls and trackers\<close>

text \<open>\<open>runCmsJobInBackground\<close>: the poll of the job, started unless there is one.\<close>

definition runCmsJobInBackground :: "string \<Rightarrow> int \<Rightarrow> job_client \<Rightarrow> nat \<times> job_client" where
  "runCmsJobInBackground jobId now s =
     (case map_of (jc_active s) jobId of
        Some p \<Rightarrow> (p, s)
      | None \<Rightarrow> (jc_next s, s\<lparr>jc_next := Suc (jc_next s), jc_active := obj_set jobId (jc_next s) (jc_active s),
                    jc_polls := obj_set (jc_next s) (new_poll jobId now) (jc_polls s)\<rparr>))"

definition isCmsJobPolling :: "string \<Rightarrow> job_client \<Rightarrow> bool" where
  "isCmsJobPolling jobId s \<longleftrightarrow> map_of (jc_active s) jobId \<noteq> None"

text \<open>The end of a tracker: the job, or the error its poll ended with.\<close>

definition interrupted_jobs :: "string \<Rightarrow> string \<Rightarrow> js \<Rightarrow> job_client \<Rightarrow> tracked \<times> tracked list" where
  "interrupted_jobs stamp jobId err s =
     (let cur = find (\<lambda>j. job_id j = Str jobId) (jc_jobs s);
          known = (case cur of Some j \<Rightarrow> j | None \<Rightarrow> []);
          interrupted = normalizeTrackedJob stamp
            (getCmsJobErrorResult err (Obj (js_spread known [(''jobId'', Str jobId)])) (Obj [])) (Obj known)
      in (interrupted, map (\<lambda>j. if job_id j = Str jobId then js_spread j interrupted else j) (jc_jobs s)))"

definition end_tracker ::
  "(string \<Rightarrow> string \<Rightarrow> int) \<Rightarrow> string \<Rightarrow> js + js \<Rightarrow> tracker \<Rightarrow> job_client \<Rightarrow> job_client" where
  "end_tracker cmp stamp outcome t s =
     (let s1 = (if tk_joined t then s
                else (case outcome of
                    Inr result \<Rightarrow>
                      (let final = normalizeTrackedJob stamp result (Obj [])
                       in notifyTerminal (Obj final) (tk_options t) (tk_session t) (upsertJob cmp (tk_jobId t) final s))
                  | Inl err \<Rightarrow>
                      if truthy (js_get err ''cancelled'') then s
                      else (let (interrupted, jobs) = interrupted_jobs stamp (tk_jobId t) err s
                            in notifyTerminal (Obj interrupted) (tk_options t) (tk_session t) s\<lparr>jc_jobs := jobs\<rparr>)))
      in if tk_joined t then s1 else s1\<lparr>jc_tracking := removeAll (tk_jobId t) (jc_tracking s1)\<rparr>)"

text \<open>The trackers that wait for a poll go on in order.\<close>

definition waiting_for :: "nat \<Rightarrow> job_client \<Rightarrow> nat list" where
  "waiting_for p s = map fst (filter (\<lambda>(k, t). tk_stage t = Following p) (jc_trackers s))"

definition resume_tracker ::
  "(string \<Rightarrow> string \<Rightarrow> int) \<Rightarrow> string \<Rightarrow> js + js \<Rightarrow> nat \<Rightarrow> job_client \<Rightarrow> job_client" where
  "resume_tracker cmp stamp outcome k s =
     (case map_of (jc_trackers s) k of
        Some t \<Rightarrow> end_tracker cmp stamp outcome t (s\<lparr>jc_trackers := obj_del k (jc_trackers s)\<rparr>)
      | None \<Rightarrow> s)"

definition settle_promise ::
  "(string \<Rightarrow> string \<Rightarrow> int) \<Rightarrow> string \<Rightarrow> nat \<Rightarrow> js + js \<Rightarrow> job_client \<Rightarrow> job_client" where
  "settle_promise cmp stamp p outcome s =
     (case map_of (jc_polls s) p of
        Some po \<Rightarrow> if po_open po
          then fold (resume_tracker cmp stamp outcome) (waiting_for p s)
                 (s\<lparr>jc_polls := obj_set p (po\<lparr>po_open := False\<rparr>) (jc_polls s)\<rparr>)
          else s
      | None \<Rightarrow> s)"

text \<open>The end of a poll: its entry is removed, and its promise settled.\<close>

definition poll_over ::
  "(string \<Rightarrow> string \<Rightarrow> int) \<Rightarrow> string \<Rightarrow> nat \<Rightarrow> string \<Rightarrow> js + js \<Rightarrow> job_client \<Rightarrow> job_client" where
  "poll_over cmp stamp p jobId outcome s =
     settle_promise cmp stamp p outcome (s\<lparr>jc_active := obj_del jobId (jc_active s)\<rparr>)"

definition CANCELLED_ERROR :: js where
  "CANCELLED_ERROR = Obj [(''message'', Str ''Polling cancelled''), (''cancelled'', Bool True)]"

definition cancelled_poll :: "poll \<Rightarrow> poll" where
  "cancelled_poll po = po\<lparr>po_cancelled := True, po_stage := (if po_stage po = Sleeping then Settled else po_stage po)\<rparr>"

definition cancel_poll :: "nat \<Rightarrow> job_client \<Rightarrow> job_client" where
  "cancel_poll p s =
     (case map_of (jc_polls s) p of
        Some po \<Rightarrow> s\<lparr>jc_polls := obj_set p (cancelled_poll po) (jc_polls s)\<rparr>
      | None \<Rightarrow> s)"

definition cancelCmsJobPoll :: "(string \<Rightarrow> string \<Rightarrow> int) \<Rightarrow> string \<Rightarrow> string \<Rightarrow> job_client \<Rightarrow> job_client" where
  "cancelCmsJobPoll cmp stamp jobId s =
     (case map_of (jc_active s) jobId of
        None \<Rightarrow> s
      | Some p \<Rightarrow> settle_promise cmp stamp p (Inl CANCELLED_ERROR)
                    ((cancel_poll p s)\<lparr>jc_active := obj_del jobId (jc_active s)\<rparr>))"

section \<open>The operations of the context\<close>

definition on_update :: "(string \<Rightarrow> string \<Rightarrow> int) \<Rightarrow> string \<Rightarrow> string \<Rightarrow> js \<Rightarrow> job_client \<Rightarrow> job_client" where
  "on_update cmp stamp jobId serverJob s = upsertJob cmp jobId (normalizeTrackedJob stamp serverJob (Obj [])) s"

definition add_tracker :: "string \<Rightarrow> track_options \<Rightarrow> bool \<Rightarrow> tracker_stage \<Rightarrow> nat \<Rightarrow> job_client \<Rightarrow> job_client" where
  "add_tracker jobId options joined stage session s =
     s\<lparr>jc_next := Suc (jc_next s),
       jc_trackers := obj_set (jc_next s) \<lparr>tk_jobId = jobId, tk_session = session, tk_options = options,
                        tk_joined = joined, tk_stage = stage\<rparr> (jc_trackers s)\<rparr>"

definition startTracking ::
  "(string \<Rightarrow> string \<Rightarrow> int) \<Rightarrow> string \<Rightarrow> int \<Rightarrow> string \<Rightarrow> track_options \<Rightarrow> js option \<Rightarrow> job_client \<Rightarrow> job_client" where
  "startTracking cmp stamp now jobId options initialJob s =
     (if jobId = [] then s
      else if jobId \<in> set (jc_tracking s) \<or> isCmsJobPolling jobId s
      then (let (p, s1) = runCmsJobInBackground jobId now s
            in add_tracker jobId options True (Following p) (jc_session s) s1)
      else
        (let s1 = s\<lparr>jc_tracking := push_new jobId (jc_tracking s)\<rparr>
         in case initialJob of
              None \<Rightarrow> add_tracker jobId options False Looking (jc_session s) s1
            | Some job \<Rightarrow>
                (let s2 = on_update cmp stamp jobId (Obj (js_spread (js_fields job) [(''jobId'', Str jobId)])) s1;
                     (p, s3) = runCmsJobInBackground jobId now s2
                 in add_tracker jobId options False (Following p) (jc_session s) s3)))"

text \<open>The first look at a job of a tracker that was given none.\<close>

definition looked ::
  "(string \<Rightarrow> string \<Rightarrow> int) \<Rightarrow> string \<Rightarrow> int \<Rightarrow> nat \<Rightarrow> js + js \<Rightarrow> job_client \<Rightarrow> job_client" where
  "looked cmp stamp now k answer s =
     (case map_of (jc_trackers s) k of
        Some t \<Rightarrow>
          if tk_stage t = Looking then
            (let s1 = (case answer of
                   Inr raw \<Rightarrow> on_update cmp stamp (tk_jobId t) (resolved_job raw) s
                 | Inl _ \<Rightarrow> upsertJob cmp (tk_jobId t) [(''jobStatus'', Str ''queued'')] s);
                 (p, s2) = runCmsJobInBackground (tk_jobId t) now s1
             in s2\<lparr>jc_trackers := obj_set k (t\<lparr>tk_stage := Following p\<rparr>) (jc_trackers s2)\<rparr>)
          else s
      | None \<Rightarrow> s)"

text \<open>An answer to a poll. Its update is passed on unless the poll was cancelled.\<close>

definition answered_poll ::
  "(string \<Rightarrow> string \<Rightarrow> int) \<Rightarrow> string \<Rightarrow> nat \<Rightarrow> js + js \<Rightarrow> job_client \<Rightarrow> job_client" where
  "answered_poll cmp stamp p answer s =
     (case map_of (jc_polls s) p of
        Some po \<Rightarrow>
          if po_stage po = InFlight then
            (let (po', res) = poll_answer answer po;
                 s1 = s\<lparr>jc_polls := obj_set p po' (jc_polls s)\<rparr>;
                 s2 = (case answer of
                     Inr raw \<Rightarrow> if po_cancelled po then s1 else on_update cmp stamp (po_jobId po) (resolved_job raw) s1
                   | Inl _ \<Rightarrow> s1)
             in case res of Waits \<Rightarrow> s2 | Ends outcome \<Rightarrow> poll_over cmp stamp p (po_jobId po) outcome s2)
          else s
      | None \<Rightarrow> s)"

definition tick :: "nat \<Rightarrow> job_client \<Rightarrow> job_client" where
  "tick p s =
     (case map_of (jc_polls s) p of
        Some po \<Rightarrow> if po_stage po = Sleeping
          then s\<lparr>jc_polls := obj_set p (po\<lparr>po_stage := (if po_cancelled po then Settled else InFlight)\<rparr>) (jc_polls s)\<rparr>
          else s
      | None \<Rightarrow> s)"

definition persistDismissedJobIds :: "bool \<Rightarrow> string list \<Rightarrow> string list" where
  "persistDismissedJobIds blocked ids = (if blocked then ids else drop (length ids - MAX_DISMISSED) ids)"

definition dismissJob :: "bool \<Rightarrow> string \<Rightarrow> job_client \<Rightarrow> job_client" where
  "dismissJob blocked jobId s =
     s\<lparr>jc_dismissed := persistDismissedJobIds blocked (push_new jobId (jc_dismissed s)),
       jc_jobs := concat (map (\<lambda>job. if job_id job \<noteq> Str jobId then [job]
         else if isTerminalCmsJobStatus (js_get (Obj job) ''jobStatus'') then []
         else [js_spread job [(''dismissed'', Bool True)]]) (jc_jobs s))\<rparr>"

definition terminal_job :: "tracked \<Rightarrow> bool" where
  "terminal_job job \<longleftrightarrow> isTerminalCmsJobStatus (js_get (Obj job) ''jobStatus'')"

definition id_text :: "js \<Rightarrow> string" where
  "id_text v = (case v of Str s \<Rightarrow> s | _ \<Rightarrow> [])"

definition clearCompleted :: "bool \<Rightarrow> job_client \<Rightarrow> job_client" where
  "clearCompleted blocked s =
     s\<lparr>jc_dismissed := persistDismissedJobIds blocked
         (fold (\<lambda>job ids. push_new (id_text (job_id job)) ids) (filter terminal_job (jc_jobs s)) (jc_dismissed s)),
       jc_jobs := filter (\<lambda>job. \<not> terminal_job job) (jc_jobs s)\<rparr>"

text \<open>The effect of a change of \<open>isAuthenticated\<close>: everything is given up on a logout, and the
  recent jobs are fetched after a login.\<close>

definition logged_out :: "(string \<Rightarrow> string \<Rightarrow> int) \<Rightarrow> string \<Rightarrow> job_client \<Rightarrow> job_client" where
  "logged_out cmp stamp s =
     (let polls = map snd (jc_active s);
          s1 = (fold cancel_poll polls s)\<lparr>jc_active := [], jc_session := Suc (jc_session s), jc_jobs := [],
                 jc_results := [], jc_tracking := [], jc_restoring := False\<rparr>
      in fold (\<lambda>p. settle_promise cmp stamp p (Inl CANCELLED_ERROR)) polls s1)"

definition restored_job ::
  "(string \<Rightarrow> string \<Rightarrow> int) \<Rightarrow> string \<Rightarrow> int \<Rightarrow> js \<Rightarrow> job_client \<Rightarrow> job_client" where
  "restored_job cmp stamp now job s =
     (let jobId = id_text (js_get job ''jobId'') in
      if jobId \<in> set (jc_dismissed s) then s
      else
        (let normalized = normalizeTrackedJob stamp job (Obj []);
             s1 = upsertJob cmp jobId normalized s
         in if isTerminalCmsJobStatus (js_get (Obj normalized) ''jobStatus'') then s1
            else startTracking cmp stamp now jobId \<lparr>to_notify = True, to_successMessage = Undefined, to_errorMessage = Undefined\<rparr>
                   (Some job) s1))"

definition restored ::
  "(string \<Rightarrow> string \<Rightarrow> int) \<Rightarrow> string \<Rightarrow> int \<Rightarrow> js list option \<Rightarrow> job_client \<Rightarrow> job_client" where
  "restored cmp stamp now recent s =
     (if jc_restoring s
      then (case recent of Some jobs \<Rightarrow> fold (restored_job cmp stamp now) jobs | None \<Rightarrow> id) (s\<lparr>jc_restoring := False\<rparr>)
      else s)"

definition visibleJobs :: "job_client \<Rightarrow> tracked list" where
  "visibleJobs s = filter (\<lambda>j. \<not> truthy (js_get (Obj j) ''dismissed'')) (jc_jobs s)"

definition activeCount :: "job_client \<Rightarrow> nat" where
  "activeCount s = length (filter (\<lambda>j. \<not> truthy (js_get (Obj j) ''outcomeUnknown'')
     \<and> (js_get (Obj j) ''jobStatus'' = Str ''queued'' \<or> js_get (Obj j) ''jobStatus'' = Str ''running'')) (visibleJobs s))"

section \<open>Runs\<close>

datatype job_client_event =
    Track string int string track_options "js option"
  | Looked string int nat "js + js"
  | Answered string nat "js + js"
  | Tick nat
  | CancelPoll string string
  | DismissJob bool string
  | ClearCompleted bool
  | DismissResult string
  | CloseResult
  | LoggedOut string
  | LoggedIn
  | Restored string int "js list option"

fun job_client_step :: "(string \<Rightarrow> string \<Rightarrow> int) \<Rightarrow> job_client_event \<Rightarrow> job_client \<Rightarrow> job_client" where
  "job_client_step cmp (Track stamp now jobId options initialJob) s = startTracking cmp stamp now jobId options initialJob s"
| "job_client_step cmp (Looked stamp now k answer) s = looked cmp stamp now k answer s"
| "job_client_step cmp (Answered stamp p answer) s = answered_poll cmp stamp p answer s"
| "job_client_step cmp (Tick p) s = tick p s"
| "job_client_step cmp (CancelPoll stamp jobId) s = cancelCmsJobPoll cmp stamp jobId s"
| "job_client_step cmp (DismissJob blocked jobId) s = dismissJob blocked jobId s"
| "job_client_step cmp (ClearCompleted blocked) s = clearCompleted blocked s"
| "job_client_step cmp (DismissResult jobId) s = dismissJobResult jobId s"
| "job_client_step cmp CloseResult s = s\<lparr>jc_results := drop 1 (jc_results s)\<rparr>"
| "job_client_step cmp (LoggedOut stamp) s = logged_out cmp stamp s"
| "job_client_step cmp LoggedIn s = s\<lparr>jc_restoring := True\<rparr>"
| "job_client_step cmp (Restored stamp now recent) s = restored cmp stamp now recent s"

definition job_client_run :: "(string \<Rightarrow> string \<Rightarrow> int) \<Rightarrow> job_client_event list \<Rightarrow> job_client \<Rightarrow> job_client" where
  "job_client_run cmp es s = fold (job_client_step cmp) es s"

definition init_job_client :: "string list \<Rightarrow> job_client" where
  "init_job_client dismissed =
     \<lparr>jc_jobs = [], jc_results = [], jc_tracking = [], jc_dismissed = dismissed, jc_session = 0, jc_active = [],
      jc_polls = [], jc_trackers = [], jc_restoring = False, jc_next = 0\<rparr>"

end
