(* ===== verification/CmsJobClientFacts.thy ===== *)
theory CmsJobClientFacts
  imports CmsJobClient
begin

text \<open>
  What holds of the jobs the web client follows: no job is shown as failed unless the server says so,
  work of a session that ended shows no result in the next one, the list and the results have every
  job once; and two schedules on which a job of the old session, or a job that was put away, is shown.
\<close>

section \<open>Objects\<close>

lemma map_of_spread:
  assumes "obj_wf over"
  shows "map_of (js_spread base over) k = (case map_of over k of Some v \<Rightarrow> Some v | None \<Rightarrow> map_of base k)"
  using assms unfolding js_spread_def
proof (induction over arbitrary: base)
  case (Cons kv over)
  obtain k' v where kv: "kv = (k', v)" by force
  have "obj_wf over" "map_of over k' = None"
    using Cons.prems by (auto simp: kv obj_wf_def map_of_eq_None_iff)
  then show ?case using Cons.IH [of "obj_set k' v base"] by (auto simp: kv obj_simps split: option.split)
qed simp

lemma js_get_spread:
  "obj_wf over \<Longrightarrow> js_get (Obj (js_spread base over)) k
     = (case map_of over k of Some v \<Rightarrow> v | None \<Rightarrow> js_get (Obj base) k)"
  by (simp add: map_of_spread split: option.split)

lemma obj_wf_normalize [simp]: "obj_wf (normalizeTrackedJob stamp a b)"
  by (simp add: normalizeTrackedJob_def obj_wf_def)

lemma spread_id [simp]:
  "job_id (js_spread j [(''jobId'', v)]) = v"
  by (simp add: job_id_def map_of_spread obj_wf_def)

section \<open>What the server and the polls say\<close>

text \<open>\<open>good\<close> is what is known of every job the server gives.\<close>

definition fine :: "(js \<Rightarrow> bool) \<Rightarrow> string \<Rightarrow> js \<Rightarrow> bool" where
  "fine good jobId job \<longleftrightarrow> (\<exists>kvs. job = Obj kvs \<and> obj_wf kvs) \<and> js_get job ''jobId'' = Str jobId \<and> good job"

definition poll_error :: "(js \<Rightarrow> bool) \<Rightarrow> string \<Rightarrow> js \<Rightarrow> bool" where
  "poll_error good jobId err \<longleftrightarrow>
     (\<exists>e last. err = status_error e jobId last \<and> (last = Null \<or> fine good jobId last))
     \<or> (\<exists>job. err = terminal_error job \<and> fine good jobId job \<and> resolveCmsJobStatus job = Some ''failed'')
     \<or> err = CANCELLED_ERROR"

definition outcome_ok :: "(js \<Rightarrow> bool) \<Rightarrow> string \<Rightarrow> js + js \<Rightarrow> bool" where
  "outcome_ok good jobId outcome \<longleftrightarrow> (case outcome of Inr job \<Rightarrow> fine good jobId job | Inl err \<Rightarrow> poll_error good jobId err)"

text \<open>The answers are about the jobs they are asked for.\<close>

definition honest :: "(js \<Rightarrow> bool) \<Rightarrow> job_client_event \<Rightarrow> job_client \<Rightarrow> bool" where
  "honest good e s \<longleftrightarrow> (case e of
       Track _ _ jobId _ (Some job) \<Rightarrow> (\<exists>kvs. job = Obj kvs \<and> obj_wf kvs) \<and> good (Obj (js_spread (js_fields job) [(''jobId'', Str jobId)]))
     | Looked _ _ k (Inr raw) \<Rightarrow> (case map_of (jc_trackers s) k of Some t \<Rightarrow> fine good (tk_jobId t) raw | None \<Rightarrow> True)
     | Answered _ p (Inr raw) \<Rightarrow> (case map_of (jc_polls s) p of Some po \<Rightarrow> fine good (po_jobId po) raw | None \<Rightarrow> True)
     | Restored _ _ (Some jobs) \<Rightarrow> (\<forall>job \<in> set jobs. \<exists>jobId. fine good jobId job \<and> jobId \<noteq> [])
     | _ \<Rightarrow> True)"

fun honest_run :: "(js \<Rightarrow> bool) \<Rightarrow> (string \<Rightarrow> string \<Rightarrow> int) \<Rightarrow> job_client_event list \<Rightarrow> job_client \<Rightarrow> bool" where
  "honest_run good cmp [] s \<longleftrightarrow> True"
| "honest_run good cmp (e # es) s \<longleftrightarrow> honest good e s \<and> honest_run good cmp es (job_client_step cmp e s)"

definition wired :: "(js \<Rightarrow> bool) \<Rightarrow> job_client \<Rightarrow> bool" where
  "wired good s \<longleftrightarrow>
     (\<forall>p po. map_of (jc_polls s) p = Some po \<longrightarrow> p < jc_next s \<and> (po_last po = Null \<or> fine good (po_jobId po) (po_last po)))
     \<and> (\<forall>k t p. map_of (jc_trackers s) k = Some t \<longrightarrow> tk_stage t = Following p \<longrightarrow>
          (\<exists>po. map_of (jc_polls s) p = Some po \<and> po_jobId po = tk_jobId t))
     \<and> (\<forall>j p. map_of (jc_active s) j = Some p \<longrightarrow> (\<exists>po. map_of (jc_polls s) p = Some po \<and> po_jobId po = j))"

lemma resolved_fields:
  "obj_wf kvs \<Longrightarrow> resolved_job (Obj kvs) = Obj kvs \<or> (\<exists>st. resolveCmsJobStatus (Obj kvs) = Some st
     \<and> resolved_job (Obj kvs) = Obj (obj_set ''jobStatus'' (Str st) kvs))"
  by (auto simp: resolved_job_def js_spread_def split: option.split)

section \<open>Lists that every operation keeps\<close>

text \<open>
  The contract of a property of the list of jobs and the list of results: it holds of what each
  operation makes of them, for jobs and errors as the server and the polls give them. Then it holds
  on every run.
\<close>

locale job_lists =
  fixes good :: "js \<Rightarrow> bool"
    and view :: "tracked list \<Rightarrow> tracked list \<Rightarrow> bool"
  assumes good_resolved: "fine good jobId raw \<Longrightarrow> good (resolved_job raw)"
    and view_empty: "view [] []"
    and view_update: "view js rs \<Longrightarrow> fine good jobId job \<Longrightarrow>
          view (upsert_list cmp d jobId (normalizeTrackedJob stamp job (Obj [])) js) rs"
    and view_queued: "view js rs \<Longrightarrow> view (upsert_list cmp d jobId [(''jobStatus'', Str ''queued'')] js) rs"
    and view_result: "view js rs \<Longrightarrow> fine good jobId job \<Longrightarrow>
          view js (enqueueUniqueJobResult rs (job_result opts (Obj (normalizeTrackedJob stamp job (Obj [])))))"
    and view_interrupted: "view (jc_jobs s) (jc_results s) \<Longrightarrow> poll_error good jobId err \<Longrightarrow> err \<noteq> CANCELLED_ERROR \<Longrightarrow>
          view (snd (interrupted_jobs stamp jobId err s)) (jc_results s)
          \<and> view (snd (interrupted_jobs stamp jobId err s))
               (enqueueUniqueJobResult (jc_results s) (job_result opts (Obj (fst (interrupted_jobs stamp jobId err s)))))"
    and view_dismissed: "view js rs \<Longrightarrow> view (concat (map (\<lambda>job. if job_id job \<noteq> Str jobId then [job]
          else if isTerminalCmsJobStatus (js_get (Obj job) ''jobStatus'') then []
          else [js_spread job [(''dismissed'', Bool True)]]) js)) rs"
    and view_filter: "view js rs \<Longrightarrow> view (filter P js) (filter Q rs)"
    and view_drop: "view js rs \<Longrightarrow> view js (drop n rs)"
begin

abbreviation kept :: "job_client \<Rightarrow> bool" where
  "kept s \<equiv> wired good s \<and> view (jc_jobs s) (jc_results s)"

lemma fine_resolved: "fine good jobId raw \<Longrightarrow> fine good jobId (resolved_job raw)"
  using good_resolved [of jobId raw] resolved_fields
  by (fastforce simp: fine_def obj_simps intro: wf_intros)

lemma keeps_update: "kept s \<Longrightarrow> fine good jobId job \<Longrightarrow> kept (on_update cmp stamp jobId job s)"
  by (simp add: on_update_def upsertJob_def wired_def view_update)

lemma notify_lists:
  "jc_jobs (notifyTerminal job opts session s) = jc_jobs s"
  "jc_results (notifyTerminal job opts session s) = jc_results s
   \<or> jc_results (notifyTerminal job opts session s) = enqueueUniqueJobResult (jc_results s) (job_result opts job)"
  "wired g (notifyTerminal job opts session s) = wired g s"
  by (simp_all add: notifyTerminal_def wired_def)

lemma wired_lists [simp]:
  "wired g (s\<lparr>jc_jobs := js\<rparr>) = wired g s" "wired g (s\<lparr>jc_results := rs\<rparr>) = wired g s"
  "wired g (s\<lparr>jc_tracking := ts\<rparr>) = wired g s" "wired g (s\<lparr>jc_dismissed := ds\<rparr>) = wired g s"
  "wired g (s\<lparr>jc_restoring := b\<rparr>) = wired g s"
  by (simp_all add: wired_def)

lemma keeps_end:
  assumes "kept s" "outcome_ok good (tk_jobId t) outcome"
  shows "kept (end_tracker cmp stamp outcome t s)"
proof (cases outcome)
  case (Inr job)
  let ?f = "normalizeTrackedJob stamp job (Obj [])"
  let ?s1 = "upsertJob cmp (tk_jobId t) ?f s"
  have s1: "kept ?s1" using assms Inr by (simp add: upsertJob_def view_update outcome_ok_def)
  have "kept (notifyTerminal (Obj ?f) (tk_options t) (tk_session t) ?s1)"
    using s1 notify_lists(1,3) notify_lists(2) [of "Obj ?f" "tk_options t" "tk_session t" ?s1] assms(2) Inr view_result
    by (auto simp: outcome_ok_def)
  then show ?thesis using assms by (auto simp: end_tracker_def Inr Let_def)
next
  case (Inl err)
  obtain interrupted jobs where ij: "interrupted_jobs stamp (tk_jobId t) err s = (interrupted, jobs)" by force
  show ?thesis
  proof (cases "err = CANCELLED_ERROR")
    case True
    then show ?thesis using assms(1) by (simp add: end_tracker_def Inl CANCELLED_ERROR_def)
  next
    case False
    have e: "poll_error good (tk_jobId t) err" using assms(2) by (simp add: Inl outcome_ok_def)
    have v: "view jobs (jc_results s)" "\<And>opts. view jobs (enqueueUniqueJobResult (jc_results s) (job_result opts (Obj interrupted)))"
      using view_interrupted [OF _ e False, of s stamp] assms(1) by (simp_all add: ij)
    have "kept ((notifyTerminal (Obj interrupted) (tk_options t) (tk_session t) s)\<lparr>jc_jobs := jobs\<rparr>)"
      using assms(1) notify_lists(3) notify_lists(2) [of "Obj interrupted" "tk_options t" "tk_session t" s] v by auto
    then show ?thesis using assms(1) by (auto simp: end_tracker_def Inl Let_def ij)
  qed
qed

lemma wired_drop_tracker: "wired g s \<Longrightarrow> wired g (s\<lparr>jc_trackers := obj_del k (jc_trackers s)\<rparr>)"
  by (simp add: wired_def obj_simps)

lemma end_tracker_frame [simp]:
  "jc_polls (end_tracker cmp stamp outcome t s) = jc_polls s"
  "jc_trackers (end_tracker cmp stamp outcome t s) = jc_trackers s"
  by (auto simp: end_tracker_def Let_def notifyTerminal_def upsertJob_def split: sum.split prod.split)

lemma keeps_resume:
  assumes "kept s" "\<And>t. map_of (jc_trackers s) k = Some t \<Longrightarrow>
    outcome_ok good (tk_jobId t) outcome"
  shows "kept (resume_tracker cmp stamp outcome k s)"
  using assms keeps_end wired_drop_tracker by (auto simp: resume_tracker_def split: option.split)

lemma resume_trackers [simp]:
  "jc_trackers (resume_tracker cmp stamp outcome k s) = (if map_of (jc_trackers s) k = None then jc_trackers s else obj_del k (jc_trackers s))"
  by (simp add: resume_tracker_def split: option.split)

lemma keeps_resume_all:
  assumes "kept s" "\<And>k t. k \<in> set ks \<Longrightarrow> map_of (jc_trackers s) k = Some t \<Longrightarrow>
    outcome_ok good (tk_jobId t) outcome"
  shows "kept (fold (resume_tracker cmp stamp outcome) ks s)"
  using assms
proof (induction ks arbitrary: s)
  case (Cons k ks)
  have k: "kept (resume_tracker cmp stamp outcome k s)"
    by (rule keeps_resume [OF Cons.prems(1)]) (use Cons.prems(2) [of k] in simp)
  have "kept (fold (resume_tracker cmp stamp outcome) ks (resume_tracker cmp stamp outcome k s))"
  proof (rule Cons.IH [OF k])
    fix j t
    assume "j \<in> set ks" "map_of (jc_trackers (resume_tracker cmp stamp outcome k s)) j = Some t"
    then show "outcome_ok good (tk_jobId t) outcome"
      by (intro Cons.prems(2)) (auto simp: obj_simps split: if_splits)
  qed
  then show ?case by simp
qed simp

lemma wired_poll:
  assumes "wired good s" "map_of (jc_polls s) p = Some po" "po_jobId po' = po_jobId po"
    and "po_last po' = Null \<or> fine good (po_jobId po) (po_last po')"
  shows "wired good (s\<lparr>jc_polls := obj_set p po' (jc_polls s)\<rparr>)"
  unfolding wired_def
proof (intro conjI allI impI)
  fix q x
  assume "map_of (jc_polls (s\<lparr>jc_polls := obj_set p po' (jc_polls s)\<rparr>)) q = Some x"
  then show "q < jc_next (s\<lparr>jc_polls := obj_set p po' (jc_polls s)\<rparr>)" "po_last x = Null \<or> fine good (po_jobId x) (po_last x)"
    using assms by (auto simp: wired_def obj_simps split: if_splits)
next
  fix k t q
  assume "map_of (jc_trackers (s\<lparr>jc_polls := obj_set p po' (jc_polls s)\<rparr>)) k = Some t" "tk_stage t = Following q"
  then have "\<exists>x. map_of (jc_polls s) q = Some x \<and> po_jobId x = tk_jobId t" using assms(1) by (auto simp: wired_def)
  then show "\<exists>x. map_of (jc_polls (s\<lparr>jc_polls := obj_set p po' (jc_polls s)\<rparr>)) q = Some x \<and> po_jobId x = tk_jobId t"
    using assms(2,3) by (cases "q = p") (auto simp: obj_simps)
next
  fix j q
  assume "map_of (jc_active (s\<lparr>jc_polls := obj_set p po' (jc_polls s)\<rparr>)) j = Some q"
  then have "\<exists>x. map_of (jc_polls s) q = Some x \<and> po_jobId x = j" using assms(1) by (auto simp: wired_def)
  then show "\<exists>x. map_of (jc_polls (s\<lparr>jc_polls := obj_set p po' (jc_polls s)\<rparr>)) q = Some x \<and> po_jobId x = j"
    using assms(2,3) by (cases "q = p") (auto simp: obj_simps)
qed

lemma poll_known:
  "wired good s \<Longrightarrow> map_of (jc_polls s) p = Some po \<Longrightarrow> po_last po = Null \<or> fine good (po_jobId po) (po_last po)"
  by (simp add: wired_def)

lemma waiting_tracker:
  assumes "wired good s" "k \<in> set (waiting_for p s)" "map_of (jc_trackers s) k = Some t" "obj_wf (jc_trackers s)"
    and "map_of (jc_polls s) p = Some po"
  shows "tk_jobId t = po_jobId po"
proof -
  obtain t' where "(k, t') \<in> set (jc_trackers s)" "tk_stage t' = Following p"
    using assms(2) by (auto simp: waiting_for_def)
  then have "tk_stage t = Following p" using assms(3,4) map_of_obj_wf by fastforce
  then show ?thesis using assms(1,3,5) by (fastforce simp: wired_def)
qed

lemma keeps_settle:
  assumes "kept s" "obj_wf (jc_trackers s)"
    and "\<And>po. map_of (jc_polls s) p = Some po \<Longrightarrow>
      outcome_ok good (po_jobId po) outcome"
  shows "kept (settle_promise cmp stamp p outcome s)"
proof (cases "map_of (jc_polls s) p")
  case (Some po)
  let ?s1 = "s\<lparr>jc_polls := obj_set p (po\<lparr>po_open := False\<rparr>) (jc_polls s)\<rparr>"
  have "wired good ?s1"
    using wired_poll [of s p po "po\<lparr>po_open := False\<rparr>"] poll_known [of s p po] Some assms(1) by simp
  then have k: "kept ?s1" using assms(1) by simp
  have "kept (fold (resume_tracker cmp stamp outcome) (waiting_for p s) ?s1)"
  proof (rule keeps_resume_all [OF k])
    fix j t
    assume "j \<in> set (waiting_for p s)" "map_of (jc_trackers ?s1) j = Some t"
    then have "tk_jobId t = po_jobId po" using waiting_tracker [of s j p t po] assms(1,2) Some by simp
    then show "outcome_ok good (tk_jobId t) outcome"
      using assms(3) [OF Some] by simp
  qed
  then show ?thesis using assms(1) by (simp add: settle_promise_def Some)
qed (simp add: settle_promise_def assms(1))

lemma wired_active: "wired good s \<Longrightarrow> wired good (s\<lparr>jc_active := obj_del j (jc_active s)\<rparr>)"
  by (simp add: wired_def obj_simps)

lemma keeps_cancel_poll: "kept s \<Longrightarrow> kept (cancel_poll p s)"
  using wired_poll [of s p _ "cancelled_poll _"] poll_known [of s p]
  by (auto simp: cancel_poll_def cancelled_poll_def split: option.split)

lemma cancelled_error [simp]: "poll_error good jobId CANCELLED_ERROR"
  by (simp add: poll_error_def)

lemma trackers_frame [simp]:
  "jc_trackers (cancel_poll p s) = jc_trackers s" "jc_trackers (upsertJob cmp j patch s) = jc_trackers s"
  "jc_trackers (on_update cmp stamp j job s) = jc_trackers s"
  by (simp_all add: cancel_poll_def upsertJob_def on_update_def split: option.split)

lemma keeps_cancel: "kept s \<Longrightarrow> obj_wf (jc_trackers s) \<Longrightarrow> kept (cancelCmsJobPoll cmp stamp jobId s)"
proof (cases "map_of (jc_active s) jobId")
  case (Some p)
  assume k: "kept s" and wf: "obj_wf (jc_trackers s)"
  let ?s1 = "(cancel_poll p s)\<lparr>jc_active := obj_del jobId (jc_active s)\<rparr>"
  have "jc_active (cancel_poll p s) = jc_active s" by (simp add: cancel_poll_def split: option.split)
  then have "kept ?s1" using keeps_cancel_poll [OF k, of p] wired_active [of "cancel_poll p s" jobId] by simp
  then have "kept (settle_promise cmp stamp p (Inl CANCELLED_ERROR) ?s1)"
    using wf by (intro keeps_settle) (simp_all add: outcome_ok_def)
  then show ?thesis by (simp add: cancelCmsJobPoll_def Some)
qed (simp add: cancelCmsJobPoll_def)

lemma run_poll:
  assumes "kept s" "runCmsJobInBackground jobId now s = (p, s1)"
  shows "kept s1 \<and> (\<exists>po. map_of (jc_polls s1) p = Some po \<and> po_jobId po = jobId) \<and> jc_trackers s1 = jc_trackers s
    \<and> jc_session s1 = jc_session s"
proof (cases "map_of (jc_active s) jobId")
  case (Some q)
  then show ?thesis using assms by (auto simp: runCmsJobInBackground_def wired_def)
next
  case None
  have new: "map_of (jc_polls s) (jc_next s) = None"
    using assms(1) by (cases "map_of (jc_polls s) (jc_next s)") (auto simp: wired_def)
  have r: "p = jc_next s" "s1 = s\<lparr>jc_next := Suc (jc_next s), jc_active := obj_set jobId (jc_next s) (jc_active s),
                    jc_polls := obj_set (jc_next s) (new_poll jobId now) (jc_polls s)\<rparr>"
    using assms(2) None by (auto simp: runCmsJobInBackground_def)
  have "wired good s1"
    unfolding wired_def
  proof (intro conjI allI impI)
    fix q x
    assume "map_of (jc_polls s1) q = Some x"
    then show "q < jc_next s1" "po_last x = Null \<or> fine good (po_jobId x) (po_last x)"
      using assms(1) by (auto simp: r wired_def obj_simps new_poll_def split: if_splits dest: less_SucI)
  next
    fix k t q
    assume "map_of (jc_trackers s1) k = Some t" "tk_stage t = Following q"
    then have "\<exists>x. map_of (jc_polls s) q = Some x \<and> po_jobId x = tk_jobId t" using assms(1) by (auto simp: r wired_def)
    then show "\<exists>x. map_of (jc_polls s1) q = Some x \<and> po_jobId x = tk_jobId t" using new by (auto simp: r obj_simps)
  next
    fix j q
    assume "map_of (jc_active s1) j = Some q"
    then have "(j = jobId \<and> q = jc_next s) \<or> (\<exists>x. map_of (jc_polls s) q = Some x \<and> po_jobId x = j)"
      using assms(1) by (auto simp: r wired_def obj_simps split: if_splits)
    then show "\<exists>x. map_of (jc_polls s1) q = Some x \<and> po_jobId x = j" using new by (auto simp: r obj_simps new_poll_def)
  qed
  then show ?thesis using assms(1) by (simp add: r obj_simps new_poll_def)
qed

lemma keeps_add:
  assumes "kept s" "case stage of Following p \<Rightarrow> (\<exists>po. map_of (jc_polls s) p = Some po \<and> po_jobId po = jobId) | Looking \<Rightarrow> True"
  shows "kept (add_tracker jobId options joined stage session s)"
  using assms by (fastforce simp: add_tracker_def wired_def obj_simps)

lemma keeps_start:
  assumes "kept s" "case initialJob of None \<Rightarrow> True | Some job \<Rightarrow> fine good jobId (Obj (js_spread (js_fields job) [(''jobId'', Str jobId)]))"
  shows "kept (startTracking cmp stamp now jobId options initialJob s)"
proof -
  consider "jobId = []" | "jobId \<noteq> []" "jobId \<in> set (jc_tracking s) \<or> isCmsJobPolling jobId s"
    | "jobId \<noteq> []" "\<not> (jobId \<in> set (jc_tracking s) \<or> isCmsJobPolling jobId s)" by blast
  then show ?thesis
  proof cases
    case 1
    then show ?thesis using assms(1) by (simp add: startTracking_def)
  next
    case 2
    obtain p s1 where r: "runCmsJobInBackground jobId now s = (p, s1)" by force
    show ?thesis using 2 run_poll [OF assms(1) r] by (simp add: startTracking_def r keeps_add)
  next
    case 3
    let ?s1 = "s\<lparr>jc_tracking := push_new jobId (jc_tracking s)\<rparr>"
    have k: "kept ?s1" using assms(1) by simp
    show ?thesis
    proof (cases initialJob)
      case None
      have "kept (add_tracker jobId options False Looking (jc_session s) ?s1)" using k by (intro keeps_add) simp_all
      then show ?thesis using 3 None by (simp add: startTracking_def)
    next
      case (Some job)
      let ?s2 = "on_update cmp stamp jobId (Obj (js_spread (js_fields job) [(''jobId'', Str jobId)])) ?s1"
      obtain p s3 where r: "runCmsJobInBackground jobId now ?s2 = (p, s3)" by force
      have "kept ?s2" using keeps_update [OF k] assms(2) Some by simp
      from run_poll [OF this r] have "kept (add_tracker jobId options False (Following p) (jc_session s) s3)"
        by (intro keeps_add) simp_all
      then show ?thesis using 3 Some r by (simp add: startTracking_def Let_def)
    qed
  qed
qed

lemma wf_resume: "obj_wf (jc_trackers s) \<Longrightarrow> obj_wf (jc_trackers (resume_tracker cmp stamp outcome k s))"
  by (auto intro: wf_intros)

lemma wf_settle: "obj_wf (jc_trackers s) \<Longrightarrow> obj_wf (jc_trackers (settle_promise cmp stamp p outcome s))"
proof -
  have "obj_wf (jc_trackers s) \<Longrightarrow> obj_wf (jc_trackers (fold (resume_tracker cmp stamp outcome) ks s))" for ks s
    by (induction ks arbitrary: s) (auto intro!: wf_resume simp del: resume_trackers)
  then show "obj_wf (jc_trackers s) \<Longrightarrow> obj_wf (jc_trackers (settle_promise cmp stamp p outcome s))"
    by (simp add: settle_promise_def split: option.split)
qed

lemma wf_over: "obj_wf (jc_trackers s) \<Longrightarrow> obj_wf (jc_trackers (poll_over cmp stamp p jobId outcome s))"
  by (simp add: poll_over_def wf_settle)

lemma wf_start: "obj_wf (jc_trackers s) \<Longrightarrow> obj_wf (jc_trackers (startTracking cmp stamp now jobId options initialJob s))"
  by (auto simp: startTracking_def add_tracker_def runCmsJobInBackground_def Let_def intro!: wf_intros
      split: option.split prod.split)

lemma wf_logged_out: "obj_wf (jc_trackers s) \<Longrightarrow> obj_wf (jc_trackers (logged_out cmp stamp s))"
proof -
  have "obj_wf (jc_trackers s) \<Longrightarrow> obj_wf (jc_trackers (fold (\<lambda>p. settle_promise cmp stamp p o') ps s))" for ps s o'
    by (induction ps arbitrary: s) (auto intro: wf_settle)
  moreover have "jc_trackers (fold cancel_poll ps s) = jc_trackers s" for ps s
    by (induction ps arbitrary: s) auto
  ultimately show "obj_wf (jc_trackers s) \<Longrightarrow> obj_wf (jc_trackers (logged_out cmp stamp s))"
    by (simp add: logged_out_def Let_def)
qed

lemma wf_restored: "obj_wf (jc_trackers s) \<Longrightarrow> obj_wf (jc_trackers (restored cmp stamp now recent s))"
proof -
  have "obj_wf (jc_trackers s) \<Longrightarrow> obj_wf (jc_trackers (restored_job cmp stamp now job s))" for job s
    by (auto simp: restored_job_def Let_def intro!: wf_start)
  then have "obj_wf (jc_trackers s) \<Longrightarrow> obj_wf (jc_trackers (fold (restored_job cmp stamp now) jobs s))" for jobs s
    by (induction jobs arbitrary: s) auto
  then show "obj_wf (jc_trackers s) \<Longrightarrow> obj_wf (jc_trackers (restored cmp stamp now recent s))"
    by (simp add: restored_def split: option.split)
qed

lemma wf_step: "obj_wf (jc_trackers s) \<Longrightarrow> obj_wf (jc_trackers (job_client_step cmp e s))"
proof (induction cmp e s rule: job_client_step.induct)
  case (2 cmp stamp now k answer s)
  then show ?case
    by (auto simp: looked_def runCmsJobInBackground_def Let_def intro!: wf_intros split: option.split sum.split prod.split)
next
  case (3 cmp stamp p answer s)
  then show ?case
    by (auto simp: answered_poll_def Let_def split: option.split sum.split prod.split poll_result.split intro!: wf_over)
next
  case (5 cmp stamp jobId s)
  then show ?case by (auto simp: cancelCmsJobPoll_def split: option.split intro!: wf_settle)
qed (auto simp: tick_def dismissJob_def clearCompleted_def dismissJobResult_def split: option.split
    intro: wf_start wf_logged_out wf_restored)

lemma keeps_looked:
  assumes "kept s" "honest good (Looked stamp now k answer) s"
  shows "kept (looked cmp stamp now k answer s)"
proof (cases "\<exists>t. map_of (jc_trackers s) k = Some t \<and> tk_stage t = Looking")
  case True
  then obtain t where t: "map_of (jc_trackers s) k = Some t" "tk_stage t = Looking" by blast
  let ?s1 = "case answer of Inr raw \<Rightarrow> on_update cmp stamp (tk_jobId t) (resolved_job raw) s
    | Inl _ \<Rightarrow> upsertJob cmp (tk_jobId t) [(''jobStatus'', Str ''queued'')] s"
  obtain p s2 where r: "runCmsJobInBackground (tk_jobId t) now ?s1 = (p, s2)" by force
  have "kept ?s1"
  proof (cases answer)
    case (Inl e)
    then show ?thesis using assms(1) by (simp add: upsertJob_def wired_def view_queued)
  next
    case (Inr raw)
    then show ?thesis using keeps_update [OF assms(1) fine_resolved] assms(2) t by (simp add: honest_def)
  qed
  from run_poll [OF this r] have "kept (s2\<lparr>jc_trackers := obj_set k (t\<lparr>tk_stage := Following p\<rparr>) (jc_trackers s2)\<rparr>)"
    by (fastforce simp: wired_def obj_simps)
  then show ?thesis using t r by (simp add: looked_def Let_def)
qed (use assms(1) in \<open>auto simp: looked_def split: option.split\<close>)

lemma poll_answer_frame: "poll_answer answer po = (po', res) \<Longrightarrow> po_jobId po' = po_jobId po"
  by (auto simp: poll_answer_def Let_def split: sum.splits if_splits)

lemma poll_answer_known:
  assumes "poll_answer answer po = (po', res)" "po_last po = Null \<or> fine good (po_jobId po) (po_last po)"
    and "\<And>raw. answer = Inr raw \<Longrightarrow> fine good (po_jobId po) raw"
  shows "(po_last po' = Null \<or> fine good (po_jobId po) (po_last po'))
    \<and> (\<forall>outcome. res = Ends outcome \<longrightarrow> outcome_ok good (po_jobId po) outcome)"
  using assms fine_resolved [of "po_jobId po"]
  by (auto simp: poll_answer_def Let_def outcome_ok_def poll_error_def split: sum.splits if_splits)

lemma keeps_answered:
  assumes "kept s" "obj_wf (jc_trackers s)" "honest good (Answered stamp p answer) s"
  shows "kept (answered_poll cmp stamp p answer s)"
proof (cases "\<exists>po. map_of (jc_polls s) p = Some po \<and> po_stage po = InFlight")
  case True
  then obtain po where po: "map_of (jc_polls s) p = Some po" "po_stage po = InFlight" by blast
  obtain po' res where r: "poll_answer answer po = (po', res)" by force
  have raw: "\<And>raw. answer = Inr raw \<Longrightarrow> fine good (po_jobId po) raw" using assms(3) po by (simp add: honest_def)
  note known = poll_answer_known [OF r poll_known [OF conjunct1 [OF assms(1)] po(1)] raw]
  let ?s1 = "s\<lparr>jc_polls := obj_set p po' (jc_polls s)\<rparr>"
  have s1: "kept ?s1" using wired_poll [OF _ po(1) poll_answer_frame [OF r] conjunct1 [OF known]] assms(1) by simp
  let ?s2 = "case answer of Inr raw \<Rightarrow> if po_cancelled po then ?s1 else on_update cmp stamp (po_jobId po) (resolved_job raw) ?s1
    | Inl _ \<Rightarrow> ?s1"
  have s2: "kept ?s2"
  proof (cases answer)
    case (Inr job)
    then show ?thesis using s1 keeps_update [OF s1 fine_resolved [OF raw [OF Inr]]] by simp
  qed (use s1 in simp)
  have frame: "jc_polls ?s2 = obj_set p po' (jc_polls s)" "jc_trackers ?s2 = jc_trackers s"
    by (auto simp: on_update_def upsertJob_def split: sum.split)
  show ?thesis
  proof (cases res)
    case Waits
    then show ?thesis using po r s2 by (simp add: answered_poll_def Let_def)
  next
    case (Ends outcome)
    let ?s3 = "?s2\<lparr>jc_active := obj_del (po_jobId po) (jc_active ?s2)\<rparr>"
    have k3: "kept ?s3" using s2 wired_active by simp
    have wf3: "obj_wf (jc_trackers ?s3)" using assms(2) frame(2) by simp
    have "outcome_ok good (po_jobId x) outcome" if "map_of (jc_polls ?s3) p = Some x" for x
      using that frame(1) known Ends poll_answer_frame [OF r] by (simp add: obj_simps)
    then have "kept (settle_promise cmp stamp p outcome ?s3)" using keeps_settle [OF k3 wf3] by blast
    then show ?thesis using po r Ends by (simp add: answered_poll_def Let_def poll_over_def)
  qed
qed (use assms(1) in \<open>auto simp: answered_poll_def split: option.split\<close>)

lemma keeps_restored_job:
  assumes "kept s" "fine good jobId job" "jobId \<noteq> []"
  shows "kept (restored_job cmp stamp now job s)"
proof -
  have id: "id_text (js_get job ''jobId'') = jobId" using assms(2) by (simp add: fine_def id_text_def)
  obtain kvs where kvs: "job = Obj kvs" "obj_wf kvs" using assms(2) by (auto simp: fine_def)
  have "map_of kvs ''jobId'' = Some (Str jobId)"
    using assms(2) by (auto simp: fine_def kvs split: option.splits)
  then have "obj_set ''jobId'' (Str jobId) kvs = kvs" by (simp add: update_triv)
  then have same: "Obj (js_spread (js_fields job) [(''jobId'', Str jobId)]) = job" by (simp add: kvs js_spread_def)
  have "kept (upsertJob cmp jobId (normalizeTrackedJob stamp job (Obj [])) s)"
    using assms(1,2) by (simp add: upsertJob_def view_update)
  from keeps_start [OF this, where initialJob = "Some job" and jobId = jobId] show ?thesis
    using assms by (auto simp: restored_job_def id same Let_def upsertJob_def view_update)
qed

lemma keeps_restored:
  assumes "kept s" "honest good (Restored stamp now recent) s"
  shows "kept (restored cmp stamp now recent s)"
proof -
  have all: "kept (fold (restored_job cmp stamp now) jobs s')"
    if "kept s'" "\<And>job. job \<in> set jobs \<Longrightarrow> \<exists>jobId. fine good jobId job \<and> jobId \<noteq> []" for jobs s'
    using that
  proof (induction jobs arbitrary: s')
    case (Cons job jobs)
    obtain jobId where "fine good jobId job" "jobId \<noteq> []" using Cons.prems(2) [of job] by auto
    then have "kept (restored_job cmp stamp now job s')" using keeps_restored_job [OF Cons.prems(1)] by blast
    then have "kept (fold (restored_job cmp stamp now) jobs (restored_job cmp stamp now job s'))"
      by (rule Cons.IH) (use Cons.prems(2) in simp)
    then show ?case by simp
  qed simp
  show ?thesis
  proof (cases recent)
    case (Some jobs)
    then show ?thesis using all [of "s\<lparr>jc_restoring := False\<rparr>" jobs] assms by (simp add: restored_def honest_def)
  qed (use assms(1) in \<open>simp add: restored_def\<close>)
qed

lemma keeps_logged_out:
  assumes "kept s" "obj_wf (jc_trackers s)"
  shows "kept (logged_out cmp stamp s)"
proof -
  define ps where "ps = map snd (jc_active s)"
  define s1 where "s1 = (fold cancel_poll ps s)\<lparr>jc_active := [], jc_session := Suc (jc_session s), jc_jobs := [],
                 jc_results := [], jc_tracking := [], jc_restoring := False\<rparr>"
  have "kept (fold cancel_poll qs s')" if "kept s'" for qs s'
    using that
  proof (induction qs arbitrary: s')
    case (Cons q qs)
    from Cons.IH [OF keeps_cancel_poll [OF Cons.prems, of q]] show ?case by simp
  qed simp
  then have "wired good (fold cancel_poll ps s)" using assms(1) by blast
  then have "kept s1" by (simp add: s1_def wired_def view_empty)
  moreover have "jc_trackers (fold cancel_poll qs s') = jc_trackers s'" for qs s'
    by (induction qs arbitrary: s') auto
  then have "obj_wf (jc_trackers s1)" using assms(2) by (simp add: s1_def)
  moreover have "kept (fold (\<lambda>p. settle_promise cmp stamp p (Inl CANCELLED_ERROR)) qs s')"
    if "kept s'" "obj_wf (jc_trackers s')" for qs s'
    using that
  proof (induction qs arbitrary: s')
    case (Cons q qs)
    have "kept (settle_promise cmp stamp q (Inl CANCELLED_ERROR) s')"
      using Cons.prems by (intro keeps_settle) (simp_all add: outcome_ok_def)
    from Cons.IH [OF this wf_settle [OF Cons.prems(2)]] show ?case by simp
  qed simp
  ultimately show ?thesis by (simp add: logged_out_def Let_def ps_def s1_def)
qed

lemma filter_True_view: "view js rs \<Longrightarrow> view (filter P js) rs" "view js rs \<Longrightarrow> view js (filter Q rs)"
  using view_filter [of js rs P "\<lambda>_. True"] view_filter [of js rs "\<lambda>_. True" Q] by simp_all

lemma keeps_step:
  assumes "kept s" "obj_wf (jc_trackers s)" "honest good e s"
  shows "kept (job_client_step cmp e s)"
proof (cases e)
  case (Track stamp now jobId options initialJob)
  have "case initialJob of None \<Rightarrow> True | Some job \<Rightarrow> fine good jobId (Obj (js_spread (js_fields job) [(''jobId'', Str jobId)]))"
  proof (cases initialJob)
    case (Some job)
    then obtain kvs where kvs: "job = Obj kvs" "obj_wf kvs" and "good (Obj (js_spread (js_fields job) [(''jobId'', Str jobId)]))"
      using assms(3) by (auto simp: Track honest_def)
    moreover have "obj_wf (js_spread kvs [(''jobId'', Str jobId)])" using kvs(2) by (auto simp: js_spread_def intro: wf_intros)
    ultimately show ?thesis by (simp add: Some fine_def js_spread_def obj_simps)
  qed simp
  from keeps_start [OF assms(1) this] show ?thesis by (simp add: Track)
next
  case (Looked stamp now k answer)
  then show ?thesis using keeps_looked assms(1,3) by simp
next
  case (Answered stamp p answer)
  then show ?thesis using keeps_answered assms by simp
next
  case (Tick p)
  show ?thesis
  proof (cases "map_of (jc_polls s) p")
    case (Some po)
    then show ?thesis
      using wired_poll [of s p po "po\<lparr>po_stage := (if po_cancelled po then Settled else InFlight)\<rparr>"] poll_known [of s p po] assms(1)
      by (auto simp: Tick tick_def)
  qed (use assms(1) in \<open>simp add: Tick tick_def\<close>)
next
  case (CancelPoll stamp jobId)
  then show ?thesis using keeps_cancel assms(1,2) by simp
next
  case (DismissJob blocked jobId)
  then show ?thesis using assms(1) view_dismissed by (simp add: dismissJob_def wired_def)
next
  case (ClearCompleted blocked)
  then show ?thesis using assms(1) filter_True_view(1) by (simp add: clearCompleted_def wired_def)
next
  case (DismissResult jobId)
  then show ?thesis using assms(1) filter_True_view(2) by (simp add: dismissJobResult_def)
next
  case CloseResult
  then show ?thesis using assms(1) view_drop by simp
next
  case (LoggedOut stamp)
  then show ?thesis using keeps_logged_out assms(1,2) by simp
next
  case LoggedIn
  then show ?thesis using assms(1) by simp
next
  case (Restored stamp now recent)
  then show ?thesis using keeps_restored assms(1,3) by simp
qed

lemma keeps_run:
  "kept s \<Longrightarrow> obj_wf (jc_trackers s) \<Longrightarrow> honest_run good cmp es s \<Longrightarrow> kept (job_client_run cmp es s)"
proof (induction es arbitrary: s)
  case (Cons e es)
  have k: "kept (job_client_step cmp e s)" using keeps_step Cons.prems by simp
  have "kept (job_client_run cmp es (job_client_step cmp e s))"
    by (rule Cons.IH [OF k wf_step]) (use Cons.prems in simp_all)
  then show ?case by (simp add: job_client_run_def)
qed (simp add: job_client_run_def)

lemma kept_from_start: "honest_run good cmp es (init_job_client ds) \<Longrightarrow> kept (job_client_run cmp es (init_job_client ds))"
  by (rule keeps_run) (simp_all add: init_job_client_def wired_def view_empty)

end

section \<open>Objects that jobs are made of\<close>

lemma obj_wf_spread [wf_intros]: "obj_wf base \<Longrightarrow> obj_wf (js_spread base over)"
  unfolding js_spread_def by (induction over arbitrary: base) (auto intro: wf_intros)

lemma normalized_get:
  "map_of (normalizeTrackedJob stamp job fb) ''jobId'' = Some (js_nullish (js_get job ''jobId'') (js_get fb ''jobId''))"
  "map_of (normalizeTrackedJob stamp job fb) ''jobStatus'' = Some (status_or job (js_or (js_get fb ''jobStatus'') (Str ''queued'')))"
  by (simp_all add: normalizeTrackedJob_def)

lemma result_get:
  "map_of (job_result opts job) ''jobId'' = Some (js_get job ''jobId'')"
  "map_of (job_result opts job) ''status'' = Some (js_get job ''jobStatus'')"
  by (simp_all add: job_result_def)

lemma mset_upsert_subset:
  "set (upsert_list cmp d jobId patch js) \<subseteq> set js
     \<union> {js_spread (js_spread j patch) [(''jobId'', Str jobId)] | j. j \<in> set js}
     \<union> {js_spread [(''jobId'', Str jobId), (''dismissed'', Bool d)] patch}"
proof -
  define idx where "idx = length (takeWhile (\<lambda>j. job_id j \<noteq> Str jobId) js)"
  define jobs where "jobs = (if idx < length js then js[idx := js_spread (js_spread (js ! idx) patch) [(''jobId'', Str jobId)]]
    else js_spread [(''jobId'', Str jobId), (''dismissed'', Bool d)] patch # js)"
  have "set (take MAX_TRACKED (js_sort (sortJobs cmp) jobs)) \<subseteq> set jobs" by (metis set_js_sort set_take_subset)
  moreover have "set jobs \<subseteq> set js \<union> {js_spread (js_spread j patch) [(''jobId'', Str jobId)] | j. j \<in> set js}
     \<union> {js_spread [(''jobId'', Str jobId), (''dismissed'', Bool d)] patch}"
  proof (cases "idx < length js")
    case True
    then have "js ! idx \<in> set js" by simp
    then show ?thesis
      using True set_update_subset_insert [of js idx "js_spread (js_spread (js ! idx) patch) [(''jobId'', Str jobId)]"]
      unfolding jobs_def by auto
  qed (auto simp: jobs_def)
  ultimately show ?thesis by (simp add: upsert_list_def idx_def [symmetric] jobs_def [symmetric])
qed

text \<open>What an error of a poll makes of a job.\<close>

definition error_fields :: "string \<Rightarrow> js \<Rightarrow> tracked \<Rightarrow> tracked" where
  "error_fields jobId err known =
     js_spread (js_spread (js_spread [] (js_spread known [(''jobId'', Str jobId)])) (js_fields (js_get err ''lastKnownJob'')))
       (js_fields (js_get err ''job''))"

lemma js_spread_Nil [simp]: "js_spread base [] = base"
  by (simp add: js_spread_def)

lemma error_fields_get:
  assumes "poll_error good jobId err" "err \<noteq> CANCELLED_ERROR" "obj_wf known"
  obtains L where "obj_wf L" "L = [] \<or> fine good jobId (Obj L)"
    and "\<And>k. map_of (error_fields jobId err known) k
      = (case map_of L k of Some v \<Rightarrow> Some v | None \<Rightarrow> if k = ''jobId'' then Some (Str jobId) else map_of known k)"
proof -
  have k: "obj_wf (js_spread known [(''jobId'', Str jobId)])" using assms(3) by (rule obj_wf_spread)
  have g: "map_of (js_spread [] (js_spread known [(''jobId'', Str jobId)])) k = (if k = ''jobId'' then Some (Str jobId) else map_of known k)" for k
    by (simp add: map_of_spread [OF k] map_of_spread obj_wf_def split: option.split)
  consider (st) e last where "err = status_error e jobId last" "last = Null \<or> fine good jobId last"
    | (over) job where "err = terminal_error job" "fine good jobId job" "resolveCmsJobStatus job = Some ''failed''"
    using assms(1,2) unfolding poll_error_def by blast
  then show thesis
  proof cases
    case st
    have f: "js_get err ''lastKnownJob'' = last" "js_get err ''job'' = Undefined" by (simp_all add: st(1) status_error_def)
    have l: "obj_wf (js_fields last)" "js_fields last = [] \<or> fine good jobId (Obj (js_fields last))"
      using st(2) by (auto simp: fine_def)
    show ?thesis by (rule that [OF l]) (simp add: error_fields_def f map_of_spread [OF l(1)] g split: option.split)
  next
    case over
    have f: "js_get err ''lastKnownJob'' = Undefined" "js_get err ''job'' = job" by (simp_all add: over(1) terminal_error_def)
    have l: "obj_wf (js_fields job)" "js_fields job = [] \<or> fine good jobId (Obj (js_fields job))"
      using over(2) by (auto simp: fine_def)
    show ?thesis by (rule that [OF l]) (simp add: error_fields_def f map_of_spread [OF l(1)] g split: option.split)
  qed
qed

lemma error_result_get:
  "js_get (getCmsJobErrorResult err (Obj (js_spread known [(''jobId'', Str jobId)])) (Obj [])) ''jobId''
     = js_nullish (js_get (Obj (error_fields jobId err known)) ''jobId'') (js_get err ''jobId'')"
  "js_get (getCmsJobErrorResult err (Obj (js_spread known [(''jobId'', Str jobId)])) (Obj [])) ''jobStatus''
     = (if resolveCmsJobStatus (js_get err ''job'') \<noteq> Some ''failed'' \<and> (truthy (js_get err ''jobStatusUnavailable'')
          \<or> truthy (js_get (Obj (error_fields jobId err known)) ''jobId''))
        then status_or (Obj (error_fields jobId err known)) (Str ''queued'') else Str ''failed'')"
  by (simp_all add: getCmsJobErrorResult_def error_fields_def [symmetric] Let_def map_of_spread obj_wf_def)

lemma error_id:
  assumes "poll_error good jobId err" "err \<noteq> CANCELLED_ERROR" "obj_wf known"
  shows "js_get (getCmsJobErrorResult err (Obj (js_spread known [(''jobId'', Str jobId)])) (Obj [])) ''jobId'' = Str jobId"
proof -
  obtain L where L: "L = [] \<or> fine good jobId (Obj L)" "\<And>k. map_of (error_fields jobId err known) k
      = (case map_of L k of Some v \<Rightarrow> Some v | None \<Rightarrow> if k = ''jobId'' then Some (Str jobId) else map_of known k)"
    using error_fields_get [OF assms] by metis
  have "map_of (error_fields jobId err known) ''jobId'' = Some (Str jobId)"
    using L(1) by (auto simp: L(2) fine_def split: option.splits)
  then show ?thesis by (simp add: error_result_get js_nullish_def)
qed

section \<open>Every job once\<close>

definition once :: "tracked list \<Rightarrow> tracked list \<Rightarrow> bool" where
  "once js rs \<longleftrightarrow> distinct (map job_id js) \<and> length js \<le> MAX_TRACKED \<and> (\<forall>j \<in> set js. obj_wf j) \<and> distinct (map job_id rs)"

lemma distinct_js_sort: "distinct (map f (js_sort cmp xs)) \<longleftrightarrow> distinct (map f xs)"
proof -
  have "mset (map f (js_sort cmp xs)) = mset (map f xs)" by simp
  then show ?thesis by (metis mset_eq_imp_distinct_iff)
qed

lemma takeWhile_shorter: "length (takeWhile P xs) < length xs \<longleftrightarrow> (\<exists>x \<in> set xs. \<not> P x)"
  by (induction xs) auto

lemma once_upsert:
  assumes "once jobs rs" "job_id (js_spread [(''jobId'', Str jobId), (''dismissed'', Bool d)] patch) = Str jobId"
  shows "once (upsert_list cmp d jobId patch jobs) rs"
proof -
  define idx where "idx = length (takeWhile (\<lambda>j. job_id j \<noteq> Str jobId) jobs)"
  let ?new = "js_spread [(''jobId'', Str jobId), (''dismissed'', Bool d)] patch"
  let ?old = "js_spread (js_spread (jobs ! idx) patch) [(''jobId'', Str jobId)]"
  have "distinct (map job_id (if idx < length jobs then jobs[idx := ?old] else ?new # jobs))"
  proof (cases "idx < length jobs")
    case True
    then have "job_id (jobs ! idx) = Str jobId"
      using nth_length_takeWhile [of "\<lambda>j. job_id j \<noteq> Str jobId" jobs] by (simp add: idx_def)
    then have "map job_id (jobs[idx := ?old]) = map job_id jobs"
      using True by (simp add: map_update list_update_same_conv)
    then show ?thesis using assms(1) True by (simp add: once_def)
  next
    case False
    have "\<forall>j \<in> set jobs. job_id j \<noteq> Str jobId"
      using False unfolding idx_def takeWhile_shorter by blast
    then show ?thesis using assms False by (auto simp: once_def)
  qed
  then have "distinct (map job_id (js_sort (sortJobs cmp) (if idx < length jobs then jobs[idx := ?old] else ?new # jobs)))"
    by (simp add: distinct_js_sort)
  then have "distinct (map job_id (upsert_list cmp d jobId patch jobs))"
    by (simp add: upsert_list_def idx_def [symmetric] take_map [symmetric])
  moreover have "length (upsert_list cmp d jobId patch jobs) \<le> MAX_TRACKED" by (simp add: upsert_list_def Let_def)
  moreover have "obj_wf j" if "j \<in> set (upsert_list cmp d jobId patch jobs)" for j
  proof -
    have "obj_wf [(''jobId'', Str jobId), (''dismissed'', Bool d)]" by (simp add: obj_wf_def)
    then show ?thesis using that mset_upsert_subset [of cmp d jobId patch jobs] assms(1)
      by (auto simp: once_def intro: wf_intros dest!: subsetD)
  qed
  ultimately show ?thesis using assms(1) by (simp add: once_def)
qed

lemma once_result: "once js rs \<Longrightarrow> once js (enqueueUniqueJobResult rs r)"
  by (auto simp: once_def enqueueUniqueJobResult_def)

lemma once_map:
  assumes "once js rs" "\<And>j. j \<in> set js \<Longrightarrow> job_id (f j) = job_id j" "\<And>j. j \<in> set js \<Longrightarrow> obj_wf j \<Longrightarrow> obj_wf (f j)"
  shows "once (map f js) rs"
proof -
  have e: "map job_id (map f js) = map job_id js" using assms(2) by simp
  show ?thesis using assms(1,3) unfolding once_def e length_map by auto
qed

lemma once_concat:
  assumes "once js rs" "\<And>j j'. j \<in> set js \<Longrightarrow> j' \<in> set (f j) \<Longrightarrow> job_id j' = job_id j \<and> obj_wf j'" "\<And>j. length (f j) \<le> 1"
  shows "once (concat (map f js)) rs"
proof -
  have "distinct (map job_id (concat (map f js))) \<and> length (concat (map f js)) \<le> length js
      \<and> job_id ` set (concat (map f js)) \<subseteq> job_id ` set js"
    using assms(1) [unfolded once_def, THEN conjunct1] assms(2)
  proof (induction js)
    case (Cons j js)
    have IH: "distinct (map job_id (concat (map f js)))" "length (concat (map f js)) \<le> length js"
      "job_id ` set (concat (map f js)) \<subseteq> job_id ` set js" using Cons by auto
    consider "f j = []" | x where "f j = [x]" using assms(3) [of j] by (cases "f j") auto
    then show ?case
    proof cases
      case 2
      have "job_id x = job_id j" using Cons.prems(2) [of j x] 2 by simp
      moreover have "job_id j \<notin> job_id ` set (concat (map f js))" using IH(3) Cons.prems(1) by auto
      ultimately show ?thesis using IH 2 by auto
    qed (use IH in auto)
  qed simp
  then show ?thesis using assms(1,2) unfolding once_def by fastforce
qed

interpretation once_lists: job_lists "\<lambda>_. True" once
proof unfold_locales
  fix js rs jobId job cmp d stamp
  assume "once js rs" "fine (\<lambda>_. True) jobId job"
  then show "once (upsert_list cmp d jobId (normalizeTrackedJob stamp job (Obj [])) js) rs"
    by (intro once_upsert) (simp_all add: job_id_def map_of_spread normalized_get fine_def js_nullish_def)
next
  fix js rs jobId cmp d
  assume "once js rs"
  then show "once (upsert_list cmp d jobId [(''jobStatus'', Str ''queued'')] js) rs"
    by (intro once_upsert) (simp_all add: job_id_def js_spread_def)
next
  fix s :: job_client and jobId err stamp opts
  assume o: "once (jc_jobs s) (jc_results s)" and e: "poll_error (\<lambda>_. True) jobId err" "err \<noteq> CANCELLED_ERROR"
  let ?known = "case find (\<lambda>j. job_id j = Str jobId) (jc_jobs s) of Some j \<Rightarrow> j | None \<Rightarrow> []"
  have "obj_wf ?known" using o by (auto simp: once_def split: option.split dest!: find_SomeD)
  from error_id [OF e this]
  have "job_id (js_spread j (fst (interrupted_jobs stamp jobId err s))) = Str jobId" for j
    by (simp add: interrupted_jobs_def Let_def job_id_def map_of_spread normalized_get js_nullish_def)
  then have "once (snd (interrupted_jobs stamp jobId err s)) (jc_results s)"
    unfolding interrupted_jobs_def Let_def snd_conv fst_conv
    by (intro once_map [OF o]) (auto intro: wf_intros)
  then show "once (snd (interrupted_jobs stamp jobId err s)) (jc_results s)
      \<and> once (snd (interrupted_jobs stamp jobId err s))
          (enqueueUniqueJobResult (jc_results s) (job_result opts (Obj (fst (interrupted_jobs stamp jobId err s)))))"
    using once_result by blast
next
  fix js rs jobId
  assume o: "once js rs"
  show "once (concat (map (\<lambda>job. if job_id job \<noteq> Str jobId then [job]
          else if isTerminalCmsJobStatus (js_get (Obj job) ''jobStatus'') then []
          else [js_spread job [(''dismissed'', Bool True)]]) js)) rs"
  proof (rule once_concat [OF o])
    fix j j'
    assume "j \<in> set js" "j' \<in> set (if job_id j \<noteq> Str jobId then [j]
          else if isTerminalCmsJobStatus (js_get (Obj j) ''jobStatus'') then []
          else [js_spread j [(''dismissed'', Bool True)]])"
    then show "job_id j' = job_id j \<and> obj_wf j'"
      using o by (auto simp: once_def job_id_def map_of_spread obj_wf_def [of "[(_, _)]"] intro: wf_intros split: if_splits)
  qed simp
qed (auto simp: once_def enqueueUniqueJobResult_def intro: distinct_map_filter le_trans [OF length_filter_le] dest: in_set_dropD simp: drop_map [symmetric])


text \<open>
  C32: every job is listed once. On every run in which the server's answers are about the jobs they
  were asked for, the client lists no job twice and at most 50 of them, and it has at most one result
  to show for a job, however polls, looks, logins and clicks interleave.
\<close>

theorem every_job_is_listed_once:
  assumes "honest_run (\<lambda>_. True) cmp es (init_job_client dismissed)"
  shows "distinct (map job_id (jc_jobs (job_client_run cmp es (init_job_client dismissed))))
    \<and> length (jc_jobs (job_client_run cmp es (init_job_client dismissed))) \<le> MAX_TRACKED
    \<and> distinct (map job_id (jc_results (job_client_run cmp es (init_job_client dismissed))))"
  using once_lists.kept_from_start [OF assms] by (simp add: once_def)

theorem every_job_is_listed_once_witness:
  "distinct (map job_id (jc_jobs (job_client_run (\<lambda>_ _. 0) [Restored ''t'' 0 None, LoggedIn, Restored ''t'' 0 (Some
        [Obj [(''jobId'', Str ''j''), (''jobStatus'', Str ''running'')], Obj [(''jobId'', Str ''j''), (''jobStatus'', Str ''running'')]])]
      (init_job_client []))))
    \<and> length (jc_jobs (job_client_run (\<lambda>_ _. 0) [Restored ''t'' 0 None, LoggedIn, Restored ''t'' 0 (Some
        [Obj [(''jobId'', Str ''j''), (''jobStatus'', Str ''running'')], Obj [(''jobId'', Str ''j''), (''jobStatus'', Str ''running'')]])]
      (init_job_client []))) \<le> MAX_TRACKED
    \<and> distinct (map job_id (jc_results (job_client_run (\<lambda>_ _. 0) [Restored ''t'' 0 None, LoggedIn, Restored ''t'' 0 (Some
        [Obj [(''jobId'', Str ''j''), (''jobStatus'', Str ''running'')], Obj [(''jobId'', Str ''j''), (''jobStatus'', Str ''running'')]])]
      (init_job_client []))))"
  by (rule every_job_is_listed_once)
    (simp add: honest_def fine_def obj_wf_def del: job_client_step.simps)

section \<open>No failure without the server\<close>

text \<open>A job that the server does not report as failed.\<close>

definition unfailed_job :: "js \<Rightarrow> bool" where
  "unfailed_job job \<longleftrightarrow> js_get job ''jobStatus'' \<in> {Str ''queued'', Str ''running'', Str ''succeeded''}"

definition unfailed :: "tracked list \<Rightarrow> tracked list \<Rightarrow> bool" where
  "unfailed js rs \<longleftrightarrow> (\<forall>j \<in> set js. obj_wf j \<and> unfailed_job (Obj j)) \<and> (\<forall>r \<in> set rs. js_get (Obj r) ''status'' \<noteq> Str ''failed'')"

lemma resolve_unfailed:
  "unfailed_job (Obj kvs) \<Longrightarrow> \<exists>st \<in> {''queued'', ''running'', ''succeeded''}. resolveCmsJobStatus (Obj kvs) = Some st
     \<and> js_get (Obj kvs) ''jobStatus'' = Str st"
  by (auto simp: unfailed_job_def resolveCmsJobStatus_def JOB_LIFECYCLE_STATUSES_def Let_def)

lemma fine_status:
  assumes "fine unfailed_job jobId job"
  shows "status_or job other \<in> {Str ''queued'', Str ''running'', Str ''succeeded''}"
    and "resolveCmsJobStatus job \<noteq> Some ''failed''"
proof -
  obtain kvs where job: "job = Obj kvs" "unfailed_job (Obj kvs)" using assms by (auto simp: fine_def)
  obtain st where "st \<in> {''queued'', ''running'', ''succeeded''}" "resolveCmsJobStatus job = Some st"
    using resolve_unfailed [OF job(2)] job(1) by blast
  then show "status_or job other \<in> {Str ''queued'', Str ''running'', Str ''succeeded''}" "resolveCmsJobStatus job \<noteq> Some ''failed''"
    by (auto simp: status_or_def)
qed

lemma unfailed_upsert:
  assumes "unfailed js rs" "map_of patch ''jobStatus'' = Some st" "st \<in> {Str ''queued'', Str ''running'', Str ''succeeded''}" "obj_wf patch"
  shows "unfailed (upsert_list cmp d jobId patch js) rs"
proof -
  have wf: "obj_wf [(''jobId'', Str jobId), (''dismissed'', Bool d)]" "obj_wf [(''jobId'', Str jobId)]" by (simp_all add: obj_wf_def)
  have "obj_wf j \<and> unfailed_job (Obj j)" if mem: "j \<in> set (upsert_list cmp d jobId patch js)" for j
  proof -
    consider "j \<in> set js" | j0 where "j0 \<in> set js" "j = js_spread (js_spread j0 patch) [(''jobId'', Str jobId)]"
      | "j = js_spread [(''jobId'', Str jobId), (''dismissed'', Bool d)] patch"
      using subsetD [OF mset_upsert_subset mem] by blast
    then show ?thesis
    proof cases
      case 1
      then show ?thesis using assms(1) by (simp add: unfailed_def)
    next
      case 2
      then have "obj_wf j" using assms(1) by (auto simp: unfailed_def intro: wf_intros)
      moreover have "map_of j ''jobStatus'' = Some st" using 2 assms(2,4) wf by (simp add: map_of_spread)
      ultimately show ?thesis using assms(3) by (simp add: unfailed_job_def)
    next
      case 3
      then have "obj_wf j" using wf by (auto intro: wf_intros)
      moreover have "map_of j ''jobStatus'' = Some st" using 3 assms(2,4) by (simp add: map_of_spread)
      ultimately show ?thesis using assms(3) by (simp add: unfailed_job_def)
    qed
  qed
  then show ?thesis using assms(1) by (simp add: unfailed_def)
qed

lemma error_status:
  assumes "poll_error unfailed_job jobId err" "err \<noteq> CANCELLED_ERROR" "obj_wf known" "known = [] \<or> unfailed_job (Obj known)"
  shows "unfailed_job (getCmsJobErrorResult err (Obj (js_spread known [(''jobId'', Str jobId)])) (Obj []))"
proof -
  obtain e last where err: "err = status_error e jobId last"
    using assms(1,2) fine_status(2) unfolding poll_error_def by blast
  have t: "resolveCmsJobStatus (js_get err ''job'') \<noteq> Some ''failed''" "truthy (js_get err ''jobStatusUnavailable'')"
    by (simp_all add: err status_error_def resolveCmsJobStatus_def)
  obtain L where L: "L = [] \<or> fine unfailed_job jobId (Obj L)" "\<And>k. map_of (error_fields jobId err known) k
      = (case map_of L k of Some v \<Rightarrow> Some v | None \<Rightarrow> if k = ''jobId'' then Some (Str jobId) else map_of known k)"
    using error_fields_get [OF assms(1-3)] by metis
  have "status_or (Obj (error_fields jobId err known)) (Str ''queued'') \<in> {Str ''queued'', Str ''running'', Str ''succeeded''}"
  proof (cases "L = [] \<and> known = []")
    case True
    have "map_of (error_fields jobId err known) k = (if k = ''jobId'' then Some (Str jobId) else None)" for k
      using L(2) [of k] True by simp
    then show ?thesis by (simp add: status_or_def resolveCmsJobStatus_def Let_def)
  next
    case False
    have "unfailed_job (Obj (error_fields jobId err known))"
      using False L(1) assms(4) by (auto simp: unfailed_job_def fine_def L(2) split: option.splits)
    from resolve_unfailed [OF this] show ?thesis by (auto simp: status_or_def)
  qed
  then show ?thesis using t by (simp add: unfailed_job_def error_result_get)
qed

interpretation unfailed_lists: job_lists unfailed_job unfailed
proof unfold_locales
  fix jobId raw
  assume f: "fine unfailed_job jobId raw"
  then obtain kvs where kvs: "raw = Obj kvs" "unfailed_job (Obj kvs)" by (auto simp: fine_def)
  from resolve_unfailed [OF this(2)] show "unfailed_job (resolved_job raw)"
    by (auto simp: kvs resolved_job_def js_spread_def unfailed_job_def obj_simps)
next
  fix js rs jobId job cmp d stamp
  assume u: "unfailed js rs" and f: "fine unfailed_job jobId job"
  show "unfailed (upsert_list cmp d jobId (normalizeTrackedJob stamp job (Obj [])) js) rs"
    by (rule unfailed_upsert [OF u normalized_get(2) fine_status(1) [OF f]]) simp
next
  fix js rs jobId cmp d
  assume "unfailed js rs"
  then show "unfailed (upsert_list cmp d jobId [(''jobStatus'', Str ''queued'')] js) rs"
    by (rule unfailed_upsert [where st = "Str ''queued''"]) (simp_all add: obj_wf_def)
next
  fix js rs jobId job opts stamp
  assume u: "unfailed js rs" and f: "fine unfailed_job jobId job"
  show "unfailed js (enqueueUniqueJobResult rs (job_result opts (Obj (normalizeTrackedJob stamp job (Obj [])))))"
    using u fine_status(1) [OF f, of "js_or (js_get (Obj []) ''jobStatus'') (Str ''queued'')"]
    by (auto simp: unfailed_def enqueueUniqueJobResult_def result_get normalized_get)
next
  fix s :: job_client and jobId err stamp opts
  assume u: "unfailed (jc_jobs s) (jc_results s)" and e: "poll_error unfailed_job jobId err" "err \<noteq> CANCELLED_ERROR"
  let ?known = "case find (\<lambda>j. job_id j = Str jobId) (jc_jobs s) of Some j \<Rightarrow> j | None \<Rightarrow> []"
  have k: "obj_wf ?known" "?known = [] \<or> unfailed_job (Obj ?known)"
    using u by (auto simp: unfailed_def split: option.split dest!: find_SomeD)
  let ?err = "getCmsJobErrorResult err (Obj (js_spread ?known [(''jobId'', Str jobId)])) (Obj [])"
  have "unfailed_job ?err" using error_status [OF e k] .
  moreover obtain kvs where "?err = Obj kvs" by (simp add: getCmsJobErrorResult_def Let_def)
  ultimately obtain st where st: "st \<in> {''queued'', ''running'', ''succeeded''}" "resolveCmsJobStatus ?err = Some st"
    using resolve_unfailed by metis
  have i: "map_of (fst (interrupted_jobs stamp jobId err s)) ''jobStatus'' = Some (Str st)" "obj_wf (fst (interrupted_jobs stamp jobId err s))"
    using st(2) by (simp_all add: interrupted_jobs_def Let_def normalized_get status_or_def)
  have "obj_wf (js_spread j (fst (interrupted_jobs stamp jobId err s))) \<and> unfailed_job (Obj (js_spread j (fst (interrupted_jobs stamp jobId err s))))"
    if "obj_wf j" for j
    using st(1) that i by (auto simp: unfailed_job_def map_of_spread intro: wf_intros)
  then have "unfailed (snd (interrupted_jobs stamp jobId err s)) (jc_results s)"
    using u unfolding unfailed_def interrupted_jobs_def Let_def snd_conv fst_conv by auto
  then show "unfailed (snd (interrupted_jobs stamp jobId err s)) (jc_results s)
      \<and> unfailed (snd (interrupted_jobs stamp jobId err s))
          (enqueueUniqueJobResult (jc_results s) (job_result opts (Obj (fst (interrupted_jobs stamp jobId err s)))))"
    using st(1) i(1) by (auto simp: unfailed_def enqueueUniqueJobResult_def result_get)
next
  fix js rs jobId
  assume u: "unfailed js rs"
  have "obj_wf (js_spread j [(''dismissed'', Bool True)]) \<and> unfailed_job (Obj (js_spread j [(''dismissed'', Bool True)]))"
    if "j \<in> set js" for j
    using u that by (auto simp: unfailed_def unfailed_job_def map_of_spread obj_wf_def [of "[(_, _)]"] intro: wf_intros)
  then show "unfailed (concat (map (\<lambda>job. if job_id job \<noteq> Str jobId then [job]
          else if isTerminalCmsJobStatus (js_get (Obj job) ''jobStatus'') then []
          else [js_spread job [(''dismissed'', Bool True)]]) js)) rs"
    using u by (auto simp: unfailed_def)
qed (auto simp: unfailed_def dest: in_set_dropD)


text \<open>Three requests in a row that fail.\<close>

definition lost_server :: "job_client_event list" where
  "lost_server = [Track ''t'' 0 ''j'' \<lparr>to_notify = True, to_successMessage = Undefined, to_errorMessage = Undefined\<rparr>
         (Some (Obj [(''jobStatus'', Str ''running'')])), Answered ''t'' 0 (Inl Undefined), Tick 0, Answered ''t'' 0 (Inl Undefined),
       Tick 0, Answered ''t'' 0 (Inl Undefined)]"


section \<open>The end of a session\<close>

text \<open>What a client that no one is signed in to still has to do: nothing of it is of the session to come.\<close>

definition stale :: "job_client \<Rightarrow> bool" where
  "stale s \<longleftrightarrow> (\<forall>k t. map_of (jc_trackers s) k = Some t \<longrightarrow> tk_session t < jc_session s) \<and> jc_results s = [] \<and> \<not> jc_restoring s"

definition sessions_ok :: "job_client \<Rightarrow> bool" where
  "sessions_ok s \<longleftrightarrow> (\<forall>k t. map_of (jc_trackers s) k = Some t \<longrightarrow> tk_session t \<le> jc_session s)"

lemma session_frame [simp]:
  "jc_session (end_tracker cmp stamp outcome t s) = jc_session s"
  "jc_restoring (end_tracker cmp stamp outcome t s) = jc_restoring s"
  "jc_session (resume_tracker cmp stamp outcome k s) = jc_session s"
  "jc_restoring (resume_tracker cmp stamp outcome k s) = jc_restoring s"
  "jc_session (cancel_poll p s) = jc_session s" "jc_restoring (cancel_poll p s) = jc_restoring s"
  "jc_results (cancel_poll p s) = jc_results s"
  by (auto simp: resume_tracker_def end_tracker_def Let_def notifyTerminal_def upsertJob_def cancel_poll_def
      split: sum.split prod.split option.split)

lemma session_run_poll:
  "runCmsJobInBackground jobId now s = (p, s') \<Longrightarrow> jc_trackers s' = jc_trackers s \<and> jc_session s' = jc_session s
     \<and> jc_results s' = jc_results s \<and> jc_restoring s' = jc_restoring s"
  by (auto simp: runCmsJobInBackground_def split: option.splits)

lemma stale_end: "stale s \<Longrightarrow> tk_session t < jc_session s \<Longrightarrow> stale (end_tracker cmp stamp outcome t s)"
  by (auto simp: stale_def) (auto simp: end_tracker_def Let_def notifyTerminal_def upsertJob_def split: sum.split prod.split)

lemma stale_resume: "stale s \<Longrightarrow> stale (resume_tracker cmp stamp outcome k s)"
proof (cases "map_of (jc_trackers s) k")
  case (Some t)
  assume s: "stale s"
  have "stale (s\<lparr>jc_trackers := obj_del k (jc_trackers s)\<rparr>)" using s by (auto simp: stale_def obj_simps split: if_splits)
  moreover have "tk_session t < jc_session s" using s Some by (simp add: stale_def)
  ultimately show ?thesis using stale_end by (simp add: resume_tracker_def Some)
qed (simp add: resume_tracker_def)

lemma stale_settle: "stale s \<Longrightarrow> stale (settle_promise cmp stamp p outcome s)"
proof -
  have "stale (fold (resume_tracker cmp stamp outcome) ks s')" if "stale s'" for ks s'
    using that by (induction ks arbitrary: s') (auto intro: stale_resume)
  moreover assume "stale s"
  then have "stale (s\<lparr>jc_polls := ps\<rparr>)" for ps by (simp add: stale_def)
  ultimately show ?thesis using \<open>stale s\<close> by (simp add: settle_promise_def split: option.split)
qed

text \<open>The events that are no work of a new session.\<close>

definition leftover :: "job_client_event \<Rightarrow> bool" where
  "leftover e \<longleftrightarrow> (case e of Track _ _ _ _ _ \<Rightarrow> False | LoggedIn \<Rightarrow> False | LoggedOut _ \<Rightarrow> False | _ \<Rightarrow> True)"

lemma stale_step:
  assumes "stale s" "leftover e"
  shows "stale (job_client_step cmp e s)"
proof (cases e)
  case (Looked stamp now k answer)
  show ?thesis
  proof (cases "\<exists>t. map_of (jc_trackers s) k = Some t \<and> tk_stage t = Looking")
    case True
    then obtain t where t: "map_of (jc_trackers s) k = Some t" "tk_stage t = Looking" by blast
    let ?s1 = "case answer of Inr raw \<Rightarrow> on_update cmp stamp (tk_jobId t) (resolved_job raw) s
      | Inl _ \<Rightarrow> upsertJob cmp (tk_jobId t) [(''jobStatus'', Str ''queued'')] s"
    obtain p s2 where r: "runCmsJobInBackground (tk_jobId t) now ?s1 = (p, s2)" by force
    have "stale ?s1" using assms(1) by (auto simp: stale_def on_update_def upsertJob_def split: sum.split)
    then have "stale s2" using session_run_poll [OF r] by (simp add: stale_def)
    moreover have "tk_session t < jc_session s2"
      using assms(1) t session_run_poll [OF r] by (auto simp: stale_def on_update_def upsertJob_def split: sum.splits)
    ultimately have "stale (s2\<lparr>jc_trackers := obj_set k (t\<lparr>tk_stage := Following p\<rparr>) (jc_trackers s2)\<rparr>)"
      by (auto simp: stale_def obj_simps split: if_splits)
    then show ?thesis using t r by (simp add: Looked looked_def Let_def)
  qed (use assms(1) in \<open>auto simp: Looked looked_def split: option.split\<close>)
next
  case (Answered stamp p answer)
  have u: "stale (on_update cmp stamp j job (s\<lparr>jc_polls := ps\<rparr>))" "stale (s\<lparr>jc_polls := ps\<rparr>)" for j job ps
    using assms(1) by (simp_all add: stale_def on_update_def upsertJob_def)
  have o: "stale s' \<Longrightarrow> stale (poll_over cmp stamp p j outcome s')" for s' j outcome
    unfolding poll_over_def by (rule stale_settle) (simp add: stale_def)
  show ?thesis using assms(1) u o
    by (auto simp: Answered answered_poll_def Let_def split: option.split sum.split prod.split poll_result.split)
next
  case (CancelPoll stamp jobId)
  have "stale ((cancel_poll p s)\<lparr>jc_active := a\<rparr>)" for p a using assms(1) by (simp add: stale_def)
  then show ?thesis using assms(1) by (auto simp: CancelPoll cancelCmsJobPoll_def split: option.split intro: stale_settle)
qed (use assms in \<open>auto simp: leftover_def stale_def tick_def dismissJob_def clearCompleted_def dismissJobResult_def restored_def
    split: option.split\<close>)

lemma sessions_add: "sessions_ok s \<Longrightarrow> n \<le> jc_session s \<Longrightarrow> sessions_ok (add_tracker j opts b stage n s)"
  by (auto simp: sessions_ok_def add_tracker_def obj_simps split: if_splits)

lemma sessions_poll: "sessions_ok s \<Longrightarrow> runCmsJobInBackground j now s = (p, s') \<Longrightarrow> sessions_ok s' \<and> jc_session s' = jc_session s"
  using session_run_poll [of j now s p s'] by (simp add: sessions_ok_def)

lemma sessions_update [simp]:
  "sessions_ok (on_update cmp stamp j job s) = sessions_ok s" "jc_session (on_update cmp stamp j job s) = jc_session s"
  "sessions_ok (upsertJob cmp j patch s) = sessions_ok s" "jc_session (upsertJob cmp j patch s) = jc_session s"
  "sessions_ok (s\<lparr>jc_tracking := ts\<rparr>) = sessions_ok s" "sessions_ok (s\<lparr>jc_polls := ps\<rparr>) = sessions_ok s"
  "sessions_ok (s\<lparr>jc_active := a\<rparr>) = sessions_ok s" "sessions_ok (s\<lparr>jc_restoring := r\<rparr>) = sessions_ok s"
  "sessions_ok (cancel_poll p s) = sessions_ok s" "sessions_ok (s\<lparr>jc_results := rs\<rparr>) = sessions_ok s"
  "sessions_ok (s\<lparr>jc_dismissed := ds, jc_jobs := js\<rparr>) = sessions_ok s"
  by (simp_all add: sessions_ok_def on_update_def upsertJob_def cancel_poll_def split: option.split)

lemma sessions_start: "sessions_ok s \<Longrightarrow> sessions_ok (startTracking cmp stamp now jobId options initialJob s)"
proof -
  assume s: "sessions_ok s"
  obtain p s1 where r1: "runCmsJobInBackground jobId now s = (p, s1)" by force
  define s2 where "s2 = s\<lparr>jc_tracking := push_new jobId (jc_tracking s)\<rparr>"
  have s2: "sessions_ok s2" "jc_session s2 = jc_session s" using s by (simp_all add: s2_def)
  have join: "sessions_ok (add_tracker jobId options True (Following p) (jc_session s) s1)"
    using sessions_poll [OF s r1] by (intro sessions_add) simp_all
  have look: "sessions_ok (add_tracker jobId options False Looking (jc_session s) s2)"
    using s2 by (intro sessions_add) simp_all
  have follow: "sessions_ok (add_tracker jobId options False (Following q) (jc_session s) s4)"
    if "runCmsJobInBackground jobId now (on_update cmp stamp jobId job s2) = (q, s4)" for job q s4
    using sessions_poll [OF _ that] s2 by (intro sessions_add) simp_all
  show ?thesis
    using s join look follow r1 unfolding startTracking_def s2_def [symmetric]
    by (auto simp: Let_def split: option.split prod.split)
qed

lemma sessions_end: "sessions_ok s \<Longrightarrow> sessions_ok (end_tracker cmp stamp outcome t s)"
  by (simp add: sessions_ok_def)

lemma sessions_resume: "sessions_ok s \<Longrightarrow> sessions_ok (resume_tracker cmp stamp outcome k s)"
  by (auto simp: sessions_ok_def obj_simps split: if_splits)

lemma sessions_settle: "sessions_ok s \<Longrightarrow> sessions_ok (settle_promise cmp stamp p outcome s)"
proof -
  have "sessions_ok (fold (resume_tracker cmp stamp outcome) ks s')" if "sessions_ok s'" for ks s'
    using that by (induction ks arbitrary: s') (auto intro!: sessions_resume)
  then show "sessions_ok s \<Longrightarrow> sessions_ok (settle_promise cmp stamp p outcome s)"
    by (simp add: settle_promise_def split: option.split)
qed

lemma cancelled_end: "jc_jobs (end_tracker cmp stamp (Inl CANCELLED_ERROR) t s) = jc_jobs s"
  by (simp add: end_tracker_def CANCELLED_ERROR_def)

lemma cancelled_settle: "jc_jobs (settle_promise cmp stamp p (Inl CANCELLED_ERROR) s) = jc_jobs s"
proof -
  have "jc_jobs (resume_tracker cmp stamp (Inl CANCELLED_ERROR) k s') = jc_jobs s'" for k s'
    by (simp add: resume_tracker_def cancelled_end split: option.split)
  then have "jc_jobs (fold (resume_tracker cmp stamp (Inl CANCELLED_ERROR)) ks s') = jc_jobs s'" for ks s'
    by (induction ks arbitrary: s') auto
  then show ?thesis by (simp add: settle_promise_def split: option.split)
qed

lemma sessions_logged_out:
  assumes "sessions_ok s"
  shows "stale (logged_out cmp stamp s) \<and> sessions_ok (logged_out cmp stamp s) \<and> jc_jobs (logged_out cmp stamp s) = []"
proof -
  define ps where "ps = map snd (jc_active s)"
  define s1 where "s1 = (fold cancel_poll ps s)\<lparr>jc_active := [], jc_session := Suc (jc_session s), jc_jobs := [],
                 jc_results := [], jc_tracking := [], jc_restoring := False\<rparr>"
  have "jc_trackers (fold cancel_poll qs s') = jc_trackers s'" for qs s'
    by (induction qs arbitrary: s') auto
  then have s1: "stale s1" "sessions_ok s1" "jc_jobs s1 = []"
    using assms by (auto simp: s1_def stale_def sessions_ok_def less_Suc_eq_le intro: le_SucI)
  have "stale (fold (\<lambda>p. settle_promise cmp stamp p (Inl CANCELLED_ERROR)) qs s')
      \<and> sessions_ok (fold (\<lambda>p. settle_promise cmp stamp p (Inl CANCELLED_ERROR)) qs s')
      \<and> jc_jobs (fold (\<lambda>p. settle_promise cmp stamp p (Inl CANCELLED_ERROR)) qs s') = []"
    if "stale s'" "sessions_ok s'" "jc_jobs s' = []" for qs s'
    using that by (induction qs arbitrary: s') (auto simp: stale_settle sessions_settle cancelled_settle)
  then show ?thesis using s1 by (simp add: logged_out_def Let_def ps_def s1_def)
qed

lemma sessions_step: "sessions_ok s \<Longrightarrow> sessions_ok (job_client_step cmp e s)"
proof (cases e)
  case (Looked stamp now k answer)
  assume s: "sessions_ok s"
  show ?thesis
  proof (cases "\<exists>t. map_of (jc_trackers s) k = Some t \<and> tk_stage t = Looking")
    case True
    then obtain t where t: "map_of (jc_trackers s) k = Some t" "tk_stage t = Looking" by blast
    let ?s1 = "case answer of Inr raw \<Rightarrow> on_update cmp stamp (tk_jobId t) (resolved_job raw) s
      | Inl _ \<Rightarrow> upsertJob cmp (tk_jobId t) [(''jobStatus'', Str ''queued'')] s"
    obtain p s2 where r: "runCmsJobInBackground (tk_jobId t) now ?s1 = (p, s2)" by force
    have s1: "sessions_ok ?s1" "jc_session ?s1 = jc_session s" using s by (auto split: sum.split)
    have "sessions_ok s2" "tk_session t \<le> jc_session s2"
      using sessions_poll [OF s1(1) r] s1(2) s t(1) by (auto simp: sessions_ok_def)
    then have "sessions_ok (s2\<lparr>jc_trackers := obj_set k (t\<lparr>tk_stage := Following p\<rparr>) (jc_trackers s2)\<rparr>)"
      by (auto simp: sessions_ok_def obj_simps split: if_splits)
    then show ?thesis using t r by (simp add: Looked looked_def Let_def)
  qed (use s in \<open>auto simp: Looked looked_def split: option.split\<close>)
next
  case (Answered stamp p answer)
  assume s: "sessions_ok s"
  have o: "sessions_ok s' \<Longrightarrow> sessions_ok (poll_over cmp stamp p j outcome s')" for s' j outcome
    unfolding poll_over_def by (rule sessions_settle) simp
  show ?thesis using s
    by (auto simp: Answered answered_poll_def Let_def split: option.split sum.split prod.split poll_result.split intro!: o)
next
  case (CancelPoll stamp jobId)
  assume "sessions_ok s"
  then show ?thesis by (auto simp: CancelPoll cancelCmsJobPoll_def split: option.split intro: sessions_settle)
next
  case (Restored stamp now recent)
  assume s: "sessions_ok s"
  have "sessions_ok (restored_job cmp stamp now job s')" if "sessions_ok s'" for job s'
    using that by (auto simp: restored_job_def Let_def intro: sessions_start)
  then have "sessions_ok (fold (restored_job cmp stamp now) jobs s')" if "sessions_ok s'" for jobs s'
    using that by (induction jobs arbitrary: s') auto
  then show ?thesis using s by (simp add: Restored restored_def split: option.split)
qed (auto simp: sessions_start sessions_logged_out tick_def dismissJob_def clearCompleted_def dismissJobResult_def
    split: option.split)

lemma job_client_run_Cons [simp]:
  "job_client_run cmp [] s = s"
  "job_client_run cmp (e # es) s = job_client_run cmp es (job_client_step cmp e s)"
  "job_client_run cmp (es @ es') s = job_client_run cmp es' (job_client_run cmp es s)"
  by (simp_all add: job_client_run_def)

lemma sessions_run: "sessions_ok s \<Longrightarrow> sessions_ok (job_client_run cmp es s)"
  by (induction es arbitrary: s) (auto intro: sessions_step)

lemma stale_run: "stale s \<Longrightarrow> (\<And>e. e \<in> set es \<Longrightarrow> leftover e) \<Longrightarrow> stale (job_client_run cmp es s)"
  by (induction es arbitrary: s) (auto intro: stale_step)

text \<open>
  C33: the end of a session ends its results. After a logout, whatever the polls and looks of the old
  session still bring, no result is shown until someone signs in again or starts a job.
\<close>

theorem logout_silences_old_jobs:
  assumes "\<And>e. e \<in> set after \<Longrightarrow> leftover e"
  shows "jc_results (job_client_run cmp (before @ LoggedOut stamp # after) (init_job_client dismissed)) = []"
proof -
  have "sessions_ok (job_client_run cmp before (init_job_client dismissed))"
    by (rule sessions_run) (simp add: sessions_ok_def init_job_client_def)
  then have "stale (job_client_run cmp after (logged_out cmp stamp (job_client_run cmp before (init_job_client dismissed))))"
    using sessions_logged_out assms by (intro stale_run) auto
  then show ?thesis by (simp add: stale_def)
qed

theorem logout_silences_old_jobs_witness:
  "jc_results (job_client_run (\<lambda>_ _. 0) ([Track [] 0 ''j'' \<lparr>to_notify = True, to_successMessage = Undefined, to_errorMessage = Undefined\<rparr>
        (Some (Obj [(''jobStatus'', Str ''running'')]))]
      @ LoggedOut [] # [Answered [] 0 (Inr (Obj [(''jobId'', Str ''j''), (''jobStatus'', Str ''succeeded'')]))]) (init_job_client [])) = []"
  by (rule logout_silences_old_jobs) (auto simp: leftover_def)

text \<open>
  a look that is under way when the session ends is shown in the next one. The client asked for a
  job of the old session, the user signs out, and the answer comes: the job is listed and
  polled although no one is signed in, and it is still there after someone else has signed in.
\<close>

theorem late_look_outlives_the_session:
  "visibleJobs (job_client_run cmp
       [Track stamp now ''j'' opts None, LoggedOut stamp,
        Looked stamp now 0 (Inr (Obj [(''jobId'', Str ''j''), (''jobStatus'', Str ''running''), (''dbname'', Str ''sales'')])),
        LoggedIn, Restored stamp now (Some [])]
       (init_job_client dismissed)) = [js_spread [(''jobId'', Str ''j''), (''dismissed'', Bool (''j'' \<in> set dismissed))]
         (normalizeTrackedJob stamp (Obj [(''jobId'', Str ''j''), (''jobStatus'', Str ''running''), (''dbname'', Str ''sales'')]) (Obj []))]
   \<and> isCmsJobPolling ''j'' (job_client_run cmp
       [Track stamp now ''j'' opts None, LoggedOut stamp,
        Looked stamp now 0 (Inr (Obj [(''jobId'', Str ''j''), (''jobStatus'', Str ''running''), (''dbname'', Str ''sales'')])),
        LoggedIn, Restored stamp now (Some [])]
       (init_job_client dismissed))"
  by (simp add: init_job_client_def startTracking_def isCmsJobPolling_def add_tracker_def push_new_def logged_out_def looked_def
      resolved_job_def resolveCmsJobStatus_def JOB_LIFECYCLE_STATUSES_def js_spread_def on_update_def upsertJob_def upsert_list_def
      runCmsJobInBackground_def restored_def visibleJobs_def normalizeTrackedJob_def js_nullish_def status_or_def js_sort_def
      MAX_TRACKED_def Let_def)

text \<open>
  a job that was put away comes back. A job that is dismissed while it is followed is hidden, and
  its id is remembered; the next answer about it shows it again.
\<close>

theorem dismissed_job_returns:
  "map (\<lambda>es. length (visibleJobs (job_client_run cmp
       ([Track stamp now ''j'' opts (Some (Obj [(''jobStatus'', Str ''running'')]))] @ es) (init_job_client []))))
     [[], [DismissJob False ''j''],
      [DismissJob False ''j'', Answered stamp 0 (Inr (Obj [(''jobId'', Str ''j''), (''jobStatus'', Str ''running'')]))]] = [1, 0, 1]"
  by (simp add: init_job_client_def startTracking_def isCmsJobPolling_def add_tracker_def push_new_def answered_poll_def poll_answer_def
      new_poll_def dismissJob_def isTerminalCmsJobStatus_def job_id_def persistDismissedJobIds_def
      resolved_job_def resolveCmsJobStatus_def JOB_LIFECYCLE_STATUSES_def js_spread_def on_update_def upsertJob_def upsert_list_def
      runCmsJobInBackground_def visibleJobs_def normalizeTrackedJob_def js_nullish_def status_or_def js_sort_def
      MAX_TRACKED_def Let_def)

end
