(* ===== verification/ConfText.thy ===== *)
theory ConfText
  imports JsPrelude
begin

text \<open>
  Model of \<open>param-schema/parse-conf-text.ts\<close>, the reader of \<open>cubrid.conf\<close> that follows the engine's own:
  physical lines are joined at a trailing backslash, and a logical line is a comment, a section
  header or a key with its value. The file is the list of its physical lines, as the services pass it.

  The number of a line is its position from 1. A scan by index in the code is a \<open>takeWhile\<close> and a
  \<open>dropWhile\<close> here. A character outside ASCII is two bytes of UTF-8, as all of Latin-1 are.
\<close>

section \<open>Characters and trimming\<close>

definition isIniSpace :: "char \<Rightarrow> bool" where
  "isIniSpace c \<longleftrightarrow> (let n = of_char c :: nat in n = 32 \<or> (9 \<le> n \<and> n \<le> 13))"

definition trimIniEnd :: "string \<Rightarrow> string" where
  "trimIniEnd s = rev (dropWhile isIniSpace (rev s))"

definition iniTrim :: "string \<Rightarrow> string" where
  "iniTrim s = trimIniEnd (dropWhile isIniSpace s)"

text \<open>\<open>s.replace(/\r$/, '')\<close>, and \<open>s.endsWith(c)\<close> for one character.\<close>

definition last_is :: "char \<Rightarrow> string \<Rightarrow> bool" where
  "last_is c s \<longleftrightarrow> s \<noteq> [] \<and> last s = c"

definition drop_cr :: "string \<Rightarrow> string" where
  "drop_cr s = (if last_is (CHR 0x0D) s then butlast s else s)"

definition is_quote :: "char \<Rightarrow> bool" where
  "is_quote c \<longleftrightarrow> c = CHR 0x22 \<or> c = CHR 0x27"

definition starts_comment :: "char \<Rightarrow> bool" where
  "starts_comment c \<longleftrightarrow> c = CHR '';'' \<or> c = CHR ''#''"

definition utf8Length :: "string \<Rightarrow> nat" where
  "utf8Length s = sum_list (map (\<lambda>c. if (of_char c :: nat) < 128 then 1 else 2) s)"

definition INI_MAX_LINE_LENGTH :: nat where "INI_MAX_LINE_LENGTH = 510"

section \<open>One logical line\<close>

definition parseKeyValue :: "string \<Rightarrow> (string \<times> string) option" where
  "parseKeyValue line =
     (let key = takeWhile (\<lambda>c. c \<noteq> CHR ''='') line
      in case dropWhile (\<lambda>c. c \<noteq> CHR ''='') line of
           [] \<Rightarrow> None
         | _ # afterEq \<Rightarrow>
             if key = [] then None
             else (case dropWhile isIniSpace afterEq of
                     [] \<Rightarrow> Some (key, [])
                   | c # cs \<Rightarrow>
                       if is_quote c \<and> takeWhile (\<lambda>d. d \<noteq> c) cs \<noteq> [] then Some (key, takeWhile (\<lambda>d. d \<noteq> c) cs)
                       else Some (key, takeWhile (\<lambda>d. \<not> starts_comment d) (c # cs))))"

definition normalizeSectionName :: "string \<Rightarrow> string" where
  "normalizeSectionName raw =
     (case iniTrim raw of
        [] \<Rightarrow> []
      | c # cs \<Rightarrow> if c = CHR ''@'' then c # iniTrim cs
                  else if c = CHR ''%'' then lower (c # iniTrim cs) else lower (c # cs))"

section \<open>The file\<close>

record conf_entry =
  ce_key :: string
  ce_value :: string
  ce_lineNo :: nat

text \<open>The prelude before any header is the section without a name.\<close>

record conf_section =
  sec_name :: "string option"
  sec_lineNo :: "nat option"
  sec_entries :: "conf_entry list"

datatype conf_syntax_error = LineTooLong nat | NotAValidLine nat

record conf_reader =
  cr_pending :: string
  cr_start :: nat
  cr_current :: "string option"
  cr_sections :: "conf_section list"
  cr_errors :: "conf_syntax_error list"

definition sectionFor :: "string option \<Rightarrow> nat option \<Rightarrow> conf_reader \<Rightarrow> conf_reader" where
  "sectionFor name lineNo r =
     r\<lparr>cr_current := name,
       cr_sections := (if \<exists>sec \<in> set (cr_sections r). sec_name sec = name then cr_sections r
                       else cr_sections r @ [\<lparr>sec_name = name, sec_lineNo = lineNo, sec_entries = []\<rparr>])\<rparr>"

definition add_entry :: "conf_entry \<Rightarrow> conf_reader \<Rightarrow> conf_reader" where
  "add_entry e r =
     r\<lparr>cr_sections := map (\<lambda>sec. if sec_name sec = cr_current r then sec\<lparr>sec_entries := sec_entries sec @ [e]\<rparr> else sec)
                        (cr_sections r)\<rparr>"

definition empty_quotes :: "string \<Rightarrow> bool" where
  "empty_quotes v \<longleftrightarrow> v = [CHR 0x22, CHR 0x22] \<or> v = [CHR 0x27, CHR 0x27]"

definition logical_line :: "string \<Rightarrow> conf_reader \<Rightarrow> conf_reader" where
  "logical_line line r =
     (case line of
        [] \<Rightarrow> r
      | c # cs \<Rightarrow>
          if c = CHR ''#'' then r
          else if c = CHR ''['' \<and> last_is (CHR '']'') (c # cs)
          then (let inner = takeWhile (\<lambda>d. d \<noteq> CHR '']'') cs
                in if inner \<noteq> [] then sectionFor (Some (normalizeSectionName inner)) (Some (cr_start r)) r else r)
          else (case parseKeyValue (c # cs) of
                  None \<Rightarrow> r\<lparr>cr_errors := cr_errors r @ [NotAValidLine (cr_start r)]\<rparr>
                | Some (k, v) \<Rightarrow>
                    (let value = iniTrim v
                     in add_entry \<lparr>ce_key = iniTrim k, ce_value = if empty_quotes value then [] else value,
                                   ce_lineNo = cr_start r\<rparr> r)))"

definition physical_line :: "nat \<times> string \<Rightarrow> conf_reader \<Rightarrow> conf_reader" where
  "physical_line p r =
     (let (lineNo, physical) = p;
          start = (if cr_pending r = [] then lineNo else cr_start r);
          raw = drop_cr physical;
          accumulated = cr_pending r @ trimIniEnd raw
      in if utf8Length (cr_pending r) + utf8Length raw > INI_MAX_LINE_LENGTH
         then r\<lparr>cr_pending := [], cr_start := start, cr_errors := cr_errors r @ [LineTooLong lineNo]\<rparr>
         else if last_is (CHR 0x5C) accumulated then r\<lparr>cr_pending := butlast accumulated, cr_start := start\<rparr>
         else logical_line (iniTrim accumulated) (r\<lparr>cr_pending := [], cr_start := start\<rparr>))"

definition init_reader :: conf_reader where
  "init_reader = \<lparr>cr_pending = [], cr_start = 0, cr_current = None,
     cr_sections = [\<lparr>sec_name = None, sec_lineNo = None, sec_entries = []\<rparr>], cr_errors = []\<rparr>"

definition parseConfText :: "string list \<Rightarrow> conf_section list \<times> conf_syntax_error list" where
  "parseConfText physical =
     (let r = fold physical_line (List.enumerate 1 physical) init_reader
      in (filter (\<lambda>sec. sec_name sec \<noteq> None \<or> sec_entries sec \<noteq> []) (cr_sections r), cr_errors r))"

end
