(* ===== verification/ConfEdit.thy ===== *)
theory ConfEdit
  imports ConfText
begin

text \<open>
  Model of \<open>database/config/cubrid-conf-edit.ts\<close>: edits of \<open>cubrid.conf\<close> that change only the list of
  databases to start and the section of one database; and of the step of \<open>setAutoStart\<close> in
  \<open>database-config.service.ts\<close> that decides which edit to make.

  \<open>splice\<close> and the set of dropped line numbers are written over lists. A result that is the array it was given,
  which the code tells from a copy, has a flag that it did not change.
\<close>

section \<open>The list of databases to start\<close>

text \<open>The lines a key spans from position \<open>i\<close> on, and the line the engine reads from them.\<close>

fun logical_from :: "nat \<Rightarrow> string \<Rightarrow> string list \<Rightarrow> nat \<times> string" where
  "logical_from i line [] = (i - 1, line)"
| "logical_from i line (l # ls) =
     (let stripped = trimIniEnd (drop_cr l)
      in if \<not> last_is (CHR 0x5C) stripped then (i, line @ l) else logical_from (Suc i) (line @ butlast stripped) ls)"

definition logicalLine :: "string list \<Rightarrow> nat \<Rightarrow> nat \<times> string" where
  "logicalLine confdata start = logical_from start [] (drop start confdata)"

text \<open>A line split at its list: what is before, the list as it is written, and what is after.\<close>

definition split_value :: "string \<Rightarrow> string \<times> string \<times> string" where
  "split_value line =
     (let (head, rest) = (case dropWhile (\<lambda>c. c \<noteq> CHR ''='') line of
                            [] \<Rightarrow> ([], line)
                          | e # r \<Rightarrow> (takeWhile (\<lambda>c. c \<noteq> CHR ''='') line @ [e], r));
          spaced = head @ takeWhile isIniSpace rest
      in case dropWhile isIniSpace rest of
           [] \<Rightarrow> (spaced, [], [])
         | c # cs \<Rightarrow>
             if is_quote c then (spaced @ [c], takeWhile (\<lambda>d. d \<noteq> c) cs, dropWhile (\<lambda>d. d \<noteq> c) cs)
             else (spaced, takeWhile (\<lambda>d. \<not> starts_comment d) (c # cs), dropWhile (\<lambda>d. \<not> starts_comment d) (c # cs)))"

definition leading_ws :: "string \<Rightarrow> string" where "leading_ws s = takeWhile js_ws s"
definition trailing_ws :: "string \<Rightarrow> string" where "trailing_ws s = rev (takeWhile js_ws (rev s))"
definition trimEnd :: "string \<Rightarrow> string" where "trimEnd s = rev (dropWhile js_ws (rev s))"

text \<open>The names with the spacing of the list positions they land on.\<close>

definition spaced_names :: "bool \<Rightarrow> string list \<Rightarrow> string list \<Rightarrow> string list" where
  "spaced_names continued raw edited =
     (let lead = map (\<lambda>(i, token). let ws = leading_ws token in if continued \<and> i > 0 \<and> ws \<noteq> [] then '' '' else ws)
                   (List.enumerate 0 raw);
          trail = map trailing_ws raw;
          sepLead = (if length lead > 1 then lead ! 1 else [])
      in map (\<lambda>(i, name). if i < length raw then lead ! i @ name @ trail ! i else sepLead @ name) (List.enumerate 0 edited))"

definition listNames :: "string \<Rightarrow> string list" where
  "listNames value = filter (\<lambda>name. name \<noteq> []) (map trim (split_on (CHR '','') value))"

definition editServerValue :: "string \<Rightarrow> (string list \<Rightarrow> string list) \<Rightarrow> bool \<Rightarrow> string option" where
  "editServerValue line edit continued =
     (let (before, value, after) = split_value line;
          core = trim value;
          raw = (if core = [] then [] else split_on (CHR '','') core);
          names = filter (\<lambda>name. name \<noteq> []) (map trim raw);
          edited = edit names
      in if edited = names then None
         else Some (before @ leading_ws value @ trimEnd (join '','' (spaced_names continued raw edited))
                    @ (if core = [] then [] else trailing_ws value) @ after))"

definition serverEntries :: "string list \<Rightarrow> conf_entry list" where
  "serverEntries confdata =
     (case find (\<lambda>sec. sec_name sec = Some ''service'') (fst (parseConfText confdata)) of
        Some sec \<Rightarrow> filter (\<lambda>e. lower (ce_key e) = ''server'') (sec_entries sec)
      | None \<Rightarrow> [])"

definition serviceHeaderLine :: "string list \<Rightarrow> nat option" where
  "serviceHeaderLine confdata =
     (case find (\<lambda>sec. sec_name sec = Some ''service'') (fst (parseConfText confdata)) of
        Some sec \<Rightarrow> sec_lineNo sec
      | None \<Rightarrow> None)"

definition js_splice :: "nat \<Rightarrow> nat \<Rightarrow> 'a \<Rightarrow> 'a list \<Rightarrow> 'a list" where
  "js_splice start removed x xs = take start xs @ [x] @ drop (start + removed) xs"

definition edit_entry ::
  "string list \<Rightarrow> (string list \<Rightarrow> string list) \<Rightarrow> conf_entry \<Rightarrow> string list \<times> bool \<Rightarrow> string list \<times> bool" where
  "edit_entry confdata edit entry res =
     (let start = ce_lineNo entry - 1; (to, line) = logicalLine confdata start
      in case editServerValue line edit (to > start) of
           None \<Rightarrow> res
         | Some rewritten \<Rightarrow> (js_splice start (to - start + 1) rewritten (fst res), True))"

definition editServerList :: "string list \<Rightarrow> (string list \<Rightarrow> string list) \<Rightarrow> bool \<Rightarrow> string list \<times> bool" where
  "editServerList confdata edit lastOnly =
     (let entries = serverEntries confdata
      in fold (edit_entry confdata edit) (rev (if lastOnly then drop (length entries - 1) entries else entries)) (confdata, False))"

definition isAutostart :: "string list \<Rightarrow> string \<Rightarrow> bool" where
  "isAutostart confdata dbname =
     (let entries = serverEntries confdata
      in entries \<noteq> [] \<and> dbname \<in> set (listNames (ce_value (last entries))))"

definition rename_names :: "string \<Rightarrow> string \<Rightarrow> string list \<Rightarrow> string list" where
  "rename_names oldName newName names =
     (if oldName \<in> set names
      then fold push_new (map (\<lambda>name. if name = oldName then newName else name) names) []
      else names)"

definition renameAutostart :: "string list \<Rightarrow> string \<Rightarrow> string \<Rightarrow> string list" where
  "renameAutostart confdata oldName newName = fst (editServerList confdata (rename_names oldName newName) False)"

definition removeAutostart :: "string list \<Rightarrow> string \<Rightarrow> string list \<times> bool" where
  "removeAutostart confdata dbname = editServerList confdata (filter (\<lambda>name. name \<noteq> dbname)) False"

section \<open>The section of a database\<close>

definition sectionOf :: "string \<Rightarrow> string option" where
  "sectionOf line =
     (case trim line of
        [] \<Rightarrow> None
      | c # cs \<Rightarrow>
          if c = CHR ''['' \<and> last_is (CHR '']'') cs
          then (let name = trim (butlast cs)
                in if CHR 0x0A \<in> set name \<or> CHR 0x0D \<in> set name then None
                   else Some (case name of
                                [] \<Rightarrow> []
                              | n # ns \<Rightarrow> if n = CHR ''@'' then n # trim ns else lower name))
          else None)"

text \<open>The header \<open>[@name]\<close> with another name, and its spaces kept.\<close>

definition rename_header :: "string \<Rightarrow> string \<Rightarrow> string" where
  "rename_header newName line =
     (let inBracket = tl (dropWhile js_ws line);
          afterAt = tl (dropWhile js_ws inBracket);
          fromName = dropWhile js_ws afterAt;
          toBracket = butlast (trimEnd fromName)
      in leading_ws line @ ''['' @ leading_ws inBracket @ ''@'' @ leading_ws afterAt @ newName
         @ trailing_ws toBracket @ '']'' @ trailing_ws fromName)"

definition renameDbSection :: "string list \<Rightarrow> string \<Rightarrow> string \<Rightarrow> string list \<times> bool" where
  "renameDbSection confdata oldName newName =
     (let hasOld = list_ex (\<lambda>line. sectionOf line = Some (CHR ''@'' # oldName)) confdata;
          hasNew = list_ex (\<lambda>line. sectionOf line = Some (CHR ''@'' # newName)) confdata
      in if \<not> hasOld then (confdata, False)
         else if hasNew then (confdata, True)
         else (map (\<lambda>line. if sectionOf line = Some (CHR ''@'' # oldName) then rename_header newName line else line) confdata,
               False))"

definition blank_or_comment :: "string \<Rightarrow> bool" where
  "blank_or_comment line \<longleftrightarrow> (case trim line of [] \<Rightarrow> True | c # _ \<Rightarrow> c = CHR ''#'')"

text \<open>The lines without the section: what follows its last key up to the next header is kept.\<close>

function without_section :: "string \<Rightarrow> string list \<Rightarrow> string list" where
  "without_section dbname [] = []"
| "without_section dbname (l # ls) =
     (if sectionOf l \<noteq> Some (CHR ''@'' # dbname) then l # without_section dbname ls
      else rev (takeWhile blank_or_comment (rev (takeWhile (\<lambda>x. sectionOf x = None) ls)))
           @ without_section dbname (dropWhile (\<lambda>x. sectionOf x = None) ls))"
  by pat_completeness auto
termination
  by (relation "measure (length \<circ> snd)") (auto simp: le_imp_less_Suc length_dropWhile_le)

definition forgetDbInCubridConf :: "string list \<Rightarrow> string \<Rightarrow> string list option" where
  "forgetDbInCubridConf confdata dbname =
     (let dropped = list_ex (\<lambda>line. sectionOf line = Some (CHR ''@'' # dbname)) confdata;
          kept = (if dropped then without_section dbname confdata else confdata);
          (updated, changed) = removeAutostart kept dbname
      in if dropped \<or> changed then Some updated else None)"

section \<open>Autostart of one database\<close>

datatype autostart_edit = NoServiceSection | AlreadyListed | Written "string list"

definition setAutoStart :: "string list \<Rightarrow> string \<Rightarrow> autostart_edit" where
  "setAutoStart confdata dbname =
     (if serverEntries confdata = []
      then (case serviceHeaderLine confdata of
              None \<Rightarrow> NoServiceSection
            | Some headerLine \<Rightarrow> Written (take headerLine confdata @ [''server='' @ dbname] @ drop headerLine confdata))
      else if isAutostart confdata dbname then AlreadyListed
      else Written (fst (editServerList confdata (\<lambda>names. names @ [dbname]) True)))"

end
