(* ===== verification/ConfReading.thy ===== *)
theory ConfReading
  imports ConfEdit
begin

text \<open>
  What the reader of \<open>cubrid.conf\<close> makes of a file, as a recursion over it: \<open>seg\<close> takes the physical
  lines of one logical line, and \<open>reads\<close> lists the keys with the section they are in and the line they
  start on. The entries of a section of \<open>parseConfText\<close> are those of \<open>reads\<close>.
\<close>

named_theorems ini_simps "trimming and splitting of configuration lines"

section \<open>Trimming\<close>

lemma isIniSpace_js_ws: "isIniSpace c \<Longrightarrow> js_ws c"
  by (auto simp: isIniSpace_def js_ws_def Let_def)

lemma ini_space_chars [ini_simps]:
  "\<not> isIniSpace (CHR 0x5C)" "\<not> isIniSpace (CHR ''='')" "\<not> isIniSpace (CHR ''['')" "\<not> isIniSpace (CHR '']'')"
  "\<not> isIniSpace (CHR ''#'')" "\<not> isIniSpace (CHR 0x22)" "\<not> isIniSpace (CHR 0x27)" "isIniSpace (CHR 0x0D)"
  "isIniSpace (CHR '' '')" "\<not> isIniSpace (CHR '';'')" "\<not> isIniSpace (CHR ''@'')" "\<not> isIniSpace (CHR '','')"
  by (simp_all add: isIniSpace_def)

lemma trimIniEnd_Nil [simp]: "trimIniEnd [] = []"
  by (simp add: trimIniEnd_def)

lemma trimIniEnd_blank: "trimIniEnd s = [] \<longleftrightarrow> list_all isIniSpace s"
  by (simp add: trimIniEnd_def dropWhile_eq_Nil_conv list_all_iff)

lemma trimIniEnd_append:
  "trimIniEnd (s @ t) = (if list_all isIniSpace t then trimIniEnd s else s @ trimIniEnd t)"
proof (cases "list_all isIniSpace t")
  case True
  then show ?thesis by (auto simp: trimIniEnd_def list_all_iff intro: dropWhile_append2)
next
  case False
  then obtain x where "x \<in> set (rev t)" "\<not> isIniSpace x" by (auto simp: list_all_iff)
  then show ?thesis using False by (simp add: trimIniEnd_def dropWhile_append1)
qed

lemma trimIniEnd_last: "trimIniEnd s \<noteq> [] \<Longrightarrow> \<not> isIniSpace (last (trimIniEnd s))"
  by (metis hd_dropWhile last_rev trimIniEnd_def rev_is_Nil_conv)

lemma trimIniEnd_idem [simp]: "trimIniEnd (trimIniEnd s) = trimIniEnd s"
  by (simp add: trimIniEnd_def)

lemma trimIniEnd_split: obtains t where "s = trimIniEnd s @ t" "list_all isIniSpace t"
proof -
  have "s = trimIniEnd s @ rev (takeWhile isIniSpace (rev s))"
    by (metis rev_append rev_rev_ident takeWhile_dropWhile_id trimIniEnd_def)
  moreover have "list_all isIniSpace (rev (takeWhile isIniSpace (rev s)))"
    by (auto simp: list_all_iff dest: set_takeWhileD)
  ultimately show thesis by (rule that)
qed

lemma iniTrim_blank: "iniTrim s = [] \<longleftrightarrow> list_all isIniSpace s"
proof -
  have "list_all isIniSpace (dropWhile isIniSpace s) \<longleftrightarrow> dropWhile isIniSpace s = []"
    by (metis hd_dropWhile list.pred_inject(1) list_all_iff list.set_sel(1))
  then show ?thesis by (simp add: iniTrim_def trimIniEnd_blank dropWhile_eq_Nil_conv list_all_iff)
qed

lemma iniTrim_Nil [simp]: "iniTrim [] = []"
  by (simp add: iniTrim_def)

lemma dropWhile_trimIniEnd: "dropWhile isIniSpace (trimIniEnd s) = trimIniEnd (dropWhile isIniSpace s)"
proof -
  obtain t where t: "s = trimIniEnd s @ t" "list_all isIniSpace t" by (rule trimIniEnd_split)
  show ?thesis
  proof (cases "trimIniEnd s")
    case Nil
    then have "list_all isIniSpace s" by (simp add: trimIniEnd_blank)
    then show ?thesis using Nil by (simp add: list_all_iff dropWhile_eq_Nil_conv [THEN iffD2])
  next
    case Cons
    then have "last (trimIniEnd s) \<in> set (trimIniEnd s)" "\<not> isIniSpace (last (trimIniEnd s))"
      using trimIniEnd_last [of s] by simp_all
    then have d: "dropWhile isIniSpace (trimIniEnd s @ t) = dropWhile isIniSpace (trimIniEnd s) @ t"
      by (rule dropWhile_append1)
    have ne: "dropWhile isIniSpace (trimIniEnd s) \<noteq> []"
      using \<open>last (trimIniEnd s) \<in> set (trimIniEnd s)\<close> \<open>\<not> isIniSpace (last (trimIniEnd s))\<close>
      by (auto simp: dropWhile_eq_Nil_conv)
    have l: "last (dropWhile isIniSpace (trimIniEnd s)) = last (trimIniEnd s)"
      using ne by (metis last_appendR takeWhile_dropWhile_id)
    have "trimIniEnd (dropWhile isIniSpace (trimIniEnd s)) = dropWhile isIniSpace (trimIniEnd s)"
    proof -
      have "rev (dropWhile isIniSpace (trimIniEnd s)) = last (trimIniEnd s) # tl (rev (dropWhile isIniSpace (trimIniEnd s)))"
        using ne l by (metis hd_Cons_tl hd_rev rev_is_Nil_conv)
      then show ?thesis using \<open>\<not> isIniSpace (last (trimIniEnd s))\<close>
        by (metis dropWhile.simps(2) rev_rev_ident trimIniEnd_def)
    qed
    then show ?thesis using t d by (metis trimIniEnd_append)
  qed
qed

lemma iniTrim_trimIniEnd [simp]: "iniTrim (trimIniEnd s) = iniTrim s"
  by (simp add: iniTrim_def dropWhile_trimIniEnd)

lemma iniTrim_append_blank: "list_all isIniSpace t \<Longrightarrow> iniTrim (s @ t) = iniTrim s"
  by (metis iniTrim_trimIniEnd trimIniEnd_append)

lemma iniTrim_prepend_blank: "list_all isIniSpace t \<Longrightarrow> iniTrim (t @ s) = iniTrim s"
  by (subst iniTrim_def) (auto simp: iniTrim_def list_all_iff intro!: arg_cong [where f=trimIniEnd] dropWhile_append2)

lemma iniTrim_idem [simp]: "iniTrim (iniTrim s) = iniTrim s"
  by (metis dropWhile_idem iniTrim_def iniTrim_trimIniEnd)

lemma trimIniEnd_drop_cr [simp]: "trimIniEnd (drop_cr s) = trimIniEnd s"
proof (cases "last_is (CHR 0x0D) s")
  case True
  then have "s = butlast s @ [CHR 0x0D]" by (metis append_butlast_last_id last_is_def)
  then have "trimIniEnd s = trimIniEnd (butlast s)"
    by (metis (no_types, lifting) ini_space_chars(8) list.pred_inject list_all_append trimIniEnd_append)
  then show ?thesis using True by (simp add: drop_cr_def)
next
  case False
  then show ?thesis by (simp add: drop_cr_def)
qed

lemma utf8Length_append [simp]: "utf8Length (s @ t) = utf8Length s + utf8Length t"
  by (simp add: utf8Length_def)

lemma utf8Length_Nil [simp]: "utf8Length [] = 0"
  by (simp add: utf8Length_def)

lemma utf8Length_drop_cr: "utf8Length (drop_cr s) \<le> utf8Length s"
  by (cases s rule: rev_cases) (auto simp: drop_cr_def last_is_def)

section \<open>The physical lines of a logical one\<close>

definition too_long :: "string \<Rightarrow> string \<Rightarrow> bool" where
  "too_long pending l \<longleftrightarrow> utf8Length pending + utf8Length (drop_cr l) > INI_MAX_LINE_LENGTH"

text \<open>How many lines the reader takes, and the logical line it gets, if any.\<close>

fun seg :: "string \<Rightarrow> string list \<Rightarrow> nat \<times> string option" where
  "seg pending [] = (0, None)"
| "seg pending (l # ls) =
     (let accumulated = pending @ trimIniEnd l
      in if too_long pending l then (1, None)
         else if last_is (CHR 0x5C) accumulated
         then (if butlast accumulated = [] then (1, None)
               else (let (n, r) = seg (butlast accumulated) ls in (Suc n, r)))
         else (1, Some (iniTrim accumulated)))"

lemma seg_bounds: "seg pending ls = (n, r) \<Longrightarrow> n \<le> length ls \<and> (ls \<noteq> [] \<longrightarrow> 0 < n)"
  by (induction pending ls arbitrary: n r rule: seg.induct) (auto simp: Let_def split: if_splits prod.splits)

lemma seg_None_or_more: "seg pending ls = (n, Some line) \<Longrightarrow> 0 < n"
  by (cases ls) (use seg_bounds in fastforce)+

text \<open>It depends on the lines it takes only.\<close>

lemma seg_take:
  "seg pending ls = (n, r) \<Longrightarrow> (drop n ls = [] \<Longrightarrow> r = None \<Longrightarrow> xs = []) \<Longrightarrow> seg pending (take n ls @ xs) = (n, r)"
proof (induction pending ls arbitrary: n r rule: seg.induct)
  case 1
  then show ?case by simp
next
  case (2 pending l ls)
  let ?a = "pending @ trimIniEnd l"
  show ?case
  proof (cases "\<not> too_long pending l \<and> last_is (CHR 0x5C) ?a \<and> butlast ?a \<noteq> []")
    case True
    obtain m r' where s: "seg (butlast ?a) ls = (m, r')" by force
    with True "2.prems"(1) have n: "n = Suc m" "r = r'" by (auto simp: Let_def)
    have "seg (butlast ?a) (take m ls @ xs) = (m, r')"
      by (rule "2.IH" [OF refl]) (use True s n "2.prems"(2) in auto)
    then show ?thesis using True n by (simp add: Let_def)
  next
    case False
    then show ?thesis using "2.prems" by (auto simp: Let_def split: if_splits)
  qed
qed

section \<open>The keys of a file\<close>

datatype line_kind = Nothing | Header string | Key string string

definition kind_of :: "string \<Rightarrow> line_kind" where
  "kind_of line =
     (case line of
        [] \<Rightarrow> Nothing
      | c # cs \<Rightarrow>
          if c = CHR ''#'' then Nothing
          else if c = CHR ''['' \<and> last_is (CHR '']'') (c # cs)
          then (let inner = takeWhile (\<lambda>d. d \<noteq> CHR '']'') cs in if inner \<noteq> [] then Header (normalizeSectionName inner) else Nothing)
          else (case parseKeyValue (c # cs) of
                  None \<Rightarrow> Nothing
                | Some (k, v) \<Rightarrow> Key (iniTrim k) (if empty_quotes (iniTrim v) then [] else iniTrim v)))"

definition kind_in :: "string option \<Rightarrow> line_kind" where
  "kind_in r = (case r of None \<Rightarrow> Nothing | Some line \<Rightarrow> kind_of line)"

definition next_section :: "line_kind \<Rightarrow> string option \<Rightarrow> string option" where
  "next_section k cur = (case k of Header name \<Rightarrow> Some name | _ \<Rightarrow> cur)"

definition key_of :: "nat \<Rightarrow> line_kind \<Rightarrow> string option \<Rightarrow> (string option \<times> conf_entry) list" where
  "key_of i k cur = (case k of Key key value \<Rightarrow> [(cur, \<lparr>ce_key = key, ce_value = value, ce_lineNo = i\<rparr>)] | _ \<Rightarrow> [])"

function reads :: "nat \<Rightarrow> string option \<Rightarrow> string list \<Rightarrow> (string option \<times> conf_entry) list" where
  "reads i cur [] = []"
| "reads i cur (l # ls) =
     (let (n, r) = seg [] (l # ls)
      in key_of i (kind_in r) cur @ reads (i + n) (next_section (kind_in r) cur) (drop n (l # ls)))"
  by pat_completeness auto
termination
  by (relation "measure (\<lambda>(i, cur, ls). length ls)")
     (auto dest: seg_bounds [OF sym] simp del: seg.simps)

declare reads.simps(2) [simp del]

lemma reads_unfold:
  "seg [] ls = (n, r) \<Longrightarrow> reads i cur ls = key_of i (kind_in r) cur @ reads (i + n) (next_section (kind_in r) cur) (drop n ls)"
  by (cases ls) (auto simp: reads.simps(2) key_of_def kind_in_def next_section_def)

section \<open>The reader keeps them under their section\<close>

definition entries_of :: "string option \<Rightarrow> conf_section list \<Rightarrow> conf_entry list" where
  "entries_of name secs = concat (map sec_entries (filter (\<lambda>sec. sec_name sec = name) secs))"

definition keys_in :: "string option \<Rightarrow> (string option \<times> conf_entry) list \<Rightarrow> conf_entry list" where
  "keys_in name kes = map snd (filter (\<lambda>p. fst p = name) kes)"

lemma keys_in_simps [simp]: "keys_in name [] = []" "keys_in name (kes @ kes') = keys_in name kes @ keys_in name kes'"
  by (simp_all add: keys_in_def)

definition reader_ok :: "conf_reader \<Rightarrow> bool" where
  "reader_ok r \<longleftrightarrow> distinct (map sec_name (cr_sections r)) \<and> cr_current r \<in> sec_name ` set (cr_sections r)"

text \<open>What a step of the reader adds: keys, under the section it is in.\<close>

definition adds :: "(string option \<times> conf_entry) list \<Rightarrow> string option \<Rightarrow> conf_reader \<Rightarrow> conf_reader \<Rightarrow> bool" where
  "adds kes cur r r' \<longleftrightarrow> cr_current r' = cur \<and> reader_ok r' \<and>
     (\<forall>name. entries_of name (cr_sections r') = entries_of name (cr_sections r) @ keys_in name kes)"

lemma adds_trans: "adds kes cur r r' \<Longrightarrow> adds kes' cur' r' r'' \<Longrightarrow> adds (kes @ kes') cur' r r''"
  by (simp add: adds_def)

lemma adds_refl: "reader_ok r \<Longrightarrow> cr_sections r' = cr_sections r \<Longrightarrow> cr_current r' = cr_current r \<Longrightarrow> adds [] (cr_current r) r r'"
  by (simp add: adds_def reader_ok_def)

lemma entries_of_absent: "name \<notin> sec_name ` set secs \<Longrightarrow> entries_of name secs = []"
  by (induction secs) (auto simp: entries_of_def)

lemma entries_of_add_entry:
  assumes "distinct (map sec_name secs)" "cur \<in> sec_name ` set secs"
  shows "entries_of name (map (\<lambda>sec. if sec_name sec = cur then sec\<lparr>sec_entries := sec_entries sec @ [e]\<rparr> else sec) secs)
    = entries_of name secs @ (if name = cur then [e] else [])"
  using assms
proof (induction secs)
  case Nil
  then show ?case by simp
next
  case (Cons sec secs)
  let ?f = "\<lambda>sec. if sec_name sec = cur then sec\<lparr>sec_entries := sec_entries sec @ [e]\<rparr> else sec"
  have step: "entries_of name (x # xs) = (if sec_name x = name then sec_entries x else []) @ entries_of name xs" for x xs
    by (simp add: entries_of_def)
  show ?case
  proof (cases "sec_name sec = cur")
    case True
    then have "cur \<notin> sec_name ` set secs" using Cons.prems(1) by auto
    then have "map ?f secs = secs" by (intro map_idI) auto
    then show ?thesis using True \<open>cur \<notin> sec_name ` set secs\<close> by (auto simp: step entries_of_absent)
  next
    case False
    then have "cur \<in> sec_name ` set secs" using Cons.prems(2) by auto
    then show ?thesis using False Cons by (simp add: step)
  qed
qed

lemma adds_entry:
  "reader_ok r \<Longrightarrow> adds [(cr_current r, e)] (cr_current r) r (add_entry e r)"
proof -
  assume ok: "reader_ok r"
  have "map sec_name (cr_sections (add_entry e r)) = map sec_name (cr_sections r)" by (simp add: add_entry_def)
  then have "reader_ok (add_entry e r)" using ok
    by (metis (no_types, lifting) add_entry_def conf_reader.select_convs(3) conf_reader.simps(8) conf_reader.surjective
          conf_reader.update_convs(4) image_set reader_ok_def)
  then show ?thesis using ok by (auto simp: adds_def reader_ok_def add_entry_def entries_of_add_entry keys_in_def)
qed

lemma adds_sectionFor: "reader_ok r \<Longrightarrow> adds [] name r (sectionFor name ln r)"
  by (auto simp: adds_def reader_ok_def sectionFor_def entries_of_def)

lemma logical_line_adds:
  assumes "reader_ok r"
  shows "adds (key_of (cr_start r) (kind_of line) (cr_current r)) (next_section (kind_of line) (cr_current r)) r (logical_line line r)"
proof -
  have err: "adds [] (cr_current r) r (r\<lparr>cr_errors := es\<rparr>)" for es
    using assms by (simp add: adds_refl)
  have "adds [] (cr_current r) r r" using assms by (simp add: adds_refl)
  then show ?thesis using err adds_entry [OF assms] adds_sectionFor [OF assms]
    by (auto simp: logical_line_def kind_of_def key_of_def next_section_def Let_def split: list.splits option.splits prod.splits)
qed

lemma logical_line_pending: "cr_pending (logical_line line r) = cr_pending r"
  by (auto simp: logical_line_def sectionFor_def add_entry_def Let_def split: list.splits option.splits prod.splits)

definition start_at :: "nat \<Rightarrow> string \<Rightarrow> conf_reader \<Rightarrow> nat" where
  "start_at i pending r = (if pending = [] then i else cr_start r)"

lemma physical_line_cases:
  assumes "reader_ok r" "cr_pending r = pending"
  shows "too_long pending l \<Longrightarrow> adds [] (cr_current r) r (physical_line (i, l) r) \<and> cr_pending (physical_line (i, l) r) = []"
    and "\<not> too_long pending l \<Longrightarrow> last_is (CHR 0x5C) (pending @ trimIniEnd l) \<Longrightarrow>
      physical_line (i, l) r = r\<lparr>cr_pending := butlast (pending @ trimIniEnd l), cr_start := start_at i pending r\<rparr>"
    and "\<not> too_long pending l \<Longrightarrow> \<not> last_is (CHR 0x5C) (pending @ trimIniEnd l) \<Longrightarrow>
      adds (key_of (start_at i pending r) (kind_of (iniTrim (pending @ trimIniEnd l))) (cr_current r))
        (next_section (kind_of (iniTrim (pending @ trimIniEnd l))) (cr_current r)) r (physical_line (i, l) r)
      \<and> cr_pending (physical_line (i, l) r) = []"
proof -
  show "too_long pending l \<Longrightarrow> adds [] (cr_current r) r (physical_line (i, l) r) \<and> cr_pending (physical_line (i, l) r) = []"
    using assms by (auto simp: physical_line_def too_long_def intro!: adds_refl)
  show "\<not> too_long pending l \<Longrightarrow> last_is (CHR 0x5C) (pending @ trimIniEnd l) \<Longrightarrow>
      physical_line (i, l) r = r\<lparr>cr_pending := butlast (pending @ trimIniEnd l), cr_start := start_at i pending r\<rparr>"
    using assms by (simp add: physical_line_def too_long_def start_at_def Let_def)
  let ?r = "r\<lparr>cr_pending := [], cr_start := start_at i pending r\<rparr>"
  assume "\<not> too_long pending l" "\<not> last_is (CHR 0x5C) (pending @ trimIniEnd l)"
  then have p: "physical_line (i, l) r = logical_line (iniTrim (pending @ trimIniEnd l)) ?r"
    using assms by (simp add: physical_line_def too_long_def start_at_def Let_def)
  have "reader_ok ?r" using assms by (simp add: reader_ok_def)
  from logical_line_adds [OF this] show "adds (key_of (start_at i pending r) (kind_of (iniTrim (pending @ trimIniEnd l))) (cr_current r))
        (next_section (kind_of (iniTrim (pending @ trimIniEnd l))) (cr_current r)) r (physical_line (i, l) r)
      \<and> cr_pending (physical_line (i, l) r) = []"
    by (simp add: p logical_line_pending adds_def)
qed

lemma fold_seg:
  "seg pending ls = (n, res) \<Longrightarrow> reader_ok r \<Longrightarrow> cr_pending r = pending \<Longrightarrow>
    adds (key_of (start_at i pending r) (kind_in res) (cr_current r)) (next_section (kind_in res) (cr_current r)) r
      (fold physical_line (List.enumerate i (take n ls)) r)
    \<and> (drop n ls \<noteq> [] \<longrightarrow> cr_pending (fold physical_line (List.enumerate i (take n ls)) r) = [])"
proof (induction pending ls arbitrary: n res r i rule: seg.induct)
  case (1 pending)
  then show ?case by (auto simp: kind_in_def key_of_def next_section_def intro: adds_refl)
next
  case (2 pending l ls)
  let ?a = "pending @ trimIniEnd l"
  note cs = physical_line_cases [OF "2.prems"(2,3), of l i]
  consider (long) "too_long pending l" | (whole) "\<not> too_long pending l" "\<not> last_is (CHR 0x5C) ?a"
    | (void) "\<not> too_long pending l" "last_is (CHR 0x5C) ?a" "butlast ?a = []"
    | (more) "\<not> too_long pending l" "last_is (CHR 0x5C) ?a" "butlast ?a \<noteq> []" by blast
  then show ?case
  proof cases
    case long
    then have "n = 1" "res = None" using "2.prems"(1) by auto
    then show ?thesis using cs(1) [OF long] by (simp add: kind_in_def key_of_def next_section_def)
  next
    case whole
    then have "n = 1" "res = Some (iniTrim ?a)" using "2.prems"(1) by auto
    then show ?thesis using cs(3) [OF whole] by (simp add: kind_in_def)
  next
    case void
    then have "n = 1" "res = None" using "2.prems"(1) by auto
    then show ?thesis using cs(2) [OF void(1,2)] void(3) "2.prems"(2)
      by (auto simp: kind_in_def key_of_def next_section_def intro: adds_refl)
  next
    case more
    obtain m res' where s: "seg (butlast ?a) ls = (m, res')" by force
    with more "2.prems"(1) have n: "n = Suc m" "res = res'" by (auto simp: Let_def)
    let ?r = "r\<lparr>cr_pending := butlast ?a, cr_start := start_at i pending r\<rparr>"
    have ok: "reader_ok ?r" using "2.prems"(2) by (simp add: reader_ok_def)
    from "2.IH" [OF refl more(1,2,3) s ok, of "Suc i"] more(3)
    show ?thesis using cs(2) [OF more(1,2)] n by (simp add: start_at_def adds_def)
  qed
qed

lemma fold_reads:
  "reader_ok r \<Longrightarrow> cr_pending r = [] \<Longrightarrow> cr_current r = cur \<Longrightarrow>
    \<exists>cur'. adds (reads i cur ls) cur' r (fold physical_line (List.enumerate i ls) r)"
proof (induction i cur ls arbitrary: r rule: reads.induct)
  case (1 i cur)
  then show ?case by (auto intro: adds_refl)
next
  case (2 i cur l ls)
  obtain n res where s: "seg [] (l # ls) = (n, res)" by force
  let ?r = "fold physical_line (List.enumerate i (take n (l # ls))) r"
  have a: "adds (key_of i (kind_in res) cur) (next_section (kind_in res) cur) r ?r"
    and p: "drop n (l # ls) \<noteq> [] \<Longrightarrow> cr_pending ?r = []"
    using fold_seg [OF s "2.prems"(1,2), of i] "2.prems"(3) by (auto simp: start_at_def)
  have n: "n \<le> length (l # ls)" using seg_bounds [OF s] by simp
  have e: "List.enumerate i (l # ls) = List.enumerate i (take n (l # ls)) @ List.enumerate (i + n) (drop n (l # ls))"
    using n by (metis append_take_drop_id enumerate_append_eq length_take min.absorb2)
  show ?case
  proof (cases "drop n (l # ls) = []")
    case True
    then show ?thesis using a reads_unfold [OF s, of i cur] by (auto simp: e)
  next
    case False
    have "reader_ok ?r" "cr_current ?r = next_section (kind_in res) cur" using a by (simp_all add: adds_def)
    from "2.IH" [OF s [symmetric] refl, OF this(1) p [OF False] this(2)] obtain cur' where
      "adds (reads (i + n) (next_section (kind_in res) cur) (drop n (l # ls))) cur' ?r
         (fold physical_line (List.enumerate (i + n) (drop n (l # ls))) ?r)" by blast
    from adds_trans [OF a this] show ?thesis by (auto simp only: e fold_append comp_apply reads_unfold [OF s])
  qed
qed

text \<open>The keys of a file, from its first line.\<close>

definition keys :: "string list \<Rightarrow> (string option \<times> conf_entry) list" where
  "keys confdata = reads 1 None confdata"

lemma init_reader_ok: "reader_ok init_reader"
  by (simp add: reader_ok_def init_reader_def)

lemma parse_sections:
  "entries_of name (fst (parseConfText confdata)) = keys_in name (keys confdata)"
  "distinct (map sec_name (fst (parseConfText confdata)))"
proof -
  let ?r = "fold physical_line (List.enumerate 1 confdata) init_reader"
  obtain cur where a: "adds (keys confdata) cur init_reader ?r"
    using fold_reads [OF init_reader_ok, of None 1 confdata] by (auto simp: init_reader_def keys_def)
  have drop: "entries_of name (filter (\<lambda>sec. sec_name sec \<noteq> None \<or> sec_entries sec \<noteq> []) secs) = entries_of name secs" for secs
    by (induction secs) (auto simp: entries_of_def)
  have start: "entries_of name (cr_sections init_reader) = []" by (simp add: init_reader_def entries_of_def)
  show "entries_of name (fst (parseConfText confdata)) = keys_in name (keys confdata)"
    using a unfolding adds_def parseConfText_def Let_def fst_conv drop
    by (simp add: start)
  show "distinct (map sec_name (fst (parseConfText confdata)))"
    using a by (simp add: parseConfText_def Let_def adds_def reader_ok_def distinct_map_filter)
qed

lemma find_section:
  assumes "distinct (map sec_name secs)"
  shows "(case find (\<lambda>sec. sec_name sec = name) secs of Some sec \<Rightarrow> sec_entries sec | None \<Rightarrow> []) = entries_of name secs"
  using assms
proof (induction secs)
  case (Cons sec secs)
  then show ?case by (cases "sec_name sec = name") (auto simp: entries_of_def dest: entries_of_absent [unfolded entries_of_def])
qed (simp add: entries_of_def)

definition is_server :: "conf_entry \<Rightarrow> bool" where
  "is_server e \<longleftrightarrow> lower (ce_key e) = ''server''"

lemma serverEntries_keys: "serverEntries confdata = filter is_server (keys_in (Some ''service'') (keys confdata))"
proof -
  have "serverEntries confdata = filter is_server (entries_of (Some ''service'') (fst (parseConfText confdata)))"
    using find_section [OF parse_sections(2) [of confdata], of "Some ''service''"]
    by (auto simp: serverEntries_def is_server_def [abs_def] split: option.splits)
  then show ?thesis by (simp add: parse_sections(1))
qed

end
