(* ===== verification/ConfEditFacts.thy ===== *)
theory ConfEditFacts
  imports ConfReading
begin

text \<open>
  What the edits of \<open>cubrid.conf\<close> do to the keys the engine reads from it.
\<close>

section \<open>Lists of names\<close>

lemma split_on_no_sep: "d \<notin> set s \<Longrightarrow> split_on d s = [s]"
  by (induction s) auto

lemma split_on_append: "d \<notin> set s \<Longrightarrow> split_on d (s @ d # t) = s # split_on d t"
  by (induction s) auto

lemma split_on_not_Nil [simp]: "split_on d s \<noteq> []"
  by (induction s) (auto split: list.splits)

lemma split_on_join:
  "ss \<noteq> [] \<Longrightarrow> (\<And>s. s \<in> set ss \<Longrightarrow> d \<notin> set s) \<Longrightarrow> split_on d (join [d] ss) = ss"
  by (induction "[d]" ss rule: join.induct) (auto simp: split_on_no_sep split_on_append)

lemma split_on_parts: "s \<in> set (split_on d t) \<Longrightarrow> d \<notin> set s \<and> set s \<subseteq> set t"
  by (induction t arbitrary: s) (fastforce split: list.splits if_splits)+

lemma split_on_prepend: "d \<notin> set w \<Longrightarrow> split_on d (w @ s) = (w @ hd (split_on d s)) # tl (split_on d s)"
proof (induction w)
  case Nil
  then show ?case by simp
next
  case (Cons a w)
  then show ?case by (auto split: list.splits)
qed

lemma split_on_last: "d \<notin> set w \<Longrightarrow> split_on d (s @ w) = butlast (split_on d s) @ [last (split_on d s) @ w]"
proof (induction s)
  case Nil
  then show ?case by (simp add: split_on_no_sep)
next
  case (Cons a s)
  obtain x xs where x: "split_on d s = x # xs" by (meson neq_Nil_conv split_on_not_Nil)
  then show ?case using Cons by (auto split: list.splits)
qed

lemma trim_prepend: "list_all js_ws w \<Longrightarrow> trim (w @ s) = trim s"
  by (auto simp: trim_def list_all_iff dropWhile_append2)

lemma trim_append: "list_all js_ws w \<Longrightarrow> trim (s @ w) = trim s"
proof -
  assume w: "list_all js_ws w"
  show ?thesis
  proof (cases "list_all js_ws s")
    case True
    then have "trim s = []" "trim (s @ w) = []" using w by (auto simp: trim_empty_iff list_all_iff)
    then show ?thesis by simp
  next
    case False
    then obtain x where "x \<in> set s" "\<not> js_ws x" by (auto simp: list_all_iff)
    then have "dropWhile js_ws (s @ w) = dropWhile js_ws s @ w" by (rule dropWhile_append1)
    then show ?thesis using w by (simp add: trim_def list_all_iff) (auto intro!: dropWhile_append2)
  qed
qed

lemma comma_not_ws: "list_all js_ws w \<Longrightarrow> CHR '','' \<notin> set w"
  by (auto simp: list_all_iff js_ws_def)

lemma listNames_prepend: "list_all js_ws w \<Longrightarrow> listNames (w @ s) = listNames s"
proof -
  assume w: "list_all js_ws w"
  obtain x xs where x: "split_on (CHR '','') s = x # xs" by (meson neq_Nil_conv split_on_not_Nil)
  show ?thesis by (simp add: listNames_def split_on_prepend [OF comma_not_ws [OF w]] x trim_prepend [OF w])
qed

lemma listNames_append: "list_all js_ws w \<Longrightarrow> listNames (s @ w) = listNames s"
proof -
  assume w: "list_all js_ws w"
  obtain x xs where x: "split_on (CHR '','') s = xs @ [x]" by (metis rev_exhaust split_on_not_Nil)
  show ?thesis by (simp add: listNames_def split_on_last [OF comma_not_ws [OF w]] x trim_append [OF w])
qed

lemma listNames_Nil [simp]: "listNames [] = []"
  by (simp add: listNames_def)

lemma ws_parts: "list_all js_ws (leading_ws s)" "list_all js_ws (trailing_ws s)"
  by (auto simp: leading_ws_def trailing_ws_def list_all_iff dest: set_takeWhileD)

lemma trimEnd_parts: "s = trimEnd s @ trailing_ws s"
  by (metis rev_append rev_rev_ident takeWhile_dropWhile_id trailing_ws_def trimEnd_def)

lemma trim_parts: obtains w w' where "s = w @ trim s @ w'" "list_all js_ws w" "list_all js_ws w'"
proof -
  have "s = leading_ws s @ dropWhile js_ws s" by (simp add: leading_ws_def)
  also have "\<dots> = leading_ws s @ trimEnd (dropWhile js_ws s) @ trailing_ws (dropWhile js_ws s)"
    using trimEnd_parts by metis
  finally have "s = leading_ws s @ trim s @ trailing_ws (dropWhile js_ws s)" by (simp add: trim_def trimEnd_def)
  then show thesis using that ws_parts by blast
qed

lemma listNames_trim: "listNames (trim s) = listNames s"
  by (rule trim_parts [of s]) (metis listNames_append listNames_prepend)

lemma listNames_trimEnd: "listNames (trimEnd s) = listNames s"
  by (metis listNames_append trimEnd_parts ws_parts(2))

lemma list_all_ini_js: "list_all isIniSpace s \<Longrightarrow> list_all js_ws s"
  by (auto simp: list_all_iff isIniSpace_js_ws)

lemma listNames_iniTrim: "listNames (iniTrim s) = listNames s"
proof -
  obtain t where t: "dropWhile isIniSpace s = iniTrim s @ t" "list_all isIniSpace t"
    unfolding iniTrim_def by (rule trimIniEnd_split)
  have "s = takeWhile isIniSpace s @ iniTrim s @ t" using t(1) by (metis takeWhile_dropWhile_id)
  moreover have "list_all isIniSpace (takeWhile isIniSpace s)" by (auto simp: list_all_iff dest: set_takeWhileD)
  ultimately show ?thesis using t(2) by (metis list_all_ini_js listNames_append listNames_prepend)
qed

text \<open>A name as it comes out of a list.\<close>

definition list_name :: "string \<Rightarrow> bool" where
  "list_name n \<longleftrightarrow> n \<noteq> [] \<and> trim n = n \<and> CHR '','' \<notin> set n"

lemma set_trim: "set (trim s) \<subseteq> set s"
  by (rule trim_parts [of s]) (metis set_append Un_subset_iff subset_refl)

lemma listNames_names: "n \<in> set (listNames s) \<Longrightarrow> list_name n \<and> set n \<subseteq> set s"
proof -
  assume "n \<in> set (listNames s)"
  then obtain x where x: "n = trim x" "n \<noteq> []" "x \<in> set (split_on (CHR '','') s)" by (auto simp: listNames_def)
  then show ?thesis using split_on_parts [OF x(3)] set_trim [of x] by (auto simp: list_name_def)
qed

lemma spaced_names_shape:
  "\<exists>f. spaced_names continued raw names = map f [0..<length names] \<and>
     (\<forall>i < length names. \<exists>w w'. f i = w @ names ! i @ w' \<and> list_all js_ws w \<and> list_all js_ws w'
        \<and> set w \<union> set w' \<subseteq> insert (CHR '' '') (\<Union>(set ` set raw)))"
proof -
  let ?ld = "\<lambda>(i, token). let ws = leading_ws token in if continued \<and> i > 0 \<and> ws \<noteq> [] then '' '' else ws"
  let ?lead = "map ?ld (List.enumerate 0 raw)"
  let ?f = "\<lambda>i. if i < length raw then ?lead ! i @ names ! i @ map trailing_ws raw ! i
                 else (if length ?lead > 1 then ?lead ! 1 else []) @ names ! i"
  have ld: "list_all js_ws (?lead ! i) \<and> set (?lead ! i) \<subseteq> insert (CHR '' '') (\<Union>(set ` set raw))" if i: "i < length raw" for i
  proof -
    have "?lead ! i = ?ld (i, raw ! i)" using i by (simp add: nth_enumerate_eq)
    moreover have "set (leading_ws (raw ! i)) \<subseteq> set (raw ! i)" by (auto simp: leading_ws_def dest: set_takeWhileD)
    moreover have "set (raw ! i) \<subseteq> \<Union>(set ` set raw)" using i by (meson UN_upper nth_mem)
    ultimately show ?thesis using ws_parts(1) [of "raw ! i"] by (auto simp: Let_def js_ws_def split: if_splits)
  qed
  have tr: "list_all js_ws (map trailing_ws raw ! i) \<and> set (map trailing_ws raw ! i) \<subseteq> \<Union>(set ` set raw)" if i: "i < length raw" for i
  proof -
    have "set (trailing_ws (raw ! i)) \<subseteq> set (raw ! i)" by (auto simp: trailing_ws_def dest: set_takeWhileD)
    moreover have "set (raw ! i) \<subseteq> \<Union>(set ` set raw)" using i by (meson UN_upper nth_mem)
    ultimately show ?thesis using i ws_parts(2) [of "raw ! i"] by auto
  qed
  have "spaced_names continued raw names = map ?f [0..<length names]"
    by (auto simp: spaced_names_def Let_def enumerate_eq_zip intro!: nth_equalityI)
  moreover have "\<exists>w w'. ?f i = w @ names ! i @ w' \<and> list_all js_ws w \<and> list_all js_ws w'
        \<and> set w \<union> set w' \<subseteq> insert (CHR '' '') (\<Union>(set ` set raw))" if "i < length names" for i
  proof (cases "i < length raw")
    case True
    then show ?thesis using ld [OF True] tr [OF True] by (intro exI [of _ "?lead ! i"] exI [of _ "map trailing_ws raw ! i"]) auto
  next
    case False
    then show ?thesis using ld [of 1]
      by (intro exI [of _ "if length ?lead > 1 then ?lead ! 1 else []"] exI [of _ "[]"]) auto
  qed
  ultimately show ?thesis by (intro exI [of _ ?f]) blast
qed

lemma join_chars: "set (join sep ss) \<subseteq> set sep \<union> \<Union>(set ` set ss)"
  by (induction sep ss rule: join.induct) auto

text \<open>The list that is written back has the edited names, and no new characters but theirs.\<close>

lemma listNames_spaced:
  assumes "\<forall>n \<in> set names. list_name n"
  shows "listNames (join '','' (spaced_names continued raw names)) = names"
proof (cases "names = []")
  case True
  then show ?thesis by (simp add: spaced_names_def)
next
  case False
  obtain f where f: "spaced_names continued raw names = map f [0..<length names]"
    and fi: "\<And>i. i < length names \<Longrightarrow> \<exists>w w'. f i = w @ names ! i @ w' \<and> list_all js_ws w \<and> list_all js_ws w'"
    using spaced_names_shape [of continued raw names] by blast
  have c: "CHR '','' \<notin> set (f i) \<and> trim (f i) = names ! i" if i: "i < length names" for i
  proof -
    obtain w w' where w: "f i = w @ names ! i @ w'" "list_all js_ws w" "list_all js_ws w'" using fi [OF i] by blast
    have "list_name (names ! i)" using assms i by simp
    then show ?thesis using w comma_not_ws [OF w(2)] comma_not_ws [OF w(3)]
      by (simp add: list_name_def trim_prepend trim_append)
  qed
  have "split_on (CHR '','') (join '','' (map f [0..<length names])) = map f [0..<length names]"
    by (rule split_on_join) (use False c in auto)
  then have "listNames (join '','' (spaced_names continued raw names)) = filter (\<lambda>n. n \<noteq> []) (map trim (map f [0..<length names]))"
    by (simp add: listNames_def f)
  also have "map trim (map f [0..<length names]) = names"
    using c by (intro nth_equalityI) auto
  finally show ?thesis using assms by (simp add: filter_id_conv list_name_def)
qed

lemma spaced_chars:
  "set (join '','' (spaced_names continued raw names)) \<subseteq> set '','' \<union> ({CHR '' ''} \<union> \<Union>(set ` set raw) \<inter> Collect js_ws \<union> \<Union>(set ` set names))"
proof -
  obtain f where f: "spaced_names continued raw names = map f [0..<length names]"
    and fi: "\<And>i. i < length names \<Longrightarrow> \<exists>w w'. f i = w @ names ! i @ w' \<and> list_all js_ws w \<and> list_all js_ws w'
        \<and> set w \<union> set w' \<subseteq> insert (CHR '' '') (\<Union>(set ` set raw))"
    using spaced_names_shape [of continued raw names] by blast
  let ?N = "\<Union>(set ` set names)" and ?R = "\<Union>(set ` set raw)"
  have fs: "set (f i) \<subseteq> {CHR '' ''} \<union> ?R \<inter> Collect js_ws \<union> ?N" if i: "i < length names" for i
  proof -
    obtain w w' where w: "f i = w @ names ! i @ w'" "list_all js_ws w" "list_all js_ws w'" "set w \<union> set w' \<subseteq> insert (CHR '' '') ?R"
      using fi [OF i] by blast
    have "set w \<union> set w' \<subseteq> Collect js_ws" using w(2,3) by (auto simp: list_all_iff)
    then have "set w \<union> set w' \<subseteq> {CHR '' ''} \<union> ?R \<inter> Collect js_ws" using w(4) by blast
    moreover have "set (names ! i) \<subseteq> ?N" using i by (meson UN_upper nth_mem)
    moreover have "set (f i) = set w \<union> set (names ! i) \<union> set w'" by (simp add: w(1) Un_assoc)
    ultimately show ?thesis by blast
  qed
  have "\<Union>(set ` set (map f [0..<length names])) \<subseteq> {CHR '' ''} \<union> ?R \<inter> Collect js_ws \<union> ?N"
    using fs by (simp add: UN_subset_iff)
  then show ?thesis unfolding f by (rule order_trans [OF join_chars Un_mono [OF order_refl]])
qed

section \<open>One key\<close>

text \<open>A line with a key, taken apart: indentation, the key, and what follows the equals sign.\<close>

definition keyed :: "string \<Rightarrow> string \<Rightarrow> string \<Rightarrow> string \<Rightarrow> bool" where
  "keyed line sp key rest \<longleftrightarrow> line = sp @ key @ CHR ''='' # rest \<and> list_all isIniSpace sp \<and> CHR ''='' \<notin> set key
     \<and> key \<noteq> [] \<and> \<not> isIniSpace (hd key) \<and> hd key \<noteq> CHR ''#'' \<and> hd key \<noteq> CHR ''[''"

text \<open>The value the engine takes from what follows.\<close>

definition raw_value :: "string \<Rightarrow> string" where
  "raw_value body =
     (case body of
        [] \<Rightarrow> []
      | c # cs \<Rightarrow> if is_quote c \<and> takeWhile (\<lambda>d. d \<noteq> c) cs \<noteq> [] then takeWhile (\<lambda>d. d \<noteq> c) cs
                  else takeWhile (\<lambda>d. \<not> starts_comment d) (c # cs))"

definition text_value :: "string \<Rightarrow> string" where
  "text_value body = (if empty_quotes (iniTrim (raw_value body)) then [] else iniTrim (raw_value body))"

definition body_of :: "string \<Rightarrow> string" where
  "body_of rest = dropWhile isIniSpace rest"

lemma up_to:
  "d \<notin> set s \<Longrightarrow> takeWhile (\<lambda>c. c \<noteq> d) (s @ d # t) = s"
  "d \<notin> set s \<Longrightarrow> dropWhile (\<lambda>c. c \<noteq> d) (s @ d # t) = d # t"
  by (induction s) auto

lemma keyed_kind:
  assumes "keyed line sp key rest"
  shows "kind_of (iniTrim line) = Key (iniTrim key) (text_value (trimIniEnd (body_of rest)))"
proof -
  have line: "line = sp @ key @ CHR ''='' # rest" and sp: "list_all isIniSpace sp" and key: "CHR ''='' \<notin> set key" "key \<noteq> []"
    "\<not> isIniSpace (hd key)" "hd key \<noteq> CHR ''#''" "hd key \<noteq> CHR ''[''"
    using assms by (auto simp: keyed_def)
  obtain k ks where k: "key = k # ks" using key(2) by (cases key) auto
  have t: "iniTrim line = key @ CHR ''='' # trimIniEnd rest"
  proof -
    have "iniTrim line = trimIniEnd (key @ CHR ''='' # rest)"
      using sp key(3) k by (simp add: line iniTrim_prepend_blank) (simp add: iniTrim_def)
    also have "\<dots> = (key @ [CHR ''='']) @ trimIniEnd rest"
    proof (cases "list_all isIniSpace rest")
      case True
      then have "trimIniEnd rest = []" by (simp add: trimIniEnd_blank)
      then show ?thesis using True trimIniEnd_append [of "key @ [CHR ''='']" rest] trimIniEnd_append [of key "[CHR ''='']"]
        by (simp add: ini_space_chars) (simp add: trimIniEnd_def ini_space_chars)
    next
      case False
      then show ?thesis using trimIniEnd_append [of "key @ [CHR ''='']" rest] by simp
    qed
    finally show ?thesis by simp
  qed
  have tk: "takeWhile (\<lambda>c. c \<noteq> CHR ''='') (key @ CHR ''='' # trimIniEnd rest) = key"
    "dropWhile (\<lambda>c. c \<noteq> CHR ''='') (key @ CHR ''='' # trimIniEnd rest) = CHR ''='' # trimIniEnd rest"
    using key(1) by (simp_all add: up_to)
  have "parseKeyValue (key @ CHR ''='' # trimIniEnd rest) = Some (key, raw_value (trimIniEnd (body_of rest)))"
    using key(2) by (auto simp: parseKeyValue_def Let_def tk raw_value_def dropWhile_trimIniEnd body_of_def split: list.splits)
  then show ?thesis using key(4,5) by (simp add: t kind_of_def k text_value_def Let_def)
qed

lemma parse_key:
  assumes "parseKeyValue line = Some (k, v)"
  shows "k = takeWhile (\<lambda>c. c \<noteq> CHR ''='') line \<and> k \<noteq> [] \<and> dropWhile (\<lambda>c. c \<noteq> CHR ''='') line \<noteq> []"
proof (cases "dropWhile (\<lambda>c. c \<noteq> CHR ''='') line")
  case Nil
  show ?thesis using assms unfolding parseKeyValue_def Let_def Nil by simp
next
  case (Cons e es)
  define t where "t = takeWhile (\<lambda>c. c \<noteq> CHR ''='') line"
  have "k = t \<and> t \<noteq> []"
    using assms unfolding parseKeyValue_def Let_def Cons t_def [symmetric] by (auto split: list.splits if_splits)
  then show ?thesis by (simp only: t_def Cons) simp
qed

lemma server_keyed:
  assumes "kind_of (iniTrim line) = Key k v" "lower k = ''server''"
  obtains sp key rest where "keyed line sp key rest" "k = iniTrim key"
proof -
  define P where "P = dropWhile isIniSpace line"
  have t: "iniTrim line = trimIniEnd P" by (simp add: iniTrim_def P_def)
  obtain kk vv where p: "parseKeyValue (trimIniEnd P) = Some (kk, vv)" "k = iniTrim kk"
    using assms(1) by (auto simp: kind_of_def t Let_def split: list.splits if_splits option.splits prod.splits)
  have kk: "kk = takeWhile (\<lambda>c. c \<noteq> CHR ''='') (trimIniEnd P)" "kk \<noteq> []"
    "dropWhile (\<lambda>c. c \<noteq> CHR ''='') (trimIniEnd P) \<noteq> []"
    using parse_key [OF p(1)] by blast+
  obtain z where z: "P = trimIniEnd P @ z" by (rule trimIniEnd_split)
  obtain e es where D: "dropWhile (\<lambda>c. c \<noteq> CHR ''='') (trimIniEnd P) = e # es" using kk(3) by (meson neq_Nil_conv)
  have e: "e = CHR ''=''" using D by (simp add: dropWhile_eq_Cons_conv)
  define rest where "rest = es @ z"
  have tp: "trimIniEnd P = kk @ CHR ''='' # es" using takeWhile_dropWhile_id [of "\<lambda>c. c \<noteq> CHR ''=''" "trimIniEnd P"] by (simp only: D e kk(1))
  have P: "P = kk @ CHR ''='' # rest" using z unfolding tp rest_def by simp
  have hdP: "\<not> isIniSpace (hd kk)"
  proof -
    have "P \<noteq> []" using P by simp
    then have "\<not> isIniSpace (hd P)" unfolding P_def by (rule hd_dropWhile)
    then show ?thesis using P kk(2) by simp
  qed
  obtain c cs where c: "kk = c # cs" using kk(2) by (cases kk) auto
  have "iniTrim kk = c # tl (iniTrim kk)"
  proof -
    have "trimIniEnd (c # cs) = c # trimIniEnd cs \<or> trimIniEnd (c # cs) = [c]"
      using hdP c trimIniEnd_append [of "[c]" cs] by (auto simp: trimIniEnd_def)
    then show ?thesis using hdP c by (auto simp: iniTrim_def)
  qed
  then have "lower_char c = CHR ''s''" using assms(2) p(2) by (metis (no_types, lifting) lower_def list.inject list.simps(9))
  then have cne: "c \<noteq> CHR ''#''" "c \<noteq> CHR ''[''" by (auto simp: lower_char_def)
  have eq: "CHR ''='' \<notin> set kk" using kk(1) by (metis (mono_tags, lifting) set_takeWhileD)
  have "line = takeWhile isIniSpace line @ kk @ CHR ''='' # rest" using P by (metis P_def takeWhile_dropWhile_id)
  moreover have "list_all isIniSpace (takeWhile isIniSpace line)" by (auto simp: list_all_iff dest: set_takeWhileD)
  ultimately have "keyed line (takeWhile isIniSpace line) kk rest" using eq hdP c cne by (simp add: keyed_def)
  then show thesis using p(2) by (rule that)
qed

lemma comment_not_space: "starts_comment d \<Longrightarrow> \<not> isIniSpace d"
  by (auto simp: starts_comment_def ini_space_chars)

lemma quote_not_space: "is_quote d \<Longrightarrow> \<not> isIniSpace d"
  by (auto simp: is_quote_def ini_space_chars)

lemma quote_not_comment: "is_quote d \<Longrightarrow> \<not> starts_comment d"
  by (auto simp: is_quote_def starts_comment_def)

lemma blank_not_comment: "list_all isIniSpace s \<Longrightarrow> d \<in> set s \<Longrightarrow> \<not> starts_comment d"
  using comment_not_space by (auto simp: list_all_iff)

lemma blank_trimmed: "list_all isIniSpace s \<Longrightarrow> list_all isIniSpace (trimIniEnd s)"
  by (metis list.pred_inject(1) trimIniEnd_blank)

lemma trimIniEnd_subset: "set (trimIniEnd s) \<subseteq> set s"
  by (auto simp: trimIniEnd_def dest: set_dropWhileD)

text \<open>Without quotes the value goes up to the comment; within them, up to the closing one.\<close>

lemma text_value_plain:
  assumes "\<forall>d \<in> set v. \<not> is_quote d \<and> \<not> starts_comment d" "after = [] \<or> starts_comment (hd after)"
  shows "text_value (trimIniEnd (body_of (v @ after))) = iniTrim v"
proof -
  let ?nc = "\<lambda>d. \<not> starts_comment d"
  have no_quotes: "\<not> empty_quotes (iniTrim v)"
  proof -
    have "set (iniTrim v) \<subseteq> set v" using trimIniEnd_subset [of "dropWhile isIniSpace v"]
      by (auto simp: iniTrim_def dest: set_dropWhileD)
    then show ?thesis using assms(1) by (fastforce simp: empty_quotes_def is_quote_def)
  qed
  have after: "takeWhile ?nc after = []" using assms(2) by (cases after) auto
  show ?thesis
  proof (cases "list_all isIniSpace v")
    case True
    have "body_of (v @ after) = body_of after" using True by (auto simp: body_of_def list_all_iff intro: dropWhile_append2)
    also have "body_of after = after" using assms(2) by (cases after) (auto simp: body_of_def comment_not_space)
    finally have b: "body_of (v @ after) = after" .
    have "raw_value (trimIniEnd after) = []"
    proof (cases after)
      case (Cons c cs)
      then have c: "starts_comment c" using assms(2) by simp
      then have "trimIniEnd after = c # trimIniEnd cs \<or> trimIniEnd after = [c]"
        using Cons trimIniEnd_append [of "[c]" cs] comment_not_space [OF c] by (auto simp: trimIniEnd_def)
      then show ?thesis using c quote_not_comment by (auto simp: raw_value_def)
    qed (simp add: raw_value_def)
    moreover have "iniTrim v = []" using True by (simp add: iniTrim_blank)
    ultimately show ?thesis by (simp add: b text_value_def)
  next
    case False
    define w where "w = dropWhile isIniSpace v"
    have wne: "w \<noteq> []" using False by (auto simp: w_def dropWhile_eq_Nil_conv list_all_iff)
    have wset: "set w \<subseteq> set v" by (auto simp: w_def dest: set_dropWhileD)
    have whd: "\<not> is_quote (hd w)" using assms(1) wset wne by (meson hd_in_set subsetD)
    have wnb: "\<not> list_all isIniSpace w" using wne hd_dropWhile [of isIniSpace v] hd_in_set [OF wne] unfolding w_def list_all_iff by blast
    have b: "body_of (v @ after) = w @ after"
    proof -
      obtain x where "x \<in> set v" "\<not> isIniSpace x" using False by (auto simp: list_all_iff)
      then show ?thesis by (simp add: body_of_def w_def dropWhile_append1)
    qed
    have wnc: "\<forall>d \<in> set w. ?nc d" using assms(1) wset by blast
    have raw: "raw_value (trimIniEnd (w @ after)) = takeWhile ?nc (trimIniEnd (w @ after))"
      and tw: "iniTrim (takeWhile ?nc (trimIniEnd (w @ after))) = iniTrim w"
    proof -
      have "trimIniEnd (w @ after) = (if after = [] then trimIniEnd w else w @ trimIniEnd after)"
        using assms(2) comment_not_space trimIniEnd_append [of w after] by (cases after) auto
      moreover have tne: "trimIniEnd w \<noteq> []" using wnb by (simp add: trimIniEnd_blank)
      moreover have "hd (trimIniEnd w) = hd w" using tne trimIniEnd_split [of w] by (metis hd_append2)
      ultimately have hd: "trimIniEnd (w @ after) \<noteq> []" "hd (trimIniEnd (w @ after)) = hd w" using wne by (auto simp: hd_append2)
      then obtain c cs where "trimIniEnd (w @ after) = c # cs" "c = hd w" by (metis hd_Cons_tl)
      then show "raw_value (trimIniEnd (w @ after)) = takeWhile ?nc (trimIniEnd (w @ after))"
        using whd by (simp add: raw_value_def)
      show "iniTrim (takeWhile ?nc (trimIniEnd (w @ after))) = iniTrim w"
      proof (cases after)
        case Nil
        have "takeWhile ?nc (trimIniEnd w) = trimIniEnd w" using wnc trimIniEnd_subset [of w] by (intro takeWhile_eq_all_conv [THEN iffD2]) blast
        then show ?thesis using Nil by (metis append_Nil2 iniTrim_trimIniEnd)
      next
        case (Cons c cs)
        then have c: "starts_comment c" using assms(2) by simp
        have "trimIniEnd after = c # trimIniEnd cs \<or> trimIniEnd after = [c]"
          using Cons trimIniEnd_append [of "[c]" cs] comment_not_space [OF c] by (auto simp: trimIniEnd_def)
        then have "takeWhile ?nc (trimIniEnd after) = []" using c by auto
        moreover have "\<not> list_all isIniSpace after" using Cons c comment_not_space by simp
        ultimately show ?thesis using wnc by (simp add: trimIniEnd_append takeWhile_append2 takeWhile_append)
      qed
    qed
    have "iniTrim w = iniTrim v" by (simp add: w_def iniTrim_def)
    then show ?thesis using no_quotes by (simp add: text_value_def b raw tw)
  qed
qed

lemma text_value_quoted:
  assumes "is_quote c" "c \<notin> set v" "list_all isIniSpace (takeWhile (\<lambda>d. \<not> starts_comment d) after)"
  shows "text_value (trimIniEnd (body_of (c # v @ c # after))) = (if empty_quotes (iniTrim v) then [] else iniTrim v)"
proof -
  let ?nc = "\<lambda>d. \<not> starts_comment d"
  have b: "body_of (c # v @ c # after) = c # v @ c # after" using quote_not_space [OF assms(1)] by (simp add: body_of_def)
  have "trimIniEnd ((c # v @ [c]) @ after) = (c # v @ [c]) @ trimIniEnd after"
  proof (cases "list_all isIniSpace after")
    case True
    then have "trimIniEnd after = []" by (simp add: trimIniEnd_blank)
    moreover have "trimIniEnd (c # v @ [c]) = c # v @ [c]"
      using quote_not_space [OF assms(1)] trimIniEnd_append [of "c # v" "[c]"] by (simp add: trimIniEnd_def)
    ultimately show ?thesis using True trimIniEnd_append [of "c # v @ [c]" after] by simp
  next
    case False
    then show ?thesis by (simp only: trimIniEnd_append if_False)
  qed
  then have t: "trimIniEnd (c # v @ c # after) = c # v @ c # trimIniEnd after" by simp
  show ?thesis
  proof (cases "v = []")
    case False
    then have "raw_value (c # v @ c # trimIniEnd after) = v"
      using assms(1,2) by (simp add: raw_value_def up_to)
    then show ?thesis by (simp add: b t text_value_def)
  next
    case True
    obtain z where z: "after = trimIniEnd after @ z" by (rule trimIniEnd_split)
    have "list_all isIniSpace (takeWhile ?nc (trimIniEnd after))"
    proof -
      have "set (takeWhile ?nc (trimIniEnd after)) \<subseteq> set (takeWhile ?nc (trimIniEnd after @ z))"
        by (cases "\<forall>x \<in> set (trimIniEnd after). ?nc x") (auto simp: takeWhile_append dest: set_takeWhileD)
      then show ?thesis using assms(3) z by (auto simp: list_all_iff)
    qed
    moreover have "raw_value (c # c # trimIniEnd after) = c # c # takeWhile ?nc (trimIniEnd after)"
      using quote_not_comment [OF assms(1)] by (simp add: raw_value_def)
    moreover have "iniTrim ([c, c] @ s) = [c, c]" if "list_all isIniSpace s" for s
    proof -
      have "iniTrim ([c, c] @ s) = iniTrim [c, c]" by (rule iniTrim_append_blank [OF that])
      also have "\<dots> = [c, c]" using quote_not_space [OF assms(1)] by (simp add: iniTrim_def trimIniEnd_def)
      finally show ?thesis .
    qed
    moreover have "empty_quotes [c, c]" using assms(1) by (auto simp: is_quote_def empty_quotes_def)
    ultimately have "text_value (c # c # trimIniEnd after) = []" by (simp add: text_value_def)
    then show ?thesis using True b t by simp
  qed
qed

section \<open>The edit of one key\<close>

text \<open>A value the edit can be trusted with: no stray quotes or backslashes in the list, and nothing but a
  comment after a closing quote.\<close>

definition tidy_text :: "string \<Rightarrow> bool" where
  "tidy_text body =
     (case body of
        [] \<Rightarrow> True
      | c # cs \<Rightarrow>
          if is_quote c
          then c \<in> set cs \<and> list_all (\<lambda>d. \<not> is_quote d \<and> d \<noteq> CHR 0x5C) (takeWhile (\<lambda>d. d \<noteq> c) cs)
               \<and> list_all isIniSpace (takeWhile (\<lambda>d. \<not> starts_comment d) (tl (dropWhile (\<lambda>d. d \<noteq> c) cs)))
          else list_all (\<lambda>d. \<not> is_quote d \<and> d \<noteq> CHR 0x5C) (takeWhile (\<lambda>d. \<not> starts_comment d) body))"

definition tidy_line :: "string \<Rightarrow> bool" where
  "tidy_line line = tidy_text (body_of (tl (dropWhile (\<lambda>c. c \<noteq> CHR ''='') line)))"

text \<open>A name that can be put on a list.\<close>

definition proper_name :: "string \<Rightarrow> bool" where
  "proper_name n \<longleftrightarrow> list_name n \<and> list_all (\<lambda>d. \<not> is_quote d \<and> \<not> starts_comment d \<and> d \<noteq> CHR 0x5C) n"

text \<open>The line around its list: \<open>fits\<close> says that another list in its place is read as such.\<close>

definition frame :: "string \<Rightarrow> string \<Rightarrow> string \<Rightarrow> string \<Rightarrow> bool" where
  "frame before value after key \<longleftrightarrow>
     (\<forall>v. list_all (\<lambda>d. \<not> is_quote d \<and> d \<noteq> CHR 0x5C \<and> (starts_comment d \<longrightarrow> d \<in> set value)) v \<longrightarrow>
        kind_of (iniTrim (before @ v @ after)) = Key key (iniTrim v))
     \<and> \<not> last_is (CHR 0x5C) (trimIniEnd before) \<and> \<not> list_all isIniSpace before
     \<and> list_all (\<lambda>d. \<not> is_quote d \<and> d \<noteq> CHR 0x5C) value"

lemma no_quotes_trim:
  assumes "list_all (\<lambda>d. \<not> is_quote d \<and> P d) v"
  shows "\<not> empty_quotes (iniTrim v)"
proof -
  have "set (iniTrim v) \<subseteq> set v" using trimIniEnd_subset [of "dropWhile isIniSpace v"]
    by (auto simp: iniTrim_def dest: set_dropWhileD)
  then show ?thesis using assms by (fastforce simp: empty_quotes_def is_quote_def list_all_iff)
qed

lemma split_value_keyed:
  assumes k: "keyed line sp key rest"
  shows "split_value line =
    (let spaced = sp @ key @ [CHR ''=''] @ takeWhile isIniSpace rest
     in case body_of rest of
          [] \<Rightarrow> (spaced, [], [])
        | c # cs \<Rightarrow> if is_quote c then (spaced @ [c], takeWhile (\<lambda>d. d \<noteq> c) cs, dropWhile (\<lambda>d. d \<noteq> c) cs)
                    else (spaced, takeWhile (\<lambda>d. \<not> starts_comment d) (c # cs), dropWhile (\<lambda>d. \<not> starts_comment d) (c # cs)))"
proof -
  have "CHR ''='' \<notin> set (sp @ key)" using k by (auto simp: keyed_def list_all_iff ini_space_chars)
  then have "takeWhile (\<lambda>c. c \<noteq> CHR ''='') line = sp @ key" "dropWhile (\<lambda>c. c \<noteq> CHR ''='') line = CHR ''='' # rest"
    using k up_to [of "CHR ''=''" "sp @ key" rest] by (simp_all add: keyed_def)
  then show ?thesis by (simp add: split_value_def body_of_def)
qed

lemma tidy_line_keyed:
  assumes k: "keyed line sp key rest"
  shows "tidy_line line = tidy_text (body_of rest)"
proof -
  have "CHR ''='' \<notin> set (sp @ key)" using k by (auto simp: keyed_def list_all_iff ini_space_chars)
  then have "dropWhile (\<lambda>c. c \<noteq> CHR ''='') line = CHR ''='' # rest"
    using k up_to(2) [of "CHR ''=''" "sp @ key" rest] by (simp add: keyed_def)
  then show ?thesis by (simp add: tidy_line_def)
qed

lemma split_value_frame:
  assumes k: "keyed line sp key rest" and tidy: "tidy_line line"
    and split: "split_value line = (before, value, after)"
  shows "frame before value after (iniTrim key) \<and> line = before @ value @ after"
proof -
  let ?sp = "takeWhile isIniSpace rest"
  let ?nc = "\<lambda>d. \<not> starts_comment d"
  have sp: "list_all isIniSpace ?sp" by (auto simp: list_all_iff dest: set_takeWhileD)
  have rest: "rest = ?sp @ body_of rest" by (simp add: body_of_def)
  have body_sp: "body_of (?sp @ s) = body_of s" for s
    using sp by (auto simp: body_of_def list_all_iff intro: dropWhile_append2)
  have line: "line = sp @ key @ CHR ''='' # rest" using k by (simp add: keyed_def)
  have keyed: "keyed (sp @ key @ [CHR ''=''] @ r) sp key r" for r using k by (simp add: keyed_def)
  have tidy': "tidy_text (body_of rest)" using tidy tidy_line_keyed [OF k] by simp
  have ends: "\<not> last_is (CHR 0x5C) (trimIniEnd (sp @ key @ [CHR ''=''] @ ?sp))" "\<not> list_all isIniSpace (sp @ key @ [CHR ''=''] @ s)" for s
    using trimIniEnd_append [of "sp @ key @ [CHR ''='']" ?sp] sp trimIniEnd_append [of "sp @ key" "[CHR ''='']"]
    by (auto simp: last_is_def ini_space_chars trimIniEnd_def)
  note sv = split [unfolded split_value_keyed [OF k] Let_def]
  consider (none) "body_of rest = []" | (quoted) c cs where "body_of rest = c # cs" "is_quote c"
    | (plain) c cs where "body_of rest = c # cs" "\<not> is_quote c" by (cases "body_of rest") auto
  then show ?thesis
  proof cases
    case none
    then have b: "before = sp @ key @ [CHR ''=''] @ ?sp" "value = []" "after = []" using sv by auto
    have "kind_of (iniTrim (before @ v @ after)) = Key (iniTrim key) (iniTrim v)"
      if v: "list_all (\<lambda>d. \<not> is_quote d \<and> d \<noteq> CHR 0x5C \<and> (starts_comment d \<longrightarrow> d \<in> set value)) v" for v
    proof -
      have "kind_of (iniTrim (before @ v @ after)) = Key (iniTrim key) (text_value (trimIniEnd (body_of (v @ []))))"
        using keyed_kind [OF keyed, of "?sp @ v"] by (simp add: b body_sp)
      also have "text_value (trimIniEnd (body_of (v @ []))) = iniTrim v"
        by (rule text_value_plain) (use v b in \<open>auto simp: list_all_iff\<close>)
      finally show ?thesis .
    qed
    then show ?thesis using ends rest none by (auto simp: frame_def b line)
  next
    case plain
    let ?body = "body_of rest"
    have b: "before = sp @ key @ [CHR ''=''] @ ?sp" "value = takeWhile ?nc ?body" "after = dropWhile ?nc ?body"
      using sv plain by auto
    have aft: "after = [] \<or> starts_comment (hd after)" using hd_dropWhile [of ?nc ?body] by (auto simp: b)
    have "kind_of (iniTrim (before @ v @ after)) = Key (iniTrim key) (iniTrim v)"
      if v: "list_all (\<lambda>d. \<not> is_quote d \<and> d \<noteq> CHR 0x5C \<and> (starts_comment d \<longrightarrow> d \<in> set value)) v" for v
    proof -
      have "kind_of (iniTrim (before @ v @ after)) = Key (iniTrim key) (text_value (trimIniEnd (body_of (v @ after))))"
        using keyed_kind [OF keyed, of "?sp @ v @ after"] by (simp add: b(1) body_sp)
      also have "text_value (trimIniEnd (body_of (v @ after))) = iniTrim v"
        by (rule text_value_plain) (use v b aft in \<open>auto simp: list_all_iff dest: set_takeWhileD\<close>)
      finally show ?thesis .
    qed
    moreover have "list_all (\<lambda>d. \<not> is_quote d \<and> d \<noteq> CHR 0x5C) value" using tidy' plain by (simp add: tidy_text_def b(2))
    moreover have "line = before @ value @ after" using rest by (simp add: line b)
    ultimately show ?thesis using ends by (simp add: frame_def b(1))
  next
    case quoted
    have b: "before = sp @ key @ [CHR ''=''] @ ?sp @ [c]" "value = takeWhile (\<lambda>d. d \<noteq> c) cs" "after = dropWhile (\<lambda>d. d \<noteq> c) cs"
      using sv quoted by auto
    have c: "c \<in> set cs" and vq: "list_all (\<lambda>d. \<not> is_quote d \<and> d \<noteq> CHR 0x5C) value"
      and bl: "list_all isIniSpace (takeWhile ?nc (tl after))"
      using tidy' quoted by (simp_all add: tidy_text_def b)
    obtain tail where t: "after = c # tail"
    proof -
      have "after \<noteq> []" using c by (auto simp: b dropWhile_eq_Nil_conv)
      moreover have "hd after = c" using calculation hd_dropWhile [of "\<lambda>d. d \<noteq> c" cs] by (simp add: b)
      ultimately show thesis using that by (metis hd_Cons_tl)
    qed
    have "kind_of (iniTrim (before @ v @ after)) = Key (iniTrim key) (iniTrim v)"
      if v: "list_all (\<lambda>d. \<not> is_quote d \<and> d \<noteq> CHR 0x5C \<and> (starts_comment d \<longrightarrow> d \<in> set value)) v" for v
    proof -
      have "kind_of (iniTrim (before @ v @ after)) = Key (iniTrim key) (text_value (trimIniEnd (body_of (c # v @ c # tail))))"
        using keyed_kind [OF keyed, of "?sp @ c # v @ c # tail"] by (simp add: b(1) body_sp t)
      also have "text_value (trimIniEnd (body_of (c # v @ c # tail))) = (if empty_quotes (iniTrim v) then [] else iniTrim v)"
        by (rule text_value_quoted) (use v quoted bl t in \<open>auto simp: list_all_iff\<close>)
      also have "\<dots> = iniTrim v" using no_quotes_trim [OF v] by simp
      finally show ?thesis .
    qed
    moreover have "line = before @ value @ after" using rest quoted by (simp add: line b)
    moreover have "\<not> last_is (CHR 0x5C) (trimIniEnd before)"
      using trimIniEnd_append [of "sp @ key @ [CHR ''=''] @ ?sp" "[c]"] quote_not_space [OF quoted(2)] quoted(2)
      by (auto simp: b last_is_def is_quote_def trimIniEnd_def)
    ultimately show ?thesis using vq ends(2) [of "?sp @ [c]"] by (simp add: frame_def b(1))
  qed
qed

text \<open>The rewritten line is read with the edited names.\<close>

lemma edited_value:
  assumes fr: "frame before vl after key" and edit: "\<forall>n \<in> set (edit (listNames vl)). n \<in> set (listNames vl) \<or> proper_name n"
    and raw: "raw = (if trim vl = [] then [] else split_on (CHR '','') (trim vl))"
    and nv: "nv = leading_ws vl @ trimEnd (join '','' (spaced_names continued raw (edit (listNames vl))))
                  @ (if trim vl = [] then [] else trailing_ws vl)"
  shows "kind_of (iniTrim (before @ nv @ after)) = Key key (iniTrim nv) \<and> listNames (iniTrim nv) = edit (listNames vl)
    \<and> CHR 0x5C \<notin> set nv"
proof -
  let ?names = "edit (listNames vl)"
  let ?j = "join '','' (spaced_names continued raw ?names)"
  have ln: "\<forall>n \<in> set ?names. list_name n" using edit listNames_names by (auto simp: proper_name_def)
  have names: "listNames nv = ?names"
    using ws_parts [of vl]
    by (simp add: nv listNames_prepend listNames_append listNames_trimEnd listNames_spaced [OF ln])
  have vq: "list_all (\<lambda>d. \<not> is_quote d \<and> d \<noteq> CHR 0x5C) vl" using fr by (simp add: frame_def)
  have rawset: "\<Union>(set ` set raw) \<subseteq> set vl"
  proof -
    have "set s \<subseteq> set vl" if "s \<in> set raw" for s
      using that split_on_parts [of s "CHR '',''" "trim vl"] set_trim [of vl] by (auto simp: raw split: if_splits)
    then show ?thesis by (simp add: UN_subset_iff)
  qed
  have nameset: "d \<in> set vl \<or> \<not> is_quote d \<and> \<not> starts_comment d \<and> d \<noteq> CHR 0x5C" if "d \<in> set n" "n \<in> set ?names" for d n
    using edit that listNames_names [of n vl] by (auto simp: proper_name_def list_all_iff)
  have jset: "d \<in> set vl \<or> \<not> is_quote d \<and> \<not> starts_comment d \<and> d \<noteq> CHR 0x5C" if d: "d \<in> set ?j" for d
  proof -
    have "d \<in> set '','' \<union> ({CHR '' ''} \<union> \<Union>(set ` set raw) \<inter> Collect js_ws \<union> \<Union>(set ` set ?names))"
      using spaced_chars d by (rule subsetD)
    then consider "d = CHR '',''" | "d = CHR '' ''" | "d \<in> set vl" | n where "d \<in> set n" "n \<in> set ?names"
      using rawset by auto
    then show ?thesis using nameset by cases (auto simp: is_quote_def starts_comment_def)
  qed
  have sets: "set (trimEnd s) \<subseteq> set s" "set (leading_ws s) \<subseteq> set s" "set (trailing_ws s) \<subseteq> set s" for s
    by (auto simp: trimEnd_def leading_ws_def trailing_ws_def dest: set_dropWhileD set_takeWhileD)
  have "d \<in> set vl \<or> \<not> is_quote d \<and> \<not> starts_comment d \<and> d \<noteq> CHR 0x5C" if "d \<in> set nv" for d
    using that jset [of d] sets(1) [of ?j] sets(2,3) [of vl] by (auto simp: nv split: if_splits)
  then have v: "list_all (\<lambda>d. \<not> is_quote d \<and> d \<noteq> CHR 0x5C \<and> (starts_comment d \<longrightarrow> d \<in> set vl)) nv"
    using vq by (auto simp: list_all_iff)
  then have "kind_of (iniTrim (before @ nv @ after)) = Key key (iniTrim nv)" using fr by (simp add: frame_def)
  moreover have "CHR 0x5C \<notin> set nv" using v by (auto simp: list_all_iff)
  ultimately show ?thesis using names by (simp add: listNames_iniTrim)
qed

lemma no_backslash_end:
  assumes "frame before vl after key" "\<not> last_is (CHR 0x5C) (trimIniEnd (before @ vl @ after))" "CHR 0x5C \<notin> set nv"
  shows "\<not> last_is (CHR 0x5C) (trimIniEnd (before @ nv @ after))"
proof (cases "list_all isIniSpace after")
  case False
  then show ?thesis using assms(2) trimIniEnd_append [of "before @ vl" after] trimIniEnd_append [of "before @ nv" after]
    by (auto simp: last_is_def trimIniEnd_blank split: if_splits)
next
  case True
  then have t: "trimIniEnd (before @ nv @ after) = trimIniEnd (before @ nv)" using trimIniEnd_append [of "before @ nv" after] by simp
  show ?thesis
  proof (cases "list_all isIniSpace nv")
    case True
    then show ?thesis using assms(1) t trimIniEnd_append [of before nv] by (simp add: frame_def)
  next
    case False
    then have ne: "trimIniEnd nv \<noteq> []" by (simp add: trimIniEnd_blank)
    then have "last (trimIniEnd nv) \<in> set nv" using trimIniEnd_subset by (meson last_in_set subsetD)
    then have "last (before @ trimIniEnd nv) \<noteq> CHR 0x5C" using assms(3) ne by auto
    then show ?thesis using t False trimIniEnd_append [of before nv] by (simp add: last_is_def)
  qed
qed

lemma edit_one_key:
  assumes kind: "kind_of (iniTrim line) = Key k v" and server: "lower k = ''server''" and tidy: "tidy_line line"
    and last: "\<not> last_is (CHR 0x5C) (trimIniEnd line)"
    and edit: "\<forall>n \<in> set (edit (listNames v)). n \<in> set (listNames v) \<or> proper_name n"
  shows "case editServerValue line edit continued of
      None \<Rightarrow> edit (listNames v) = listNames v
    | Some rewritten \<Rightarrow> \<exists>v'. kind_of (iniTrim rewritten) = Key k v' \<and> listNames v' = edit (listNames v)
        \<and> \<not> last_is (CHR 0x5C) (trimIniEnd rewritten)"
proof -
  obtain sp key rest where kd: "keyed line sp key rest" and kk: "k = iniTrim key" by (rule server_keyed [OF kind server])
  obtain before vl after where sp: "split_value line = (before, vl, after)" by (cases "split_value line")
  have fr: "frame before vl after k" and line: "line = before @ vl @ after"
    using split_value_frame [OF kd tidy sp] kk by auto
  have "list_all (\<lambda>d. \<not> is_quote d \<and> d \<noteq> CHR 0x5C \<and> (starts_comment d \<longrightarrow> d \<in> set vl)) vl"
    using fr by (auto simp: frame_def list_all_iff)
  then have v: "v = iniTrim vl" using fr kind by (auto simp: frame_def line)
  then have ln: "listNames v = listNames vl" by (simp add: listNames_iniTrim)
  define raw where "raw = (if trim vl = [] then [] else split_on (CHR '','') (trim vl))"
  have raw_names: "filter (\<lambda>n. n \<noteq> []) (map trim raw) = listNames vl"
    using listNames_trim [of vl] by (simp add: raw_def listNames_def) (metis listNames_def listNames_Nil listNames_trim)
  define nv where "nv = leading_ws vl @ trimEnd (join '','' (spaced_names continued raw (edit (listNames vl))))
    @ (if trim vl = [] then [] else trailing_ws vl)"
  have ev: "editServerValue line edit continued = (if edit (listNames vl) = listNames vl then None else Some (before @ nv @ after))"
    by (simp add: editServerValue_def sp Let_def raw_def [symmetric] raw_names nv_def)
  from edited_value [where edit = edit, OF fr edit [unfolded ln] raw_def nv_def]
  have "kind_of (iniTrim (before @ nv @ after)) = Key k (iniTrim nv)" "listNames (iniTrim nv) = edit (listNames vl)" "CHR 0x5C \<notin> set nv"
    by auto
  moreover from no_backslash_end [OF fr last [unfolded line] this(3)]
  have "\<not> last_is (CHR 0x5C) (trimIniEnd (before @ nv @ after))" .
  ultimately show ?thesis by (simp add: ev ln)
qed

end
