(* ===== verification/ConfServerList.thy ===== *)
theory ConfServerList
  imports ConfEditFacts
begin

text \<open>
  The edit of the autostart lists of a whole file: \<open>edited\<close> says it line by line, \<open>edit_is_edited\<close> that the code
  does that, and \<open>edited_keys\<close> what the engine reads afterwards.
\<close>

section \<open>The line the edit works on\<close>

text \<open>A continued line that has no second backslash before the one it is continued with.\<close>

definition single_continuation :: "string \<Rightarrow> bool" where
  "single_continuation l \<longleftrightarrow> last_is (CHR 0x5C) (trimIniEnd l) \<longrightarrow> \<not> last_is (CHR 0x5C) (trimIniEnd (butlast (trimIniEnd l)))"

lemma logical_from_seg:
  "seg pending ls = (n, Some line) \<Longrightarrow> \<not> last_is (CHR 0x5C) (trimIniEnd pending) \<Longrightarrow> \<forall>l \<in> set ls. single_continuation l \<Longrightarrow>
    \<exists>L. logical_from i pending ls = (i + n - 1, L) \<and> iniTrim L = line \<and> \<not> last_is (CHR 0x5C) (trimIniEnd L)"
proof (induction pending ls arbitrary: n i rule: seg.induct)
  case (1 pending)
  then show ?case by simp
next
  case (2 pending l ls)
  let ?s = "trimIniEnd l" and ?a = "pending @ trimIniEnd l"
  have long: "\<not> too_long pending l" using "2.prems"(1) by (auto split: if_splits)
  obtain t where t: "l = ?s @ t" "list_all isIniSpace t" by (rule trimIniEnd_split)
  show ?case
  proof (cases "last_is (CHR 0x5C) ?a")
    case False
    then have n: "n = 1" "line = iniTrim ?a" using "2.prems"(1) long by auto
    have "\<not> last_is (CHR 0x5C) ?s" using False by (auto simp: last_is_def split: if_splits)
    then have "logical_from i pending (l # ls) = (i, pending @ l)" by simp
    moreover have "iniTrim (pending @ l) = iniTrim ?a" using t by (metis append.assoc iniTrim_append_blank)
    moreover have "\<not> last_is (CHR 0x5C) (trimIniEnd (pending @ l))"
      using "2.prems"(2) False by (simp add: trimIniEnd_append)
    ultimately show ?thesis using n by simp
  next
    case True
    then have b: "butlast ?a \<noteq> []" using "2.prems"(1) long by (auto split: if_splits)
    obtain m where m: "seg (butlast ?a) ls = (m, Some line)" "n = Suc m"
      using "2.prems"(1) long True b by (auto simp: Let_def split: prod.splits)
    have sne: "?s \<noteq> []"
    proof
      assume "?s = []"
      then have l: "pending \<noteq> []" "last pending = CHR 0x5C" using True by (auto simp: last_is_def)
      then have "rev pending = CHR 0x5C # tl (rev pending)" by (metis hd_Cons_tl hd_rev rev_is_Nil_conv)
      then have "trimIniEnd pending = pending"
        by (metis dropWhile.simps(2) ini_space_chars(1) rev_rev_ident trimIniEnd_def)
      then show False using "2.prems"(2) l by (simp add: last_is_def)
    qed
    then have sl: "last_is (CHR 0x5C) ?s" and ba: "butlast ?a = pending @ butlast ?s"
      using True by (auto simp: last_is_def butlast_append)
    have "single_continuation l" using "2.prems"(3) by simp
    then have "\<not> last_is (CHR 0x5C) (trimIniEnd (butlast ?s))" using sl by (simp add: single_continuation_def)
    then have inv: "\<not> last_is (CHR 0x5C) (trimIniEnd (butlast ?a))"
      using "2.prems"(2) by (auto simp: ba trimIniEnd_append last_is_def trimIniEnd_blank)
    have "\<exists>L. logical_from (Suc i) (butlast ?a) ls = (Suc i + m - 1, L) \<and> iniTrim L = line \<and> \<not> last_is (CHR 0x5C) (trimIniEnd L)"
      by (rule "2.IH" [OF refl long True b m(1) inv]) (use "2.prems"(3) in simp)
    then show ?thesis using sl m(2) by (simp add: ba)
  qed
qed

lemma logicalLine_seg:
  assumes "seg [] ls = (n, Some line)" "\<forall>l \<in> set ls. single_continuation l"
  obtains L where "logicalLine (pre @ ls) (length pre) = (length pre + n - 1, L)" "iniTrim L = line" "\<not> last_is (CHR 0x5C) (trimIniEnd L)"
  using logical_from_seg [OF assms(1) _ assms(2), of "length pre"] by (auto simp: logicalLine_def last_is_def)

lemma seg_single:
  "\<not> too_long [] l \<Longrightarrow> \<not> last_is (CHR 0x5C) (trimIniEnd l) \<Longrightarrow> seg [] (l # ls) = (1, Some (iniTrim l))"
  by simp

section \<open>The edit of a file\<close>

definition is_server_key :: "line_kind \<Rightarrow> string option \<Rightarrow> bool" where
  "is_server_key k cur \<longleftrightarrow> cur = Some ''service'' \<and> (case k of Key key v \<Rightarrow> lower key = ''server'' | _ \<Rightarrow> False)"

text \<open>\<open>sel\<close> are the keys to edit, by the line they start on.\<close>

function edited :: "(string list \<Rightarrow> string list) \<Rightarrow> (nat \<Rightarrow> bool) \<Rightarrow> string list \<Rightarrow> nat \<Rightarrow> string option \<Rightarrow> string list \<Rightarrow> string list" where
  "edited edit sel confdata i cur [] = []"
| "edited edit sel confdata i cur (l # ls) =
     (let (n, r) = seg [] (l # ls); k = kind_in r
      in (case (if is_server_key k cur \<and> sel i then editServerValue (snd (logicalLine confdata (i - 1))) edit (n > 1) else None) of
            None \<Rightarrow> take n (l # ls) | Some rewritten \<Rightarrow> [rewritten])
         @ edited edit sel confdata (i + n) (next_section k cur) (drop n (l # ls)))"
  by pat_completeness auto
termination
  by (relation "measure (\<lambda>(edit, sel, confdata, i, cur, ls). length ls)")
     (auto dest: seg_bounds [OF sym] simp del: seg.simps)

declare edited.simps(2) [simp del]

lemma edited_unfold:
  assumes "seg [] ls = (n, r)"
  shows "edited edit sel confdata i cur ls =
    (case (if is_server_key (kind_in r) cur \<and> sel i then editServerValue (snd (logicalLine confdata (i - 1))) edit (n > 1) else None) of
       None \<Rightarrow> take n ls | Some rewritten \<Rightarrow> [rewritten])
    @ edited edit sel confdata (i + n) (next_section (kind_in r) cur) (drop n ls)"
proof (cases ls)
  case Nil
  then show ?thesis using assms by (simp add: is_server_key_def kind_in_def)
next
  case (Cons a list)
  then show ?thesis using assms by (auto simp: edited.simps(2) Let_def simp del: seg.simps split: option.splits)
qed

definition servers :: "(string option \<times> conf_entry) list \<Rightarrow> conf_entry list" where
  "servers kes = filter is_server (keys_in (Some ''service'') kes)"

lemma servers_append [simp]: "servers (xs @ ys) = servers xs @ servers ys"
  by (simp add: servers_def)

lemma servers_key_of:
  "servers (key_of i k cur) = (if is_server_key k cur then map snd (key_of i k cur) else [])"
  by (auto simp: servers_def key_of_def keys_in_def is_server_key_def is_server_def split: line_kind.splits)

lemma edit_entry_snd: "snd (fold (edit_entry confdata edit) es res) = False \<Longrightarrow> fold (edit_entry confdata edit) es res = res"
proof (induction es arbitrary: res)
  case Nil
  then show ?case by simp
next
  case (Cons e es)
  have mono: "snd res \<Longrightarrow> snd (fold (edit_entry confdata edit) es res)" for es res
    by (induction es arbitrary: res) (auto simp: edit_entry_def Let_def split: prod.splits option.splits)
  have "edit_entry confdata edit e res = res \<or> snd (edit_entry confdata edit e res)"
    by (auto simp: edit_entry_def Let_def split: prod.splits option.splits)
  then show ?case using Cons mono by (metis fold_simps(2))
qed

lemma edit_is_edited:
  assumes sc: "\<forall>l \<in> set confdata. single_continuation l"
  shows "confdata = pre @ ls \<Longrightarrow> i = Suc (length pre) \<Longrightarrow>
    fst (fold (edit_entry confdata edit) (rev (filter (\<lambda>e. sel (ce_lineNo e)) (servers (reads i cur ls)))) (confdata, b))
      = pre @ edited edit sel confdata i cur ls"
proof (induction i cur ls arbitrary: pre rule: reads.induct)
  case (1 i cur)
  then show ?case by (simp add: servers_def)
next
  case (2 i cur l ls)
  obtain n r where s: "seg [] (l # ls) = (n, r)" by force
  let ?k = "kind_in r" and ?pre = "pre @ take n (l # ls)"
  have n: "n \<le> length (l # ls)" "0 < n" using seg_bounds [OF s] by auto
  let ?es = "rev (filter (\<lambda>e. sel (ce_lineNo e)) (servers (reads (i + n) (next_section ?k cur) (drop n (l # ls)))))"
  let ?rest = "edited edit sel confdata (i + n) (next_section ?k cur) (drop n (l # ls))"
  define res where "res = fold (edit_entry confdata edit) ?es (confdata, b)"
  have lp: "length ?pre = length pre + n" using n(1) by (simp only: length_append length_take min.absorb2)
  have res: "fst res = ?pre @ ?rest"
    unfolding res_def
  proof (rule "2.IH" [OF s [symmetric] refl])
    show "confdata = ?pre @ drop n (l # ls)" using "2.prems"(1) by (metis append.assoc append_take_drop_id)
    show "i + n = Suc (length ?pre)" using "2.prems"(2) lp by simp
  qed
  have split: "rev (filter (\<lambda>e. sel (ce_lineNo e)) (servers (reads i cur (l # ls))))
      = ?es @ rev (filter (\<lambda>e. sel (ce_lineNo e)) (servers (key_of i ?k cur)))"
    by (simp add: reads_unfold [OF s])
  show ?case
  proof (cases "is_server_key ?k cur \<and> sel i")
    case False
    then have "rev (filter (\<lambda>e. sel (ce_lineNo e)) (servers (key_of i ?k cur))) = []"
      using servers_key_of [of i ?k cur] by (auto simp: key_of_def split: line_kind.splits if_splits)
    then show ?thesis using res unfolding split edited_unfold [OF s] res_def [symmetric]
      by (simp add: res_def False)
  next
    case True
    obtain key v where kv: "?k = Key key v" using True by (auto simp: is_server_key_def split: line_kind.splits)
    obtain line where line: "r = Some line" using kv by (cases r) (auto simp: kind_in_def)
    define e where "e = \<lparr>ce_key = key, ce_value = v, ce_lineNo = i\<rparr>"
    have e: "rev (filter (\<lambda>e. sel (ce_lineNo e)) (servers (key_of i ?k cur))) = [e]"
      using True by (simp add: servers_key_of) (simp add: kv key_of_def e_def)
    have sc': "\<forall>x \<in> set (l # ls). single_continuation x" using sc "2.prems"(1) by simp
    obtain L where L: "logicalLine confdata (length pre) = (length pre + n - 1, L)"
      using logicalLine_seg [OF s [unfolded line] sc', of pre] "2.prems"(1) by metis
    have ee: "fst (edit_entry confdata edit e res) =
        (case editServerValue L edit (n > 1) of None \<Rightarrow> fst res | Some w \<Rightarrow> js_splice (length pre) n w (fst res))"
    proof -
      have "length pre + n - 1 - length pre + 1 = n" "(length pre < length pre + n - 1) = (n > 1)" using n(2) by auto
      then show ?thesis using "2.prems"(2) by (auto simp: edit_entry_def e_def L split: option.splits)
    qed
    have sp: "js_splice (length pre) n w (fst res) = pre @ [w] @ ?rest" for w
      using lp by (simp add: js_splice_def res del: drop_append) (metis append.assoc append_eq_conv_conj lp)
    have "fst (fold (edit_entry confdata edit) (?es @ [e]) (confdata, b)) = fst (edit_entry confdata edit e res)"
      by (simp add: res_def)
    also have "\<dots> = pre @ edited edit sel confdata i cur (l # ls)"
      unfolding ee edited_unfold [OF s] using True res "2.prems"(2) L sp by (auto split: option.splits)
    finally show ?thesis by (simp only: split e)
  qed
qed

section \<open>What is read afterwards\<close>

text \<open>Two readings that differ in the edited lists only.\<close>

definition server_edit ::
  "(string list \<Rightarrow> string list) \<Rightarrow> (nat \<Rightarrow> bool) \<Rightarrow> string option \<times> conf_entry \<Rightarrow> string option \<times> conf_entry \<Rightarrow> bool" where
  "server_edit edit sel p p' \<longleftrightarrow> fst p' = fst p \<and> ce_key (snd p') = ce_key (snd p) \<and>
     (if fst p = Some ''service'' \<and> is_server (snd p) \<and> sel (ce_lineNo (snd p))
      then listNames (ce_value (snd p')) = edit (listNames (ce_value (snd p)))
      else ce_value (snd p') = ce_value (snd p))"

lemma server_edit_same:
  "(is_server_key k cur \<Longrightarrow> sel i \<Longrightarrow> (\<And>key v. k = Key key v \<Longrightarrow> edit (listNames v) = listNames v)) \<Longrightarrow>
    list_all2 (server_edit edit sel) (key_of i k cur) (key_of j k cur)"
  by (auto simp: key_of_def server_edit_def is_server_key_def is_server_def split: line_kind.splits)

definition tidy_servers :: "string list \<Rightarrow> (string option \<times> conf_entry) list \<Rightarrow> bool" where
  "tidy_servers confdata kes \<longleftrightarrow> list_all (\<lambda>e. tidy_line (snd (logicalLine confdata (ce_lineNo e - 1)))) (servers kes)"

lemma edited_keys:
  assumes sc: "\<forall>l \<in> set confdata. single_continuation l"
    and edit: "\<And>names. \<forall>n \<in> set (edit names). n \<in> set names \<or> proper_name n"
  shows "confdata = pre @ ls \<Longrightarrow> i = Suc (length pre) \<Longrightarrow> tidy_servers confdata (reads i cur ls) \<Longrightarrow>
    \<forall>l \<in> set (edited edit sel confdata i cur ls). utf8Length l \<le> INI_MAX_LINE_LENGTH \<Longrightarrow>
    list_all2 (server_edit edit sel) (reads i cur ls) (reads j cur (edited edit sel confdata i cur ls))"
proof (induction i cur ls arbitrary: pre j rule: reads.induct)
  case (1 i cur)
  then show ?case by simp
next
  case (2 i cur l ls)
  obtain n r where s: "seg [] (l # ls) = (n, r)" by force
  let ?k = "kind_in r" and ?pre = "pre @ take n (l # ls)"
  have n: "n \<le> length (l # ls)" "0 < n" using seg_bounds [OF s] by auto
  let ?rest = "edited edit sel confdata (i + n) (next_section ?k cur) (drop n (l # ls))"
  define X where "X = (case (if is_server_key ?k cur \<and> sel i then editServerValue (snd (logicalLine confdata (i - 1))) edit (n > 1) else None) of
       None \<Rightarrow> take n (l # ls) | Some rewritten \<Rightarrow> [rewritten])"
  have ed: "edited edit sel confdata i cur (l # ls) = X @ ?rest" unfolding X_def by (rule edited_unfold [OF s])
  have lp: "length ?pre = length pre + n" using n(1) by (simp only: length_append length_take min.absorb2)
  have rd: "reads i cur (l # ls) = key_of i ?k cur @ reads (i + n) (next_section ?k cur) (drop n (l # ls))" by (rule reads_unfold [OF s])
  have IH: "list_all2 (server_edit edit sel) (reads (i + n) (next_section ?k cur) (drop n (l # ls))) (reads m (next_section ?k cur) ?rest)" for m
  proof (rule "2.IH" [OF s [symmetric] refl])
    show "confdata = ?pre @ drop n (l # ls)" using "2.prems"(1) by (metis append.assoc append_take_drop_id)
    show "i + n = Suc (length ?pre)" using "2.prems"(2) lp by simp
    show "tidy_servers confdata (reads (i + n) (next_section ?k cur) (drop n (l # ls)))"
      using "2.prems"(3) by (simp add: rd tidy_servers_def)
    show "\<forall>l \<in> set ?rest. utf8Length l \<le> INI_MAX_LINE_LENGTH" using "2.prems"(4) by (simp add: ed)
  qed
  have same: "list_all2 (server_edit edit sel) (reads i cur (l # ls)) (reads j cur (X @ ?rest))"
    if X: "X = take n (l # ls)" and k: "is_server_key ?k cur \<Longrightarrow> sel i \<Longrightarrow> (\<And>key v. ?k = Key key v \<Longrightarrow> edit (listNames v) = listNames v)"
  proof -
    have "seg [] (take n (l # ls) @ ?rest) = (n, r)"
      by (rule seg_take [OF s]) simp
    from reads_unfold [OF this, of j cur] have "reads j cur (X @ ?rest) = key_of j ?k cur @ reads (j + n) (next_section ?k cur) ?rest"
      using n(1) X by (simp add: min_absorb2)
    then show ?thesis using server_edit_same [of ?k cur sel i edit j] k IH by (simp add: rd list_all2_appendI)
  qed
  show ?case
  proof (cases "is_server_key ?k cur \<and> sel i")
    case False
    then show ?thesis using same unfolding ed by (auto simp: X_def)
  next
    case True
    obtain key v where kv: "?k = Key key v" "lower key = ''server''" "cur = Some ''service''"
      using True by (auto simp: is_server_key_def split: line_kind.splits)
    obtain line where line: "r = Some line" using kv by (cases r) (auto simp: kind_in_def)
    have kind: "kind_of line = Key key v" using kv(1) by (simp add: line kind_in_def)
    have sc': "\<forall>x \<in> set (l # ls). single_continuation x" using sc "2.prems"(1) by simp
    obtain L where L: "logicalLine confdata (length pre) = (length pre + n - 1, L)" "iniTrim L = line" "\<not> last_is (CHR 0x5C) (trimIniEnd L)"
      using logicalLine_seg [OF s [unfolded line] sc', of pre] "2.prems"(1) by metis
    have L': "snd (logicalLine confdata (i - 1)) = L" using L(1) "2.prems"(2) by simp
    have ss: "servers (key_of i ?k cur) = [\<lparr>ce_key = key, ce_value = v, ce_lineNo = i\<rparr>]"
      using True by (simp add: servers_key_of) (simp add: kv key_of_def)
    have tidy: "tidy_line L" using "2.prems"(3) by (simp add: rd tidy_servers_def ss L' [unfolded One_nat_def])
    note one = edit_one_key [where edit = edit, OF kind [folded L(2)] kv(2) tidy L(3) edit, of "n > 1"]
    show ?thesis
    proof (cases "editServerValue L edit (n > 1)")
      case None
      then have X: "X = take n (l # ls)" by (simp add: X_def L' [unfolded One_nat_def])
      have "edit (listNames v) = listNames v" using one None by simp
      then show ?thesis unfolding ed by (intro same [OF X]) (simp add: kv)
    next
      case (Some w)
      then have X: "X = [w]" using True by (simp add: X_def L' [unfolded One_nat_def])
      obtain v' where w: "kind_of (iniTrim w) = Key key v'" "listNames v' = edit (listNames v)" "\<not> last_is (CHR 0x5C) (trimIniEnd w)"
        using one Some by auto
      have fit: "\<not> too_long [] w"
        using "2.prems"(4) utf8Length_drop_cr [of w] by (simp add: ed X too_long_def)
      have "seg [] (w # ?rest) = (1, Some (iniTrim w))" by (rule seg_single [OF fit w(3)])
      from reads_unfold [OF this, of j cur]
      have "reads j cur (X @ ?rest) = key_of j (Key key v') cur @ reads (j + 1) cur ?rest"
        by (simp add: X kind_in_def w(1) next_section_def)
      moreover have "list_all2 (server_edit edit sel) (key_of i (Key key v) cur) (key_of j (Key key v') cur)"
        using True kv w(2) by (simp add: key_of_def server_edit_def is_server_def)
      moreover have "next_section ?k cur = cur" by (simp add: kv next_section_def)
      ultimately show ?thesis using IH [of "j + 1"] by (simp add: rd ed kv(1) list_all2_appendI)
    qed
  qed
qed

text \<open>What the engine has for a key of a section: the last one counts.\<close>

definition engine_value :: "string list \<Rightarrow> string option \<Rightarrow> string \<Rightarrow> string option" where
  "engine_value confdata name key =
     (case find (\<lambda>sec. sec_name sec = name) (fst (parseConfText confdata)) of
        None \<Rightarrow> None
      | Some sec \<Rightarrow>
          (case filter (\<lambda>e. lower (ce_key e) = key) (sec_entries sec) of
             [] \<Rightarrow> None
           | e # es \<Rightarrow> Some (ce_value (last (e # es)))))"

definition last_value :: "string \<Rightarrow> conf_entry list \<Rightarrow> string option" where
  "last_value key es = (case filter (\<lambda>e. lower (ce_key e) = key) es of [] \<Rightarrow> None | x # xs \<Rightarrow> Some (ce_value (last (x # xs))))"

lemma engine_value_keys: "engine_value confdata name key = last_value key (keys_in name (keys confdata))"
proof -
  have "engine_value confdata name key = last_value key (entries_of name (fst (parseConfText confdata)))"
    using find_section [OF parse_sections(2) [of confdata], of name]
    by (cases "find (\<lambda>sec. sec_name sec = name) (fst (parseConfText confdata))")
       (auto simp: engine_value_def last_value_def [abs_def])
  then show ?thesis by (simp add: parse_sections(1))
qed

lemma list_all2_keys_in:
  "list_all2 (server_edit edit sel) xs ys \<Longrightarrow> list_all2 (\<lambda>e e'. server_edit edit sel (name, e) (name, e')) (keys_in name xs) (keys_in name ys)"
  by (induction rule: list_all2_induct) (auto simp: keys_in_def server_edit_def)

lemma list_all2_servers:
  assumes "list_all2 (server_edit edit sel) xs ys"
  shows "list_all2 (\<lambda>e e'. listNames (ce_value e') = (if sel (ce_lineNo e) then edit (listNames (ce_value e)) else listNames (ce_value e)))
    (servers xs) (servers ys)"
  using list_all2_keys_in [OF assms, of "Some ''service''"] unfolding servers_def
  by (induction rule: list_all2_induct) (auto simp: server_edit_def is_server_def)

lemma list_all2_last: "list_all2 P xs ys \<Longrightarrow> xs \<noteq> [] \<Longrightarrow> P (last xs) (last ys)"
  by (induction rule: list_all2_induct) (auto simp: list_all2_Cons1)

lemma last_value_edit:
  assumes "list_all2 (\<lambda>e e'. server_edit edit sel (name, e) (name, e')) es es'" "name \<noteq> Some ''service'' \<or> key \<noteq> ''server''"
  shows "last_value key es' = last_value key es"
proof -
  have "list_all2 (\<lambda>e e'. ce_value e' = ce_value e) (filter (\<lambda>e. lower (ce_key e) = key) es) (filter (\<lambda>e. lower (ce_key e) = key) es')"
    using assms by (induction rule: list_all2_induct) (auto simp: server_edit_def is_server_def)
  then show ?thesis using list_all2_last
    by (fastforce simp: last_value_def split: list.splits)
qed

text \<open>The autostart list that counts, before and after.\<close>

lemma isAutostart_servers:
  "isAutostart confdata x \<longleftrightarrow> servers (keys confdata) \<noteq> [] \<and> x \<in> set (listNames (ce_value (last (servers (keys confdata)))))"
  by (simp add: isAutostart_def serverEntries_keys servers_def Let_def)

definition tidy_conf :: "string list \<Rightarrow> bool" where
  "tidy_conf confdata \<longleftrightarrow> list_all single_continuation confdata
     \<and> list_all (\<lambda>e. tidy_line (snd (logicalLine confdata (ce_lineNo e - 1)))) (serverEntries confdata)"

lemma tidy_confD:
  "tidy_conf confdata \<Longrightarrow> \<forall>l \<in> set confdata. single_continuation l"
  "tidy_conf confdata \<Longrightarrow> tidy_servers confdata (keys confdata)"
  by (simp_all add: tidy_conf_def list_all_iff tidy_servers_def serverEntries_keys servers_def)

definition within_limit :: "string list \<Rightarrow> bool" where
  "within_limit confdata \<longleftrightarrow> list_all (\<lambda>l. utf8Length l \<le> INI_MAX_LINE_LENGTH) confdata"

lemma reads_lines: "p \<in> set (reads i cur ls) \<Longrightarrow> i \<le> ce_lineNo (snd p)"
proof (induction i cur ls rule: reads.induct)
  case (1 i cur)
  then show ?case by simp
next
  case (2 i cur l ls)
  obtain n r where s: "seg [] (l # ls) = (n, r)" by force
  have "p \<in> set (key_of i (kind_in r) cur) \<or> p \<in> set (reads (i + n) (next_section (kind_in r) cur) (drop n (l # ls)))"
    using "2.prems" by (auto simp: reads_unfold [OF s])
  then show ?case
  proof
    assume "p \<in> set (key_of i (kind_in r) cur)"
    then show ?thesis by (auto simp: key_of_def split: line_kind.splits)
  next
    assume "p \<in> set (reads (i + n) (next_section (kind_in r) cur) (drop n (l # ls)))"
    from "2.IH" [OF s [symmetric] refl this] show ?thesis by simp
  qed
qed

lemma distinct_lines: "distinct (map (\<lambda>p. ce_lineNo (snd p)) (reads i cur ls))"
proof (induction i cur ls rule: reads.induct)
  case (1 i cur)
  then show ?case by simp
next
  case (2 i cur l ls)
  obtain n r where s: "seg [] (l # ls) = (n, r)" by force
  have "0 < n" using seg_bounds [OF s] by simp
  let ?rest = "reads (i + n) (next_section (kind_in r) cur) (drop n (l # ls))"
  have "i \<notin> (\<lambda>p. ce_lineNo (snd p)) ` set ?rest"
    using reads_lines [of _ "i + n" "next_section (kind_in r) cur" "drop n (l # ls)"] \<open>0 < n\<close> by fastforce
  then show ?case using "2.IH" [OF s [symmetric] refl] unfolding reads_unfold [OF s] key_of_def
    by (cases "kind_in r") simp_all
qed

lemma distinct_server_lines: "distinct (map ce_lineNo (servers (reads i cur ls)))"
  using distinct_lines [of i cur ls]
  by (simp add: servers_def keys_in_def filter_map o_def distinct_map inj_on_def)

lemma filter_last:
  assumes "distinct (map f es)"
  shows "filter (\<lambda>e. f e = f (last es)) es = drop (length es - 1) es"
proof (cases es rule: rev_cases)
  case (snoc xs x)
  then have "filter (\<lambda>e. f e = f x) xs = []" 
    using assms by (simp add: filter_empty_conv) (metis image_eqI)
  then show ?thesis using snoc by simp
qed simp

text \<open>Either all the lists are edited, or the last one.\<close>

definition chosen :: "string list \<Rightarrow> bool \<Rightarrow> nat \<Rightarrow> bool" where
  "chosen confdata lastOnly i \<longleftrightarrow> lastOnly \<longrightarrow> i = ce_lineNo (last (serverEntries confdata))"

lemma editServerList_edited:
  assumes "\<forall>l \<in> set confdata. single_continuation l"
  shows "fst (editServerList confdata edit lastOnly) = edited edit (chosen confdata lastOnly) confdata 1 None confdata"
proof -
  have se: "serverEntries confdata = servers (keys confdata)" by (simp add: serverEntries_keys servers_def)
  have "filter (\<lambda>e. chosen confdata lastOnly (ce_lineNo e)) (servers (reads 1 None confdata))
      = (if lastOnly then drop (length (serverEntries confdata) - 1) (serverEntries confdata) else serverEntries confdata)"
    using filter_last [OF distinct_server_lines [of 1 None confdata]]
    by (auto simp: chosen_def se keys_def)
  then show ?thesis
    using edit_is_edited [OF assms, of "[]" confdata 1 edit "chosen confdata lastOnly" None False]
    by (simp add: editServerList_def Let_def)
qed

lemma editServerList_keys:
  assumes tidy: "tidy_conf confdata" and edit: "\<And>names. \<forall>n \<in> set (edit names). n \<in> set names \<or> proper_name n"
    and lim: "within_limit (fst (editServerList confdata edit lastOnly))"
  shows "list_all2 (server_edit edit (chosen confdata lastOnly)) (keys confdata) (keys (fst (editServerList confdata edit lastOnly)))"
  unfolding editServerList_edited [OF tidy_confD(1) [OF tidy]] keys_def
  by (rule edited_keys [OF tidy_confD(1) [OF tidy] edit, of "[]"])
     (use lim tidy_confD(2) [OF tidy] in \<open>simp_all add: keys_def within_limit_def list_all_iff editServerList_edited [OF tidy_confD(1) [OF tidy]]\<close>)

lemma editServerList_autostart:
  assumes tidy: "tidy_conf confdata" and edit: "\<And>names. \<forall>n \<in> set (edit names). n \<in> set names \<or> proper_name n"
    and lim: "within_limit (fst (editServerList confdata edit lastOnly))"
  shows "isAutostart (fst (editServerList confdata edit lastOnly)) x \<longleftrightarrow>
    serverEntries confdata \<noteq> [] \<and> x \<in> set (edit (listNames (ce_value (last (serverEntries confdata)))))"
proof -
  let ?a = "servers (keys confdata)" and ?b = "servers (keys (fst (editServerList confdata edit lastOnly)))"
  have se: "serverEntries confdata = ?a" by (simp add: serverEntries_keys servers_def)
  have l: "list_all2 (\<lambda>e e'. listNames (ce_value e') =
      (if chosen confdata lastOnly (ce_lineNo e) then edit (listNames (ce_value e)) else listNames (ce_value e))) ?a ?b"
    by (rule list_all2_servers [OF editServerList_keys [OF tidy edit lim]])
  show ?thesis
  proof (cases "?a = []")
    case True
    then show ?thesis using l by (simp add: isAutostart_servers se)
  next
    case False
    then have "?b \<noteq> []" using l by auto
    then show ?thesis using list_all2_last [OF l False] False by (simp add: isAutostart_servers se chosen_def)
  qed
qed

lemma editServerList_others:
  assumes tidy: "tidy_conf confdata" and edit: "\<And>names. \<forall>n \<in> set (edit names). n \<in> set names \<or> proper_name n"
    and lim: "within_limit (fst (editServerList confdata edit lastOnly))" and other: "name \<noteq> Some ''service'' \<or> key \<noteq> ''server''"
  shows "engine_value (fst (editServerList confdata edit lastOnly)) name key = engine_value confdata name key"
  unfolding engine_value_keys
  by (rule last_value_edit [OF list_all2_keys_in [OF editServerList_keys [OF tidy edit lim]] other])

end
