(* ===== verification/ConfSections.thy ===== *)
theory ConfSections
  imports ConfServerList
begin

text \<open>
  Files of plain lines, which are read line by line: what the edits of a database's own section do to
  them, and the properties of all the edits of \<open>cubrid.conf\<close>.
\<close>

section \<open>Plain lines\<close>

text \<open>A line without the characters on which the two trimmings differ, without a backslash, and with one
  closing bracket at most when it is a header.\<close>

definition plain_char :: "char \<Rightarrow> bool" where
  "plain_char c \<longleftrightarrow> (let n = of_char c :: nat in n = 9 \<or> (32 \<le> n \<and> n \<noteq> 92 \<and> n \<noteq> 160))"

definition plain_shape :: "string \<Rightarrow> bool" where
  "plain_shape l \<longleftrightarrow> list_all plain_char l
     \<and> (case iniTrim l of
          c # cs \<Rightarrow> c = CHR ''['' \<and> last_is (CHR '']'') cs \<longrightarrow> butlast cs \<noteq> [] \<and> CHR '']'' \<notin> set (butlast cs)
        | [] \<Rightarrow> True)"

definition plain_line :: "string \<Rightarrow> bool" where
  "plain_line l \<longleftrightarrow> plain_shape l \<and> utf8Length l \<le> INI_MAX_LINE_LENGTH"

definition line_kind_of :: "string \<Rightarrow> line_kind" where
  "line_kind_of l = kind_of (iniTrim l)"

definition plain_conf :: "string list \<Rightarrow> bool" where
  "plain_conf confdata \<longleftrightarrow> list_all (\<lambda>l. plain_line l \<and>
     (case line_kind_of l of Key key v \<Rightarrow> lower key = ''server'' \<longrightarrow> tidy_line l | _ \<Rightarrow> True)) confdata"

lemma plain_ws: "plain_char c \<Longrightarrow> js_ws c = isIniSpace c"
  by (auto simp: plain_char_def js_ws_def isIniSpace_def Let_def)

lemma plain_chars [simp]: "\<not> plain_char (CHR 0x5C)" "\<not> plain_char (CHR 0x0A)" "\<not> plain_char (CHR 0x0D)"
  by (auto simp: plain_char_def)

lemma dropWhile_plain: "list_all plain_char s \<Longrightarrow> dropWhile js_ws s = dropWhile isIniSpace s"
  by (induction s) (auto simp: plain_ws)

lemma takeWhile_plain: "list_all plain_char s \<Longrightarrow> takeWhile js_ws s = takeWhile isIniSpace s"
  by (induction s) (auto simp: plain_ws)

lemma plain_parts:
  "list_all plain_char s \<Longrightarrow> list_all plain_char (dropWhile P s)"
  "list_all plain_char s \<Longrightarrow> list_all plain_char (takeWhile P s)"
  "list_all plain_char s \<Longrightarrow> list_all plain_char (tl s)"
  "list_all plain_char s \<Longrightarrow> list_all plain_char (butlast s)"
  "list_all plain_char s \<Longrightarrow> list_all plain_char (rev s)"
  by (auto simp: list_all_iff dest: set_dropWhileD set_takeWhileD in_set_butlastD list.set_sel(2)) (metis list.sel(2) list.set_sel(2))

lemma trim_plain: "list_all plain_char s \<Longrightarrow> trim s = iniTrim s"
  by (simp add: trim_def iniTrim_def trimIniEnd_def dropWhile_plain plain_parts)

lemma plain_iniTrim: "list_all plain_char s \<Longrightarrow> list_all plain_char (iniTrim s)"
  by (simp add: iniTrim_def trimIniEnd_def plain_parts)

text \<open>Such a line is read by itself.\<close>

definition simple_line :: "string \<Rightarrow> bool" where
  "simple_line l \<longleftrightarrow> utf8Length l \<le> INI_MAX_LINE_LENGTH \<and> \<not> last_is (CHR 0x5C) (trimIniEnd l)"

lemma plain_simple: "plain_line l \<Longrightarrow> simple_line l"
proof -
  assume p: "plain_line l"
  have "CHR 0x5C \<notin> set l" using p by (auto simp: plain_line_def plain_shape_def list_all_iff)
  then have "\<not> last_is (CHR 0x5C) (trimIniEnd l)" using trimIniEnd_subset [of l] by (auto simp: last_is_def dest!: last_in_set)
  then show ?thesis using p by (simp add: simple_line_def plain_line_def)
qed

lemma simple_seg: "simple_line l \<Longrightarrow> seg [] (l # ls) = (1, Some (iniTrim l))"
  using utf8Length_drop_cr [of l] by (intro seg_single) (auto simp: simple_line_def too_long_def)

text \<open>The keys without their line numbers.\<close>

fun plain_keys :: "string option \<Rightarrow> string list \<Rightarrow> (string option \<times> string \<times> string) list" where
  "plain_keys cur [] = []"
| "plain_keys cur (l # ls) =
     (case line_kind_of l of Key k v \<Rightarrow> [(cur, k, v)] | _ \<Rightarrow> []) @ plain_keys (next_section (line_kind_of l) cur) ls"

definition unnumbered :: "(string option \<times> conf_entry) list \<Rightarrow> (string option \<times> string \<times> string) list" where
  "unnumbered kes = map (\<lambda>(name, e). (name, ce_key e, ce_value e)) kes"

lemma reads_simple:
  "simple_line l \<Longrightarrow> reads i cur (l # ls) = key_of i (line_kind_of l) cur @ reads (Suc i) (next_section (line_kind_of l) cur) ls"
  by (simp add: reads_unfold [OF simple_seg] kind_in_def line_kind_of_def)

lemma unnumbered_reads: "\<forall>l \<in> set ls. simple_line l \<Longrightarrow> unnumbered (reads i cur ls) = plain_keys cur ls"
proof (induction ls arbitrary: i cur)
  case Nil
  then show ?case by (simp add: unnumbered_def)
next
  case (Cons l ls)
  then have "unnumbered (reads (Suc i) (next_section (line_kind_of l) cur) ls) = plain_keys (next_section (line_kind_of l) cur) ls"
    by simp
  then show ?case using Cons.prems by (auto simp: reads_simple unnumbered_def key_of_def split: line_kind.splits)
qed

text \<open>What the engine has for a key only depends on them.\<close>

definition value_in :: "string option \<Rightarrow> string \<Rightarrow> (string option \<times> string \<times> string) list \<Rightarrow> string option" where
  "value_in name key kvs =
     (case filter (\<lambda>(n, k, v). n = name \<and> lower k = key) kvs of [] \<Rightarrow> None | x # xs \<Rightarrow> Some (snd (snd (last (x # xs)))))"

lemma last_map_Cons: "last (f x # map f xs) = f (last (x # xs))"
  by (metis last_map list.distinct(1) list.simps(9))

lemma last_value_unnumbered: "last_value key (keys_in name kes) = value_in name key (unnumbered kes)"
proof -
  have "map ce_value (filter (\<lambda>e. lower (ce_key e) = key) (keys_in name kes))
      = map (snd \<circ> snd) (filter (\<lambda>(n, k, v). n = name \<and> lower k = key) (unnumbered kes))"
  proof (induction kes)
    case Nil
    then show ?case by (simp add: keys_in_def unnumbered_def)
  next
    case (Cons p kes)
    obtain n e where p: "p = (n, e)" by force
    have "keys_in name (p # kes) = (if n = name then [e] else []) @ keys_in name kes"
      "unnumbered (p # kes) = (n, ce_key e, ce_value e) # unnumbered kes"
      by (simp_all add: p keys_in_def unnumbered_def)
    then show ?case using Cons.IH by simp
  qed
  moreover have "last_value key es = (let vs = map ce_value (filter (\<lambda>e. lower (ce_key e) = key) es) in if vs = [] then None else Some (last vs))" for es
    by (cases "filter (\<lambda>e. lower (ce_key e) = key) es") (simp_all add: last_value_def last_map_Cons del: last.simps)
  moreover have "value_in name key kvs = (let vs = map (snd \<circ> snd) (filter (\<lambda>(n, k, v). n = name \<and> lower k = key) kvs) in if vs = [] then None else Some (last vs))" for kvs
    by (cases "filter (\<lambda>(n, k, v). n = name \<and> lower k = key) kvs") (simp_all add: value_in_def last_map_Cons [of "\<lambda>x. snd (snd x)"] o_def del: last.simps)
  ultimately show ?thesis by (simp only:)
qed

lemma engine_value_plain:
  "\<forall>l \<in> set confdata. simple_line l \<Longrightarrow> engine_value confdata name key = value_in name key (plain_keys None confdata)"
  by (simp add: engine_value_keys last_value_unnumbered keys_def unnumbered_reads)

lemma autostart_value: "isAutostart confdata x \<longleftrightarrow> (\<exists>v. engine_value confdata (Some ''service'') ''server'' = Some v \<and> x \<in> set (listNames v))"
proof -
  have "isAutostart confdata x \<longleftrightarrow> (\<exists>v. last_value ''server'' (keys_in (Some ''service'') (keys confdata)) = Some v \<and> x \<in> set (listNames v))"
    by (auto simp: isAutostart_servers servers_def is_server_def [abs_def] last_value_def split: list.splits)
  then show ?thesis by (simp add: engine_value_keys)
qed

section \<open>Headers\<close>

lemma lower_at: "lower s = CHR ''@'' # t \<longleftrightarrow> (\<exists>u. s = CHR ''@'' # u \<and> lower u = t)"
proof -
  have "lower_char c = CHR ''@'' \<longleftrightarrow> c = CHR ''@''" for c
  proof
    assume a: "lower_char c = CHR ''@''"
    show "c = CHR ''@''"
    proof (rule ccontr)
      assume "c \<noteq> CHR ''@''"
      let ?n = "of_char c :: nat"
      have n: "(65 \<le> ?n \<and> ?n \<le> 90) \<or> (192 \<le> ?n \<and> ?n \<le> 222 \<and> ?n \<noteq> 215)" "char_of (?n + 32) = CHR ''@''"
        using a \<open>c \<noteq> CHR ''@''\<close> by (auto simp: lower_char_def Let_def split: if_splits)
      have "of_char (char_of (?n + 32) :: char) = (of_char (CHR ''@'') :: nat)" by (simp only: n(2))
      then have "?n + 32 = 64" using n(1) by auto
      then show False using n(1) by auto
    qed
  qed (simp add: lower_char_def)
  then show ?thesis by (cases s) (auto simp: lower_def)
qed

lemma sectionOf_shape:
  assumes p: "plain_shape l"
  shows "sectionOf l = None \<longleftrightarrow> (\<forall>name. line_kind_of l \<noteq> Header name)"
    and "sectionOf l = Some (CHR ''@'' # db) \<longleftrightarrow> line_kind_of l = Header (CHR ''@'' # db)"
proof -
  have pl: "list_all plain_char l" using p by (simp add: plain_shape_def)
  have t: "trim l = iniTrim l" by (rule trim_plain [OF pl])
  have "(sectionOf l = None \<longleftrightarrow> (\<forall>name. line_kind_of l \<noteq> Header name))
      \<and> (sectionOf l = Some (CHR ''@'' # db) \<longleftrightarrow> line_kind_of l = Header (CHR ''@'' # db))"
  proof (cases "iniTrim l")
    case Nil
    then show ?thesis by (simp add: sectionOf_def t line_kind_of_def kind_of_def)
  next
    case (Cons c cs)
    show ?thesis
    proof (cases "c = CHR ''['' \<and> last_is (CHR '']'') cs")
      case False
      then have "\<not> (c = CHR ''['' \<and> last_is (CHR '']'') (c # cs))" by (auto simp: last_is_def split: if_splits)
      then have "line_kind_of l \<noteq> Header name" for name
        by (auto simp: line_kind_of_def kind_of_def Cons Let_def split: option.splits prod.splits)
      moreover have "sectionOf l = None" using False by (auto simp: sectionOf_def t Cons)
      ultimately show ?thesis by simp
    next
      case True
      then have inner: "butlast cs \<noteq> []" "CHR '']'' \<notin> set (butlast cs)" and cs: "cs = butlast cs @ [CHR '']'']"
        using p Cons by (auto simp: plain_shape_def last_is_def) (metis append_butlast_last_id)
      have tw: "takeWhile (\<lambda>d. d \<noteq> CHR '']'') cs = butlast cs"
        using up_to(1) [OF inner(2), of "[]"] cs by simp
      have ls: "last_is (CHR '']'') (c # cs)" using True by (auto simp: last_is_def)
      have k: "line_kind_of l = Header (normalizeSectionName (butlast cs))"
        using True ls inner(1) by (simp add: line_kind_of_def kind_of_def Cons tw)
      have "list_all plain_char (c # cs)" using plain_iniTrim [OF pl] by (simp add: Cons)
      then have pb: "list_all plain_char (butlast cs)" by (simp add: plain_parts)
      have tb: "trim (butlast cs) = iniTrim (butlast cs)" by (rule trim_plain [OF pb])
      have pn: "list_all plain_char (iniTrim (butlast cs))" by (rule plain_iniTrim [OF pb])
      then have nl: "CHR 0x0A \<notin> set (iniTrim (butlast cs))" "CHR 0x0D \<notin> set (iniTrim (butlast cs))"
        by (auto simp: list_all_iff)
      show ?thesis
      proof (cases "iniTrim (butlast cs)")
        case Nil
        then show ?thesis using True nl by (simp add: sectionOf_def t Cons tb k normalizeSectionName_def)
      next
        case (Cons n ns)
        have "trim ns = iniTrim ns" using pn Cons by (intro trim_plain) simp
        then show ?thesis using True nl Cons \<open>iniTrim l = c # cs\<close>
          by (auto simp: sectionOf_def t tb k normalizeSectionName_def lower_at)
      qed
    qed
  qed
  then show "sectionOf l = None \<longleftrightarrow> (\<forall>name. line_kind_of l \<noteq> Header name)"
    "sectionOf l = Some (CHR ''@'' # db) \<longleftrightarrow> line_kind_of l = Header (CHR ''@'' # db)" by auto
qed

lemma sectionOf_plain:
  assumes "plain_line l"
  shows "sectionOf l = None \<longleftrightarrow> (\<forall>name. line_kind_of l \<noteq> Header name)"
    and "sectionOf l = Some (CHR ''@'' # db) \<longleftrightarrow> line_kind_of l = Header (CHR ''@'' # db)"
  using sectionOf_shape assms by (auto simp: plain_line_def)

lemma blank_or_comment_kind: "plain_line l \<Longrightarrow> blank_or_comment l \<Longrightarrow> line_kind_of l = Nothing"
proof -
  assume p: "plain_line l" and b: "blank_or_comment l"
  have "trim l = iniTrim l" using p by (simp add: plain_line_def plain_shape_def trim_plain)
  then show ?thesis using b by (auto simp: blank_or_comment_def line_kind_of_def kind_of_def split: list.splits)
qed

section \<open>A file without a section\<close>

lemma plain_keys_append:
  "plain_keys cur (xs @ ys) = plain_keys cur xs @ plain_keys (fold (\<lambda>l. next_section (line_kind_of l)) xs cur) ys"
  by (induction xs arbitrary: cur) auto

lemma plain_keys_nothing: "\<forall>l \<in> set ls. line_kind_of l = Nothing \<Longrightarrow> plain_keys cur ls = []"
  by (induction ls) (auto simp: next_section_def)

lemma next_nothing: "\<forall>l \<in> set ls. \<forall>name. line_kind_of l \<noteq> Header name \<Longrightarrow> fold (\<lambda>l. next_section (line_kind_of l)) ls cur = cur"
  by (induction ls) (auto simp: next_section_def split: line_kind.splits)

lemma plain_keys_section: "\<forall>l \<in> set ls. \<forall>name. line_kind_of l \<noteq> Header name \<Longrightarrow> \<forall>x \<in> set (plain_keys cur ls). fst x = cur"
  by (induction ls) (auto simp: next_section_def split: line_kind.splits)

lemma plain_keys_header:
  "ls = [] \<or> (\<exists>name. line_kind_of (hd ls) = Header name) \<Longrightarrow> plain_keys cur ls = plain_keys cur' ls"
  by (cases ls) (auto simp: next_section_def)

lemma without_section_keys:
  "\<forall>l \<in> set ls. plain_line l \<Longrightarrow> cur \<noteq> Some (CHR ''@'' # db) \<Longrightarrow>
    plain_keys cur (without_section db ls) = filter (\<lambda>x. fst x \<noteq> Some (CHR ''@'' # db)) (plain_keys cur ls)"
proof (induction db ls arbitrary: cur rule: without_section.induct)
  case (1 db)
  then show ?case by simp
next
  case (2 db l ls)
  have pl: "plain_line l" "\<forall>x \<in> set ls. plain_line x" using "2.prems"(1) by auto
  let ?db = "CHR ''@'' # db"
  show ?case
  proof (cases "sectionOf l = Some ?db")
    case False
    then have "line_kind_of l \<noteq> Header ?db" using sectionOf_plain(2) [OF pl(1)] by simp
    then have "next_section (line_kind_of l) cur \<noteq> Some ?db"
      using "2.prems"(2) by (auto simp: next_section_def split: line_kind.splits)
    from "2.IH"(1) [OF False pl(2) this] show ?thesis using False "2.prems"(2) by (auto split: line_kind.splits)
  next
    case True
    let ?body = "takeWhile (\<lambda>x. sectionOf x = None) ls" and ?rest = "dropWhile (\<lambda>x. sectionOf x = None) ls"
    let ?tail = "rev (takeWhile blank_or_comment (rev ?body))"
    have k: "line_kind_of l = Header ?db" using True sectionOf_plain(2) [OF pl(1)] by simp
    have body: "\<forall>x \<in> set ?body. \<forall>name. line_kind_of x \<noteq> Header name"
      using pl(2) sectionOf_plain(1) by (metis set_takeWhileD)
    have tail: "\<forall>x \<in> set ?tail. line_kind_of x = Nothing"
      using pl(2) blank_or_comment_kind by (metis set_rev set_takeWhileD)
    have rest: "?rest = [] \<or> (\<exists>name. line_kind_of (hd ?rest) = Header name)"
    proof (cases "?rest = []")
      case False
      then have "sectionOf (hd ?rest) \<noteq> None" using hd_dropWhile by blast
      moreover have "plain_line (hd ?rest)" using False pl(2) by (metis hd_in_set set_dropWhileD)
      ultimately show ?thesis using sectionOf_plain(1) [of "hd ?rest"] by auto
    qed simp
    have prest: "\<forall>x \<in> set ?rest. plain_line x" using pl(2) by (metis set_dropWhileD)
    have "plain_keys cur (without_section db (l # ls)) = plain_keys cur (?tail @ without_section db ?rest)" using True by simp
    also have "\<dots> = plain_keys cur (without_section db ?rest)"
    proof -
      have "fold (\<lambda>l. next_section (line_kind_of l)) ?tail cur = cur" by (rule next_nothing) (use tail in auto)
      then show ?thesis by (simp only: plain_keys_append plain_keys_nothing [OF tail]) simp
    qed
    also have "\<dots> = filter (\<lambda>x. fst x \<noteq> Some ?db) (plain_keys cur ?rest)"
      using "2.IH"(2) [of cur] True prest "2.prems"(2) by simp
    also have "\<dots> = filter (\<lambda>x. fst x \<noteq> Some ?db) (plain_keys cur (l # ls))"
    proof -
      have "plain_keys cur (l # ls) = plain_keys (Some ?db) (?body @ ?rest)" by (simp add: k next_section_def)
      also have "\<dots> = plain_keys (Some ?db) ?body @ plain_keys (Some ?db) ?rest"
        by (simp only: plain_keys_append next_nothing [OF body])
      also have "plain_keys (Some ?db) ?rest = plain_keys cur ?rest" by (rule plain_keys_header [OF rest])
      finally have "plain_keys cur (l # ls) = plain_keys (Some ?db) ?body @ plain_keys cur ?rest" .
      moreover have "filter (\<lambda>x. fst x \<noteq> Some ?db) (plain_keys (Some ?db) ?body) = []"
        using plain_keys_section [OF body] by (auto simp: filter_empty_conv)
      ultimately show ?thesis by simp
    qed
    finally show ?thesis .
  qed
qed

section \<open>Plain files\<close>

lemma plain_confD:
  "plain_conf confdata \<Longrightarrow> l \<in> set confdata \<Longrightarrow> plain_line l"
  "plain_conf confdata \<Longrightarrow> l \<in> set confdata \<Longrightarrow> line_kind_of l = Key key v \<Longrightarrow> lower key = ''server'' \<Longrightarrow> tidy_line l"
  by (auto simp: plain_conf_def list_all_iff split: line_kind.splits)

lemma plain_conf_subset: "plain_conf confdata \<Longrightarrow> set ls \<subseteq> set confdata \<Longrightarrow> plain_conf ls"
  by (auto simp: plain_conf_def list_all_iff)

lemma plain_confI:
  "(\<And>l. l \<in> set ls \<Longrightarrow> plain_line l) \<Longrightarrow>
    (\<And>l key v. l \<in> set ls \<Longrightarrow> line_kind_of l = Key key v \<Longrightarrow> lower key = ''server'' \<Longrightarrow> tidy_line l) \<Longrightarrow> plain_conf ls"
  by (auto simp: plain_conf_def list_all_iff split: line_kind.splits)

lemma plain_logical: "plain_line l \<Longrightarrow> logicalLine (pre @ l # ls) (length pre) = (length pre, l)"
proof -
  assume "plain_line l"
  then have "\<not> last_is (CHR 0x5C) (trimIniEnd l)" using plain_simple by (simp add: simple_line_def)
  then show ?thesis by (simp add: logicalLine_def)
qed

lemma plain_tidy_servers:
  "plain_conf confdata \<Longrightarrow> confdata = pre @ ls \<Longrightarrow> i = Suc (length pre) \<Longrightarrow> tidy_servers confdata (reads i cur ls)"
proof (induction ls arbitrary: pre i cur)
  case Nil
  then show ?case by (simp add: tidy_servers_def servers_def)
next
  case (Cons l ls)
  have l: "l \<in> set confdata" using Cons.prems(2) by simp
  have pl: "plain_line l" by (rule plain_confD(1) [OF Cons.prems(1) l])
  have rest: "tidy_servers confdata (reads (Suc i) (next_section (line_kind_of l) cur) ls)"
    by (rule Cons.IH [OF Cons.prems(1), of "pre @ [l]"]) (use Cons.prems in auto)
  have "snd (logicalLine confdata (i - 1)) = l" using plain_logical [OF pl, of pre ls] Cons.prems(2,3) by simp
  then show ?case using rest plain_confD(2) [OF Cons.prems(1) l]
    by (auto simp: reads_simple [OF plain_simple [OF pl]] tidy_servers_def servers_def key_of_def keys_in_def is_server_def split: line_kind.splits)
qed

lemma plain_tidy: "plain_conf confdata \<Longrightarrow> tidy_conf confdata"
proof -
  assume p: "plain_conf confdata"
  have "single_continuation l" if "l \<in> set confdata" for l
    using plain_simple [OF plain_confD(1) [OF p that]] by (simp add: simple_line_def single_continuation_def)
  then show ?thesis
    using plain_tidy_servers [OF p, of "[]" confdata 1 None]
    by (simp add: tidy_conf_def list_all_iff tidy_servers_def serverEntries_keys servers_def keys_def)
qed

lemma plain_conf_simple: "plain_conf confdata \<Longrightarrow> \<forall>l \<in> set confdata. simple_line l"
  using plain_confD(1) plain_simple by blast

lemma filter_names: "\<forall>n \<in> set (filter P names). n \<in> set names \<or> proper_name n"
  by simp

lemma unchanged_edit: "\<not> snd (editServerList confdata edit lastOnly) \<Longrightarrow> fst (editServerList confdata edit lastOnly) = confdata"
  using edit_entry_snd by (fastforce simp: editServerList_def Let_def)

end
