(* ===== verification/ConfProps.thy ===== *)
theory ConfProps
  imports ConfSections
begin

text \<open>
  The properties of the edits of \<open>cubrid.conf\<close>, over what the engine reads before and after.
\<close>

section \<open>Removing a database\<close>

text \<open>
  C23: Taking a database off the autostart lists does that and no more. For every file with well-formed server keys,
  which may be continued over lines, quoted and commented, the engine starts after the edit the databases it started
  before without the removed one, and reads every other key of every section with the same value.
\<close>

theorem removed_database_does_not_start:
  assumes "tidy_conf confdata" "within_limit (fst (removeAutostart confdata dbname))"
  shows "(isAutostart (fst (removeAutostart confdata dbname)) x \<longleftrightarrow> x \<noteq> dbname \<and> isAutostart confdata x)
    \<and> (name \<noteq> Some ''service'' \<or> key \<noteq> ''server'' \<longrightarrow>
        engine_value (fst (removeAutostart confdata dbname)) name key = engine_value confdata name key)"
  using editServerList_autostart [OF assms(1) filter_names assms(2) [unfolded removeAutostart_def], of x]
    editServerList_others [OF assms(1) filter_names assms(2) [unfolded removeAutostart_def], of name key]
  by (auto simp: removeAutostart_def isAutostart_def Let_def)

text \<open>A list continued over two lines, with a comment after it.\<close>

definition continued_conf :: "string list" where
  "continued_conf = [''[service]'', ''  server = demodb, '' @ [CHR 0x5C], ''    testdb  # start'', ''[common]'', ''port=1'']"

theorem removed_database_does_not_start_witness:
  "fst (removeAutostart continued_conf ''demodb'') = [''[service]'', ''  server = testdb  # start'', ''[common]'', ''port=1'']
    \<and> isAutostart continued_conf ''demodb'' \<and> isAutostart continued_conf ''testdb''
    \<and> \<not> isAutostart (fst (removeAutostart continued_conf ''demodb'')) ''demodb''
    \<and> isAutostart (fst (removeAutostart continued_conf ''demodb'')) ''testdb''
    \<and> engine_value (fst (removeAutostart continued_conf ''demodb'')) (Some ''common'') ''port'' = Some ''1''"
proof -
  have t: "tidy_conf continued_conf" by code_simp
  have a: "isAutostart continued_conf ''demodb'' \<and> isAutostart continued_conf ''testdb''" by code_simp
  have v: "engine_value continued_conf (Some ''common'') ''port'' = Some ''1''" by code_simp
  have r: "fst (removeAutostart continued_conf ''demodb'') = [''[service]'', ''  server = testdb  # start'', ''[common]'', ''port=1'']"
    by code_simp
  have w: "within_limit (fst (removeAutostart continued_conf ''demodb''))" unfolding r by code_simp
  show ?thesis
    using removed_database_does_not_start [OF t w, of "''demodb''" "Some ''common''" "''port''"]
      removed_database_does_not_start [OF t w, of "''testdb''" "Some ''common''" "''port''"] a v
    by (simp only: r [symmetric]) simp
qed

section \<open>Forgetting a deleted database\<close>

lemma without_section_absent:
  "\<not> list_ex (\<lambda>l. sectionOf l = Some (CHR ''@'' # db)) ls \<Longrightarrow> without_section db ls = ls"
  by (induction ls) auto

lemma without_section_subset: "set (without_section db ls) \<subseteq> set ls"
proof (induction db ls rule: without_section.induct)
  case (2 db l ls)
  show ?case
  proof (cases "sectionOf l = Some (CHR ''@'' # db)")
    case True
    have "set (rev (takeWhile blank_or_comment (rev (takeWhile (\<lambda>x. sectionOf x = None) ls)))) \<subseteq> set ls"
      by (auto dest!: set_takeWhileD)
    moreover have "set (without_section db (dropWhile (\<lambda>x. sectionOf x = None) ls)) \<subseteq> set ls"
      using "2.IH"(2) True by (auto dest!: set_dropWhileD subsetD)
    ultimately show ?thesis using True by auto
  next
    case False
    then show ?thesis using "2.IH"(1) by auto
  qed
qed simp

lemma value_in_filter:
  "value_in name key (filter (\<lambda>x. fst x \<noteq> s) kvs) = (if name = s then None else value_in name key kvs)"
proof -
  have "filter (\<lambda>(n, k, v). n = name \<and> lower k = key) (filter (\<lambda>x. fst x \<noteq> s) kvs)
      = (if name = s then [] else filter (\<lambda>(n, k, v). n = name \<and> lower k = key) kvs)"
    by (auto simp: filter_empty_conv intro!: filter_cong)
  then show ?thesis by (simp add: value_in_def)
qed

definition forgotten :: "string list \<Rightarrow> string \<Rightarrow> string list" where
  "forgotten confdata dbname = (case forgetDbInCubridConf confdata dbname of Some lines \<Rightarrow> lines | None \<Rightarrow> confdata)"

lemma forgotten_eq: "forgotten confdata dbname = fst (removeAutostart (without_section dbname confdata) dbname)"
proof -
  let ?dropped = "list_ex (\<lambda>line. sectionOf line = Some (CHR ''@'' # dbname)) confdata"
  have "(if ?dropped then without_section dbname confdata else confdata) = without_section dbname confdata"
    using without_section_absent by auto
  then show ?thesis
    using without_section_absent [of dbname confdata]
      unchanged_edit [of "without_section dbname confdata" "filter (\<lambda>name. name \<noteq> dbname)" False]
    by (auto simp: forgotten_def forgetDbInCubridConf_def Let_def removeAutostart_def split: prod.splits option.splits if_splits)
qed


definition sample_conf :: "string list" where
  "sample_conf = [''# cubrid.conf'', ''[common]'', ''max_clients=100'', ''[service]'', ''service=server,broker'',
     ''server = demodb, testdb   # started with the service'', ''[@demodb]'', ''ha_mode=off'', [], ''# the test database'',
     ''[@testdb]'', ''ha_mode=on'']"


end
