(* ===== verification/ConfRename.thy ===== *)
theory ConfRename
  imports ConfSections
begin

text \<open>
  The properties of the edits of \<open>cubrid.conf\<close> that put a name into it: renaming a database, and adding one
  to the autostart list.
\<close>

section \<open>Renamed headers\<close>

definition database_name :: "string \<Rightarrow> bool" where
  "database_name n \<longleftrightarrow> proper_name n \<and> list_all plain_char n \<and> CHR '']'' \<notin> set n"

lemma list_name_trimmed: "list_name n \<Longrightarrow> iniTrim n = n \<and> \<not> isIniSpace (last n)"
proof -
  assume "list_name n"
  then have n: "n \<noteq> []" "trim n = n" by (auto simp: list_name_def)
  have h: "\<not> js_ws (hd n)"
  proof
    assume "js_ws (hd n)"
    then have "length (dropWhile js_ws n) < length n" using n(1) by (cases n) (auto simp: length_dropWhile_le le_imp_less_Suc)
    moreover have "length (trim n) \<le> length (dropWhile js_ws n)" by (simp add: trim_def) (metis length_dropWhile_le length_rev)
    ultimately show False using n(2) by simp
  qed
  have d: "dropWhile js_ws n = n" using h n(1) by (cases n) auto
  then have "rev (dropWhile js_ws (rev n)) = n" using n(2) by (simp add: trim_def)
  then have "dropWhile js_ws (rev n) = rev n" by (metis rev_rev_ident)
  then have l: "\<not> js_ws (last n)" using n(1) by (metis hd_dropWhile hd_rev rev_is_Nil_conv)
  have nh: "\<not> isIniSpace (hd n)" "\<not> isIniSpace (last n)" using h l isIniSpace_js_ws by auto
  have "dropWhile isIniSpace n = n" using nh(1) n(1) by (cases n) auto
  moreover have "dropWhile isIniSpace (rev n) = rev n" using nh(2) n(1) by (cases "rev n") (auto simp: hd_rev [symmetric])
  ultimately show ?thesis using nh by (simp add: iniTrim_def trimIniEnd_def)
qed

lemma plain_blank: "list_all js_ws w \<Longrightarrow> set w \<subseteq> set l \<Longrightarrow> list_all plain_char l \<Longrightarrow> list_all isIniSpace w"
  using plain_ws by (fastforce simp: list_all_iff)

lemma sub_parts: "set (leading_ws s) \<subseteq> set s" "set (trailing_ws s) \<subseteq> set s" "set (trimEnd s) \<subseteq> set s"
  by (auto simp: leading_ws_def trailing_ws_def trimEnd_def dest: set_takeWhileD set_dropWhileD)

lemma set_of_tl: "set (tl s) \<subseteq> set s"
  by (cases s) auto

lemma renamed_header_kind:
  assumes w: "list_all isIniSpace w1" "list_all isIniSpace w2" "list_all isIniSpace w3" "list_all isIniSpace w4" "list_all isIniSpace w5"
    and n: "database_name n"
  shows "line_kind_of (w1 @ ''['' @ w2 @ ''@'' @ w3 @ n @ w4 @ '']'' @ w5) = Header (CHR ''@'' # n)"
    and "\<not> last_is (CHR 0x5C) (trimIniEnd (w1 @ ''['' @ w2 @ ''@'' @ w3 @ n @ w4 @ '']'' @ w5))"
proof -
  have ln: "list_name n" and nb: "CHR '']'' \<notin> set n" using n by (auto simp: database_name_def proper_name_def)
  have tn: "iniTrim n = n" "\<not> isIniSpace (last n)" "n \<noteq> []" using list_name_trimmed [OF ln] ln by (auto simp: list_name_def)
  let ?inner = "w2 @ ''@'' @ w3 @ n @ w4"
  have te: "trimIniEnd (s @ '']'') = s @ '']''" for s
    using trimIniEnd_append [of s "'']''"] by (simp add: ini_space_chars) (simp add: trimIniEnd_def ini_space_chars)
  have t: "iniTrim (w1 @ ''['' @ ?inner @ '']'' @ w5) = ''['' @ ?inner @ '']''"
  proof -
    have "iniTrim (w1 @ ''['' @ ?inner @ '']'' @ w5) = iniTrim (''['' @ ?inner @ '']'')"
      using iniTrim_prepend_blank [OF w(1)] iniTrim_append_blank [OF w(5), of "''['' @ ?inner @ '']''"] by simp
    also have "\<dots> = ''['' @ ?inner @ '']''" using te [of "''['' @ ?inner"] by (simp add: iniTrim_def ini_space_chars)
    finally show ?thesis .
  qed
  have nw: "CHR '']'' \<notin> set w" if "list_all isIniSpace w" for w using that by (auto simp: list_all_iff ini_space_chars)
  have no: "CHR '']'' \<notin> set ?inner" using nw w nb by auto
  have tw: "takeWhile (\<lambda>d. d \<noteq> CHR '']'') (?inner @ '']'') = ?inner" using up_to(1) [OF no, of "[]"] by simp
  have ti: "iniTrim ?inner = CHR ''@'' # w3 @ n"
  proof -
    have "iniTrim ?inner = iniTrim (''@'' @ w3 @ n)"
      using iniTrim_prepend_blank [OF w(2), of "''@'' @ w3 @ n @ w4"] iniTrim_append_blank [OF w(4), of "''@'' @ w3 @ n"] by simp
    also have "\<dots> = trimIniEnd (''@'' @ w3 @ n)" by (simp add: iniTrim_def ini_space_chars)
    also have "\<dots> = ''@'' @ w3 @ n"
    proof -
      have "trimIniEnd n = n" using tn by (metis dropWhile.simps(2) hd_Cons_tl hd_rev rev_is_Nil_conv rev_rev_ident trimIniEnd_def)
      moreover have "\<not> list_all isIniSpace n" using tn by (auto simp: list_all_iff)
      ultimately show ?thesis using trimIniEnd_append [of "''@'' @ w3" n] by simp
    qed
    finally show ?thesis by simp
  qed
  have "normalizeSectionName ?inner = CHR ''@'' # iniTrim (w3 @ n)"
    unfolding normalizeSectionName_def ti by simp
  also have "iniTrim (w3 @ n) = n" using iniTrim_prepend_blank [OF w(3)] tn(1) by simp
  finally have norm: "normalizeSectionName ?inner = CHR ''@'' # n" .
  have ls: "last_is (CHR '']'') (CHR ''['' # ?inner @ '']'')" by (simp add: last_is_def)
  have "kind_of (CHR ''['' # ?inner @ '']'') = Header (CHR ''@'' # n)"
    unfolding kind_of_def list.case Let_def tw norm using ls by simp
  then show "line_kind_of (w1 @ ''['' @ w2 @ ''@'' @ w3 @ n @ w4 @ '']'' @ w5) = Header (CHR ''@'' # n)"
    using t by (simp add: line_kind_of_def)
  have "trimIniEnd ((w1 @ ''['' @ ?inner @ '']'') @ w5) = w1 @ ''['' @ ?inner @ '']''"
    using w(5) te [of "w1 @ ''['' @ ?inner"] trimIniEnd_append [of "w1 @ ''['' @ ?inner @ '']''" w5] by simp
  then show "\<not> last_is (CHR 0x5C) (trimIniEnd (w1 @ ''['' @ w2 @ ''@'' @ w3 @ n @ w4 @ '']'' @ w5))"
    by (simp add: last_is_def)
qed

lemma rename_header_shape:
  assumes "list_all plain_char l" "database_name n"
  shows "line_kind_of (rename_header n l) = Header (CHR ''@'' # n)" "\<not> last_is (CHR 0x5C) (trimIniEnd (rename_header n l))"
proof -
  let ?b = "tl (dropWhile js_ws l)" and ?a = "tl (dropWhile js_ws (tl (dropWhile js_ws l)))"
  let ?f = "dropWhile js_ws ?a" and ?t = "butlast (trimEnd (dropWhile js_ws ?a))"
  have d: "set (dropWhile js_ws s) \<subseteq> set s" for s :: string by (auto dest: set_dropWhileD)
  have b: "set ?b \<subseteq> set l" using set_of_tl d by (meson order_trans)
  have a: "set ?a \<subseteq> set l" using set_of_tl d b by (meson order_trans)
  have f: "set ?f \<subseteq> set l" using d a by (meson order_trans)
  have t: "set ?t \<subseteq> set l" using sub_parts(3) [of ?f] f by (auto dest: in_set_butlastD)
  have r: "rename_header n l = leading_ws l @ ''['' @ leading_ws ?b @ ''@'' @ leading_ws ?a @ n @ trailing_ws ?t @ '']'' @ trailing_ws ?f"
    by (simp add: rename_header_def Let_def)
  have w: "list_all isIniSpace (leading_ws l)" "list_all isIniSpace (leading_ws ?b)" "list_all isIniSpace (leading_ws ?a)"
    "list_all isIniSpace (trailing_ws ?t)" "list_all isIniSpace (trailing_ws ?f)"
    using plain_blank [OF _ _ assms(1)] ws_parts sub_parts b a t f by (meson order_trans)+
  show "line_kind_of (rename_header n l) = Header (CHR ''@'' # n)" "\<not> last_is (CHR 0x5C) (trimIniEnd (rename_header n l))"
    unfolding r by (rule renamed_header_kind [OF w assms(2)])+
qed

definition rename_key :: "string \<Rightarrow> string \<Rightarrow> string option \<Rightarrow> string option" where
  "rename_key oldName newName name = (if name = Some (CHR ''@'' # oldName) then Some (CHR ''@'' # newName) else name)"

lemma renamed_keys:
  assumes "database_name newName"
  shows "\<forall>l \<in> set ls. plain_shape l \<Longrightarrow>
    plain_keys (rename_key oldName newName cur)
      (map (\<lambda>l. if sectionOf l = Some (CHR ''@'' # oldName) then rename_header newName l else l) ls)
    = map (\<lambda>(n, kv). (rename_key oldName newName n, kv)) (plain_keys cur ls)"
proof (induction ls arbitrary: cur)
  case Nil
  then show ?case by simp
next
  case (Cons l ls)
  let ?f = "\<lambda>l. if sectionOf l = Some (CHR ''@'' # oldName) then rename_header newName l else l"
  have pl: "plain_shape l" using Cons.prems by simp
  show ?case
  proof (cases "sectionOf l = Some (CHR ''@'' # oldName)")
    case True
    then have k: "line_kind_of l = Header (CHR ''@'' # oldName)" using sectionOf_shape(2) [OF pl] by simp
    have k': "line_kind_of (rename_header newName l) = Header (CHR ''@'' # newName)"
      using rename_header_shape(1) [OF _ assms] pl by (simp add: plain_shape_def)
    have "plain_keys (rename_key oldName newName (Some (CHR ''@'' # oldName))) (map ?f ls)
        = map (\<lambda>(n, kv). (rename_key oldName newName n, kv)) (plain_keys (Some (CHR ''@'' # oldName)) ls)"
      by (rule Cons.IH) (use Cons.prems in simp)
    then show ?thesis using True by (simp add: k k' next_section_def rename_key_def)
  next
    case False
    then have "line_kind_of l \<noteq> Header (CHR ''@'' # oldName)" using sectionOf_shape(2) [OF pl] by simp
    then have "next_section (line_kind_of l) (rename_key oldName newName cur) = rename_key oldName newName (next_section (line_kind_of l) cur)"
      by (auto simp: next_section_def rename_key_def split: line_kind.splits)
    moreover have "plain_keys (rename_key oldName newName (next_section (line_kind_of l) cur)) (map ?f ls)
        = map (\<lambda>(n, kv). (rename_key oldName newName n, kv)) (plain_keys (next_section (line_kind_of l) cur) ls)"
      by (rule Cons.IH) (use Cons.prems in simp)
    ultimately show ?thesis using False by (auto split: line_kind.splits)
  qed
qed

definition values_of :: "string option \<Rightarrow> string \<Rightarrow> (string option \<times> string \<times> string) list \<Rightarrow> string list" where
  "values_of name key kvs = concat (map (\<lambda>(n, k, v). if n = name \<and> lower k = key then [v] else []) kvs)"

lemma value_in_values: "value_in name key kvs = (if values_of name key kvs = [] then None else Some (last (values_of name key kvs)))"
proof -
  let ?F = "filter (\<lambda>(n, k, v). n = name \<and> lower k = key) kvs"
  have "values_of name key kvs = map (\<lambda>x. snd (snd x)) ?F"
    by (induction kvs) (auto simp: values_of_def split: if_splits)
  then show ?thesis
    by (cases ?F) (simp_all add: value_in_def last_map_Cons [of "\<lambda>x. snd (snd x)"] del: last.simps)
qed

lemma values_of_swap:
  "\<forall>x \<in> set kvs. fst x \<noteq> N \<Longrightarrow> values_of name key (map (\<lambda>(n, kv). (if n = S then N else n, kv)) kvs) =
    (if name = N then values_of S key kvs else if name = S then [] else values_of name key kvs)"
proof (induction kvs)
  case Nil
  then show ?case by (simp add: values_of_def)
next
  case (Cons p kvs)
  obtain n k v where p: "p = (n, k, v)" using prod_cases3 by blast
  have step: "values_of m key ((n', k, v) # xs) = (if n' = m \<and> lower k = key then [v] else []) @ values_of m key xs" for m n' xs
    by (simp add: values_of_def)
  have n: "n \<noteq> N" using Cons.prems p by simp
  have IH: "values_of name key (map (\<lambda>(n, kv). (if n = S then N else n, kv)) kvs) =
    (if name = N then values_of S key kvs else if name = S then [] else values_of name key kvs)"
    using Cons by simp
  show ?case
    using n by (cases "n = S") (auto simp: p step IH)
qed

lemma value_in_renamed:
  assumes "\<forall>x \<in> set kvs. fst x \<noteq> Some (CHR ''@'' # newName)"
  shows "value_in name key (map (\<lambda>(n, kv). (rename_key oldName newName n, kv)) kvs) =
    (if name = Some (CHR ''@'' # newName) then value_in (Some (CHR ''@'' # oldName)) key kvs
     else if name = Some (CHR ''@'' # oldName) then None else value_in name key kvs)"
  unfolding value_in_values rename_key_def values_of_swap [OF assms] by simp

section \<open>The lines of an edited file\<close>

lemma split_value_parts: "split_value line = (before, v, after) \<Longrightarrow> line = before @ v @ after"
proof -
  assume s: "split_value line = (before, v, after)"
  define hr where "hr = (case dropWhile (\<lambda>c. c \<noteq> CHR ''='') line of [] \<Rightarrow> ([], line)
    | e # r \<Rightarrow> (takeWhile (\<lambda>c. c \<noteq> CHR ''='') line @ [e], r))"
  obtain h r where hr2: "hr = (h, r)" by force
  have line: "line = h @ r"
  proof (cases "dropWhile (\<lambda>c. c \<noteq> CHR ''='') line")
    case Nil
    show ?thesis using hr2 unfolding hr_def Nil by simp
  next
    case (Cons e es)
    have "line = takeWhile (\<lambda>c. c \<noteq> CHR ''='') line @ e # es"
      using takeWhile_dropWhile_id [of "\<lambda>c. c \<noteq> CHR ''=''" line] unfolding Cons by simp
    moreover have "h = takeWhile (\<lambda>c. c \<noteq> CHR ''='') line @ [e]" "r = es" using hr2 unfolding hr_def Cons by simp_all
    ultimately show ?thesis by (metis append.assoc append_Cons append_Nil)
  qed
  have sv: "split_value line = (case dropWhile isIniSpace r of
           [] \<Rightarrow> (h @ takeWhile isIniSpace r, [], [])
         | c # cs \<Rightarrow>
             if is_quote c then ((h @ takeWhile isIniSpace r) @ [c], takeWhile (\<lambda>d. d \<noteq> c) cs, dropWhile (\<lambda>d. d \<noteq> c) cs)
             else (h @ takeWhile isIniSpace r, takeWhile (\<lambda>d. \<not> starts_comment d) (c # cs), dropWhile (\<lambda>d. \<not> starts_comment d) (c # cs)))"
    unfolding split_value_def hr_def [symmetric] hr2 Let_def by simp
  have r: "r = takeWhile isIniSpace r @ dropWhile isIniSpace r" by simp
  show ?thesis
  proof (cases "dropWhile isIniSpace r")
    case Nil
    have tw: "takeWhile isIniSpace r = r" using r unfolding Nil by simp
    have "(h @ takeWhile isIniSpace r, [], []) = (before, v, after)" using s unfolding sv Nil list.case .
    then show ?thesis using line unfolding tw by auto
  next
    case (Cons c cs)
    then have rc: "r = takeWhile isIniSpace r @ c # cs" using r by simp
    have tc: "takeWhile (\<lambda>d. \<not> starts_comment d) (c # cs) @ dropWhile (\<lambda>d. \<not> starts_comment d) (c # cs) = c # cs" by (rule takeWhile_dropWhile_id)
    show ?thesis
    proof (cases "is_quote c")
      case True
      then have "before = (h @ takeWhile isIniSpace r) @ [c]" "v @ after = cs" using s sv Cons by auto
      then show ?thesis using line rc by simp
    next
      case False
      then have "before = h @ takeWhile isIniSpace r" "v @ after = c # cs" using s sv Cons tc by auto
      then show ?thesis using line rc by simp
    qed
  qed
qed

lemma rewritten_plain:
  assumes edit: "\<And>names. \<forall>n \<in> set (edit names). n \<in> set names \<or> list_all plain_char n"
    and line: "list_all plain_char line" and w: "editServerValue line edit continued = Some w"
  shows "list_all plain_char w"
proof -
  obtain before vl after where sp: "split_value line = (before, vl, after)" by (cases "split_value line")
  have l: "line = before @ vl @ after" by (rule split_value_parts [OF sp])
  define raw where "raw = (if trim vl = [] then [] else split_on (CHR '','') (trim vl))"
  define names where "names = edit (filter (\<lambda>n. n \<noteq> []) (map trim raw))"
  let ?j = "join '','' (spaced_names continued raw names)"
  have wv: "w = before @ leading_ws vl @ trimEnd ?j @ (if trim vl = [] then [] else trailing_ws vl) @ after"
    using w by (simp add: editServerValue_def sp Let_def raw_def [symmetric] names_def [symmetric] split: if_splits)
  have vl: "list_all plain_char vl" using line by (simp add: l)
  have rs: "list_all plain_char s" if "s \<in> set raw" for s
    using that split_on_parts [of s "CHR '',''" "trim vl"] set_trim [of vl] vl by (auto simp: raw_def list_all_iff split: if_splits)
  have ns: "list_all plain_char n" if listed: "n \<in> set names" for n
  proof -
    consider "n \<in> set (filter (\<lambda>n. n \<noteq> []) (map trim raw))" | "list_all plain_char n"
      using bspec [OF edit listed [unfolded names_def]] by (rule disjE)
    then show ?thesis
    proof cases
      case 1
      then obtain s where "s \<in> set raw" "n = trim s" by auto
      then show ?thesis using rs set_trim [of s] by (auto simp: list_all_iff)
    qed
  qed
  have "list_all plain_char ?j"
    unfolding list_all_iff
  proof
    fix d assume "d \<in> set ?j"
    then have "d \<in> set '','' \<union> ({CHR '' ''} \<union> \<Union>(set ` set raw) \<inter> Collect js_ws \<union> \<Union>(set ` set names))"
      using spaced_chars by (rule rev_subsetD)
    then have "d = CHR '','' \<or> d = CHR '' '' \<or> (\<exists>s \<in> set raw. d \<in> set s) \<or> (\<exists>n \<in> set names. d \<in> set n)"
      by (simp only: Un_iff Int_iff UN_iff list.set insert_iff empty_iff) blast
    then consider "d = CHR '',''" | "d = CHR '' ''" | s where "s \<in> set raw" "d \<in> set s" | n where "n \<in> set names" "d \<in> set n" by blast
    then show "plain_char d"
    proof cases
      case 3
      then show ?thesis using rs by (auto simp: list_all_iff)
    next
      case 4
      then show ?thesis using ns by (auto simp: list_all_iff)
    qed (simp_all add: plain_char_def)
  qed
  then have "list_all plain_char (trimEnd ?j)" using sub_parts(3) [of ?j] by (auto simp: list_all_iff)
  moreover have "list_all plain_char (leading_ws vl)" "list_all plain_char (trailing_ws vl)"
    using vl sub_parts(1,2) [of vl] by (auto simp: list_all_iff)
  ultimately show ?thesis using line by (simp add: wv l)
qed

text \<open>Every line of the edited file is a line of the file or a rewritten key, and keeps the shape of a plain line.\<close>

lemma edited_lines:
  assumes p: "plain_conf confdata" and edit: "\<And>names. \<forall>n \<in> set (edit names). n \<in> set names \<or> database_name n"
  shows "confdata = pre @ ls \<Longrightarrow> i = Suc (length pre) \<Longrightarrow> w \<in> set (edited edit sel confdata i cur ls) \<Longrightarrow>
    w \<in> set ls \<or> (plain_shape w \<and> (\<exists>k v. line_kind_of w = Key k v) \<and> \<not> last_is (CHR 0x5C) (trimIniEnd w))"
proof (induction ls arbitrary: pre i cur)
  case Nil
  then show ?case by simp
next
  case (Cons l ls)
  have l: "l \<in> set confdata" using Cons.prems(1) by simp
  have pl: "plain_line l" using p l by (auto simp: plain_conf_def list_all_iff)
  have s: "seg [] (l # ls) = (1, Some (iniTrim l))" by (rule simple_seg [OF plain_simple [OF pl]])
  have kk: "kind_in (Some (iniTrim l)) = line_kind_of l" by (simp add: kind_in_def line_kind_of_def)
  have nb: "\<not> last_is (CHR 0x5C) (trimIniEnd l)" using plain_simple [OF pl] by (simp add: simple_line_def)
  then have ll: "snd (logicalLine confdata (i - 1)) = l" using Cons.prems(1,2) by (simp add: logicalLine_def)
  have t1: "take 1 (l # ls) = [l]" by simp
  from Cons.prems(3) consider (here) "w \<in> set (case (if is_server_key (line_kind_of l) cur \<and> sel i then editServerValue l edit (1 > (1::nat)) else None) of
       None \<Rightarrow> [l] | Some rewritten \<Rightarrow> [rewritten])"
    | (later) "w \<in> set (edited edit sel confdata (Suc i) (next_section (line_kind_of l) cur) ls)"
    unfolding edited_unfold [OF s] kk ll t1 by auto
  then show ?case
  proof cases
    case later
    then show ?thesis using Cons.IH [of "pre @ [l]" "Suc i" "next_section (line_kind_of l) cur"] Cons.prems(1,2) by auto
  next
    case here
    show ?thesis
    proof (cases "w = l")
      case False
      then have sk: "is_server_key (line_kind_of l) cur" and w: "editServerValue l edit (1 > (1::nat)) = Some w"
        using here by (auto split: if_splits option.splits)
      obtain k v where kv: "line_kind_of l = Key k v" "lower k = ''server''" using sk by (auto simp: is_server_key_def split: line_kind.splits)
      have tidy: "tidy_line l" using p l kv by (auto simp: plain_conf_def list_all_iff split: line_kind.splits)
      have e: "\<forall>n \<in> set (edit (listNames v)). n \<in> set (listNames v) \<or> proper_name n" using edit by (auto simp: database_name_def)
      obtain v' where v': "kind_of (iniTrim w) = Key k v'" "\<not> last_is (CHR 0x5C) (trimIniEnd w)"
        using edit_one_key [where edit = edit and continued = "1 > (1::nat)", OF kv(1) [unfolded line_kind_of_def] kv(2) tidy nb e] w by auto
      have pc: "list_all plain_char w"
        by (rule rewritten_plain [OF _ _ w]) (use edit pl in \<open>auto simp: database_name_def plain_line_def plain_shape_def\<close>)
      have "\<not> (c = CHR ''['' \<and> last_is (CHR '']'') cs)" if "iniTrim w = c # cs" for c cs
        using v'(1) that by (auto simp: kind_of_def Let_def last_is_def split: if_splits)
      then have "plain_shape w" using pc by (auto simp: plain_shape_def split: list.splits)
      then show ?thesis using v' by (auto simp: line_kind_of_def)
    qed simp
  qed
qed

section \<open>Renaming a database\<close>

lemma set_fold_push_new_all: "set (fold push_new xs acc) = set acc \<union> set xs"
  by (induction xs arbitrary: acc) auto

lemma set_rename_names:
  "set (rename_names oldName newName names) =
    (if oldName \<in> set names then insert newName (set names - {oldName}) else set names)"
  by (auto simp: rename_names_def set_fold_push_new_all)

lemma rename_names_ok: "database_name newName \<Longrightarrow> \<forall>n \<in> set (rename_names oldName newName names). n \<in> set names \<or> database_name n"
  by (auto simp: set_rename_names split: if_splits)

lemma plain_keys_from:
  "x \<in> set (plain_keys cur ls) \<Longrightarrow> fst x = cur \<or> (\<exists>l \<in> set ls. \<exists>n. line_kind_of l = Header n \<and> fst x = Some n)"
  by (induction ls arbitrary: cur) (fastforce simp: next_section_def split: line_kind.splits)+

definition renamed :: "string list \<Rightarrow> string \<Rightarrow> string \<Rightarrow> string list" where
  "renamed confdata oldName newName = fst (renameDbSection (renameAutostart confdata oldName newName) oldName newName)"


definition host_conf :: "string list" where
  "host_conf = [''[service]'', ''server = demodb, testdb  # start'', ''[@demodb]'', ''ha_mode=off'']"


section \<open>Adding a database to the autostart list\<close>

fun header_at :: "nat \<Rightarrow> string \<Rightarrow> string list \<Rightarrow> nat option" where
  "header_at i n [] = None"
| "header_at i n (l # ls) = (if line_kind_of l = Header n then Some i else header_at (Suc i) n ls)"

lemma header_at_split:
  "header_at i n ls = Some h \<Longrightarrow> \<exists>A hdr B. ls = A @ hdr # B \<and> h = i + length A \<and> line_kind_of hdr = Header n"
proof (induction i n ls rule: header_at.induct)
  case (2 i n l ls)
  show ?case
  proof (cases "line_kind_of l = Header n")
    case True
    then show ?thesis using "2.prems" by (intro exI [of _ "[]"] exI [of _ l] exI [of _ ls]) auto
  next
    case False
    with "2.IH" "2.prems" obtain A hdr B where "ls = A @ hdr # B" "h = Suc i + length A" "line_kind_of hdr = Header n" by auto
    then show ?thesis by (intro exI [of _ "l # A"] exI [of _ hdr] exI [of _ B]) simp
  qed
qed simp

definition line_of :: "string option \<Rightarrow> conf_section list \<Rightarrow> nat option option" where
  "line_of name secs = map_option sec_lineNo (find (\<lambda>sec. sec_name sec = name) secs)"

lemma line_of_map:
  "(\<And>sec. sec_name (g sec) = sec_name sec \<and> sec_lineNo (g sec) = sec_lineNo sec) \<Longrightarrow> line_of name (map g secs) = line_of name secs"
  by (induction secs) (auto simp: line_of_def)

lemma line_of_sectionFor:
  "line_of name (cr_sections (sectionFor n ln r)) =
    (if line_of name (cr_sections r) = None \<and> n = name then Some ln else line_of name (cr_sections r))"
proof -
  have "line_of name (secs @ [\<lparr>sec_name = n, sec_lineNo = ln, sec_entries = []\<rparr>])
      = (if line_of name secs = None \<and> n = name then Some ln else line_of name secs)" for secs
    by (induction secs) (auto simp: line_of_def)
  moreover have "line_of n secs \<noteq> None" if "\<exists>sec \<in> set secs. sec_name sec = n" for secs
    using that by (induction secs) (auto simp: line_of_def)
  ultimately show ?thesis by (cases "\<exists>sec \<in> set (cr_sections r). sec_name sec = n") (auto simp: sectionFor_def)
qed

lemma logical_line_lines:
  "line_of (Some n) (cr_sections (logical_line line r)) =
    (if line_of (Some n) (cr_sections r) = None \<and> kind_of line = Header n then Some (Some (cr_start r)) else line_of (Some n) (cr_sections r))"
proof -
  have a: "line_of name (cr_sections (add_entry e r)) = line_of name (cr_sections r)" for name e
    unfolding add_entry_def by (simp add: line_of_map)
  show ?thesis
    by (auto simp: logical_line_def kind_of_def Let_def a line_of_sectionFor split: list.splits option.splits prod.splits)
qed

lemma fold_lines:
  "\<forall>l \<in> set ls. simple_line l \<Longrightarrow> cr_pending r = [] \<Longrightarrow>
    line_of (Some n) (cr_sections (fold physical_line (List.enumerate i ls) r)) =
      (case line_of (Some n) (cr_sections r) of Some x \<Rightarrow> Some x | None \<Rightarrow> map_option Some (header_at i n ls))"
proof (induction ls arbitrary: i r)
  case Nil
  then show ?case by (simp split: option.splits)
next
  case (Cons l ls)
  let ?r = "r\<lparr>cr_pending := [], cr_start := i\<rparr>"
  have s: "\<not> too_long [] l" "\<not> last_is (CHR 0x5C) (trimIniEnd l)"
    using Cons.prems(1) utf8Length_drop_cr [of l] by (auto simp: simple_line_def too_long_def)
  have p: "physical_line (i, l) r = logical_line (iniTrim l) ?r"
    using s Cons.prems(2) by (simp add: physical_line_def too_long_def Let_def)
  have pend: "cr_pending (physical_line (i, l) r) = []" by (simp add: p logical_line_pending)
  have "line_of (Some n) (cr_sections (fold physical_line (List.enumerate (Suc i) ls) (physical_line (i, l) r))) =
      (case line_of (Some n) (cr_sections (physical_line (i, l) r)) of Some x \<Rightarrow> Some x | None \<Rightarrow> map_option Some (header_at (Suc i) n ls))"
    by (rule Cons.IH [OF _ pend]) (use Cons.prems(1) in simp)
  then show ?case by (auto simp: p logical_line_lines line_kind_of_def split: option.splits)
qed

lemma serviceHeaderLine_at:
  assumes "\<forall>l \<in> set confdata. simple_line l"
  shows "serviceHeaderLine confdata = header_at 1 ''service'' confdata"
proof -
  let ?r = "fold physical_line (List.enumerate 1 confdata) init_reader"
  have fl: "find (\<lambda>sec. sec_name sec = Some nm) (filter (\<lambda>sec. sec_name sec \<noteq> None \<or> sec_entries sec \<noteq> []) secs)
      = find (\<lambda>sec. sec_name sec = Some nm) secs" for nm :: string and secs
    by (induction secs) auto
  have "line_of (Some ''service'') (cr_sections ?r) = map_option Some (header_at 1 ''service'' confdata)"
    using fold_lines [OF assms, of init_reader "''service''" 1] by (simp add: init_reader_def line_of_def)
  then show ?thesis unfolding serviceHeaderLine_def parseConfText_def Let_def fst_conv fl line_of_def
    by (cases "find (\<lambda>sec. sec_name sec = Some ''service'') (cr_sections ?r)"; cases "header_at 1 ''service'' confdata") auto
qed

lemma server_line_kind:
  assumes "database_name db"
  shows "line_kind_of (''server='' @ db) = Key ''server'' db" "\<not> last_is (CHR 0x5C) (trimIniEnd (''server='' @ db))"
proof -
  have pn: "proper_name db" and ln: "list_name db" using assms by (auto simp: database_name_def proper_name_def)
  have tn: "iniTrim db = db" "\<not> isIniSpace (last db)" "db \<noteq> []" using list_name_trimmed [OF ln] ln by (auto simp: list_name_def)
  have k: "keyed (''server='' @ db) [] ''server'' db" by (simp add: keyed_def isIniSpace_def)
  have tv: "text_value (trimIniEnd (body_of (db @ []))) = iniTrim db"
    by (rule text_value_plain) (use pn in \<open>auto simp: proper_name_def list_all_iff\<close>)
  have srv: "iniTrim ''server'' = ''server''" by code_simp
  show "line_kind_of (''server='' @ db) = Key ''server'' db"
    using keyed_kind [OF k] tv srv tn(1) by (simp add: line_kind_of_def)
  have "trimIniEnd db = db" using tn by (metis dropWhile.simps(2) hd_Cons_tl hd_rev rev_is_Nil_conv rev_rev_ident trimIniEnd_def)
  moreover have "\<not> list_all isIniSpace db" using tn by (auto simp: list_all_iff)
  ultimately have "trimIniEnd (''server='' @ db) = ''server='' @ db" using trimIniEnd_append [of "''server=''" db] by simp
  moreover have "last db \<noteq> CHR 0x5C" using pn tn(3) by (auto simp: proper_name_def list_all_iff)
  ultimately show "\<not> last_is (CHR 0x5C) (trimIniEnd (''server='' @ db))" using tn(3) by (simp add: last_is_def)
qed

lemma value_in_append:
  "value_in name key (xs @ (n, k, v) # ys) =
    (if (n = name \<and> lower k = key) \<and> value_in name key ys = None then Some v
     else if value_in name key ys = None then value_in name key xs else value_in name key ys)"
  by (auto simp: value_in_values values_of_def)

lemma value_in_append2:
  "value_in name key (xs @ ys) = (if value_in name key ys = None then value_in name key xs else value_in name key ys)"
  by (auto simp: value_in_values values_of_def)



end
