(* ===== verification/JsNumber.thy ===== *)
theory JsNumber
  imports JsPrelude Complex_Main
begin

text \<open>
  The numbers of the language, as far as the checks of configuration values compute with them: an IEEE
  double is a rational, an infinity or NaN, and the result of an operation is the exact one rounded to
  53 bits, halves to even. The sign of zero is not kept: no check reads it.
\<close>

section \<open>Rounding\<close>

datatype jsnum = Num rat | PosInf | NegInf | NaN

fun bit_length :: "nat \<Rightarrow> nat" where
  "bit_length n = (if n = 0 then 0 else Suc (bit_length (n div 2)))"

declare bit_length.simps [simp del]

text \<open>The exponent of the largest power of two that is at most a positive rational.\<close>

definition floor_log2 :: "rat \<Rightarrow> int" where
  "floor_log2 a =
     (let (p, q) = quotient_of a;
          t = int (bit_length (nat p)) - int (bit_length (nat q))
      in if 2 powi t \<le> a then t else t - 1)"

definition half_even :: "rat \<Rightarrow> int" where
  "half_even q =
     (let n = \<lfloor>q\<rfloor>; d = q - of_int n
      in if d < 1 / 2 then n else if d > 1 / 2 then n + 1 else if even n then n else n + 1)"

definition round_magnitude :: "rat \<Rightarrow> rat" where
  "round_magnitude a =
     (let e = max (- 1074) (floor_log2 a - 52) in of_int (half_even (a / 2 powi e)) * 2 powi e)"

definition to_double :: "rat \<Rightarrow> jsnum" where
  "to_double r =
     (if r = 0 then Num 0
      else let a = round_magnitude \<bar>r\<bar>
           in if a \<ge> 2 ^ 1024 then (if r < 0 then NegInf else PosInf)
              else Num (if r < 0 then - a else a))"

section \<open>Operations\<close>

fun num_sign :: "jsnum \<Rightarrow> rat" where
  "num_sign (Num r) = sgn r"
| "num_sign PosInf = 1"
| "num_sign NegInf = - 1"
| "num_sign NaN = 0"

definition signed_inf :: "rat \<Rightarrow> jsnum" where
  "signed_inf s = (if s = 0 then NaN else if s < 0 then NegInf else PosInf)"

fun num_mult :: "jsnum \<Rightarrow> jsnum \<Rightarrow> jsnum" where
  "num_mult (Num a) (Num b) = to_double (a * b)"
| "num_mult NaN y = NaN"
| "num_mult x NaN = NaN"
| "num_mult x y = signed_inf (num_sign x * num_sign y)"

text \<open>\<open>a < b\<close>, which no NaN satisfies on either side, and \<open>Math.trunc\<close>.\<close>

fun num_less :: "jsnum \<Rightarrow> jsnum \<Rightarrow> bool" where
  "num_less (Num a) (Num b) = (a < b)"
| "num_less NegInf (Num b) = True"
| "num_less NegInf PosInf = True"
| "num_less (Num a) PosInf = True"
| "num_less x y = False"

definition trunc_rat :: "rat \<Rightarrow> int" where
  "trunc_rat r = (if r < 0 then \<lceil>r\<rceil> else \<lfloor>r\<rfloor>)"

fun num_trunc :: "jsnum \<Rightarrow> jsnum" where
  "num_trunc (Num r) = Num (of_int (trunc_rat r))"
| "num_trunc x = x"

definition number_of :: "jsnum \<Rightarrow> rat" where
  "number_of n = (case n of Num r \<Rightarrow> r | _ \<Rightarrow> 0)"

definition num_int :: "int \<Rightarrow> jsnum" where
  "num_int i = to_double (of_int i)"

section \<open>Decimal text\<close>

text \<open>
  The decimal number a text starts with, \<open>/^[+-]?(?:\d+(?:\.\d*)?|\.\d+)(?:[eE][+-]?\d+)?/\<close>, as the
  exact rational and the text after it.
\<close>

definition sign_of :: "string \<Rightarrow> rat \<times> string" where
  "sign_of s = (case s of
       [] \<Rightarrow> (1, [])
     | c # cs \<Rightarrow> if c = CHR ''-'' then (- 1, cs) else if c = CHR ''+'' then (1, cs) else (1, c # cs))"

definition exponent_of :: "string \<Rightarrow> int \<times> string" where
  "exponent_of s = (case s of
       [] \<Rightarrow> (0, [])
     | c # cs \<Rightarrow>
         (let (sign, digits) = sign_of cs; ds = takeWhile is_digit digits
          in if (c = CHR ''e'' \<or> c = CHR ''E'') \<and> ds \<noteq> []
             then ((if sign < 0 then - 1 else 1) * digits_value ds, dropWhile is_digit digits)
             else (0, c # cs)))"

text \<open>The digits before and after the point, and the rest.\<close>

definition mantissa_of :: "string \<Rightarrow> (string \<times> string \<times> string) option" where
  "mantissa_of s =
     (let ds = takeWhile is_digit s; rest = dropWhile is_digit s
      in case rest of
           c # cs \<Rightarrow>
             if c = CHR ''.'' \<and> (ds \<noteq> [] \<or> takeWhile is_digit cs \<noteq> [])
             then Some (ds, takeWhile is_digit cs, dropWhile is_digit cs)
             else if ds = [] then None else Some (ds, [], rest)
         | [] \<Rightarrow> if ds = [] then None else Some (ds, [], []))"

definition decimal_prefix :: "string \<Rightarrow> (rat \<times> string) option" where
  "decimal_prefix s =
     (let (sign, body) = sign_of s
      in case mantissa_of body of
           None \<Rightarrow> None
         | Some (ds, fs, rest) \<Rightarrow>
             (let (e, rest') = exponent_of rest
              in Some (sign * of_int (digits_value (ds @ fs)) * 10 powi (e - int (length fs)), rest')))"

section \<open>What rounding keeps\<close>

lemma bit_length_bounds: "0 < n \<Longrightarrow> 2 ^ (bit_length n - 1) \<le> n \<and> n < 2 ^ bit_length n \<and> 0 < bit_length n"
proof (induction n rule: bit_length.induct)
  case (1 n)
  show ?case
  proof (cases "n div 2 = 0")
    case True
    then have "n = 1" using "1.prems" by simp
    then show ?thesis by (simp add: bit_length.simps)
  next
    case False
    then have IH: "2 ^ (bit_length (n div 2) - 1) \<le> n div 2" "n div 2 < 2 ^ bit_length (n div 2)" "0 < bit_length (n div 2)"
      using "1.IH" "1.prems" by auto
    have "bit_length n = Suc (bit_length (n div 2))" using "1.prems" by (subst bit_length.simps) simp
    moreover obtain k where "bit_length (n div 2) = Suc k" using IH(3) gr0_implies_Suc by blast
    ultimately have "bit_length n = Suc (Suc k)" "2 ^ k \<le> n div 2" "n div 2 < 2 * 2 ^ k" using IH by simp_all
    moreover from this have "2 * 2 ^ k \<le> n" "n < 4 * 2 ^ k" by linarith+
    ultimately show ?thesis by simp
  qed
qed

lemma floor_log2_le:
  assumes "0 < a"
  shows "2 powi floor_log2 a \<le> a"
proof -
  obtain p q where pq: "quotient_of a = (p, q)" by (cases "quotient_of a")
  have q: "0 < q" using pq by (rule quotient_of_denom_pos)
  have a: "a = of_int p / of_int q" using pq by (rule quotient_of_div)
  have p: "0 < p" using a q assms by (simp add: zero_less_divide_iff)
  define t where "t = int (bit_length (nat p)) - int (bit_length (nat q))"
  have bp: "2 ^ (bit_length (nat p) - 1) \<le> nat p" "0 < bit_length (nat p)"
    and bq: "nat q < 2 ^ bit_length (nat q)"
    using bit_length_bounds [of "nat p"] bit_length_bounds [of "nat q"] p q by auto
  have "(2::rat) powi (t - 1) = 2 ^ (bit_length (nat p) - 1) / 2 ^ bit_length (nat q)"
  proof -
    obtain k where "bit_length (nat p) = Suc k" using bp(2) gr0_implies_Suc by blast
    then show ?thesis by (simp add: t_def power_int_diff)
  qed
  also have "\<dots> \<le> of_int p / of_int q"
  proof (rule frac_le)
    show "(2::rat) ^ (bit_length (nat p) - 1) \<le> of_int p"
      using bp(1) p by (metis of_int_of_nat_eq of_nat_le_iff of_nat_numeral of_nat_power int_nat_eq less_imp_le)
    show "of_int q \<le> (2::rat) ^ bit_length (nat q)"
      using bq q by (metis of_int_of_nat_eq of_nat_less_iff of_nat_numeral of_nat_power int_nat_eq less_imp_le)
  qed (use p q in simp_all)
  finally show ?thesis unfolding a [symmetric] using pq by (simp add: floor_log2_def t_def Let_def)
qed

lemma half_even_int [simp]: "half_even (of_int n) = n"
  by (simp add: half_even_def)

lemma round_magnitude_exact:
  assumes "0 < m" "m < 2 ^ 53" "- 1074 \<le> k"
  shows "round_magnitude (of_int m * 2 powi k) = of_int m * 2 powi k"
proof -
  define a where "a = (of_int m * 2 powi k :: rat)"
  have pos: "0 < a" using assms by (simp add: a_def)
  have "(of_int m :: rat) < 2 ^ 53" using assms(2) by (metis of_int_less_iff of_int_numeral of_int_power)
  then have "a < 2 powi (k + 53)"
    by (simp add: a_def power_int_add mult.commute)
  then have "2 powi floor_log2 a < (2::rat) powi (k + 53)" using le_less_trans [OF floor_log2_le [OF pos]] by blast
  then have fl: "floor_log2 a - 52 \<le> k"
    using power_int_increasing [of "k + 53" "floor_log2 a" "2::rat"] by linarith
  define e where "e = max (- 1074) (floor_log2 a - 52)"
  have e: "e \<le> k" using fl assms(3) by (simp add: e_def)
  have "a / 2 powi e = of_int (m * 2 ^ nat (k - e))"
    using e by (simp add: a_def power_int_diff flip: power_int_of_nat)
  then have "round_magnitude a = of_int (m * 2 ^ nat (k - e)) * 2 powi e"
    by (simp only: round_magnitude_def e_def [symmetric] Let_def half_even_int)
  also have "\<dots> = a" using \<open>a / 2 powi e = of_int (m * 2 ^ nat (k - e))\<close> by (simp add: field_simps)
  finally show ?thesis by (simp add: a_def)
qed

lemma to_double_exact:
  assumes "\<bar>m\<bar> < 2 ^ 53" "- 1074 \<le> k" "k \<le> 971"
  shows "to_double (of_int m * 2 powi k) = Num (of_int m * 2 powi k)"
proof (cases "m = 0")
  case False
  let ?r = "of_int m * 2 powi k :: rat"
  have "\<bar>?r\<bar> = of_int \<bar>m\<bar> * 2 powi k" by (simp add: abs_mult)
  then have r: "round_magnitude \<bar>?r\<bar> = \<bar>?r\<bar>" using round_magnitude_exact [of "\<bar>m\<bar>" k] assms False by simp
  have "(of_int \<bar>m\<bar> :: rat) < 2 ^ 53" using assms(1) by (metis of_int_less_iff of_int_numeral of_int_power)
  then have "\<bar>?r\<bar> < 2 ^ 53 * 2 powi k" by (simp add: abs_mult)
  also have "\<dots> \<le> 2 ^ 53 * 2 powi 971" using power_int_increasing [OF assms(3), of "2::rat"] by (intro mult_left_mono) simp_all
  also have "\<dots> = (2::rat) ^ 1024" by (simp add: flip: power_add)
  finally show ?thesis using False by (simp add: to_double_def r Let_def)
qed (simp add: to_double_def)

lemma num_int_exact: "\<bar>i\<bar> < 2 ^ 53 \<Longrightarrow> num_int i = Num (of_int i)"
  using to_double_exact [of i 0] by (simp add: num_int_def)

end
