(* ===== verification/ParamGuards.thy ===== *)
theory ParamGuards
  imports JsNumber ConfText
begin

text \<open>
  Model of \<open>param-schema/validate-param-value.ts\<close> and \<open>param-guard.ts\<close>: the rule for the values of one
  parameter and the check of a raw text against it. A message is a constructor of \<open>reason\<close> with the
  values it prints. Whole numbers are read exactly: a text whose double would differ from it is far
  outside every bound they are compared with. Values with decimals are doubles (\<open>JsNumber\<close>).
\<close>

section \<open>Guards\<close>

text \<open>\<open>NoKind\<close> is an object that has no \<open>kind\<close>, such as a function inherited by a plain object.\<close>

datatype ParamGuard =
    EnumGuard "string list" "(int \<times> int) option"
  | BooleanGuard
  | IntGuard "int option" "int option" "nat option"
  | FloatGuard "rat option" "rat option"
  | BigintGuard "int option" "int option"
  | IntListGuard bool
  | SizeGuard "int option" "int option"
  | BrokerSizeGuard string "int option" "int option" "int list option"
  | BrokerTimeGuard "int option" "int option" bool
  | TimeGuard "int option" "int option"
  | OpaqueGuard
  | CmsMegabytesGuard int int
  | StringGuard bool
  | NoKind

datatype reason =
    MustBeOneOf "string list"
  | MustBeYesOrNo
  | TooManyValues
  | IntegersOnly
  | MustBeInteger
  | MustBeHex32
  | MustBeInt32
  | IntAtLeast int
  | IntAtMost int
  | NotASize
  | ValueTooLarge
  | SizeAtLeast string
  | SizeAtMost string
  | NotABrokerSize
  | SizeUnitUnknown
  | SizeUnder2T
  | KbAtLeast int
  | KbAtMost int
  | KbOneOf "int list"
  | NotABrokerTime
  | TimeUnitUnknown
  | TimeTooLarge
  | SecondsAtLeast int
  | SecondsAtMost int
  | NotATime
  | MsAtLeast int
  | MsAtMost int
  | MustBeNumber
  | NumberAtLeast rat
  | NumberAtMost rat
  | NotMegabytes
  | MbAtLeast int
  | MbAtMost int

section \<open>Whole numbers\<close>

definition BOOLEAN_WORDS :: "string list" where
  "BOOLEAN_WORDS = [''yes'', ''y'', ''1'', ''true'', ''on'', ''no'', ''n'', ''0'', ''false'', ''off'']"

definition INT_LIST_MAX_ELEMENTS :: nat where
  "INT_LIST_MAX_ELEMENTS = 1023"

definition in_int32 :: "int \<Rightarrow> bool" where
  "in_int32 n \<longleftrightarrow> - 2147483648 \<le> n \<and> n \<le> 2147483647"

text \<open>The sign of a text and what follows it.\<close>

definition split_sign :: "string \<Rightarrow> int \<times> string" where
  "split_sign s = (case s of
       [] \<Rightarrow> (1, [])
     | c # cs \<Rightarrow> if c = CHR ''-'' then (- 1, cs) else if c = CHR ''+'' then (1, cs) else (1, c # cs))"

definition int_text :: "string \<Rightarrow> int option" where
  "int_text s =
     (let (sign, ds) = split_sign (dropWhile js_ws s)
      in if ds \<noteq> [] \<and> list_all is_digit ds then Some (sign * digits_value ds) else None)"

definition isInt32 :: "string \<Rightarrow> bool" where
  "isInt32 s = (case int_text s of None \<Rightarrow> False | Some n \<Rightarrow> in_int32 n)"

definition digit_of :: "char \<Rightarrow> int" where
  "digit_of c = (let n = of_char c :: nat in
     if 48 \<le> n \<and> n \<le> 57 then int n - 48
     else if 97 \<le> n \<and> n \<le> 102 then int n - 87
     else if 65 \<le> n \<and> n \<le> 70 then int n - 55
     else 99)"

definition radix_value :: "int \<Rightarrow> string \<Rightarrow> int" where
  "radix_value b ds = foldl (\<lambda>acc c. acc * b + digit_of c) 0 ds"

definition has_hex_prefix :: "string \<Rightarrow> bool" where
  "has_hex_prefix s \<longleftrightarrow>
     (case s of z # x # d # _ \<Rightarrow> z = CHR ''0'' \<and> (x = CHR ''x'' \<or> x = CHR ''X'') \<and> digit_of d < 16 | _ \<Rightarrow> False)"

definition parseCInt :: "string \<Rightarrow> nat \<Rightarrow> int option" where
  "parseCInt s base =
     (let (sign, body) = split_sign (dropWhile isIniSpace s);
          (digits, radix) =
            (if (base = 16 \<or> base = 0) \<and> has_hex_prefix body then (drop 2 body, 16)
             else if base = 0 then (body, if length body > 1 \<and> hd body = CHR ''0'' then 8 else 10)
             else (body, int base));
          n = sign * radix_value radix digits
      in if digits = [] \<or> \<not> list_all (\<lambda>c. digit_of c < radix) digits then None
         else if in_int32 n then Some n else None)"

definition or_base :: "nat option \<Rightarrow> nat" where
  "or_base b = (case b of None \<Rightarrow> 10 | Some n \<Rightarrow> n)"

definition parseGuardInt :: "nat option \<Rightarrow> string \<Rightarrow> int option" where
  "parseGuardInt base value = parseCInt (trim value) (or_base base)"

section \<open>Numbers with a unit\<close>

definition parseLeadingNumber :: "string \<Rightarrow> (jsnum \<times> string) option" where
  "parseLeadingNumber value =
     (case decimal_prefix (dropWhile isIniSpace value) of
        None \<Rightarrow> None
      | Some (r, rest) \<Rightarrow> Some (to_double r, rest))"

text \<open>A unit table is a plain object, so that a lookup also finds what it inherits; times NaN.\<close>

definition unit_factor :: "(string \<times> jsnum) list \<Rightarrow> string \<Rightarrow> jsnum option" where
  "unit_factor table unit =
     (case map_of table unit of
        Some f \<Rightarrow> Some f
      | None \<Rightarrow> if unit = ''constructor'' \<or> unit = ''__proto__'' then Some NaN else None)"

definition ENGINE_TIME_UNIT_MS :: "(string \<times> jsnum) list" where
  "ENGINE_TIME_UNIT_MS =
     [('''', Num 1), (''ms'', Num 1), (''msec'', Num 1), (''s'', Num 1000), (''sec'', Num 1000), (''min'', Num 60000),
      (''h'', Num 3600000)]"

definition BROKER_TIME_UNIT_SEC :: "(string \<times> jsnum) list" where
  "BROKER_TIME_UNIT_SEC =
     [(''ms'', to_double (1 / 1000)), (''msec'', to_double (1 / 1000)), (''s'', Num 1), (''sec'', Num 1),
      (''min'', Num 60), (''h'', Num 3600)]"

definition BROKER_SIZE_UNIT_KB :: "(string \<times> jsnum) list" where
  "BROKER_SIZE_UNIT_KB =
     [(''B'', Num (1 / 1024)), (''K'', Num 1), (''KB'', Num 1), (''M'', Num 1024), (''MB'', Num 1024),
      (''G'', Num (1024 ^ 2)), (''GB'', Num (1024 ^ 2))]"

definition SIZE_UNIT_BYTES :: "(string \<times> int) list" where
  "SIZE_UNIT_BYTES = [(''T'', 1024 ^ 4), (''G'', 1024 ^ 3), (''M'', 1024 ^ 2), (''K'', 1024)]"

definition ENGINE_SIZE_UNIT_BYTES :: "(string \<times> jsnum) list" where
  "ENGINE_SIZE_UNIT_BYTES =
     [('''', Num 1), (''B'', Num 1), (''K'', Num 1024), (''KB'', Num 1024), (''M'', Num (1024 ^ 2)), (''MB'', Num (1024 ^ 2)),
      (''G'', Num (1024 ^ 3)), (''GB'', Num (1024 ^ 3)), (''T'', Num (1024 ^ 4)), (''TB'', Num (1024 ^ 4)),
      (''P'', Num (1024 ^ 5)), (''PB'', Num (1024 ^ 5))]"

definition parseEngineSizeToBytes :: "string \<Rightarrow> jsnum option" where
  "parseEngineSizeToBytes value =
     (case parseLeadingNumber (trim value) of
        None \<Rightarrow> None
      | Some (number, rest) \<Rightarrow>
          if num_less number (Num 0) then None
          else (case unit_factor ENGINE_SIZE_UNIT_BYTES (upper rest) of
                  None \<Rightarrow> None
                | Some factor \<Rightarrow> Some (num_trunc (num_mult number factor))))"

definition formatBytesAsSize :: "int \<Rightarrow> string" where
  "formatBytesAsSize bytes =
     (if bytes = 0 then ''0''
      else case find (\<lambda>(unit, factor). bytes mod factor = 0) SIZE_UNIT_BYTES of
             Some (unit, factor) \<Rightarrow> int_str (bytes div factor) @ unit
           | None \<Rightarrow> if bytes = 1 then ''1 byte'' else int_str bytes @ '' bytes'')"

definition formatSizeBound :: "int \<Rightarrow> string" where
  "formatSizeBound bound =
     (if \<bar>bound\<bar> < 2 ^ 53 then formatBytesAsSize bound else int_str bound @ '' bytes'')"

section \<open>The check of a value\<close>

text \<open>\<open>if (min !== undefined && n < min) \<dots>; if (max !== undefined && n > max) \<dots>; return null\<close>.\<close>

definition range_reason ::
  "('b \<Rightarrow> bool) \<Rightarrow> ('b \<Rightarrow> bool) \<Rightarrow> ('b \<Rightarrow> reason) \<Rightarrow> ('b \<Rightarrow> reason) \<Rightarrow> 'b option \<Rightarrow> 'b option \<Rightarrow> reason option" where
  "range_reason tooLow tooHigh low high mn mx =
     (case mn of
        Some m \<Rightarrow> if tooLow m then Some (low m)
                  else (case mx of Some x \<Rightarrow> if tooHigh x then Some (high x) else None | None \<Rightarrow> None)
      | None \<Rightarrow> (case mx of Some x \<Rightarrow> if tooHigh x then Some (high x) else None | None \<Rightarrow> None))"

abbreviation int_range :: "int \<Rightarrow> (int \<Rightarrow> reason) \<Rightarrow> (int \<Rightarrow> reason) \<Rightarrow> int option \<Rightarrow> int option \<Rightarrow> reason option" where
  "int_range n \<equiv> range_reason (\<lambda>m. n < m) (\<lambda>x. x < n)"

abbreviation num_range :: "jsnum \<Rightarrow> (int \<Rightarrow> reason) \<Rightarrow> (int \<Rightarrow> reason) \<Rightarrow> int option \<Rightarrow> int option \<Rightarrow> reason option" where
  "num_range n \<equiv> range_reason (\<lambda>m. num_less n (Num (of_int m))) (\<lambda>x. num_less (Num (of_int x)) n)"

definition is_letter :: "char \<Rightarrow> bool" where
  "is_letter c \<longleftrightarrow> (let n = of_char c :: nat in (65 \<le> n \<and> n \<le> 90) \<or> (97 \<le> n \<and> n \<le> 122))"

definition starts_with_letter :: "string \<Rightarrow> bool" where
  "starts_with_letter s \<longleftrightarrow> s \<noteq> [] \<and> is_letter (hd s)"

definition enum_reason :: "string list \<Rightarrow> (int \<times> int) option \<Rightarrow> string \<Rightarrow> reason option" where
  "enum_reason options numericRange v =
     (if \<exists>w \<in> set options. lower w = lower v then None
      else case (numericRange, int_text v) of
             (Some (lo, hi), Some n) \<Rightarrow> if in_int32 n \<and> lo \<le> n \<and> n \<le> hi then None else Some (MustBeOneOf options)
           | _ \<Rightarrow> Some (MustBeOneOf options))"

definition int_list_reason :: "bool \<Rightarrow> string \<Rightarrow> reason option" where
  "int_list_reason allowDefault v =
     (if lower v = ''null'' \<or> v = ''0'' then None
      else let parts = split_on (CHR '','') v
           in if length parts > INT_LIST_MAX_ELEMENTS then Some TooManyValues
              else if list_all (\<lambda>p. (allowDefault \<and> lower p = ''default'') \<or> isInt32 p) parts then None
              else Some IntegersOnly)"

definition bigint_reason :: "int option \<Rightarrow> int option \<Rightarrow> string \<Rightarrow> reason option" where
  "bigint_reason mn mx v =
     (let (sign, ds) = (case trim v of c # cs \<Rightarrow> if c = CHR ''-'' then (- 1, cs) else (1, c # cs) | [] \<Rightarrow> (1, []))
      in if ds = [] \<or> \<not> list_all is_digit ds then Some MustBeInteger
         else int_range (sign * digits_value ds) IntAtLeast IntAtMost mn mx)"

definition int_reason :: "int option \<Rightarrow> int option \<Rightarrow> nat option \<Rightarrow> string \<Rightarrow> reason option" where
  "int_reason mn mx base v =
     (case parseCInt (trim v) (or_base base) of
        None \<Rightarrow> Some (if base = Some 16 then MustBeHex32 else MustBeInt32)
      | Some n \<Rightarrow> int_range n IntAtLeast IntAtMost mn mx)"

definition size_reason :: "int option \<Rightarrow> int option \<Rightarrow> string \<Rightarrow> reason option" where
  "size_reason mn mx v =
     (case parseEngineSizeToBytes v of
        None \<Rightarrow> Some NotASize
      | Some (Num b) \<Rightarrow> num_range (Num b) (\<lambda>m. SizeAtLeast (formatSizeBound m)) (\<lambda>x. SizeAtMost (formatSizeBound x)) mn mx
      | Some _ \<Rightarrow> Some ValueTooLarge)"

definition exact_reason :: "int list option \<Rightarrow> jsnum \<Rightarrow> reason option" where
  "exact_reason exact kb =
     (case exact of
        Some ks \<Rightarrow> if kb \<in> (\<lambda>k. Num (of_int k)) ` set ks then None else Some (KbOneOf ks)
      | None \<Rightarrow> None)"

definition broker_size_reason ::
  "string \<Rightarrow> int option \<Rightarrow> int option \<Rightarrow> int list option \<Rightarrow> string \<Rightarrow> reason option" where
  "broker_size_reason defaultUnit minKb maxKb exactKb v =
     (case parseLeadingNumber v of
        None \<Rightarrow> Some NotABrokerSize
      | Some (number, rest) \<Rightarrow>
          (case unit_factor BROKER_SIZE_UNIT_KB (if starts_with_letter rest then upper rest else defaultUnit) of
             None \<Rightarrow> Some SizeUnitUnknown
           | Some factor \<Rightarrow>
               (let kb = num_mult number factor
                in if num_less (Num 2147483647) kb then Some SizeUnder2T
                   else case num_range (num_trunc kb) KbAtLeast KbAtMost minKb maxKb of
                          Some r \<Rightarrow> Some r
                        | None \<Rightarrow> exact_reason exactKb (num_trunc kb))))"

definition broker_time_reason :: "int option \<Rightarrow> int option \<Rightarrow> bool \<Rightarrow> string \<Rightarrow> reason option" where
  "broker_time_reason minSec maxSec whole v =
     (case parseLeadingNumber v of
        None \<Rightarrow> Some NotABrokerTime
      | Some (number, rest) \<Rightarrow>
          (case unit_factor BROKER_TIME_UNIT_SEC (if starts_with_letter rest then lower rest else ''sec'') of
             None \<Rightarrow> Some TimeUnitUnknown
           | Some factor \<Rightarrow>
               (let sec = num_mult number factor;
                    checked = (if whole then num_trunc sec else sec);
                    least = (case minSec of None \<Rightarrow> 0 | Some m \<Rightarrow> m)
                in if num_less (Num 2147483647) sec then Some TimeTooLarge
                   else num_range checked SecondsAtLeast SecondsAtMost (Some least) maxSec)))"

definition time_reason :: "int option \<Rightarrow> int option \<Rightarrow> string \<Rightarrow> reason option" where
  "time_reason mn mx v =
     (case parseLeadingNumber (trim v) of
        None \<Rightarrow> Some NotATime
      | Some (number, rest) \<Rightarrow>
          if num_less number (Num 0) then num_range (num_trunc number) MsAtLeast MsAtMost mn mx
          else (case unit_factor ENGINE_TIME_UNIT_MS (lower rest) of
                  None \<Rightarrow> Some TimeUnitUnknown
                | Some factor \<Rightarrow> num_range (num_trunc (num_mult number factor)) MsAtLeast MsAtMost mn mx))"

text \<open>The number of a float guard: an optional sign and \<open>0x\<close> digits, or a decimal literal.\<close>

definition float_number :: "string \<Rightarrow> jsnum" where
  "float_number text =
     (let (sign, body) = split_sign text
      in if has_hex_prefix body \<and> list_all (\<lambda>c. digit_of c < 16) (drop 2 body)
         then num_int (sign * radix_value 16 (drop 2 body))
         else case decimal_prefix text of
                Some (r, []) \<Rightarrow> to_double r
              | _ \<Rightarrow> NaN)"

definition float_reason :: "rat option \<Rightarrow> rat option \<Rightarrow> string \<Rightarrow> reason option" where
  "float_reason mn mx v =
     (let n = float_number (trim v)
      in if n = NaN then Some MustBeNumber
         else range_reason (\<lambda>m. num_less n (Num m)) (\<lambda>x. num_less (Num x) n) NumberAtLeast NumberAtMost mn mx)"

definition megabytes_reason :: "int \<Rightarrow> int \<Rightarrow> string \<Rightarrow> reason option" where
  "megabytes_reason mn mx v =
     (let text = trim v;
          ds = (if last_is (CHR ''m'') text \<or> last_is (CHR ''M'') text then butlast text else text)
      in if ds = [] \<or> \<not> list_all is_digit ds then Some NotMegabytes
         else int_range (digits_value ds) MbAtLeast MbAtMost (Some mn) (Some mx))"

fun guard_reason :: "ParamGuard \<Rightarrow> string \<Rightarrow> reason option" where
  "guard_reason (EnumGuard options numericRange) v = enum_reason options numericRange v"
| "guard_reason BooleanGuard v = (if lower v \<in> set BOOLEAN_WORDS then None else Some MustBeYesOrNo)"
| "guard_reason (IntListGuard allowDefault) v = int_list_reason allowDefault v"
| "guard_reason (BigintGuard mn mx) v = bigint_reason mn mx v"
| "guard_reason (IntGuard mn mx base) v = int_reason mn mx base v"
| "guard_reason (SizeGuard mn mx) v = size_reason mn mx v"
| "guard_reason (BrokerSizeGuard unit minKb maxKb exactKb) v = broker_size_reason unit minKb maxKb exactKb v"
| "guard_reason (BrokerTimeGuard minSec maxSec whole) v = broker_time_reason minSec maxSec whole v"
| "guard_reason (TimeGuard mn mx) v = time_reason mn mx v"
| "guard_reason (FloatGuard mn mx) v = float_reason mn mx v"
| "guard_reason (CmsMegabytesGuard mn mx) v = megabytes_reason mn mx v"
| "guard_reason OpaqueGuard v = None"
| "guard_reason (StringGuard nonEmpty) v = None"
| "guard_reason NoKind v = None"

text \<open>The raw value is the text \<open>String\<close> makes of it, or undefined.\<close>

definition validateParamValue :: "ParamGuard option \<Rightarrow> string option \<Rightarrow> reason option" where
  "validateParamValue guard rawValue =
     (case guard of
        None \<Rightarrow> None
      | Some g \<Rightarrow> (case rawValue of
                      None \<Rightarrow> None
                    | Some v \<Rightarrow> if v = [] then None else guard_reason g v))"

end
