(* ===== verification/ParamSchema.thy ===== *)
theory ParamSchema
  imports ParamGuards
begin

text \<open>
  Model of the parameter tables: \<open>param-schema-entry.ts\<close>, \<open>resolve-param-schema.ts\<close>, the tables of
  \<open>cubrid_broker.conf\<close> (\<open>broker-param-schema.ts\<close>, \<open>broker-key-guards.ts\<close>) and of \<open>cm.conf\<close>
  (\<open>cm-param-schema.ts\<close>, \<open>cm-unreleased-keys.ts\<close>). The components of a version are read exactly:
  they are far below the numbers a double cannot hold.
\<close>

section \<open>Engine versions\<close>

lemma length_dropWhile_shorter: "dropWhile P s = c # d # cs \<Longrightarrow> Suc (Suc (length cs)) \<le> length s"
  by (metis length_Cons length_dropWhile_le)

function version_texts :: "string \<Rightarrow> string list" where
  "version_texts s =
     takeWhile is_digit s #
     (case dropWhile is_digit s of
        c # d # cs \<Rightarrow> if c = CHR ''.'' \<and> is_digit d then version_texts (d # cs) else []
      | _ \<Rightarrow> [])"
  by pat_completeness auto

termination
  by (relation "measure length") (auto dest: length_dropWhile_shorter)

declare version_texts.simps [simp del]

text \<open>\<open>version.match(/\d+(?:\.\d+)*/)?.[0] ?? missing\<close>, split at its points.\<close>

definition version_split :: "string \<Rightarrow> string \<Rightarrow> string list" where
  "version_split missing version =
     (case dropWhile (\<lambda>c. \<not> is_digit c) version of
        [] \<Rightarrow> [missing]
      | c # cs \<Rightarrow> version_texts (c # cs))"

definition version_parts :: "string \<Rightarrow> int list" where
  "version_parts version = map digits_value (version_split ''0'' version)"

fun compare_parts :: "int list \<Rightarrow> int list \<Rightarrow> int" where
  "compare_parts [] [] = 0"
| "compare_parts (a # as) [] = (if a \<noteq> 0 then a else compare_parts as [])"
| "compare_parts [] (b # bs) = (if b \<noteq> 0 then - b else compare_parts [] bs)"
| "compare_parts (a # as) (b # bs) = (if a - b \<noteq> 0 then a - b else compare_parts as bs)"

definition compareEngineVersions :: "string \<Rightarrow> string \<Rightarrow> int" where
  "compareEngineVersions a b = compare_parts (version_parts a) (version_parts b)"

text \<open>\<open>minVersion && compareEngineVersions(engineVersion, minVersion) < 0\<close>, and so for \<open>maxVersion\<close>.\<close>

definition in_version_range :: "string option \<Rightarrow> string option \<Rightarrow> string \<Rightarrow> bool" where
  "in_version_range minVersion maxVersion v \<longleftrightarrow>
     \<not> (case minVersion of None \<Rightarrow> False | Some m \<Rightarrow> m \<noteq> [] \<and> compareEngineVersions v m < 0) \<and>
     \<not> (case maxVersion of None \<Rightarrow> False | Some m \<Rightarrow> m \<noteq> [] \<and> compareEngineVersions v m > 0)"

section \<open>Entries\<close>

datatype category = General | Advanced | Buffer | Common | Advance
datatype rule = Gte | Lte
datatype param_scope = ServerScope | ClientScope | BothScope
datatype buffer_role = PagesRole | SizeRole

record ParamSchemaEntry =
  ps_key :: string
  ps_category :: category
  ps_guard :: ParamGuard
  ps_default :: "string option"
  ps_commonOnly :: bool
  ps_instanceOnly :: bool
  ps_required :: bool
  ps_crossField :: "(string \<times> rule) option"
  ps_aliases :: "string list"
  ps_scope :: "param_scope option"
  ps_bufferGroup :: "(string \<times> buffer_role) option"
  ps_advisory :: "(string \<times> string list) option"
  ps_deprecated :: "string option option"

record VersionedParamSchemaEntry = ParamSchemaEntry +
  ps_minVersion :: "string option"
  ps_maxVersion :: "string option"

definition resolveParamSchema :: "VersionedParamSchemaEntry list \<Rightarrow> string \<Rightarrow> ParamSchemaEntry list" where
  "resolveParamSchema entries engineVersion =
     map ParamSchemaEntry.truncate
       (filter (\<lambda>e. in_version_range (ps_minVersion e) (ps_maxVersion e) engineVersion) entries)"

definition entry :: "string \<Rightarrow> category \<Rightarrow> ParamGuard \<Rightarrow> string option \<Rightarrow> VersionedParamSchemaEntry" where
  "entry key category guard dflt =
     \<lparr>ps_key = key, ps_category = category, ps_guard = guard, ps_default = dflt, ps_commonOnly = False,
      ps_instanceOnly = False, ps_required = False, ps_crossField = None, ps_aliases = [],
      ps_scope = None, ps_bufferGroup = None, ps_advisory = None, ps_deprecated = None,
      ps_minVersion = None, ps_maxVersion = None\<rparr>"

definition ON_OFF :: ParamGuard where
  "ON_OFF = EnumGuard [''ON'', ''OFF''] None"

section \<open>The tables\<close>

definition BROKER_PARAM_SCHEMA :: "VersionedParamSchemaEntry list" where
  "BROKER_PARAM_SCHEMA =
    [entry ''SERVICE'' Common (ON_OFF) (Some ''ON''),
     (entry ''BROKER_PORT'' Common (IntGuard (Some 1) (Some 65535) (Some 0)) (Some ''''))\<lparr>ps_instanceOnly := True, ps_required := True\<rparr>,
     (entry ''MIN_NUM_APPL_SERVER'' Common (IntGuard (Some 1) (Some 4096) (Some 0)) (Some ''5''))\<lparr>ps_maxVersion := Some ''11.2.999''\<rparr>,
     (entry ''MAX_NUM_APPL_SERVER'' Common (IntGuard (Some 1) (Some 4096) (Some 0)) (Some ''40''))\<lparr>ps_maxVersion := Some ''11.2.999''\<rparr>,
     (entry ''MIN_NUM_APPL_SERVER'' Common (IntGuard (Some 1) None (Some 0)) (Some ''5''))\<lparr>ps_minVersion := Some ''11.3''\<rparr>,
     (entry ''MAX_NUM_APPL_SERVER'' Common (IntGuard (Some 1) (Some 4096) (Some 0)) (Some ''40''))\<lparr>ps_crossField := Some (''MIN_NUM_APPL_SERVER'', Gte), ps_minVersion := Some ''11.3''\<rparr>,
     (entry ''APPL_SERVER_SHM_ID'' Common (IntGuard (Some 1) None (Some 16)) (Some ''''))\<lparr>ps_instanceOnly := True, ps_required := True\<rparr>,
     entry ''LOG_DIR'' Common (StringGuard False) (Some ''log/broker/sql_log''),
     entry ''ERROR_LOG_DIR'' Common (StringGuard False) (Some ''log/broker/error_log''),
     entry ''SQL_LOG'' Common (EnumGuard [''ALL'', ''ON'', ''NOTICE'', ''TIMEOUT'', ''ERROR'', ''NONE'', ''OFF''] None) (Some ''ON''),
     entry ''TIME_TO_KILL'' Common (BrokerTimeGuard None None True) (Some ''120''),
     entry ''SESSION_TIMEOUT'' Common (BrokerTimeGuard None None True) (Some ''300''),
     entry ''KEEP_CONNECTION'' Common (EnumGuard [''ON'', ''AUTO''] None) (Some ''AUTO''),
     entry ''STATEMENT_POOLING'' Advance (ON_OFF) (Some ''ON''),
     entry ''LONG_QUERY_TIME'' Advance (BrokerTimeGuard None (Some 86400) False) (Some ''60''),
     entry ''LONG_TRANSACTION_TIME'' Advance (BrokerTimeGuard None (Some 86400) False) (Some ''60''),
     entry ''SQL_LOG_MAX_SIZE'' Advance (BrokerSizeGuard ''K'' (Some 0) (Some 2097152) None) (Some ''10M''),
     entry ''LOG_BACKUP'' Advance (ON_OFF) (Some ''OFF''),
     entry ''SOURCE_ENV'' Advance (StringGuard False) (Some ''cubrid.env''),
     entry ''MAX_STRING_LENGTH'' Advance (IntGuard None None (Some 0)) (Some ''-1''),
     entry ''ACCESS_LOG'' Advance (ON_OFF) (Some ''OFF''),
     entry ''ACCESS_LIST'' Advance (StringGuard False) (Some ''''),
     entry ''CCI_PCONNECT'' Advance (ON_OFF) (Some ''OFF''),
     entry ''ACCESS_MODE'' Advance (EnumGuard [''RW'', ''RO'', ''SO''] None) (Some ''RW''),
     entry ''PREFERRED_HOSTS'' Advance (StringGuard False) (Some ''''),
     entry ''CCI_DEFAULT_AUTOCOMMIT'' Advance (ON_OFF) (Some ''ON''),
     entry ''READ_ONLY_BROKER'' Advance (ON_OFF) (Some ''OFF''),
     entry ''APPL_SERVER_MAX_SIZE'' Advance (BrokerSizeGuard ''M'' (Some 0) None None) (Some ''0''),
     entry ''APPL_SERVER_MAX_SIZE_HARD_LIMIT'' Advance (BrokerSizeGuard ''M'' (Some 1) None None) (Some ''1G''),
     entry ''MAX_QUERY_TIMEOUT'' Advance (BrokerTimeGuard None (Some 86400) True) (Some ''0''),
     entry ''AUTO_ADD_APPL_SERVER'' Advance (ON_OFF) (Some ''ON''),
     entry ''CONNECT_ORDER'' Advance (EnumGuard [''SEQ'', ''RANDOM''] None) (Some ''SEQ''),
     entry ''RECONNECT_TIME'' Advance (BrokerTimeGuard None None True) (Some ''600''),
     entry ''SLOW_LOG'' Advance (ON_OFF) (Some ''ON''),
     entry ''SLOW_LOG_DIR'' Advance (StringGuard False) (Some ''''),
     entry ''SSL'' Advance (ON_OFF) (Some ''OFF''),
     (entry ''MASTER_SHM_ID'' Common (IntGuard (Some 1) None (Some 16)) (Some ''''))\<lparr>ps_commonOnly := True, ps_required := True\<rparr>,
     (entry ''ADMIN_LOG_FILE'' Common (StringGuard False) (Some ''log/broker/cubrid_broker.log''))\<lparr>ps_commonOnly := True\<rparr>,
     (entry ''ACCESS_CONTROL'' Common (ON_OFF) (Some ''OFF''))\<lparr>ps_commonOnly := True\<rparr>,
     (entry ''ACCESS_CONTROL_FILE'' Common (StringGuard False) (Some ''''))\<lparr>ps_commonOnly := True\<rparr>,
     (entry ''ACCESS_CONTROL_DEFAULT_POLICY'' Common (EnumGuard [''ALLOW'', ''DENY''] None) (Some ''DENY''))\<lparr>ps_commonOnly := True, ps_minVersion := Some ''11.4''\<rparr>]"

definition CM_PARAM_SCHEMA :: "VersionedParamSchemaEntry list" where
  "CM_PARAM_SCHEMA =
    [entry ''cm_port'' General (IntGuard (Some 1) (Some 65535) None) (Some ''8001''),
     (entry ''cm_process_monitor_interval'' General (IntGuard (Some 5) None None) (Some ''5''))\<lparr>ps_aliases := [''MonitorInterval'']\<rparr>,
     (entry ''allow_user_multi_connection'' General (EnumGuard [''yes'', ''no''] None) (Some ''no''))\<lparr>ps_aliases := [''Allow_UserMultiCon'']\<rparr>,
     entry ''auto_job_timeout'' General (IntGuard (Some 60) None None) (Some ''43200''),
     entry ''max_log_filesize'' General (CmsMegabytesGuard 1 2047) (Some ''4M''),
     entry ''max_log_files'' General (IntGuard (Some 1) None None) (Some ''10''),
     entry ''web_manager_path'' General (StringGuard False) (Some ''''),
     entry ''support_mon_statistic'' General (EnumGuard [''yes'', ''no''] None) (Some ''no''),
     (entry ''http_timeout'' General (IntGuard (Some 1) None None) (Some ''30''))\<lparr>ps_aliases := [''HttpTimeout'']\<rparr>,
     (entry ''auto_update_url'' General (StringGuard False) (Some ''''))\<lparr>ps_aliases := [''AutoUpdateURL'']\<rparr>,
     (entry ''cubrid_server_ver'' General (StringGuard False) (Some ''''))\<lparr>ps_aliases := [''CubridServerVer'']\<rparr>,
     (entry ''token_active_time'' General (BigintGuard (Some 1) (Some 9999999999)) (Some ''7200''))\<lparr>ps_aliases := [''TokenActiveTime'']\<rparr>,
     (entry ''support_web_manager'' General (EnumGuard [''yes'', ''no''] None) (Some ''no''))\<lparr>ps_maxVersion := Some ''11.4.5''\<rparr>]"

definition CM_PENDING_PARAM_SCHEMA :: "VersionedParamSchemaEntry list" where
  "CM_PENDING_PARAM_SCHEMA =
    [entry ''async_job_ttl_sec'' General (IntGuard (Some 60) (Some 604800) None) (Some ''3600''),
     entry ''max_num_async_task'' General (IntGuard (Some 1) (Some 12) None) (Some ''8''),
     entry ''async_long_job_sec'' General (IntGuard (Some 60) (Some 604800) None) (Some ''86400'')]"

definition CM_TEMPLATE_ONLY_KEYS :: "string list" where
  "CM_TEMPLATE_ONLY_KEYS = [''server_long_query_time'', ''execute_diag'']"

text \<open>Key, guard, least and greatest version.\<close>

type_synonym VersionedBrokerKeyGuard = "string \<times> ParamGuard \<times> string option \<times> string option"

definition BROKER_KEY_GUARDS :: "VersionedBrokerKeyGuard list" where
  "BROKER_KEY_GUARDS =
    [(''APPL_SERVER'', EnumGuard [''CAS'', ''CAS_ORACLE'', ''CAS_MYSQL51'', ''CAS_MYSQL''] None, None, Some ''11.1.999''),
     (''APPL_SERVER'', EnumGuard [''CAS'', ''CAS_ORACLE'', ''CAS_MYSQL51'', ''CAS_MYSQL'', ''CAS_CGW''] None, Some ''11.2'', Some ''11.4.999''),
     (''APPL_SERVER'', EnumGuard [''CAS'', ''CAS_CGW''] None, Some ''11.5'', None),
     (''ACCESS_LOG_MAX_SIZE'', BrokerSizeGuard ''K'' (Some 0) (Some 2097152) None, None, None),
     (''NET_BUF_SIZE'', BrokerSizeGuard ''K'' None None (Some [16, 32, 48, 64]), None, None),
     (''CACHE_USER_INFO'', ON_OFF, None, None),
     (''ENABLE_MONITOR_HANG'', ON_OFF, None, None),
     (''ENABLE_MONITOR_SERVER'', ON_OFF, None, None),
     (''JDBC_CACHE'', ON_OFF, None, None),
     (''JDBC_CACHE_HINT_ONLY'', ON_OFF, None, None),
     (''REPLICA_ONLY'', ON_OFF, None, None),
     (''SHARD'', ON_OFF, None, None),
     (''SHARD_IGNORE_HINT'', ON_OFF, None, None),
     (''STRIPPED_COLUMN_NAME'', ON_OFF, None, None),
     (''TRIGGER_ACTION'', ON_OFF, None, None),
     (''JDBC_CACHE_LIFE_TIME'', IntGuard None None (Some 0), None, None),
     (''JOB_QUEUE_SIZE'', IntGuard (Some 0) (Some 2048) (Some 0), None, Some ''11.2.999''),
     (''JOB_QUEUE_SIZE'', IntGuard (Some 0) (Some 4096) (Some 0), Some ''11.3'', None),
     (''MAX_NUM_DELAYED_HOSTS_LOOKUP'', IntGuard (Some (- 1)) None (Some 0), None, None),
     (''MAX_PREPARED_STMT_COUNT'', IntGuard (Some 1) None (Some 0), None, None),
     (''SHARD_MAX_PREPARED_STMT_COUNT'', IntGuard (Some 1) None (Some 0), None, None),
     (''SQL_LOG2'', IntGuard (Some 0) (Some 3) (Some 0), None, None),
     (''SHARD_CONNECTION_FILE'', StringGuard True, None, None),
     (''SHARD_KEY_FILE'', StringGuard True, None, None),
     (''SHARD_NUM_PROXY'', IntGuard (Some 0) (Some 8) (Some 0), None, None),
     (''SHARD_MAX_CLIENTS'', IntGuard (Some 0) (Some 80000) (Some 0), None, None),
     (''SHARD_PROXY_LOG'', EnumGuard [''ALL'', ''ON'', ''SHARD'', ''SCHEDULE'', ''NOTICE'', ''TIMEOUT'', ''ERROR'', ''NONE'', ''OFF''] None, None, None),
     (''SHARD_PROXY_LOG_MAX_SIZE'', BrokerSizeGuard ''K'' (Some 0) (Some 1048576) None, None, None),
     (''SHARD_PROXY_SHM_ID'', IntGuard None None (Some 16), None, None),
     (''SHARD_PROXY_TIMEOUT'', BrokerTimeGuard None (Some 86400) True, None, None),
     (''SHARD_PROXY_CONN_WAIT_TIMEOUT'', BrokerTimeGuard None (Some 86400) True, None, None)]"

definition resolveBrokerKeyGuards :: "string \<Rightarrow> (string, ParamGuard) obj" where
  "resolveBrokerKeyGuards engineVersion =
     fold (\<lambda>(key, guard, minVersion, maxVersion) resolved.
             if in_version_range minVersion maxVersion engineVersion then obj_set key guard resolved else resolved)
       BROKER_KEY_GUARDS []"

end
