(* ===== verification/ParamCheck.thy ===== *)
theory ParamCheck
  imports ParamSchema
begin

text \<open>
  Model of the checks of one section: \<open>validate-params.ts\<close>, \<open>validate-cross-field-params.ts\<close> and
  \<open>validate-effective-params.ts\<close>. Parameters are the texts of the values that are present; a message is
  a constructor of \<open>param_error\<close>.
\<close>

datatype param_error =
    OnlyInSection string
  | NotInSection string
  | EmptyReadsAsZero reason
  | EmptyRejected
  | RequiredBlank
  | MinMaxNumericOnly
  | Refused reason
  | Unordered rule string jsnum

type_synonym params = "(string, string) obj"
type_synonym param_errors = "(string, param_error) obj"

section \<open>Properties of plain objects\<close>

text \<open>
  Reading finds what a plain object inherits, and writing a text to \<open>__proto__\<close> does nothing. Of the
  inherited names these two are in lower case, as the keys are that reach here from a file.
\<close>

definition plain_get :: "string \<Rightarrow> params \<Rightarrow> string option" where
  "plain_get k params =
     (case obj_get params k of
        Some v \<Rightarrow> Some v
      | None \<Rightarrow> if k = ''__proto__'' then Some ''[object Object]''
                else if k = ''constructor'' then Some ''function Object() { [native code] }'' else None)"

definition plain_set :: "string \<Rightarrow> 'v \<Rightarrow> (string, 'v) obj \<Rightarrow> (string, 'v) obj" where
  "plain_set k v params = (if k = ''__proto__'' then params else obj_set k v params)"

section \<open>Numbers of two parameters\<close>

text \<open>\<open>Number(text)\<close>: blank is zero, then a prefixed literal, \<open>Infinity\<close> or a decimal literal.\<close>

definition prefixed :: "char \<Rightarrow> char \<Rightarrow> int \<Rightarrow> string \<Rightarrow> bool" where
  "prefixed low high radix s \<longleftrightarrow>
     (case s of z # x # ds \<Rightarrow> z = CHR ''0'' \<and> (x = low \<or> x = high) \<and> ds \<noteq> [] \<and> list_all (\<lambda>c. digit_of c < radix) ds
      | _ \<Rightarrow> False)"

definition text_number :: "string \<Rightarrow> jsnum" where
  "text_number raw =
     (let s = trim raw
      in if s = [] then Num 0
         else if prefixed (CHR ''x'') (CHR ''X'') 16 s then num_int (radix_value 16 (drop 2 s))
         else if prefixed (CHR ''o'') (CHR ''O'') 8 s then num_int (radix_value 8 (drop 2 s))
         else if prefixed (CHR ''b'') (CHR ''B'') 2 s then num_int (radix_value 2 (drop 2 s))
         else if snd (split_sign s) = ''Infinity'' then (if fst (split_sign s) < 0 then NegInf else PosInf)
         else case decimal_prefix s of Some (r, []) \<Rightarrow> to_double r | _ \<Rightarrow> NaN)"

definition toComparable :: "ParamSchemaEntry option \<Rightarrow> string option \<Rightarrow> jsnum" where
  "toComparable en raw =
     (case raw of
        None \<Rightarrow> NaN
      | Some v \<Rightarrow>
          if v = [] then NaN
          else (case map_option ps_guard en of
                  Some (IntGuard mn mx base) \<Rightarrow> (case parseGuardInt base v of None \<Rightarrow> NaN | Some n \<Rightarrow> Num (of_int n))
                | _ \<Rightarrow> text_number v))"

definition cross_error :: "ParamSchemaEntry list \<Rightarrow> (string \<Rightarrow> string option) \<Rightarrow> ParamSchemaEntry \<Rightarrow> param_error option" where
  "cross_error schema effective e =
     (case ps_crossField e of
        None \<Rightarrow> None
      | Some (other, rule) \<Rightarrow>
          (let self = toComparable (Some e) (effective (ps_key e));
               that = toComparable (find (\<lambda>x. ps_key x = other) schema) (effective other);
               ok = (case rule of Gte \<Rightarrow> \<not> num_less self that | Lte \<Rightarrow> \<not> num_less that self)
           in if self = NaN \<or> that = NaN \<or> ok then None else Some (Unordered rule other that)))"

definition validateCrossFieldParams :: "ParamSchemaEntry list \<Rightarrow> (string \<Rightarrow> string option) \<Rightarrow> param_errors" where
  "validateCrossFieldParams schema effective =
     fold (\<lambda>e errors. case cross_error schema effective e of
             None \<Rightarrow> errors
           | Some r \<Rightarrow> plain_set (ps_key e) r errors) schema []"

section \<open>One request\<close>

text \<open>Last entry of a key, as \<open>new Map(schema.map(\<dots>))\<close> keeps it.\<close>

definition last_entry_of :: "(ParamSchemaEntry \<Rightarrow> string) \<Rightarrow> ParamSchemaEntry list \<Rightarrow> string \<Rightarrow> ParamSchemaEntry option" where
  "last_entry_of key schema k = find (\<lambda>e. key e = k) (rev schema)"

definition validateParams ::
  "ParamSchemaEntry list \<Rightarrow> (string \<times> string option) list \<Rightarrow> param_errors \<times> string list" where
  "validateParams schema params =
     fold (\<lambda>(key, v) (errors, unknown).
             case last_entry_of ps_key schema key of
               None \<Rightarrow> (errors, unknown @ [key])
             | Some e \<Rightarrow>
                 if ps_required e \<and> (case v of None \<Rightarrow> True | Some s \<Rightarrow> trim s = [])
                 then (plain_set key RequiredBlank errors, unknown)
                 else (case validateParamValue (Some (ps_guard e)) v of
                         None \<Rightarrow> (errors, unknown)
                       | Some r \<Rightarrow> (plain_set key (Refused r) errors, unknown)))
       params ([], [])"

section \<open>One section\<close>

record effective_options =
  eo_isCommonSection :: bool
  eo_commonSectionLabel :: string
  eo_emptyValueIsError :: bool
  eo_emptyIntIsZero :: bool
  eo_sysprmKeywords :: bool
  eo_skipSectionPlacement :: bool

definition isValueBlank :: "string option \<Rightarrow> bool" where
  "isValueBlank v = (case v of None \<Rightarrow> True | Some s \<Rightarrow> trim s = [])"

definition belongsHere :: "effective_options \<Rightarrow> ParamSchemaEntry \<Rightarrow> bool" where
  "belongsHere opts e \<longleftrightarrow>
     eo_skipSectionPlacement opts \<or>
     (\<not> (ps_commonOnly e \<and> \<not> eo_isCommonSection opts) \<and> \<not> (ps_instanceOnly e \<and> eo_isCommonSection opts))"

definition numeric_kind :: "ParamGuard \<Rightarrow> bool" where
  "numeric_kind g \<longleftrightarrow>
     (case g of IntGuard _ _ _ \<Rightarrow> True | FloatGuard _ _ \<Rightarrow> True | BigintGuard _ _ \<Rightarrow> True | SizeGuard _ _ \<Rightarrow> True
      | TimeGuard _ _ \<Rightarrow> True | _ \<Rightarrow> False)"

definition is_int_guard :: "ParamGuard \<Rightarrow> bool" where
  "is_int_guard g \<longleftrightarrow> (case g of IntGuard _ _ _ \<Rightarrow> True | _ \<Rightarrow> False)"

text \<open>\<open>guard.kind !== 'string' || guard.nonEmpty\<close>.\<close>

definition refuses_empty :: "ParamGuard \<Rightarrow> bool" where
  "refuses_empty g \<longleftrightarrow> (case g of StringGuard nonEmpty \<Rightarrow> nonEmpty | _ \<Rightarrow> True)"

definition is_min_max :: "string \<Rightarrow> bool" where
  "is_min_max raw \<longleftrightarrow> lower (trim raw) = ''min'' \<or> lower (trim raw) = ''max''"

text \<open>What one entry finds wrong with its raw value.\<close>

definition entry_error :: "effective_options \<Rightarrow> ParamSchemaEntry \<Rightarrow> string option \<Rightarrow> param_error option" where
  "entry_error opts e raw =
     (let blank = isValueBlank raw; g = ps_guard e
      in if \<not> belongsHere opts e
         then (if blank then None
               else Some (if ps_commonOnly e then OnlyInSection (eo_commonSectionLabel opts)
                          else NotInSection (eo_commonSectionLabel opts)))
         else if eo_emptyIntIsZero opts \<and> blank \<and> raw \<noteq> None \<and> is_int_guard g
         then map_option EmptyReadsAsZero (validateParamValue (Some g) (Some ''0''))
         else if eo_emptyValueIsError opts \<and> blank \<and> raw \<noteq> None \<and> refuses_empty g then Some EmptyRejected
         else if ps_required e \<and> blank then Some RequiredBlank
         else case raw of
                None \<Rightarrow> None
              | Some v \<Rightarrow>
                  if blank then None
                  else if eo_sysprmKeywords opts \<and> lower (trim v) = ''default'' then None
                  else if eo_sysprmKeywords opts \<and> is_min_max v
                  then (if numeric_kind g then None else Some MinMaxNumericOnly)
                  else map_option Refused (validateParamValue (Some g) (Some v)))"

text \<open>The raw value, or the default where it is blank; a key no entry has is absent.\<close>

definition defaulted :: "ParamSchemaEntry list \<Rightarrow> params \<Rightarrow> string \<Rightarrow> string option" where
  "defaulted schema params k =
     (case last_entry_of ps_key schema k of
        None \<Rightarrow> None
      | Some e \<Rightarrow> (let raw = plain_get k params in if isValueBlank raw then ps_default e else raw))"

definition validateEffectiveParams :: "ParamSchemaEntry list \<Rightarrow> params \<Rightarrow> effective_options \<Rightarrow> param_errors" where
  "validateEffectiveParams schema params opts =
     (let errors = fold (\<lambda>e errs. case entry_error opts e (plain_get (ps_key e) params) of
                           None \<Rightarrow> errs
                         | Some r \<Rightarrow> plain_set (ps_key e) r errs) schema []
      in fold (\<lambda>(key, r) errs. if obj_get errs key = None then plain_set key r errs else errs)
           (validateCrossFieldParams schema (defaulted schema params)) errors)"

end
