(* ===== verification/ConfCheck.thy ===== *)
theory ConfCheck
  imports ParamCheck
begin

text \<open>
  Model of \<open>param-schema/validate-conf-text.ts\<close> and \<open>validate-cm-conf-text.ts\<close>: the check a whole
  configuration text goes through before it is written, with the list of the keys the engine knows
  (\<open>engine-known-keys.ts\<close>) as a parameter. A message is a constructor of \<open>conf_message\<close>.
\<close>

datatype ConfFileKind = Cubridconf | Brokerconf | Cmconf

datatype conf_message =
    SyntaxProblem conf_syntax_error
  | DeprecatedKey string "string option"
  | UnknownToVersion string "string option"
  | UnknownNearby string
  | SetAgainOnLine string nat
  | BadParam string param_error
  | MissingSection string
  | PortUsedBy string int string
  | ShmUsedBy string string
  | ShmIsMaster string string
  | NoCmValue
  | NotReadByCms
  | NotACmKey
  | TooLongForCms
  | CmPendingRefused reason
  | CmRefused reason

record ConfTextProblem =
  cp_lineNo :: "nat option"
  cp_key :: "string option"
  cp_message :: conf_message
  cp_warning :: bool

record EngineKnownKeys =
  ek_strict :: bool
  ek_catalogVersion :: "string option"
  ek_database :: "string list"
  ek_broker :: "string list"
  ek_databaseGuards :: "(string, ParamGuard) obj"
  ek_databaseDeprecated :: "string list"
  ek_databaseScopes :: "(string, param_scope) obj"
  ek_brokerGuards :: "(string, ParamGuard) obj option"

definition isBlockingConfTextProblem :: "ConfTextProblem \<Rightarrow> bool" where
  "isBlockingConfTextProblem p \<longleftrightarrow> \<not> cp_warning p"

definition problem :: "nat option \<Rightarrow> string option \<Rightarrow> bool \<Rightarrow> conf_message \<Rightarrow> ConfTextProblem" where
  "problem lineNo key warning msg = \<lparr>cp_lineNo = lineNo, cp_key = key, cp_message = msg, cp_warning = warning\<rparr>"

definition by_line :: "ConfTextProblem list \<Rightarrow> ConfTextProblem list" where
  "by_line ps = sort_key (\<lambda>p. case cp_lineNo p of None \<Rightarrow> 0 | Some n \<Rightarrow> n) ps"

definition DEPRECATED_PARAM_REPLACEMENTS :: "(string \<times> string) list" where
  "DEPRECATED_PARAM_REPLACEMENTS =
    [(''sort_buffer_pages'', ''sort_buffer_size''),
     (''data_buffer_pages'', ''data_buffer_size''),
     (''index_scan_oid_buffer_pages'', ''index_scan_oid_buffer_size''),
     (''lock_timeout_in_secs'', ''lock_timeout''),
     (''log_buffer_pages'', ''log_buffer_size''),
     (''checkpoint_every_npages'', ''checkpoint_every_size''),
     (''checkpoint_interval_in_mins'', ''checkpoint_interval''),
     (''index_scan_key_buffer_pages'', ''index_scan_key_buffer_size''),
     (''page_flush_interval_in_msecs'', ''page_flush_interval''),
     (''max_flush_pages_per_second'', ''max_flush_size_per_second''),
     (''sync_on_nflush'', ''sync_on_flush_size''),
     (''sql_trace_slow_msecs'', ''sql_trace_slow''),
     (''java_stored_procedure'', ''stored_procedure''),
     (''java_stored_procedure_port'', ''stored_procedure_port''),
     (''java_stored_procedure_jvm_options'', ''stored_procedure_vm_options''),
     (''java_stored_procedure_debug'', ''stored_procedure_debug''),
     (''java_stored_procedure_uds'', ''stored_procedure_uds'')]"

section \<open>Ports and shared memory of the brokers\<close>

definition lastEntry :: "conf_section \<Rightarrow> string \<Rightarrow> conf_entry option" where
  "lastEntry sec key = find (\<lambda>e. lower (ce_key e) = lower key) (rev (sec_entries sec))"

definition last_int :: "nat \<Rightarrow> conf_section \<Rightarrow> string \<Rightarrow> (int \<times> nat) option" where
  "last_int base sec key =
     (case lastEntry sec key of
        None \<Rightarrow> None
      | Some e \<Rightarrow> map_option (\<lambda>n. (n, ce_lineNo e)) (parseGuardInt (Some base) (ce_value e)))"

definition is_broker_section :: "conf_section \<Rightarrow> bool" where
  "is_broker_section sec \<longleftrightarrow> (case sec_name sec of None \<Rightarrow> False | Some n \<Rightarrow> starts_with ''%'' n)"

definition name_of :: "string \<Rightarrow> conf_section \<Rightarrow> string" where
  "name_of commonSection sec = (case sec_name sec of None \<Rightarrow> commonSection | Some n \<Rightarrow> n)"

text \<open>The numbers seen so far, each with the section that has it.\<close>

type_synonym seen = "(int, string) obj"

definition note_number :: "int \<Rightarrow> string \<Rightarrow> seen \<Rightarrow> seen" where
  "note_number n name seen = (if obj_get seen n = None then obj_set n name seen else seen)"

definition port_step :: "conf_section \<Rightarrow> seen \<Rightarrow> ConfTextProblem list \<times> seen" where
  "port_step sec seen =
     (case last_int 0 sec ''BROKER_PORT'' of
        None \<Rightarrow> ([], seen)
      | Some (n, lineNo) \<Rightarrow>
          ((case obj_get seen n of
              None \<Rightarrow> []
            | Some other \<Rightarrow> [problem (Some lineNo) (Some ''BROKER_PORT'') False (PortUsedBy (name_of [] sec) n other)]),
           note_number n (name_of [] sec) seen))"

definition shm_step :: "string \<Rightarrow> int option \<Rightarrow> conf_section \<Rightarrow> seen \<Rightarrow> ConfTextProblem list \<times> seen" where
  "shm_step commonSection master sec seen =
     (case last_int 16 sec ''APPL_SERVER_SHM_ID'' of
        None \<Rightarrow> ([], seen)
      | Some (n, lineNo) \<Rightarrow>
          ((case obj_get seen n of
              None \<Rightarrow> []
            | Some other \<Rightarrow> [problem (Some lineNo) (Some ''APPL_SERVER_SHM_ID'') False (ShmUsedBy (name_of [] sec) other)]) @
           (if Some n = master
            then [problem (Some lineNo) (Some ''APPL_SERVER_SHM_ID'') False (ShmIsMaster (name_of [] sec) commonSection)]
            else []),
           note_number n (name_of [] sec) seen))"

definition collision_step ::
  "string \<Rightarrow> int option \<Rightarrow> conf_section \<Rightarrow> ConfTextProblem list \<times> seen \<times> seen \<Rightarrow> ConfTextProblem list \<times> seen \<times> seen" where
  "collision_step commonSection master sec st =
     (let (problems, ports, shms) = st
      in if \<not> is_broker_section sec then st
         else let (p1, ports') = port_step sec ports; (p2, shms') = shm_step commonSection master sec shms
              in (problems @ p1 @ p2, ports', shms'))"

definition master_shm_id :: "conf_section list \<Rightarrow> string \<Rightarrow> int option" where
  "master_shm_id sections commonSection =
     (case find (\<lambda>sec. sec_name sec = Some commonSection) sections of
        None \<Rightarrow> None
      | Some sec \<Rightarrow> map_option fst (last_int 16 sec ''MASTER_SHM_ID''))"

definition brokerCollisions :: "conf_section list \<Rightarrow> string \<Rightarrow> ConfTextProblem list" where
  "brokerCollisions sections commonSection =
     fst (fold (collision_step commonSection (master_shm_id sections commonSection)) sections ([], [], []))"

section \<open>The keys of a section\<close>

definition COMMON_SECTION :: "ConfFileKind \<Rightarrow> string" where
  "COMMON_SECTION kind = (if kind = Cubridconf then ''common'' else ''broker'')"

definition known_keys_of :: "ConfFileKind \<Rightarrow> EngineKnownKeys \<Rightarrow> string list" where
  "known_keys_of kind k = (if kind = Cubridconf then ek_database k else ek_broker k)"

definition lookup_key :: "ConfFileKind \<Rightarrow> conf_section \<Rightarrow> conf_entry \<Rightarrow> string" where
  "lookup_key kind sec e =
     (if kind = Cubridconf \<and> sec_name sec = Some ''service'' then ''service::'' @ ce_key e else ce_key e)"

definition key_problem :: "ConfFileKind \<Rightarrow> EngineKnownKeys \<Rightarrow> conf_section \<Rightarrow> conf_entry \<Rightarrow> ConfTextProblem option" where
  "key_problem kind k sec e =
     (let name = name_of (COMMON_SECTION kind) sec; l = lower (lookup_key kind sec e);
          pr = problem (Some (ce_lineNo e)) (Some (ce_key e))
      in if l \<in> set (known_keys_of kind k)
         then (if kind = Cubridconf \<and> l \<in> set (ek_databaseDeprecated k)
               then Some (pr True (DeprecatedKey name (map_of DEPRECATED_PARAM_REPLACEMENTS l))) else None)
         else Some (if ek_strict k then pr False (UnknownToVersion name (ek_catalogVersion k)) else pr True (UnknownNearby name)))"

text \<open>The entries from the last to the first, with the line of the last entry of each key.\<close>

fun repeated_keys :: "string \<Rightarrow> conf_entry list \<Rightarrow> (string, nat) obj \<Rightarrow> ConfTextProblem list" where
  "repeated_keys name [] lastLine = []"
| "repeated_keys name (e # es) lastLine =
     (case obj_get lastLine (lower (ce_key e)) of
        None \<Rightarrow> repeated_keys name es (obj_set (lower (ce_key e)) (ce_lineNo e) lastLine)
      | Some later \<Rightarrow>
          problem (Some (ce_lineNo e)) (Some (ce_key e)) True (SetAgainOnLine name later) # repeated_keys name es lastLine)"

section \<open>The values of a section\<close>

definition generated_entry :: "string \<Rightarrow> category \<Rightarrow> ParamGuard \<Rightarrow> ParamSchemaEntry" where
  "generated_entry key category guard = ParamSchemaEntry.truncate (entry key category guard None)"

text \<open>A lookup by a lower-case key in a plain object of guards.\<close>

definition guard_lookup :: "(string, ParamGuard) obj \<Rightarrow> string \<Rightarrow> ParamGuard option" where
  "guard_lookup guards k =
     (case obj_get guards k of
        Some g \<Rightarrow> Some g
      | None \<Rightarrow> if k = ''constructor'' \<or> k = ''__proto__'' then Some NoKind else None)"

definition FALLBACK_BROKER_GUARDS :: "(string, ParamGuard) obj" where
  "FALLBACK_BROKER_GUARDS = resolveBrokerKeyGuards ''11.4''"

definition broker_guards_of :: "EngineKnownKeys option \<Rightarrow> (string, ParamGuard) obj" where
  "broker_guards_of known =
     (case known of
        None \<Rightarrow> FALLBACK_BROKER_GUARDS
      | Some k \<Rightarrow> (case ek_brokerGuards k of None \<Rightarrow> FALLBACK_BROKER_GUARDS | Some g \<Rightarrow> g))"

text \<open>The entry for a key the schema does not cover, if there is a rule for it.\<close>

definition generated_for :: "ConfFileKind \<Rightarrow> EngineKnownKeys option \<Rightarrow> conf_section \<Rightarrow> string \<Rightarrow> ParamSchemaEntry option" where
  "generated_for kind known sec key =
     (if kind = Cubridconf
      then (if sec_name sec = Some ''service'' then None
            else case known of
                   None \<Rightarrow> None
                 | Some k \<Rightarrow> map_option (generated_entry (lower key) Advanced) (guard_lookup (ek_databaseGuards k) (lower key)))
      else if is_broker_section sec \<and> (case known of None \<Rightarrow> True | Some k \<Rightarrow> lower key \<in> set (ek_broker k))
      then map_option (generated_entry (upper key) Advance) (obj_get (broker_guards_of known) (upper key))
      else None)"

record section_values =
  sv_values :: params
  sv_lineNos :: "(string, nat) obj"
  sv_generated :: "ParamSchemaEntry list"

definition take_entry ::
  "ParamSchemaEntry list \<Rightarrow> ConfFileKind \<Rightarrow> EngineKnownKeys option \<Rightarrow> conf_section \<Rightarrow> conf_entry \<Rightarrow> section_values \<Rightarrow> section_values" where
  "take_entry schema kind known sec e sv =
     (let store = (\<lambda>en sv. sv\<lparr>sv_values := plain_set (ps_key en) (ce_value e) (sv_values sv),
                                sv_lineNos := plain_set (ps_key en) (ce_lineNo e) (sv_lineNos sv)\<rparr>)
      in case last_entry_of (\<lambda>en. lower (ps_key en)) schema (lower (ce_key e)) of
           Some en \<Rightarrow> store en sv
         | None \<Rightarrow> (case generated_for kind known sec (ce_key e) of
                      None \<Rightarrow> sv
                    | Some en \<Rightarrow> store en (sv\<lparr>sv_generated := sv_generated sv @ [en]\<rparr>)))"

definition values_of_section ::
  "ParamSchemaEntry list \<Rightarrow> ConfFileKind \<Rightarrow> EngineKnownKeys option \<Rightarrow> conf_section \<Rightarrow> section_values" where
  "values_of_section schema kind known sec =
     fold (take_entry schema kind known sec) (sec_entries sec) \<lparr>sv_values = [], sv_lineNos = [], sv_generated = []\<rparr>"

definition section_options :: "ConfFileKind \<Rightarrow> conf_section \<Rightarrow> effective_options" where
  "section_options kind sec =
     \<lparr>eo_isCommonSection = (sec_name sec = None \<or> sec_name sec = Some (COMMON_SECTION kind)),
      eo_commonSectionLabel = COMMON_SECTION kind,
      eo_emptyValueIsError = True,
      eo_emptyIntIsZero = (kind = Brokerconf),
      eo_sysprmKeywords = (kind = Cubridconf),
      eo_skipSectionPlacement =
        (kind = Cubridconf \<and> (case sec_name sec of None \<Rightarrow> False | Some n \<Rightarrow> n = ''standalone'' \<or> starts_with ''%'' n))\<rparr>"

definition value_problems ::
  "ParamSchemaEntry list \<Rightarrow> ConfFileKind \<Rightarrow> EngineKnownKeys option \<Rightarrow> conf_section \<Rightarrow> ConfTextProblem list" where
  "value_problems schema kind known sec =
     (let sv = values_of_section schema kind known sec;
          strict = (case known of None \<Rightarrow> False | Some k \<Rightarrow> ek_strict k)
      in map (\<lambda>(key, r).
                problem (case obj_get (sv_lineNos sv) key of Some n \<Rightarrow> Some n | None \<Rightarrow> sec_lineNo sec) (Some key)
                  (key \<in> ps_key ` set (sv_generated sv) \<and> \<not> strict) (BadParam (name_of (COMMON_SECTION kind) sec) r))
           (validateEffectiveParams (schema @ sv_generated sv) (sv_values sv) (section_options kind sec)))"

definition section_problems ::
  "ParamSchemaEntry list \<Rightarrow> ConfFileKind \<Rightarrow> EngineKnownKeys option \<Rightarrow> conf_section \<Rightarrow> ConfTextProblem list" where
  "section_problems schema kind known sec =
     (case known of None \<Rightarrow> [] | Some k \<Rightarrow> List.map_filter (key_problem kind k sec) (sec_entries sec)) @
     repeated_keys (name_of (COMMON_SECTION kind) sec) (rev (sec_entries sec)) [] @
     value_problems schema kind known sec"

section \<open>The reader of \<open>cm.conf\<close>\<close>

definition cm_space :: "char \<Rightarrow> bool" where
  "cm_space c \<longleftrightarrow> (let n = of_char c :: nat in n = 32 \<or> n = 9 \<or> n = 10 \<or> n = 13)"

definition cm_trim :: "string \<Rightarrow> string" where
  "cm_trim s = rev (dropWhile cm_space (rev (dropWhile cm_space s)))"

definition cm_separator :: "char \<Rightarrow> bool" where
  "cm_separator c \<longleftrightarrow> c = CHR '' '' \<or> c = CHR 0x09 \<or> c = CHR ''=''"

definition CMS_MAX_TOKEN :: nat where
  "CMS_MAX_TOKEN = 127"

definition cm_line :: "nat \<times> string \<Rightarrow> conf_entry option" where
  "cm_line p =
     (let (lineNo, raw) = p; line = cm_trim raw; body = dropWhile cm_separator line;
          key = takeWhile (\<lambda>c. \<not> cm_separator c) body;
          afterKey = cm_trim (drop 1 (dropWhile (\<lambda>c. \<not> cm_separator c) body));
          v = (if starts_with ''='' afterKey then cm_trim (drop 1 afterKey) else afterKey)
      in if line = [] \<or> starts_with ''#'' line \<or> key = [] then None
         else Some \<lparr>ce_key = key, ce_value = v, ce_lineNo = lineNo\<rparr>)"

text \<open>The entries with a value, and those without, which are skipped.\<close>

definition parseCmConfText :: "string list \<Rightarrow> conf_entry list \<times> conf_entry list" where
  "parseCmConfText lines =
     (let es = List.map_filter cm_line (List.enumerate 1 lines)
      in (filter (\<lambda>e. ce_value e \<noteq> []) es, filter (\<lambda>e. ce_value e = []) es))"

section \<open>The check of \<open>cm.conf\<close>\<close>

definition cm_lookup :: "ParamSchemaEntry list \<Rightarrow> string \<Rightarrow> ParamSchemaEntry option" where
  "cm_lookup schema key =
     find (\<lambda>e. lower (ps_key e) = lower key \<or> (\<exists>a \<in> set (ps_aliases e). lower a = lower key)) schema"

definition cm_skipped_problem :: "ParamSchemaEntry list \<Rightarrow> ParamSchemaEntry list \<Rightarrow> conf_entry \<Rightarrow> ConfTextProblem option" where
  "cm_skipped_problem schema pending e =
     (if starts_with ''['' (ce_key e) then None
      else if cm_lookup schema (ce_key e) \<noteq> None \<or> cm_lookup pending (ce_key e) \<noteq> None
      then Some (problem (Some (ce_lineNo e)) (Some (ce_key e)) False NoCmValue)
      else None)"

definition cm_entry_problem ::
  "ParamSchemaEntry list \<Rightarrow> ParamSchemaEntry list \<Rightarrow> string list \<Rightarrow> conf_entry \<Rightarrow> ConfTextProblem option" where
  "cm_entry_problem schema pending templateOnly e =
     (let pr = problem (Some (ce_lineNo e)) (Some (ce_key e));
          released = cm_lookup schema (ce_key e);
          target = (if released = None then cm_lookup pending (ce_key e) else released)
      in if starts_with ''['' (ce_key e) then None
         else case target of
                None \<Rightarrow> Some (if \<exists>t \<in> set templateOnly. lower t = lower (ce_key e) then pr True NotReadByCms else pr False NotACmKey)
              | Some en \<Rightarrow>
                  if length (ce_key e) > CMS_MAX_TOKEN \<or> length (ce_value e) > CMS_MAX_TOKEN then Some (pr False TooLongForCms)
                  else map_option (\<lambda>r. if released = None then pr True (CmPendingRefused r) else pr False (CmRefused r))
                         (validateParamValue (Some (ps_guard en)) (Some (ce_value e))))"

definition validateCmConfText ::
  "string list \<Rightarrow> ParamSchemaEntry list \<Rightarrow> ParamSchemaEntry list \<Rightarrow> string list \<Rightarrow> ConfTextProblem list" where
  "validateCmConfText lines schema pending templateOnly =
     (let (es, skipped) = parseCmConfText lines
      in by_line (List.map_filter (cm_skipped_problem schema pending) skipped @
                  List.map_filter (cm_entry_problem schema pending templateOnly) es))"

section \<open>The check of a text\<close>

definition syntax_problem :: "conf_syntax_error \<Rightarrow> ConfTextProblem" where
  "syntax_problem e = problem (Some (case e of LineTooLong n \<Rightarrow> n | NotAValidLine n \<Rightarrow> n)) None False (SyntaxProblem e)"

definition validateConfText ::
  "ParamSchemaEntry list \<Rightarrow> string list \<Rightarrow> ConfFileKind \<Rightarrow> EngineKnownKeys option \<Rightarrow> ConfTextProblem list" where
  "validateConfText schema lines kind known =
     (if kind = Cmconf
      then validateCmConfText lines schema (map ParamSchemaEntry.truncate CM_PENDING_PARAM_SCHEMA) CM_TEMPLATE_ONLY_KEYS
      else let (sections, syntaxErrors) = parseConfText lines; commonSection = COMMON_SECTION kind
           in by_line
                (map syntax_problem syntaxErrors @
                 concat (map (section_problems schema kind known) sections) @
                 (if kind = Brokerconf \<and> \<not> (\<exists>sec \<in> set sections. sec_name sec = Some commonSection)
                  then [problem None None False (MissingSection commonSection)] else []) @
                 (if kind = Brokerconf then brokerCollisions sections commonSection else [])))"

end
