(* ===== verification/ParamGuardFacts.thy ===== *)
theory ParamGuardFacts
  imports ParamGuards ConfReading
begin

text \<open>
  What the checks of one value accept (\<open>ParamGuards\<close>): whole numbers and sizes are read exactly, and a
  value that passes is within the bounds of its rule.
\<close>

section \<open>Whole numbers\<close>

lemma digit_of_digit: "is_digit c \<Longrightarrow> digit_of c = of_char c - 48 \<and> 0 \<le> digit_of c \<and> digit_of c < 10"
  by (auto simp: is_digit_def digit_of_def Let_def simp del: of_nat_of_char) (simp_all only: of_nat_of_char)

lemma radix_value_digits: "list_all is_digit ds \<Longrightarrow> radix_value 10 ds = digits_value ds"
proof (induction ds rule: rev_induct)
  case (snoc c cs)
  then have "radix_value 10 cs = digits_value cs" "digit_of c = of_char c - 48" using digit_of_digit [of c] by auto
  then show ?case by (simp add: radix_value_def digits_value_def)
qed (simp add: radix_value_def digits_value_def)

lemma digit_below: "digit_of c < 10 \<longleftrightarrow> is_digit c"
  by (auto simp: is_digit_def digit_of_def Let_def)

lemma ws_not_sign: "\<not> isIniSpace (CHR ''-'')" "\<not> isIniSpace (CHR ''+'')" "\<not> js_ws (CHR ''-'')" "\<not> js_ws (CHR ''+'')"
  by (simp_all add: isIniSpace_def js_ws_def)

lemma digit_plain: "is_digit c \<Longrightarrow> \<not> isIniSpace c \<and> c \<noteq> CHR ''-'' \<and> c \<noteq> CHR ''+'' \<and> c \<noteq> CHR ''.''"
  by (auto simp: is_digit_def isIniSpace_def Let_def)

lemma nat_str_hd: "is_digit (hd (nat_str n))"
  using nat_str_digits [of n] nat_str_nonempty [of n] by (cases "nat_str n") auto

lemma split_sign_digits: "is_digit (hd s) \<Longrightarrow> s \<noteq> [] \<Longrightarrow> split_sign s = (1, s)"
  by (cases s) (auto simp: split_sign_def dest: digit_plain)

lemma split_sign_int: "split_sign (int_str n) = (if n < 0 then - 1 else 1, nat_str (nat \<bar>n\<bar>))"
  using nat_str_hd [of "nat n"] nat_str_nonempty [of "nat n"]
  by (auto simp: int_str_def split_sign_digits) (simp add: split_sign_def)

lemma int_str_plain: "\<forall>c \<in> set (int_str n). \<not> js_ws c \<and> \<not> isIniSpace c"
  using nat_str_digits [of "nat n"] nat_str_digits [of "nat (- n)"] digit_not_ws digit_plain ws_not_sign
  by (auto simp: int_str_def list_all_iff)

lemma parse_decimal: "parseCInt (int_str n) 10 = (if in_int32 n then Some n else None)"
proof -
  have "dropWhile isIniSpace (int_str n) = int_str n" using int_str_plain by (intro dropWhile_none) blast
  moreover have "list_all (\<lambda>c. digit_of c < 10) (nat_str (nat \<bar>n\<bar>))"
    using nat_str_digits by (simp add: list_all_iff digit_below)
  moreover have "radix_value 10 (nat_str (nat \<bar>n\<bar>)) = \<bar>n\<bar>"
    by (simp add: radix_value_digits nat_str_digits digits_value_nat_str)
  ultimately show ?thesis by (auto simp: parseCInt_def split_sign_int nat_str_nonempty Let_def)
qed

lemma guard_int_decimal: "parseGuardInt None (int_str n) = (if in_int32 n then Some n else None)"
proof -
  have "trim (int_str n) = int_str n" using int_str_plain by (intro trim_no_ws) blast
  then show ?thesis by (simp add: parseGuardInt_def or_base_def parse_decimal)
qed

lemma parse_int32: "parseCInt s base = Some n \<Longrightarrow> in_int32 n"
  by (auto simp: parseCInt_def Let_def split: prod.splits if_splits)

lemma range_accepts:
  "range_reason tooLow tooHigh low high mn mx = None \<longleftrightarrow>
     (case mn of None \<Rightarrow> True | Some m \<Rightarrow> \<not> tooLow m) \<and> (case mx of None \<Rightarrow> True | Some x \<Rightarrow> \<not> tooHigh x)"
  by (auto simp: range_reason_def split: option.splits)

section \<open>Sizes\<close>

lemma takeWhile_digits: "list_all is_digit ds \<Longrightarrow> u = [] \<or> \<not> is_digit (hd u) \<Longrightarrow>
    takeWhile is_digit (ds @ u) = ds \<and> dropWhile is_digit (ds @ u) = u"
  by (cases u) (auto simp: list_all_iff takeWhile_append2 dropWhile_append2)

lemma decimal_whole:
  assumes "list_all (\<lambda>c. \<not> is_digit c \<and> c \<noteq> CHR ''.'' \<and> c \<noteq> CHR ''e'' \<and> c \<noteq> CHR ''E'') u"
  shows "decimal_prefix (nat_str n @ u) = Some (of_nat n, u)"
proof -
  have d: "list_all is_digit (nat_str n)" by (rule nat_str_digits)
  have u: "takeWhile is_digit (nat_str n @ u) = nat_str n" "dropWhile is_digit (nat_str n @ u) = u"
    using takeWhile_digits [OF d, of u] assms by (cases u; simp)+
  have s: "sign_of (nat_str n @ u) = (1, nat_str n @ u)"
    using nat_str_hd [of n] nat_str_nonempty [of n] by (cases "nat_str n") (auto simp: sign_of_def dest: digit_plain)
  have m: "mantissa_of (nat_str n @ u) = Some (nat_str n, [], u)"
    unfolding mantissa_of_def u Let_def using assms nat_str_nonempty [of n] by (cases u) simp_all
  have e: "exponent_of u = (0, u)"
    using assms by (cases u) (auto simp: exponent_of_def Let_def split: prod.splits)
  show ?thesis by (simp add: decimal_prefix_def s m e digits_value_nat_str)
qed

text \<open>The capital letters of the units, and the text a unit can be written as.\<close>

lemma unit_char:
  assumes "set (upper u) \<subseteq> set ''BKMGTP''" "c \<in> set u"
  shows "\<not> js_ws c \<and> \<not> isIniSpace c \<and> \<not> is_digit c \<and> c \<noteq> CHR ''.'' \<and> c \<noteq> CHR ''e'' \<and> c \<noteq> CHR ''E''"
proof -
  have *: "set (upper_char c) \<subseteq> set ''BKMGTP''" using assms by (auto simp: upper_def)
  have same: "upper_char c = [c]" if "js_ws c \<or> is_digit c \<or> c = CHR ''.'' \<or> c = CHR ''E''"
    using that by (auto simp: upper_char_def js_ws_def is_digit_def Let_def)
  have "\<not> (js_ws c \<or> is_digit c \<or> c = CHR ''.'' \<or> c = CHR ''E'')"
    using * same by (auto simp: js_ws_def is_digit_def)
  moreover have "upper_char (CHR ''e'') = ''E''" by code_simp
  then have "c \<noteq> CHR ''e''" using * by auto
  ultimately show ?thesis using isIniSpace_js_ws by blast
qed

lemma size_unit_cases:
  assumes "map_of ENGINE_SIZE_UNIT_BYTES k = Some f"
  shows "set k \<subseteq> set ''BKMGTP'' \<and> (\<exists>e \<in> {0, 10, 20, 30, 40, 50}. f = Num (2 powi e))"
proof -
  have "(k, f) \<in> set ENGINE_SIZE_UNIT_BYTES" using assms by (rule map_of_SomeD)
  then show ?thesis by (auto simp: ENGINE_SIZE_UNIT_BYTES_def)
qed

lemma size_of_whole_units:
  assumes n: "n < 2 ^ 53" and unit: "map_of ENGINE_SIZE_UNIT_BYTES (upper u) = Some (Num f)"
  shows "parseEngineSizeToBytes (nat_str n @ u) = Some (Num (of_nat n * f))"
proof -
  obtain e where e: "e \<in> {0, 10, 20, 30, 40, 50::int}" "f = 2 powi e" and up: "set (upper u) \<subseteq> set ''BKMGTP''"
    using size_unit_cases [OF unit] by (metis jsnum.inject)
  note chars = unit_char [OF up]
  have "\<forall>c \<in> set (nat_str n @ u). \<not> js_ws c \<and> \<not> isIniSpace c"
    using chars nat_str_digits [of n] digit_not_ws digit_plain by (auto simp: list_all_iff)
  then have t: "trim (nat_str n @ u) = nat_str n @ u" "dropWhile isIniSpace (nat_str n @ u) = nat_str n @ u"
    by (auto intro!: trim_no_ws dropWhile_none)
  have d: "decimal_prefix (nat_str n @ u) = Some (of_nat n, u)"
    using chars by (intro decimal_whole) (simp add: list_all_iff)
  have r: "to_double (of_nat n) = Num (of_nat n)"
    using num_int_exact [of "int n"] n by (simp add: num_int_def)
  have "(of_int (int n) * 2 powi e :: rat) = of_int (int n * 2 ^ nat e)" using e(1) by auto
  then have whole: "num_trunc (Num (of_int (int n) * 2 powi e)) = Num (of_int (int n) * 2 powi e)"
    by (simp only: num_trunc.simps trunc_rat_def floor_of_int ceiling_of_int if_cancel)
  have "to_double (of_int (int n) * 2 powi e) = Num (of_int (int n) * 2 powi e)"
    using e(1) n by (intro to_double_exact) auto
  then have "num_trunc (num_mult (Num (of_nat n)) (Num f)) = Num (of_nat n * f)"
    using e(2) whole by simp
  then show ?thesis using unit
    by (simp add: parseEngineSizeToBytes_def parseLeadingNumber_def t d r unit_factor_def)
qed

text \<open>
  C27: A size is checked exactly. A whole number below \<open>2 ^ 53\<close> with any of the engine's units, in capitals
  or not, passes the guard of a size parameter exactly when that many bytes are within its bounds: no
  rounding of a double lets a value pass that the engine's limits refuse, or refuses one they allow.
\<close>

theorem size_guard_is_exact:
  assumes "n < 2 ^ 53"
    and "map_of ENGINE_SIZE_UNIT_BYTES (upper u) = Some (Num (of_int f))"
  shows "validateParamValue (Some (SizeGuard mn mx)) (Some (nat_str n @ u)) = None \<longleftrightarrow>
     (case mn of None \<Rightarrow> True | Some lo \<Rightarrow> lo \<le> int n * f) \<and> (case mx of None \<Rightarrow> True | Some hi \<Rightarrow> int n * f \<le> hi)"
proof -
  have b: "parseEngineSizeToBytes (nat_str n @ u) = Some (Num (of_int (int n * f)))"
    using size_of_whole_units [OF assms] by simp
  have "size_reason mn mx (nat_str n @ u) = None \<longleftrightarrow>
      (case mn of None \<Rightarrow> True | Some lo \<Rightarrow> lo \<le> int n * f) \<and> (case mx of None \<Rightarrow> True | Some hi \<Rightarrow> int n * f \<le> hi)"
    unfolding size_reason_def b option.case jsnum.case range_accepts num_less.simps of_int_less_iff
    by (auto split: option.splits)
  then show ?thesis by (simp add: validateParamValue_def nat_str_nonempty)
qed

theorem size_guard_is_exact_witness:
  "validateParamValue (Some (SizeGuard (Some 32768) (Some 9223372036854775807))) (Some (nat_str 31 @ ''k'')) \<noteq> None
   \<and> validateParamValue (Some (SizeGuard (Some 32768) (Some 9223372036854775807))) (Some (nat_str 32 @ ''k'')) = None
   \<and> nat_str 32 @ ''k'' = ''32k''"
proof -
  have u: "map_of ENGINE_SIZE_UNIT_BYTES (upper ''k'') = Some (Num (of_int 1024))" by code_simp
  have "nat_str 32 @ ''k'' = ''32k''" by code_simp
  then show ?thesis
    using size_guard_is_exact [OF _ u, of 31 "Some 32768" "Some 9223372036854775807"]
      size_guard_is_exact [OF _ u, of 32 "Some 32768" "Some 9223372036854775807"] by simp
qed

section \<open>A word that every object has\<close>

text \<open>
  C39: The tables of time units are plain objects, and a lookup in one also finds what every object inherits.
  So a broker time written with the word \<open>constructor\<close> for its unit passes every guard, whatever the
  number and the bounds: the product is not a number, and no comparison with it holds. The broker
  itself knows no such unit and refuses to load the file.
\<close>

theorem inherited_word_passes_as_a_unit:
  "validateParamValue (Some (BrokerTimeGuard minSec maxSec whole)) (Some (nat_str n @ ''constructor'')) = None"
proof -
  have nan: "num_mult x NaN = NaN" for x by (cases x) simp_all
  have "list_all (\<lambda>c. \<not> is_digit c \<and> c \<noteq> CHR ''.'' \<and> c \<noteq> CHR ''e'' \<and> c \<noteq> CHR ''E'') ''constructor''" by code_simp
  then have "decimal_prefix (nat_str n @ ''constructor'') = Some (of_nat n, ''constructor'')" by (rule decimal_whole)
  moreover have "dropWhile isIniSpace (nat_str n @ ''constructor'') = nat_str n @ ''constructor''"
    using nat_str_hd [of n] nat_str_nonempty [of n] by (cases "nat_str n") (auto dest: digit_plain)
  ultimately have "parseLeadingNumber (nat_str n @ ''constructor'') = Some (to_double (of_nat n), ''constructor'')"
    by (simp add: parseLeadingNumber_def)
  moreover have "starts_with_letter ''constructor''" by code_simp
  moreover have "lower ''constructor'' = ''constructor''" by code_simp
  then have "unit_factor BROKER_TIME_UNIT_SEC (lower ''constructor'') = Some NaN"
    by (simp add: unit_factor_def BROKER_TIME_UNIT_SEC_def)
  ultimately have "broker_time_reason minSec maxSec whole (nat_str n @ ''constructor'') = None"
    by (simp only: broker_time_reason_def option.case prod.case nan if_True num_trunc.simps if_cancel Let_def
        num_less.simps if_False range_accepts) (simp split: option.splits)
  then show ?thesis by (simp add: validateParamValue_def nat_str_nonempty)
qed

end
