(* ===== verification/ConfCheckFacts.thy ===== *)
theory ConfCheckFacts
  imports ConfCheck ParamGuardFacts
begin

text \<open>
  What a configuration text that passes the check has (\<open>ConfCheck\<close>): the value in effect of every key of
  the schema passes its rule, and the brokers of \<open>cubrid_broker.conf\<close> have ports and shared memory of
  their own.
\<close>

section \<open>Collisions\<close>

definition broker_ints :: "nat \<Rightarrow> string \<Rightarrow> conf_section list \<Rightarrow> int list" where
  "broker_ints base key sections =
     List.map_filter (\<lambda>sec. map_option fst (last_int base sec key)) (filter is_broker_section sections)"

lemma broker_ints_Nil [simp]: "broker_ints base key [] = []"
  by (simp add: broker_ints_def List.map_filter_def)

lemma broker_ints_Cons [simp]:
  "broker_ints base key (sec # sections) =
     (case (is_broker_section sec, last_int base sec key) of
        (True, Some (n, l)) \<Rightarrow> [n] | _ \<Rightarrow> []) @ broker_ints base key sections"
  by (auto simp: broker_ints_def List.map_filter_def split: option.splits bool.splits)

lemma set_note_number: "dom (obj_get (note_number n name seen)) = insert n (dom (obj_get seen))"
  by (auto simp: note_number_def update_conv' split: if_splits)

lemma port_step_ok:
  "fst (port_step sec seen) = [] \<longleftrightarrow>
     (case last_int 0 sec ''BROKER_PORT'' of None \<Rightarrow> True | Some (n, l) \<Rightarrow> n \<notin> dom (obj_get seen))"
  by (auto simp: port_step_def dom_def split: option.splits prod.splits)

lemma port_step_seen:
  "dom (obj_get (snd (port_step sec seen))) =
     (case last_int 0 sec ''BROKER_PORT'' of None \<Rightarrow> {} | Some (n, l) \<Rightarrow> {n}) \<union> dom (obj_get seen)"
  by (simp add: port_step_def set_note_number split: option.split prod.split)

lemma shm_step_ok:
  "fst (shm_step c m sec seen) = [] \<longleftrightarrow>
     (case last_int 16 sec ''APPL_SERVER_SHM_ID'' of None \<Rightarrow> True | Some (n, l) \<Rightarrow> n \<notin> dom (obj_get seen) \<and> Some n \<noteq> m)"
  by (auto simp: shm_step_def dom_def split: option.splits prod.splits)

lemma shm_step_seen:
  "dom (obj_get (snd (shm_step c m sec seen))) =
     (case last_int 16 sec ''APPL_SERVER_SHM_ID'' of None \<Rightarrow> {} | Some (n, l) \<Rightarrow> {n}) \<union> dom (obj_get seen)"
  by (simp add: shm_step_def set_note_number split: option.split prod.split)

lemma collision_step_broker:
  "is_broker_section sec \<Longrightarrow>
     collision_step c m sec (ps, P, S) =
       (ps @ fst (port_step sec P) @ fst (shm_step c m sec S), snd (port_step sec P), snd (shm_step c m sec S))"
  by (simp add: collision_step_def case_prod_unfold Let_def)

lemma collisions_fold:
  "fst (fold (collision_step c m) sections (ps, P, S)) = [] \<longleftrightarrow>
     ps = [] \<and>
     distinct (broker_ints 0 ''BROKER_PORT'' sections) \<and>
     set (broker_ints 0 ''BROKER_PORT'' sections) \<inter> dom (obj_get P) = {} \<and>
     distinct (broker_ints 16 ''APPL_SERVER_SHM_ID'' sections) \<and>
     set (broker_ints 16 ''APPL_SERVER_SHM_ID'' sections) \<inter> dom (obj_get S) = {} \<and>
     m \<notin> Some ` set (broker_ints 16 ''APPL_SERVER_SHM_ID'' sections)"
proof (induction sections arbitrary: ps P S)
  case (Cons sec sections)
  show ?case
  proof (cases "is_broker_section sec")
    case True
    show ?thesis unfolding fold_simps(2) collision_step_broker [OF True] Cons.IH port_step_seen shm_step_seen append_is_Nil_conv
        port_step_ok shm_step_ok broker_ints_Cons
      using True by (auto split: option.splits prod.splits)
  next
    case False
    then have "collision_step c m sec (ps, P, S) = (ps, P, S)" by (simp add: collision_step_def)
    with False show ?thesis by (simp add: Cons.IH)
  qed
qed simp

lemma no_collisions:
  "brokerCollisions sections common = [] \<longleftrightarrow>
     distinct (broker_ints 0 ''BROKER_PORT'' sections) \<and>
     distinct (broker_ints 16 ''APPL_SERVER_SHM_ID'' sections) \<and>
     master_shm_id sections common \<notin> Some ` set (broker_ints 16 ''APPL_SERVER_SHM_ID'' sections)"
  by (simp add: brokerCollisions_def collisions_fold)

section \<open>Letters\<close>

fun double_s :: "string \<Rightarrow> bool" where
  "double_s (a # b # cs) = (a = CHR ''S'' \<and> b = CHR ''S'' \<or> double_s (b # cs))"
| "double_s _ = False"

lemma double_s_tail: "double_s s \<Longrightarrow> double_s (c # s)"
  by (cases s) auto

lemma double_s_prepend: "double_s s \<Longrightarrow> double_s (t @ s)"
  by (induction t) (auto intro: double_s_tail)

lemma upper_sharp_s: "CHR 0xDF \<in> set k \<Longrightarrow> double_s (upper k)"
proof -
  assume "CHR 0xDF \<in> set k"
  then obtain xs ys where k: "k = xs @ CHR 0xDF # ys" by (metis split_list)
  have "upper_char (CHR 0xDF) = ''SS''" by code_simp
  then have "upper k = upper xs @ CHR ''S'' # CHR ''S'' # upper ys" by (simp add: k upper_def)
  then show ?thesis by (auto intro: double_s_prepend)
qed

lemma lower_upper_char: "c \<noteq> CHR 0xDF \<Longrightarrow> map lower_char (upper_char c) = [lower_char c]"
proof -
  assume c: "c \<noteq> CHR 0xDF"
  define n where "n = (of_char c :: nat)"
  have n: "c = char_of n" "n < 256" by (simp_all add: n_def)
  have "char_of (223::nat) = CHR 0xDF" by code_simp
  then have "n \<noteq> 223" using c n by auto
  then show ?thesis using n
    by (auto simp: upper_char_def lower_char_def Let_def of_char_of n_def [symmetric])
qed

lemma lower_upper: "CHR 0xDF \<notin> set k \<Longrightarrow> lower (upper k) = lower k"
proof (induction k)
  case (Cons c k)
  then show ?case using lower_upper_char [of c] by (simp add: lower_def upper_def) blast
qed (simp add: upper_def lower_def)

lemma upper_is_lower: "upper k = K \<Longrightarrow> \<not> double_s K \<Longrightarrow> lower k = lower K"
  using lower_upper upper_sharp_s by metis

section \<open>The value in effect\<close>

text \<open>
  A key the check can rely on: an entry of the schema has it, no other entry has it in another case, and
  no key of a file is mistaken for it by its capitals.
\<close>

definition covered :: "ParamSchemaEntry list \<Rightarrow> string \<Rightarrow> bool" where
  "covered schema K \<longleftrightarrow>
     K \<in> ps_key ` set schema \<and> (\<forall>e \<in> set schema. lower (ps_key e) = lower K \<longrightarrow> ps_key e = K) \<and>
     \<not> double_s K \<and> K \<noteq> ''__proto__'' \<and> K \<noteq> ''constructor''"

lemma covered_single: "covered schema K \<Longrightarrow> \<not> double_s K"
  and covered_entry: "covered schema K \<Longrightarrow> K \<in> ps_key ` set schema"
  unfolding covered_def by (elim conjE, assumption)+

lemma last_entry_SomeD: "last_entry_of key schema k = Some e \<Longrightarrow> e \<in> set schema \<and> key e = k"
  by (auto simp: last_entry_of_def dest: find_SomeD)

lemma last_entry_None: "last_entry_of key schema k = None \<longleftrightarrow> k \<notin> key ` set schema"
  by (auto simp: last_entry_of_def find_None_iff)

lemma generated_for_key:
  assumes "generated_for kind known sec k = Some en"
  shows "ps_key en = lower k \<or> ps_key en = upper k"
  using assms by (auto simp: generated_for_def generated_entry_def entry_def ParamSchemaEntry.defs split: if_splits option.splits)

lemma generated_not_covered:
  assumes "generated_for kind known sec k = Some en" "covered schema K" "last_entry_of (\<lambda>e. lower (ps_key e)) schema (lower k) = None"
  shows "ps_key en \<noteq> K"
proof
  assume K: "ps_key en = K"
  have "lower k = lower K"
    using generated_for_key [OF assms(1)]
  proof
    assume "ps_key en = upper k"
    then have "upper k = K" using K by simp
    then show ?thesis using covered_single [OF assms(2)] by (rule upper_is_lower)
  qed (use K in \<open>simp only: lower_idem\<close>)
  moreover obtain e where "e \<in> set schema" "ps_key e = K" using covered_entry [OF assms(2)] by blast
  ultimately show False using assms(3) unfolding last_entry_None by (metis image_eqI)
qed

lemma plain_get_set:
  "K \<noteq> ''__proto__'' \<Longrightarrow> plain_get K (plain_set k v ob) = (if k = K then Some v else plain_get K ob)"
  by (simp add: plain_get_def plain_set_def update_conv')

lemma take_entry_value:
  assumes "covered schema K"
  shows "plain_get K (sv_values (take_entry schema kind known sec e sv)) =
           (if lower (ce_key e) = lower K then Some (ce_value e) else plain_get K (sv_values sv))"
proof (cases "last_entry_of (\<lambda>en. lower (ps_key en)) schema (lower (ce_key e))")
  case (Some en)
  then have "en \<in> set schema" "lower (ps_key en) = lower (ce_key e)" by (auto dest: last_entry_SomeD)
  then have "ps_key en = K \<longleftrightarrow> lower (ce_key e) = lower K" using assms by (auto simp: covered_def)
  then show ?thesis using Some assms by (simp add: take_entry_def plain_get_set covered_def)
next
  case None
  then have "lower (ce_key e) \<noteq> lower K" using assms by (auto simp: covered_def last_entry_None)
  moreover have "ps_key en \<noteq> K" if "generated_for kind known sec (ce_key e) = Some en" for en
    using generated_not_covered [OF that assms None] .
  ultimately show ?thesis using None assms by (auto simp: take_entry_def plain_get_set covered_def split: option.split)
qed

lemma take_entries_value:
  assumes "covered schema K"
  shows "plain_get K (sv_values (fold (take_entry schema kind known sec) es sv)) =
           (case find (\<lambda>e. lower (ce_key e) = lower K) (rev es) of
              Some e \<Rightarrow> Some (ce_value e) | None \<Rightarrow> plain_get K (sv_values sv))"
  by (induction es rule: rev_induct) (simp_all add: take_entry_value [OF assms])

lemma value_in_effect:
  assumes "covered schema K"
  shows "plain_get K (sv_values (values_of_section schema kind known sec)) = map_option ce_value (lastEntry sec K)"
proof -
  have "plain_get K [] = None" using assms by (simp add: covered_def plain_get_def)
  then show ?thesis
    unfolding values_of_section_def take_entries_value [OF assms] lastEntry_def by (simp split: option.split)
qed

lemma take_entry_generated:
  assumes "covered schema K" "K \<notin> ps_key ` set (sv_generated sv)"
  shows "K \<notin> ps_key ` set (sv_generated (take_entry schema kind known sec e sv))"
  using assms generated_not_covered [of kind known sec "ce_key e" _ schema K]
  by (auto simp: take_entry_def split: option.split)

lemma covered_not_generated:
  assumes "covered schema K"
  shows "K \<notin> ps_key ` set (sv_generated (values_of_section schema kind known sec))"
proof -
  have "K \<notin> ps_key ` set (sv_generated (fold (take_entry schema kind known sec) es sv))"
    if "K \<notin> ps_key ` set (sv_generated sv)" for es sv
    using that by (induction es arbitrary: sv) (simp_all add: take_entry_generated [OF assms])
  then show ?thesis by (simp add: values_of_section_def)
qed

section \<open>Errors\<close>

lemma keys_plain_set: "k \<noteq> ''__proto__'' \<Longrightarrow> dom (obj_get (plain_set k v ob)) = insert k (dom (obj_get ob))"
  by (simp add: plain_set_def update_conv')

lemma keys_plain_set_mono: "dom (obj_get ob) \<subseteq> dom (obj_get (plain_set k v ob))"
  by (auto simp: plain_set_def update_conv')

lemma keys_fold_mono:
  assumes "\<And>x ob. dom (obj_get ob) \<subseteq> dom (obj_get (f x ob))"
  shows "dom (obj_get ob) \<subseteq> dom (obj_get (fold f xs ob))"
proof (induction xs arbitrary: ob)
  case (Cons x xs)
  show ?case unfolding fold_Cons comp_apply by (rule subset_trans [OF assms Cons.IH])
qed simp

lemma failing_entry_reported:
  assumes "e \<in> set schema" "entry_error opts e (plain_get (ps_key e) params) = Some r" "ps_key e \<noteq> ''__proto__''"
  shows "ps_key e \<in> dom (obj_get (validateEffectiveParams schema params opts))"
proof -
  let ?f = "\<lambda>e errs. case entry_error opts e (plain_get (ps_key e) params) of
                None \<Rightarrow> errs | Some r \<Rightarrow> plain_set (ps_key e) r errs"
  have mono: "dom (obj_get ob) \<subseteq> dom (obj_get (?f x ob))" for x ob
    by (cases "entry_error opts x (plain_get (ps_key x) params)") (simp_all add: keys_plain_set_mono)
  obtain xs ys where s: "schema = xs @ e # ys" using assms(1) by (metis split_list)
  have "ps_key e \<in> dom (obj_get (?f e (fold ?f xs [])))" using assms(2,3) by (simp add: keys_plain_set)
  then have "ps_key e \<in> dom (obj_get (fold ?f schema []))"
    unfolding s fold_append fold_Cons comp_apply using keys_fold_mono [of ?f, OF mono] by blast
  moreover have "dom (obj_get ob) \<subseteq> dom (obj_get (fold (\<lambda>(key, r) errs. if obj_get errs key = None then plain_set key r errs else errs) xs ob))"
    for ob :: param_errors and xs
    by (rule keys_fold_mono) (simp only: case_prod_unfold split: if_split, simp add: keys_plain_set_mono)
  ultimately show ?thesis unfolding validateEffectiveParams_def Let_def by blast
qed

end
