(* ===== verification/ConfAccept.thy ===== *)
theory ConfAccept
  imports ConfCheckFacts
begin

text \<open>
  What a text that the check accepts is (\<open>ConfCheck\<close>, \<open>ConfCheckFacts\<close>): every rule of the schema holds of
  the value the engine uses, and a \<open>cubrid_broker.conf\<close> meets the conditions under which the brokers start.
\<close>

section \<open>Accepted texts\<close>

definition accepted :: "ParamSchemaEntry list \<Rightarrow> string list \<Rightarrow> ConfFileKind \<Rightarrow> EngineKnownKeys option \<Rightarrow> bool" where
  "accepted schema lines kind known \<longleftrightarrow> filter isBlockingConfTextProblem (validateConfText schema lines kind known) = []"

lemma set_by_line [simp]: "set (by_line ps) = set ps"
  by (simp add: by_line_def)

lemma accepted_problem:
  assumes "accepted schema lines kind known" "p \<in> set (validateConfText schema lines kind known)"
  shows "cp_warning p"
  using assms by (auto simp: accepted_def filter_empty_conv isBlockingConfTextProblem_def)

lemma problem_fields [simp]: "cp_warning (problem l k w m) = w" "cp_message (problem l k w m) = m"
  by (simp_all add: problem_def)

lemma set_validate:
  assumes "kind \<noteq> Cmconf" "parseConfText lines = (sections, errs)"
  shows "set (validateConfText schema lines kind known) =
     syntax_problem ` set errs \<union> (\<Union>sec \<in> set sections. set (section_problems schema kind known sec)) \<union>
     (if kind = Brokerconf \<and> \<not> (\<exists>sec \<in> set sections. sec_name sec = Some (COMMON_SECTION kind))
      then {problem None None False (MissingSection (COMMON_SECTION kind))} else {}) \<union>
     (if kind = Brokerconf then set (brokerCollisions sections (COMMON_SECTION kind)) else {})"
  unfolding validateConfText_def assms(2) using assms(1) by (simp only: if_False prod.case Let_def set_by_line set_append set_map set_concat Un_assoc split: if_split) auto

lemma accepted_parts:
  assumes "accepted schema lines kind known" "kind \<noteq> Cmconf" "parseConfText lines = (sections, errs)"
  shows "errs = []"
    and "sec \<in> set sections \<Longrightarrow> p \<in> set (section_problems schema kind known sec) \<Longrightarrow> cp_warning p"
    and "kind = Brokerconf \<Longrightarrow> brokerCollisions sections (COMMON_SECTION kind) = []"
    and "kind = Brokerconf \<Longrightarrow> \<exists>sec \<in> set sections. sec_name sec = Some (COMMON_SECTION kind)"
proof -
  note acc = accepted_problem [OF assms(1), unfolded set_validate [OF assms(2,3)]]
  have "\<not> cp_warning (syntax_problem e)" for e by (simp add: syntax_problem_def)
  moreover have "cp_warning (syntax_problem e)" if "e \<in> set errs" for e using that by (intro acc UnI1 imageI)
  ultimately have "e \<notin> set errs" for e by blast
  then show "errs = []" by (cases errs) auto
  show "sec \<in> set sections \<Longrightarrow> p \<in> set (section_problems schema kind known sec) \<Longrightarrow> cp_warning p"
    by (rule acc) blast
  show "\<exists>sec \<in> set sections. sec_name sec = Some (COMMON_SECTION kind)" if "kind = Brokerconf"
  proof (rule ccontr)
    assume "\<not> ?thesis"
    then have "cp_warning (problem None None False (MissingSection (COMMON_SECTION kind)))" using that by (intro acc) simp
    then show False by simp
  qed
  have w: "\<not> cp_warning p" if "p \<in> set (brokerCollisions sections c)" for p c
  proof -
    have "\<forall>p \<in> set (fst (fold (collision_step c m) secs st)). \<not> cp_warning p" if "\<forall>p \<in> set (fst st). \<not> cp_warning p" for m secs st
      using that
    proof (induction secs arbitrary: st)
      case (Cons s secs)
      obtain ps P S where st: "st = (ps, P, S)" by (cases st) auto
      have "\<forall>p \<in> set (fst (collision_step c m s st)). \<not> cp_warning p"
        using Cons.prems
        by (cases "is_broker_section s") (auto simp: st collision_step_broker port_step_def shm_step_def collision_step_def split: option.splits if_splits)
      then show ?case using Cons.IH by simp
    qed simp
    from this [of "([], [], [])"] show ?thesis using that by (simp add: brokerCollisions_def)
  qed
  show "brokerCollisions sections (COMMON_SECTION kind) = []" if "kind = Brokerconf"
  proof (cases "brokerCollisions sections (COMMON_SECTION kind)")
    case (Cons p ps)
    then have "p \<in> set (brokerCollisions sections (COMMON_SECTION kind))" by simp
    moreover from this have "cp_warning p" using that by (intro acc UnI2) simp
    ultimately show ?thesis using w by blast
  qed
qed

lemma accepted_values:
  assumes "accepted schema lines kind known" "kind \<noteq> Cmconf" "sec \<in> set (fst (parseConfText lines))"
    and "e \<in> set schema" "covered schema (ps_key e)"
  shows "entry_error (section_options kind sec) e (map_option ce_value (lastEntry sec (ps_key e))) = None"
proof (rule ccontr)
  let ?sv = "values_of_section schema kind known sec"
  assume "\<not> ?thesis"
  then obtain r where r: "entry_error (section_options kind sec) e (plain_get (ps_key e) (sv_values ?sv)) = Some r"
    by (auto simp: value_in_effect [OF assms(5)])
  have "ps_key e \<noteq> ''__proto__''" using assms(5) unfolding covered_def by (elim conjE)
  then have "ps_key e \<in> dom (obj_get (validateEffectiveParams (schema @ sv_generated ?sv) (sv_values ?sv) (section_options kind sec)))"
    using assms(4) r by (intro failing_entry_reported) auto
  then obtain q where "(ps_key e, q) \<in> set (validateEffectiveParams (schema @ sv_generated ?sv) (sv_values ?sv) (section_options kind sec))"
    by (auto dest: map_of_SomeD)
  moreover have "ps_key e \<notin> ps_key ` set (sv_generated ?sv)" using assms(5) by (rule covered_not_generated)
  ultimately have "\<exists>p \<in> set (value_problems schema kind known sec). \<not> cp_warning p"
    unfolding value_problems_def Let_def set_map by (intro bexI [OF _ imageI]) (auto simp del: image_iff)
  then obtain p where "p \<in> set (section_problems schema kind known sec)" "\<not> cp_warning p"
    by (auto simp: section_problems_def)
  moreover obtain sections errs where "parseConfText lines = (sections, errs)" by (cases "parseConfText lines")
  ultimately show False using accepted_parts(2) [OF assms(1,2)] assms(3) by auto
qed

lemma accepted_known:
  assumes "accepted schema lines kind (Some k)" "kind \<noteq> Cmconf" "sec \<in> set (fst (parseConfText lines))"
    and "ek_strict k" "x \<in> set (sec_entries sec)"
  shows "lower (lookup_key kind sec x) \<in> set (known_keys_of kind k)"
proof (rule ccontr)
  assume "\<not> ?thesis"
  then obtain p where "key_problem kind k sec x = Some p" "\<not> cp_warning p"
    using assms(4) by (auto simp: key_problem_def Let_def)
  then have "p \<in> set (section_problems schema kind (Some k) sec)"
    using assms(5) by (force simp: section_problems_def List.map_filter_def)
  moreover obtain sections errs where "parseConfText lines = (sections, errs)" by (cases "parseConfText lines")
  ultimately show False using accepted_parts(2) [OF assms(1,2)] assms(3) \<open>\<not> cp_warning p\<close> by auto
qed

section \<open>What the brokers need to start\<close>

text \<open>
  The conditions of \<open>broker_config.c\<close> as the comments of the check give them: a shared memory id of the
  master that is not zero, a port and a shared memory id of its own for each broker, and none of them the
  master's.
\<close>

definition brokers_can_start :: "conf_section list \<Rightarrow> bool" where
  "brokers_can_start sections \<longleftrightarrow>
     (case master_shm_id sections ''broker'' of
        None \<Rightarrow> False
      | Some master \<Rightarrow>
          0 < master \<and>
          (\<forall>sec \<in> set sections. is_broker_section sec \<longrightarrow>
             (case (last_int 0 sec ''BROKER_PORT'', last_int 16 sec ''APPL_SERVER_SHM_ID'') of
                (Some (port, _), Some (shm, _)) \<Rightarrow> 1 \<le> port \<and> port \<le> 65535 \<and> 0 < shm
              | _ \<Rightarrow> False)) \<and>
          distinct (broker_ints 0 ''BROKER_PORT'' sections) \<and>
          distinct (broker_ints 16 ''APPL_SERVER_SHM_ID'' sections) \<and>
          master \<notin> set (broker_ints 16 ''APPL_SERVER_SHM_ID'' sections))"

lemma required_int:
  assumes "entry_error opts e raw = None" "belongsHere opts e" "eo_emptyIntIsZero opts" "\<not> eo_sysprmKeywords opts"
    and guard: "ps_guard e = IntGuard (Some 1) mx (Some b)" "b \<in> {0, 16}" "ps_required e"
  obtains v n where "raw = Some v" "parseGuardInt (Some b) v = Some n" "1 \<le> n" "case mx of None \<Rightarrow> True | Some x \<Rightarrow> n \<le> x"
proof -
  have zero: "validateParamValue (Some (ps_guard e)) (Some ''0'') \<noteq> None"
  proof -
    have "parseCInt (trim ''0'') 0 = Some 0" "parseCInt (trim ''0'') 16 = Some 0" by code_simp+
    then show ?thesis using guard(2) by (auto simp: guard(1) validateParamValue_def int_reason_def or_base_def range_reason_def)
  qed
  have v: "\<exists>v. raw = Some v \<and> trim v \<noteq> [] \<and> validateParamValue (Some (ps_guard e)) (Some v) = None"
    using assms(1) zero guard(3)
    by (auto simp: entry_error_def assms(2-4) Let_def isValueBlank_def is_int_guard_def guard(1) split: option.splits if_splits)
  then obtain v where v: "raw = Some v" "v \<noteq> []" "int_reason (Some 1) mx (Some b) v = None"
    by (auto simp: validateParamValue_def guard(1) split: if_splits)
  then obtain n where "parseGuardInt (Some b) v = Some n" "int_range n IntAtLeast IntAtMost (Some 1) mx = None"
    by (auto simp: int_reason_def parseGuardInt_def or_base_def split: option.splits)
  then show thesis using that [OF v(1)] by (auto simp: range_accepts split: option.splits)
qed

definition broker_port_entry :: ParamSchemaEntry where
  "broker_port_entry = ParamSchemaEntry.truncate
     ((entry ''BROKER_PORT'' Common (IntGuard (Some 1) (Some 65535) (Some 0)) (Some ''''))\<lparr>ps_instanceOnly := True, ps_required := True\<rparr>)"

definition shm_id_entry :: ParamSchemaEntry where
  "shm_id_entry = ParamSchemaEntry.truncate
     ((entry ''APPL_SERVER_SHM_ID'' Common (IntGuard (Some 1) None (Some 16)) (Some ''''))\<lparr>ps_instanceOnly := True, ps_required := True\<rparr>)"

definition master_shm_entry :: ParamSchemaEntry where
  "master_shm_entry = ParamSchemaEntry.truncate
     ((entry ''MASTER_SHM_ID'' Common (IntGuard (Some 1) None (Some 16)) (Some ''''))\<lparr>ps_commonOnly := True, ps_required := True\<rparr>)"

lemmas broker_entries = broker_port_entry_def shm_id_entry_def master_shm_entry_def entry_def ParamSchemaEntry.defs

lemma broker_entry_fields:
  "ps_key broker_port_entry = ''BROKER_PORT''" "ps_guard broker_port_entry = IntGuard (Some 1) (Some 65535) (Some 0)"
  "ps_key shm_id_entry = ''APPL_SERVER_SHM_ID''" "ps_guard shm_id_entry = IntGuard (Some 1) None (Some 16)"
  "ps_key master_shm_entry = ''MASTER_SHM_ID''" "ps_guard master_shm_entry = IntGuard (Some 1) None (Some 16)"
  "ps_required broker_port_entry" "ps_required shm_id_entry" "ps_required master_shm_entry"
  "\<not> ps_commonOnly broker_port_entry" "\<not> ps_commonOnly shm_id_entry" "\<not> ps_instanceOnly master_shm_entry"
  by (simp_all add: broker_entries)

lemma resolved_unversioned:
  assumes "e \<in> set table" "ps_minVersion e = None" "ps_maxVersion e = None"
  shows "ParamSchemaEntry.truncate e \<in> set (resolveParamSchema table v)"
  using assms by (auto simp: resolveParamSchema_def in_version_range_def)

lemma resolved_broker_entries:
  "broker_port_entry \<in> set (resolveParamSchema BROKER_PARAM_SCHEMA v)"
  "shm_id_entry \<in> set (resolveParamSchema BROKER_PARAM_SCHEMA v)"
  "master_shm_entry \<in> set (resolveParamSchema BROKER_PARAM_SCHEMA v)"
  unfolding broker_port_entry_def shm_id_entry_def master_shm_entry_def
  by (rule resolved_unversioned; simp add: BROKER_PARAM_SCHEMA_def entry_def)+

lemma truncated_key [simp]: "ps_key (ParamSchemaEntry.truncate e) = ps_key e"
  by (simp add: ParamSchemaEntry.defs)

lemma resolved_covered:
  assumes "list_all (\<lambda>e. lower (ps_key e) = lower K \<longrightarrow> ps_key e = K) table" "e \<in> set (resolveParamSchema table v)" "ps_key e = K"
    and "\<not> double_s K" "K \<noteq> ''__proto__''" "K \<noteq> ''constructor''"
  shows "covered (resolveParamSchema table v) K"
proof -
  have "ps_key x = K" if "x \<in> set (resolveParamSchema table v)" "lower (ps_key x) = lower K" for x
  proof -
    have "\<exists>y \<in> set table. x = ParamSchemaEntry.truncate y"
      using that(1) unfolding resolveParamSchema_def by auto
    then obtain y where "y \<in> set table" "x = ParamSchemaEntry.truncate y" by blast
    then show ?thesis using assms(1) that(2) by (auto simp only: list_all_iff truncated_key)
  qed
  moreover have "K \<in> ps_key ` set (resolveParamSchema table v)" using assms(2,3) by blast
  ultimately show ?thesis unfolding covered_def using assms(4-6) by (intro conjI ballI impI)
qed

lemma broker_keys:
  "map ps_key BROKER_PARAM_SCHEMA =
     [''SERVICE'', ''BROKER_PORT'', ''MIN_NUM_APPL_SERVER'', ''MAX_NUM_APPL_SERVER'', ''MIN_NUM_APPL_SERVER'',
      ''MAX_NUM_APPL_SERVER'', ''APPL_SERVER_SHM_ID'', ''LOG_DIR'', ''ERROR_LOG_DIR'', ''SQL_LOG'',
      ''TIME_TO_KILL'', ''SESSION_TIMEOUT'', ''KEEP_CONNECTION'', ''STATEMENT_POOLING'', ''LONG_QUERY_TIME'',
      ''LONG_TRANSACTION_TIME'', ''SQL_LOG_MAX_SIZE'', ''LOG_BACKUP'', ''SOURCE_ENV'', ''MAX_STRING_LENGTH'',
      ''ACCESS_LOG'', ''ACCESS_LIST'', ''CCI_PCONNECT'', ''ACCESS_MODE'', ''PREFERRED_HOSTS'',
      ''CCI_DEFAULT_AUTOCOMMIT'', ''READ_ONLY_BROKER'', ''APPL_SERVER_MAX_SIZE'', ''APPL_SERVER_MAX_SIZE_HARD_LIMIT'',
      ''MAX_QUERY_TIMEOUT'', ''AUTO_ADD_APPL_SERVER'', ''CONNECT_ORDER'', ''RECONNECT_TIME'',
      ''SLOW_LOG'', ''SLOW_LOG_DIR'', ''SSL'', ''MASTER_SHM_ID'', ''ADMIN_LOG_FILE'', ''ACCESS_CONTROL'',
      ''ACCESS_CONTROL_FILE'', ''ACCESS_CONTROL_DEFAULT_POLICY'']"
  by (simp add: BROKER_PARAM_SCHEMA_def entry_def)

text \<open>Names in capitals, digits and underscores are the same in lower case only if they are the same.\<close>

definition capital :: "char \<Rightarrow> bool" where
  "capital c \<longleftrightarrow> (let n = of_char c :: nat in (65 \<le> n \<and> n \<le> 90) \<or> n = 95 \<or> (48 \<le> n \<and> n \<le> 57))"

lemma capital_lower_char: "capital c \<Longrightarrow> capital d \<Longrightarrow> lower_char c = lower_char d \<Longrightarrow> c = d"
proof -
  assume a: "capital c" "capital d" "lower_char c = lower_char d"
  then have "(of_char (lower_char c) :: nat) = of_char (lower_char d)" by simp
  then have "(of_char c :: nat) = of_char d"
    using a(1,2) by (auto simp: capital_def lower_char_def Let_def of_char_of split: if_splits)
  then show "c = d" by simp
qed

lemma capital_lower: "list_all capital k \<Longrightarrow> list_all capital K \<Longrightarrow> lower k = lower K \<Longrightarrow> k = K"
  unfolding lower_def
  by (erule map_inj_on, rule inj_onI, rule capital_lower_char) (auto simp only: list_all_iff)

lemma broker_capital: "list_all (list_all capital) (map ps_key BROKER_PARAM_SCHEMA)"
  unfolding broker_keys by (simp add: capital_def)

lemma broker_covered:
  "covered (resolveParamSchema BROKER_PARAM_SCHEMA v) ''BROKER_PORT''"
  "covered (resolveParamSchema BROKER_PARAM_SCHEMA v) ''APPL_SERVER_SHM_ID''"
  "covered (resolveParamSchema BROKER_PARAM_SCHEMA v) ''MASTER_SHM_ID''"
proof -
  have t: "list_all (\<lambda>e. lower (ps_key e) = lower K \<longrightarrow> ps_key e = K) BROKER_PARAM_SCHEMA"
    if "K \<in> {''BROKER_PORT'', ''APPL_SERVER_SHM_ID'', ''MASTER_SHM_ID''}" for K
  proof -
    have "K \<in> set (map ps_key BROKER_PARAM_SCHEMA)" unfolding broker_keys using that by (elim insertE emptyE) simp_all
    then show ?thesis using broker_capital capital_lower unfolding list_all_iff by (metis (no_types, lifting) image_eqI list.set_map)
  qed
  show "covered (resolveParamSchema BROKER_PARAM_SCHEMA v) ''BROKER_PORT''"
    by (rule resolved_covered [OF t resolved_broker_entries(1) broker_entry_fields(1)]) simp_all
  show "covered (resolveParamSchema BROKER_PARAM_SCHEMA v) ''APPL_SERVER_SHM_ID''"
    by (rule resolved_covered [OF t resolved_broker_entries(2) broker_entry_fields(3)]) simp_all
  show "covered (resolveParamSchema BROKER_PARAM_SCHEMA v) ''MASTER_SHM_ID''"
    by (rule resolved_covered [OF t resolved_broker_entries(3) broker_entry_fields(5)]) simp_all
qed

lemma broker_section_options:
  assumes "is_broker_section sec"
  shows "\<not> eo_isCommonSection (section_options Brokerconf sec)"
  using assms by (cases "sec_name sec") (auto simp: is_broker_section_def section_options_def COMMON_SECTION_def)

lemma broker_options:
  "eo_emptyIntIsZero (section_options Brokerconf sec)" "\<not> eo_sysprmKeywords (section_options Brokerconf sec)"
  by (simp_all add: section_options_def)

lemma broker_int:
  assumes "accepted (resolveParamSchema BROKER_PARAM_SCHEMA v) lines Brokerconf known"
    and "sec \<in> set (fst (parseConfText lines))" "e \<in> {broker_port_entry, shm_id_entry, master_shm_entry}"
    and "belongsHere (section_options Brokerconf sec) e" "ps_guard e = IntGuard (Some 1) mx (Some b)"
  obtains n l where "last_int b sec (ps_key e) = Some (n, l)" "1 \<le> n" "case mx of None \<Rightarrow> True | Some x \<Rightarrow> n \<le> x"
proof -
  have e: "e \<in> set (resolveParamSchema BROKER_PARAM_SCHEMA v)"
      "covered (resolveParamSchema BROKER_PARAM_SCHEMA v) (ps_key e)" "b \<in> {0, 16}" "ps_required e"
    using assms(3,5) resolved_broker_entries broker_covered by (auto simp: broker_entry_fields)
  have none: "entry_error (section_options Brokerconf sec) e (map_option ce_value (lastEntry sec (ps_key e))) = None"
    by (rule accepted_values [OF assms(1) _ assms(2) e(1,2)]) simp
  obtain t n where t: "map_option ce_value (lastEntry sec (ps_key e)) = Some t" "parseGuardInt (Some b) t = Some n"
      "1 \<le> n" "case mx of None \<Rightarrow> True | Some x \<Rightarrow> n \<le> x"
    by (rule required_int [OF none assms(4) broker_options assms(5) e(3,4)])
  then show thesis using that by (auto simp: last_int_def)
qed

lemma accepted_brokers_start:
  assumes "accepted (resolveParamSchema BROKER_PARAM_SCHEMA v) lines Brokerconf known"
  shows "snd (parseConfText lines) = [] \<and> brokers_can_start (fst (parseConfText lines))"
proof -
  obtain sections errs where p: "parseConfText lines = (sections, errs)" by (cases "parseConfText lines")
  note parts = accepted_parts [OF assms _ p, unfolded COMMON_SECTION_def, simplified]
  obtain m where m: "master_shm_id sections ''broker'' = Some m" "1 \<le> m"
  proof -
    obtain sec where s: "find (\<lambda>sec. sec_name sec = Some ''broker'') sections = Some sec"
      using parts(4) by (cases "find (\<lambda>sec. sec_name sec = Some ''broker'') sections") (auto simp: find_None_iff)
    then have sec: "sec \<in> set sections" "sec_name sec = Some ''broker''" by (auto dest: find_SomeD)
    have "belongsHere (section_options Brokerconf sec) master_shm_entry"
      using sec(2) by (simp add: belongsHere_def broker_entry_fields section_options_def COMMON_SECTION_def)
    then obtain n l where "last_int 16 sec (ps_key master_shm_entry) = Some (n, l)" "1 \<le> n"
      using broker_int [OF assms, of sec master_shm_entry None 16] sec(1) p by (auto simp: broker_entry_fields)
    then show thesis using that s by (simp add: master_shm_id_def broker_entry_fields)
  qed
  have b: "case (last_int 0 sec ''BROKER_PORT'', last_int 16 sec ''APPL_SERVER_SHM_ID'') of
      (Some (port, _), Some (shm, _)) \<Rightarrow> 1 \<le> port \<and> port \<le> 65535 \<and> 0 < shm | _ \<Rightarrow> False"
    if sec: "sec \<in> set sections" "is_broker_section sec" for sec
  proof -
    have here: "belongsHere (section_options Brokerconf sec) broker_port_entry" "belongsHere (section_options Brokerconf sec) shm_id_entry"
      using broker_section_options [OF sec(2)] by (simp_all add: belongsHere_def broker_entry_fields)
    obtain port l where "last_int 0 sec ''BROKER_PORT'' = Some (port, l)" "1 \<le> port" "port \<le> 65535"
      using broker_int [OF assms, of sec broker_port_entry "Some 65535" 0] here sec(1) p by (auto simp: broker_entry_fields)
    moreover obtain shm l' where "last_int 16 sec ''APPL_SERVER_SHM_ID'' = Some (shm, l')" "1 \<le> shm"
      using broker_int [OF assms, of sec shm_id_entry None 16] here sec(1) p by (auto simp: broker_entry_fields)
    ultimately show ?thesis by simp
  qed
  show ?thesis using parts(1,3) m b unfolding no_collisions by (auto simp: p brokers_can_start_def)
qed


section \<open>An accepted file\<close>

lemma resolved_capital: "e \<in> set (resolveParamSchema BROKER_PARAM_SCHEMA v) \<Longrightarrow> list_all capital (ps_key e)"
  using broker_capital by (auto simp: resolveParamSchema_def list_all_iff)

lemma find_capital:
  assumes "list_all capital k"
  shows "last_entry_of (\<lambda>e. lower (ps_key e)) (resolveParamSchema BROKER_PARAM_SCHEMA v) (lower k) =
         last_entry_of ps_key (resolveParamSchema BROKER_PARAM_SCHEMA v) k"
  unfolding last_entry_of_def by (rule find_cong) (auto dest: resolved_capital capital_lower [OF _ assms])

lemma take_capital:
  assumes "list_all capital (ce_key e)"
    and "last_entry_of ps_key (resolveParamSchema BROKER_PARAM_SCHEMA v) (ce_key e) = Some en"
  shows "take_entry (resolveParamSchema BROKER_PARAM_SCHEMA v) kind known sec e sv =
     sv\<lparr>sv_values := plain_set (ps_key en) (ce_value e) (sv_values sv), sv_lineNos := plain_set (ps_key en) (ce_lineNo e) (sv_lineNos sv)\<rparr>"
  using assms(2) by (simp add: take_entry_def find_capital [OF assms(1)])

lemma sample_entries:
  "last_entry_of ps_key (resolveParamSchema BROKER_PARAM_SCHEMA ''11.4'') ''BROKER_PORT'' = Some broker_port_entry"
  "last_entry_of ps_key (resolveParamSchema BROKER_PARAM_SCHEMA ''11.4'') ''APPL_SERVER_SHM_ID'' = Some shm_id_entry"
  "last_entry_of ps_key (resolveParamSchema BROKER_PARAM_SCHEMA ''11.4'') ''MASTER_SHM_ID'' = Some master_shm_entry"
  by code_simp+

definition sample_broker_conf :: "string list" where
  "sample_broker_conf =
     [''[broker]'', ''MASTER_SHM_ID=30001'', ''[%q1]'', ''BROKER_PORT=30000'', ''APPL_SERVER_SHM_ID=30000'']"

definition sample_common :: conf_section where
  "sample_common = \<lparr>sec_name = Some ''broker'', sec_lineNo = Some 1,
     sec_entries = [\<lparr>ce_key = ''MASTER_SHM_ID'', ce_value = ''30001'', ce_lineNo = 2\<rparr>]\<rparr>"

definition sample_broker :: conf_section where
  "sample_broker = \<lparr>sec_name = Some ''%q1'', sec_lineNo = Some 3,
     sec_entries = [\<lparr>ce_key = ''BROKER_PORT'', ce_value = ''30000'', ce_lineNo = 4\<rparr>,
                    \<lparr>ce_key = ''APPL_SERVER_SHM_ID'', ce_value = ''30000'', ce_lineNo = 5\<rparr>]\<rparr>"

lemma sample_parsed: "parseConfText sample_broker_conf = ([sample_common, sample_broker], [])"
  by code_simp

lemma sample_values:
  "sv_values (values_of_section (resolveParamSchema BROKER_PARAM_SCHEMA ''11.4'') Brokerconf None sample_common) =
     [(''MASTER_SHM_ID'', ''30001'')]"
  "sv_generated (values_of_section (resolveParamSchema BROKER_PARAM_SCHEMA ''11.4'') Brokerconf None sample_common) = []"
  "sv_values (values_of_section (resolveParamSchema BROKER_PARAM_SCHEMA ''11.4'') Brokerconf None sample_broker) =
     [(''BROKER_PORT'', ''30000''), (''APPL_SERVER_SHM_ID'', ''30000'')]"
  "sv_generated (values_of_section (resolveParamSchema BROKER_PARAM_SCHEMA ''11.4'') Brokerconf None sample_broker) = []"
  by (simp_all add: values_of_section_def sample_common_def sample_broker_def take_capital capital_def sample_entries
        broker_entry_fields plain_set_def)

lemma sample_options:
  "section_options Brokerconf sample_common =
     \<lparr>eo_isCommonSection = True, eo_commonSectionLabel = ''broker'', eo_emptyValueIsError = True,
      eo_emptyIntIsZero = True, eo_sysprmKeywords = False, eo_skipSectionPlacement = False\<rparr>"
  "section_options Brokerconf sample_broker =
     \<lparr>eo_isCommonSection = False, eo_commonSectionLabel = ''broker'', eo_emptyValueIsError = True,
      eo_emptyIntIsZero = True, eo_sysprmKeywords = False, eo_skipSectionPlacement = False\<rparr>"
  by (simp_all add: section_options_def COMMON_SECTION_def sample_common_def sample_broker_def)

lemma sample_section_fine:
  "validateEffectiveParams (resolveParamSchema BROKER_PARAM_SCHEMA ''11.4'') [(''MASTER_SHM_ID'', ''30001'')]
     (section_options Brokerconf sample_common) = []"
  "validateEffectiveParams (resolveParamSchema BROKER_PARAM_SCHEMA ''11.4'')
     [(''BROKER_PORT'', ''30000''), (''APPL_SERVER_SHM_ID'', ''30000'')] (section_options Brokerconf sample_broker) = []"
  unfolding sample_options by code_simp+

lemma sample_section_problems:
  "section_problems (resolveParamSchema BROKER_PARAM_SCHEMA ''11.4'') Brokerconf None sample_common = []"
  "section_problems (resolveParamSchema BROKER_PARAM_SCHEMA ''11.4'') Brokerconf None sample_broker = []"
proof -
  have "repeated_keys n (rev (sec_entries sample_common)) [] = []" "repeated_keys n (rev (sec_entries sample_broker)) [] = []" for n
    by (simp add: sample_common_def) (simp add: sample_broker_def lower_def lower_char_def)
  then show "section_problems (resolveParamSchema BROKER_PARAM_SCHEMA ''11.4'') Brokerconf None sample_common = []"
    "section_problems (resolveParamSchema BROKER_PARAM_SCHEMA ''11.4'') Brokerconf None sample_broker = []"
    by (simp_all add: section_problems_def value_problems_def sample_values sample_section_fine)
qed

lemma sample_accepted: "accepted (resolveParamSchema BROKER_PARAM_SCHEMA ''11.4'') sample_broker_conf Brokerconf None"
proof -
  have "brokerCollisions [sample_common, sample_broker] (COMMON_SECTION Brokerconf) = []" by code_simp
  moreover have "sec_name sample_common = Some (COMMON_SECTION Brokerconf)" by (simp add: sample_common_def COMMON_SECTION_def)
  ultimately have "set (validateConfText (resolveParamSchema BROKER_PARAM_SCHEMA ''11.4'') sample_broker_conf Brokerconf None) = {}"
    unfolding set_validate [OF ConfFileKind.distinct(5) sample_parsed] by (simp add: sample_section_problems)
  then show ?thesis by (simp add: accepted_def)
qed


section \<open>Every rule\<close>


definition sample_schema :: "ParamSchemaEntry list" where
  "sample_schema =
     [ParamSchemaEntry.truncate
        ((entry ''cubrid_port_id'' Advanced (IntGuard (Some 1024) (Some 65535) None) (Some ''1523''))\<lparr>ps_commonOnly := True\<rparr>)]"

definition sample_known :: EngineKnownKeys where
  "sample_known = \<lparr>ek_strict = True, ek_catalogVersion = Some ''11.4.5'', ek_database = [''cubrid_port_id''],
     ek_broker = [], ek_databaseGuards = [], ek_databaseDeprecated = [], ek_databaseScopes = [], ek_brokerGuards = None\<rparr>"


end
