(* ===== verification/DatabaseParamSchema.thy ===== *)
theory DatabaseParamSchema
  imports ParamSchema
begin

text \<open>
  The table of \<open>database-param-schema.ts\<close>: the rules for the keys of \<open>cubrid.conf\<close> by engine version, in
  the three groups the file has them in.
\<close>

text \<open>A bound with decimals is the double nearest to it.\<close>

definition double :: "rat \<Rightarrow> rat" where
  "double r = number_of (to_double r)"

definition DATABASE_ADVANCED_ENTRIES :: "VersionedParamSchemaEntry list" where
  "DATABASE_ADVANCED_ENTRIES =
    [(entry ''access_ip_control'' Advanced BooleanGuard (Some ''no''))\<lparr>ps_scope := Some ServerScope\<rparr>,
     (entry ''access_ip_control_file'' Advanced (StringGuard False) (Some ''''))\<lparr>ps_scope := Some ServerScope\<rparr>,
     (entry ''async_commit'' Advanced BooleanGuard (Some ''no''))\<lparr>ps_scope := Some ServerScope\<rparr>,
     (entry ''checkpoint_every_npages'' Advanced (IntGuard (Some 10) None None) (Some ''100000''))
       \<lparr>ps_scope := Some ServerScope, ps_deprecated := Some (Some ''checkpoint_every_size'')\<rparr>,
     (entry ''data_aout_ratio'' Advanced (FloatGuard (Some (double 0)) (Some (double 3))) (Some ''0.0''))
       \<lparr>ps_scope := Some ServerScope\<rparr>,
     (entry ''data_buffer_flush_ratio'' Advanced (FloatGuard (Some (double (1 / 100))) (Some (double (19 / 20)))) (Some ''0.01''))
       \<lparr>ps_scope := Some ServerScope\<rparr>,
     (entry ''backup_volume_max_size_bytes'' Advanced (SizeGuard (Some 32768) (Some 9223372036854775807)) (Some ''0''))
       \<lparr>ps_scope := Some ServerScope\<rparr>,
     (entry ''block_ddl_statement'' Advanced BooleanGuard (Some ''no''))\<lparr>ps_scope := Some ClientScope\<rparr>,
     (entry ''block_nowhere_statement'' Advanced BooleanGuard (Some ''no''))\<lparr>ps_scope := Some ClientScope\<rparr>,
     (entry ''call_stack_dump_activation_list'' Advanced (IntListGuard True) (Some ''''))\<lparr>ps_scope := Some BothScope\<rparr>,
     (entry ''call_stack_dump_deactivation_list'' Advanced (IntListGuard False) (Some ''''))\<lparr>ps_scope := Some BothScope\<rparr>,
     (entry ''call_stack_dump_on_error'' Advanced BooleanGuard (Some ''no''))\<lparr>ps_scope := Some BothScope\<rparr>,
     (entry ''compactdb_page_reclaim_only'' Advanced (IntGuard None None None) (Some ''0''))\<lparr>ps_scope := Some ServerScope\<rparr>,
     (entry ''compat_numeric_division_scale'' Advanced BooleanGuard (Some ''no''))
       \<lparr>ps_scope := Some BothScope, ps_maxVersion := Some ''11.4.999''\<rparr>,
     (entry ''compat_primary_key'' Advanced BooleanGuard (Some ''no''))\<lparr>ps_scope := Some ClientScope\<rparr>,
     (entry ''csql_history_num'' Advanced (IntGuard (Some 1) (Some 200) None) (Some ''50''))\<lparr>ps_scope := Some ClientScope\<rparr>,
     (entry ''db_hosts'' Advanced (StringGuard False) (Some ''''))\<lparr>ps_scope := Some ClientScope\<rparr>,
     (entry ''dont_reuse_heap_file'' Advanced BooleanGuard (Some ''no''))\<lparr>ps_scope := Some ServerScope\<rparr>,
     (entry ''error_log'' Advanced (StringGuard False) (Some ''cubrid.err''))\<lparr>ps_scope := Some BothScope\<rparr>,
     (entry ''file_lock'' Advanced BooleanGuard (Some ''yes''))\<lparr>ps_scope := Some ServerScope\<rparr>,
     (entry ''garbage_collection'' Advanced BooleanGuard (Some ''no''))\<lparr>ps_scope := Some ClientScope, ps_deprecated := Some None\<rparr>,
     (entry ''group_commit_interval_in_msecs'' Advanced (IntGuard (Some 0) None None) (Some ''0''))\<lparr>ps_scope := Some ServerScope\<rparr>,
     (entry ''ha_mode'' Advanced (EnumGuard [''off'', ''no'', ''n'', ''0'', ''false'', ''yes'', ''y'', ''1'', ''true'', ''on'', ''fail-back'', ''role-change'', ''r'', ''repl'', ''replica'', ''2''] (Some (0, 5))) (Some ''off''))
       \<lparr>ps_scope := Some ServerScope\<rparr>,
     (entry ''ha_node_list'' Advanced (StringGuard False) (Some ''''))\<lparr>ps_commonOnly := True, ps_scope := Some ServerScope\<rparr>,
     (entry ''ha_port_id'' Advanced (IntGuard (Some 1) (Some 65535) None) (Some ''59901''))
       \<lparr>ps_commonOnly := True, ps_scope := Some ClientScope, ps_advisory := Some (''ha_mode'', [''off'', ''no'', ''n'', ''0'', ''false''])\<rparr>,
     (entry ''hostvar_late_binding'' Advanced BooleanGuard (Some ''no''))\<lparr>ps_scope := Some ClientScope\<rparr>,
     (entry ''index_scan_in_oid_order'' Advanced BooleanGuard (Some ''no''))\<lparr>ps_scope := Some ClientScope\<rparr>,
     (entry ''insert_execution_mode'' Advanced (IntGuard (Some 0) (Some 31) None) (Some ''3''))\<lparr>ps_scope := Some ClientScope\<rparr>,
     (entry ''intl_mbs_support'' Advanced BooleanGuard (Some ''no''))\<lparr>ps_scope := Some ClientScope\<rparr>,
     (entry ''max_plan_cache_entries'' Advanced (IntGuard None None None) (Some ''1000''))
       \<lparr>ps_scope := Some BothScope, ps_maxVersion := Some ''11.4.999''\<rparr>,
     (entry ''max_plan_cache_entries'' Advanced (IntGuard None (Some 10000) None) (Some ''1000''))
       \<lparr>ps_scope := Some BothScope, ps_minVersion := Some ''11.5''\<rparr>,
     (entry ''max_query_cache_entries'' Advanced (IntGuard (Some 0) None None) (Some ''0''))\<lparr>ps_scope := Some ServerScope\<rparr>,
     (entry ''oracle_style_empty_string'' Advanced BooleanGuard (Some ''no''))\<lparr>ps_scope := Some ClientScope\<rparr>,
     (entry ''oracle_style_outerjoin'' Advanced BooleanGuard (Some ''no''))\<lparr>ps_scope := Some ClientScope\<rparr>,
     (entry ''pthread_scope_process'' Advanced BooleanGuard (Some ''yes''))\<lparr>ps_scope := Some ServerScope\<rparr>,
     (entry ''stored_procedure_port'' Advanced (IntGuard (Some 0) (Some 65535) None) (Some ''0''))
       \<lparr>ps_scope := Some ServerScope, ps_minVersion := Some ''11.4'', ps_maxVersion := Some ''11.4.999''\<rparr>,
     (entry ''stored_procedure_port'' Advanced (IntGuard (Some 0) (Some 65535) None) (Some ''0''))
       \<lparr>ps_instanceOnly := True, ps_scope := Some ServerScope, ps_minVersion := Some ''11.5''\<rparr>,
     (entry ''query_cache_size_in_pages'' Advanced (IntGuard (Some 0) None None) (Some ''0''))\<lparr>ps_scope := Some ServerScope\<rparr>,
     (entry ''temp_file_max_size_in_pages'' Advanced (IntGuard None None None) (Some ''-1''))\<lparr>ps_scope := Some ServerScope\<rparr>,
     (entry ''temp_file_memory_size_in_pages'' Advanced (IntGuard (Some 0) (Some 20) None) (Some ''4''))
       \<lparr>ps_scope := Some ServerScope\<rparr>,
     (entry ''temp_volume_path'' Advanced (StringGuard False) (Some ''''))\<lparr>ps_scope := Some ServerScope\<rparr>,
     (entry ''unfill_factor'' Advanced (FloatGuard (Some (double 0)) (Some (double (3 / 10)))) (Some ''0.1''))
       \<lparr>ps_scope := Some ServerScope\<rparr>,
     (entry ''volume_extension_path'' Advanced (StringGuard False) (Some ''''))\<lparr>ps_scope := Some ServerScope\<rparr>,
     (entry ''vacuum_worker_count'' Advanced (IntGuard (Some 1) (Some 50) None) (Some ''10''))\<lparr>ps_scope := Some ServerScope\<rparr>,
     (entry ''checkpoint_every_size'' Advanced (SizeGuard (Some 147457) (Some 35184372072448)) (Some ''1600000K''))
       \<lparr>ps_scope := Some ServerScope\<rparr>,
     (entry ''ha_db_list'' Advanced (StringGuard False) (Some ''''))
       \<lparr>ps_commonOnly := True, ps_scope := Some ClientScope, ps_advisory := Some (''ha_mode'', [''off'', ''no'', ''n'', ''0'', ''false''])\<rparr>,
     (entry ''ha_copy_sync_mode'' Advanced (StringGuard False) (Some ''''))
       \<lparr>ps_commonOnly := True, ps_scope := Some ClientScope, ps_advisory := Some (''ha_mode'', [''off'', ''no'', ''n'', ''0'', ''false''])\<rparr>,
     (entry ''ha_apply_max_mem_size'' Advanced (IntGuard (Some 0) (Some 2147483647) None) (Some ''500''))
       \<lparr>ps_commonOnly := True, ps_scope := Some ClientScope, ps_advisory := Some (''ha_mode'', [''off'', ''no'', ''n'', ''0'', ''false''])\<rparr>,
     (entry ''ha_copy_log_max_archives'' Advanced (IntGuard (Some 0) (Some 2147483647) None) (Some ''1''))
       \<lparr>ps_commonOnly := True, ps_scope := Some ClientScope, ps_advisory := Some (''ha_mode'', [''off'', ''no'', ''n'', ''0'', ''false''])\<rparr>]"

definition DATABASE_GENERAL_ENTRIES :: "VersionedParamSchemaEntry list" where
  "DATABASE_GENERAL_ENTRIES =
    [entry ''lock_escalation'' General (IntGuard (Some 5) None None) (Some ''100000''),
     entry ''lock_timeout'' General (TimeGuard (Some (- 1)) (Some 2147483647000)) (Some ''-1''),
     entry ''checkpoint_interval'' General (TimeGuard (Some 59001) (Some 2147483647000)) (Some ''6min''),
     (entry ''lock_timeout_in_secs'' General (IntGuard (Some (- 1)) None None) (Some ''-1''))
       \<lparr>ps_deprecated := Some (Some ''lock_timeout'')\<rparr>,
     entry ''deadlock_detection_interval_in_secs'' General (FloatGuard (Some (double (1 / 10))) None) (Some ''1''),
     (entry ''checkpoint_interval_in_mins'' General (IntGuard (Some 1) (Some 35791394) None) (Some ''6''))
       \<lparr>ps_deprecated := Some (Some ''checkpoint_interval'')\<rparr>,
     entry ''isolation_level'' General (EnumGuard [''tran_serializable'', ''tran_no_phantom_read'', ''tran_rep_class_rep_instance'', ''tran_rep_read'', ''tran_rep_class_commit_instance'', ''tran_read_committed'', ''tran_cursor_stability'', ''serializable'', ''no_phantom_read'', ''rep_class_rep_instance'', ''rep_read'', ''rep_class_commit_instance'', ''read_committed'', ''cursor_stability''] (Some (4, 6))) (Some ''TRAN_REP_CLASS_COMMIT_INSTANCE''),
     (entry ''cubrid_port_id'' General (IntGuard (Some 1) (Some 65535) None) (Some ''1523''))\<lparr>ps_commonOnly := True\<rparr>,
     entry ''max_clients'' General (IntGuard (Some 10) (Some 4000) None) (Some ''100''),
     entry ''db_volume_size'' General (SizeGuard None (Some 21474836480)) (Some ''512M''),
     entry ''log_volume_size'' General (SizeGuard (Some 20971520) (Some 4294967296)) (Some ''512M''),
     entry ''log_max_archives'' General (IntGuard (Some 0) None None) (Some ''2147483647''),
     (entry ''auto_restart_server'' General BooleanGuard (Some ''yes''))\<lparr>ps_maxVersion := Some ''11.3.999''\<rparr>,
     (entry ''auto_restart_server'' General BooleanGuard (Some ''yes''))\<lparr>ps_commonOnly := True, ps_minVersion := Some ''11.4''\<rparr>]"

definition DATABASE_BUFFER_ENTRIES :: "VersionedParamSchemaEntry list" where
  "DATABASE_BUFFER_ENTRIES =
    [(entry ''data_buffer_pages'' Buffer (IntGuard (Some 1024) None None) (Some ''32768''))
       \<lparr>ps_bufferGroup := Some (''data'', PagesRole), ps_deprecated := Some (Some ''data_buffer_size'')\<rparr>,
     (entry ''data_buffer_size'' Buffer (SizeGuard (Some 16760833) (Some 35184372072448)) (Some ''512M''))
       \<lparr>ps_bufferGroup := Some (''data'', SizeRole)\<rparr>,
     (entry ''sort_buffer_pages'' Buffer (IntGuard (Some 1) None None) (Some ''128''))
       \<lparr>ps_bufferGroup := Some (''sort'', PagesRole), ps_deprecated := Some (Some ''sort_buffer_size'')\<rparr>,
     (entry ''sort_buffer_size'' Buffer (SizeGuard (Some 1) (Some 35184372072448)) (Some ''2M''))
       \<lparr>ps_bufferGroup := Some (''sort'', SizeRole)\<rparr>,
     (entry ''log_buffer_pages'' Buffer (IntGuard (Some 128) None None) (Some ''16384''))
       \<lparr>ps_bufferGroup := Some (''log'', PagesRole), ps_deprecated := Some (Some ''log_buffer_size'')\<rparr>,
     (entry ''log_buffer_size'' Buffer (SizeGuard (Some 2080769) (Some 35184372072448)) (Some ''256M''))
       \<lparr>ps_bufferGroup := Some (''log'', SizeRole)\<rparr>,
     (entry ''index_scan_oid_buffer_pages'' Buffer (FloatGuard (Some (double (1 / 20))) (Some (double 16))) (Some ''4''))
       \<lparr>ps_bufferGroup := Some (''indexScanOid'', PagesRole), ps_deprecated := Some (Some ''index_scan_oid_buffer_size'')\<rparr>,
     (entry ''index_scan_oid_buffer_size'' Buffer (SizeGuard (Some 656) (Some 262144)) (Some ''65536''))
       \<lparr>ps_bufferGroup := Some (''indexScanOid'', SizeRole)\<rparr>]"

definition DATABASE_PARAM_SCHEMA :: "VersionedParamSchemaEntry list" where
  "DATABASE_PARAM_SCHEMA = DATABASE_ADVANCED_ENTRIES @ DATABASE_GENERAL_ENTRIES @ DATABASE_BUFFER_ENTRIES"

end
