(* ===== verification/EngineCatalog.thy ===== *)
theory EngineCatalog
  imports ConfCheck HostGroups "HOL-Library.List_Lexorder" "HOL-Library.Char_ord"
begin

text \<open>
  Model of \<open>engine-catalog/resolve-engine-known-keys.ts\<close> and \<open>engine-catalog/catalog-defaults.ts\<close>: the rules
  for the keys of \<open>cubrid.conf\<close> that come from the engine's own tables, and the defaults shown for them.
  The catalog, a generated table, is an argument. A limit is read as a double. The limits of a key whose
  values are whole numbers are whole numbers themselves, so a fraction is dropped where such a key's bounds
  are computed; only the limits of a key with decimals keep theirs.
\<close>

section \<open>The catalog\<close>

datatype catalog_type = IntegerType | BigintType | FloatType | BooleanType | StringType | KeywordType | IntegerListType | NoType

record EngineCatalogDbParam =
  ec_key :: string
  ec_datatype :: catalog_type
  ec_deprecated :: bool
  ec_obsoleted :: bool
  ec_sizeUnit :: bool
  ec_timeUnit :: bool
  ec_differUnit :: bool
  ec_defaultValue :: "string option"
  ec_lowerLimit :: "string option"
  ec_upperLimit :: "string option"
  ec_setDup :: "string option"
  ec_keywords :: "(string \<times> string option) list option"
  ec_flags :: "string list"

record EngineCatalogBrokerKey =
  eb_key :: string
  eb_buildCondition :: "string option"

record EngineCatalogVersion =
  ev_engineVersion :: string
  ev_db :: "EngineCatalogDbParam list"
  ev_broker :: "EngineCatalogBrokerKey list"

text \<open>\<open>versionParts\<close>: the first three numbers of a version, as texts.\<close>

definition catalog_version_parts :: "string \<Rightarrow> string list" where
  "catalog_version_parts version = take 3 (version_split [] version)"

text \<open>\<open>[major, minor, patch].join('.')\<close>, where what is missing is an empty text.\<close>

definition three_parts :: "string list \<Rightarrow> string" where
  "three_parts ps = join ''.'' (take 3 (ps @ [[], [], []]))"

definition find_exact :: "EngineCatalogVersion list \<Rightarrow> string \<Rightarrow> EngineCatalogVersion option" where
  "find_exact versions v =
     find (\<lambda>cv. join ''.'' (catalog_version_parts (ev_engineVersion cv)) = three_parts (catalog_version_parts v)) versions"

definition same_line :: "EngineCatalogVersion list \<Rightarrow> string \<Rightarrow> EngineCatalogVersion list" where
  "same_line versions v =
     (let part = (\<lambda>ps n. if n < length ps then Some (ps ! n) else None); host = catalog_version_parts v
      in filter (\<lambda>cv. let ps = catalog_version_parts (ev_engineVersion cv)
                      in part ps 0 = part host 0 \<and> part ps 1 = part host 1) versions)"

section \<open>Limits\<close>

definition INT_MAX :: int where "INT_MAX = 2147483647"
definition INT_MIN :: int where "INT_MIN = - 2147483648"
definition FLT_MAX :: rat where "FLT_MAX = (2 ^ 24 - 1) * 2 ^ 104"
definition UINT64_MAX :: int where "UINT64_MAX = 18446744073709551615"
definition LOAD_PAGE_SIZE :: int where "LOAD_PAGE_SIZE = 16384"

text \<open>\<open>/^-?\d+(\.\d+)?$/\<close>, and the number such a text stands for.\<close>

definition is_number_text :: "string \<Rightarrow> bool" where
  "is_number_text v \<longleftrightarrow>
     (let body = (if starts_with ''-'' v then tl v else v); rest = dropWhile is_digit body
      in takeWhile is_digit body \<noteq> [] \<and>
         (case rest of [] \<Rightarrow> True | c # ds \<Rightarrow> c = CHR ''.'' \<and> ds \<noteq> [] \<and> list_all is_digit ds))"

definition exact_number :: "string option \<Rightarrow> rat option" where
  "exact_number v =
     (case v of
        None \<Rightarrow> None
      | Some t \<Rightarrow> if is_number_text t then map_option fst (decimal_prefix t) else None)"

definition numberOrUndefined :: "string option \<Rightarrow> rat option" where
  "numberOrUndefined v = map_option (\<lambda>r. number_of (to_double r)) (exact_number v)"

text \<open>\<open>Math.ceil(limit * 100)\<close>.\<close>

definition hundredths :: "rat \<Rightarrow> int" where
  "hundredths r = \<lceil>number_of (num_mult (Num r) (Num 100))\<rceil>"

definition max_of :: "rat option \<Rightarrow> int" where
  "max_of greatest = (case greatest of None \<Rightarrow> INT_MAX | Some u \<Rightarrow> min \<lfloor>u\<rfloor> INT_MAX)"

definition io_page_bounds :: "rat option \<Rightarrow> rat option \<Rightarrow> int option \<times> int option" where
  "io_page_bounds least greatest =
     ((case least of None \<Rightarrow> None | Some l \<Rightarrow> if l \<ge> 1 then Some ((\<lfloor>l\<rfloor> - 1) * LOAD_PAGE_SIZE + 1) else None),
      Some (max_of greatest * LOAD_PAGE_SIZE))"

definition float_page_bounds :: "rat option \<Rightarrow> rat option \<Rightarrow> int option \<times> int option" where
  "float_page_bounds least greatest =
     ((case map_option hundredths least of
         None \<Rightarrow> None | Some l \<Rightarrow> if l > 0 then Some (((l - 1) * LOAD_PAGE_SIZE) div 100 + 1) else None),
      (case map_option hundredths greatest of None \<Rightarrow> None | Some u \<Rightarrow> Some ((u * LOAD_PAGE_SIZE) div 100)))"

definition msec_bounds :: "rat option \<Rightarrow> rat option \<Rightarrow> int option \<times> int option" where
  "msec_bounds least greatest =
     (map_option (\<lambda>l. if l \<ge> 1 then (\<lfloor>l\<rfloor> - 1) * 1000 + 1 else \<lfloor>l\<rfloor>) least, Some (max_of greatest * 1000))"

definition minute_bounds :: "rat option \<Rightarrow> rat option \<Rightarrow> int option \<times> int option" where
  "minute_bounds least greatest =
     (map_option (\<lambda>l. if l \<ge> 1 then \<lceil>l / 60\<rceil> else \<lfloor>l\<rfloor>) least, Some (max_of greatest div 60))"

definition differUnitBounds :: "EngineCatalogDbParam \<Rightarrow> (int option \<times> int option) option" where
  "differUnitBounds c =
     (let least = numberOrUndefined (ec_lowerLimit c); greatest = numberOrUndefined (ec_upperLimit c)
      in case ec_setDup c of
           None \<Rightarrow> None
         | Some f \<Rightarrow>
             if f = ''prm_equal_to_ori'' then Some (map_option floor least, map_option floor greatest)
             else if f = ''prm_size_to_io_pages'' \<or> f = ''prm_size_to_log_pages''
             then Some (if ec_datatype c = FloatType then float_page_bounds least greatest else io_page_bounds least greatest)
             else if f = ''prm_msec_to_sec'' then Some (msec_bounds least greatest)
             else if f = ''prm_min_to_sec'' then Some (minute_bounds least greatest)
             else None)"

section \<open>The rule of a key\<close>

definition keywordGuard :: "EngineCatalogDbParam \<Rightarrow> ParamGuard" where
  "keywordGuard c =
     (let lo = (case numberOrUndefined (ec_lowerLimit c) of None \<Rightarrow> INT_MIN | Some l \<Rightarrow> \<lfloor>l\<rfloor>);
          hi = (case numberOrUndefined (ec_upperLimit c) of None \<Rightarrow> INT_MAX | Some u \<Rightarrow> \<lfloor>u\<rfloor>)
      in case ec_keywords c of
           None \<Rightarrow> OpaqueGuard
         | Some ws \<Rightarrow>
             EnumGuard (fold push_new
                 (map fst (filter (\<lambda>(word, v). case numberOrUndefined v of
                                                 None \<Rightarrow> True | Some n \<Rightarrow> of_int lo \<le> n \<and> n \<le> of_int hi) ws)) [])
               (Some (lo, hi)))"

definition guardFromCatalog :: "EngineCatalogDbParam \<Rightarrow> ParamGuard option" where
  "guardFromCatalog c =
     (let converted = (if ec_differUnit c then differUnitBounds c else None);
          least = numberOrUndefined (ec_lowerLimit c); greatest = numberOrUndefined (ec_upperLimit c);
          mn = (if ec_differUnit c then (case converted of None \<Rightarrow> None | Some b \<Rightarrow> fst b) else map_option floor least);
          mx = (if ec_differUnit c then (case converted of None \<Rightarrow> None | Some b \<Rightarrow> snd b) else map_option floor greatest);
          exact_lower = map_option floor (exact_number (ec_lowerLimit c));
          exact_upper = map_option floor (exact_number (ec_upperLimit c))
      in if ec_obsoleted c \<or> ec_datatype c = NoType then None
         else if ec_sizeUnit c
         then Some (if ec_differUnit c then SizeGuard mn mx
                    else SizeGuard exact_lower (Some (case exact_upper of None \<Rightarrow> UINT64_MAX | Some u \<Rightarrow> u)))
         else if ec_timeUnit c then Some (TimeGuard mn mx)
         else case ec_datatype c of
                BooleanType \<Rightarrow> Some BooleanGuard
              | IntegerType \<Rightarrow> Some (IntGuard mn mx None)
              | FloatType \<Rightarrow>
                  (let fmn = (if ec_differUnit c then map_option of_int mn else least);
                       fmx = (if ec_differUnit c then map_option of_int mx else greatest)
                   in Some (FloatGuard fmn (Some (case fmx of None \<Rightarrow> FLT_MAX | Some u \<Rightarrow> u))))
              | BigintType \<Rightarrow> Some (BigintGuard (if mn = None then None else exact_lower) (if mx = None then None else exact_upper))
              | IntegerListType \<Rightarrow> Some (IntListGuard (ec_key c = ''call_stack_dump_activation_list''))
              | KeywordType \<Rightarrow> Some (keywordGuard c)
              | StringType \<Rightarrow> Some (StringGuard False)
              | NoType \<Rightarrow> None)"

section \<open>The keys of a version\<close>

definition scopeFromFlags :: "string list \<Rightarrow> param_scope option" where
  "scopeFromFlags flags =
     (let server = ''PRM_FOR_SERVER'' \<in> set flags; client = ''PRM_FOR_CLIENT'' \<in> set flags
      in if server \<and> client then Some BothScope
         else if server then Some ServerScope
         else if client then Some ClientScope else None)"

definition add_db_param :: "EngineCatalogDbParam \<Rightarrow> EngineKnownKeys \<Rightarrow> EngineKnownKeys" where
  "add_db_param p k =
     (let key = lower (ec_key p)
      in k\<lparr>ek_database := push_new key (ek_database k),
           ek_databaseScopes := (case scopeFromFlags (ec_flags p) of
                                   None \<Rightarrow> obj_del key (ek_databaseScopes k)
                                 | Some scope \<Rightarrow> obj_set key scope (ek_databaseScopes k)),
           ek_databaseGuards := (case guardFromCatalog p of
                                   None \<Rightarrow> obj_del key (ek_databaseGuards k)
                                 | Some g \<Rightarrow> obj_set key g (ek_databaseGuards k)),
           ek_databaseDeprecated := (if ec_deprecated p \<and> \<not> ec_obsoleted p then push_new key (ek_databaseDeprecated k)
                                     else remove1 key (ek_databaseDeprecated k))\<rparr>)"

definition add_broker_key :: "EngineCatalogBrokerKey \<Rightarrow> EngineKnownKeys \<Rightarrow> EngineKnownKeys" where
  "add_broker_key b k =
     (if str_or (eb_buildCondition b) [] = [] then k\<lparr>ek_broker := push_new (lower (eb_key b)) (ek_broker k)\<rparr> else k)"

definition keysOf :: "EngineCatalogVersion list \<Rightarrow> EngineKnownKeys" where
  "keysOf versions =
     (let k = fold (\<lambda>v. fold add_broker_key (ev_broker v) \<circ> fold add_db_param (ev_db v)) versions
                \<lparr>ek_strict = False, ek_catalogVersion = None, ek_database = [], ek_broker = [],
                 ek_databaseGuards = [], ek_databaseDeprecated = [], ek_databaseScopes = [], ek_brokerGuards = None\<rparr>
      in k\<lparr>ek_database := sort (ek_database k), ek_broker := sort (ek_broker k),
           ek_databaseDeprecated := sort (ek_databaseDeprecated k)\<rparr>)"

definition resolveEngineKnownKeys :: "EngineCatalogVersion list \<Rightarrow> string \<Rightarrow> EngineKnownKeys" where
  "resolveEngineKnownKeys catalog engineVersion =
     (case find_exact catalog engineVersion of
        Some exact \<Rightarrow>
          (keysOf [exact])\<lparr>ek_strict := True, ek_catalogVersion := Some (ev_engineVersion exact),
                           ek_brokerGuards := Some (resolveBrokerKeyGuards (ev_engineVersion exact))\<rparr>
      | None \<Rightarrow>
          (let line = same_line catalog engineVersion
           in (keysOf (if line \<noteq> [] then line else catalog))
                \<lparr>ek_brokerGuards := Some (resolveBrokerKeyGuards engineVersion)\<rparr>))"

section \<open>Defaults\<close>

definition DEFAULT_PAGE_BYTES :: int where "DEFAULT_PAGE_BYTES = 16 * 1024"

text \<open>\<open>byVersion\<close>: the first difference of the numbers; a version with fewer has zeros.\<close>

fun version_difference :: "int list \<Rightarrow> int list \<Rightarrow> int" where
  "version_difference [] bs = 0"
| "version_difference (a # as) bs =
     (let d = a - (case bs of [] \<Rightarrow> 0 | b # _ \<Rightarrow> b) in if d \<noteq> 0 then d else version_difference as (tl bs))"

definition byVersion :: "EngineCatalogVersion \<Rightarrow> EngineCatalogVersion \<Rightarrow> int" where
  "byVersion a b =
     version_difference (map digits_value (catalog_version_parts (ev_engineVersion a)))
       (map digits_value (catalog_version_parts (ev_engineVersion b)))"

text \<open>Undefined only for an empty catalog.\<close>

definition catalogVersionFor :: "EngineCatalogVersion list \<Rightarrow> string \<Rightarrow> EngineCatalogVersion option" where
  "catalogVersionFor catalog engineVersion =
     (case find_exact catalog engineVersion of
        Some exact \<Rightarrow> Some exact
      | None \<Rightarrow>
          (let line = same_line catalog engineVersion;
               candidates = js_sort byVersion (if line \<noteq> [] then line else catalog)
           in if candidates = [] then None else Some (last candidates)))"

definition bytesToConf :: "int \<Rightarrow> string" where
  "bytesToConf bytes =
     (if bytes = 0 then ''0''
      else case find (\<lambda>(unit, factor). bytes mod factor = 0) SIZE_UNIT_BYTES of
             Some (unit, factor) \<Rightarrow> int_str (bytes div factor) @ unit
           | None \<Rightarrow> int_str bytes)"

definition TIME_UNITS :: "(string \<times> int) list" where
  "TIME_UNITS = [(''h'', 3600000), (''min'', 60000), (''s'', 1000)]"

definition msecToConf :: "int \<Rightarrow> string" where
  "msecToConf ms =
     (if ms \<le> 0 then int_str ms
      else case find (\<lambda>(unit, factor). ms mod factor = 0) TIME_UNITS of
             Some (unit, factor) \<Rightarrow> int_str (ms div factor) @ unit
           | None \<Rightarrow> int_str ms @ ''ms'')"

definition catalogDefaultToConf :: "EngineCatalogDbParam \<Rightarrow> string option" where
  "catalogDefaultToConf c =
     (case ec_datatype c of
        BooleanType \<Rightarrow> (if ec_defaultValue c = Some ''true'' then Some ''yes''
                        else if ec_defaultValue c = Some ''false'' then Some ''no'' else None)
      | _ \<Rightarrow>
          (case numberOrUndefined (ec_defaultValue c) of
             None \<Rightarrow> None
           | Some n \<Rightarrow>
               if ec_sizeUnit c \<and> \<not> ec_differUnit c \<and> ec_datatype c = BigintType then Some (bytesToConf \<lfloor>n\<rfloor>)
               else if ec_sizeUnit c \<and> ec_differUnit c then Some (bytesToConf \<lfloor>n * of_int DEFAULT_PAGE_BYTES + 1 / 2\<rfloor>)
               else if ec_timeUnit c \<and> ec_differUnit c then Some (msecToConf (if n < 0 then \<lfloor>n\<rfloor> else \<lfloor>n\<rfloor> * 1000))
               else if ec_timeUnit c then Some (msecToConf \<lfloor>n\<rfloor>)
               else if ec_differUnit c then None
               else if ec_datatype c = IntegerType \<or> ec_datatype c = FloatType \<or> ec_datatype c = BigintType
               then ec_defaultValue c
               else None))"

definition applyCatalogDefaults ::
  "EngineCatalogVersion list \<Rightarrow> ParamSchemaEntry list \<Rightarrow> string \<Rightarrow> ParamSchemaEntry list" where
  "applyCatalogDefaults catalog entries engineVersion =
     (let db = (case catalogVersionFor catalog engineVersion of None \<Rightarrow> [] | Some v \<Rightarrow> ev_db v)
      in map (\<lambda>e. case find (\<lambda>c. lower (ec_key c) = lower (ps_key e)) (rev db) of
                    None \<Rightarrow> e
                  | Some c \<Rightarrow>
                      (let e1 = (case catalogDefaultToConf c of None \<Rightarrow> e | Some d \<Rightarrow> e\<lparr>ps_default := Some d\<rparr>);
                           scope = scopeFromFlags (ec_flags c)
                       in if ps_scope e \<noteq> None \<and> scope \<noteq> None then e1\<lparr>ps_scope := scope\<rparr> else e1))
           entries)"

end
