(* ===== verification/HostConf.thy ===== *)
theory HostConf
  imports ConfEdit ConfAccept DatabaseParamSchema EngineCatalog
begin

text \<open>
  Model of the writers of a host's configuration files: \<open>withHostConfigMutex\<close> and its queue
  (\<open>common/base.service.ts\<close>, \<open>util/concurrency/host-config-mutex.ts\<close>), the raw editor's saves
  (\<open>cms-config/cms-config.service.ts\<close>) and the edits of \<open>database-config.service.ts\<close>. Each reads a whole
  file from the manager server, decides, and writes a whole file back, with other requests running at
  every \<open>await\<close>. The manager server is outside the model: a read answers the file as it is when the
  server reads it, a write replaces it, and each may fail; a write whose answer is lost has been done.
\<close>

section \<open>What a request does with the file\<close>

datatype conf_task =
    RawEdit ConfFileKind "string list" "string list"
  | SetAutoStart string
  | EnsureHaModeOff string
  | RemoveAutoStart string
  | ForgetDatabase string
  | RenameAutoStart string string

datatype conf_outcome =
    InvalidConfdata "ConfTextProblem list"
  | ChangedSinceLoaded
  | NoConfdata
  | ServerParamNotFound
  | DbnameNotFound
  | NothingToDo
  | RequestFailed
  | Saved

definition task_kind :: "conf_task \<Rightarrow> ConfFileKind" where
  "task_kind t = (case t of RawEdit kind _ _ \<Rightarrow> kind | _ \<Rightarrow> Cubridconf)"

definition strip_eol :: "string \<Rightarrow> string" where
  "strip_eol s = rev (dropWhile (\<lambda>c. c = CHR 0x0D \<or> c = CHR 0x0A) (rev s))"

definition conf_text :: "string list \<Rightarrow> string" where
  "conf_text ls = join [CHR 0x0A] (map strip_eol ls)"

definition assertUnchangedSinceLoaded :: "string list \<Rightarrow> string list \<Rightarrow> bool" where
  "assertUnchangedSinceLoaded loaded current \<longleftrightarrow> conf_text loaded = conf_text current"

definition hasHaMode :: "string list \<Rightarrow> string \<Rightarrow> bool" where
  "hasHaMode confdata dbname \<longleftrightarrow>
     (\<exists>sec \<in> set (fst (parseConfText confdata)). sec_name sec = Some (CHR ''@'' # dbname) \<and>
        (\<exists>e \<in> set (sec_entries sec). lower (ce_key e) = ''ha_mode''))"

definition add_ha_mode_off :: "string list \<Rightarrow> string \<Rightarrow> string list" where
  "add_ha_mode_off confdata dbname =
     (let header = ''[@'' @ dbname @ '']'';
          before = takeWhile (\<lambda>line. trim line \<noteq> header) confdata
      in case dropWhile (\<lambda>line. trim line \<noteq> header) confdata of
           [] \<Rightarrow> confdata @ [[], header, ''ha_mode=off'']
         | h # rest \<Rightarrow> before @ [h, ''ha_mode=off''] @ rest)"

text \<open>What each request does after the read: it ends without a write, or has the lines to write.\<close>

definition raw_edit_write :: "string list \<Rightarrow> string list \<Rightarrow> string list \<Rightarrow> conf_outcome + string list" where
  "raw_edit_write confdata loaded current =
     (if assertUnchangedSinceLoaded loaded current then Inr confdata else Inl ChangedSinceLoaded)"

definition setAutoStartUnlocked :: "string \<Rightarrow> string list \<Rightarrow> conf_outcome + string list" where
  "setAutoStartUnlocked dbname confdata =
     (if confdata = [] then Inl NoConfdata
      else case setAutoStart confdata dbname of
             NoServiceSection \<Rightarrow> Inl ServerParamNotFound
           | AlreadyListed \<Rightarrow> Inl NothingToDo
           | Written updated \<Rightarrow> Inr updated)"

definition ensureDbHaModeOffUnlocked :: "string \<Rightarrow> string list \<Rightarrow> conf_outcome + string list" where
  "ensureDbHaModeOffUnlocked dbname confdata =
     (if confdata = [] then Inl NoConfdata
      else if hasHaMode confdata dbname then Inl NothingToDo else Inr (add_ha_mode_off confdata dbname))"

definition removeAutoStartUnlocked :: "string \<Rightarrow> string list \<Rightarrow> conf_outcome + string list" where
  "removeAutoStartUnlocked dbname confdata =
     (if confdata = [] then Inl NoConfdata
      else if serverEntries confdata = [] then Inl ServerParamNotFound
      else if \<not> isAutostart confdata dbname then Inl DbnameNotFound
      else Inr (fst (removeAutostart confdata dbname)))"

definition forgetDatabaseAfterDelete :: "string \<Rightarrow> string list \<Rightarrow> conf_outcome + string list" where
  "forgetDatabaseAfterDelete dbname confdata =
     (if confdata = [] then Inl NothingToDo
      else case forgetDbInCubridConf confdata dbname of None \<Rightarrow> Inl NothingToDo | Some updated \<Rightarrow> Inr updated)"

definition renameAutoStart :: "string \<Rightarrow> string \<Rightarrow> string list \<Rightarrow> conf_outcome + string list" where
  "renameAutoStart oldName newName confdata =
     (if confdata = [] then Inl NoConfdata
      else let updated = fst (renameDbSection (renameAutostart confdata oldName newName) oldName newName)
           in if updated = confdata then Inl NothingToDo else Inr updated)"

fun decide :: "conf_task \<Rightarrow> string list \<Rightarrow> conf_outcome + string list" where
  "decide (RawEdit kind confdata loaded) = raw_edit_write confdata loaded"
| "decide (SetAutoStart dbname) = setAutoStartUnlocked dbname"
| "decide (EnsureHaModeOff dbname) = ensureDbHaModeOffUnlocked dbname"
| "decide (RemoveAutoStart dbname) = removeAutoStartUnlocked dbname"
| "decide (ForgetDatabase dbname) = forgetDatabaseAfterDelete dbname"
| "decide (RenameAutoStart oldName newName) = renameAutoStart oldName newName"

text \<open>\<open>ensureDbLogin\<close> comes first in the two requests of a user about one database.\<close>

definition needs_login :: "conf_task \<Rightarrow> bool" where
  "needs_login t \<longleftrightarrow> (case t of SetAutoStart _ \<Rightarrow> True | RemoveAutoStart _ \<Rightarrow> True | _ \<Rightarrow> False)"

section \<open>The queue of a host\<close>

datatype conf_stage =
    Queued "nat option"
  | LoggingIn
  | Reading
  | HasRead "string list"
  | Writing "string list"
  | HasWritten
  | Ended conf_outcome

record conf_request =
  cq_host :: string
  cq_task :: conf_task
  cq_stage :: conf_stage

text \<open>
  \<open>hostConfigQueues\<close> keeps the last request of each host; a request is its own promise, which is resolved
  when it has ended. The log of the writes done is not in the code.
\<close>

record conf_hosts =
  hc_queues :: "(string, nat) obj"
  hc_next :: nat
  hc_requests :: "nat \<Rightarrow> conf_request option"
  hc_files :: "string \<Rightarrow> ConfFileKind \<Rightarrow> string list"
  hc_log :: "(string \<times> conf_task) list"

text \<open>The version the host reports, and the engine catalog of the web manager.\<close>

record host_env =
  he_version :: string
  he_catalog :: "EngineCatalogVersion list"

text \<open>\<open>resolveHostParamSchemas\<close>: the rules for the files of a host.\<close>

definition schema_of :: "host_env \<Rightarrow> ConfFileKind \<Rightarrow> ParamSchemaEntry list" where
  "schema_of env kind =
     (case kind of
        Cubridconf \<Rightarrow>
          applyCatalogDefaults (he_catalog env) (resolveParamSchema DATABASE_PARAM_SCHEMA (he_version env)) (he_version env)
      | Brokerconf \<Rightarrow> resolveParamSchema BROKER_PARAM_SCHEMA (he_version env)
      | Cmconf \<Rightarrow> resolveParamSchema CM_PARAM_SCHEMA (he_version env))"

definition known_keys :: "host_env \<Rightarrow> EngineKnownKeys" where
  "known_keys env = resolveEngineKnownKeys (he_catalog env) (he_version env)"

text \<open>\<open>assertValidConfText\<close>: the problems that turn a raw edit away.\<close>

definition blocking_problems :: "host_env \<Rightarrow> conf_task \<Rightarrow> ConfTextProblem list" where
  "blocking_problems env t =
     (case t of
        RawEdit kind confdata _ \<Rightarrow>
          filter isBlockingConfTextProblem (validateConfText (schema_of env kind) confdata kind (Some (known_keys env)))
      | _ \<Rightarrow> [])"

datatype conf_event =
    Submit string conf_task host_env
  | Begin nat
  | LoggedIn nat
  | CmsReads nat
  | Answered nat
  | CmsWrites nat
  | Confirmed nat
  | Fails nat

definition set_stage :: "nat \<Rightarrow> conf_stage \<Rightarrow> conf_hosts \<Rightarrow> conf_hosts" where
  "set_stage i st s =
     s\<lparr>hc_requests := (hc_requests s)(i := map_option (\<lambda>r. r\<lparr>cq_stage := st\<rparr>) (hc_requests s i))\<rparr>"

definition ended :: "conf_hosts \<Rightarrow> nat \<Rightarrow> bool" where
  "ended s i \<longleftrightarrow> (case hc_requests s i of None \<Rightarrow> False
                 | Some r \<Rightarrow> (case cq_stage r of Ended _ \<Rightarrow> True | _ \<Rightarrow> False))"

text \<open>The \<open>finally\<close> of \<open>withHostConfigQueue\<close>.\<close>

definition end_request :: "nat \<Rightarrow> conf_request \<Rightarrow> conf_outcome \<Rightarrow> conf_hosts \<Rightarrow> conf_hosts" where
  "end_request i r out s =
     (let s' = set_stage i (Ended out) s
      in if obj_get (hc_queues s') (cq_host r) = Some i then s'\<lparr>hc_queues := obj_del (cq_host r) (hc_queues s')\<rparr> else s')"

text \<open>A raw edit that is turned away never enters the queue.\<close>

definition submit :: "string \<Rightarrow> conf_task \<Rightarrow> host_env \<Rightarrow> conf_hosts \<Rightarrow> conf_hosts" where
  "submit host t env s =
     (let i = hc_next s; problems = blocking_problems env t;
          request = (\<lambda>st. s\<lparr>hc_next := Suc i,
                            hc_requests := (hc_requests s)(i \<mapsto> \<lparr>cq_host = host, cq_task = t, cq_stage = st\<rparr>)\<rparr>)
      in if problems \<noteq> [] then request (Ended (InvalidConfdata problems))
         else (request (Queued (obj_get (hc_queues s) host)))\<lparr>hc_queues := obj_set host i (hc_queues s)\<rparr>)"

definition request_step :: "conf_event \<Rightarrow> nat \<Rightarrow> conf_request \<Rightarrow> conf_hosts \<Rightarrow> conf_hosts" where
  "request_step ev i r s =
     (let host = cq_host r; kind = task_kind (cq_task r)
      in case (ev, cq_stage r) of
           (Begin _, Queued before) \<Rightarrow>
             if (case before of None \<Rightarrow> True | Some b \<Rightarrow> ended s b)
             then set_stage i (if needs_login (cq_task r) then LoggingIn else Reading) s
             else s
         | (LoggedIn _, LoggingIn) \<Rightarrow> set_stage i Reading s
         | (CmsReads _, Reading) \<Rightarrow> set_stage i (HasRead (hc_files s host kind)) s
         | (Answered _, HasRead current) \<Rightarrow>
             (case decide (cq_task r) current of
                Inl out \<Rightarrow> end_request i r out s
              | Inr updated \<Rightarrow> set_stage i (Writing updated) s)
         | (CmsWrites _, Writing updated) \<Rightarrow>
             (set_stage i HasWritten s)
               \<lparr>hc_files := (hc_files s)(host := (hc_files s host)(kind := updated)),
                hc_log := hc_log s @ [(host, cq_task r)]\<rparr>
         | (Confirmed _, HasWritten) \<Rightarrow> end_request i r Saved s
         | (Fails _, Queued _) \<Rightarrow> s
         | (Fails _, Ended _) \<Rightarrow> s
         | (Fails _, _) \<Rightarrow> end_request i r RequestFailed s
         | _ \<Rightarrow> s)"

fun event_request :: "conf_event \<Rightarrow> nat option" where
  "event_request (Submit _ _ _) = None"
| "event_request (Begin i) = Some i"
| "event_request (LoggedIn i) = Some i"
| "event_request (CmsReads i) = Some i"
| "event_request (Answered i) = Some i"
| "event_request (CmsWrites i) = Some i"
| "event_request (Confirmed i) = Some i"
| "event_request (Fails i) = Some i"

definition conf_step :: "conf_event \<Rightarrow> conf_hosts \<Rightarrow> conf_hosts" where
  "conf_step ev s =
     (case ev of
        Submit host t env \<Rightarrow> submit host t env s
      | _ \<Rightarrow> (case event_request ev of
                None \<Rightarrow> s
              | Some i \<Rightarrow> (case hc_requests s i of None \<Rightarrow> s | Some r \<Rightarrow> request_step ev i r s)))"

definition conf_start :: "(string \<Rightarrow> ConfFileKind \<Rightarrow> string list) \<Rightarrow> conf_hosts" where
  "conf_start files = \<lparr>hc_queues = [], hc_next = 0, hc_requests = (\<lambda>_. None), hc_files = files, hc_log = []\<rparr>"

definition conf_run :: "conf_event list \<Rightarrow> conf_hosts \<Rightarrow> conf_hosts" where
  "conf_run evs s = fold conf_step evs s"

end
