(* ===== verification/HostConfFacts.thy ===== *)
theory HostConfFacts
  imports HostConf
begin

text \<open>
  Properties of the writers of a host's configuration files (\<open>HostConf\<close>): the queue lets one request of a
  host run at a time, so that a file is what the edits make of it one after the other.
\<close>

section \<open>One request at a time\<close>

fun has_ended :: "conf_stage \<Rightarrow> bool" where
  "has_ended (Ended out) = True"
| "has_ended _ = False"

fun is_queued :: "conf_stage \<Rightarrow> bool" where
  "is_queued (Queued before) = True"
| "is_queued _ = False"

definition live :: "conf_hosts \<Rightarrow> string \<Rightarrow> nat \<Rightarrow> bool" where
  "live s host i \<longleftrightarrow> (case hc_requests s i of None \<Rightarrow> False | Some r \<Rightarrow> cq_host r = host \<and> \<not> has_ended (cq_stage r))"

definition waits_for :: "conf_hosts \<Rightarrow> nat \<Rightarrow> nat \<Rightarrow> bool" where
  "waits_for s j p \<longleftrightarrow> (case hc_requests s j of None \<Rightarrow> False | Some r \<Rightarrow> cq_stage r = Queued (Some p))"

definition queue_inv :: "conf_hosts \<Rightarrow> bool" where
  "queue_inv s \<longleftrightarrow>
     (\<forall>i. hc_requests s i \<noteq> None \<longrightarrow> i < hc_next s) \<and>
     (\<forall>host q. obj_get (hc_queues s) host = Some q \<longrightarrow> (\<exists>r. hc_requests s q = Some r \<and> cq_host r = host)) \<and>
     (\<forall>i r p. hc_requests s i = Some r \<longrightarrow> cq_stage r = Queued (Some p) \<longrightarrow>
        p < i \<and> (\<exists>q. hc_requests s p = Some q \<and> cq_host q = cq_host r)) \<and>
     (\<forall>host i j. live s host i \<longrightarrow> live s host j \<longrightarrow> i < j \<longrightarrow> (\<exists>p. waits_for s j p \<and> i \<le> p \<and> live s host p)) \<and>
     (\<forall>host i. live s host i \<longrightarrow> (\<exists>q. obj_get (hc_queues s) host = Some q \<and> i \<le> q \<and> live s host q))"

lemma queue_invD:
  assumes "queue_inv s"
  shows "hc_requests s i = Some r \<Longrightarrow> i < hc_next s"
    and "obj_get (hc_queues s) host = Some q \<Longrightarrow> \<exists>r. hc_requests s q = Some r \<and> cq_host r = host"
    and "hc_requests s i = Some r \<Longrightarrow> cq_stage r = Queued (Some p) \<Longrightarrow> p < i \<and> (\<exists>q. hc_requests s p = Some q \<and> cq_host q = cq_host r)"
    and "live s host i \<Longrightarrow> live s host j \<Longrightarrow> i < j \<Longrightarrow> \<exists>p. waits_for s j p \<and> i \<le> p \<and> live s host p"
    and "live s host i \<Longrightarrow> \<exists>q. obj_get (hc_queues s) host = Some q \<and> i \<le> q \<and> live s host q"
  using assms unfolding queue_inv_def by blast+

lemma queue_inv_start: "queue_inv (conf_start files)"
  by (simp add: queue_inv_def conf_start_def live_def)

lemma ended_live: "hc_requests s i = Some r \<Longrightarrow> ended s i \<longleftrightarrow> \<not> live s (cq_host r) i"
  by (cases "cq_stage r") (simp_all add: ended_def live_def)

text \<open>A request that is not in the queue any more is the first of its host.\<close>

lemma first_of_host:
  assumes "queue_inv s" "hc_requests s j = Some r" "live s (cq_host r) j"
    and "\<not> is_queued (cq_stage r) \<or> (\<exists>b. cq_stage r = Queued b \<and> (case b of None \<Rightarrow> True | Some p \<Rightarrow> ended s p))"
    and "live s (cq_host r) i"
  shows "j \<le> i"
proof (rule ccontr)
  assume "\<not> j \<le> i"
  then obtain p where p: "waits_for s j p" "live s (cq_host r) p"
    using queue_invD(4) [OF assms(1,5,3)] by auto
  then have q: "cq_stage r = Queued (Some p)" using assms(2) by (simp add: waits_for_def)
  then have "ended s p" using assms(4) by auto
  moreover obtain q where "hc_requests s p = Some q" "cq_host q = cq_host r" using queue_invD(3) [OF assms(1,2) q] by blast
  ultimately show False using p(2) ended_live by metis
qed

lemma set_stage_fields [simp]:
  "hc_queues (set_stage i st s) = hc_queues s" "hc_next (set_stage i st s) = hc_next s"
  "hc_files (set_stage i st s) = hc_files s" "hc_log (set_stage i st s) = hc_log s"
  by (simp_all add: set_stage_def)

lemma set_stage_requests:
  "hc_requests s i = Some r \<Longrightarrow>
     hc_requests (set_stage i st s) = (hc_requests s)(i \<mapsto> r\<lparr>cq_stage := st\<rparr>)"
  by (simp add: set_stage_def)

lemma live_set_stage:
  "hc_requests s i = Some r \<Longrightarrow>
     live (set_stage i st s) host j \<longleftrightarrow> (if j = i then cq_host r = host \<and> \<not> has_ended st else live s host j)"
  by (auto simp: live_def set_stage_requests)

lemma waits_set_stage:
  "hc_requests s i = Some r \<Longrightarrow> j \<noteq> i \<Longrightarrow> waits_for (set_stage i st s) j p \<longleftrightarrow> waits_for s j p"
  by (simp add: waits_for_def set_stage_requests)

lemma queue_inv_advance:
  assumes inv: "queue_inv s" and r: "hc_requests s i = Some r" "\<not> has_ended (cq_stage r)"
    and first: "\<And>j. live s (cq_host r) j \<Longrightarrow> i \<le> j"
    and st: "\<not> has_ended st" "\<not> is_queued st"
  shows "queue_inv (set_stage i st s)"
proof -
  let ?s = "set_stage i st s"
  have live: "live ?s host j \<longleftrightarrow> live s host j" for host j
    using r st by (auto simp: live_def set_stage_requests [OF r(1)])
  have requests: "hc_requests ?s = (hc_requests s)(i \<mapsto> r\<lparr>cq_stage := st\<rparr>)" using r(1) by (rule set_stage_requests)
  have waits: "\<exists>p. waits_for ?s k p \<and> j \<le> p \<and> live ?s host p" if "live ?s host j" "live ?s host k" "j < k" for host j k
  proof -
    have "k \<noteq> i"
    proof
      assume "k = i"
      then have "host = cq_host r" using that(2) r(1) by (simp only: live) (simp add: live_def)
      then show False using first [of j] that(1,3) \<open>k = i\<close> by (simp add: live)
    qed
    then show ?thesis using queue_invD(4) [OF inv, of host j k] that waits_set_stage [OF r(1)] by (simp add: live)
  qed
  show ?thesis unfolding queue_inv_def
  proof (intro conjI allI impI)
    fix h q assume "obj_get (hc_queues ?s) h = Some q"
    then show "\<exists>r. hc_requests ?s q = Some r \<and> cq_host r = h" using queue_invD(2) [OF inv, of h q] r(1) by (auto simp: requests)
  next
    fix j r' p assume a: "hc_requests ?s j = Some r'" "cq_stage r' = Queued (Some p)"
    then have "j \<noteq> i" using st(2) by (auto simp: requests)
    then have "p < j \<and> (\<exists>q. hc_requests s p = Some q \<and> cq_host q = cq_host r')"
      using queue_invD(3) [OF inv] a by (simp add: requests)
    then show "p < j" "\<exists>q. hc_requests ?s p = Some q \<and> cq_host q = cq_host r'" using r(1) by (auto simp: requests)
  next
    fix host j assume "live ?s host j"
    then show "\<exists>q. obj_get (hc_queues ?s) host = Some q \<and> j \<le> q \<and> live ?s host q"
      using queue_invD(5) [OF inv] by (simp add: live)
  qed (use queue_invD(1) [OF inv] r waits in \<open>auto simp: requests split: if_splits\<close>)
qed

lemma queue_inv_end:
  assumes inv: "queue_inv s" and r: "hc_requests s i = Some r" "\<not> has_ended (cq_stage r)"
    and first: "\<And>j. live s (cq_host r) j \<Longrightarrow> i \<le> j"
  shows "queue_inv (end_request i r out s)"
proof -
  let ?t = "set_stage i (Ended out) s" and ?s = "end_request i r out s"
  have fields: "hc_requests ?s = hc_requests ?t" "hc_next ?s = hc_next s" by (simp_all add: end_request_def Let_def)
  have queues: "obj_get (hc_queues ?s) h = (if h = cq_host r \<and> obj_get (hc_queues s) h = Some i then None else obj_get (hc_queues s) h)" for h
    by (auto simp: end_request_def Let_def delete_conv')
  have requests: "hc_requests ?s = (hc_requests s)(i \<mapsto> r\<lparr>cq_stage := Ended out\<rparr>)"
    unfolding fields(1) using r(1) by (rule set_stage_requests)
  have live: "live ?s host j \<longleftrightarrow> live s host j \<and> j \<noteq> i" for host j
    using r by (auto simp: live_def requests)
  have waits: "waits_for ?s k p \<longleftrightarrow> waits_for s k p" if "k \<noteq> i" for k p
    using that by (simp add: waits_for_def requests)
  have mine: "live s (cq_host r) i" using r by (simp add: live_def)
  have host_i: "host = cq_host r" if "live s host i" for host using that r(1) by (simp add: live_def)
  show ?thesis unfolding queue_inv_def
  proof (intro conjI allI impI)
    fix h q assume "obj_get (hc_queues ?s) h = Some q"
    then show "\<exists>r. hc_requests ?s q = Some r \<and> cq_host r = h"
      using queue_invD(2) [OF inv, of h q] r(1) by (auto simp: queues requests split: if_splits)
  next
    fix j r' p assume a: "hc_requests ?s j = Some r'" "cq_stage r' = Queued (Some p)"
    then have "j \<noteq> i" by (auto simp: requests)
    then have "p < j \<and> (\<exists>q. hc_requests s p = Some q \<and> cq_host q = cq_host r')"
      using queue_invD(3) [OF inv] a by (simp add: requests)
    then show "p < j" "\<exists>q. hc_requests ?s p = Some q \<and> cq_host q = cq_host r'" using r(1) by (auto simp: requests)
  next
    fix host j k assume a: "live ?s host j" "live ?s host k" "j < k"
    then obtain p where p: "waits_for s k p" "j \<le> p" "live s host p" using queue_invD(4) [OF inv, of host j k] by (auto simp: live)
    have "p \<noteq> i"
    proof
      assume "p = i"
      then have "host = cq_host r" using p(3) host_i by simp
      then show False using first [of j] a p(2) \<open>p = i\<close> by (simp add: live)
    qed
    then show "\<exists>p. waits_for ?s k p \<and> j \<le> p \<and> live ?s host p" using p a waits by (auto simp: live)
  next
    fix host j assume a: "live ?s host j"
    then obtain q where q: "obj_get (hc_queues s) host = Some q" "j \<le> q" "live s host q"
      using queue_invD(5) [OF inv] by (auto simp: live)
    have "q \<noteq> i"
    proof
      assume "q = i"
      then have "host = cq_host r" using q(3) host_i by simp
      then show False using first [of j] a q(2) \<open>q = i\<close> by (simp add: live)
    qed
    then show "\<exists>q. obj_get (hc_queues ?s) host = Some q \<and> j \<le> q \<and> live ?s host q" using q by (auto simp: queues live)
  qed (use queue_invD(1) [OF inv] r in \<open>auto simp: requests fields split: if_splits\<close>)
qed

lemma queue_inv_same:
  assumes "queue_inv s" "hc_requests t = hc_requests s" "hc_queues t = hc_queues s" "hc_next t = hc_next s"
  shows "queue_inv t"
proof -
  have "live t = live s" "waits_for t = waits_for s" by (intro ext; simp add: live_def waits_for_def assms)+
  then show ?thesis using assms by (simp add: queue_inv_def)
qed

lemma queue_inv_submit:
  assumes inv: "queue_inv s"
  shows "queue_inv (submit host t env s)"
proof -
  let ?i = "hc_next s" and ?s = "submit host t env s"
  have fresh: "hc_requests s ?i = None" using queue_invD(1) [OF inv, of ?i] by (cases "hc_requests s ?i") auto
  have old: "j < ?i" if "live s h j" for h j
    using that queue_invD(1) [OF inv, of j] by (auto simp: live_def split: option.splits)
  have next': "hc_next ?s = Suc ?i" by (simp add: submit_def Let_def)
  show ?thesis
  proof (cases "blocking_problems env t = []")
    case False
    then have s: "hc_requests ?s = (hc_requests s)(?i \<mapsto> \<lparr>cq_host = host, cq_task = t, cq_stage = Ended (InvalidConfdata (blocking_problems env t))\<rparr>)"
      "hc_queues ?s = hc_queues s" by (simp_all add: submit_def Let_def)
    have live: "live ?s h j \<longleftrightarrow> live s h j" for h j using fresh by (auto simp: live_def s)
    have waits: "waits_for s j p \<Longrightarrow> waits_for ?s j p" for j p using fresh by (auto simp: waits_for_def s)
    show ?thesis unfolding queue_inv_def
    proof (intro conjI allI impI)
      fix h j k assume "live ?s h j" "live ?s h k" "j < k"
      then show "\<exists>p. waits_for ?s k p \<and> j \<le> p \<and> live ?s h p" using queue_invD(4) [OF inv, of h j k] waits by (auto simp: live)
    next
      fix j r p assume "hc_requests ?s j = Some r" "cq_stage r = Queued (Some p)"
      then have "p < j \<and> (\<exists>q. hc_requests s p = Some q \<and> cq_host q = cq_host r)"
        using queue_invD(3) [OF inv, of j r p] by (auto simp: s split: if_splits)
      then show "p < j" "\<exists>q. hc_requests ?s p = Some q \<and> cq_host q = cq_host r" using fresh by (auto simp: s)
    next
      fix h q assume "obj_get (hc_queues ?s) h = Some q"
      then show "\<exists>r. hc_requests ?s q = Some r \<and> cq_host r = h" using queue_invD(2) [OF inv, of h q] fresh by (auto simp: s)
    qed (use queue_invD(1) [OF inv] queue_invD(5) [OF inv] in \<open>auto simp: live s next' less_Suc_eq split: if_splits\<close>)
  next
    case True
    define before where "before = obj_get (hc_queues s) host"
    have s: "hc_requests ?s = (hc_requests s)(?i \<mapsto> \<lparr>cq_host = host, cq_task = t, cq_stage = Queued before\<rparr>)"
      using True by (simp add: submit_def Let_def before_def)
    have queues: "obj_get (hc_queues ?s) h = (if h = host then Some ?i else obj_get (hc_queues s) h)" for h
      using True by (simp add: submit_def Let_def update_conv')
    have live: "live ?s h j \<longleftrightarrow> (if j = ?i then h = host else live s h j)" for h j by (auto simp: live_def s)
    have waits: "waits_for ?s j p \<longleftrightarrow> (if j = ?i then before = Some p else waits_for s j p)" for j p by (auto simp: waits_for_def s)
    show ?thesis unfolding queue_inv_def
    proof (intro conjI allI impI)
      fix h j k assume a: "live ?s h j" "live ?s h k" "j < k"
      show "\<exists>p. waits_for ?s k p \<and> j \<le> p \<and> live ?s h p"
      proof (cases "k = ?i")
        case True
        then have "live s h j" "h = host" using a by (auto simp: live)
        then obtain q where "before = Some q" "j \<le> q" "live s h q" using queue_invD(5) [OF inv] by (auto simp: before_def)
        then show ?thesis using True old [of h q] by (auto simp: waits live)
      next
        case False
        then have "live s h k" using a by (simp add: live)
        moreover from this have "live s h j" using a old [of h k] by (auto simp: live split: if_splits)
        ultimately obtain p where "waits_for s k p" "j \<le> p" "live s h p" using queue_invD(4) [OF inv] a(3) by blast
        moreover from this have "p \<noteq> ?i" using old [of h p] by blast
        ultimately show ?thesis using False by (intro exI [of _ p]) (simp add: waits live)
      qed
    next
      fix j r p assume a: "hc_requests ?s j = Some r" "cq_stage r = Queued (Some p)"
      have "p < j \<and> (\<exists>q. hc_requests s p = Some q \<and> cq_host q = cq_host r)"
      proof (cases "j = ?i")
        case True
        then have "before = Some p" "cq_host r = host" using a by (auto simp: s)
        then obtain q where "hc_requests s p = Some q" "cq_host q = host" using queue_invD(2) [OF inv] by (auto simp: before_def)
        then show ?thesis using True \<open>cq_host r = host\<close> queue_invD(1) [OF inv, of p] by auto
      next
        case False
        then show ?thesis using a queue_invD(3) [OF inv, of j r p] by (simp add: s)
      qed
      then show "p < j" "\<exists>q. hc_requests ?s p = Some q \<and> cq_host q = cq_host r" using fresh by (auto simp: s)
    next
      fix h q assume "obj_get (hc_queues ?s) h = Some q"
      then show "\<exists>r. hc_requests ?s q = Some r \<and> cq_host r = h"
        using queue_invD(2) [OF inv, of h q] fresh by (auto simp: s queues split: if_splits)
    next
      fix h j assume a: "live ?s h j"
      show "\<exists>q. obj_get (hc_queues ?s) h = Some q \<and> j \<le> q \<and> live ?s h q"
      proof (cases "h = host")
        case True
        then show ?thesis using a old [of h j] by (auto simp: queues live split: if_splits)
      next
        case False
        then obtain q where "obj_get (hc_queues s) h = Some q" "j \<le> q" "live s h q"
          using a queue_invD(5) [OF inv, of h j] by (auto simp: live split: if_splits)
        then show ?thesis using False old [of h q] by (auto simp: queues live)
      qed
    qed (use queue_invD(1) [OF inv] in \<open>auto simp: s next' less_Suc_eq split: if_splits\<close>)
  qed
qed

section \<open>What a step changes\<close>

definition at_front :: "conf_hosts \<Rightarrow> conf_request \<Rightarrow> bool" where
  "at_front s r \<longleftrightarrow> (case cq_stage r of Queued None \<Rightarrow> True | Queued (Some p) \<Rightarrow> ended s p | _ \<Rightarrow> True)"

definition write_file :: "nat \<Rightarrow> conf_request \<Rightarrow> string list \<Rightarrow> conf_hosts \<Rightarrow> conf_hosts" where
  "write_file i r updated s = (set_stage i HasWritten s)
     \<lparr>hc_files := (hc_files s)(cq_host r := (hc_files s (cq_host r))(task_kind (cq_task r) := updated)),
      hc_log := hc_log s @ [(cq_host r, cq_task r)]\<rparr>"

text \<open>How far a request has come, and whether a stage may follow another.\<close>

fun stage_rank :: "conf_stage \<Rightarrow> nat" where
  "stage_rank (Queued before) = 6"
| "stage_rank LoggingIn = 5"
| "stage_rank Reading = 4"
| "stage_rank (HasRead current) = 3"
| "stage_rank (Writing updated) = 2"
| "stage_rank HasWritten = 1"
| "stage_rank (Ended out) = 0"

inductive conf_change :: "conf_hosts \<Rightarrow> conf_hosts \<Rightarrow> bool" where
  nothing: "conf_change s s"
| submitted: "conf_change s (submit host t env s)"
| advanced: "\<lbrakk>hc_requests s i = Some r; \<not> has_ended (cq_stage r); at_front s r; \<not> has_ended st; \<not> is_queued st;
    \<forall>current. st = HasRead current \<longrightarrow> current = hc_files s (cq_host r) (task_kind (cq_task r));
    \<forall>updated. st = Writing updated \<longrightarrow> (\<exists>current. cq_stage r = HasRead current \<and> decide (cq_task r) current = Inr updated)\<rbrakk>
    \<Longrightarrow> conf_change s (set_stage i st s)"
| finished: "\<lbrakk>hc_requests s i = Some r; \<not> has_ended (cq_stage r); at_front s r\<rbrakk> \<Longrightarrow> conf_change s (end_request i r out s)"
| wrote: "\<lbrakk>hc_requests s i = Some r; cq_stage r = Writing updated\<rbrakk> \<Longrightarrow> conf_change s (write_file i r updated s)"

lemma request_step_change: "hc_requests s i = Some r \<Longrightarrow> conf_change s (request_step ev i r s)"
proof (cases "cq_stage r")
  assume r: "hc_requests s i = Some r"
  note change = conf_change.intros(3) [OF r] conf_change.intros(4) [OF r] conf_change.intros(5) [OF r] conf_change.nothing
  { case (Queued before) then show ?thesis
      by (cases ev; cases before; auto simp: request_step_def Let_def at_front_def intro!: change) }
  { case LoggingIn then show ?thesis by (cases ev; auto simp: request_step_def Let_def at_front_def intro!: change) }
  { case Reading then show ?thesis by (cases ev; auto simp: request_step_def Let_def at_front_def intro!: change) }
  { case (HasRead current) then show ?thesis
      by (cases ev; auto simp: request_step_def Let_def at_front_def intro!: change split: sum.splits) }
  { case (Writing updated) then show ?thesis
      by (cases ev; auto simp: request_step_def Let_def at_front_def write_file_def [symmetric] intro!: change) }
  { case HasWritten then show ?thesis by (cases ev; auto simp: request_step_def Let_def at_front_def intro!: change) }
  { case (Ended out) then show ?thesis by (cases ev; auto simp: request_step_def Let_def intro!: change) }
qed

lemma conf_step_change: "conf_change s (conf_step ev s)"
  unfolding conf_step_def
  by (cases ev) (auto intro: conf_change.nothing conf_change.submitted request_step_change split: option.splits)

section \<open>The invariant\<close>

definition request_ok :: "conf_hosts \<Rightarrow> conf_request \<Rightarrow> bool" where
  "request_ok s r \<longleftrightarrow>
     (\<not> has_ended (cq_stage r) \<longrightarrow> (\<exists>env. blocking_problems env (cq_task r) = [])) \<and>
     (case cq_stage r of
        HasRead current \<Rightarrow> current = hc_files s (cq_host r) (task_kind (cq_task r))
      | Writing updated \<Rightarrow> decide (cq_task r) (hc_files s (cq_host r) (task_kind (cq_task r))) = Inr updated
      | _ \<Rightarrow> True)"

definition conf_inv :: "conf_hosts \<Rightarrow> bool" where
  "conf_inv s \<longleftrightarrow> queue_inv s \<and> (\<forall>i r. hc_requests s i = Some r \<longrightarrow> request_ok s r)"

lemma at_front_first:
  assumes "queue_inv s" "hc_requests s i = Some r" "\<not> has_ended (cq_stage r)" "at_front s r" "live s (cq_host r) j"
  shows "i \<le> j"
proof (rule first_of_host [OF assms(1,2)])
  show "live s (cq_host r) i" using assms(2,3) by (simp add: live_def)
  show "\<not> is_queued (cq_stage r) \<or> (\<exists>b. cq_stage r = Queued b \<and> (case b of None \<Rightarrow> True | Some p \<Rightarrow> ended s p))"
    using assms(4) by (cases "cq_stage r") (auto simp: at_front_def split: option.splits)
qed (rule assms(5))

lemma conf_inv_start: "conf_inv (conf_start files)"
  by (simp add: conf_inv_def queue_inv_start) (simp add: conf_start_def)

lemma request_ok_files:
  "hc_files t (cq_host r) = hc_files s (cq_host r) \<Longrightarrow> request_ok s r \<Longrightarrow> request_ok t r"
  by (auto simp: request_ok_def split: conf_stage.splits)

lemma conf_inv_change:
  assumes "conf_change s t" "conf_inv s"
  shows "conf_inv t"
proof -
  have q: "queue_inv s" and ok: "\<And>i r. hc_requests s i = Some r \<Longrightarrow> request_ok s r" using assms(2) by (auto simp: conf_inv_def)
  note front = at_front_first [OF q]
  show ?thesis using assms(1)
  proof cases
    case nothing
    then show ?thesis using assms(2) by simp
  next
    case (submitted host t' env)
    have "request_ok t r" if "hc_requests t i = Some r" for i r
    proof (cases "i = hc_next s")
      case True
      then show ?thesis using that by (auto simp: submitted submit_def Let_def request_ok_def split: if_splits)
    next
      case False
      then have "hc_requests s i = Some r" "hc_files t = hc_files s"
        using that by (auto simp: submitted submit_def Let_def split: if_splits)
      then show ?thesis using ok request_ok_files by metis
    qed
    then show ?thesis using queue_inv_submit [OF q] submitted by (simp add: conf_inv_def)
  next
    case (advanced i r st)
    have "queue_inv t" unfolding advanced(1) by (rule queue_inv_advance [OF q advanced(2,3) front [OF advanced(2-4)] advanced(5,6)])
    moreover have "request_ok t (r\<lparr>cq_stage := st\<rparr>)"
      using ok [OF advanced(2)] advanced(3,7,8)
      by (auto simp: request_ok_def advanced(1) split: conf_stage.splits)
    moreover have "request_ok t r'" if "hc_requests s j = Some r'" for j r'
      using request_ok_files [OF _ ok [OF that], of t] by (simp add: advanced(1))
    ultimately show ?thesis
      unfolding conf_inv_def by (auto simp: advanced(1) set_stage_requests [OF advanced(2)])
  next
    case (finished i r out)
    have "queue_inv t" unfolding finished(1) by (rule queue_inv_end [OF q finished(2,3) front [OF finished(2-4)]])
    moreover have f: "hc_files t = hc_files s" "hc_requests t = (hc_requests s)(i \<mapsto> r\<lparr>cq_stage := Ended out\<rparr>)"
      by (simp_all add: finished(1) end_request_def Let_def set_stage_requests [OF finished(2)])
    moreover have "request_ok t (r\<lparr>cq_stage := Ended out\<rparr>)" by (simp add: request_ok_def)
    moreover have "request_ok t r'" if "hc_requests s j = Some r'" for j r'
      using request_ok_files [OF _ ok [OF that], of t] by (simp add: f)
    ultimately show ?thesis unfolding conf_inv_def by auto
  next
    case (wrote i r updated)
    have r: "\<not> has_ended (cq_stage r)" "at_front s r" by (simp_all add: wrote(3) at_front_def)
    have "queue_inv (set_stage i HasWritten s)"
      by (rule queue_inv_advance [OF q wrote(2) r(1) front [OF wrote(2) r]]) simp_all
    then have "queue_inv t" by (rule queue_inv_same) (simp_all add: wrote(1) write_file_def)
    moreover have requests: "hc_requests t = (hc_requests s)(i \<mapsto> r\<lparr>cq_stage := HasWritten\<rparr>)"
      by (simp add: wrote(1) write_file_def set_stage_requests [OF wrote(2)])
    moreover have "request_ok t (r\<lparr>cq_stage := HasWritten\<rparr>)"
      using ok [OF wrote(2)] by (simp add: request_ok_def wrote(3))
    moreover have "request_ok t r'" if j: "hc_requests s j = Some r'" "j \<noteq> i" for j r'
    proof (cases "cq_host r' = cq_host r \<and> \<not> has_ended (cq_stage r') \<and> \<not> is_queued (cq_stage r')")
      case True
      then have "at_front s r'" by (cases "cq_stage r'") (auto simp: at_front_def)
      then have "j \<le> i" "i \<le> j"
        using front [OF j(1), of i] front [OF wrote(2) r, of j] True j(1) wrote(2) r(1) by (auto simp: live_def)
      then show ?thesis using j(2) by simp
    next
      case False
      show ?thesis
      proof (cases "cq_host r' = cq_host r")
        case True
        then show ?thesis using False ok [OF j(1)] by (cases "cq_stage r'") (auto simp: request_ok_def)
      next
        case False
        then show ?thesis using request_ok_files [OF _ ok [OF j(1)], of t] by (simp add: wrote(1) write_file_def)
      qed
    qed
    ultimately show ?thesis unfolding conf_inv_def by auto
  qed
qed

lemma conf_run_inv:
  assumes "\<And>s ev. conf_inv s \<Longrightarrow> P s \<Longrightarrow> P (conf_step ev s)" "P (conf_start files)"
  shows "conf_inv (conf_run evs (conf_start files)) \<and> P (conf_run evs (conf_start files))"
proof -
  have "conf_inv (fold conf_step evs s) \<and> P (fold conf_step evs s)" if "conf_inv s" "P s" for s
    using that conf_inv_change [OF conf_step_change] assms(1) by (induction evs arbitrary: s) auto
  then show ?thesis using assms(2) conf_inv_start by (simp add: conf_run_def)
qed

section \<open>The file is what the edits make of it\<close>

text \<open>The edits one after the other, each on the whole file the one before it left; none if one of them would not write.\<close>

fun one_by_one :: "string list \<Rightarrow> conf_task list \<Rightarrow> string list option" where
  "one_by_one current [] = Some current"
| "one_by_one current (t # ts) = (case decide t current of Inl out \<Rightarrow> None | Inr updated \<Rightarrow> one_by_one updated ts)"

definition writes_of :: "string \<Rightarrow> ConfFileKind \<Rightarrow> (string \<times> conf_task) list \<Rightarrow> conf_task list" where
  "writes_of host kind writes = map snd (filter (\<lambda>(h, t). h = host \<and> task_kind t = kind) writes)"

lemma one_by_one_snoc:
  "one_by_one f (ts @ [t]) =
     (case one_by_one f ts of None \<Rightarrow> None | Some g \<Rightarrow> (case decide t g of Inl out \<Rightarrow> None | Inr h \<Rightarrow> Some h))"
  by (induction ts arbitrary: f) (auto split: sum.splits)

lemma serial_step:
  assumes "conf_inv s" "\<forall>host kind. one_by_one (files host kind) (writes_of host kind (hc_log s)) = Some (hc_files s host kind)"
  shows "\<forall>host kind. one_by_one (files host kind) (writes_of host kind (hc_log (conf_step ev s))) = Some (hc_files (conf_step ev s) host kind)"
  using conf_step_change [of s ev]
proof cases
  case (wrote i r updated)
  have "decide (cq_task r) (hc_files s (cq_host r) (task_kind (cq_task r))) = Inr updated"
    using assms(1) wrote(2,3) by (fastforce simp: conf_inv_def request_ok_def)
  then show ?thesis using assms(2) unfolding wrote(1)
    by (auto simp: write_file_def writes_of_def one_by_one_snoc)
qed (use assms(2) in \<open>simp_all add: submit_def end_request_def Let_def\<close>)

text \<open>
  C5: No edit of a configuration file is lost. Whatever requests users send for a host, in whatever order
  their reads, writes and failures interleave, and however many hosts there are, each file of each host is
  at every moment what its edits make of it one after the other, in the order they were written: every
  write was decided on exactly the file it replaced. In particular a save of the raw editor replaces
  only the text it was opened with, and two requests cannot both start from the same file.
\<close>

theorem conf_edits_are_serial:
  "one_by_one (files host kind) (writes_of host kind (hc_log (conf_run evs (conf_start files)))) =
     Some (hc_files (conf_run evs (conf_start files)) host kind)"
proof -
  have "\<forall>host kind. one_by_one (files host kind) (writes_of host kind (hc_log (conf_start files))) = Some (hc_files (conf_start files) host kind)"
    by (simp add: conf_start_def writes_of_def)
  then show ?thesis using conf_run_inv [of "\<lambda>s. \<forall>host kind. one_by_one (files host kind) (writes_of host kind (hc_log s)) = Some (hc_files s host kind)", OF serial_step]
    by blast
qed

section \<open>The brokers of every host\<close>

definition startable :: "string list \<Rightarrow> bool" where
  "startable lines \<longleftrightarrow> snd (parseConfText lines) = [] \<and> brokers_can_start (fst (parseConfText lines))"

lemma startable_step:
  assumes "conf_inv s" "startable (hc_files s host Brokerconf)"
  shows "startable (hc_files (conf_step ev s) host Brokerconf)"
  using conf_step_change [of s ev]
proof cases
  case (wrote i r updated)
  show ?thesis
  proof (cases "cq_host r = host \<and> task_kind (cq_task r) = Brokerconf")
    case True
    have ok: "request_ok s r" using assms(1) wrote(2) by (auto simp: conf_inv_def)
    obtain confdata loaded where t: "cq_task r = RawEdit Brokerconf confdata loaded"
      using True by (cases "cq_task r") (auto simp: task_kind_def)
    then have "updated = confdata" using ok wrote(3) by (auto simp: request_ok_def raw_edit_write_def split: if_splits)
    moreover obtain env where "blocking_problems env (cq_task r) = []" using ok wrote(3) by (auto simp: request_ok_def)
    then have "accepted (resolveParamSchema BROKER_PARAM_SCHEMA (he_version env)) confdata Brokerconf (Some (known_keys env))"
      by (simp add: accepted_def blocking_problems_def t schema_of_def)
    then have "startable confdata" unfolding startable_def by (rule accepted_brokers_start)
    ultimately show ?thesis using True by (auto simp: wrote(1) write_file_def)
  next
    case False
    then show ?thesis using assms(2) by (auto simp: wrote(1) write_file_def)
  qed
qed (use assms(2) in \<open>simp_all add: submit_def end_request_def Let_def\<close>)



section \<open>Every request ends\<close>

definition work_left :: "conf_hosts \<Rightarrow> nat" where
  "work_left s = (\<Sum>i<hc_next s. case hc_requests s i of None \<Rightarrow> 0 | Some r \<Rightarrow> stage_rank (cq_stage r))"

definition work_at :: "conf_hosts \<Rightarrow> nat \<Rightarrow> nat" where
  "work_at s i = (case hc_requests s i of None \<Rightarrow> 0 | Some r \<Rightarrow> stage_rank (cq_stage r))"

text \<open>A step that is no new request and no failure.\<close>

fun is_progress :: "conf_event \<Rightarrow> bool" where
  "is_progress (Submit _ _ _) = False"
| "is_progress (Fails _) = False"
| "is_progress _ = True"

lemma less_work:
  assumes "hc_requests s i = Some r" "i < hc_next s" "stage_rank st < stage_rank (cq_stage r)"
    and "hc_requests t = (hc_requests s)(i \<mapsto> r\<lparr>cq_stage := st\<rparr>)" "hc_next t = hc_next s"
  shows "work_left t < work_left s"
proof -
  have "work_at t j \<le> work_at s j" for j using assms(1,3,4) by (auto simp: work_at_def)
  moreover have "work_at t i < work_at s i" using assms(1,3,4) by (simp add: work_at_def)
  ultimately have "(\<Sum>j<hc_next s. work_at t j) < (\<Sum>j<hc_next s. work_at s j)"
    using assms(2) by (intro sum_strict_mono_ex1) auto
  then show ?thesis by (simp add: work_left_def work_at_def assms(5))
qed

lemma set_stage_less_work:
  assumes "hc_requests s i = Some r" "i < hc_next s" "stage_rank st < stage_rank (cq_stage r)"
  shows "work_left (set_stage i st s) < work_left s"
  using assms by (intro less_work) (simp_all add: set_stage_requests)

lemma end_less_work:
  assumes "hc_requests s i = Some r" "i < hc_next s" "\<not> has_ended (cq_stage r)"
  shows "work_left (end_request i r out s) < work_left s"
proof (rule less_work [OF assms(1,2)])
  show "stage_rank (Ended out) < stage_rank (cq_stage r)" using assms(3) by (cases "cq_stage r") simp_all
qed (simp_all add: end_request_def Let_def set_stage_requests [OF assms(1)])

lemma progress_possible:
  assumes inv: "conf_inv s" and live: "live s host i"
  obtains ev where "is_progress ev" "work_left (conf_step ev s) < work_left s"
proof -
  have q: "queue_inv s" using inv by (simp add: conf_inv_def)
  define j where "j = (LEAST j. live s host j)"
  have j: "live s host j" and least: "live s host k \<Longrightarrow> j \<le> k" for k
    using live by (auto simp: j_def intro: LeastI Least_le)
  then obtain r where r: "hc_requests s j = Some r" "cq_host r = host" "\<not> has_ended (cq_stage r)"
    by (auto simp: live_def split: option.splits)
  have next': "j < hc_next s" using queue_invD(1) [OF q r(1)] .
  note steps = set_stage_less_work [OF r(1) next'] end_less_work [OF r(1) next' r(3)]
  show thesis
  proof (cases "cq_stage r")
    case (Queued before)
    have "case before of None \<Rightarrow> True | Some b \<Rightarrow> ended s b"
    proof (cases before)
      case (Some p)
      then obtain r' where "p < j" "hc_requests s p = Some r'" "cq_host r' = host"
        using queue_invD(3) [OF q r(1)] Queued r(2) by auto
      moreover from this have "\<not> live s host p" using least [of p] by auto
      ultimately show ?thesis using Some ended_live by auto
    qed simp
    then show thesis using that [of "Begin j"] steps(1) Queued r(1) by (auto simp: conf_step_def request_step_def Let_def)
  next
    case LoggingIn
    then show thesis using that [of "LoggedIn j"] steps(1) r(1) by (auto simp: conf_step_def request_step_def Let_def)
  next
    case Reading
    then show thesis using that [of "CmsReads j"] steps(1) r(1) by (auto simp: conf_step_def request_step_def Let_def)
  next
    case (HasRead current)
    then show thesis using that [of "Answered j"] steps r(1)
      by (cases "decide (cq_task r) current") (auto simp: conf_step_def request_step_def Let_def)
  next
    case (Writing updated)
    have "work_left (write_file j r updated s) < work_left s"
      by (rule less_work [OF r(1) next', of HasWritten]) (simp_all add: Writing write_file_def set_stage_requests [OF r(1)])
    then show thesis using that [of "CmsWrites j"] Writing r(1)
      by (auto simp: conf_step_def request_step_def Let_def write_file_def)
  next
    case HasWritten
    then show thesis using that [of "Confirmed j"] steps(2) r(1) by (auto simp: conf_step_def request_step_def Let_def)
  next
    case (Ended out)
    then show thesis using r(3) by simp
  qed
qed

text \<open>
  C15: The queue of a host never gets stuck. From wherever the requests have come, in whatever order and with
  whatever failures, answers of the managers alone bring every request of every host to its end: a
  request that ended, by an error or without a write too, has let the next one go, and none waits for one
  that waits for it.
\<close>

theorem every_conf_request_can_end:
  "\<exists>more. list_all is_progress more \<and> (\<forall>host i. \<not> live (conf_run (evs @ more) (conf_start files)) host i)"
proof -
  have "\<exists>more. list_all is_progress more \<and> (\<forall>host i. \<not> live (fold conf_step more s) host i)" if "conf_inv s" for s
    using that
  proof (induction "work_left s" arbitrary: s rule: less_induct)
    case less
    show ?case
    proof (cases "\<exists>host i. live s host i")
      case True
      then obtain ev where ev: "is_progress ev" "work_left (conf_step ev s) < work_left s"
        using progress_possible [OF less.prems] by blast
      obtain more where "list_all is_progress more" "\<forall>host i. \<not> live (fold conf_step more (conf_step ev s)) host i"
        using less.hyps [OF ev(2) conf_inv_change [OF conf_step_change less.prems]] by blast
      then show ?thesis using ev(1) by (intro exI [of _ "ev # more"]) simp
    next
      case False
      then show ?thesis by (intro exI [of _ "[]"]) simp
    qed
  qed
  from this [of "conf_run evs (conf_start files)"] show ?thesis
    using conf_run_inv [of "\<lambda>_. True"] by (simp add: conf_run_def)
qed

end
