(* ===== verification/SchemaVersions.thy ===== *)
theory SchemaVersions
  imports ConfAccept DatabaseParamSchema
begin

text \<open>
  The tables of parameters by engine version (\<open>ParamSchema\<close>, \<open>DatabaseParamSchema\<close>): resolved for any
  version, a table has one rule for a key.
\<close>

section \<open>Versions\<close>

lemma split_lines:
  assumes "compare_parts xs [11, b, c] \<le> 0" "b < d"
  shows "compare_parts xs [11, d] < 0"
proof (cases xs)
  case (Cons x ys)
  show ?thesis
  proof (cases ys)
    case Nil
    then show ?thesis using assms Cons by (auto split: if_splits)
  next
    case (Cons y zs)
    then show ?thesis using assms \<open>xs = x # ys\<close> by (auto split: if_splits)
  qed
qed simp

text \<open>The greatest version of a rule and the least version of the rule that replaces it.\<close>

definition line_ends :: "(string \<times> string) list" where
  "line_ends = [(''11.2.999'', ''11.3''), (''11.3.999'', ''11.4''), (''11.4.999'', ''11.5'')]"

lemma line_end_numbers:
  assumes "(m, n) \<in> set line_ends"
  shows "m \<noteq> [] \<and> n \<noteq> [] \<and> (\<exists>b d. version_parts m = [11, b, 999] \<and> version_parts n = [11, d] \<and> b < d)"
proof -
  have "list_all (\<lambda>(m, n). m \<noteq> [] \<and> n \<noteq> [] \<and> version_parts m = [11, version_parts m ! 1, 999] \<and>
      version_parts n = [11, version_parts n ! 1] \<and> version_parts m ! 1 < version_parts n ! 1) line_ends"
    by code_simp
  then have "m \<noteq> []" "n \<noteq> []" "version_parts m = [11, version_parts m ! 1, 999]"
      "version_parts n = [11, version_parts n ! 1]" "version_parts m ! 1 < version_parts n ! 1"
    unfolding list_all_iff using assms by fast+
  then show ?thesis by blast
qed

lemma ranges_disjoint:
  assumes "(m, n) \<in> set line_ends"
  shows "\<not> (in_version_range least (Some m) v \<and> in_version_range (Some n) greatest v)"
proof -
  obtain b d where parts: "version_parts m = [11, b, 999]" "version_parts n = [11, d]" "b < d" "m \<noteq> []" "n \<noteq> []"
    using line_end_numbers [OF assms] by blast
  have "compare_parts (version_parts v) [11, d] < 0" if "compare_parts (version_parts v) [11, b, 999] \<le> 0"
    using split_lines [OF that parts(3)] .
  then show ?thesis using parts by (auto simp: in_version_range_def compareEngineVersions_def)
qed

section \<open>One rule for a key\<close>

text \<open>The key of a rule and its versions.\<close>

definition rule_range :: "VersionedParamSchemaEntry \<Rightarrow> string \<times> string option \<times> string option" where
  "rule_range e = (ps_key e, ps_minVersion e, ps_maxVersion e)"

lemma rule_range_simps:
  "rule_range (entry key category guard dflt) = (key, None, None)"
  "rule_range (e\<lparr>ps_scope := x1\<rparr>) = rule_range e"
  "rule_range (e\<lparr>ps_bufferGroup := x2\<rparr>) = rule_range e"
  "rule_range (e\<lparr>ps_advisory := x3\<rparr>) = rule_range e"
  "rule_range (e\<lparr>ps_deprecated := x4\<rparr>) = rule_range e"
  "rule_range (e\<lparr>ps_commonOnly := b1\<rparr>) = rule_range e"
  "rule_range (e\<lparr>ps_instanceOnly := b2\<rparr>) = rule_range e"
  "rule_range (e\<lparr>ps_required := b3\<rparr>) = rule_range e"
  "rule_range (e\<lparr>ps_crossField := x5\<rparr>) = rule_range e"
  "rule_range (e\<lparr>ps_aliases := x6\<rparr>) = rule_range e"
  "rule_range (e\<lparr>ps_minVersion := least\<rparr>) = (case rule_range e of (k, _, M) \<Rightarrow> (k, least, M))"
  "rule_range (e\<lparr>ps_maxVersion := greatest\<rparr>) = (case rule_range e of (k, m, _) \<Rightarrow> (k, m, greatest))"
  by (simp_all add: rule_range_def entry_def)

fun apart :: "string \<times> string option \<times> string option \<Rightarrow> string \<times> string option \<times> string option \<Rightarrow> bool" where
  "apart (k, m, Some b) (k', Some a, M) \<longleftrightarrow> k \<noteq> k' \<or> (b, a) \<in> set line_ends"
| "apart (k, _, _) (k', _, _) \<longleftrightarrow> k \<noteq> k'"

lemma apart_keys:
  assumes "apart (rule_range a) (rule_range b)" "ps_key b = ps_key a"
    and "in_version_range (ps_minVersion a) (ps_maxVersion a) v" "in_version_range (ps_minVersion b) (ps_maxVersion b) v"
  shows False
proof -
  obtain m n where "ps_maxVersion a = Some m" "ps_minVersion b = Some n" "(m, n) \<in> set line_ends"
    using assms(1,2) by (cases "ps_maxVersion a"; cases "ps_minVersion b") (auto simp: rule_range_def)
  then show False using ranges_disjoint assms(3,4) by metis
qed

lemma apart_resolved: "sorted_wrt apart (map rule_range es) \<Longrightarrow> distinct (map ps_key (resolveParamSchema es v))"
proof (induction es)
  case (Cons a es)
  have "\<forall>b \<in> set es. apart (rule_range a) (rule_range b)" using Cons.prems by simp
  then have "ps_key b \<noteq> ps_key a"
    if "b \<in> set es" "in_version_range (ps_minVersion b) (ps_maxVersion b) v"
      "in_version_range (ps_minVersion a) (ps_maxVersion a) v" for b
    using apart_keys that by blast
  moreover have "distinct (map ps_key (resolveParamSchema es v))" using Cons by simp
  ultimately show ?case by (fastforce simp: resolveParamSchema_def ParamSchemaEntry.truncate_def)
qed (simp add: resolveParamSchema_def)

lemmas database_table_def =
  DATABASE_PARAM_SCHEMA_def DATABASE_ADVANCED_ENTRIES_def DATABASE_GENERAL_ENTRIES_def DATABASE_BUFFER_ENTRIES_def

lemma tables_apart:
  "sorted_wrt apart (map rule_range DATABASE_PARAM_SCHEMA)"
  "sorted_wrt apart (map rule_range BROKER_PARAM_SCHEMA)"
  "sorted_wrt apart (map rule_range CM_PARAM_SCHEMA)"
  unfolding database_table_def BROKER_PARAM_SCHEMA_def CM_PARAM_SCHEMA_def append.simps list.map rule_range_simps prod.case
  by code_simp+

text \<open>
  C40: The tables of rules are well formed for every version of the engine, whatever text the host reports
  for it: no two rules of \<open>cubrid.conf\<close>, \<open>cubrid_broker.conf\<close> or \<open>cm.conf\<close> that apply to it are for the same
  key, although the tables list different rules of a key for different versions, and the three keys
  without which the brokers do not start are always among them and cannot be mistaken for another by
  their case.
\<close>

theorem one_rule_per_key:
  "distinct (map ps_key (resolveParamSchema DATABASE_PARAM_SCHEMA engineVersion)) \<and>
   distinct (map ps_key (resolveParamSchema BROKER_PARAM_SCHEMA engineVersion)) \<and>
   distinct (map ps_key (resolveParamSchema CM_PARAM_SCHEMA engineVersion)) \<and>
   list_all (covered (resolveParamSchema BROKER_PARAM_SCHEMA engineVersion))
     [''MASTER_SHM_ID'', ''BROKER_PORT'', ''APPL_SERVER_SHM_ID'']"
  using tables_apart [THEN apart_resolved] broker_covered [of engineVersion] by simp

end
