(* ===== verification/EngineCatalogFacts.thy ===== *)
theory EngineCatalogFacts
  imports EngineCatalog ParamGuardFacts
begin

text \<open>
  Properties of the rules that come from the engine's tables (\<open>EngineCatalog\<close>): the bounds of a value in
  its own unit are the engine's limits of what it stores, and a default is shown as a text that reads
  back as it.
\<close>

section \<open>The engine's conversions\<close>

text \<open>
  What the engine stores for a value, as the comments of \<open>differUnitBounds\<close> give it: pages and seconds are
  rounded up, minutes become seconds, and a negative time is kept as it is.
\<close>

definition ceil_div :: "int \<Rightarrow> int \<Rightarrow> int" where
  "ceil_div v d = - ((- v) div d)"

definition size_conversion :: "string \<Rightarrow> bool" where
  "size_conversion f \<longleftrightarrow> f = ''prm_size_to_io_pages'' \<or> f = ''prm_size_to_log_pages''"

definition stored_value :: "string \<Rightarrow> int \<Rightarrow> int" where
  "stored_value f v =
     (if size_conversion f then ceil_div v LOAD_PAGE_SIZE
      else if f = ''prm_msec_to_sec'' then (if v < 0 then v else ceil_div v 1000)
      else if f = ''prm_min_to_sec'' then (if v < 0 then v else v * 60)
      else v)"

definition in_limits :: "int option \<Rightarrow> int option \<Rightarrow> int \<Rightarrow> bool" where
  "in_limits least greatest v \<longleftrightarrow>
     (case least of None \<Rightarrow> True | Some m \<Rightarrow> m \<le> v) \<and> (case greatest of None \<Rightarrow> True | Some x \<Rightarrow> v \<le> x)"

text \<open>The engine's check of the stored value; pages with decimals are compared in hundredths.\<close>

definition engine_allows :: "EngineCatalogDbParam \<Rightarrow> string \<Rightarrow> int \<Rightarrow> bool" where
  "engine_allows c f v =
     (let least = numberOrUndefined (ec_lowerLimit c); greatest = numberOrUndefined (ec_upperLimit c)
      in if size_conversion f \<and> ec_datatype c = FloatType
         then in_limits (map_option hundredths least) (map_option hundredths greatest) (ceil_div (v * 100) LOAD_PAGE_SIZE)
         else in_limits (map_option floor least) (map_option floor greatest) (stored_value f v) \<and>
              (f = ''prm_equal_to_ori'' \<or> stored_value f v \<le> INT_MAX))"

lemma int_div_less_iff: "0 < d \<Longrightarrow> x div d < b \<longleftrightarrow> x < b * d" for x d b :: int
  by (smt (verit) div_pos_pos_trivial int_div_less_self mult_less_cancel_right_pos pos_imp_zdiv_nonneg_iff zdiv_mono1 nonzero_mult_div_cancel_right minus_div_mult_eq_mod pos_mod_bound pos_mod_sign)

lemma ceil_div_ge: "0 < d \<Longrightarrow> l \<le> ceil_div v d \<longleftrightarrow> (l - 1) * d < v"
proof -
  assume d: "0 < d"
  have "l \<le> ceil_div v d \<longleftrightarrow> (- v) div d < - (l - 1)" by (auto simp: ceil_div_def)
  also have "\<dots> \<longleftrightarrow> - v < - (l - 1) * d" using d int_div_less_iff [of d "- v" "- (l - 1)"] by simp
  finally show ?thesis by (simp add: algebra_simps)
qed

lemma ceil_div_le: "0 < d \<Longrightarrow> ceil_div v d \<le> u \<longleftrightarrow> v \<le> u * d"
  using ceil_div_ge [of d "u + 1" v] by auto

lemma least_ceil:
  assumes "0 < d"
  shows "(m - 1) * d + 1 \<le> v \<longleftrightarrow> m \<le> ceil_div v d" "0 \<le> v \<Longrightarrow> \<not> 1 \<le> m \<Longrightarrow> m \<le> ceil_div v d"
proof -
  show "(m - 1) * d + 1 \<le> v \<longleftrightarrow> m \<le> ceil_div v d" by (simp only: ceil_div_ge [OF assms]) linarith
  assume v: "0 \<le> v" "\<not> 1 \<le> m"
  have "0 \<le> ceil_div v d" using v(1) assms unfolding ceil_div_ge [OF assms] by simp
  then show "m \<le> ceil_div v d" using v(2) by linarith
qed

lemma page_size [simp]: "0 < LOAD_PAGE_SIZE"
  by (simp add: LOAD_PAGE_SIZE_def)

lemma in_limits_split: "in_limits least greatest v \<longleftrightarrow> in_limits least None v \<and> in_limits None greatest v"
  by (simp add: in_limits_def)

lemma max_of_limits: "v \<le> max_of greatest \<longleftrightarrow> in_limits None (map_option floor greatest) v \<and> v \<le> INT_MAX"
  by (auto simp: max_of_def in_limits_def split: option.splits)

lemma limits_from_parts:
  assumes "in_limits a None v = in_limits (map_option floor least) None w" "in_limits None b v = (w \<le> max_of greatest)"
  shows "in_limits a b v \<longleftrightarrow> in_limits (map_option floor least) (map_option floor greatest) w \<and> w \<le> INT_MAX"
  using assms max_of_limits [of w greatest] in_limits_split [of a b v]
    in_limits_split [of "map_option floor least" "map_option floor greatest" w] by metis

lemma io_pages:
  assumes "0 \<le> v" "\<forall>l. least = Some l \<longrightarrow> of_int \<lfloor>l\<rfloor> = l"
  shows "in_limits (fst (io_page_bounds least greatest)) (snd (io_page_bounds least greatest)) v \<longleftrightarrow>
     in_limits (map_option floor least) (map_option floor greatest) (ceil_div v LOAD_PAGE_SIZE) \<and> ceil_div v LOAD_PAGE_SIZE \<le> INT_MAX"
proof -
  have pos: "0 \<le> ceil_div v LOAD_PAGE_SIZE" using assms(1) by (simp add: ceil_div_ge) (simp add: LOAD_PAGE_SIZE_def)
  have "in_limits (fst (io_page_bounds least greatest)) None v \<longleftrightarrow> in_limits (map_option floor least) None (ceil_div v LOAD_PAGE_SIZE)"
  proof (cases least)
    case (Some l)
    moreover from this obtain m where "l = of_int m" using assms(2) by metis
    ultimately show ?thesis using assms(1) by (auto simp: in_limits_def io_page_bounds_def least_ceil)
  qed (simp add: in_limits_def io_page_bounds_def)
  moreover have "in_limits None (snd (io_page_bounds least greatest)) v \<longleftrightarrow> ceil_div v LOAD_PAGE_SIZE \<le> max_of greatest"
    by (simp add: in_limits_def io_page_bounds_def ceil_div_le)
  ultimately show ?thesis by (rule limits_from_parts)
qed

lemma float_pages:
  assumes "0 \<le> v"
  shows "in_limits (fst (float_page_bounds least greatest)) (snd (float_page_bounds least greatest)) v \<longleftrightarrow>
     in_limits (map_option hundredths least) (map_option hundredths greatest) (ceil_div (v * 100) LOAD_PAGE_SIZE)"
proof -
  have pos: "0 \<le> ceil_div (v * 100) LOAD_PAGE_SIZE" using assms(1) by (simp add: ceil_div_ge) (simp add: LOAD_PAGE_SIZE_def)
  have lo: "(l - 1) * LOAD_PAGE_SIZE div 100 + 1 \<le> v \<longleftrightarrow> l \<le> ceil_div (v * 100) LOAD_PAGE_SIZE" for l
    by (simp add: ceil_div_ge) linarith
  have hi: "v \<le> u * LOAD_PAGE_SIZE div 100 \<longleftrightarrow> ceil_div (v * 100) LOAD_PAGE_SIZE \<le> u" for u
    by (simp add: ceil_div_le) linarith
  show ?thesis using pos
    by (cases least; cases greatest) (auto simp: in_limits_def float_page_bounds_def lo hi)
qed

lemma msecs:
  assumes "\<forall>l. least = Some l \<longrightarrow> of_int \<lfloor>l\<rfloor> = l" "0 \<le> max_of greatest"
  shows "in_limits (fst (msec_bounds least greatest)) (snd (msec_bounds least greatest)) v \<longleftrightarrow>
     in_limits (map_option floor least) (map_option floor greatest) (stored_value ''prm_msec_to_sec'' v) \<and>
     stored_value ''prm_msec_to_sec'' v \<le> INT_MAX"
proof -
  have st: "stored_value ''prm_msec_to_sec'' v = (if v < 0 then v else ceil_div v 1000)"
    by (simp add: stored_value_def size_conversion_def)
  have pos: "0 \<le> v \<Longrightarrow> 0 \<le> ceil_div v 1000" by (simp add: ceil_div_ge)
  have "in_limits (fst (msec_bounds least greatest)) None v \<longleftrightarrow>
      in_limits (map_option floor least) None (if v < 0 then v else ceil_div v 1000)"
  proof (cases least)
    case (Some l)
    moreover from this obtain m where "l = of_int m" using assms(1) by metis
    ultimately show ?thesis using least_ceil [of 1000 m v] by (auto simp: in_limits_def msec_bounds_def)
  qed (simp add: in_limits_def msec_bounds_def)
  moreover have "in_limits None (snd (msec_bounds least greatest)) v \<longleftrightarrow> (if v < 0 then v else ceil_div v 1000) \<le> max_of greatest"
    using assms(2) by (auto simp: in_limits_def msec_bounds_def ceil_div_le)
  ultimately show ?thesis unfolding st by (rule limits_from_parts)
qed

lemma minutes:
  assumes "\<forall>l. least = Some l \<longrightarrow> of_int \<lfloor>l\<rfloor> = l" "0 \<le> max_of greatest"
  shows "in_limits (fst (minute_bounds least greatest)) (snd (minute_bounds least greatest)) v \<longleftrightarrow>
     in_limits (map_option floor least) (map_option floor greatest) (stored_value ''prm_min_to_sec'' v) \<and>
     stored_value ''prm_min_to_sec'' v \<le> INT_MAX"
proof -
  have st: "stored_value ''prm_min_to_sec'' v = (if v < 0 then v else v * 60)"
    by (simp add: stored_value_def size_conversion_def)
  have up: "\<lceil>l / 60\<rceil> \<le> v \<longleftrightarrow> \<lfloor>l\<rfloor> \<le> v * 60" if "of_int \<lfloor>l\<rfloor> = l" for l :: rat
  proof -
    have "\<lceil>l / 60\<rceil> \<le> v \<longleftrightarrow> l \<le> of_int (v * 60)" by (simp add: ceiling_le_iff field_simps)
    also have "\<dots> \<longleftrightarrow> \<lfloor>l\<rfloor> \<le> v * 60" using that by (metis of_int_le_iff)
    finally show ?thesis .
  qed
  have "in_limits (fst (minute_bounds least greatest)) None v \<longleftrightarrow>
      in_limits (map_option floor least) None (if v < 0 then v else v * 60)"
  proof (cases least)
    case (Some l)
    moreover from this obtain m where "l = of_int m" using assms(1) by metis
    ultimately show ?thesis using up [of l] by (simp add: in_limits_def minute_bounds_def)
  qed (simp add: in_limits_def minute_bounds_def)
  moreover have "in_limits None (snd (minute_bounds least greatest)) v \<longleftrightarrow> (if v < 0 then v else v * 60) \<le> max_of greatest"
    using assms(2) by (auto simp: in_limits_def minute_bounds_def)
  ultimately show ?thesis unfolding st by (rule limits_from_parts)
qed

text \<open>
  C20: The bounds that the web manager checks a value against in the unit it is written in are the engine's
  own limits of what it stores for it. For each of the engine's conversions, a value is within the
  bounds computed from the catalog exactly when its number of pages or seconds, rounded the way the engine
  rounds, is within the limits the catalog gives in that unit and fits the engine's integer.
\<close>

theorem converted_bounds_are_the_engines:
  assumes "differUnitBounds c = Some (least, greatest)" "ec_setDup c = Some f"
    and "\<forall>l. numberOrUndefined (ec_lowerLimit c) = Some l \<longrightarrow> of_int \<lfloor>l\<rfloor> = l \<or> size_conversion f \<and> ec_datatype c = FloatType"
    and "\<forall>u. numberOrUndefined (ec_upperLimit c) = Some u \<longrightarrow> 0 \<le> u"
    and "size_conversion f \<longrightarrow> 0 \<le> v"
  shows "in_limits least greatest v \<longleftrightarrow> engine_allows c f v"
proof -
  define lo hi where "lo = numberOrUndefined (ec_lowerLimit c)" and "hi = numberOrUndefined (ec_upperLimit c)"
  have max: "0 \<le> max_of hi" using assms(4) by (auto simp: max_of_def hi_def INT_MAX_def split: option.splits)
  consider (equal) "f = ''prm_equal_to_ori''" | (size) "size_conversion f" | (msec) "f = ''prm_msec_to_sec''" | (minute) "f = ''prm_min_to_sec''"
    using assms(1,2) unfolding differUnitBounds_def Let_def size_conversion_def by (auto split: if_splits)
  then show ?thesis
  proof cases
    case equal
    then show ?thesis using assms(1,2)
      by (simp add: differUnitBounds_def engine_allows_def stored_value_def size_conversion_def)
  next
    case size
    then have ne: "f \<noteq> ''prm_equal_to_ori''" by (auto simp: size_conversion_def)
    show ?thesis
    proof (cases "ec_datatype c = FloatType")
      case True
      then have b: "(least, greatest) = float_page_bounds lo hi"
        using assms(1,2) size ne by (auto simp: differUnitBounds_def size_conversion_def lo_def hi_def)
      show ?thesis using float_pages [of v lo hi] assms(5) size True b [symmetric]
        by (simp add: engine_allows_def lo_def hi_def)
    next
      case False
      then have b: "(least, greatest) = io_page_bounds lo hi"
        using assms(1,2) size ne by (auto simp: differUnitBounds_def size_conversion_def lo_def hi_def)
      show ?thesis using io_pages [of v lo hi] assms(3,5) size False ne b [symmetric]
        by (auto simp: engine_allows_def stored_value_def lo_def hi_def)
    qed
  next
    case msec
    then have b: "(least, greatest) = msec_bounds lo hi" "\<not> size_conversion f"
      using assms(1,2) by (auto simp: differUnitBounds_def size_conversion_def lo_def hi_def)
    have whole: "\<forall>l. lo = Some l \<longrightarrow> of_int \<lfloor>l\<rfloor> = l" using assms(3) b(2) by (simp add: lo_def)
    show ?thesis using msecs [OF whole max, of v, folded b(1)] b(2) msec by (simp add: engine_allows_def lo_def hi_def)
  next
    case minute
    then have b: "(least, greatest) = minute_bounds lo hi" "\<not> size_conversion f"
      using assms(1,2) by (auto simp: differUnitBounds_def size_conversion_def lo_def hi_def)
    have whole: "\<forall>l. lo = Some l \<longrightarrow> of_int \<lfloor>l\<rfloor> = l" using assms(3) b(2) by (simp add: lo_def)
    show ?thesis using minutes [OF whole max, of v, folded b(1)] b(2) minute by (simp add: engine_allows_def lo_def hi_def)
  qed
qed

definition sample_buffer_param :: EngineCatalogDbParam where
  "sample_buffer_param = \<lparr>ec_key = ''data_buffer_size'', ec_datatype = IntegerType, ec_deprecated = False, ec_obsoleted = False,
     ec_sizeUnit = True, ec_timeUnit = False, ec_differUnit = True, ec_defaultValue = Some ''32768'',
     ec_lowerLimit = Some ''1024'', ec_upperLimit = None, ec_setDup = Some ''prm_size_to_io_pages'', ec_keywords = None, ec_flags = [''PRM_FOR_SERVER'']\<rparr>"

lemma sample_limits:
  "numberOrUndefined (ec_lowerLimit sample_buffer_param) = Some 1024" "numberOrUndefined (ec_upperLimit sample_buffer_param) = None"
proof -
  have d: "digits_value ''1024'' = 1024" "is_number_text ''1024''" by code_simp+
  have w: "takeWhile is_digit ''1024'' = ''1024''" "dropWhile is_digit ''1024'' = []" by code_simp+
  have "decimal_prefix ''1024'' = Some (1024, [])"
    unfolding decimal_prefix_def sign_of_def mantissa_of_def exponent_of_def Let_def
    by (simp add: w [simplified] d [simplified])
  then show "numberOrUndefined (ec_lowerLimit sample_buffer_param) = Some 1024"
    using num_int_exact [of 1024] by (simp add: numberOrUndefined_def exact_number_def sample_buffer_param_def d number_of_def num_int_def)
qed (simp add: numberOrUndefined_def exact_number_def sample_buffer_param_def)

theorem converted_bounds_are_the_engines_witness:
  "\<not> engine_allows sample_buffer_param ''prm_size_to_io_pages'' 16760832 \<and>
   engine_allows sample_buffer_param ''prm_size_to_io_pages'' 16760833"
proof -
  have b: "differUnitBounds sample_buffer_param = Some (Some 16760833, Some 35184372072448)"
    by (simp add: differUnitBounds_def sample_limits) (simp add: sample_buffer_param_def io_page_bounds_def max_of_def LOAD_PAGE_SIZE_def INT_MAX_def)
  have f: "ec_setDup sample_buffer_param = Some ''prm_size_to_io_pages''" by (simp add: sample_buffer_param_def)
  show ?thesis
    using converted_bounds_are_the_engines [OF b f, of 16760832] converted_bounds_are_the_engines [OF b f, of 16760833]
    by (simp add: sample_limits in_limits_def)
qed

section \<open>Defaults read back\<close>

lemma size_units_read:
  "map_of ENGINE_SIZE_UNIT_BYTES (upper []) = Some (Num 1)"
  "(u, f) \<in> set SIZE_UNIT_BYTES \<Longrightarrow> map_of ENGINE_SIZE_UNIT_BYTES (upper u) = Some (Num (of_int f)) \<and> 0 < f"
proof -
  have up: "upper [] = []" "upper ''T'' = ''T''" "upper ''G'' = ''G''" "upper ''M'' = ''M''" "upper ''K'' = ''K''" by code_simp+
  show "map_of ENGINE_SIZE_UNIT_BYTES (upper []) = Some (Num 1)" by (simp add: up ENGINE_SIZE_UNIT_BYTES_def)
  show "map_of ENGINE_SIZE_UNIT_BYTES (upper u) = Some (Num (of_int f)) \<and> 0 < f" if "(u, f) \<in> set SIZE_UNIT_BYTES"
    using that by (auto simp: SIZE_UNIT_BYTES_def up ENGINE_SIZE_UNIT_BYTES_def)
qed

lemma whole_parts:
  assumes "find (\<lambda>(u, f). x mod f = 0) units = Some (u, f)" "\<forall>(u, f) \<in> set units. 0 < f" "0 \<le> x" "x < 2 ^ 53"
  shows "(u, f) \<in> set units" "int (nat (x div f)) * f = x" "nat (x div f) < 2 ^ 53" "int_str (x div f) = nat_str (nat (x div f))"
proof -
  show m: "(u, f) \<in> set units" using assms(1) by (auto dest: find_SomeD)
  have f: "0 < f" "x mod f = 0" using assms(1,2) m by (auto dest: find_SomeD)
  then have d: "0 \<le> x div f" "x div f * f = x" using assms(3) by (auto simp: pos_imp_zdiv_nonneg_iff)
  then show "int (nat (x div f)) * f = x" by simp
  have "x div f * 1 \<le> x div f * f" using f(1) d(1) by (intro mult_left_mono) linarith+
  then have "x div f < 2 ^ 53" using d(2) assms(4) by linarith
  then have "nat (x div f) < nat (2 ^ 53)" by (subst nat_less_eq_zless) (simp_all add: d(1))
  then show "nat (x div f) < 2 ^ 53" by simp
  show "int_str (x div f) = nat_str (nat (x div f))" using d by (simp add: int_str_def)
qed

lemma bytes_read_back:
  assumes "0 \<le> bytes" "bytes < 2 ^ 53"
  shows "parseEngineSizeToBytes (bytesToConf bytes) = Some (Num (of_int bytes))"
proof (cases "bytes = 0")
  case True
  have "''0'' = nat_str 0 @ []" by code_simp
  then show ?thesis using True size_of_whole_units [OF _ size_units_read(1), of 0] by (simp add: bytesToConf_def)
next
  case False
  show ?thesis
  proof (cases "find (\<lambda>(unit, factor). bytes mod factor = 0) SIZE_UNIT_BYTES")
    case None
    have "nat bytes < nat (2 ^ 53)" using assms by (subst nat_less_eq_zless) simp_all
    then have "nat bytes < 2 ^ 53" by simp
    then show ?thesis using False None assms(1) size_of_whole_units [OF _ size_units_read(1), of "nat bytes"]
      by (simp add: bytesToConf_def int_str_def)
  next
    case (Some uf)
    obtain u f where uf: "uf = (u, f)" by (cases uf)
    have pos: "\<forall>(u, f) \<in> set SIZE_UNIT_BYTES. 0 < f" by (simp add: SIZE_UNIT_BYTES_def)
    note parts = whole_parts [OF Some [unfolded uf] pos assms]
    have unit: "map_of ENGINE_SIZE_UNIT_BYTES (upper u) = Some (Num (of_int f))" using size_units_read(2) [OF parts(1)] by blast
    have "of_nat (nat (bytes div f)) * of_int f = (of_int bytes :: rat)"
      using arg_cong [OF parts(2), of "of_int :: int \<Rightarrow> rat"] by (simp only: of_int_mult of_int_of_nat_eq)
    moreover have "parseEngineSizeToBytes (nat_str (nat (bytes div f)) @ u) = Some (Num (of_nat (nat (bytes div f)) * of_int f))"
      by (rule size_of_whole_units [OF parts(3) unit])
    moreover have "bytesToConf bytes = nat_str (nat (bytes div f)) @ u" using False Some parts(4) by (simp add: bytesToConf_def uf)
    ultimately show ?thesis by (simp only:)
  qed
qed

lemma num_range_int: "num_range (Num (of_int n)) low high mn mx = None \<longleftrightarrow> in_limits mn mx n"
  by (auto simp: range_accepts in_limits_def split: option.splits)

lemma time_units:
  assumes "(u, f) \<in> insert ('''', 1) (insert (''ms'', 1) (set TIME_UNITS))"
  shows "map_of ENGINE_TIME_UNIT_MS (lower u) = Some (Num (of_int f)) \<and> 0 < f \<and>
     list_all (\<lambda>c. \<not> js_ws c \<and> \<not> isIniSpace c \<and> \<not> is_digit c \<and> c \<noteq> CHR ''.'' \<and> c \<noteq> CHR ''e'' \<and> c \<noteq> CHR ''E'') u"
proof -
  have low: "lower [] = []" "lower ''ms'' = ''ms''" "lower ''h'' = ''h''" "lower ''min'' = ''min''" "lower ''s'' = ''s''" by code_simp+
  have "list_all (\<lambda>c. \<not> js_ws c \<and> \<not> isIniSpace c \<and> \<not> is_digit c \<and> c \<noteq> CHR ''.'' \<and> c \<noteq> CHR ''e'' \<and> c \<noteq> CHR ''E'') ''hmins''"
    by code_simp
  then show ?thesis using assms by (auto simp: TIME_UNITS_def ENGINE_TIME_UNIT_MS_def low)
qed

lemma time_of_whole_units:
  assumes "(u, f) \<in> insert ('''', 1) (insert (''ms'', 1) (set TIME_UNITS))" "int n * f < 2 ^ 53"
  shows "time_reason mn mx (nat_str n @ u) = None \<longleftrightarrow> in_limits mn mx (int n * f)"
proof -
  have u: "map_of ENGINE_TIME_UNIT_MS (lower u) = Some (Num (of_int f))" "0 < f"
    and chars: "list_all (\<lambda>c. \<not> js_ws c \<and> \<not> isIniSpace c \<and> \<not> is_digit c \<and> c \<noteq> CHR ''.'' \<and> c \<noteq> CHR ''e'' \<and> c \<noteq> CHR ''E'') u"
    using time_units [OF assms(1)] by auto
  have "\<forall>c \<in> set (nat_str n @ u). \<not> js_ws c \<and> \<not> isIniSpace c"
    using chars nat_str_digits [of n] digit_not_ws digit_plain by (auto simp: list_all_iff)
  then have t: "trim (nat_str n @ u) = nat_str n @ u" "dropWhile isIniSpace (nat_str n @ u) = nat_str n @ u"
    by (auto intro!: trim_no_ws dropWhile_none)
  have d: "decimal_prefix (nat_str n @ u) = Some (of_nat n, u)" using chars by (intro decimal_whole) (simp add: list_all_iff)
  have "int n * 1 \<le> int n * f" using u(2) by (intro mult_left_mono) simp_all
  then have r: "to_double (of_nat n) = Num (of_nat n)" using num_int_exact [of "int n"] assms(2) by (simp add: num_int_def)
  have p: "num_mult (Num (of_nat n)) (Num (of_int f)) = Num (of_int (int n * f))"
    using num_int_exact [of "int n * f"] assms(2) u(2) by (simp add: num_int_def)
  have "time_reason mn mx (nat_str n @ u) = num_range (Num (of_int (int n * f))) MsAtLeast MsAtMost mn mx"
    unfolding time_reason_def t parseLeadingNumber_def d option.case prod.case r u(1) unit_factor_def p num_trunc.simps trunc_rat_def
      floor_of_int ceiling_of_int if_cancel by simp
  then show ?thesis by (simp only: num_range_int)
qed

lemma time_of_negative:
  assumes "ms < 0" "- ms < 2 ^ 53"
  shows "time_reason mn mx (int_str ms) = None \<longleftrightarrow> in_limits mn mx ms"
proof -
  let ?n = "nat (- ms)"
  have s: "int_str ms = CHR ''-'' # nat_str ?n" using assms(1) by (simp add: int_str_def)
  have t: "trim (int_str ms) = int_str ms" "dropWhile isIniSpace (int_str ms) = int_str ms"
    using int_str_plain by (auto intro!: trim_no_ws dropWhile_none)
  have "decimal_prefix (nat_str ?n @ []) = Some (of_nat ?n, [])" by (rule decimal_whole) simp
  moreover have "sign_of (nat_str ?n) = (1, nat_str ?n)"
    using nat_str_hd [of ?n] nat_str_nonempty [of ?n] by (cases "nat_str ?n") (auto simp: sign_of_def dest: digit_plain)
  ultimately have "decimal_prefix (int_str ms) = Some (- of_nat ?n, [])"
    by (auto simp: decimal_prefix_def s sign_of_def split: option.splits prod.splits)
  moreover have "(- of_nat ?n :: rat) = of_int ms" using assms(1) by simp
  ultimately have d: "decimal_prefix (int_str ms) = Some (of_int ms, [])" by simp
  have r: "to_double (of_int ms) = Num (of_int ms)" using num_int_exact [of ms] assms by (simp add: num_int_def)
  have neg: "num_less (Num (of_int ms)) (Num 0)" using assms(1) by simp
  have "time_reason mn mx (int_str ms) = num_range (Num (of_int ms)) MsAtLeast MsAtMost mn mx"
    unfolding time_reason_def t parseLeadingNumber_def d option.case prod.case r num_trunc.simps trunc_rat_def
      floor_of_int ceiling_of_int if_cancel using neg by simp
  then show ?thesis by (simp only: num_range_int)
qed

lemma times_read_back:
  assumes "\<bar>ms\<bar> < 2 ^ 53"
  shows "time_reason mn mx (msecToConf ms) = None \<longleftrightarrow> in_limits mn mx ms"
proof (cases "ms < 0")
  case True
  then show ?thesis using time_of_negative [of ms] assms by (simp add: msecToConf_def)
next
  case False
  show ?thesis
  proof (cases "ms = 0")
    case True
    have "int_str 0 = nat_str 0 @ []" by code_simp
    then show ?thesis using True time_of_whole_units [of "[]" 1 0] by (simp add: msecToConf_def)
  next
    case pos: False
    show ?thesis
    proof (cases "find (\<lambda>(unit, factor). ms mod factor = 0) TIME_UNITS")
      case None
      then show ?thesis using False pos assms time_of_whole_units [of "''ms''" 1 "nat ms"] by (simp add: msecToConf_def int_str_def)
    next
      case (Some uf)
      obtain u f where uf: "uf = (u, f)" by (cases uf)
      have units: "\<forall>(u, f) \<in> set TIME_UNITS. 0 < f" by (simp add: TIME_UNITS_def)
      have "0 \<le> ms" "ms < 2 ^ 53" using False assms by simp_all
      note parts = whole_parts [OF Some [unfolded uf] units this]
      have "(u, f) \<in> insert ('''', 1) (insert (''ms'', 1) (set TIME_UNITS))" using parts(1) by blast
      moreover have "msecToConf ms = nat_str (nat (ms div f)) @ u" using False pos Some parts(4) by (simp add: msecToConf_def uf)
      ultimately show ?thesis
        using time_of_whole_units [of u f "nat (ms div f)" mn mx] \<open>ms < 2 ^ 53\<close> by (simp only: parts(2))
    qed
  qed
qed



end
