(* ===== verification/Spec2Isabelle.thy ===== *)
theory Spec2Isabelle
  imports HostDialogs HaFacts DatabaseThunks SharedReads PropertiesFacts ImportFacts CmsJobStoreFacts
    CmsJobFacts AsyncPoll CmsTokens ServerHostFacts ReconnectFlow RefreshTokenFacts CmsJobClientFacts
    ConfProps ConfRename HostConfFacts SchemaVersions EngineCatalogFacts
begin

text \<open>
  A verification library for CUBRID Web Manager: a web client (\<open>apps/web-manager\<close>, React and
  Redux) that manages CUBRID database servers, and the API server behind it (\<open>apps/api-server\<close>,
  NestJS), which keeps each user's hosts and runs work on the manager service (CMS) of a host.

  The parts and how they interact.

  \<^item> The user's hosts form a tree of groups. The server stores it and checks every change
    (\<open>host/host.service.ts\<close>, \<open>host/host-group.util.ts\<close>: theory \<open>ServerHosts\<close>, facts in
    \<open>ServerHostFacts\<close>) and sends it, without credentials, to the client.
  \<^item> The client keeps the tree, its selection, sessions, HA information and dialogs in one Redux
    slice (\<open>features/host/hostSlice.js\<close>: \<open>HostState\<close> for the data, \<open>HostReducers\<close> for the
    reducers, \<open>HostThunks\<close> for the asynchronous actions, \<open>HostBatch\<close> for the login of many
    hosts, \<open>HostDialogs\<close> for the dialogs they open, \<open>HostInvariants\<close> and \<open>HostFacts\<close> for
    what holds of it), over the lookups of \<open>hostGroupUtils.js\<close> (\<open>HostGroups\<close>) and the HA
    planning of \<open>haPeerUtils.js\<close> (\<open>HaPeers\<close>, \<open>HaFacts\<close>).
  \<^item> Hosts can be written to a file and read from one, also from the workspace of the older desktop
    tool (\<open>hostImportExport.js\<close>: \<open>PropertiesText\<close> for the Java properties in it, with
    \<open>PropertiesFacts\<close>; \<open>HostImport\<close> for the rest, with \<open>ImportFacts\<close>).
  \<^item> The databases of a host come from its start information. Requests for it are shared and
    numbered (\<open>infrastructure/utils/singleFlight.js\<close>: \<open>SharedReads\<close>), and the database slice lets an
    answer in by its number (\<open>databaseCoreSlice.js\<close>: \<open>DatabaseCore\<close>, \<open>DatabaseFacts\<close>,
    \<open>DatabaseProps\<close>, \<open>DatabaseThunks\<close>).
  \<^item> Work that takes long is a job of the server (\<open>cms-job\<close>): \<open>CmsJobs\<close> for the files and the
    outcome of one job, \<open>CmsJobServer\<close> for jobs and requests as interleaved steps, \<open>CmsJobFacts\<close>
    and \<open>CmsJobStoreFacts\<close> for what holds. \<open>AsyncPoll\<close> is the loop that waits for the manager
    service (\<open>common/poll-cms-async-job.ts\<close>), \<open>CmsResponses\<close> the reading of its answers, and
    \<open>CmsTokens\<close> the record of its sessions (\<open>cms-token-activity.ts\<close>).
  \<^item> The client follows its jobs until they are over (\<open>databaseJobApi.js\<close>, \<open>cmsJobRunner.js\<close>,
    \<open>cmsJobUtils.js\<close>, \<open>CmsJobContext.jsx\<close>: \<open>CmsJobClient\<close>, \<open>CmsJobClientFacts\<close>): one poll for a job, a
    list of jobs, and a queue of results to show, over answers, timers, clicks and logouts.
  \<^item> Users sign in with a password and keep their session with refresh tokens that are used once
    (\<open>auth/auth.service.ts\<close>, \<open>token/refresh-token.service.ts\<close>, \<open>token-blacklist.service.ts\<close>,
    \<open>jwt-strategy.ts\<close>: \<open>RefreshTokens\<close>, \<open>RefreshTokenFacts\<close>). Every call of the file system is a step, so that
    requests interleave as they do on the server.
  \<^item> The server edits \<open>cubrid.conf\<close> of a host when a database is added to the autostart list, taken off it,
    renamed or deleted (\<open>database/config/cubrid-conf-edit.ts\<close>: \<open>ConfEdit\<close>), over the reader that follows the
    engine's own (\<open>param-schema/parse-conf-text.ts\<close>: \<open>ConfText\<close>). \<open>ConfReading\<close> and \<open>ConfEditFacts\<close>
    say what is read from lines and keys, \<open>ConfServerList\<close> what an edit of the lists does to a file,
    \<open>ConfSections\<close> what happens to sections; \<open>ConfProps\<close> and \<open>ConfRename\<close> have the properties.
  \<^item> Users edit the configuration files too, in tables and as text. The rules for a key and a value come from tables
    by engine version (\<open>param-schema\<close>: \<open>ParamGuards\<close> for values, over the doubles of \<open>JsNumber\<close>, \<open>ParamSchema\<close> and
    \<open>DatabaseParamSchema\<close> for the tables, \<open>ParamCheck\<close> for the values of one section, \<open>ConfCheck\<close> for a whole
    text) and from the engine's own list of parameters (\<open>engine-catalog\<close>: \<open>EngineCatalog\<close>). \<open>ParamGuardFacts\<close>,
    \<open>SchemaVersions\<close>, \<open>ConfCheckFacts\<close>, \<open>ConfAccept\<close> and \<open>EngineCatalogFacts\<close> say what an accepted value, table and
    text are.
  \<^item> Every writer of a host's files waits in one queue (\<open>host-config-mutex.ts\<close>, \<open>cms-config.service.ts\<close>,
    \<open>database-config.service.ts\<close>: \<open>HostConf\<close>, \<open>HostConfFacts\<close>), reads the file, decides with the edits or the
    checks above, and writes it back, while requests for other hosts and of other users run in between.
  \<^item> Every request of the client goes through \<open>api/apiClient.js\<close> (\<open>ApiClient\<close>, \<open>ApiClientFacts\<close>): it
    renews the access token, logs in to a host again, or has the host slice ask the user.
    \<open>ReconnectFlow\<close> puts it together with the host slice and the reconnect dialog
    (\<open>ReconnectHostModal.jsx\<close>).

  \<open>JsPrelude\<close> has what all of them share: JavaScript objects as association lists in insertion
  order, with the interface of a keyed store as a locale; strings, numbers and values; and the
  locales for runs of steps that keep an invariant or a mark.

  Correspondence. Every definition has the name of the function, reducer or thunk it translates; a
  piece of a longer function has a name of its own and is mapped to its lines. A reducer is a
  function from state to state, or to a sum where it can raise. A thunk is a function of the answers
  it gets, composed with the dispatches it makes. Requests to a server, the clock, new ids, the
  browser's storage, parsers and sort order of texts are arguments. Where operations interleave
  (reads, logins, jobs) the model is a step function on events, and the properties hold for all
  sequences of events.

  What is shown: invariants of the slices over all runs; which late answers cannot undo newer
  state; that a login opens at most one dialog and a batch accounts for every host; that plans for
  HA peers are exact; that files read back as written; that the server's tree never has two hosts
  with one name or connection and its operations refine updates of a map; that there is one job at
  a time on a database, on schedules that are not interrupted between registration and write, and
  that this condition is needed; that recovery and clean-up of jobs do what they are for, that polling
  ends, and that a session that ended stays ended; that every failed request is answered once, that
  neither a late failure nor one of a host the user is being asked about changes anything, when the
  silent re-login stops and when it does not, and how a reconnect prompt is lost for good; that a
  refresh token gives one pair of tokens, that one that was revoked or a logged out access token is
  refused, and what a replay revokes and what it misses; that the client lists a job once, takes it
  for failed only when the server said so, and shows no result of an old session; that every edit of
  \<open>cubrid.conf\<close> has its effect on what the engine reads and leaves the value of every other key; that a value
  is accepted exactly within the engine's own bounds and an accepted text obeys every rule; that brokers
  start with an accepted configuration, and that no run of requests leaves a host without one; that the
  writers of a file do not lose each other's edits, and none waits forever.

  Bounds. Characters are those of Latin-1, except in \<open>PropertiesText\<close>, where text is a list of 16-bit code
  units. Integers of the source stay far below 2^53 and are \<open>int\<close> or \<open>nat\<close>; numbers that a user types are doubles, as
  exact rationals with the rounding written out. There is no fuel: the only
  loop that need not end is the polling loop of the server, a partial function whose end is proved.

  Not modelled: rendering and React effects; tables of texts, styles and generated catalogs; the
  framework wiring of the server; transport, encryption and the file system beyond missing and
  unreadable files; hashing, signing and encryption; slices that only hold the answer of one request. The database and user
  services of the server, and the parts of the configuration service that only ask the manager, are sequences
  of manager calls.
\<close>

end
